(* ===== verification/GoPrelude.thy ===== *)
theory GoPrelude
  imports Main "HOL-Library.AList" "HOL-Library.Multiset" "HOL-Library.Sublist"
begin

text \<open>
  What the components share: the reading of Go values in HOL.
  \<^item> A pointer is an \<open>option\<close> (\<open>None\<close> is nil); a slice is an optional list, because the
    code tells a nil slice from an empty one.
  \<^item> A run-time panic (nil dereference, failed type assertion, call of \<open>panic\<close>) is the
    value \<open>Panic\<close> of \<open>outcome\<close>; \<open>and_then\<close> sequences computations that may panic.
  \<^item> A Go map is an association list with distinct keys. The order in which \<open>range\<close> visits
    a map is unspecified in Go: it is a value of the type \<open>order\<close> of permutations, an
    argument of every definition that ranges over a map.
  The locale \<open>key_map\<close> is the contract of such a map; the loops over maps are proved once
  in it and used through its interpretation \<open>gm\<close>.
\<close>

named_theorems outcome_simps \<open>rewriting of computations that may panic\<close>

section \<open>Panics and pointers\<close>

datatype 'a outcome = Panic | Ret 'a

fun and_then :: "'a outcome \<Rightarrow> ('a \<Rightarrow> 'b outcome) \<Rightarrow> 'b outcome" where
  "and_then Panic f = Panic"
| "and_then (Ret x) f = f x"

fun deref :: "'a option \<Rightarrow> 'a outcome" where
  "deref None = Panic"
| "deref (Some x) = Ret x"

type_synonym 'a slice = "'a list option"

definition elems :: "'a slice \<Rightarrow> 'a list" where
  "elems s = (case s of None \<Rightarrow> [] | Some xs \<Rightarrow> xs)"

lemma elems_simps [simp]:
  "elems None = []"
  "elems (Some xs) = xs"
  by (simp_all add: elems_def)

lemma and_then_eq_Ret [outcome_simps]:
  "and_then m f = Ret y \<longleftrightarrow> (\<exists>x. m = Ret x \<and> f x = Ret y)"
  by (cases m) auto

lemma and_then_eq_Panic [outcome_simps]:
  "and_then m f = Panic \<longleftrightarrow> m = Panic \<or> (\<exists>x. m = Ret x \<and> f x = Panic)"
  by (cases m) auto

lemma deref_eq_Ret [outcome_simps]: "deref p = Ret x \<longleftrightarrow> p = Some x"
  by (cases p) auto

lemma deref_eq_Panic [outcome_simps]: "deref p = Panic \<longleftrightarrow> p = None"
  by (cases p) auto

lemma and_then_assoc: "and_then (and_then m f) g = and_then m (\<lambda>x. and_then (f x) g)"
  by (cases m) auto

section \<open>Iteration orders of maps\<close>

typedef order = "{f :: string list \<Rightarrow> string list. \<forall>ks. mset (f ks) = mset ks}"
  morphisms visit Order
proof
  show "(\<lambda>ks. ks) \<in> {f. \<forall>ks. mset (f ks) = mset ks}" by simp
qed

setup_lifting type_definition_order

lift_definition stored_order :: order is "\<lambda>ks. ks" by simp

lift_definition reverse_order :: order is rev by simp

lemma visit_stored [simp]: "visit stored_order ks = ks"
  by (simp add: stored_order.rep_eq)

lemma visit_reverse [simp]: "visit reverse_order ks = rev ks"
  by (simp add: reverse_order.rep_eq)

lemma mset_visit [simp]: "mset (visit ord ks) = mset ks"
  using visit [of ord] by simp

lemma set_visit [simp]: "set (visit ord ks) = set ks"
  by (metis mset_visit set_mset_mset)

lemma length_visit [simp]: "length (visit ord ks) = length ks"
  by (metis mset_visit size_mset)

lemma distinct_visit [simp]: "distinct (visit ord ks) = distinct ks"
  by (metis mset_visit mset_eq_imp_distinct_iff)

lemma visit_Nil [simp]: "visit ord [] = []"
  by (metis length_0_conv length_visit)

text \<open>One call of an operation runs several loops, each in an order of its own.\<close>

type_synonym sched = "nat \<Rightarrow> order"

section \<open>Maps\<close>

locale key_map =
  fixes get :: "'m \<Rightarrow> 'k \<Rightarrow> 'v option"
    and put :: "'k \<Rightarrow> 'v \<Rightarrow> 'm \<Rightarrow> 'm"
    and del :: "'k \<Rightarrow> 'm \<Rightarrow> 'm"
    and keys :: "'m \<Rightarrow> 'k list"
    and wf :: "'m \<Rightarrow> bool"
  assumes get_put: "get (put k v m) = (get m)(k \<mapsto> v)"
    and get_del: "get (del k m) = (get m)(k := None)"
    and wf_put: "wf m \<Longrightarrow> wf (put k v m)"
    and wf_del: "wf m \<Longrightarrow> wf (del k m)"
    and set_keys: "set (keys m) = dom (get m)"
    and distinct_keys: "wf m \<Longrightarrow> distinct (keys m)"
begin

lemma keys_get: "k \<in> set (keys m) \<longleftrightarrow> get m k \<noteq> None"
  by (auto simp: set_keys)

lemma fold_put: "get (fold (\<lambda>(k, v). put k v) kvs m) = get m ++ map_of (rev kvs)"
  by (induction kvs arbitrary: m) (auto simp: get_put map_add_def fun_eq_iff split: option.splits)

lemma wf_fold_put: "wf m \<Longrightarrow> wf (fold (\<lambda>(k, v). put k v) kvs m)"
  by (induction kvs arbitrary: m) (auto simp: wf_put)

text \<open>A loop over keys that deletes the keys satisfying a test.\<close>

lemma fold_del:
  "get (fold (\<lambda>k m. if P k then del k m else m) ks m) k =
     (if k \<in> set ks \<and> P k then None else get m k)"
  by (induction ks arbitrary: m) (auto simp: get_del)

lemma wf_fold_del: "wf m \<Longrightarrow> wf (fold (\<lambda>k m. if P k then del k m else m) ks m)"
  by (induction ks arbitrary: m) (auto simp: wf_del)

text \<open>A loop over keys that copies the entries a source map has for them.\<close>

lemma fold_copy:
  "get (fold (\<lambda>k m. case src k of None \<Rightarrow> m | Some v \<Rightarrow> put k v m) ks m) k =
     (if k \<in> set ks \<and> src k \<noteq> None then src k else get m k)"
  by (induction ks arbitrary: m) (auto simp: get_put split: option.splits)

lemma wf_fold_copy:
  "wf m \<Longrightarrow> wf (fold (\<lambda>k m. case src k of None \<Rightarrow> m | Some v \<Rightarrow> put k v m) ks m)"
  by (induction ks arbitrary: m) (auto simp: wf_put split: option.splits)

end

type_synonym 'v gomap = "(string \<times> 'v) list"

definition mget :: "'v gomap \<Rightarrow> string \<Rightarrow> 'v option" where
  "mget m = map_of m"

definition mput :: "string \<Rightarrow> 'v \<Rightarrow> 'v gomap \<Rightarrow> 'v gomap" where
  "mput k v m = AList.update k v m"

definition mdel :: "string \<Rightarrow> 'v gomap \<Rightarrow> 'v gomap" where
  "mdel k m = AList.delete k m"

definition mkeys :: "'v gomap \<Rightarrow> string list" where
  "mkeys m = map fst m"

definition mwf :: "'v gomap \<Rightarrow> bool" where
  "mwf m \<longleftrightarrow> distinct (map fst m)"

lemmas gomap_defs = mget_def mput_def mdel_def mkeys_def mwf_def

interpretation gm: key_map mget mput mdel mkeys mwf
  by unfold_locales
    (auto simp: gomap_defs update_conv' delete_conv' distinct_update distinct_delete
      dom_map_of_conv_image_fst)

lemma mwf_Nil [simp]: "mwf []"
  by (simp add: mwf_def)

lemma mget_Nil [simp]: "mget [] = Map.empty"
  by (simp add: mget_def)

lemma mget_eq_empty [simp]: "mget m = Map.empty \<longleftrightarrow> m = []"
  by (simp add: mget_def)

lemma map_of_eqI:
  assumes "distinct (map fst kvs)" and "\<And>k v. (k, v) \<in> set kvs \<longleftrightarrow> M k = Some v"
  shows "map_of kvs = M"
proof
  fix k
  show "map_of kvs k = M k"
  proof (cases "M k")
    case None
    with assms(2) have "\<And>v. (k, v) \<notin> set kvs" by simp
    then have "k \<notin> fst ` set kvs" by auto
    with None show ?thesis by (simp add: map_of_eq_None_iff)
  next
    case (Some v)
    with assms show ?thesis by simp
  qed
qed

lemma map_of_rev_distinct: "distinct (map fst kvs) \<Longrightarrow> map_of (rev kvs) = map_of kvs"
  by (rule map_of_eqI) (simp_all add: rev_map [symmetric])

text \<open>The entries a \<open>range\<close> loop over an unchanged map visits, in the order it visits them.\<close>

definition entries :: "order \<Rightarrow> 'v gomap \<Rightarrow> (string \<times> 'v) list" where
  "entries ord m = map (\<lambda>k. (k, the (mget m k))) (visit ord (mkeys m))"

lemma fst_entries [simp]: "map fst (entries ord m) = visit ord (mkeys m)"
  by (simp add: entries_def comp_def)

lemma fst_set_entries [simp]: "fst ` set (entries ord m) = set (mkeys m)"
  by (force simp: entries_def)

lemma set_entries: "mwf m \<Longrightarrow> set (entries ord m) = set m"
  by (force simp: entries_def gomap_defs)

lemma entries_mem: "(k, v) \<in> set (entries ord m) \<longleftrightarrow> mget m k = Some v"
  by (auto simp: entries_def gm.keys_get)

lemma snd_entries_mem: "v \<in> snd ` set (entries ord m) \<longleftrightarrow> (\<exists>k. mget m k = Some v)"
proof -
  have "v \<in> snd ` set (entries ord m) \<longleftrightarrow> (\<exists>k. (k, v) \<in> set (entries ord m))"
    by (auto intro: rev_image_eqI)
  then show ?thesis by (simp only: entries_mem)
qed

lemma map_of_entries: "mwf m \<Longrightarrow> map_of (entries ord m) = mget m"
  by (rule map_of_eqI) (simp_all add: entries_mem gm.distinct_keys)

text \<open>A loop over a map that stores the entries passing a test into another map.\<close>

lemma mget_put_entries:
  assumes "mwf m"
  shows "mget (fold (\<lambda>(k, v). mput k v) (filter P (entries ord m)) a) k =
    (case mget m k of None \<Rightarrow> mget a k | Some v \<Rightarrow> if P (k, v) then Some v else mget a k)"
proof -
  let ?kvs = "rev (filter P (entries ord m))"
  have d: "distinct (map fst ?kvs)"
    using gm.distinct_keys [OF assms] by (simp add: rev_map [symmetric] distinct_map_filter)
  have "(k, v) \<in> set ?kvs \<longleftrightarrow> mget m k = Some v \<and> P (k, v)" for k v
    by (auto simp: entries_mem)
  then have "map_of ?kvs = (\<lambda>k. case mget m k of None \<Rightarrow> None | Some v \<Rightarrow> if P (k, v) then Some v else None)"
    by (intro map_of_eqI [OF d]) (auto split: option.splits if_splits)
  then show ?thesis
    by (auto simp: gm.fold_put map_add_def split: option.splits)
qed

end
