(* ===== verification/ApiTypes.thy ===== *)
theory ApiTypes
  imports GoPrelude
begin

text \<open>
  The custom resource of the controller (\<open>apis/v1alpha1/types.go\<close>,
  \<open>apis/v1alpha1/global_network.go\<close>) as records, field by field: a pointer field is an
  \<open>option\<close>, a \<open>[]*T\<close> field a slice of optional elements, since an element may be a nil
  pointer. The Kubernetes and ACK structs embedded in it (\<open>ObjectMeta\<close>, \<open>Condition\<close>,
  \<open>ResourceMetadata\<close>) are records of the fields this code reads or writes; the field
  \<open>om_rest\<close> stands for all the others, which no code of the repository touches.
  An instant of time is an \<open>int\<close>; nothing here computes with it.
\<close>

type_synonym gotime = int

section \<open>Embedded structs\<close>

record type_meta =
  Kind :: string
  APIVersion :: string

record object_meta =
  om_Name :: string
  om_Namespace :: string
  DeletionTimestamp :: "gotime option"
  Finalizers :: "string slice"
  Annotations :: "string gomap option"
  om_rest :: string

record resource_metadata =
  ARN :: "string option"
  OwnerAccountID :: "string option"
  Region :: "string option"
  Partition :: "string option"

record condition =
  cond_Type :: string
  cond_Status :: string
  cond_LastTransitionTime :: "gotime option"
  cond_Message :: "string option"
  cond_Reason :: "string option"

text \<open>\<open>&ackv1alpha1.ResourceMetadata{}\<close> and \<open>&ackv1alpha1.Condition{Type: t}\<close>: every other field zero.\<close>

definition empty_metadata :: resource_metadata where
  "empty_metadata = \<lparr>ARN = None, OwnerAccountID = None, Region = None, Partition = None\<rparr>"

definition new_condition :: "string \<Rightarrow> condition" where
  "new_condition t = \<lparr>cond_Type = t, cond_Status = '''', cond_LastTransitionTime = None,
     cond_Message = None, cond_Reason = None\<rparr>"

lemma empty_metadata_sel [simp]:
  "ARN empty_metadata = None" "OwnerAccountID empty_metadata = None"
  "Region empty_metadata = None" "Partition empty_metadata = None"
  by (simp_all add: empty_metadata_def)

lemma cond_Type_new [simp]: "cond_Type (new_condition t) = t"
  by (simp add: new_condition_def)

section \<open>The GlobalNetwork resource\<close>

record tag =
  Key :: "string option"
  Value :: "string option"

record GlobalNetworkSpec =
  Description :: "string option"
  Tags :: "tag option slice"

record GlobalNetworkStatus =
  ACKResourceMetadata :: "resource_metadata option"
  Conditions :: "condition option slice"
  CreatedAt :: "gotime option"
  GlobalNetworkID :: "string option"
  State :: "string option"

record GlobalNetwork =
  TypeMeta :: type_meta
  ObjectMeta :: object_meta
  Spec :: GlobalNetworkSpec
  Status :: GlobalNetworkStatus

text \<open>A list of resources; of its \<open>ListMeta\<close> nothing is read here.\<close>

type_synonym list_meta = string

record GlobalNetworkList =
  list_TypeMeta :: type_meta
  list_ListMeta :: list_meta
  list_Items :: "GlobalNetwork slice"

text \<open>
  \<open>DeepCopy\<close> of the resource: nil for nil, otherwise a new object holding an equal value.
  Values of this model are immutable, so a copy is the value itself; the theory \<open>HeapCopy\<close>
  models the generated copy functions over an explicit heap of pointers and shows that
  they return an equal value that shares no cell with the original.
\<close>

definition GlobalNetwork_DeepCopy :: "GlobalNetwork option \<Rightarrow> GlobalNetwork option" where
  "GlobalNetwork_DeepCopy inp = (case inp of None \<Rightarrow> None | Some g \<Rightarrow> Some g)"

lemma GlobalNetwork_DeepCopy_id [simp]: "GlobalNetwork_DeepCopy p = p"
  by (simp add: GlobalNetwork_DeepCopy_def split: option.split)

text \<open>
  The group and version the kinds are registered under (\<open>apis/v1alpha1/groupversion_info.go\<close>).
\<close>

record group_version =
  gv_Group :: string
  gv_Version :: string

definition GroupVersion :: group_version where
  "GroupVersion = \<lparr>gv_Group = ''networkmanager.services.k8s.aws'', gv_Version = ''v1alpha1''\<rparr>"

text \<open>The states of a global network (\<open>apis/v1alpha1/enums.go\<close>, \<open>GlobalNetworkState\<close>).\<close>

datatype GlobalNetworkState = GN_AVAILABLE | GN_DELETING | GN_PENDING | GN_UPDATING

fun state_string :: "GlobalNetworkState \<Rightarrow> string" where
  "state_string GN_AVAILABLE = ''AVAILABLE''"
| "state_string GN_DELETING = ''DELETING''"
| "state_string GN_PENDING = ''PENDING''"
| "state_string GN_UPDATING = ''UPDATING''"

lemma state_string_inject [simp]: "state_string a = state_string b \<longleftrightarrow> a = b"
  by (cases a; cases b) simp_all

text \<open>
  The struct \<open>resource\<close> of \<open>pkg/resource/global_network/resource.go\<close>, and values of the
  interface type \<open>acktypes.AWSResource\<close>: the nil interface, a pointer to a \<open>resource\<close>
  (which may itself be nil), or a value of some other dynamic type.
\<close>

record resource =
  ko :: "GlobalNetwork option"

datatype aws_resource = NilInterface | ResourcePtr "resource option" | OtherDynamicType

text \<open>A well-formed tag list holds no nil element; a normal one no nil pointer at all and no key twice.\<close>

definition tags_wf :: "tag option slice \<Rightarrow> bool" where
  "tags_wf ts \<longleftrightarrow> None \<notin> set (elems ts)"

definition tag_full :: "tag option \<Rightarrow> bool" where
  "tag_full t = (case t of None \<Rightarrow> False | Some t \<Rightarrow> Key t \<noteq> None \<and> Value t \<noteq> None)"

definition tag_key :: "tag option \<Rightarrow> string" where
  "tag_key t = the (Key (the t))"

definition tags_normal :: "tag option slice \<Rightarrow> bool" where
  "tags_normal ts \<longleftrightarrow> list_all tag_full (elems ts) \<and> distinct (map tag_key (elems ts))"

lemma tags_normal_wf: "tags_normal ts \<Longrightarrow> tags_wf ts"
  by (force simp: tags_normal_def tags_wf_def tag_full_def list_all_iff)

text \<open>
  The meaning of a tag list as a map: tags without a key are skipped, a missing value is
  the empty string, and of two tags with one key the later one counts.
\<close>

fun tag_pairs :: "tag option list \<Rightarrow> (string \<times> string) list" where
  "tag_pairs [] = []"
| "tag_pairs (None # ts) = tag_pairs ts"
| "tag_pairs (Some t # ts) =
     (case Key t of None \<Rightarrow> tag_pairs ts
      | Some k \<Rightarrow> (k, case Value t of None \<Rightarrow> '''' | Some v \<Rightarrow> v) # tag_pairs ts)"

definition tag_map :: "tag option slice \<Rightarrow> string \<rightharpoonup> string" where
  "tag_map ts = map_of (rev (tag_pairs (elems ts)))"

end
