(* ===== verification/AckRuntime.thy ===== *)
theory AckRuntime
  imports ApiTypes
begin

text \<open>
  The code outside the repository that the controller calls, as parameters: the ACK
  runtime, the Kubernetes helpers (one record of functions, \<open>ack_runtime\<close>) and the client
  of the AWS service (the record \<open>svcsdk_Client\<close>, over an arbitrary state \<open>'w\<close> of the service).
  No function of these records is defined here. What a property relies on is one of
  the predicates of the last section, each stating the documented behaviour of one library.
\<close>

section \<open>Messages of the AWS SDK\<close>

record sdk_tag =
  sdk_Key :: "string option"
  sdk_Value :: "string option"

record sdk_global_network =
  sdk_CreatedAt :: "gotime option"
  sdk_Description :: "string option"
  sdk_GlobalNetworkArn :: "string option"
  sdk_GlobalNetworkId :: "string option"
  sdk_State :: string
  sdk_Tags :: "sdk_tag slice"

record DescribeGlobalNetworksInput =
  GlobalNetworkIds :: "string slice"

record DescribeGlobalNetworksOutput =
  GlobalNetworks :: "sdk_global_network slice"

record CreateGlobalNetworkInput =
  create_Description :: "string option"
  create_Tags :: "sdk_tag slice"

record CreateGlobalNetworkOutput =
  created_GlobalNetwork :: "sdk_global_network option"

record UpdateGlobalNetworkInput =
  update_GlobalNetworkId :: "string option"
  update_Description :: "string option"

record UpdateGlobalNetworkOutput =
  updated_GlobalNetwork :: "sdk_global_network option"

record DeleteGlobalNetworkInput =
  delete_GlobalNetworkId :: "string option"

record TagResourceInput =
  tag_ResourceArn :: "string option"
  tag_Tags :: "sdk_tag slice"

record UntagResourceInput =
  untag_ResourceArn :: "string option"
  untag_TagKeys :: "string slice"

section \<open>The service client and the metrics recorder\<close>

text \<open>
  A call takes the state of the service and returns its output (a pointer), its error and
  the next state. \<open>tagsClient\<close> is the interface \<open>pkg/tags/sync.go\<close> declares; the SDK
  client extends it, so it can be passed where the interface is expected.
\<close>

record ('w, 'e) tagsClient =
  TagResource :: "TagResourceInput \<Rightarrow> 'w \<Rightarrow> 'e option \<times> 'w"
  UntagResource :: "UntagResourceInput \<Rightarrow> 'w \<Rightarrow> 'e option \<times> 'w"

record ('w, 'e) svcsdk_Client = "('w, 'e) tagsClient" +
  DescribeGlobalNetworks ::
    "DescribeGlobalNetworksInput \<Rightarrow> 'w \<Rightarrow> (DescribeGlobalNetworksOutput option \<times> 'e option) \<times> 'w"
  CreateGlobalNetwork ::
    "CreateGlobalNetworkInput \<Rightarrow> 'w \<Rightarrow> (CreateGlobalNetworkOutput option \<times> 'e option) \<times> 'w"
  UpdateGlobalNetwork ::
    "UpdateGlobalNetworkInput \<Rightarrow> 'w \<Rightarrow> (UpdateGlobalNetworkOutput option \<times> 'e option) \<times> 'w"
  DeleteGlobalNetwork :: "DeleteGlobalNetworkInput \<Rightarrow> 'w \<Rightarrow> 'e option \<times> 'w"

text \<open>
  The world an operation runs in: the service, and the calls made to
  \<open>metrics.RecordAPICall\<close> (operation type, operation, error), oldest first.
\<close>

record ('w, 'e) env =
  svc :: 'w
  api_calls :: "(string \<times> string \<times> 'e option) list"

definition RecordAPICall :: "string \<Rightarrow> string \<Rightarrow> 'e option \<Rightarrow> ('w, 'e) env \<Rightarrow> ('w, 'e) env" where
  "RecordAPICall opType opID err w = w\<lparr>api_calls := api_calls w @ [(opType, opID, err)]\<rparr>"

lemma RecordAPICall_sel [simp]:
  "svc (RecordAPICall t i e w) = svc w"
  "api_calls (RecordAPICall t i e w) = api_calls w @ [(t, i, e)]"
  by (simp_all add: RecordAPICall_def)

section \<open>The ACK runtime and the Kubernetes helpers\<close>

text \<open>
  \<open>'e\<close> is the type of non-nil \<open>error\<close> values, \<open>'d\<close> that of \<open>*ackcompare.Delta\<close>.
  \<open>AsAPIErrorCode e\<close> is \<open>errors.As(e, &awsErr)\<close> for a \<open>smithy.APIError\<close> together with the
  code of the error found, \<open>AWSErrorText\<close> the text of \<open>ackerr.AWSError\<close>'s result when it is
  not nil, \<open>IsTerminalError\<close> the test \<open>errors.As(e, &termError)\<close>.
\<close>

record ack_config =
  cfg_Partition :: string
  cfg_rest :: string

type_synonym service_metadata = string

datatype delta_value =
    DV_resource "resource option"
  | DV_string "string option"
  | DV_tags "tag option slice"

record ('e, 'd) ack_runtime =
  NotFound :: 'e
  Terminal :: 'e
  SecretTypeNotSupported :: 'e
  SecretNotFound :: 'e
  MissingNameIdentifier :: 'e
  ErrorText :: "'e \<Rightarrow> string"
  Errorf :: "string \<Rightarrow> 'e"
  AsAPIErrorCode :: "'e \<Rightarrow> string option"
  AWSErrorText :: "'e \<Rightarrow> string option"
  IsTerminalError :: "'e \<Rightarrow> bool"
  NewTerminalError :: "'e \<Rightarrow> 'e"
  WrapPostCreateError :: "'e \<Rightarrow> 'e"
  NeededAfter :: "'e option \<Rightarrow> int \<Rightarrow> 'e"
  NewTags :: "string gomap"
  MergeTags :: "string gomap \<Rightarrow> string gomap \<Rightarrow> string gomap"
  GetDefaultTags :: "ack_config \<Rightarrow> GlobalNetwork \<Rightarrow> service_metadata \<Rightarrow> string gomap"
  HasNilDifference :: "string option \<Rightarrow> string option \<Rightarrow> bool"
  MapStringStringEqual :: "string gomap \<Rightarrow> string gomap \<Rightarrow> bool"
  NewDelta :: 'd
  DeltaAdd :: "'d \<Rightarrow> string \<Rightarrow> delta_value \<Rightarrow> delta_value \<Rightarrow> 'd"
  DifferentAt :: "'d \<Rightarrow> string \<Rightarrow> bool"
  DifferentExcept :: "'d \<Rightarrow> string list \<Rightarrow> bool"
  InStrings :: "string \<Rightarrow> string list \<Rightarrow> bool"
  ConditionTypeTerminal :: string
  ConditionTypeRecoverable :: string
  ConditionTypeResourceSynced :: string
  SetLateInitialized :: "aws_resource \<Rightarrow> string \<Rightarrow> string option \<Rightarrow> string option \<Rightarrow> aws_resource"
  SetSynced :: "aws_resource \<Rightarrow> string \<Rightarrow> string option \<Rightarrow> string option \<Rightarrow> aws_resource"
  AnnotationAdopted :: string
  AddFinalizer :: "object_meta \<Rightarrow> string \<Rightarrow> object_meta"
  RemoveFinalizer :: "object_meta \<Rightarrow> string \<Rightarrow> object_meta"
  TimeIsZero :: "gotime option \<Rightarrow> bool"

text \<open>\<open>corev1.ConditionTrue\<close> and \<open>corev1.ConditionFalse\<close>, the strings the CRD documents.\<close>

abbreviation ConditionTrue :: string where "ConditionTrue \<equiv> ''True''"

abbreviation ConditionFalse :: string where "ConditionFalse \<equiv> ''False''"

section \<open>Documented behaviour\<close>

text \<open>\<open>pkg/tags\<close>: a new tag map is empty, a merge keeps the first map's value of a shared key.\<close>

definition tags_lib_ok :: "('e, 'd) ack_runtime \<Rightarrow> bool" where
  "tags_lib_ok rt \<longleftrightarrow> NewTags rt = [] \<and>
     (\<forall>a b. mwf a \<longrightarrow> mwf b \<longrightarrow>
        mwf (MergeTags rt a b) \<and> mget (MergeTags rt a b) = mget b ++ mget a) \<and>
     (\<forall>c g md. mwf (GetDefaultTags rt c g md))"

text \<open>
  \<open>pkg/compare\<close>: the comparison helpers, and a delta as a collection of different paths.
  The paths of this resource's delta are \<open>Spec.Description\<close> and \<open>Spec.Tags\<close>, neither below the other.
\<close>

definition delta_paths :: "string list" where
  "delta_paths = [''Spec.Description'', ''Spec.Tags'']"

definition compare_lib_ok :: "('e, 'd) ack_runtime \<Rightarrow> bool" where
  "compare_lib_ok rt \<longleftrightarrow>
     (\<forall>a b. HasNilDifference rt a b \<longleftrightarrow> (a = None) \<noteq> (b = None)) \<and>
     (\<forall>a b. mwf a \<longrightarrow> mwf b \<longrightarrow> (MapStringStringEqual rt a b \<longleftrightarrow> mget a = mget b)) \<and>
     (\<forall>p \<in> set delta_paths. \<not> DifferentAt rt (NewDelta rt) p) \<and>
     (\<forall>ps. \<not> DifferentExcept rt (NewDelta rt) ps) \<and>
     (\<forall>d p q a b. p \<in> set delta_paths \<longrightarrow> q \<in> set delta_paths \<longrightarrow>
        (DifferentAt rt (DeltaAdd rt d q a b) p \<longleftrightarrow> DifferentAt rt d p \<or> p = q)) \<and>
     (\<forall>d p q a b. p \<in> set delta_paths \<longrightarrow> q \<in> set delta_paths \<longrightarrow>
        (DifferentExcept rt (DeltaAdd rt d q a b) [p] \<longleftrightarrow> DifferentExcept rt d [p] \<or> p \<noteq> q))"

text \<open>
  \<open>pkg/errors\<close>: \<open>AWSError\<close> finds the API error that \<open>errors.As\<close> finds, and \<open>NotFound\<close> is
  none of the errors the runtime treats as terminal, while \<open>NewTerminalError\<close> makes one.
\<close>

definition errors_lib_ok :: "('e, 'd) ack_runtime \<Rightarrow> bool" where
  "errors_lib_ok rt \<longleftrightarrow> (\<forall>e. AsAPIErrorCode rt e \<noteq> None \<longrightarrow> AWSErrorText rt e \<noteq> None) \<and>
     NotFound rt \<noteq> Terminal rt \<and> NotFound rt \<noteq> SecretTypeNotSupported rt \<and>
     NotFound rt \<noteq> SecretNotFound rt \<and> \<not> IsTerminalError rt (NotFound rt) \<and>
     (\<forall>e. IsTerminalError rt (NewTerminalError rt e)) \<and>
     AsAPIErrorCode rt (NotFound rt) = None"

text \<open>The three condition types are different strings.\<close>

definition condition_types_ok :: "('e, 'd) ack_runtime \<Rightarrow> bool" where
  "condition_types_ok rt \<longleftrightarrow> distinct [ConditionTypeTerminal rt, ConditionTypeRecoverable rt,
     ConditionTypeResourceSynced rt]"

text \<open>\<open>pkg/util\<close>: \<open>InStrings\<close> tests membership.\<close>

definition util_lib_ok :: "('e, 'd) ack_runtime \<Rightarrow> bool" where
  "util_lib_ok rt \<longleftrightarrow> (\<forall>s ss. InStrings rt s ss \<longleftrightarrow> s \<in> set ss)"

text \<open>
  \<open>controllerutil\<close>: \<open>AddFinalizer\<close> adds a finalizer unless it is present, \<open>RemoveFinalizer\<close>
  removes it; the other finalizers and the rest of the metadata stay.
\<close>

definition finalizers_of :: "object_meta \<Rightarrow> string list" where
  "finalizers_of m = elems (Finalizers m)"

definition finalizer_lib_ok :: "('e, 'd) ack_runtime \<Rightarrow> bool" where
  "finalizer_lib_ok rt \<longleftrightarrow>
     (\<forall>m f. \<exists>fs. AddFinalizer rt m f = m\<lparr>Finalizers := fs\<rparr> \<and>
        set (elems fs) = insert f (set (finalizers_of m))) \<and>
     (\<forall>m f. \<exists>fs. RemoveFinalizer rt m f = m\<lparr>Finalizers := fs\<rparr> \<and>
        set (elems fs) = set (finalizers_of m) - {f})"

text \<open>\<open>metav1.Time\<close>: a nil time is zero, and so is the zero instant, no other.\<close>

definition time_lib_ok :: "('e, 'd) ack_runtime \<Rightarrow> gotime \<Rightarrow> bool" where
  "time_lib_ok rt zero \<longleftrightarrow> (\<forall>t. TimeIsZero rt t \<longleftrightarrow> t = None \<or> t = Some zero)"

lemma tags_lib_okD [dest]:
  assumes "tags_lib_ok rt"
  shows "NewTags rt = []"
    and "mwf a \<Longrightarrow> mwf b \<Longrightarrow> mwf (MergeTags rt a b)"
    and "mwf a \<Longrightarrow> mwf b \<Longrightarrow> mget (MergeTags rt a b) = mget b ++ mget a"
    and "mwf (GetDefaultTags rt c g md)"
  using assms by (simp_all add: tags_lib_ok_def)

end
