(* ===== verification/StatusConditions.thy ===== *)
theory StatusConditions
  imports AckRuntime
begin

text \<open>
  The status of the resource: the defaults and the conditions
  (\<open>setStatusDefaults\<close>, \<open>updateConditions\<close>, \<open>terminalAWSError\<close> of \<open>sdk.go\<close>) and the two
  functions every operation of the manager ends with (\<open>onError\<close>, \<open>onSuccess\<close> of
  \<open>manager.go\<close>). A pointer into the condition list is an index into it. The abstract
  view of the list is the map from condition types to conditions (\<open>cond_map\<close>);
  \<open>conditions_spec\<close> says what an update does to this map, and \<open>update_conditions_refines\<close>
  that the code does it.
\<close>

section \<open>The resource manager\<close>

text \<open>
  The struct \<open>resourceManager\<close>, with the fields the code reads. \<open>log\<close>, \<open>rr\<close> are never read
  here, \<open>metrics\<close> is the record of calls in \<open>env\<close>.
\<close>

record ('w, 'e) resourceManager =
  cfg :: ack_config
  clientcfg :: string
  awsAccountID :: string
  awsRegion :: string
  awsPartition :: string
  sdkapi :: "('w, 'e) svcsdk_Client"

section \<open>Defaults\<close>

definition setStatusDefaults :: "('w, 'e) resourceManager \<Rightarrow> GlobalNetwork \<Rightarrow> GlobalNetwork" where
  "setStatusDefaults rm g =
     (let st = Status g;
          md = (case ACKResourceMetadata st of None \<Rightarrow> empty_metadata | Some md \<Rightarrow> md);
          md = (if Region md = None then md\<lparr>Region := Some (awsRegion rm)\<rparr> else md);
          md = (if Partition md = None then md\<lparr>Partition := Some (awsPartition rm)\<rparr> else md);
          md = (if OwnerAccountID md = None then md\<lparr>OwnerAccountID := Some (awsAccountID rm)\<rparr> else md);
          cs = (case Conditions st of None \<Rightarrow> Some [] | Some cs \<Rightarrow> Some cs)
      in g\<lparr>Status := st\<lparr>ACKResourceMetadata := Some md, Conditions := cs\<rparr>\<rparr>)"

lemma setStatusDefaults_frame [simp]:
  "TypeMeta (setStatusDefaults rm g) = TypeMeta g"
  "ObjectMeta (setStatusDefaults rm g) = ObjectMeta g"
  "Spec (setStatusDefaults rm g) = Spec g"
  "CreatedAt (Status (setStatusDefaults rm g)) = CreatedAt (Status g)"
  "GlobalNetworkID (Status (setStatusDefaults rm g)) = GlobalNetworkID (Status g)"
  "State (Status (setStatusDefaults rm g)) = State (Status g)"
  "elems (Conditions (Status (setStatusDefaults rm g))) = elems (Conditions (Status g))"
  by (simp_all add: setStatusDefaults_def Let_def split: option.split)

text \<open>The metadata a status names, with the empty metadata for a nil pointer.\<close>

definition metadata_of :: "GlobalNetwork \<Rightarrow> resource_metadata" where
  "metadata_of g = (case ACKResourceMetadata (Status g) of None \<Rightarrow> empty_metadata | Some md \<Rightarrow> md)"

lemma setStatusDefaults_metadata:
  "ACKResourceMetadata (Status (setStatusDefaults rm g)) \<noteq> None"
  "metadata_of (setStatusDefaults rm g) =
     \<lparr>ARN = ARN (metadata_of g),
      OwnerAccountID = Some (case OwnerAccountID (metadata_of g) of None \<Rightarrow> awsAccountID rm | Some x \<Rightarrow> x),
      Region = Some (case Region (metadata_of g) of None \<Rightarrow> awsRegion rm | Some x \<Rightarrow> x),
      Partition = Some (case Partition (metadata_of g) of None \<Rightarrow> awsPartition rm | Some x \<Rightarrow> x)\<rparr>"
  by (auto simp: setStatusDefaults_def metadata_of_def Let_def split: option.splits)

lemma setStatusDefaults_Conditions:
  "Conditions (Status (setStatusDefaults rm g)) = Some (elems (Conditions (Status g)))"
  by (simp add: setStatusDefaults_def Let_def split: option.split)

section \<open>Terminal errors\<close>

definition terminalAWSError :: "('e, 'd) ack_runtime \<Rightarrow> 'e option \<Rightarrow> bool" where
  "terminalAWSError rt err =
     (case err of
        None \<Rightarrow> False
      | Some e \<Rightarrow>
          (case AsAPIErrorCode rt e of
             None \<Rightarrow> False
           | Some code \<Rightarrow> code = ''ValidationException''))"

text \<open>The two conditions \<open>updateConditions\<close> tests on the error; \<open>errors.As\<close> of a nil error is false.\<close>

definition named_terminal :: "('e, 'd) ack_runtime \<Rightarrow> 'e option \<Rightarrow> bool" where
  "named_terminal rt err \<longleftrightarrow> err = Some (SecretTypeNotSupported rt) \<or> err = Some (SecretNotFound rt) \<or>
     (case err of None \<Rightarrow> False | Some e \<Rightarrow> IsTerminalError rt e)"

definition is_terminal :: "('e, 'd) ack_runtime \<Rightarrow> 'e option \<Rightarrow> bool" where
  "is_terminal rt err \<longleftrightarrow> terminalAWSError rt err \<or> named_terminal rt err"

lemma is_terminal_None [simp]: "\<not> is_terminal rt None"
  by (simp add: is_terminal_def terminalAWSError_def named_terminal_def)

lemma NotFound_not_terminal: "errors_lib_ok rt \<Longrightarrow> \<not> is_terminal rt (Some (NotFound rt))"
  by (simp add: is_terminal_def terminalAWSError_def named_terminal_def errors_lib_ok_def)

section \<open>Updating the conditions\<close>

text \<open>
  The loop that looks for the three conditions: each variable ends as a pointer to the
  last condition of its type. A nil element of the list panics.
\<close>

fun scan_conditions ::
  "('e, 'd) ack_runtime \<Rightarrow> nat \<Rightarrow> condition option list \<Rightarrow>
   nat option \<times> nat option \<times> nat option \<Rightarrow> (nat option \<times> nat option \<times> nat option) outcome" where
  "scan_conditions rt i [] s = Ret s"
| "scan_conditions rt i (None # cs) s = Panic"
| "scan_conditions rt i (Some c # cs) (t, r, y) =
     scan_conditions rt (Suc i) cs
       (if cond_Type c = ConditionTypeTerminal rt then Some i else t,
        if cond_Type c = ConditionTypeRecoverable rt then Some i else r,
        if cond_Type c = ConditionTypeResourceSynced rt then Some i else y)"

definition set_condition ::
  "nat \<Rightarrow> string \<Rightarrow> string option \<Rightarrow> condition option list \<Rightarrow> condition option list" where
  "set_condition i status msg cs =
     cs[i := map_option (\<lambda>c. c\<lparr>cond_Status := status, cond_Message := msg\<rparr>) (cs ! i)]"

text \<open>The pointer to a condition, appending a new one of the type if there is none.\<close>

definition ensure_condition ::
  "nat option \<Rightarrow> string \<Rightarrow> condition option list \<Rightarrow> nat \<times> condition option list" where
  "ensure_condition p ty cs =
     (case p of Some i \<Rightarrow> (i, cs) | None \<Rightarrow> (length cs, cs @ [Some (new_condition ty)]))"

definition terminal_message :: "('e, 'd) ack_runtime \<Rightarrow> 'e \<Rightarrow> string outcome" where
  "terminal_message rt e =
     (if named_terminal rt (Some e) then Ret (ErrorText rt e) else deref (AWSErrorText rt e))"

definition recoverable_message :: "('e, 'd) ack_runtime \<Rightarrow> 'e \<Rightarrow> string" where
  "recoverable_message rt e = (case AWSErrorText rt e of Some t \<Rightarrow> t | None \<Rightarrow> ErrorText rt e)"

text \<open>
  The two branches on the error: the condition list and the pointers \<open>terminalCondition\<close> and
  \<open>recoverableCondition\<close> after them.
\<close>

definition mark_conditions ::
  "('e, 'd) ack_runtime \<Rightarrow> 'e option \<Rightarrow> condition option list \<Rightarrow> nat option \<Rightarrow> nat option \<Rightarrow>
   (condition option list \<times> nat option \<times> nat option) outcome" where
  "mark_conditions rt err conds terminalCondition recoverableCondition =
     (if is_terminal rt err
      then
        (let (i, conds) = ensure_condition terminalCondition (ConditionTypeTerminal rt) conds
         in and_then (terminal_message rt (the err)) (\<lambda>errorMessage.
              Ret (set_condition i ConditionTrue (Some errorMessage) conds,
                   Some i, recoverableCondition)))
      else
        (let conds = (case terminalCondition of
                        None \<Rightarrow> conds
                      | Some i \<Rightarrow> set_condition i ConditionFalse None conds)
         in case err of
              Some e \<Rightarrow>
                (let (i, conds) =
                       ensure_condition recoverableCondition (ConditionTypeRecoverable rt) conds
                 in Ret (set_condition i ConditionTrue (Some (recoverable_message rt e)) conds,
                         terminalCondition, Some i))
            | None \<Rightarrow>
                Ret (case recoverableCondition of
                       None \<Rightarrow> conds
                     | Some i \<Rightarrow> set_condition i ConditionFalse None conds,
                     terminalCondition, recoverableCondition)))"

definition updateConditions ::
  "('e, 'd) ack_runtime \<Rightarrow> ('w, 'e) resourceManager \<Rightarrow> resource \<Rightarrow> bool \<Rightarrow> 'e option \<Rightarrow>
   (resource option \<times> bool) outcome" where
  "updateConditions rt rm r onSuccess err =
     and_then (deref (GlobalNetwork_DeepCopy (ko r))) (\<lambda>g.
     (let g = setStatusDefaults rm g;
          conds = elems (Conditions (Status g))
      in and_then (scan_conditions rt 0 conds (None, None, None))
           (\<lambda>(terminalCondition, recoverableCondition, syncCondition).
         and_then (mark_conditions rt err conds terminalCondition recoverableCondition)
           (\<lambda>(conds, terminalCondition, recoverableCondition).
             if terminalCondition \<noteq> None \<or> recoverableCondition \<noteq> None \<or> syncCondition \<noteq> None
             then Ret (Some \<lparr>ko = Some (g\<lparr>Status := (Status g)\<lparr>Conditions := Some conds\<rparr>\<rparr>)\<rparr>, True)
             else Ret (None, False)))))"

section \<open>\<open>onError\<close> and \<open>onSuccess\<close>\<close>

text \<open>\<open>Conditions\<close> of \<open>resource.go\<close>, on a resource with an object.\<close>

definition resource_Conditions :: "resource \<Rightarrow> condition option slice outcome" where
  "resource_Conditions r = and_then (deref (ko r)) (\<lambda>g. Ret (Conditions (Status g)))"

fun terminal_loop :: "('e, 'd) ack_runtime \<Rightarrow> condition option list \<Rightarrow> bool outcome" where
  "terminal_loop rt [] = Ret False"
| "terminal_loop rt (c # cs) =
     and_then (deref c) (\<lambda>c.
       if cond_Type c = ConditionTypeTerminal rt \<and> cond_Status c = ConditionTrue
       then Ret True else terminal_loop rt cs)"

definition onError ::
  "('e, 'd) ack_runtime \<Rightarrow> ('w, 'e) resourceManager \<Rightarrow> resource option \<Rightarrow> 'e option \<Rightarrow>
   (aws_resource \<times> 'e option) outcome" where
  "onError rt rm r err =
     (case r of
        None \<Rightarrow> Ret (NilInterface, err)
      | Some r \<Rightarrow>
          and_then (updateConditions rt rm r False err) (\<lambda>(r1, updated).
            if \<not> updated then Ret (ResourcePtr (Some r), err)
            else and_then (deref r1) (\<lambda>r1'.
                 and_then (resource_Conditions r1') (\<lambda>cs.
                 and_then (terminal_loop rt (elems cs)) (\<lambda>found.
                   Ret (ResourcePtr r1, if found then Some (Terminal rt) else err))))))"

definition onSuccess ::
  "('e, 'd) ack_runtime \<Rightarrow> ('w, 'e) resourceManager \<Rightarrow> resource option \<Rightarrow>
   (aws_resource \<times> 'e option) outcome" where
  "onSuccess rt rm r =
     (case r of
        None \<Rightarrow> Ret (NilInterface, None)
      | Some r \<Rightarrow>
          and_then (updateConditions rt rm r True None) (\<lambda>(r1, updated).
            if \<not> updated then Ret (ResourcePtr (Some r), None) else Ret (ResourcePtr r1, None)))"

section \<open>The condition list as a map\<close>

definition conds_wf :: "condition option list \<Rightarrow> bool" where
  "conds_wf cs \<longleftrightarrow> None \<notin> set cs \<and> distinct (map (\<lambda>c. cond_Type (the c)) cs)"

definition cond_map :: "condition option list \<Rightarrow> string \<rightharpoonup> condition" where
  "cond_map cs = map_of (map (\<lambda>c. (cond_Type (the c), the c)) cs)"

lemma conds_wf_split:
  "conds_wf (xs @ Some c # ys) \<longleftrightarrow>
    conds_wf (xs @ ys) \<and> cond_Type c \<notin> (\<lambda>c. cond_Type (the c)) ` set (xs @ ys)"
  by (auto simp: conds_wf_def)

lemma cond_map_None: "cond_map cs ty = None \<longleftrightarrow> ty \<notin> (\<lambda>c. cond_Type (the c)) ` set cs"
  by (auto simp: cond_map_def map_of_eq_None_iff image_image)

lemma cond_map_at:
  assumes "conds_wf (xs @ Some c # ys)"
  shows "cond_map (xs @ Some c # ys) = (cond_map (xs @ ys))(cond_Type c \<mapsto> c)"
proof -
  have "cond_map xs (cond_Type c) = None"
    using assms by (auto simp: cond_map_None conds_wf_def)
  then show ?thesis
    by (auto simp: cond_map_def map_add_def fun_eq_iff split: option.splits)
qed

lemma cond_map_split:
  assumes "conds_wf cs" and "cond_map cs ty = Some c"
  obtains xs ys where "cs = xs @ Some c # ys" and "cond_Type c = ty"
proof -
  from assms(2) have "(ty, c) \<in> set (map (\<lambda>c. (cond_Type (the c), the c)) cs)"
    unfolding cond_map_def by (rule map_of_SomeD)
  then obtain c' where c': "c' \<in> set cs" "ty = cond_Type (the c')" "c = the c'" by auto
  then have "c' \<noteq> None" using assms(1) unfolding conds_wf_def by metis
  with c' have "c' = Some c" by auto
  with c' show ?thesis using that by (metis option.sel split_list)
qed

text \<open>The pointer the scan leaves for a type.\<close>

fun last_index :: "string \<Rightarrow> nat \<Rightarrow> condition option list \<Rightarrow> nat option \<Rightarrow> nat option" where
  "last_index ty i [] p = p"
| "last_index ty i (c # cs) p = last_index ty (Suc i) cs (if cond_Type (the c) = ty then Some i else p)"

lemma scan_conditions_Ret:
  "None \<notin> set cs \<Longrightarrow> scan_conditions rt i cs (t, r, y) =
    Ret (last_index (ConditionTypeTerminal rt) i cs t,
         last_index (ConditionTypeRecoverable rt) i cs r,
         last_index (ConditionTypeResourceSynced rt) i cs y)"
proof (induction cs arbitrary: i t r y)
  case (Cons c cs)
  then obtain c' where "c = Some c'" by (cases c) auto
  with Cons show ?case by simp
qed simp

lemma scan_conditions_Panic: "None \<in> set cs \<Longrightarrow> scan_conditions rt i cs s = Panic"
  by (induction rt i cs s rule: scan_conditions.induct) auto

lemma last_index_append:
  "last_index ty i (xs @ ys) p = last_index ty (i + length xs) ys (last_index ty i xs p)"
  by (induction xs arbitrary: i p) auto

lemma last_index_absent:
  "ty \<notin> (\<lambda>c. cond_Type (the c)) ` set cs \<Longrightarrow> last_index ty i cs p = p"
  by (induction cs arbitrary: i p) auto

lemma last_index_at:
  assumes "conds_wf (xs @ Some c # ys)" and "cond_Type c = ty"
  shows "last_index ty 0 (xs @ Some c # ys) None = Some (length xs)"
  using assms by (auto simp: conds_wf_def last_index_append last_index_absent)

lemma last_index_none: "cond_map cs ty = None \<Longrightarrow> last_index ty 0 cs None = None"
  by (simp add: cond_map_None last_index_absent)

text \<open>
  Setting or clearing the condition a pointer leads to, seen on the map. \<open>cond_point\<close>
  says that a pointer is the place of the condition of a type, nil if there is none.
\<close>

definition cond_point :: "string \<Rightarrow> condition option list \<Rightarrow> nat option \<Rightarrow> bool" where
  "cond_point ty cs p \<longleftrightarrow> (case p of
     None \<Rightarrow> cond_map cs ty = None
   | Some i \<Rightarrow> i < length cs \<and> (\<exists>c. cs ! i = Some c \<and> cond_Type c = ty))"

lemma cond_point_scan: "conds_wf cs \<Longrightarrow> cond_point ty cs (last_index ty 0 cs None)"
proof (cases "cond_map cs ty")
  case None
  then show ?thesis by (simp add: cond_point_def last_index_none)
next
  case (Some c)
  assume wf: "conds_wf cs"
  obtain xs ys where "cs = xs @ Some c # ys" and "cond_Type c = ty"
    using cond_map_split [OF wf Some] .
  with wf show ?thesis by (auto simp: cond_point_def last_index_at)
qed

lemma cond_point_defined: "cond_point ty cs p \<Longrightarrow> p = None \<longleftrightarrow> cond_map cs ty = None"
  by (force simp: cond_point_def cond_map_None in_set_conv_nth split: option.splits)

definition marked :: "string \<Rightarrow> string option \<Rightarrow> condition \<Rightarrow> condition" where
  "marked status msg c = c\<lparr>cond_Status := status, cond_Message := msg\<rparr>"

lemma marked_sel [simp]:
  "cond_Type (marked s m c) = cond_Type c" "cond_Status (marked s m c) = s"
  "cond_Message (marked s m c) = m"
  by (simp_all add: marked_def)

lemma set_condition_law:
  assumes wf: "conds_wf cs" and p: "cond_point ty cs (Some i)"
  shows "conds_wf (set_condition i s m cs)"
    and "cond_map (set_condition i s m cs) = (cond_map cs)(ty := map_option (marked s m) (cond_map cs ty))"
    and "cond_point ty' cs q \<Longrightarrow> cond_point ty' (set_condition i s m cs) q"
proof -
  obtain c where c: "i < length cs" "cs ! i = Some c" "cond_Type c = ty"
    using p by (auto simp: cond_point_def)
  obtain xs ys where cs: "cs = xs @ Some c # ys" "i = length xs" "cond_Type c = ty"
    using id_take_nth_drop [OF c(1)] c by (intro that [of "take i cs" "drop (Suc i) cs"]) auto
  have set: "set_condition i s m cs = xs @ Some (marked s m c) # ys"
    by (simp add: set_condition_def cs marked_def)
  show wf': "conds_wf (set_condition i s m cs)"
    using wf unfolding set by (simp add: cs conds_wf_split)
  show "cond_map (set_condition i s m cs) = (cond_map cs)(ty := map_option (marked s m) (cond_map cs ty))"
    using wf wf' cs unfolding set by (simp add: cond_map_at)
  have types: "map (\<lambda>c. cond_Type (the c)) (set_condition i s m cs) = map (\<lambda>c. cond_Type (the c)) cs"
    unfolding set by (simp add: cs)
  show "cond_point ty' (set_condition i s m cs) q" if q: "cond_point ty' cs q"
  proof (cases q)
    case None
    with q have "ty' \<notin> set (map (\<lambda>c. cond_Type (the c)) cs)"
      by (simp add: cond_point_def cond_map_None)
    then have "ty' \<notin> set (map (\<lambda>c. cond_Type (the c)) (set_condition i s m cs))"
      by (simp only: types not_False_eq_True)
    then show ?thesis by (simp add: None cond_point_def cond_map_None)
  next
    case (Some j)
    with q have j: "j < length cs" and ty': "cond_Type (the (cs ! j)) = ty'"
      by (auto simp: cond_point_def)
    then have "set_condition i s m cs ! j \<in> set (set_condition i s m cs)"
      by (intro nth_mem) (simp add: set_condition_def)
    then have "set_condition i s m cs ! j \<noteq> None" using wf' by (metis conds_wf_def)
    moreover have "cond_Type (the (set_condition i s m cs ! j)) = ty'"
      using arg_cong [OF types, of "\<lambda>l. l ! j"] j ty' by (simp add: set_condition_def)
    ultimately show ?thesis using Some j by (auto simp: cond_point_def set_condition_def)
  qed
qed

lemma ensure_condition_law:
  assumes wf: "conds_wf cs" and p: "cond_point ty cs p" and e: "ensure_condition p ty cs = (i, cs')"
  shows "conds_wf cs'" and "cond_point ty cs' (Some i)"
    and "cond_map cs' = (cond_map cs)(ty \<mapsto> case cond_map cs ty of None \<Rightarrow> new_condition ty | Some c \<Rightarrow> c)"
proof -
  have "conds_wf cs' \<and> cond_point ty cs' (Some i) \<and>
    cond_map cs' = (cond_map cs)(ty \<mapsto> case cond_map cs ty of None \<Rightarrow> new_condition ty | Some c \<Rightarrow> c)"
  proof (cases p)
    case None
    then have none: "cond_map cs ty = None" using p by (simp add: cond_point_def)
    have cs': "cs' = cs @ Some (new_condition ty) # []" "i = length cs"
      using e None by (auto simp: ensure_condition_def)
    have "conds_wf cs'"
      unfolding cs' using wf none by (simp add: conds_wf_split cond_map_None)
    moreover from this have "cond_map cs' = (cond_map cs)(ty \<mapsto> new_condition ty)"
      unfolding cs' by (simp add: cond_map_at)
    moreover have "cond_point ty cs' (Some i)"
      by (simp add: cond_point_def cs' nth_append)
    ultimately show ?thesis by (simp add: none)
  next
    case (Some j)
    then obtain c where c: "cond_map cs ty = Some c"
      using cond_point_defined [OF p] by auto
    have "cs' = cs" "i = j" using e Some by (auto simp: ensure_condition_def)
    with wf p Some c show ?thesis by (auto simp: fun_eq_iff)
  qed
  then show "conds_wf cs'" "cond_point ty cs' (Some i)"
    "cond_map cs' = (cond_map cs)(ty \<mapsto> case cond_map cs ty of None \<Rightarrow> new_condition ty | Some c \<Rightarrow> c)"
    by auto
qed

section \<open>What an update does to the map\<close>

definition present :: "string \<Rightarrow> (string \<rightharpoonup> condition) \<Rightarrow> condition" where
  "present ty m = (case m ty of None \<Rightarrow> new_condition ty | Some c \<Rightarrow> c)"

definition terminal_text :: "('e, 'd) ack_runtime \<Rightarrow> 'e \<Rightarrow> string" where
  "terminal_text rt e = (if named_terminal rt (Some e) then ErrorText rt e else the (AWSErrorText rt e))"

definition clear_condition :: "string \<Rightarrow> (string \<rightharpoonup> condition) \<Rightarrow> string \<rightharpoonup> condition" where
  "clear_condition ty m = m(ty := map_option (marked ConditionFalse None) (m ty))"

definition raise_condition :: "string \<Rightarrow> string \<Rightarrow> (string \<rightharpoonup> condition) \<Rightarrow> string \<rightharpoonup> condition" where
  "raise_condition ty msg m = m(ty \<mapsto> marked ConditionTrue (Some msg) (present ty m))"

definition conditions_spec ::
  "('e, 'd) ack_runtime \<Rightarrow> 'e option \<Rightarrow> (string \<rightharpoonup> condition) \<Rightarrow> string \<rightharpoonup> condition" where
  "conditions_spec rt err m =
     (if is_terminal rt err
      then raise_condition (ConditionTypeTerminal rt) (terminal_text rt (the err)) m
      else case err of
        Some e \<Rightarrow> raise_condition (ConditionTypeRecoverable rt) (recoverable_message rt e)
                    (clear_condition (ConditionTypeTerminal rt) m)
      | None \<Rightarrow> clear_condition (ConditionTypeRecoverable rt)
                  (clear_condition (ConditionTypeTerminal rt) m))"

definition status_types :: "('e, 'd) ack_runtime \<Rightarrow> string set" where
  "status_types rt = {ConditionTypeTerminal rt, ConditionTypeRecoverable rt, ConditionTypeResourceSynced rt}"

definition with_conditions :: "condition option list \<Rightarrow> GlobalNetwork \<Rightarrow> GlobalNetwork" where
  "with_conditions cs g = g\<lparr>Status := (Status g)\<lparr>Conditions := Some cs\<rparr>\<rparr>"

lemma with_conditions_sel [simp]:
  "Spec (with_conditions cs g) = Spec g" "ObjectMeta (with_conditions cs g) = ObjectMeta g"
  "TypeMeta (with_conditions cs g) = TypeMeta g"
  "Conditions (Status (with_conditions cs g)) = Some cs"
  "ACKResourceMetadata (Status (with_conditions cs g)) = ACKResourceMetadata (Status g)"
  "metadata_of (with_conditions cs g) = metadata_of g"
  "CreatedAt (Status (with_conditions cs g)) = CreatedAt (Status g)"
  "GlobalNetworkID (Status (with_conditions cs g)) = GlobalNetworkID (Status g)"
  "State (Status (with_conditions cs g)) = State (Status g)"
  by (simp_all add: with_conditions_def metadata_of_def)

text \<open>A step on the list that keeps the list well-formed and does \<open>F\<close> to the map.\<close>

definition list_step ::
  "((string \<rightharpoonup> condition) \<Rightarrow> string \<rightharpoonup> condition) \<Rightarrow> condition option list \<Rightarrow> condition option list \<Rightarrow> bool" where
  "list_step F cs cs' \<longleftrightarrow> conds_wf cs' \<and> cond_map cs' = F (cond_map cs)"

lemma clear_step:
  assumes wf: "conds_wf cs" and p: "cond_point ty cs p"
    and cs': "cs' = (case p of None \<Rightarrow> cs | Some i \<Rightarrow> set_condition i ConditionFalse None cs)"
  shows "list_step (clear_condition ty) cs cs'"
    and "cond_point ty' cs q \<Longrightarrow> cond_point ty' cs' q"
proof -
  show "list_step (clear_condition ty) cs cs'"
  proof (cases p)
    case None
    with p have "cond_map cs ty = None" by (simp add: cond_point_def)
    with None wf show ?thesis
      by (simp add: cs' list_step_def clear_condition_def fun_upd_idem)
  next
    case (Some i)
    with wf p show ?thesis
      by (simp add: cs' list_step_def clear_condition_def set_condition_law)
  qed
  show "cond_point ty' cs q \<Longrightarrow> cond_point ty' cs' q"
    using wf p by (auto simp: cs' set_condition_law split: option.split)
qed

lemma raise_step:
  assumes wf: "conds_wf cs" and p: "cond_point ty cs p"
    and e: "ensure_condition p ty cs = (i, cs1)"
  shows "list_step (raise_condition ty msg) cs (set_condition i ConditionTrue (Some msg) cs1)"
  using ensure_condition_law [OF wf p e]
  by (simp add: list_step_def raise_condition_def present_def set_condition_law)

lemma mark_conditions_law:
  assumes lib: "errors_lib_ok rt" and wf: "conds_wf cs"
    and t: "cond_point (ConditionTypeTerminal rt) cs t"
    and r: "cond_point (ConditionTypeRecoverable rt) cs r"
  obtains cs' t' r' where "mark_conditions rt err cs t r = Ret (cs', t', r')"
    and "list_step (conditions_spec rt err) cs cs'"
    and "t' \<noteq> None \<or> r' \<noteq> None \<longleftrightarrow>
      dom (cond_map cs') \<inter> {ConditionTypeTerminal rt, ConditionTypeRecoverable rt} \<noteq> {}"
    and "dom (cond_map cs') - {ConditionTypeTerminal rt, ConditionTypeRecoverable rt} =
      dom (cond_map cs) - {ConditionTypeTerminal rt, ConditionTypeRecoverable rt}"
proof -
  let ?T = "ConditionTypeTerminal rt" and ?R = "ConditionTypeRecoverable rt"
  have defined: "t = None \<longleftrightarrow> cond_map cs ?T = None" "r = None \<longleftrightarrow> cond_map cs ?R = None"
    by (rule cond_point_defined [OF t] cond_point_defined [OF r])+
  let ?cs1 = "case t of None \<Rightarrow> cs | Some i \<Rightarrow> set_condition i ConditionFalse None cs"
  note clear = clear_step [OF wf t refl]
  have wf1: "conds_wf ?cs1" and map1: "cond_map ?cs1 = clear_condition ?T (cond_map cs)"
    using clear(1) by (simp_all add: list_step_def)
  consider (terminal) e where "err = Some e" "is_terminal rt err"
    | (recoverable) e where "err = Some e" "\<not> is_terminal rt err" | (success) "err = None"
    by (cases err) auto
  then show ?thesis
  proof cases
    case terminal
    have msg: "terminal_message rt e = Ret (terminal_text rt e)"
      using terminal lib
      by (cases "AWSErrorText rt e")
        (auto simp: terminal_message_def terminal_text_def is_terminal_def terminalAWSError_def
          errors_lib_ok_def split: option.splits)
    obtain i cs2 where i: "ensure_condition t ?T cs = (i, cs2)" by fastforce
    show ?thesis
      using raise_step [OF wf t i, of "terminal_text rt e"] terminal defined
      by (intro that [of "set_condition i ConditionTrue (Some (terminal_text rt e)) cs2" "Some i" r])
        (auto simp: mark_conditions_def i msg list_step_def conditions_spec_def raise_condition_def
          split: if_splits)
  next
    case recoverable
    obtain i cs2 where i: "ensure_condition r ?R ?cs1 = (i, cs2)" by fastforce
    show ?thesis
      using raise_step [OF wf1 clear(2) [OF r] i, of "recoverable_message rt e"] recoverable defined
      by (intro that [of "set_condition i ConditionTrue (Some (recoverable_message rt e)) cs2" t "Some i"])
        (auto simp: mark_conditions_def i Let_def list_step_def conditions_spec_def map1
          raise_condition_def clear_condition_def split: if_splits)
  next
    case success
    let ?cs2 = "case r of None \<Rightarrow> ?cs1 | Some i \<Rightarrow> set_condition i ConditionFalse None ?cs1"
    show ?thesis
      using clear_step(1) [OF wf1 clear(2) [OF r] refl] success defined
      by (intro that [of ?cs2 t r])
        (auto simp: mark_conditions_def Let_def list_step_def conditions_spec_def map1
          clear_condition_def split: if_splits)
  qed
qed

text \<open>
  The contract of the update: on a well-formed list it always returns, the new list is
  well-formed and its map is the one the specification gives; the rest of the object has
  its defaults filled in. It reports no update only when none of the three conditions is there.
\<close>

lemma updateConditions_law:
  assumes lib: "errors_lib_ok rt" "condition_types_ok rt" and ko: "ko r = Some g"
    and wf: "conds_wf (elems (Conditions (Status g)))"
  obtains cs where "conds_wf cs"
    and "cond_map cs = conditions_spec rt err (cond_map (elems (Conditions (Status g))))"
    and "updateConditions rt rm r b err =
      Ret (if dom (cond_map cs) \<inter> status_types rt \<noteq> {}
           then (Some \<lparr>ko = Some (with_conditions cs (setStatusDefaults rm g))\<rparr>, True)
           else (None, False))"
proof -
  let ?T = "ConditionTypeTerminal rt" and ?R = "ConditionTypeRecoverable rt"
    and ?S = "ConditionTypeResourceSynced rt"
  let ?cs = "elems (Conditions (Status g))"
  note p = cond_point_scan [OF wf]
  have scan: "scan_conditions rt 0 ?cs (None, None, None) =
      Ret (last_index ?T 0 ?cs None, last_index ?R 0 ?cs None, last_index ?S 0 ?cs None)"
    using wf by (intro scan_conditions_Ret) (simp add: conds_wf_def)
  obtain cs t r' where mark: "mark_conditions rt err ?cs (last_index ?T 0 ?cs None)
        (last_index ?R 0 ?cs None) = Ret (cs, t, r')"
    and step: "list_step (conditions_spec rt err) ?cs cs"
    and defined: "t \<noteq> None \<or> r' \<noteq> None \<longleftrightarrow> dom (cond_map cs) \<inter> {?T, ?R} \<noteq> {}"
    and others: "dom (cond_map cs) - {?T, ?R} = dom (cond_map ?cs) - {?T, ?R}"
    by (rule mark_conditions_law [OF lib(1) wf p p, of err], rule that)
  have "?S \<in> dom (cond_map cs) \<longleftrightarrow> ?S \<in> dom (cond_map ?cs)"
  proof -
    have "?S \<notin> {?T, ?R}" using lib(2) by (auto simp: condition_types_ok_def)
    then show ?thesis using arg_cong [OF others, of "\<lambda>A. ?S \<in> A"] by simp
  qed
  then have "last_index ?S 0 ?cs None \<noteq> None \<longleftrightarrow> ?S \<in> dom (cond_map cs)"
    using cond_point_defined [OF p, of ?S] by (simp add: dom_def)
  then have updated: "t \<noteq> None \<or> r' \<noteq> None \<or> last_index ?S 0 ?cs None \<noteq> None \<longleftrightarrow>
      dom (cond_map cs) \<inter> status_types rt \<noteq> {}"
    using defined by (auto simp: status_types_def)
  let ?g = "setStatusDefaults rm g"
  have run: "updateConditions rt rm r b err =
      (if t \<noteq> None \<or> r' \<noteq> None \<or> last_index ?S 0 ?cs None \<noteq> None
       then Ret (Some \<lparr>ko = Some (with_conditions cs ?g)\<rparr>, True) else Ret (None, False))"
    by (simp only: updateConditions_def ko GlobalNetwork_DeepCopy_id deref.simps and_then.simps Let_def
        setStatusDefaults_frame scan mark prod.case with_conditions_def)
  show ?thesis
  proof (rule that)
    show "conds_wf cs" and "cond_map cs = conditions_spec rt err (cond_map ?cs)"
      using step by (simp_all add: list_step_def)
    show "updateConditions rt rm r b err =
        Ret (if dom (cond_map cs) \<inter> status_types rt \<noteq> {}
             then (Some \<lparr>ko = Some (with_conditions cs ?g)\<rparr>, True) else (None, False))"
      unfolding run updated by (simp only: if_distrib [of Ret])
  qed
qed

section \<open>The ends of every operation\<close>

text \<open>A condition that is up: it is in the list and its status is \<open>True\<close>.\<close>

definition cond_up :: "condition option list \<Rightarrow> string \<Rightarrow> bool" where
  "cond_up cs ty \<longleftrightarrow> (case cond_map cs ty of None \<Rightarrow> False | Some c \<Rightarrow> cond_Status c = ConditionTrue)"

lemma terminal_loop_eq:
  assumes "conds_wf cs"
  shows "terminal_loop rt cs = Ret (cond_up cs (ConditionTypeTerminal rt))"
  using assms
proof (induction cs)
  case Nil
  then show ?case by (simp add: cond_up_def cond_map_def)
next
  case (Cons c cs)
  then obtain d where c: "c = Some d" by (cases c) (auto simp: conds_wf_def)
  from Cons have wf: "conds_wf cs" by (simp add: conds_wf_def)
  have "cond_map cs (cond_Type d) = None"
    using Cons.prems by (simp add: c conds_wf_def cond_map_None)
  then have up: "cond_up (c # cs) ty = (if ty = cond_Type d then cond_Status d = ConditionTrue else cond_up cs ty)" for ty
    by (simp add: cond_up_def cond_map_def c)
  have "\<not> cond_up cs (cond_Type d)"
    using \<open>cond_map cs (cond_Type d) = None\<close> by (simp add: cond_up_def)
  then show ?case using Cons.IH [OF wf] up by (auto simp: c)
qed

text \<open>The conditions of an object, and the object with its conditions updated for an error.\<close>

abbreviation conds_of :: "GlobalNetwork \<Rightarrow> condition option list" where
  "conds_of g \<equiv> elems (Conditions (Status g))"

definition conditions_updated ::
  "('e, 'd) ack_runtime \<Rightarrow> ('w, 'e) resourceManager \<Rightarrow> 'e option \<Rightarrow> GlobalNetwork \<Rightarrow> GlobalNetwork \<Rightarrow> bool" where
  "conditions_updated rt rm err g g' \<longleftrightarrow>
     (\<exists>cs. g' = with_conditions cs (setStatusDefaults rm g) \<and> conds_wf cs \<and>
        cond_map cs = conditions_spec rt err (cond_map (conds_of g)))"

lemma conditions_updated_frame:
  assumes "conditions_updated rt rm err g g'"
  shows "Spec g' = Spec g" and "ObjectMeta g' = ObjectMeta g" and "TypeMeta g' = TypeMeta g"
    and "CreatedAt (Status g') = CreatedAt (Status g)"
    and "GlobalNetworkID (Status g') = GlobalNetworkID (Status g)"
    and "State (Status g') = State (Status g)"
    and "ARN (metadata_of g') = ARN (metadata_of g)"
    and "conds_wf (conds_of g')"
  using assms by (auto simp: conditions_updated_def setStatusDefaults_metadata)

lemma onError_law:
  assumes lib: "errors_lib_ok rt" "condition_types_ok rt" and ko: "ko r = Some g"
    and wf: "conds_wf (conds_of g)"
  obtains g' where "conditions_updated rt rm (Some e) g g'"
    and "onError rt rm (Some r) (Some e) =
      Ret (ResourcePtr (Some \<lparr>ko = Some g'\<rparr>), Some (if is_terminal rt (Some e) then Terminal rt else e))"
proof -
  obtain cs where cs: "conds_wf cs" "cond_map cs = conditions_spec rt (Some e) (cond_map (conds_of g))"
    and upd: "updateConditions rt rm r False (Some e) =
      Ret (if dom (cond_map cs) \<inter> status_types rt \<noteq> {}
           then (Some \<lparr>ko = Some (with_conditions cs (setStatusDefaults rm g))\<rparr>, True)
           else (None, False))"
    by (rule updateConditions_law [OF lib ko wf, of "Some e" rm False], rule that)
  have "dom (cond_map cs) \<inter> status_types rt \<noteq> {}"
    by (auto simp: cs(2) conditions_spec_def raise_condition_def status_types_def)
  moreover have "cond_up cs (ConditionTypeTerminal rt) \<longleftrightarrow> is_terminal rt (Some e)"
    using lib(2)
    by (auto simp: cond_up_def cs(2) conditions_spec_def raise_condition_def clear_condition_def
        condition_types_ok_def split: option.splits)
  ultimately show ?thesis
    using cs
    by (intro that [of "with_conditions cs (setStatusDefaults rm g)"])
      (auto simp: conditions_updated_def onError_def upd resource_Conditions_def terminal_loop_eq)
qed

lemma onSuccess_law:
  assumes lib: "errors_lib_ok rt" "condition_types_ok rt" and ko: "ko r = Some g"
    and wf: "conds_wf (conds_of g)"
  obtains g' where "onSuccess rt rm (Some r) = Ret (ResourcePtr (Some \<lparr>ko = Some g'\<rparr>), None)"
    and "conditions_updated rt rm None g g' \<or>
      g' = g \<and> dom (cond_map (conds_of g)) \<inter> status_types rt = {}"
proof -
  obtain cs where cs: "conds_wf cs" "cond_map cs = conditions_spec rt None (cond_map (conds_of g))"
    and upd: "updateConditions rt rm r True None =
      Ret (if dom (cond_map cs) \<inter> status_types rt \<noteq> {}
           then (Some \<lparr>ko = Some (with_conditions cs (setStatusDefaults rm g))\<rparr>, True)
           else (None, False))"
    by (rule updateConditions_law [OF lib ko wf, of None rm True], rule that)
  have dom: "dom (cond_map cs) = dom (cond_map (conds_of g))"
    by (auto simp: cs(2) conditions_spec_def clear_condition_def split: if_splits)
  show ?thesis
  proof (cases "dom (cond_map cs) \<inter> status_types rt = {}")
    case True
    have "onSuccess rt rm (Some r) = Ret (ResourcePtr (Some r), None)"
      using True by (simp add: onSuccess_def upd)
    moreover have "r = \<lparr>ko = Some g\<rparr>" using ko by (cases r) simp
    ultimately show ?thesis using True by (intro that [of g]) (simp_all add: dom)
  next
    case False
    then show ?thesis
      using cs
      by (intro that [of "with_conditions cs (setStatusDefaults rm g)"])
        (auto simp: conditions_updated_def onSuccess_def upd)
  qed
qed

lemma spec_success_clears:
  assumes "condition_types_ok rt"
    and "ty \<in> {ConditionTypeTerminal rt, ConditionTypeRecoverable rt}"
    and "conditions_spec rt None m ty = Some c"
  shows "cond_Status c = ConditionFalse \<and> cond_Message c = None"
  using assms
  by (auto simp: conditions_spec_def clear_condition_def condition_types_ok_def split: if_splits)

section \<open>Properties\<close>

text \<open>
  C13: the update of the conditions refines its specification on the map from types to
  conditions. On a list with one condition per type it returns; a terminal error raises
  the terminal condition and leaves the others, any other error clears the terminal and
  raises the recoverable condition, no error clears both; the list stays well-formed and
  everything else in the object is the defaulted original.
\<close>

theorem update_conditions_refines:
  assumes "errors_lib_ok rt" and "condition_types_ok rt"
    and "ko r = Some g" and "conds_wf (conds_of g)"
  shows "\<exists>cs. conds_wf cs \<and> cond_map cs = conditions_spec rt err (cond_map (conds_of g)) \<and>
    updateConditions rt rm r b err =
      Ret (if dom (cond_map cs) \<inter> status_types rt \<noteq> {}
           then (Some \<lparr>ko = Some (with_conditions cs (setStatusDefaults rm g))\<rparr>, True)
           else (None, False))"
  by (rule updateConditions_law [OF assms, of err rm b]) blast

text \<open>
  C24: \<open>onError\<close> classifies the error. It returns the terminal sentinel exactly for a terminal
  error (a \<open>ValidationException\<close> of the service, one of the secret errors or a terminal error
  of the runtime), otherwise the error itself, with a copy of the resource on which
  exactly that is recorded: the terminal condition is up iff the error is terminal, the
  recoverable one is up if it is not, and spec and identifiers are those of the input.
\<close>

theorem on_error_classifies:
  assumes "errors_lib_ok rt" and "condition_types_ok rt"
    and "ko r = Some g" and "conds_wf (conds_of g)"
  shows "\<exists>g'. onError rt rm (Some r) (Some e) =
      Ret (ResourcePtr (Some \<lparr>ko = Some g'\<rparr>), Some (if is_terminal rt (Some e) then Terminal rt else e)) \<and>
    (cond_up (conds_of g') (ConditionTypeTerminal rt) \<longleftrightarrow> is_terminal rt (Some e)) \<and>
    (is_terminal rt (Some e) \<or> cond_up (conds_of g') (ConditionTypeRecoverable rt)) \<and>
    Spec g' = Spec g \<and> GlobalNetworkID (Status g') = GlobalNetworkID (Status g) \<and>
    ARN (metadata_of g') = ARN (metadata_of g)"
proof -
  obtain g' where upd: "conditions_updated rt rm (Some e) g g'"
    and ret: "onError rt rm (Some r) (Some e) =
      Ret (ResourcePtr (Some \<lparr>ko = Some g'\<rparr>), Some (if is_terminal rt (Some e) then Terminal rt else e))"
    by (rule onError_law [OF assms, of rm e], rule that)
  have map: "cond_map (conds_of g') = conditions_spec rt (Some e) (cond_map (conds_of g))"
    using upd by (auto simp: conditions_updated_def)
  have "cond_up (conds_of g') (ConditionTypeTerminal rt) \<longleftrightarrow> is_terminal rt (Some e)"
    and "is_terminal rt (Some e) \<or> cond_up (conds_of g') (ConditionTypeRecoverable rt)"
    using assms(2)
    by (auto simp: cond_up_def map conditions_spec_def raise_condition_def clear_condition_def
        condition_types_ok_def split: option.splits)
  with ret conditions_updated_frame [OF upd] show ?thesis by auto
qed

text \<open>
  C25: \<open>onSuccess\<close> returns no error and leaves neither error condition up: the terminal and the
  recoverable condition, where present, are \<open>False\<close> without a message; conditions of other
  types, the spec and the identifiers are unchanged.
\<close>

theorem on_success_clears:
  assumes "errors_lib_ok rt" and "condition_types_ok rt"
    and "ko r = Some g" and "conds_wf (conds_of g)"
  shows "\<exists>g'. onSuccess rt rm (Some r) = Ret (ResourcePtr (Some \<lparr>ko = Some g'\<rparr>), None) \<and>
    (\<forall>ty c. cond_map (conds_of g') ty = Some c \<longrightarrow>
       (if ty \<in> {ConditionTypeTerminal rt, ConditionTypeRecoverable rt}
        then cond_Status c = ConditionFalse \<and> cond_Message c = None
        else cond_map (conds_of g) ty = Some c)) \<and>
    dom (cond_map (conds_of g')) = dom (cond_map (conds_of g)) \<and>
    Spec g' = Spec g \<and> GlobalNetworkID (Status g') = GlobalNetworkID (Status g)"
proof -
  obtain g' where ret: "onSuccess rt rm (Some r) = Ret (ResourcePtr (Some \<lparr>ko = Some g'\<rparr>), None)"
    and upd: "conditions_updated rt rm None g g' \<or>
      g' = g \<and> dom (cond_map (conds_of g)) \<inter> status_types rt = {}"
    by (rule onSuccess_law [OF assms, of rm], rule that)
  from upd show ?thesis
  proof
    assume upd: "conditions_updated rt rm None g g'"
    then have map: "cond_map (conds_of g') = conditions_spec rt None (cond_map (conds_of g))"
      by (auto simp: conditions_updated_def)
    have other: "conditions_spec rt None m ty = m ty"
      if "ty \<notin> {ConditionTypeTerminal rt, ConditionTypeRecoverable rt}" for m ty
      using that by (simp add: conditions_spec_def clear_condition_def)
    have dom: "dom (cond_map (conds_of g')) = dom (cond_map (conds_of g))"
      by (auto simp: map conditions_spec_def clear_condition_def split: if_splits)
    show ?thesis
      using ret conditions_updated_frame [OF upd] dom
      by (intro exI [of _ g']) (simp add: map other spec_success_clears [OF assms(2)])
  next
    assume "g' = g \<and> dom (cond_map (conds_of g)) \<inter> status_types rt = {}"
    then show ?thesis
      using ret by (intro exI [of _ g]) (auto simp: status_types_def domIff)
  qed
qed

text \<open>
  The status defaults fill in what is missing and nothing else: a region, partition or
  owner that is there stays, a missing one becomes the manager's, the ARN and the rest of
  the object never change, and doing it twice is doing it once.
\<close>

lemma status_defaults_fill:
  "setStatusDefaults rm (setStatusDefaults rm g) = setStatusDefaults rm g \<and>
   metadata_of (setStatusDefaults rm g) =
     \<lparr>ARN = ARN (metadata_of g),
      OwnerAccountID = Some (case OwnerAccountID (metadata_of g) of None \<Rightarrow> awsAccountID rm | Some x \<Rightarrow> x),
      Region = Some (case Region (metadata_of g) of None \<Rightarrow> awsRegion rm | Some x \<Rightarrow> x),
      Partition = Some (case Partition (metadata_of g) of None \<Rightarrow> awsPartition rm | Some x \<Rightarrow> x)\<rparr> \<and>
   Spec (setStatusDefaults rm g) = Spec g \<and> ObjectMeta (setStatusDefaults rm g) = ObjectMeta g \<and>
   conds_of (setStatusDefaults rm g) = conds_of g \<and>
   GlobalNetworkID (Status (setStatusDefaults rm g)) = GlobalNetworkID (Status g)"
  by (simp add: setStatusDefaults_metadata)
    (auto simp: setStatusDefaults_def Let_def split: option.split)

end
