(* ===== verification/TagSync.thy ===== *)
theory TagSync
  imports AckRuntime
begin

text \<open>
  \<open>pkg/tags/sync.go\<close>: \<open>SyncTags\<close> compares the desired with the existing tags and calls
  \<open>TagResource\<close> and \<open>UntagResource\<close>. Values stay pointers here (\<open>map[string]*string\<close>), so a
  tag without a value makes the comparison or the log line panic. Trace and debug
  messages are not modelled, except for the dereferences in their arguments.
  Loop sites of one call, in the schedule \<open>s\<close>: 0 ranges over the desired tags, 1 over the
  existing ones, 2 and 3 over the tags to add (the log line, then \<open>addTags\<close>).
\<close>

section \<open>The code\<close>

fun tags_by_key :: "tag option list \<Rightarrow> string option gomap \<Rightarrow> string option gomap outcome" where
  "tags_by_key [] m = Ret m"
| "tags_by_key (t # ts) m =
     and_then (deref t) (\<lambda>t. and_then (deref (Key t)) (\<lambda>k. tags_by_key ts (mput k (Value t) m)))"

fun add_loop :: "string option gomap \<Rightarrow> (string \<times> string option) list \<Rightarrow>
    string option gomap \<Rightarrow> string option gomap outcome" where
  "add_loop existing [] toAdd = Ret toAdd"
| "add_loop existing ((k, v) # kvs) toAdd =
     (case mget existing k of
        None \<Rightarrow> add_loop existing kvs (mput k v toAdd)
      | Some ev \<Rightarrow>
          and_then (deref ev) (\<lambda>e. and_then (deref v) (\<lambda>d.
            add_loop existing kvs (if e \<noteq> d then mput k v toAdd else toAdd))))"

definition delete_loop :: "string option gomap \<Rightarrow> string list \<Rightarrow> string list" where
  "delete_loop desired ks =
     fold (\<lambda>k toDelete. if mget desired k = None then toDelete @ [k] else toDelete) ks []"

fun log_loop :: "(string \<times> string option) list \<Rightarrow> unit outcome" where
  "log_loop [] = Ret ()"
| "log_loop ((k, v) # kvs) = and_then (deref v) (\<lambda>_. log_loop kvs)"

definition addTags ::
  "order \<Rightarrow> ('w, 'e, 'z) tagsClient_scheme \<Rightarrow> string \<Rightarrow> string option gomap \<Rightarrow>
   ('w, 'e) env \<Rightarrow> 'e option \<times> ('w, 'e) env" where
  "addTags ord client resourceARN tags w =
     (let sdkTags = fold (\<lambda>(k, v) acc. acc @ [\<lparr>sdk_Key = Some k, sdk_Value = v\<rparr>])
                      (entries ord tags) [];
          inp = \<lparr>tag_ResourceArn = Some resourceARN, tag_Tags = Some sdkTags\<rparr>;
          (err, s) = TagResource client inp (svc w);
          w = RecordAPICall ''UPDATE'' ''TagResource'' err (w\<lparr>svc := s\<rparr>)
      in (err, w))"

definition removeTags ::
  "('w, 'e, 'z) tagsClient_scheme \<Rightarrow> string \<Rightarrow> string list \<Rightarrow>
   ('w, 'e) env \<Rightarrow> 'e option \<times> ('w, 'e) env" where
  "removeTags client resourceARN tagKeys w =
     (let inp = \<lparr>untag_ResourceArn = Some resourceARN, untag_TagKeys = Some tagKeys\<rparr>;
          (err, s) = UntagResource client inp (svc w);
          w = RecordAPICall ''UPDATE'' ''UntagResource'' err (w\<lparr>svc := s\<rparr>)
      in (err, w))"

text \<open>The part of \<open>SyncTags\<close> before the first call: what to add and what to delete.\<close>

definition sync_plan ::
  "sched \<Rightarrow> tag option slice \<Rightarrow> tag option slice \<Rightarrow> (string option gomap \<times> string list) outcome" where
  "sync_plan s aTags bTags =
     and_then (tags_by_key (elems aTags) []) (\<lambda>desiredTags.
     and_then (tags_by_key (elems bTags) []) (\<lambda>existingTags.
     and_then (add_loop existingTags (entries (s 0) desiredTags) []) (\<lambda>toAdd.
     Ret (toAdd, delete_loop desiredTags (visit (s 1) (mkeys existingTags))))))"

definition SyncTags ::
  "sched \<Rightarrow> ('w, 'e, 'z) tagsClient_scheme \<Rightarrow> string \<Rightarrow> tag option slice \<Rightarrow> tag option slice \<Rightarrow>
   ('w, 'e) env \<Rightarrow> 'e option outcome \<times> ('w, 'e) env" where
  "SyncTags s client resourceID aTags bTags w =
     (case sync_plan s aTags bTags of
        Panic \<Rightarrow> (Panic, w)
      | Ret (toAdd, toDelete) \<Rightarrow>
          (let remove = (\<lambda>w. if length toDelete > 0
                 then (let (err, w) = removeTags client resourceID toDelete w in (Ret err, w))
                 else (Ret None, w))
           in if length toAdd > 0
              then (case log_loop (entries (s 2) toAdd) of
                      Panic \<Rightarrow> (Panic, w)
                    | Ret _ \<Rightarrow>
                        (let (err, w) = addTags (s 3) client resourceID toAdd w
                         in case err of Some e \<Rightarrow> (Ret (Some e), w) | None \<Rightarrow> remove w))
              else remove w))"

section \<open>The loops\<close>

text \<open>Tags that have a key, as pairs, and the pointer map they denote.\<close>

definition keyed :: "tag option slice \<Rightarrow> bool" where
  "keyed ts \<longleftrightarrow> (\<forall>t \<in> set (elems ts). t \<noteq> None \<and> Key (the t) \<noteq> None)"

definition ptr_pairs :: "tag option slice \<Rightarrow> (string \<times> string option) list" where
  "ptr_pairs ts = map (\<lambda>t. (tag_key t, Value (the t))) (elems ts)"

definition ptr_map :: "tag option slice \<Rightarrow> string option gomap" where
  "ptr_map ts = fold (\<lambda>(k, v). mput k v) (ptr_pairs ts) []"

lemma mwf_ptr_map [simp]: "mwf (ptr_map ts)"
  by (simp add: ptr_map_def gm.wf_fold_put)

lemma tags_by_key_Ret:
  "\<forall>t \<in> set ts. t \<noteq> None \<and> Key (the t) \<noteq> None \<Longrightarrow>
    tags_by_key ts m = Ret (fold (\<lambda>(k, v). mput k v) (map (\<lambda>t. (tag_key t, Value (the t))) ts) m)"
  by (induction ts arbitrary: m) (auto simp: tag_key_def)

lemma tags_by_key_Panic:
  "\<not> (\<forall>t \<in> set ts. t \<noteq> None \<and> Key (the t) \<noteq> None) \<Longrightarrow> tags_by_key ts m = Panic"
proof (induction ts arbitrary: m)
  case (Cons t ts)
  then show ?case by (cases t; cases "Key (the t)") auto
qed simp

lemma tags_by_key_eq:
  "tags_by_key (elems ts) [] = (if keyed ts then Ret (ptr_map ts) else Panic)"
  using tags_by_key_Ret [of "elems ts" "[]"] tags_by_key_Panic [of "elems ts" "[]"]
  by (auto simp: keyed_def ptr_map_def ptr_pairs_def)

text \<open>The comparison in the first loop panics when it needs a value that is not there.\<close>

definition comparable :: "string option gomap \<Rightarrow> (string \<times> string option) list \<Rightarrow> bool" where
  "comparable existing kvs \<longleftrightarrow>
     (\<forall>(k, v) \<in> set kvs. case mget existing k of None \<Rightarrow> True | Some ev \<Rightarrow> ev \<noteq> None \<and> v \<noteq> None)"

lemma comparable_iff:
  "comparable existing (entries ord m) \<longleftrightarrow>
    (\<forall>k v ev. mget m k = Some v \<longrightarrow> mget existing k = Some ev \<longrightarrow> ev \<noteq> None \<and> v \<noteq> None)"
  unfolding comparable_def Ball_def split_paired_All
  by (auto simp: entries_mem split: option.split)

lemma add_loop_Ret:
  "comparable existing kvs \<Longrightarrow> add_loop existing kvs acc =
    Ret (fold (\<lambda>(k, v). mput k v) (filter (\<lambda>(k, v). mget existing k \<noteq> Some v) kvs) acc)"
  by (induction existing kvs acc rule: add_loop.induct)
    (auto simp: comparable_def split: option.splits)

lemma add_loop_Panic: "\<not> comparable existing kvs \<Longrightarrow> add_loop existing kvs acc = Panic"
proof (induction kvs arbitrary: acc)
  case Nil
  then show ?case by (simp add: comparable_def)
next
  case (Cons kv kvs)
  obtain k v where kv: "kv = (k, v)" by (cases kv)
  show ?case
  proof (cases "\<forall>ev. mget existing k = Some ev \<longrightarrow> ev \<noteq> None \<and> v \<noteq> None")
    case True
    with Cons.prems have "\<not> comparable existing kvs"
      by (auto simp: comparable_def kv split: option.splits)
    with Cons.IH show ?thesis by (auto simp: kv outcome_simps split: option.split)
  next
    case False
    then obtain ev where "mget existing k = Some ev" "ev = None \<or> v = None" by auto
    then show ?thesis by (cases ev) (auto simp: kv)
  qed
qed

lemma delete_loop_eq: "delete_loop desired ks = filter (\<lambda>k. mget desired k = None) ks"
proof -
  have "fold (\<lambda>k toDelete. if mget desired k = None then toDelete @ [k] else toDelete) ks acc =
      acc @ filter (\<lambda>k. mget desired k = None) ks" for acc
    by (induction ks arbitrary: acc) auto
  then show ?thesis by (simp add: delete_loop_def)
qed

lemma log_loop_eq: "log_loop kvs = (if None \<in> snd ` set kvs then Panic else Ret ())"
  by (induction kvs rule: log_loop.induct) (auto simp: outcome_simps split: if_splits
      intro: outcome.exhaust elim: deref.elims)

lemma tag_append_loop:
  "fold (\<lambda>(k, v) acc. acc @ [\<lparr>sdk_Key = Some k, sdk_Value = v\<rparr>]) kvs acc =
    acc @ map (\<lambda>(k, v). \<lparr>sdk_Key = Some k, sdk_Value = v\<rparr>) kvs"
  by (induction kvs arbitrary: acc) auto

section \<open>The plan\<close>

definition changed :: "string option gomap \<Rightarrow> string option gomap \<Rightarrow> string \<rightharpoonup> string option" where
  "changed desired existing k = (if mget existing k = mget desired k then None else mget desired k)"

lemma sync_plan_Ret:
  assumes "keyed aTags" and "keyed bTags"
    and "comparable (ptr_map bTags) (entries (s 0) (ptr_map aTags))"
  obtains toAdd toDelete where "sync_plan s aTags bTags = Ret (toAdd, toDelete)"
    and "mwf toAdd" and "mget toAdd = changed (ptr_map aTags) (ptr_map bTags)"
    and "distinct toDelete"
    and "set toDelete = dom (mget (ptr_map bTags)) - dom (mget (ptr_map aTags))"
proof -
  let ?d = "ptr_map aTags" and ?e = "ptr_map bTags"
  let ?add = "fold (\<lambda>(k, v). mput k v)
    (filter (\<lambda>(k, v). mget ?e k \<noteq> Some v) (entries (s 0) ?d)) []"
  have "mget ?add k = changed ?d ?e k" for k
    using mget_put_entries [OF mwf_ptr_map]
    by (auto simp: changed_def split: option.split)
  then have "mget ?add = changed ?d ?e" ..
  then show ?thesis
    using assms
    by (intro that [of ?add "delete_loop ?d (visit (s 1) (mkeys ?e))"])
      (auto simp: sync_plan_def tags_by_key_eq add_loop_Ret gm.wf_fold_put delete_loop_eq
        gm.keys_get gm.distinct_keys)
qed

section \<open>Complete tags\<close>

text \<open>Tag lists in which every tag has a key and a value, as the conversions of \<open>tags.go\<close> return them.\<close>

definition tags_full :: "tag option slice \<Rightarrow> bool" where
  "tags_full ts \<longleftrightarrow> list_all tag_full (elems ts)"

lemma tags_normal_full: "tags_normal ts \<Longrightarrow> tags_full ts"
  by (simp add: tags_normal_def tags_full_def)

lemma tags_full_wf: "tags_full ts \<Longrightarrow> tags_wf ts"
  by (force simp: tags_full_def tags_wf_def list_all_iff tag_full_def)

lemma tags_full_keyed: "tags_full ts \<Longrightarrow> keyed ts"
  by (auto simp: tags_full_def keyed_def list_all_iff tag_full_def split: option.splits)

lemma full_ptr_pairs:
  "list_all tag_full ts \<Longrightarrow>
    map (\<lambda>t. (tag_key t, Value (the t))) ts = map (\<lambda>(k, v). (k, Some v)) (tag_pairs ts)"
proof (induction ts)
  case (Cons t ts)
  then obtain t' k v where "t = Some t'" "Key t' = Some k" "Value t' = Some v"
    by (auto simp: tag_full_def split: option.splits)
  with Cons show ?case by (simp add: tag_key_def)
qed simp

lemma mget_ptr_map_full:
  assumes "tags_full ts"
  shows "mget (ptr_map ts) k = map_option Some (tag_map ts k)"
proof -
  have "map_of (map (\<lambda>(k, v). (k, Some v)) kvs) k = map_option Some (map_of kvs k)"
    for kvs :: "(string \<times> string) list"
    by (induction kvs) auto
  then show ?thesis
    using assms
    by (simp add: ptr_map_def ptr_pairs_def tags_full_def full_ptr_pairs gm.fold_put tag_map_def
        rev_map)
qed

text \<open>
  What a synchronisation has to do: the tags to set, those whose desired value is not
  the existing one, and the keys to remove.
\<close>

definition to_set :: "(string \<rightharpoonup> string) \<Rightarrow> (string \<rightharpoonup> string) \<Rightarrow> string \<rightharpoonup> string" where
  "to_set desired existing k = (if existing k = desired k then None else desired k)"

definition sdk_tags :: "(string \<times> string) list \<Rightarrow> sdk_tag list" where
  "sdk_tags kvs = map (\<lambda>(k, v). \<lparr>sdk_Key = Some k, sdk_Value = Some v\<rparr>) kvs"

text \<open>
  The calls themselves: at most one \<open>TagResource\<close>, then, unless it failed, at most one
  \<open>UntagResource\<close>, each recorded with its error.
\<close>

definition untag_call ::
  "('w, 'e, 'z) tagsClient_scheme \<Rightarrow> string \<Rightarrow> string list \<Rightarrow>
   ('w, 'e) env \<Rightarrow> 'e option outcome \<times> ('w, 'e) env" where
  "untag_call client arn ks w =
     (if ks = [] then (Ret None, w)
      else (let (err, s) = UntagResource client
                  \<lparr>untag_ResourceArn = Some arn, untag_TagKeys = Some ks\<rparr> (svc w)
            in (Ret err, RecordAPICall ''UPDATE'' ''UntagResource'' err (w\<lparr>svc := s\<rparr>))))"

definition sync_calls ::
  "('w, 'e, 'z) tagsClient_scheme \<Rightarrow> string \<Rightarrow> (string \<times> string) list \<Rightarrow> string list \<Rightarrow>
   ('w, 'e) env \<Rightarrow> 'e option outcome \<times> ('w, 'e) env" where
  "sync_calls client arn kvs ks w =
     (if kvs = [] then untag_call client arn ks w
      else (let (err, s) = TagResource client
                  \<lparr>tag_ResourceArn = Some arn, tag_Tags = Some (sdk_tags kvs)\<rparr> (svc w);
                w = RecordAPICall ''UPDATE'' ''TagResource'' err (w\<lparr>svc := s\<rparr>)
            in case err of Some e \<Rightarrow> (Ret (Some e), w) | None \<Rightarrow> untag_call client arn ks w))"

lemma addTags_eq:
  assumes "entries ord tags = map (\<lambda>(k, v). (k, Some v)) kvs"
  shows "addTags ord client arn tags w =
    (let (err, s) = TagResource client
            \<lparr>tag_ResourceArn = Some arn, tag_Tags = Some (sdk_tags kvs)\<rparr> (svc w)
     in (err, RecordAPICall ''UPDATE'' ''TagResource'' err (w\<lparr>svc := s\<rparr>)))"
  unfolding addTags_def tag_append_loop assms
  by (simp add: sdk_tags_def comp_def case_prod_unfold Let_def)

lemma comparable_full:
  assumes "tags_full aTags" and "tags_full bTags"
  shows "comparable (ptr_map bTags) (entries ord (ptr_map aTags))"
  using assms
  by (auto simp: comparable_iff mget_ptr_map_full)

lemma some_valued:
  assumes "mwf m" and "\<And>k. mget m k = map_option Some (M k)"
  obtains kvs where "entries ord m = map (\<lambda>(k, v). (k, Some v)) kvs"
    and "distinct (map fst kvs)" and "map_of kvs = M"
proof
  let ?kvs = "map (\<lambda>(k, v). (k, the v)) (entries ord m)"
  have some: "\<forall>(k, v) \<in> set (entries ord m). v \<noteq> None"
    using assms(2) by (auto simp: entries_mem)
  then show "entries ord m = map (\<lambda>(k, v). (k, Some v)) ?kvs"
    by (auto simp: comp_def intro!: map_idI [symmetric])
  have fst: "map fst ?kvs = map fst (entries ord m)"
    by (simp only: map_map comp_def case_prod_unfold fst_conv)
  then show d: "distinct (map fst ?kvs)"
    using gm.distinct_keys [OF assms(1)] by simp
  have "(k, v) \<in> set ?kvs \<longleftrightarrow> M k = Some v" for k v
  proof -
    have "(k, v) \<in> set ?kvs \<longleftrightarrow> (\<exists>ov. (k, ov) \<in> set (entries ord m) \<and> v = the ov)"
      by (auto intro: rev_image_eqI)
    then have "(k, v) \<in> set ?kvs \<longleftrightarrow> (\<exists>ov. map_option Some (M k) = Some ov \<and> v = the ov)"
      by (simp only: entries_mem assms(2))
    then show ?thesis by (cases "M k") auto
  qed
  then show "map_of ?kvs = M"
    by (rule map_of_eqI [OF d])
qed

lemma SyncTags_full:
  assumes a: "tags_full aTags" and b: "tags_full bTags"
  obtains kvs ks where "SyncTags s client arn aTags bTags w = sync_calls client arn kvs ks w"
    and "distinct (map fst kvs)" and "map_of kvs = to_set (tag_map aTags) (tag_map bTags)"
    and "distinct ks" and "set ks = dom (tag_map bTags) - dom (tag_map aTags)"
proof -
  obtain toAdd ks where plan: "sync_plan s aTags bTags = Ret (toAdd, ks)" and wf: "mwf toAdd"
    and add: "mget toAdd = changed (ptr_map aTags) (ptr_map bTags)"
    and ks: "distinct ks" "set ks = dom (mget (ptr_map bTags)) - dom (mget (ptr_map aTags))"
    using sync_plan_Ret [OF tags_full_keyed [OF a] tags_full_keyed [OF b] comparable_full [OF a b]]
    by blast
  have "mget toAdd k = map_option Some (to_set (tag_map aTags) (tag_map bTags) k)" for k
    unfolding add changed_def to_set_def
    by (auto simp: mget_ptr_map_full a b) (metis option.inj_map_strong option.sel)+
  then obtain kvs where kvs: "entries (s 3) toAdd = map (\<lambda>(k, v). (k, Some v)) kvs"
    and d: "distinct (map fst kvs)" "map_of kvs = to_set (tag_map aTags) (tag_map bTags)"
    using some_valued [OF wf] by metis
  have "length toAdd = length kvs"
    using arg_cong [OF kvs, of length] by (simp add: entries_def mkeys_def)
  then have len: "toAdd = [] \<longleftrightarrow> kvs = []" by auto
  have log: "log_loop (entries (s 2) toAdd) = Ret ()"
  proof -
    have "set (entries (s 2) toAdd) = set (entries (s 3) toAdd)" by (simp add: set_entries wf)
    then show ?thesis by (auto simp: log_loop_eq kvs)
  qed
  have "SyncTags s client arn aTags bTags w = sync_calls client arn kvs ks w"
    by (auto simp: SyncTags_def plan sync_calls_def untag_call_def len log addTags_eq [OF kvs]
        removeTags_def Let_def split: option.split prod.split)
  then show ?thesis
    using that d ks by (simp add: mget_ptr_map_full a b dom_def)
qed

lemma SyncTags_returns:
  assumes "tags_full aTags" and "tags_full bTags"
  obtains err w' where "SyncTags s client arn aTags bTags w = (Ret err, w')"
proof -
  obtain kvs ks where run: "SyncTags s client arn aTags bTags w = sync_calls client arn kvs ks w"
    by (rule SyncTags_full [OF assms, of s client arn w])
  have "\<exists>err w'. untag_call client arn ks u = (Ret err, w')" for u
    by (auto simp: untag_call_def split: prod.split)
  then have "\<exists>err w'. sync_calls client arn kvs ks w = (Ret err, w')"
    by (auto simp: sync_calls_def Let_def split: prod.split option.split)
  with run that show ?thesis by metis
qed

section \<open>The tagging service\<close>

text \<open>
  The documented behaviour of the two calls, over a reading \<open>view\<close> of the service's state
  (the tags of every ARN): a successful \<open>TagResource\<close> adds the given tags or overwrites
  them, a successful \<open>UntagResource\<close> removes the given keys, and neither touches another
  resource. Nothing is said of calls that fail.
\<close>

definition tag_service_ok ::
  "('w, 'e, 'z) tagsClient_scheme \<Rightarrow> ('w \<Rightarrow> string \<Rightarrow> string \<rightharpoonup> string) \<Rightarrow> bool" where
  "tag_service_ok client view \<longleftrightarrow>
     (\<forall>arn kvs s s'. distinct (map fst kvs) \<longrightarrow>
        TagResource client \<lparr>tag_ResourceArn = Some arn, tag_Tags = Some (sdk_tags kvs)\<rparr> s = (None, s') \<longrightarrow>
        view s' = (view s)(arn := view s arn ++ map_of kvs)) \<and>
     (\<forall>arn ks s s'.
        UntagResource client \<lparr>untag_ResourceArn = Some arn, untag_TagKeys = Some ks\<rparr> s = (None, s') \<longrightarrow>
        view s' = (view s)(arn := view s arn |` (- set ks)))"

lemma tag_service_okD:
  assumes "tag_service_ok client view"
  shows "distinct (map fst kvs) \<Longrightarrow>
      TagResource client \<lparr>tag_ResourceArn = Some arn, tag_Tags = Some (sdk_tags kvs)\<rparr> s = (None, s') \<Longrightarrow>
      view s' = (view s)(arn := view s arn ++ map_of kvs)"
    and "UntagResource client \<lparr>untag_ResourceArn = Some arn, untag_TagKeys = Some ks\<rparr> s = (None, s') \<Longrightarrow>
      view s' = (view s)(arn := view s arn |` (- set ks))"
  using assms unfolding tag_service_ok_def by blast+

lemma untag_call_view:
  assumes "tag_service_ok client view" and "untag_call client arn ks w = (Ret None, w')"
  shows "view (svc w') = (view (svc w))(arn := view (svc w) arn |` (- set ks))"
proof (cases "ks = []")
  case True
  with assms(2) show ?thesis by (simp add: untag_call_def restrict_map_def)
next
  case False
  with assms(2) obtain s' where
    "UntagResource client \<lparr>untag_ResourceArn = Some arn, untag_TagKeys = Some ks\<rparr> (svc w) = (None, s')"
    "svc w' = s'"
    by (auto simp: untag_call_def split: prod.splits)
  with tag_service_okD(2) [OF assms(1)] show ?thesis by simp
qed

lemma sync_calls_view:
  assumes ok: "tag_service_ok client view" and d: "distinct (map fst kvs)"
    and run: "sync_calls client arn kvs ks w = (Ret None, w')"
  shows "view (svc w') = (view (svc w))(arn := (view (svc w) arn ++ map_of kvs) |` (- set ks))"
proof (cases "kvs = []")
  case True
  with run show ?thesis using untag_call_view [OF ok] by (simp add: sync_calls_def)
next
  case False
  with run obtain s' where tag:
    "TagResource client \<lparr>tag_ResourceArn = Some arn, tag_Tags = Some (sdk_tags kvs)\<rparr> (svc w) = (None, s')"
    and un: "untag_call client arn ks (RecordAPICall ''UPDATE'' ''TagResource'' None (w\<lparr>svc := s'\<rparr>)) =
      (Ret None, w')"
    by (auto simp: sync_calls_def Let_def split: prod.splits option.splits)
  from untag_call_view [OF ok un] tag_service_okD(1) [OF ok d tag] show ?thesis by simp
qed

lemma to_set_Some: "to_set desired existing k = Some v \<longleftrightarrow> desired k = Some v \<and> existing k \<noteq> Some v"
  by (auto simp: to_set_def)

text \<open>
  What the tags of a resource become: the desired tags, and beside them those that are
  neither desired nor in the list of existing tags the synchronisation was given.
\<close>

definition synced :: "(string \<rightharpoonup> string) \<Rightarrow> (string \<rightharpoonup> string) \<Rightarrow> (string \<rightharpoonup> string) \<Rightarrow> string \<rightharpoonup> string" where
  "synced desired existing held = (held |` (- dom existing)) ++ desired"

lemma synced_same: "existing \<subseteq>\<^sub>m held \<Longrightarrow> synced existing existing held = held"
  by (auto simp: synced_def fun_eq_iff restrict_map_def map_add_def map_le_def dom_def split: option.split)

lemma synced_all: "synced desired existing existing = desired"
  by (auto simp: synced_def fun_eq_iff restrict_map_def map_add_def dom_def split: option.split)

lemma to_set_merge:
  assumes "ks = dom existing - dom desired" and "existing \<subseteq>\<^sub>m held"
  shows "(held ++ to_set desired existing) |` (- ks) = synced desired existing held"
proof
  fix k
  show "((held ++ to_set desired existing) |` (- ks)) k = synced desired existing held k"
    using map_le_def [THEN iffD1, OF assms(2), rule_format, of k]
    by (cases "desired k"; cases "existing k")
      (auto simp: assms(1) synced_def restrict_map_def map_add_def to_set_def domIff split: option.splits)
qed

lemma SyncTags_view:
  assumes "tag_service_ok client view"
    and "tags_full aTags" and "tags_full bTags"
    and "tag_map bTags \<subseteq>\<^sub>m view (svc w) arn"
    and "SyncTags s client arn aTags bTags w = (Ret None, w')"
  shows "view (svc w') = (view (svc w))(arn := synced (tag_map aTags) (tag_map bTags) (view (svc w) arn))"
proof -
  obtain kvs ks where "SyncTags s client arn aTags bTags w = sync_calls client arn kvs ks w"
    and d: "distinct (map fst kvs)" and kvs: "map_of kvs = to_set (tag_map aTags) (tag_map bTags)"
    and ks: "set ks = dom (tag_map bTags) - dom (tag_map aTags)"
    using SyncTags_full [OF assms(2,3)] by metis
  with assms(5) have "sync_calls client arn kvs ks w = (Ret None, w')" by simp
  from sync_calls_view [OF assms(1) d this] show ?thesis
    by (simp add: kvs to_set_merge [OF ks assms(4)])
qed

section \<open>Properties\<close>

text \<open>
  C9: \<open>SyncTags\<close> makes the service agree with the desired tags. If the existing tags it is
  given are tags the service holds when it starts, and it returns without error, then the
  service holds the desired tags afterwards; of the other tags it held, those in the
  existing list are gone and those outside it (the system tags filtered from it) are kept.
  The tags of every other resource are what they were, in whatever order the maps are visited.
\<close>

theorem sync_tags_converges:
  assumes "tag_service_ok client view"
    and "tags_full aTags" and "tags_full bTags"
    and "tag_map bTags \<subseteq>\<^sub>m view (svc w) arn"
    and "SyncTags s client arn aTags bTags w = (Ret None, w')"
  shows "view (svc w') = (view (svc w))(arn :=
    (view (svc w) arn |` (- dom (tag_map bTags))) ++ tag_map aTags)"
  using SyncTags_view [OF assms] by (simp add: synced_def)

text \<open>
  C26: on tags that have keys and values \<open>SyncTags\<close> always returns, and its calls are
  determined: \<open>TagResource\<close> is called once if some desired tag is new or has another value,
  \<open>UntagResource\<close> once if some existing key is no longer desired and tagging did not fail,
  and the error returned is that of the last call made.
\<close>

theorem sync_tags_calls:
  assumes "tags_full aTags" and "tags_full bTags"
  shows "\<exists>err tagErr w'. SyncTags s client arn aTags bTags w = (Ret err, w') \<and>
    (let set_any = (\<exists>k v. tag_map aTags k = Some v \<and> tag_map bTags k \<noteq> Some v);
         drop_any = (\<exists>k. tag_map bTags k \<noteq> None \<and> tag_map aTags k = None);
         untag = drop_any \<and> (set_any \<longrightarrow> tagErr = None)
     in api_calls w' = api_calls w @
          (if set_any then [(''UPDATE'', ''TagResource'', tagErr)] else []) @
          (if untag then [(''UPDATE'', ''UntagResource'', err)] else []) \<and>
        (\<not> untag \<longrightarrow> err = (if set_any then tagErr else None)))"
proof -
  obtain kvs ks where run: "SyncTags s client arn aTags bTags w = sync_calls client arn kvs ks w"
    and kvs: "map_of kvs = to_set (tag_map aTags) (tag_map bTags)"
    and ks: "set ks = dom (tag_map bTags) - dom (tag_map aTags)"
    using SyncTags_full [OF assms] by metis
  have "kvs \<noteq> [] \<longleftrightarrow> (\<exists>k v. map_of kvs k = Some v)"
    using map_of_eq_empty_iff [of kvs] by (auto simp: fun_eq_iff)
  then have set_any: "kvs \<noteq> [] \<longleftrightarrow> (\<exists>k v. tag_map aTags k = Some v \<and> tag_map bTags k \<noteq> Some v)"
    by (simp add: kvs to_set_Some)
  have drop_any: "ks \<noteq> [] \<longleftrightarrow> (\<exists>k. tag_map bTags k \<noteq> None \<and> tag_map aTags k = None)"
  proof -
    have "ks \<noteq> [] \<longleftrightarrow> (\<exists>k. k \<in> set ks)" by (cases ks) auto
    then show ?thesis by (simp add: ks dom_def)
  qed
  have untag: "\<exists>err w'. untag_call client arn ks u = (Ret err, w') \<and>
      api_calls w' = api_calls u @ (if ks \<noteq> [] then [(''UPDATE'', ''UntagResource'', err)] else []) \<and>
      (ks = [] \<longrightarrow> err = None)" for u
    by (auto simp: untag_call_def split: prod.split)
  show ?thesis
  proof (cases "kvs = []")
    case True
    with untag [of w] show ?thesis
      unfolding Let_def set_any [symmetric] drop_any [symmetric] run sync_calls_def by auto
  next
    case False
    obtain e s' where tag: "TagResource client
        \<lparr>tag_ResourceArn = Some arn, tag_Tags = Some (sdk_tags kvs)\<rparr> (svc w) = (e, s')"
      by fastforce
    show ?thesis
      using untag [of "RecordAPICall ''UPDATE'' ''TagResource'' e (w\<lparr>svc := s'\<rparr>)"] False
      unfolding Let_def set_any [symmetric] drop_any [symmetric] run sync_calls_def tag
      by (cases e) (auto simp: RecordAPICall_def)
  qed
qed

text \<open>
  \<open>SyncTags\<close> does nothing when the desired and the existing tags are the same map, even
  if the lists differ in order or repeat keys.
\<close>

lemma sync_tags_idle:
  assumes "tags_full aTags" and "tags_full bTags" and "tag_map aTags = tag_map bTags"
  shows "SyncTags s client arn aTags bTags w = (Ret None, w)"
proof -
  obtain kvs ks where run: "SyncTags s client arn aTags bTags w = sync_calls client arn kvs ks w"
    and kvs: "map_of kvs = to_set (tag_map aTags) (tag_map bTags)"
    and ks: "set ks = dom (tag_map bTags) - dom (tag_map aTags)"
    using SyncTags_full [OF assms(1,2)] by metis
  have "map_of kvs = Map.empty" by (simp add: kvs to_set_def assms(3) fun_eq_iff)
  then have "kvs = []" by simp
  moreover have "ks = []" using ks assms(3) by simp
  ultimately show ?thesis by (simp add: run sync_calls_def untag_call_def)
qed

text \<open>
  C27: exactly when \<open>SyncTags\<close> panics. It needs a key in every tag; for a key that is in both
  lists it needs both values, for a key that is only desired it needs the desired value.
  It panics before the first call, so the service and the record of calls are untouched.
\<close>

theorem sync_tags_panics:
  "if keyed aTags \<and> keyed bTags \<and>
      \<not> (\<exists>k v. mget (ptr_map aTags) k = Some v \<and>
           (v = None \<or> mget (ptr_map bTags) k = Some None))
   then \<exists>err w'. SyncTags s client arn aTags bTags w = (Ret err, w')
   else SyncTags s client arn aTags bTags w = (Panic, w)"
proof (cases "keyed aTags \<and> keyed bTags \<and> comparable (ptr_map bTags) (entries (s 0) (ptr_map aTags))")
  case True
  then have t: "keyed aTags" "keyed bTags"
    "comparable (ptr_map bTags) (entries (s 0) (ptr_map aTags))" by auto
  obtain toAdd ks where plan: "sync_plan s aTags bTags = Ret (toAdd, ks)" and wf: "mwf toAdd"
    and add: "mget toAdd = changed (ptr_map aTags) (ptr_map bTags)"
    by (rule sync_plan_Ret [of aTags bTags s, OF t], rule that)
  have log: "None \<in> snd ` set (entries (s 2) toAdd) \<longleftrightarrow> (\<exists>k. mget toAdd k = Some None)"
    by (rule snd_entries_mem)
  have bad: "(\<exists>k v. mget (ptr_map aTags) k = Some v \<and>
      (v = None \<or> mget (ptr_map bTags) k = Some None)) \<longleftrightarrow> (\<exists>k. mget toAdd k = Some None)"
  proof -
    have cmp: "ev \<noteq> None \<and> v \<noteq> None"
      if "mget (ptr_map aTags) k = Some v" "mget (ptr_map bTags) k = Some ev" for k v ev
      using t(3) that unfolding comparable_iff by blast
    have "(\<exists>v. mget (ptr_map aTags) k = Some v \<and> (v = None \<or> mget (ptr_map bTags) k = Some None)) \<longleftrightarrow>
        mget toAdd k = Some None" for k
      by (cases "mget (ptr_map aTags) k"; cases "mget (ptr_map bTags) k")
        (auto simp: add changed_def dest: cmp)
    then show ?thesis by blast
  qed
  have "toAdd = [] \<Longrightarrow> \<nexists>k. mget toAdd k = Some None" by simp
  then show ?thesis
    using True
    by (auto simp: bad SyncTags_def plan log_loop_eq log Let_def split: option.split prod.split)
next
  case False
  then have "sync_plan s aTags bTags = Panic"
    by (auto simp: sync_plan_def tags_by_key_eq add_loop_Panic)
  moreover have "\<exists>k v. mget (ptr_map aTags) k = Some v \<and>
      (v = None \<or> mget (ptr_map bTags) k = Some None)" if "keyed aTags" "keyed bTags"
    using False that unfolding comparable_iff by auto
  ultimately show ?thesis by (auto simp: SyncTags_def)
qed

end
