(* ===== verification/SdkOps.thy ===== *)
theory SdkOps
  imports StatusConditions TagSync
begin

text \<open>
  \<open>pkg/resource/global_network/sdk.go\<close>: the four operations on the AWS service and their
  request payloads. An operation takes the environment \<open>env\<close> and returns an outcome and the
  environment it leaves; the environment of a panic is the one at the panic. \<open>sdkFind\<close>,
  \<open>sdkCreate\<close> and \<open>sdkUpdate\<close> return a resource and an error, as the code does. Tracing is
  not modelled.
\<close>

section \<open>Sequencing\<close>

fun op_then :: "'a outcome \<times> 'w \<Rightarrow> ('a \<Rightarrow> 'w \<Rightarrow> 'b outcome \<times> 'w) \<Rightarrow> 'b outcome \<times> 'w" where
  "op_then (Panic, w) f = (Panic, w)"
| "op_then (Ret x, w) f = f x w"

lemma op_then_Ret [outcome_simps]:
  "op_then m f = (Ret y, w') \<longleftrightarrow> (\<exists>x w. m = (Ret x, w) \<and> f x w = (Ret y, w'))"
  by (cases "(m, f)" rule: op_then.cases) auto

section \<open>Tags of SDK messages\<close>

definition tags_of_sdk :: "sdk_tag slice \<Rightarrow> tag option slice" where
  "tags_of_sdk ts = map_option (map (\<lambda>t. Some \<lparr>Key = sdk_Key t, Value = sdk_Value t\<rparr>)) ts"

fun sdk_of_tags_loop :: "tag option list \<Rightarrow> sdk_tag list \<Rightarrow> sdk_tag list outcome" where
  "sdk_of_tags_loop [] f1 = Ret f1"
| "sdk_of_tags_loop (t # ts) f1 =
     and_then (deref t) (\<lambda>t. sdk_of_tags_loop ts (f1 @ [\<lparr>sdk_Key = Key t, sdk_Value = Value t\<rparr>]))"

lemma tags_of_sdk_wf [simp]: "tags_wf (tags_of_sdk ts)"
  by (cases ts) (auto simp: tags_wf_def tags_of_sdk_def)

lemma sdk_of_tags_loop_eq:
  "sdk_of_tags_loop ts f1 =
     (if None \<in> set ts then Panic
      else Ret (f1 @ map (\<lambda>t. \<lparr>sdk_Key = Key (the t), sdk_Value = Value (the t)\<rparr>) ts))"
proof (induction ts arbitrary: f1)
  case (Cons t ts)
  then show ?case by (cases t) auto
qed simp

section \<open>Reading\<close>

definition requiredFieldsMissingFromReadManyInput :: "resource \<Rightarrow> bool outcome" where
  "requiredFieldsMissingFromReadManyInput r =
     and_then (deref (ko r)) (\<lambda>g. Ret (GlobalNetworkID (Status g) = None))"

definition newListRequestPayload ::
  "resource \<Rightarrow> (DescribeGlobalNetworksInput \<times> 'e option) outcome" where
  "newListRequestPayload r = and_then (deref (ko r)) (\<lambda>g.
     Ret (case GlobalNetworkID (Status g) of
            None \<Rightarrow> \<lparr>GlobalNetworkIds = None\<rparr>
          | Some i \<Rightarrow> \<lparr>GlobalNetworkIds = Some ([] @ [i])\<rparr>, None))"

text \<open>
  The fields of the resource that the outputs overwrite, given the metadata to put in:
  everything but the ARN is cleared when the output lacks it.
\<close>

definition merge_fields ::
  "sdk_global_network \<Rightarrow> resource_metadata option \<Rightarrow> GlobalNetwork \<Rightarrow> GlobalNetwork" where
  "merge_fields n md g =
     g\<lparr>Spec := (Spec g)\<lparr>Description := sdk_Description n, Tags := tags_of_sdk (sdk_Tags n)\<rparr>,
       Status := (Status g)\<lparr>ACKResourceMetadata := md,
         CreatedAt := sdk_CreatedAt n, GlobalNetworkID := sdk_GlobalNetworkId n,
         State := (if sdk_State n \<noteq> '''' then Some (sdk_State n) else None)\<rparr>\<rparr>"

text \<open>\<open>sdkFind\<close> makes metadata only to store an ARN, \<open>sdkCreate\<close> and \<open>sdkUpdate\<close> always do.\<close>

definition merge_found :: "sdk_global_network \<Rightarrow> GlobalNetwork \<Rightarrow> GlobalNetwork" where
  "merge_found elem g =
     merge_fields elem
       (case sdk_GlobalNetworkArn elem of
          None \<Rightarrow> ACKResourceMetadata (Status g)
        | Some arn \<Rightarrow> Some ((case ACKResourceMetadata (Status g) of
              None \<Rightarrow> empty_metadata | Some md \<Rightarrow> md)\<lparr>ARN := Some arn\<rparr>)) g"

definition merge_output :: "sdk_global_network \<Rightarrow> GlobalNetwork \<Rightarrow> GlobalNetwork" where
  "merge_output n g =
     (let md = (case ACKResourceMetadata (Status g) of None \<Rightarrow> empty_metadata | Some md \<Rightarrow> md)
      in merge_fields n
           (Some (case sdk_GlobalNetworkArn n of None \<Rightarrow> md | Some arn \<Rightarrow> md\<lparr>ARN := Some arn\<rparr>)) g)"

definition sdkFind ::
  "('e, 'd) ack_runtime \<Rightarrow> ('w, 'e) resourceManager \<Rightarrow> resource \<Rightarrow> ('w, 'e) env \<Rightarrow>
   (resource option \<times> 'e option) outcome \<times> ('w, 'e) env" where
  "sdkFind rt rm r w =
     op_then (requiredFieldsMissingFromReadManyInput r, w) (\<lambda>missing w.
       if missing then (Ret (None, Some (NotFound rt)), w)
       else op_then (newListRequestPayload r, w) (\<lambda>(inp, err) w.
         case err of
           Some e \<Rightarrow> (Ret (None, Some e), w)
         | None \<Rightarrow>
             (let ((resp, err), s) = DescribeGlobalNetworks (sdkapi rm) inp (svc w);
                  w = RecordAPICall ''READ_MANY'' ''DescribeGlobalNetworks'' err (w\<lparr>svc := s\<rparr>)
              in case err of
                   Some e \<Rightarrow>
                     (Ret (None, Some (if AsAPIErrorCode rt e = Some ''ResourceNotFoundException''
                                       then NotFound rt else e)), w)
                 | None \<Rightarrow>
                     (and_then (deref resp) (\<lambda>resp.
                        case elems (GlobalNetworks resp) of
                          [] \<Rightarrow> Ret (None, Some (NotFound rt))
                        | elem # _ \<Rightarrow>
                            and_then (deref (GlobalNetwork_DeepCopy (ko r))) (\<lambda>g.
                              Ret (Some \<lparr>ko = Some (setStatusDefaults rm (merge_found elem g))\<rparr>,
                                   None))), w))))"

section \<open>Creating\<close>

definition newCreateRequestPayload ::
  "resource \<Rightarrow> (CreateGlobalNetworkInput \<times> 'e option) outcome" where
  "newCreateRequestPayload r = and_then (deref (ko r)) (\<lambda>g.
     case Tags (Spec g) of
       None \<Rightarrow> Ret (\<lparr>create_Description = Description (Spec g), create_Tags = None\<rparr>, None)
     | Some ts \<Rightarrow> and_then (sdk_of_tags_loop ts []) (\<lambda>f1.
         Ret (\<lparr>create_Description = Description (Spec g), create_Tags = Some f1\<rparr>, None)))"

text \<open>The deferred function of \<open>sdkCreate\<close>, on the named results at its return.\<close>

definition post_create_defer ::
  "('e, 'd) ack_runtime \<Rightarrow> GlobalNetwork \<Rightarrow> resource option \<times> 'e option \<Rightarrow>
   resource option \<times> 'e option" where
  "post_create_defer rt g res =
     (case res of (created, err) \<Rightarrow>
       (case err of
          None \<Rightarrow> (created, err)
        | Some e \<Rightarrow> (if created = None then Some \<lparr>ko = Some g\<rparr> else created,
                     Some (WrapPostCreateError rt e))))"

definition sdkCreate ::
  "('e, 'd) ack_runtime \<Rightarrow> ('w, 'e) resourceManager \<Rightarrow> resource \<Rightarrow> ('w, 'e) env \<Rightarrow>
   (resource option \<times> 'e option) outcome \<times> ('w, 'e) env" where
  "sdkCreate rt rm desired w =
     op_then (newCreateRequestPayload desired, w) (\<lambda>(inp, err) w.
       case err of
         Some e \<Rightarrow> (Ret (None, Some e), w)
       | None \<Rightarrow>
           (let ((resp, err), s) = CreateGlobalNetwork (sdkapi rm) inp (svc w);
                w = RecordAPICall ''CREATE'' ''CreateGlobalNetwork'' err (w\<lparr>svc := s\<rparr>)
            in case err of
                 Some e \<Rightarrow> (Ret (None, Some e), w)
               | None \<Rightarrow>
                   (and_then (deref (GlobalNetwork_DeepCopy (ko desired))) (\<lambda>g.
                    and_then (deref resp) (\<lambda>resp.
                    and_then (deref (created_GlobalNetwork resp)) (\<lambda>n.
                      let g = setStatusDefaults rm (merge_output n g)
                      in Ret (post_create_defer rt g (Some \<lparr>ko = Some g\<rparr>, None))))), w)))"

section \<open>Updating\<close>

text \<open>\<open>hooks.go\<close>: \<open>var syncTags = tags.SyncTags\<close>.\<close>

definition syncTags ::
  "sched \<Rightarrow> ('w, 'e) svcsdk_Client \<Rightarrow> string \<Rightarrow> tag option slice \<Rightarrow> tag option slice \<Rightarrow>
   ('w, 'e) env \<Rightarrow> 'e option outcome \<times> ('w, 'e) env" where
  "syncTags = SyncTags"

definition newUpdateRequestPayload ::
  "resource \<Rightarrow> 'd \<Rightarrow> (UpdateGlobalNetworkInput \<times> 'e option) outcome" where
  "newUpdateRequestPayload r delta = and_then (deref (ko r)) (\<lambda>g.
     Ret (\<lparr>update_GlobalNetworkId = GlobalNetworkID (Status g),
           update_Description = Description (Spec g)\<rparr>, None))"

text \<open>The part of \<open>sdkUpdate\<close> that synchronises the tags, with the dereferences in its arguments.\<close>

definition update_tags ::
  "('e, 'd) ack_runtime \<Rightarrow> sched \<Rightarrow> ('w, 'e) resourceManager \<Rightarrow> resource \<Rightarrow> resource \<Rightarrow> 'd \<Rightarrow>
   ('w, 'e) env \<Rightarrow> 'e option outcome \<times> ('w, 'e) env" where
  "update_tags rt s rm desired latest delta w =
     (if DifferentAt rt delta ''Spec.Tags''
      then op_then (deref (ko desired), w) (\<lambda>g w.
           op_then (deref (ACKResourceMetadata (Status g)), w) (\<lambda>md w.
           op_then (deref (ARN md), w) (\<lambda>arn w.
           op_then (deref (ko latest), w) (\<lambda>l w.
             syncTags s (sdkapi rm) arn (Tags (Spec g)) (Tags (Spec l)) w))))
      else (Ret None, w))"

definition sdkUpdate ::
  "('e, 'd) ack_runtime \<Rightarrow> sched \<Rightarrow> ('w, 'e) resourceManager \<Rightarrow> resource \<Rightarrow> resource \<Rightarrow> 'd \<Rightarrow>
   ('w, 'e) env \<Rightarrow> (resource option \<times> 'e option) outcome \<times> ('w, 'e) env" where
  "sdkUpdate rt s rm desired latest delta w =
     op_then (update_tags rt s rm desired latest delta w) (\<lambda>err w.
       case err of
         Some e \<Rightarrow> (Ret (None, Some e), w)
       | None \<Rightarrow>
           if \<not> DifferentExcept rt delta [''Spec.Tags''] then (Ret (Some desired, None), w)
           else op_then (newUpdateRequestPayload desired delta, w) (\<lambda>(inp, err) w.
             case err of
               Some e \<Rightarrow> (Ret (None, Some e), w)
             | None \<Rightarrow>
                 (let ((resp, err), s) = UpdateGlobalNetwork (sdkapi rm) inp (svc w);
                      w = RecordAPICall ''UPDATE'' ''UpdateGlobalNetwork'' err (w\<lparr>svc := s\<rparr>)
                  in case err of
                       Some e \<Rightarrow> (Ret (None, Some e), w)
                     | None \<Rightarrow>
                         (and_then (deref (GlobalNetwork_DeepCopy (ko desired))) (\<lambda>g.
                          and_then (deref resp) (\<lambda>resp.
                          and_then (deref (updated_GlobalNetwork resp)) (\<lambda>n.
                            Ret (Some \<lparr>ko = Some (setStatusDefaults rm (merge_output n g))\<rparr>,
                                 None)))), w))))"

section \<open>Deleting\<close>

definition newDeleteRequestPayload ::
  "resource \<Rightarrow> (DeleteGlobalNetworkInput \<times> 'e option) outcome" where
  "newDeleteRequestPayload r = and_then (deref (ko r)) (\<lambda>g.
     Ret (\<lparr>delete_GlobalNetworkId = GlobalNetworkID (Status g)\<rparr>, None))"

definition sdkDelete ::
  "('w, 'e) resourceManager \<Rightarrow> resource \<Rightarrow> ('w, 'e) env \<Rightarrow>
   (resource option \<times> 'e option) outcome \<times> ('w, 'e) env" where
  "sdkDelete rm r w =
     op_then (newDeleteRequestPayload r, w) (\<lambda>(inp, err) w.
       case err of
         Some e \<Rightarrow> (Ret (None, Some e), w)
       | None \<Rightarrow>
           (let (err, s) = DeleteGlobalNetwork (sdkapi rm) inp (svc w);
                w = RecordAPICall ''DELETE'' ''DeleteGlobalNetwork'' err (w\<lparr>svc := s\<rparr>)
            in (Ret (None, err), w)))"

section \<open>The operations on an object\<close>

lemma merge_fields_sel [simp]:
  "TypeMeta (merge_fields n md g) = TypeMeta g" "ObjectMeta (merge_fields n md g) = ObjectMeta g"
  "Description (Spec (merge_fields n md g)) = sdk_Description n"
  "Tags (Spec (merge_fields n md g)) = tags_of_sdk (sdk_Tags n)"
  "ACKResourceMetadata (Status (merge_fields n md g)) = md"
  "Conditions (Status (merge_fields n md g)) = Conditions (Status g)"
  "CreatedAt (Status (merge_fields n md g)) = sdk_CreatedAt n"
  "GlobalNetworkID (Status (merge_fields n md g)) = sdk_GlobalNetworkId n"
  "State (Status (merge_fields n md g)) = (if sdk_State n \<noteq> '''' then Some (sdk_State n) else None)"
  by (simp_all add: merge_fields_def)

text \<open>
  A resource that shows a network: what the service reports about it, with an ARN whenever
  the network has one.
\<close>

definition reflects :: "sdk_global_network \<Rightarrow> GlobalNetwork \<Rightarrow> bool" where
  "reflects n g \<longleftrightarrow>
     Description (Spec g) = sdk_Description n \<and> Tags (Spec g) = tags_of_sdk (sdk_Tags n) \<and>
     CreatedAt (Status g) = sdk_CreatedAt n \<and> GlobalNetworkID (Status g) = sdk_GlobalNetworkId n \<and>
     State (Status g) = (if sdk_State n \<noteq> '''' then Some (sdk_State n) else None) \<and>
     (sdk_GlobalNetworkArn n \<noteq> None \<longrightarrow> ARN (metadata_of g) = sdk_GlobalNetworkArn n)"

text \<open>What an operation leaves of the object it was given, besides the fields it reads from the service.\<close>

definition keeps :: "GlobalNetwork \<Rightarrow> GlobalNetwork \<Rightarrow> bool" where
  "keeps g g' \<longleftrightarrow> TypeMeta g' = TypeMeta g \<and> ObjectMeta g' = ObjectMeta g \<and>
     conds_of g' = conds_of g"

lemma metadata_of_merge [simp]:
  "metadata_of (merge_found n g) = (case sdk_GlobalNetworkArn n of
      None \<Rightarrow> metadata_of g | Some a \<Rightarrow> (metadata_of g)\<lparr>ARN := Some a\<rparr>)"
  "metadata_of (merge_output n g) = (case sdk_GlobalNetworkArn n of
      None \<Rightarrow> metadata_of g | Some a \<Rightarrow> (metadata_of g)\<lparr>ARN := Some a\<rparr>)"
  by (auto simp: merge_found_def merge_output_def metadata_of_def Let_def split: option.split)

lemma setStatusDefaults_reflects: "reflects n (setStatusDefaults rm g) = reflects n g"
  by (simp add: reflects_def setStatusDefaults_metadata(2))

lemma reflects_merge:
  "reflects n (setStatusDefaults rm (merge_found n g))"
  "reflects n (setStatusDefaults rm (merge_output n g))"
  unfolding setStatusDefaults_reflects
  by (auto simp: reflects_def) (auto simp: merge_found_def merge_output_def Let_def)

lemma keeps_merge:
  "keeps g (setStatusDefaults rm (merge_found n g))"
  "keeps g (setStatusDefaults rm (merge_output n g))"
  by (simp_all add: keeps_def merge_found_def merge_output_def Let_def)

lemma sdkFind_eq:
  assumes "GlobalNetworkID (Status g) = Some i"
    and "DescribeGlobalNetworks (sdkapi rm) \<lparr>GlobalNetworkIds = Some [i]\<rparr> (svc w) = ((resp, err), s)"
  shows "sdkFind rt rm \<lparr>ko = Some g\<rparr> w =
    (case err of
       Some e \<Rightarrow> Ret (None, Some (if AsAPIErrorCode rt e = Some ''ResourceNotFoundException''
                               then NotFound rt else e))
     | None \<Rightarrow> and_then (deref resp) (\<lambda>resp. case elems (GlobalNetworks resp) of
         [] \<Rightarrow> Ret (None, Some (NotFound rt))
       | n # _ \<Rightarrow> Ret (Some \<lparr>ko = Some (setStatusDefaults rm (merge_found n g))\<rparr>, None)),
     RecordAPICall ''READ_MANY'' ''DescribeGlobalNetworks'' err (w\<lparr>svc := s\<rparr>))"
  using assms
  by (simp add: sdkFind_def requiredFieldsMissingFromReadManyInput_def newListRequestPayload_def
      split: option.split cong: list.case_cong)

definition create_payload :: "GlobalNetwork \<Rightarrow> CreateGlobalNetworkInput" where
  "create_payload g = \<lparr>create_Description = Description (Spec g),
     create_Tags = map_option (map (\<lambda>t. \<lparr>sdk_Key = Key (the t), sdk_Value = Value (the t)\<rparr>)) (Tags (Spec g))\<rparr>"

lemma newCreateRequestPayload_eq:
  "newCreateRequestPayload \<lparr>ko = Some g\<rparr> =
     (if tags_wf (Tags (Spec g)) then Ret (create_payload g, None) else Panic)"
  by (simp add: newCreateRequestPayload_def sdk_of_tags_loop_eq create_payload_def tags_wf_def
      split: option.split)

lemma tags_of_create_payload:
  assumes "tags_wf (Tags (Spec g))"
  shows "tags_of_sdk (create_Tags (create_payload g)) = Tags (Spec g)"
proof (cases "Tags (Spec g)")
  case None
  then show ?thesis by (simp add: create_payload_def tags_of_sdk_def)
next
  case (Some ts)
  have "Some \<lparr>Key = Key (the t), Value = Value (the t)\<rparr> = t" if "t \<in> set ts" for t
  proof -
    from that assms have "t \<noteq> None" unfolding tags_wf_def Some elems_simps by metis
    then show ?thesis by (cases t) simp_all
  qed
  then show ?thesis
    by (simp add: create_payload_def tags_of_sdk_def Some comp_def map_idI)
qed

lemma sdkCreate_eq:
  assumes "tags_wf (Tags (Spec g))"
    and "CreateGlobalNetwork (sdkapi rm) (create_payload g) (svc w) = ((resp, err), s)"
  shows "sdkCreate rt rm \<lparr>ko = Some g\<rparr> w =
    (case err of
       Some e \<Rightarrow> Ret (None, Some e)
     | None \<Rightarrow> and_then (deref resp) (\<lambda>resp. and_then (deref (created_GlobalNetwork resp)) (\<lambda>n.
         Ret (Some \<lparr>ko = Some (setStatusDefaults rm (merge_output n g))\<rparr>, None))),
     RecordAPICall ''CREATE'' ''CreateGlobalNetwork'' err (w\<lparr>svc := s\<rparr>))"
  using assms
  by (simp add: sdkCreate_def newCreateRequestPayload_eq post_create_defer_def Let_def split: option.split)

lemma sdkUpdate_eq:
  assumes "update_tags rt s rm \<lparr>ko = Some g\<rparr> latest delta w = (Ret None, w1)"
    and "DifferentExcept rt delta [''Spec.Tags'']"
    and "UpdateGlobalNetwork (sdkapi rm) \<lparr>update_GlobalNetworkId = GlobalNetworkID (Status g),
           update_Description = Description (Spec g)\<rparr> (svc w1) = ((resp, err), s1)"
  shows "sdkUpdate rt s rm \<lparr>ko = Some g\<rparr> latest delta w =
    (case err of
       Some e \<Rightarrow> Ret (None, Some e)
     | None \<Rightarrow> and_then (deref resp) (\<lambda>resp. and_then (deref (updated_GlobalNetwork resp)) (\<lambda>n.
         Ret (Some \<lparr>ko = Some (setStatusDefaults rm (merge_output n g))\<rparr>, None))),
     RecordAPICall ''UPDATE'' ''UpdateGlobalNetwork'' err (w1\<lparr>svc := s1\<rparr>))"
  using assms
  by (simp add: sdkUpdate_def newUpdateRequestPayload_def split: option.split)

lemma update_tags_eq:
  assumes "ACKResourceMetadata (Status g) = Some md" and "ARN md = Some arn"
  shows "update_tags rt s rm \<lparr>ko = Some g\<rparr> \<lparr>ko = Some l\<rparr> delta w =
    (if DifferentAt rt delta ''Spec.Tags''
     then SyncTags s (sdkapi rm) arn (Tags (Spec g)) (Tags (Spec l)) w else (Ret None, w))"
  using assms by (simp add: update_tags_def syncTags_def)

lemma sdkDelete_eq:
  assumes "DeleteGlobalNetwork (sdkapi rm) \<lparr>delete_GlobalNetworkId = GlobalNetworkID (Status g)\<rparr> (svc w) = (err, s)"
  shows "sdkDelete rm \<lparr>ko = Some g\<rparr> w =
    (Ret (None, err), RecordAPICall ''DELETE'' ''DeleteGlobalNetwork'' err (w\<lparr>svc := s\<rparr>))"
  using assms by (simp add: sdkDelete_def newDeleteRequestPayload_def)

section \<open>Properties\<close>

text \<open>
  The create payload carries the spec. Reading its tags back gives the tag list of the
  spec, pointer for pointer and nil for nil, and the description is the spec's; a spec with
  a nil tag has no payload, the code panics on it, and then no call is made at all.
\<close>

lemma create_payload_roundtrip:
  "if tags_wf (Tags (Spec g))
   then \<exists>inp. newCreateRequestPayload \<lparr>ko = Some g\<rparr> = Ret (inp, None :: 'e option) \<and>
     create_Description inp = Description (Spec g) \<and> tags_of_sdk (create_Tags inp) = Tags (Spec g)
   else sdkCreate (rt :: ('e, 'd) ack_runtime) rm \<lparr>ko = Some g\<rparr> w = (Panic, w)"
  by (simp add: newCreateRequestPayload_eq tags_of_create_payload sdkCreate_def)
    (simp add: create_payload_def)

text \<open>
  A resource that has no identifier yet is not looked up. \<open>sdkFind\<close> returns the error
  \<open>NotFound\<close>, calls nothing and records nothing.
\<close>

lemma sdk_find_without_id:
  assumes "GlobalNetworkID (Status g) = None"
  shows "sdkFind rt rm \<lparr>ko = Some g\<rparr> w = (Ret (None, Some (NotFound rt)), w)"
  by (simp add: sdkFind_def requiredFieldsMissingFromReadManyInput_def assms)

text \<open>
  \<open>sdkUpdate\<close> works in order. If synchronising the tags fails, its error is returned and
  the network is not updated; if it succeeds and nothing but the tags differs, the desired
  resource is returned as it is; in both cases the world is the one \<open>SyncTags\<close> left.
\<close>

lemma sdk_update_tags_first:
  assumes "ACKResourceMetadata (Status g) = Some md" and "ARN md = Some arn"
    and "DifferentAt rt delta ''Spec.Tags''"
    and "SyncTags s (sdkapi rm) arn (Tags (Spec g)) (Tags (Spec l)) w = (Ret err, w')"
    and "err \<noteq> None \<or> \<not> DifferentExcept rt delta [''Spec.Tags'']"
  shows "sdkUpdate rt s rm \<lparr>ko = Some g\<rparr> \<lparr>ko = Some l\<rparr> delta w =
    (Ret (case err of Some e \<Rightarrow> (None, Some e) | None \<Rightarrow> (Some \<lparr>ko = Some g\<rparr>, None)), w')"
  using assms by (auto simp: sdkUpdate_def update_tags_eq split: option.split)

end
