(* ===== verification/ResourceTags.thy ===== *)
theory ResourceTags
  imports AckRuntime
begin

text \<open>
  \<open>pkg/resource/global_network/tags.go\<close>: the conversions between the tag list of the
  resource and the tag map of the ACK runtime, and the two filters on tag maps.
  The locale \<open>tag_codec\<close> is the contract of a pair of conversions; \<open>edit\<close> is the shape
  of the three operations of the manager that read the list into a map, change the map
  and write it back, and its law is proved once.
\<close>

section \<open>The contract of a codec\<close>

locale tag_codec =
  fixes sem :: "'l \<Rightarrow> string \<rightharpoonup> string"
    and admissible :: "'l \<Rightarrow> bool"
    and normal :: "'l \<Rightarrow> bool"
    and decode :: "'l \<Rightarrow> (string gomap \<times> string list) outcome"
    and encode :: "string gomap \<Rightarrow> string list \<Rightarrow> 'l"
  assumes decode_law:
      "admissible l \<Longrightarrow> \<exists>m ks. decode l = Ret (m, ks) \<and> mwf m \<and> mget m = sem l"
    and encode_sem: "mwf m \<Longrightarrow> sem (encode m ks) = mget m"
    and encode_normal: "mwf m \<Longrightarrow> normal (encode m ks)"
begin

definition edit :: "(string gomap \<Rightarrow> string gomap) \<Rightarrow> 'l \<Rightarrow> 'l outcome" where
  "edit f l = and_then (decode l) (\<lambda>(m, ks). Ret (encode (f m) ks))"

lemma edit_law:
  assumes "admissible l"
    and f: "\<And>m. mwf m \<Longrightarrow> mget m = sem l \<Longrightarrow> mwf (f m) \<and> mget (f m) = M"
  shows "\<exists>l'. edit f l = Ret l' \<and> normal l' \<and> sem l' = M"
proof -
  obtain m ks where "decode l = Ret (m, ks)" and m: "mwf m" "mget m = sem l"
    using decode_law [OF assms(1)] by blast
  then show ?thesis
    using f [OF m] by (simp add: edit_def encode_sem encode_normal)
qed

end

section \<open>From the list to the map\<close>

fun convert_loop ::
  "tag option list \<Rightarrow> string gomap \<times> string list \<Rightarrow> (string gomap \<times> string list) outcome" where
  "convert_loop [] (result, keyOrder) = Ret (result, keyOrder)"
| "convert_loop (None # ts) (result, keyOrder) = Panic"
| "convert_loop (Some t # ts) (result, keyOrder) =
     (case Key t of
        None \<Rightarrow> convert_loop ts (result, keyOrder)
      | Some k \<Rightarrow>
          convert_loop ts
            (mput k (case Value t of Some v \<Rightarrow> v | None \<Rightarrow> '''') result, keyOrder @ [k]))"

definition convertToOrderedACKTags ::
  "('e, 'd) ack_runtime \<Rightarrow> tag option slice \<Rightarrow> (string gomap \<times> string list) outcome" where
  "convertToOrderedACKTags rt tags =
     (if length (elems tags) = 0 then Ret (NewTags rt, [])
      else convert_loop (elems tags) (NewTags rt, []))"

lemma convert_loop_Ret:
  assumes "None \<notin> set ts"
  shows "convert_loop ts (m, ks) =
    Ret (fold (\<lambda>(k, v). mput k v) (tag_pairs ts) m, ks @ map fst (tag_pairs ts))"
  using assms
proof (induction ts arbitrary: m ks)
  case Nil
  then show ?case by simp
next
  case (Cons t ts)
  then obtain t' where "t = Some t'" by (cases t) auto
  with Cons show ?case by (auto split: option.splits)
qed

lemma convert_loop_Panic: "None \<in> set ts \<Longrightarrow> convert_loop ts s = Panic"
proof (induction ts s rule: convert_loop.induct)
  case (3 t ts result keyOrder)
  then show ?case by (cases "Key t") auto
qed auto

lemma convert_panic_iff: "convertToOrderedACKTags rt ts = Panic \<longleftrightarrow> \<not> tags_wf ts"
proof (cases "None \<in> set (elems ts)")
  case True
  then have "elems ts \<noteq> []" by auto
  with True show ?thesis
    by (simp add: convertToOrderedACKTags_def tags_wf_def convert_loop_Panic)
next
  case False
  then show ?thesis
    by (simp add: convertToOrderedACKTags_def tags_wf_def convert_loop_Ret)
qed

lemma convert_total: "tags_wf ts \<Longrightarrow> \<exists>m ks. convertToOrderedACKTags rt ts = Ret (m, ks)"
  using convert_panic_iff [of rt ts] by (cases "convertToOrderedACKTags rt ts") auto

lemma convert_Ret:
  assumes "NewTags rt = []" and "tags_wf ts"
  shows "convertToOrderedACKTags rt ts =
    Ret (fold (\<lambda>(k, v). mput k v) (tag_pairs (elems ts)) [], map fst (tag_pairs (elems ts)))"
  using assms by (auto simp: convertToOrderedACKTags_def convert_loop_Ret tags_wf_def)

lemma convert_wf:
  assumes "NewTags rt = []" and "tags_wf ts"
  obtains m ks where "convertToOrderedACKTags rt ts = Ret (m, ks)"
    and "mwf m" and "mget m = tag_map ts" and "ks = map fst (tag_pairs (elems ts))"
  by (rule that [OF convert_Ret [OF assms]])
    (simp_all add: gm.fold_put gm.wf_fold_put tag_map_def)

section \<open>From the map to the list\<close>

text \<open>
  The first loop follows \<open>keyOrder\<close> and deletes every key it emits, the second ranges
  over what is left. The slice returned is not nil, the caller's map is changed: both
  are returned. The loop variables \<open>k\<close> and \<open>v\<close> whose addresses are taken are new in every
  iteration (\<open>go.mod\<close> asks for Go 1.25), so each tag keeps its own key and value.
\<close>

definition new_tag :: "string \<Rightarrow> string \<Rightarrow> tag option" where
  "new_tag k v = Some \<lparr>Key = Some k, Value = Some v\<rparr>"

fun from_order_loop ::
  "string list \<Rightarrow> string gomap \<Rightarrow> tag option list \<Rightarrow> string gomap \<times> tag option list" where
  "from_order_loop [] tags result = (tags, result)"
| "from_order_loop (k # ks) tags result =
     (case mget tags k of
        Some v \<Rightarrow> from_order_loop ks (mdel k tags) (result @ [new_tag k v])
      | None \<Rightarrow> from_order_loop ks tags result)"

definition fromACKTags ::
  "order \<Rightarrow> string gomap \<Rightarrow> string list \<Rightarrow> tag option slice \<times> string gomap" where
  "fromACKTags ord tags keyOrder =
     (let (rest, result) = from_order_loop keyOrder tags [];
          result = fold (\<lambda>(k, v) result. result @ [new_tag k v]) (entries ord rest) result
      in (Some result, rest))"

lemma new_tag_simps [simp]:
  "tag_full (new_tag k v)" "tag_key (new_tag k v) = k" "new_tag k v \<noteq> None"
  "tag_pairs (new_tag k v # ts) = (k, v) # tag_pairs ts"
  by (simp_all add: new_tag_def tag_full_def tag_key_def)

definition tag_list :: "(string \<times> string) list \<Rightarrow> tag option list" where
  "tag_list kvs = map (\<lambda>(k, v). new_tag k v) kvs"

lemma tag_list_simps [simp]:
  "tag_list [] = []" "tag_list ((k, v) # kvs) = new_tag k v # tag_list kvs"
  "tag_list (xs @ ys) = tag_list xs @ tag_list ys"
  by (simp_all add: tag_list_def)

lemma tag_pairs_tag_list [simp]: "tag_pairs (tag_list kvs) = kvs"
  by (induction kvs) auto

lemma tag_list_full [simp]: "list_all tag_full (tag_list kvs)"
  by (induction kvs) auto

lemma map_tag_key_tag_list [simp]: "map tag_key (tag_list kvs) = map fst kvs"
  by (induction kvs) auto

lemma append_loop:
  "fold (\<lambda>(k, v) result. result @ [new_tag k v]) kvs result = result @ tag_list kvs"
  by (induction kvs arbitrary: result) auto

text \<open>
  The keys the first loop emits: those of \<open>keyOrder\<close> that the map has, each at its first place.
\<close>

fun emitted :: "string gomap \<Rightarrow> string list \<Rightarrow> string list" where
  "emitted m [] = []"
| "emitted m (k # ks) =
     (if mget m k = None then emitted m ks else k # emitted (mdel k m) ks)"

lemma emitted_mem: "k \<in> set (emitted m ks) \<longleftrightarrow> k \<in> set ks \<and> mget m k \<noteq> None"
  by (induction m ks rule: emitted.induct) (auto simp: gm.get_del split: if_splits)

lemma emitted_distinct: "distinct (emitted m ks)"
  by (induction m ks rule: emitted.induct) (auto simp: emitted_mem gm.get_del)

lemma emitted_cong: "mget m = mget m' \<Longrightarrow> emitted m ks = emitted m' ks"
  by (induction ks arbitrary: m m') (auto simp: gm.get_del fun_eq_iff)

lemma emitted_all: "distinct ks \<Longrightarrow> set ks \<subseteq> dom (mget m) \<Longrightarrow> emitted m ks = ks"
proof (induction ks arbitrary: m)
  case Nil
  then show ?case by simp
next
  case (Cons k ks)
  then have "set ks \<subseteq> dom (mget (mdel k m))" by (auto simp: gm.get_del)
  with Cons show ?case by auto
qed

lemma from_order_loop_eq:
  "from_order_loop ks m acc =
    (fold mdel (emitted m ks) m,
     acc @ tag_list (map (\<lambda>k. (k, the (mget m k))) (emitted m ks)))"
proof (induction ks arbitrary: m acc)
  case Nil
  then show ?case by simp
next
  case (Cons k ks)
  have eq: "map (\<lambda>x. (x, the (mget (mdel k m) x))) (emitted (mdel k m) ks) =
        map (\<lambda>x. (x, the (mget m x))) (emitted (mdel k m) ks)"
    by (auto simp: emitted_mem gm.get_del)
  show ?case by (simp add: Cons eq split: option.split)
qed

lemma mget_fold_mdel: "mget (fold mdel ks m) = (\<lambda>k. if k \<in> set ks then None else mget m k)"
  by (induction ks arbitrary: m) (auto simp: gm.get_del fun_eq_iff)

lemma mwf_fold_mdel: "mwf m \<Longrightarrow> mwf (fold mdel ks m)"
  by (induction ks arbitrary: m) (auto simp: gm.wf_del)

text \<open>
  The list \<open>fromACKTags\<close> returns: the emitted keys, then the others in the order of the map loop.
\<close>

definition from_pairs :: "order \<Rightarrow> string gomap \<Rightarrow> string list \<Rightarrow> (string \<times> string) list" where
  "from_pairs ord m ks = map (\<lambda>k. (k, the (mget m k))) (emitted m ks) @
     entries ord (fold mdel (emitted m ks) m)"

lemma fromACKTags_eq:
  "fromACKTags ord m ks = (Some (tag_list (from_pairs ord m ks)), fold mdel (emitted m ks) m)"
  by (simp add: fromACKTags_def from_order_loop_eq append_loop from_pairs_def)

lemma map_fst_from_pairs:
  "map fst (from_pairs ord m ks) = emitted m ks @ visit ord (mkeys (fold mdel (emitted m ks) m))"
  by (simp add: from_pairs_def comp_def)

lemma distinct_from_pairs: "mwf m \<Longrightarrow> distinct (map fst (from_pairs ord m ks))"
  by (auto simp: map_fst_from_pairs emitted_distinct gm.distinct_keys mwf_fold_mdel
      gm.keys_get mget_fold_mdel)

lemma from_pairs_mem: "(k, v) \<in> set (from_pairs ord m ks) \<longleftrightarrow> mget m k = Some v"
  by (auto simp: from_pairs_def entries_mem mget_fold_mdel emitted_mem split: if_splits)

lemma map_of_rev_from_pairs:
  assumes "mwf m"
  shows "map_of (rev (from_pairs ord m ks)) = mget m"
  by (rule map_of_eqI)
    (simp_all add: rev_map [symmetric] distinct_from_pairs assms from_pairs_mem)

lemma fromACKTags_sem: "mwf m \<Longrightarrow> tag_map (fst (fromACKTags ord m ks)) = mget m"
  by (simp add: fromACKTags_eq tag_map_def map_of_rev_from_pairs)

lemma fromACKTags_normal: "mwf m \<Longrightarrow> tags_normal (fst (fromACKTags ord m ks))"
  by (simp add: fromACKTags_eq tags_normal_def distinct_from_pairs)

text \<open>The conversions of this package are a codec, whatever the iteration order.\<close>

interpretation codec: tag_codec tag_map "\<lambda>ts. NewTags rt = [] \<and> tags_wf ts" tags_normal
  "convertToOrderedACKTags rt" "\<lambda>m ks. fst (fromACKTags ord m ks)"
  for rt :: "('e, 'd) ack_runtime" and ord :: order
proof unfold_locales
  fix l :: "tag option slice"
  assume "NewTags rt = [] \<and> tags_wf l"
  then show "\<exists>m ks. convertToOrderedACKTags rt l = Ret (m, ks) \<and> mwf m \<and> mget m = tag_map l"
    by (metis convert_wf)
qed (simp_all add: fromACKTags_sem fromACKTags_normal)

section \<open>The filters on tag maps\<close>

text \<open>\<open>strings.HasPrefix\<close> is \<open>prefix\<close>, \<open>slices.Contains\<close> membership in the list.\<close>

definition aws_key :: "string \<Rightarrow> bool" where
  "aws_key k \<longleftrightarrow> prefix ''aws:'' k"

definition ignoreSystemTags :: "order \<Rightarrow> string list \<Rightarrow> string gomap \<Rightarrow> string gomap" where
  "ignoreSystemTags ord systemTags tags =
     fold (\<lambda>k tags. if prefix ''aws:'' k \<or> k \<in> set systemTags then mdel k tags else tags)
       (visit ord (mkeys tags)) tags"

definition syncAWSTags :: "order \<Rightarrow> string gomap \<Rightarrow> string gomap \<Rightarrow> string gomap" where
  "syncAWSTags ord a b =
     fold (\<lambda>(k, v) a. if prefix ''aws:'' k then mput k v a else a) (entries ord b) a"

lemma mget_ignoreSystemTags:
  "mget (ignoreSystemTags ord systemTags tags) k =
     (if aws_key k \<or> k \<in> set systemTags then None else mget tags k)"
  by (auto simp: ignoreSystemTags_def gm.fold_del gm.keys_get aws_key_def)

lemma mwf_ignoreSystemTags: "mwf tags \<Longrightarrow> mwf (ignoreSystemTags ord systemTags tags)"
  by (simp add: ignoreSystemTags_def gm.wf_fold_del)

lemma syncAWSTags_filter:
  "syncAWSTags ord a b = fold (\<lambda>(k, v). mput k v) (filter (\<lambda>(k, v). aws_key k) (entries ord b)) a"
proof -
  have "fold (\<lambda>(k, v) a. if prefix ''aws:'' k then mput k v a else a) kvs a =
        fold (\<lambda>(k, v). mput k v) (filter (\<lambda>(k, v). aws_key k) kvs) a" for kvs
    by (induction kvs arbitrary: a) (auto simp: aws_key_def)
  then show ?thesis by (simp add: syncAWSTags_def)
qed

lemma mget_syncAWSTags:
  assumes "mwf b"
  shows "mget (syncAWSTags ord a b) k =
    (if aws_key k \<and> mget b k \<noteq> None then mget b k else mget a k)"
  using mget_put_entries [OF assms] by (auto simp: syncAWSTags_filter split: option.splits)

lemma mwf_syncAWSTags: "mwf a \<Longrightarrow> mwf (syncAWSTags ord a b)"
  by (simp add: syncAWSTags_filter gm.wf_fold_put)

section \<open>Properties\<close>

lemma remdups_snoc: "remdups (xs @ [k]) = filter (\<lambda>x. x \<noteq> k) (remdups xs) @ [k]"
  by (induction xs) auto

lemma emitted_eq: "emitted m ks = filter (\<lambda>k. mget m k \<noteq> None) (rev (remdups (rev ks)))"
proof (induction ks arbitrary: m)
  case Nil
  then show ?case by simp
next
  case (Cons k ks)
  have "filter (\<lambda>x. mget (mdel k m) x \<noteq> None) xs = filter (\<lambda>x. x \<noteq> k \<and> mget m x \<noteq> None) xs" for xs
    by (rule filter_cong) (auto simp: gm.get_del)
  moreover have "filter (\<lambda>x. mget m x \<noteq> None \<and> x \<noteq> k) xs = filter (\<lambda>x. mget m x \<noteq> None) xs"
    if "mget m k = None" for xs
    using that by (intro filter_cong) auto
  ultimately show ?case
    by (auto simp: Cons remdups_snoc rev_filter conj_commute simp del: filter_filter
        simp flip: filter_filter intro!: filter_cong)
qed

lemma fold_mdel_all: "set ks = set (mkeys m) \<Longrightarrow> fold mdel ks m = []"
  by (subst mget_eq_empty [symmetric]) (auto simp: mget_fold_mdel fun_eq_iff gm.keys_get)

text \<open>
  C34: converting a tag list to a map and back gives the tag list itself, in its order, when
  every tag has a key and a value and no key occurs twice; the iteration order of the map
  does not matter then.
\<close>

theorem tag_conversion_roundtrip:
  assumes "NewTags rt = []" and "tags_normal ts"
  shows "\<exists>m ks. convertToOrderedACKTags rt ts = Ret (m, ks) \<and> mget m = tag_map ts \<and>
    elems (fst (fromACKTags ord m ks)) = elems ts"
proof -
  let ?kvs = "tag_pairs (elems ts)"
  obtain m ks where m: "convertToOrderedACKTags rt ts = Ret (m, ks)" "mwf m" "mget m = tag_map ts"
    "ks = map fst ?kvs"
    by (rule convert_wf [OF assms(1) tags_normal_wf [OF assms(2)]])
  have list: "tag_list (tag_pairs us) = us \<and> map fst (tag_pairs us) = map tag_key us" if "list_all tag_full us" for us
    using that
  proof (induction us)
    case (Cons u us)
    then obtain t k v where "u = Some t" "Key t = Some k" "Value t = Some v"
      by (auto simp: tag_full_def split: option.splits)
    moreover from this have "new_tag k v = u" by (simp add: new_tag_def)
    ultimately show ?case using Cons by (simp add: tag_key_def)
  qed simp
  have full: "list_all tag_full (elems ts)" "distinct (map fst ?kvs)"
    using assms(2) list by (simp_all add: tags_normal_def)
  then have map_m: "mget m = map_of ?kvs"
    by (simp add: m(3) tag_map_def map_of_rev_distinct)
  have dom: "set ks = dom (mget m)" by (simp add: map_m m(4) dom_map_of_conv_image_fst)
  have em: "emitted m ks = ks"
    using full(2) dom by (intro emitted_all) (simp_all add: m(4))
  have "fold mdel ks m = []"
    by (rule fold_mdel_all) (simp add: dom gm.set_keys)
  then have "from_pairs ord m ks = map (\<lambda>k. (k, the (mget m k))) (map fst ?kvs)"
    by (simp add: from_pairs_def em entries_def mkeys_def) (simp add: m(4))
  also have "\<dots> = ?kvs"
    using full(2) by (auto simp: map_m comp_def intro!: map_idI)
  finally show ?thesis
    using m list [OF full(1)] by (auto simp: fromACKTags_eq)
qed

text \<open>
  The list made from a map keeps the given key order. It has a tag for every entry of
  the map and no other; first come the keys of the order that the map has, each where it
  occurs first, then the remaining keys, in some order.
\<close>

lemma from_tags_keeps_order:
  assumes "mwf m"
  shows "\<exists>ts rest. fst (fromACKTags ord m keyOrder) = Some ts \<and> list_all tag_full ts \<and>
    tag_map (Some ts) = mget m \<and>
    map tag_key ts = filter (\<lambda>k. mget m k \<noteq> None) (rev (remdups (rev keyOrder))) @ rest \<and>
    distinct (map tag_key ts) \<and> set rest = dom (mget m) - set keyOrder"
proof -
  let ?rest = "visit ord (mkeys (fold mdel (emitted m keyOrder) m))"
  have "set ?rest = dom (mget m) - set keyOrder"
    by (auto simp: gm.set_keys mget_fold_mdel emitted_mem split: if_splits)
  moreover have "map tag_key (tag_list (from_pairs ord m keyOrder)) =
      filter (\<lambda>k. mget m k \<noteq> None) (rev (remdups (rev keyOrder))) @ ?rest"
    by (simp add: map_fst_from_pairs emitted_eq)
  moreover have "fst (fromACKTags ord m keyOrder) = Some (tag_list (from_pairs ord m keyOrder))"
    by (simp add: fromACKTags_eq)
  moreover have "tag_map (Some (tag_list (from_pairs ord m keyOrder))) = mget m"
    using fromACKTags_sem [OF assms] by (simp add: fromACKTags_eq)
  moreover have "distinct (map tag_key (tag_list (from_pairs ord m keyOrder)))"
    using distinct_from_pairs [OF assms] by simp
  ultimately show ?thesis by (intro exI conjI) (assumption | simp)+
qed

end
