(* ===== verification/ResourceDelta.thy ===== *)
theory ResourceDelta
  imports ResourceTags
begin

text \<open>
  \<open>pkg/resource/global_network/delta.go\<close>: the difference of two resources. It compares the
  descriptions as optional strings and the tags as maps, through the codec of \<open>tags.go\<close>.
\<close>

definition newResourceDelta ::
  "('e, 'd) ack_runtime \<Rightarrow> resource option \<Rightarrow> resource option \<Rightarrow> 'd outcome" where
  "newResourceDelta rt a b =
     (let delta = NewDelta rt
      in if (a = None \<and> b \<noteq> None) \<or> (a \<noteq> None \<and> b = None)
         then Ret (DeltaAdd rt delta '''' (DV_resource a) (DV_resource b))
         else
           and_then (deref a) (\<lambda>ra. and_then (deref (ko ra)) (\<lambda>ga.
           and_then (deref b) (\<lambda>rb. and_then (deref (ko rb)) (\<lambda>gb.
             (let da = Description (Spec ga); db = Description (Spec gb);
                  delta =
                    (if HasNilDifference rt da db
                     then DeltaAdd rt delta ''Spec.Description'' (DV_string da) (DV_string db)
                     else if da \<noteq> None \<and> db \<noteq> None \<and> the da \<noteq> the db
                     then DeltaAdd rt delta ''Spec.Description'' (DV_string da) (DV_string db)
                     else delta)
              in and_then (convertToOrderedACKTags rt (Tags (Spec ga))) (\<lambda>(desiredACKTags, _).
                 and_then (convertToOrderedACKTags rt (Tags (Spec gb))) (\<lambda>(latestACKTags, _).
                   Ret (if \<not> MapStringStringEqual rt desiredACKTags latestACKTags
                        then DeltaAdd rt delta ''Spec.Tags''
                               (DV_tags (Tags (Spec ga))) (DV_tags (Tags (Spec gb)))
                        else delta)))))))))"

lemma delta_paths_mem [simp]:
  "''Spec.Description'' \<in> set delta_paths" "''Spec.Tags'' \<in> set delta_paths"
  by (simp_all add: delta_paths_def)

lemma compare_lib_okD:
  assumes "compare_lib_ok rt"
  shows "HasNilDifference rt a b \<longleftrightarrow> (a = None) \<noteq> (b = None)"
    and "mwf m \<Longrightarrow> mwf m' \<Longrightarrow> MapStringStringEqual rt m m' \<longleftrightarrow> mget m = mget m'"
    and "p \<in> set delta_paths \<Longrightarrow> \<not> DifferentAt rt (NewDelta rt) p"
    and "\<not> DifferentExcept rt (NewDelta rt) ps"
    and "p \<in> set delta_paths \<Longrightarrow> q \<in> set delta_paths \<Longrightarrow>
      DifferentAt rt (DeltaAdd rt d q x y) p \<longleftrightarrow> DifferentAt rt d p \<or> p = q"
    and "p \<in> set delta_paths \<Longrightarrow> q \<in> set delta_paths \<Longrightarrow>
      DifferentExcept rt (DeltaAdd rt d q x y) [p] \<longleftrightarrow> DifferentExcept rt d [p] \<or> p \<noteq> q"
  using assms unfolding compare_lib_ok_def by blast+

text \<open>
  The delta of two existing resources, with the comparisons spelled out. Every later
  use goes through this equation.
\<close>

lemma newResourceDelta_eq:
  assumes rt: "tags_lib_ok rt" "compare_lib_ok rt"
    and wf: "tags_wf (Tags (Spec ga))" "tags_wf (Tags (Spec gb))"
  shows "newResourceDelta rt (Some \<lparr>ko = Some ga\<rparr>) (Some \<lparr>ko = Some gb\<rparr>) =
    Ret (let delta = (if Description (Spec ga) \<noteq> Description (Spec gb)
               then DeltaAdd rt (NewDelta rt) ''Spec.Description''
                      (DV_string (Description (Spec ga))) (DV_string (Description (Spec gb)))
               else NewDelta rt)
         in if tag_map (Tags (Spec ga)) \<noteq> tag_map (Tags (Spec gb))
            then DeltaAdd rt delta ''Spec.Tags'' (DV_tags (Tags (Spec ga))) (DV_tags (Tags (Spec gb)))
            else delta)"
proof -
  note nt = tags_lib_okD(1) [OF rt(1)]
  obtain ma ka where a: "convertToOrderedACKTags rt (Tags (Spec ga)) = Ret (ma, ka)"
      "mwf ma" "mget ma = tag_map (Tags (Spec ga))"
    using convert_wf [OF nt wf(1)] by metis
  obtain mb kb where b: "convertToOrderedACKTags rt (Tags (Spec gb)) = Ret (mb, kb)"
      "mwf mb" "mget mb = tag_map (Tags (Spec gb))"
    using convert_wf [OF nt wf(2)] by metis
  have eq: "MapStringStringEqual rt ma mb \<longleftrightarrow> tag_map (Tags (Spec ga)) = tag_map (Tags (Spec gb))"
    using a b compare_lib_okD(2) [OF rt(2)] by simp
  show ?thesis
    unfolding newResourceDelta_def
    by (cases "Description (Spec ga)"; cases "Description (Spec gb)")
      (simp_all add: a(1) b(1) eq compare_lib_okD(1) [OF rt(2)] Let_def)
qed

lemma delta_facts:
  assumes rt: "tags_lib_ok rt" "compare_lib_ok rt"
    and wf: "tags_wf (Tags (Spec ga))" "tags_wf (Tags (Spec gb))"
    and d: "newResourceDelta rt (Some \<lparr>ko = Some ga\<rparr>) (Some \<lparr>ko = Some gb\<rparr>) = Ret d"
  shows "DifferentAt rt d ''Spec.Tags'' \<longleftrightarrow> tag_map (Tags (Spec ga)) \<noteq> tag_map (Tags (Spec gb))"
    and "DifferentExcept rt d [''Spec.Tags''] \<longleftrightarrow> Description (Spec ga) \<noteq> Description (Spec gb)"
    and "DifferentAt rt d ''Spec.Description'' \<longleftrightarrow> Description (Spec ga) \<noteq> Description (Spec gb)"
proof -
  note eq = d [unfolded newResourceDelta_eq [OF assms(1-4)] outcome.inject, symmetric]
  show "DifferentAt rt d ''Spec.Tags'' \<longleftrightarrow> tag_map (Tags (Spec ga)) \<noteq> tag_map (Tags (Spec gb))"
    and "DifferentExcept rt d [''Spec.Tags''] \<longleftrightarrow> Description (Spec ga) \<noteq> Description (Spec gb)"
    and "DifferentAt rt d ''Spec.Description'' \<longleftrightarrow> Description (Spec ga) \<noteq> Description (Spec gb)"
    unfolding eq Let_def by (simp_all add: compare_lib_okD [OF assms(2)])
qed

section \<open>Properties\<close>

text \<open>
  C35: the delta of two resources reports exactly what differs. It differs at \<open>Spec.Tags\<close>
  iff the two tag lists denote different maps, and it differs at \<open>Spec.Description\<close>, which
  is the same as differing anywhere except \<open>Spec.Tags\<close>, iff the descriptions differ.
\<close>

theorem delta_reports_differences:
  assumes "tags_lib_ok rt" and "compare_lib_ok rt"
    and "tags_wf (Tags (Spec ga))" and "tags_wf (Tags (Spec gb))"
  shows "\<exists>d. newResourceDelta rt (Some \<lparr>ko = Some ga\<rparr>) (Some \<lparr>ko = Some gb\<rparr>) = Ret d \<and>
    (DifferentAt rt d ''Spec.Tags'' \<longleftrightarrow> tag_map (Tags (Spec ga)) \<noteq> tag_map (Tags (Spec gb))) \<and>
    (DifferentAt rt d ''Spec.Description'' \<longleftrightarrow> Description (Spec ga) \<noteq> Description (Spec gb)) \<and>
    (DifferentExcept rt d [''Spec.Tags''] \<longleftrightarrow> Description (Spec ga) \<noteq> Description (Spec gb))"
  by (simp add: newResourceDelta_eq assms Let_def compare_lib_okD [OF assms(2)])

text \<open>
  When the comparison of two resources panics: never when exactly one of them is a nil
  pointer, always when both are, and otherwise when one has no object or a nil tag.
\<close>

lemma delta_panics:
  "newResourceDelta rt a b = Panic \<longleftrightarrow>
     (a = None \<and> b = None) \<or>
     (\<exists>ra rb. a = Some ra \<and> b = Some rb \<and>
        (case (ko ra, ko rb) of
           (Some ga, Some gb) \<Rightarrow> \<not> (tags_wf (Tags (Spec ga)) \<and> tags_wf (Tags (Spec gb)))
         | _ \<Rightarrow> True))"
proof -
  have conv: "convertToOrderedACKTags rt ts = Panic \<longleftrightarrow> \<not> tags_wf ts" for ts
    by (rule convert_panic_iff)
  show ?thesis
    by (cases a; cases b)
      (auto simp: newResourceDelta_def outcome_simps conv convert_total Let_def
        split: option.splits prod.splits)
qed

end
