(* ===== verification/NetworkService.thy ===== *)
theory NetworkService
  imports SdkOps ResourceDelta
begin

text \<open>
  What the controller relies on of the AWS service, and what its four operations achieve
  against it. The service is seen through two readings of its state: \<open>nets\<close>, the network
  of every identifier, and \<open>tagging\<close>, the tags of every ARN. \<open>service_ok\<close> collects the
  documented behaviour of the calls that succeed; a call may fail at any time, and of the
  failures only a \<open>ResourceNotFoundException\<close> is given a meaning. Each operation is then a
  step on \<open>nets\<close>.
\<close>

section \<open>The contract of the service\<close>

type_synonym 'w networks = "'w \<Rightarrow> string \<rightharpoonup> sdk_global_network"
type_synonym 'w tagging = "'w \<Rightarrow> string \<Rightarrow> string \<rightharpoonup> string"

definition net_tags :: "sdk_global_network \<Rightarrow> string \<rightharpoonup> string" where
  "net_tags n = tag_map (tags_of_sdk (sdk_Tags n))"

text \<open>A network without its tags.\<close>

definition bare :: "sdk_global_network \<Rightarrow> sdk_global_network" where
  "bare n = n\<lparr>sdk_Tags := None\<rparr>"

definition networks_ok :: "'w networks \<Rightarrow> 'w tagging \<Rightarrow> bool" where
  "networks_ok nets tagging \<longleftrightarrow> (\<forall>s i n. nets s i = Some n \<longrightarrow>
     sdk_GlobalNetworkId n = Some i \<and>
     (\<exists>arn. sdk_GlobalNetworkArn n = Some arn \<and> net_tags n = tagging s arn) \<and>
     tags_normal (tags_of_sdk (sdk_Tags n)))"

definition describe_ok ::
  "('e, 'd) ack_runtime \<Rightarrow> ('w, 'e) svcsdk_Client \<Rightarrow> 'w networks \<Rightarrow> 'w tagging \<Rightarrow> bool" where
  "describe_ok rt client nets tagging \<longleftrightarrow> (\<forall>i s resp err s'.
     DescribeGlobalNetworks client \<lparr>GlobalNetworkIds = Some [i]\<rparr> s = ((resp, err), s') \<longrightarrow>
     nets s' = nets s \<and> tagging s' = tagging s \<and>
     (case err of
        None \<Rightarrow> resp = Some \<lparr>GlobalNetworks = Some (case nets s i of None \<Rightarrow> [] | Some n \<Rightarrow> [n])\<rparr>
      | Some e \<Rightarrow> e \<noteq> NotFound rt \<and>
          (AsAPIErrorCode rt e = Some ''ResourceNotFoundException'' \<longrightarrow> nets s i = None)))"

definition create_ok :: "('w, 'e) svcsdk_Client \<Rightarrow> 'w networks \<Rightarrow> bool" where
  "create_ok client nets \<longleftrightarrow> (\<forall>inp s resp s'.
     CreateGlobalNetwork client inp s = ((resp, None), s') \<longrightarrow> tags_normal (tags_of_sdk (create_Tags inp)) \<longrightarrow>
     (\<exists>i n. resp = Some \<lparr>created_GlobalNetwork = Some n\<rparr> \<and> nets s i = None \<and>
        nets s' = (nets s)(i \<mapsto> n) \<and> sdk_Description n = create_Description inp \<and>
        net_tags n = tag_map (tags_of_sdk (create_Tags inp))))"

text \<open>An update without a description leaves the description as it is: the field is optional in the request.\<close>

definition update_ok :: "('w, 'e) svcsdk_Client \<Rightarrow> 'w networks \<Rightarrow> 'w tagging \<Rightarrow> bool" where
  "update_ok client nets tagging \<longleftrightarrow> (\<forall>i d s resp s'.
     UpdateGlobalNetwork client \<lparr>update_GlobalNetworkId = Some i, update_Description = d\<rparr> s =
       ((resp, None), s') \<longrightarrow>
     tagging s' = tagging s \<and>
     (\<exists>n n'. nets s i = Some n \<and> resp = Some \<lparr>updated_GlobalNetwork = Some n'\<rparr> \<and>
        nets s' = (nets s)(i \<mapsto> n') \<and>
        sdk_Description n' = (case d of None \<Rightarrow> sdk_Description n | Some d \<Rightarrow> Some d) \<and>
        sdk_GlobalNetworkArn n' = sdk_GlobalNetworkArn n))"

definition delete_ok :: "('w, 'e) svcsdk_Client \<Rightarrow> 'w networks \<Rightarrow> bool" where
  "delete_ok client nets \<longleftrightarrow> (\<forall>i s s'.
     DeleteGlobalNetwork client \<lparr>delete_GlobalNetworkId = Some i\<rparr> s = (None, s') \<longrightarrow>
     (\<forall>j. j \<noteq> i \<longrightarrow> nets s' j = nets s j) \<and>
     (nets s' i = None \<or> (\<exists>n. nets s' i = Some n \<and> sdk_State n = state_string GN_DELETING)))"

text \<open>Tagging changes nothing of a network but its tags.\<close>

definition tagging_frame :: "('w, 'e) svcsdk_Client \<Rightarrow> 'w networks \<Rightarrow> bool" where
  "tagging_frame client nets \<longleftrightarrow>
     (\<forall>inp s err s' i. TagResource client inp s = (err, s') \<longrightarrow>
        map_option bare (nets s' i) = map_option bare (nets s i)) \<and>
     (\<forall>inp s err s' i. UntagResource client inp s = (err, s') \<longrightarrow>
        map_option bare (nets s' i) = map_option bare (nets s i))"

definition service_ok ::
  "('e, 'd) ack_runtime \<Rightarrow> ('w, 'e) svcsdk_Client \<Rightarrow> 'w networks \<Rightarrow> 'w tagging \<Rightarrow> bool" where
  "service_ok rt client nets tagging \<longleftrightarrow>
     networks_ok nets tagging \<and> describe_ok rt client nets tagging \<and> create_ok client nets \<and>
     update_ok client nets tagging \<and> delete_ok client nets \<and> tagging_frame client nets \<and>
     tag_service_ok client tagging"

lemma service_networks:
  assumes "service_ok rt client nets tagging" and "nets s i = Some n"
  obtains arn where "sdk_GlobalNetworkId n = Some i" and "sdk_GlobalNetworkArn n = Some arn"
    and "net_tags n = tagging s arn" and "tags_normal (tags_of_sdk (sdk_Tags n))"
  using assms unfolding service_ok_def networks_ok_def by blast

lemma service_describe:
  assumes "service_ok rt client nets tagging"
    and "DescribeGlobalNetworks client \<lparr>GlobalNetworkIds = Some [i]\<rparr> s = ((resp, err), s')"
  shows "nets s' = nets s" and "tagging s' = tagging s"
    and "err = None \<Longrightarrow>
      resp = Some \<lparr>GlobalNetworks = Some (case nets s i of None \<Rightarrow> [] | Some n \<Rightarrow> [n])\<rparr>"
    and "err = Some e \<Longrightarrow> e \<noteq> NotFound rt"
    and "err = Some e \<Longrightarrow> AsAPIErrorCode rt e = Some ''ResourceNotFoundException'' \<Longrightarrow> nets s i = None"
proof -
  have d: "nets s' = nets s \<and> tagging s' = tagging s \<and>
     (case err of
        None \<Rightarrow> resp = Some \<lparr>GlobalNetworks = Some (case nets s i of None \<Rightarrow> [] | Some n \<Rightarrow> [n])\<rparr>
      | Some e \<Rightarrow> e \<noteq> NotFound rt \<and>
          (AsAPIErrorCode rt e = Some ''ResourceNotFoundException'' \<longrightarrow> nets s i = None))"
    using assms unfolding service_ok_def describe_ok_def by blast
  then show "nets s' = nets s" and "tagging s' = tagging s" by blast+
  show "resp = Some \<lparr>GlobalNetworks = Some (case nets s i of None \<Rightarrow> [] | Some n \<Rightarrow> [n])\<rparr>" if "err = None"
    using d that by simp
  show "e \<noteq> NotFound rt" if "err = Some e" using d that by simp
  show "nets s i = None" if "err = Some e" "AsAPIErrorCode rt e = Some ''ResourceNotFoundException''"
    using d that by simp
qed

lemma service_create:
  assumes "service_ok rt client nets tagging"
    and "CreateGlobalNetwork client inp s = ((resp, None), s')"
    and "tags_normal (tags_of_sdk (create_Tags inp))"
  obtains i n where "resp = Some \<lparr>created_GlobalNetwork = Some n\<rparr>" and "nets s i = None"
    and "nets s' = (nets s)(i \<mapsto> n)" and "sdk_Description n = create_Description inp"
    and "net_tags n = tag_map (tags_of_sdk (create_Tags inp))"
  using assms unfolding service_ok_def create_ok_def by blast

lemma service_update:
  assumes "service_ok rt client nets tagging"
    and "UpdateGlobalNetwork client \<lparr>update_GlobalNetworkId = Some i, update_Description = d\<rparr> s =
       ((resp, None), s')"
  obtains n n' where "tagging s' = tagging s" and "nets s i = Some n"
    and "resp = Some \<lparr>updated_GlobalNetwork = Some n'\<rparr>" and "nets s' = (nets s)(i \<mapsto> n')"
    and "sdk_Description n' = (case d of None \<Rightarrow> sdk_Description n | Some d \<Rightarrow> Some d)"
    and "sdk_GlobalNetworkArn n' = sdk_GlobalNetworkArn n"
  using assms unfolding service_ok_def update_ok_def by blast

section \<open>Tagging, seen on the networks\<close>

lemma tag_calls_frame:
  assumes "tagging_frame client nets" and "sync_calls client arn kvs ks w = (err, w')"
  shows "map_option bare (nets (svc w') i) = map_option bare (nets (svc w) i)"
proof -
  have t: "map_option bare (nets s' i) = map_option bare (nets s i)"
    if "TagResource client inp s = (e, s')" for inp s e s'
    using assms(1) that unfolding tagging_frame_def by blast
  have u: "map_option bare (nets (svc u') i) = map_option bare (nets (svc u) i)"
    if "untag_call client arn ks u = (e, u')" for u e u'
  proof -
    have "map_option bare (nets s' i) = map_option bare (nets s i)"
      if "UntagResource client inp s = (e, s')" for inp s e s'
      using assms(1) that unfolding tagging_frame_def by blast
    with that show ?thesis by (auto simp: untag_call_def split: if_splits prod.splits)
  qed
  show ?thesis
  proof (cases "kvs = []")
    case True
    with assms(2) u show ?thesis by (simp add: sync_calls_def)
  next
    case False
    obtain e s' where tag: "TagResource client
        \<lparr>tag_ResourceArn = Some arn, tag_Tags = Some (sdk_tags kvs)\<rparr> (svc w) = (e, s')"
      by fastforce
    show ?thesis
    proof (cases e)
      case None
      let ?u = "RecordAPICall ''UPDATE'' ''TagResource'' None (w\<lparr>svc := s'\<rparr>)"
      have "untag_call client arn ks ?u = (err, w')"
        using assms(2) False tag None by (simp add: sync_calls_def)
      from u [OF this] t [OF tag] show ?thesis by simp
    next
      case (Some e')
      then show ?thesis using assms(2) False tag t [OF tag] by (auto simp: sync_calls_def)
    qed
  qed
qed

lemma bare_sel [simp]:
  "sdk_Description (bare n) = sdk_Description n" "sdk_State (bare n) = sdk_State n"
  "sdk_GlobalNetworkId (bare n) = sdk_GlobalNetworkId n"
  "sdk_GlobalNetworkArn (bare n) = sdk_GlobalNetworkArn n"
  by (simp_all add: bare_def)

lemma bare_eqD:
  assumes "map_option bare a = map_option bare (Some n)"
  obtains n' where "a = Some n'" and "sdk_Description n' = sdk_Description n"
    and "sdk_GlobalNetworkId n' = sdk_GlobalNetworkId n"
    and "sdk_GlobalNetworkArn n' = sdk_GlobalNetworkArn n" and "sdk_State n' = sdk_State n"
proof -
  from assms obtain n' where n': "a = Some n'" "bare n' = bare n" by auto
  show ?thesis by (rule that [OF n'(1)]) (metis n'(2) bare_sel)+
qed

text \<open>
  A synchronisation on the tags of a network: it always returns, and if it succeeds the
  network is the same with the desired tags, beside those it was not told of.
\<close>

lemma SyncTags_network:
  assumes ok: "service_ok rt client nets tagging"
    and n: "nets (svc w) i = Some n" "sdk_GlobalNetworkArn n = Some arn"
    and full: "tags_full aTags" "tags_full bTags" and le: "tag_map bTags \<subseteq>\<^sub>m net_tags n"
    and run: "SyncTags s client arn aTags bTags w = (Ret None, w')"
  obtains n' where "nets (svc w') i = Some n'" and "sdk_Description n' = sdk_Description n"
    and "sdk_GlobalNetworkArn n' = Some arn"
    and "net_tags n' = synced (tag_map aTags) (tag_map bTags) (net_tags n)"
proof -
  have ts: "tag_service_ok client tagging" and fr: "tagging_frame client nets"
    using ok by (simp_all add: service_ok_def)
  have held: "net_tags m = tagging u arn" if "nets u i = Some m" "sdk_GlobalNetworkArn m = Some arn" for m u
    by (rule service_networks [OF ok that(1)]) (simp add: that(2))
  have view: "tagging (svc w') arn = synced (tag_map aTags) (tag_map bTags) (net_tags n)"
    using SyncTags_view [OF ts full _ run] le held [OF n] by simp
  obtain kvs ks where "SyncTags s client arn aTags bTags w = sync_calls client arn kvs ks w"
    using SyncTags_full [OF full] by metis
  with run have "sync_calls client arn kvs ks w = (Ret None, w')" by simp
  then have eq: "map_option bare (nets (svc w') i) = map_option bare (Some n)"
    using tag_calls_frame [OF fr] n(1) by metis
  obtain n' where n': "nets (svc w') i = Some n'" "sdk_Description n' = sdk_Description n"
    "sdk_GlobalNetworkArn n' = Some arn"
    by (rule bare_eqD [OF eq], rule that) (simp_all add: n(2))
  show ?thesis by (rule that [OF n']) (simp add: held [OF n'(1,3)] view)
qed

section \<open>An update\<close>

text \<open>
  The situation in which the reconciler calls the update: the desired object carries the
  identifiers of an existing network, the latest one its description and tags of it (all,
  or all but some filtered ones), and the delta is the difference of the two.
\<close>

definition update_pre ::
  "('e, 'd) ack_runtime \<Rightarrow> string \<Rightarrow> sdk_global_network \<Rightarrow> GlobalNetwork \<Rightarrow> GlobalNetwork \<Rightarrow> 'd \<Rightarrow> bool" where
  "update_pre rt i n g l d \<longleftrightarrow>
     GlobalNetworkID (Status g) = Some i \<and>
     ACKResourceMetadata (Status g) \<noteq> None \<and> ARN (metadata_of g) = sdk_GlobalNetworkArn n \<and>
     tags_full (Tags (Spec g)) \<and> tags_full (Tags (Spec l)) \<and>
     Description (Spec l) = sdk_Description n \<and> tag_map (Tags (Spec l)) \<subseteq>\<^sub>m net_tags n \<and>
     newResourceDelta rt (Some \<lparr>ko = Some g\<rparr>) (Some \<lparr>ko = Some l\<rparr>) = Ret d"

text \<open>
  A successful update: the network has the desired tags (beside filtered ones) and the desired
  description, or its old one if none is desired, and the resource returned has its identifier.
\<close>

lemma update_law:
  assumes ok: "service_ok rt (sdkapi rm) nets tagging" and rt: "tags_lib_ok rt" "compare_lib_ok rt"
    and n: "nets (svc w) i = Some n" and pre: "update_pre rt i n g l d"
    and run: "sdkUpdate rt s rm \<lparr>ko = Some g\<rparr> \<lparr>ko = Some l\<rparr> d w = (Ret (res, None), w')"
  obtains n' g' where "nets (svc w') i = Some n'"
    and "net_tags n' = synced (tag_map (Tags (Spec g))) (tag_map (Tags (Spec l))) (net_tags n)"
    and "sdk_Description n' = (case Description (Spec g) of None \<Rightarrow> sdk_Description n | Some x \<Rightarrow> Some x)"
    and "res = Some \<lparr>ko = Some g'\<rparr>" and "keeps g g'"
    and "GlobalNetworkID (Status g') = Some i" and "ARN (metadata_of g') = sdk_GlobalNetworkArn n'"
    and "sdk_GlobalNetworkArn n' = sdk_GlobalNetworkArn n"
proof -
  obtain arn where arn: "sdk_GlobalNetworkArn n = Some arn"
    by (rule service_networks [OF ok n])
  obtain md where md: "ACKResourceMetadata (Status g) = Some md" "ARN md = Some arn"
    using pre arn by (auto simp: update_pre_def metadata_of_def)
  have full: "tags_full (Tags (Spec g))" "tags_full (Tags (Spec l))"
    and le: "tag_map (Tags (Spec l)) \<subseteq>\<^sub>m net_tags n"
    and desc: "Description (Spec l) = sdk_Description n"
    and id: "GlobalNetworkID (Status g) = Some i"
    and d: "newResourceDelta rt (Some \<lparr>ko = Some g\<rparr>) (Some \<lparr>ko = Some l\<rparr>) = Ret d"
    using pre by (simp_all add: update_pre_def)
  note facts = delta_facts [OF rt tags_full_wf [OF full(1)] tags_full_wf [OF full(2)] d]
  let ?T = "synced (tag_map (Tags (Spec g))) (tag_map (Tags (Spec l))) (net_tags n)"
  obtain w1 where tags: "update_tags rt s rm \<lparr>ko = Some g\<rparr> \<lparr>ko = Some l\<rparr> d w = (Ret None, w1)"
    using run by (auto simp: sdkUpdate_def outcome_simps split: option.splits)
  obtain n1 where n1: "nets (svc w1) i = Some n1" "sdk_Description n1 = sdk_Description n"
    "sdk_GlobalNetworkArn n1 = Some arn" "net_tags n1 = ?T"
  proof (cases "DifferentAt rt d ''Spec.Tags''")
    case True
    with tags have sync: "SyncTags s (sdkapi rm) arn (Tags (Spec g)) (Tags (Spec l)) w = (Ret None, w1)"
      by (simp add: update_tags_eq [OF md])
    show ?thesis by (rule SyncTags_network [OF ok n arn full le sync], rule that)
  next
    case False
    with tags facts(1) have "w1 = w" "?T = net_tags n"
      by (simp_all add: update_tags_eq [OF md] synced_same [OF le])
    with n arn show ?thesis by (intro that [of n]) simp_all
  qed
  show ?thesis
  proof (cases "DifferentExcept rt d [''Spec.Tags'']")
    case False
    with run tags have "res = Some \<lparr>ko = Some g\<rparr>" "w' = w1" by (simp_all add: sdkUpdate_def)
    moreover have same: "Description (Spec g) = sdk_Description n"
      using facts(2) False desc by simp
    moreover have "ARN (metadata_of g) = Some arn" by (simp add: metadata_of_def md)
    ultimately show ?thesis
      using n1 id arn
      by (intro that [of n1 g]) (simp_all add: keeps_def split: option.split)
  next
    case True
    obtain resp err s1 where call: "UpdateGlobalNetwork (sdkapi rm) \<lparr>update_GlobalNetworkId = Some i,
        update_Description = Description (Spec g)\<rparr> (svc w1) = ((resp, err), s1)"
      by (metis prod.exhaust)
    note eq = sdkUpdate_eq [OF tags True, unfolded id, OF call]
    have err: "err = None" using run eq by (cases err) auto
    obtain m n' where tg: "tagging s1 = tagging (svc w1)" and m: "nets (svc w1) i = Some m"
      "resp = Some \<lparr>updated_GlobalNetwork = Some n'\<rparr>" "nets s1 = (nets (svc w1))(i \<mapsto> n')"
      "sdk_Description n' = (case Description (Spec g) of None \<Rightarrow> sdk_Description m | Some d \<Rightarrow> Some d)"
      "sdk_GlobalNetworkArn n' = sdk_GlobalNetworkArn m"
      by (rule service_update [OF ok call [unfolded err]], rule that)
    have "m = n1" using n1(1) m(1) by simp
    let ?g = "setStatusDefaults rm (merge_output n' g)"
    have res: "res = Some \<lparr>ko = Some ?g\<rparr>" and w': "svc w' = s1"
      using run eq by (auto simp: err m(2))
    have n': "nets (svc w') i = Some n'" by (simp add: w' m(3))
    have held: "net_tags k = tagging u arn \<and> sdk_GlobalNetworkId k = Some i"
      if "nets u i = Some k" "sdk_GlobalNetworkArn k = Some arn" for k u
      by (rule service_networks [OF ok that(1)]) (simp add: that(2))
    have arn': "sdk_GlobalNetworkArn n' = Some arn" using m(5) n1(3) \<open>m = n1\<close> by simp
    have "net_tags n' = ?T" and id': "sdk_GlobalNetworkId n' = Some i"
      using held [OF n' arn'] held [OF n1(1,3)] n1(4) by (simp_all add: w' tg)
    then show ?thesis
      using n' res reflects_merge(2) [of n' rm g] keeps_merge(2) [of g rm n'] m(4) n1(2) \<open>m = n1\<close> arn' arn
      by (intro that [of n' ?g]) (auto simp: reflects_def split: option.split)
  qed
qed

section \<open>What the operations return\<close>

lemma find_law:
  assumes "service_ok rt (sdkapi rm) nets tagging" and "GlobalNetworkID (Status g) = Some i"
  obtains res err w' where "sdkFind rt rm \<lparr>ko = Some g\<rparr> w = (Ret (res, err), w')"
    and "nets (svc w') = nets (svc w)" and "tagging (svc w') = tagging (svc w)"
    and "case err of
       None \<Rightarrow> (\<exists>n g'. res = Some \<lparr>ko = Some g'\<rparr> \<and> nets (svc w) i = Some n \<and>
                 reflects n g' \<and> keeps g g' \<and> GlobalNetworkID (Status g') = Some i)
     | Some e \<Rightarrow> res = None \<and> (e = NotFound rt \<longrightarrow> nets (svc w) i = None)"
proof -
  obtain resp err s where call: "DescribeGlobalNetworks (sdkapi rm) \<lparr>GlobalNetworkIds = Some [i]\<rparr>
      (svc w) = ((resp, err), s)"
    by (metis prod.exhaust)
  note d = service_describe [OF assms(1) call]
  note eq = sdkFind_eq [OF assms(2) call, of rt]
  show ?thesis
  proof (cases err)
    case (Some e)
    with eq have "sdkFind rt rm \<lparr>ko = Some g\<rparr> w =
        (Ret (None, Some (if AsAPIErrorCode rt e = Some ''ResourceNotFoundException'' then NotFound rt else e)),
         RecordAPICall ''READ_MANY'' ''DescribeGlobalNetworks'' err (w\<lparr>svc := s\<rparr>))"
      by simp
    then show ?thesis by (rule that) (use d Some in auto)
  next
    case None
    note resp = d(3) [OF None]
    show ?thesis
    proof (cases "nets (svc w) i")
      case n: None
      with eq resp None have "sdkFind rt rm \<lparr>ko = Some g\<rparr> w = (Ret (None, Some (NotFound rt)),
          RecordAPICall ''READ_MANY'' ''DescribeGlobalNetworks'' None (w\<lparr>svc := s\<rparr>))"
        by simp
      then show ?thesis by (rule that) (simp_all add: d(1,2) n)
    next
      case (Some n)
      have id: "sdk_GlobalNetworkId n = Some i" by (rule service_networks [OF assms(1) Some])
      let ?g = "setStatusDefaults rm (merge_found n g)"
      note refl = reflects_merge(1) [of n rm g]
      have "GlobalNetworkID (Status ?g) = Some i"
        using refl id by (simp add: reflects_def)
      moreover have run: "sdkFind rt rm \<lparr>ko = Some g\<rparr> w = (Ret (Some \<lparr>ko = Some ?g\<rparr>, None),
          RecordAPICall ''READ_MANY'' ''DescribeGlobalNetworks'' None (w\<lparr>svc := s\<rparr>))"
        using eq resp None Some by simp
      ultimately show ?thesis
        using Some refl keeps_merge(1) [of g rm n] by (intro that [OF run]) (simp_all add: d(1,2))
    qed
  qed
qed

lemma create_law:
  assumes "service_ok rt (sdkapi rm) nets tagging" and "tags_normal (Tags (Spec g))"
  obtains res err w' where "sdkCreate rt rm \<lparr>ko = Some g\<rparr> w = (Ret (res, err), w')"
    and "api_calls w' = api_calls w @ [(''CREATE'', ''CreateGlobalNetwork'', err)]"
    and "case err of
       Some e \<Rightarrow> res = None
     | None \<Rightarrow> (\<exists>i n g'. nets (svc w) i = None \<and> nets (svc w') = (nets (svc w))(i \<mapsto> n) \<and>
         sdk_Description n = Description (Spec g) \<and> net_tags n = tag_map (Tags (Spec g)) \<and>
         res = Some \<lparr>ko = Some g'\<rparr> \<and> reflects n g' \<and> keeps g g' \<and>
         GlobalNetworkID (Status g') = Some i \<and> ARN (metadata_of g') \<noteq> None)"
proof -
  note wf = tags_normal_wf [OF assms(2)]
  obtain resp err s where call:
    "CreateGlobalNetwork (sdkapi rm) (create_payload g) (svc w) = ((resp, err), s)"
    by (metis prod.exhaust)
  note eq = sdkCreate_eq [OF wf call, of rt]
  show ?thesis
  proof (cases err)
    case (Some e)
    with eq have "sdkCreate rt rm \<lparr>ko = Some g\<rparr> w = (Ret (None, Some e),
        RecordAPICall ''CREATE'' ''CreateGlobalNetwork'' (Some e) (w\<lparr>svc := s\<rparr>))"
      by simp
    then show ?thesis by (rule that) simp_all
  next
    case None
    have normal: "tags_normal (tags_of_sdk (create_Tags (create_payload g)))"
      by (simp add: tags_of_create_payload [OF wf] assms(2))
    obtain i n where n: "resp = Some \<lparr>created_GlobalNetwork = Some n\<rparr>" "nets (svc w) i = None"
      "nets s = (nets (svc w))(i \<mapsto> n)" "sdk_Description n = Description (Spec g)"
      "net_tags n = tag_map (Tags (Spec g))"
      by (rule service_create [OF assms(1) call [unfolded None] normal], rule that)
        (simp_all add: tags_of_create_payload [OF wf], simp add: create_payload_def)
    let ?g = "setStatusDefaults rm (merge_output n g)"
    have "nets s i = Some n" by (simp add: n(3))
    then obtain arn where "sdk_GlobalNetworkId n = Some i" "sdk_GlobalNetworkArn n = Some arn"
      by (rule service_networks [OF assms(1)])
    then have "GlobalNetworkID (Status ?g) = Some i" "ARN (metadata_of ?g) \<noteq> None"
      using reflects_merge(2) [of n rm g] by (auto simp: reflects_def)
    then have "nets (svc w) i = None \<and> nets s = (nets (svc w))(i \<mapsto> n) \<and>
        sdk_Description n = Description (Spec g) \<and> net_tags n = tag_map (Tags (Spec g)) \<and>
        reflects n ?g \<and> keeps g ?g \<and>
        GlobalNetworkID (Status ?g) = Some i \<and> ARN (metadata_of ?g) \<noteq> None"
      using n reflects_merge(2) [of n rm g] keeps_merge(2) [of g rm n] by blast
    moreover have run: "sdkCreate rt rm \<lparr>ko = Some g\<rparr> w = (Ret (Some \<lparr>ko = Some ?g\<rparr>, None),
        RecordAPICall ''CREATE'' ''CreateGlobalNetwork'' None (w\<lparr>svc := s\<rparr>))"
      using eq by (simp add: None n(1))
    ultimately show ?thesis by (intro that [OF run]) (auto simp del: setStatusDefaults_frame)
  qed
qed

lemma update_returns:
  assumes ok: "service_ok rt (sdkapi rm) nets tagging" and rt: "tags_lib_ok rt" "compare_lib_ok rt"
    and n: "nets (svc w) i = Some n" and pre: "update_pre rt i n g l d"
  obtains res err w' where "sdkUpdate rt s rm \<lparr>ko = Some g\<rparr> \<lparr>ko = Some l\<rparr> d w = (Ret (res, err), w')"
    and "err \<noteq> None \<longrightarrow> res = None"
proof -
  obtain arn where arn: "sdk_GlobalNetworkArn n = Some arn" by (rule service_networks [OF ok n])
  obtain md where md: "ACKResourceMetadata (Status g) = Some md" "ARN md = Some arn"
    using pre arn by (auto simp: update_pre_def metadata_of_def)
  have full: "tags_full (Tags (Spec g))" "tags_full (Tags (Spec l))"
    and id: "GlobalNetworkID (Status g) = Some i"
    using pre by (simp_all add: update_pre_def)
  obtain e u where "SyncTags s (sdkapi rm) arn (Tags (Spec g)) (Tags (Spec l)) w = (Ret e, u)"
    by (rule SyncTags_returns [OF full])
  then obtain err w1 where tags: "update_tags rt s rm \<lparr>ko = Some g\<rparr> \<lparr>ko = Some l\<rparr> d w = (Ret err, w1)"
    using that by (cases "DifferentAt rt d ''Spec.Tags''") (simp_all add: update_tags_eq [OF md])
  show ?thesis
  proof (cases "err = None \<and> DifferentExcept rt d [''Spec.Tags'']")
    case False
    with tags have "sdkUpdate rt s rm \<lparr>ko = Some g\<rparr> \<lparr>ko = Some l\<rparr> d w =
        (Ret (case err of None \<Rightarrow> Some \<lparr>ko = Some g\<rparr> | Some _ \<Rightarrow> None, err), w1)"
      by (auto simp: sdkUpdate_def split: option.split)
    then show ?thesis by (rule that) (simp split: option.split)
  next
    case True
    obtain resp e1 s1 where call: "UpdateGlobalNetwork (sdkapi rm) \<lparr>update_GlobalNetworkId = Some i,
        update_Description = Description (Spec g)\<rparr> (svc w1) = ((resp, e1), s1)"
      by (metis prod.exhaust)
    have tags: "update_tags rt s rm \<lparr>ko = Some g\<rparr> \<lparr>ko = Some l\<rparr> d w = (Ret None, w1)"
      using tags True by simp
    note eq = sdkUpdate_eq [OF tags conjunct2 [OF True], unfolded id, OF call]
    show ?thesis
    proof (cases e1)
      case None
      obtain n' where "resp = Some \<lparr>updated_GlobalNetwork = Some n'\<rparr>"
        by (rule service_update [OF ok call [unfolded None]])
      with eq None have "sdkUpdate rt s rm \<lparr>ko = Some g\<rparr> \<lparr>ko = Some l\<rparr> d w =
          (Ret (Some \<lparr>ko = Some (setStatusDefaults rm (merge_output n' g))\<rparr>, None),
           RecordAPICall ''UPDATE'' ''UpdateGlobalNetwork'' None (w1\<lparr>svc := s1\<rparr>))"
        by simp
      then show ?thesis by (rule that) simp
    next
      case (Some e)
      with eq have "sdkUpdate rt s rm \<lparr>ko = Some g\<rparr> \<lparr>ko = Some l\<rparr> d w =
          (Ret (None, Some e), RecordAPICall ''UPDATE'' ''UpdateGlobalNetwork'' (Some e) (w1\<lparr>svc := s1\<rparr>))"
        by simp
      then show ?thesis by (rule that) simp
    qed
  qed
qed

section \<open>Properties\<close>

text \<open>
  C36: an update cannot clear the description. If none is desired while the network has one,
  then after a successful update the network still has it, and reading the network again
  gives a resource that differs from the desired one at \<open>Spec.Description\<close> as before.
\<close>

theorem update_keeps_description:
  assumes "service_ok rt (sdkapi rm) nets tagging" and "tags_lib_ok rt" and "compare_lib_ok rt"
    and "nets (svc w) i = Some n" and "update_pre rt i n g l d"
    and "Description (Spec g) = None" and "sdk_Description n = Some x"
    and "sdkUpdate rt s rm \<lparr>ko = Some g\<rparr> \<lparr>ko = Some l\<rparr> d w = (Ret (Some r, None), w')"
    and "sdkFind rt rm r w' = (Ret (Some r', None), w'')"
  shows "(\<exists>n'. nets (svc w') i = Some n' \<and> sdk_Description n' = Some x) \<and>
    (\<exists>d'. newResourceDelta rt (Some \<lparr>ko = Some g\<rparr>) (Some r') = Ret d' \<and>
      DifferentAt rt d' ''Spec.Description'')"
proof -
  obtain n' g' where n': "nets (svc w') i = Some n'"
    and desc: "sdk_Description n' = (case Description (Spec g) of None \<Rightarrow> sdk_Description n | Some x \<Rightarrow> Some x)"
    and r: "Some r = Some \<lparr>ko = Some g'\<rparr>" and id: "GlobalNetworkID (Status g') = Some i"
    by (rule update_law [OF assms(1-5,8)], rule that)
  obtain g2 where r': "r' = \<lparr>ko = Some g2\<rparr>" and refl: "reflects n' g2"
    by (rule find_law [OF assms(1) id, of w']) (use assms(9) r n' in auto)
  have "Description (Spec g2) = Some x" using refl desc assms(6,7) by (simp add: reflects_def)
  moreover have "tags_wf (Tags (Spec g))" "tags_wf (Tags (Spec g2))"
    using assms(5) refl by (simp_all add: update_pre_def reflects_def tags_full_wf)
  ultimately show ?thesis
    using n' desc assms(6,7)
    by (simp add: r' newResourceDelta_eq assms(2,3) Let_def compare_lib_okD [OF assms(3)])
qed

text \<open>
  C23: after a successful update there is nothing left to do: reading the network again gives
  a resource that does not differ from the desired one, if all tags were compared and a
  description is desired.
\<close>

theorem update_then_find_no_delta:
  assumes "service_ok rt (sdkapi rm) nets tagging" and "tags_lib_ok rt" and "compare_lib_ok rt"
    and "nets (svc w) i = Some n" and "update_pre rt i n g l d"
    and "tag_map (Tags (Spec l)) = net_tags n" and "Description (Spec g) \<noteq> None"
    and "sdkUpdate rt s rm \<lparr>ko = Some g\<rparr> \<lparr>ko = Some l\<rparr> d w = (Ret (Some r, None), w')"
    and "sdkFind rt rm r w' = (Ret (Some r', None), w'')"
  shows "\<exists>d'. newResourceDelta rt (Some \<lparr>ko = Some g\<rparr>) (Some r') = Ret d' \<and>
    \<not> DifferentAt rt d' ''Spec.Tags'' \<and> \<not> DifferentAt rt d' ''Spec.Description'' \<and>
    \<not> DifferentExcept rt d' [''Spec.Tags'']"
proof -
  obtain n' g' where n': "nets (svc w') i = Some n'"
    and tags: "net_tags n' = synced (tag_map (Tags (Spec g))) (tag_map (Tags (Spec l))) (net_tags n)"
    and desc: "sdk_Description n' = (case Description (Spec g) of None \<Rightarrow> sdk_Description n | Some x \<Rightarrow> Some x)"
    and r: "Some r = Some \<lparr>ko = Some g'\<rparr>" and id: "GlobalNetworkID (Status g') = Some i"
    by (rule update_law [OF assms(1-5,8)], rule that)
  obtain g2 where r': "r' = \<lparr>ko = Some g2\<rparr>" and refl: "reflects n' g2"
    by (rule find_law [OF assms(1) id, of w']) (use assms(9) r n' in auto)
  have "tag_map (Tags (Spec g2)) = tag_map (Tags (Spec g))"
    using refl tags assms(6) by (simp add: reflects_def net_tags_def [symmetric] synced_all)
  moreover have "Description (Spec g2) = Description (Spec g)"
    using refl desc assms(7) by (auto simp: reflects_def)
  moreover have "tags_wf (Tags (Spec g))" "tags_wf (Tags (Spec g2))"
    using assms(5) refl by (simp_all add: update_pre_def reflects_def tags_full_wf)
  ultimately show ?thesis
    by (simp add: r' newResourceDelta_eq assms(2,3) Let_def compare_lib_okD [OF assms(3)])
qed

end
