(* ===== verification/Manager.thy ===== *)
theory Manager
  imports NetworkService
begin

text \<open>
  \<open>pkg/resource/global_network/manager.go\<close>: the methods the ACK reconciler calls. A resource
  comes in as an interface value (\<open>aws_resource\<close>); a method that changes the object its
  argument points to returns the argument as it leaves it, first. A test that ends in
  \<open>panic\<close> is the outcome \<open>Panic\<close>. The iteration orders of the map loops come from the
  schedule \<open>s\<close>: in the three tag methods, 0 is the loop over the tag map, 1 the loop of
  \<open>fromACKTags\<close>. Of \<open>Update\<close>, \<open>s\<close> is the schedule of \<open>SyncTags\<close>.
\<close>

section \<open>The argument\<close>

definition concreteResource :: "aws_resource \<Rightarrow> resource option outcome" where
  "concreteResource res = (case res of ResourcePtr r \<Rightarrow> Ret r | _ \<Rightarrow> Panic)"

text \<open>The beginning of every method: the type assertion and the test for a nil object.\<close>

definition checked :: "aws_resource \<Rightarrow> resource outcome" where
  "checked res =
     and_then (concreteResource res) (\<lambda>r. and_then (deref r) (\<lambda>r.
       if ko r = None then Panic else Ret r))"

lemma checked_simps [simp]:
  "checked (ResourcePtr (Some \<lparr>ko = Some g\<rparr>)) = Ret \<lparr>ko = Some g\<rparr>"
  "checked (ResourcePtr (Some \<lparr>ko = None\<rparr>)) = Panic"
  "checked (ResourcePtr None) = Panic" "checked NilInterface = Panic"
  "checked OtherDynamicType = Panic"
  by (simp_all add: checked_def concreteResource_def)

lemma checked_Ret: "checked res = Ret r \<longleftrightarrow> (\<exists>g. res = ResourcePtr (Some \<lparr>ko = Some g\<rparr>) \<and> r = \<lparr>ko = Some g\<rparr>)"
proof (cases res)
  case (ResourcePtr p)
  show ?thesis
  proof (cases p)
    case (Some r')
    then show ?thesis
      by (cases r'; cases "ko r'") (auto simp: ResourcePtr)
  qed (simp add: ResourcePtr)
qed simp_all

definition set_tags :: "tag option slice \<Rightarrow> GlobalNetwork \<Rightarrow> GlobalNetwork" where
  "set_tags ts g = g\<lparr>Spec := (Spec g)\<lparr>Tags := ts\<rparr>\<rparr>"

lemma set_tags_sel [simp]:
  "Tags (Spec (set_tags ts g)) = ts" "Description (Spec (set_tags ts g)) = Description (Spec g)"
  "Status (set_tags ts g) = Status g" "ObjectMeta (set_tags ts g) = ObjectMeta g"
  "TypeMeta (set_tags ts g) = TypeMeta g" "metadata_of (set_tags ts g) = metadata_of g"
  by (simp_all add: set_tags_def metadata_of_def)

section \<open>The three methods on tags\<close>

definition EnsureTags ::
  "('e, 'd) ack_runtime \<Rightarrow> sched \<Rightarrow> ('w, 'e) resourceManager \<Rightarrow> aws_resource \<Rightarrow> service_metadata \<Rightarrow>
   (resource \<times> 'e option) outcome" where
  "EnsureTags rt s rm res md =
     and_then (checked res) (\<lambda>r. and_then (deref (ko r)) (\<lambda>g.
       let defaultTags = GetDefaultTags rt (cfg rm) g md
       in and_then (convertToOrderedACKTags rt (Tags (Spec g))) (\<lambda>(resourceTags, keyOrder).
            let tags = MergeTags rt resourceTags defaultTags
            in Ret (\<lparr>ko = Some (set_tags (fst (fromACKTags (s 1) tags keyOrder)) g)\<rparr>, None))))"

definition FilterSystemTags ::
  "('e, 'd) ack_runtime \<Rightarrow> sched \<Rightarrow> aws_resource \<Rightarrow> string list \<Rightarrow> resource option outcome" where
  "FilterSystemTags rt s res systemTags =
     and_then (concreteResource res) (\<lambda>r.
       case r of
         None \<Rightarrow> Ret r
       | Some r' \<Rightarrow>
           (case ko r' of
              None \<Rightarrow> Ret r
            | Some g \<Rightarrow>
                and_then (convertToOrderedACKTags rt (Tags (Spec g))) (\<lambda>(resourceTags, tagKeyOrder).
                  let resourceTags = ignoreSystemTags (s 0) systemTags resourceTags
                  in Ret (Some \<lparr>ko = Some (set_tags
                       (fst (fromACKTags (s 1) resourceTags tagKeyOrder)) g)\<rparr>))))"

definition mirrorAWSTags ::
  "('e, 'd) ack_runtime \<Rightarrow> sched \<Rightarrow> resource option \<Rightarrow> resource option \<Rightarrow> resource option outcome" where
  "mirrorAWSTags rt s a b =
     (if a = None \<or> ko (the a) = None \<or> b = None \<or> ko (the b) = None then Ret a
      else
        (let ga = the (ko (the a)); gb = the (ko (the b))
         in and_then (convertToOrderedACKTags rt (Tags (Spec ga))) (\<lambda>(desiredTags, desiredTagKeyOrder).
            and_then (convertToOrderedACKTags rt (Tags (Spec gb))) (\<lambda>(latestTags, _).
              let desiredTags = syncAWSTags (s 0) desiredTags latestTags
              in Ret (Some \<lparr>ko = Some (set_tags
                   (fst (fromACKTags (s 1) desiredTags desiredTagKeyOrder)) ga)\<rparr>)))))"

section \<open>Reading, creating, updating, deleting\<close>

text \<open>The end of the four methods: the error on the resource the operation returned, or else on the argument.\<close>

definition finish ::
  "('e, 'd) ack_runtime \<Rightarrow> ('w, 'e) resourceManager \<Rightarrow> resource \<Rightarrow> resource option \<times> 'e option \<Rightarrow>
   (aws_resource \<times> 'e option) outcome" where
  "finish rt rm r res =
     (case res of (observed, err) \<Rightarrow>
        (case err of
           Some e \<Rightarrow> if observed \<noteq> None then onError rt rm observed err
                     else onError rt rm (Some r) err
         | None \<Rightarrow> onSuccess rt rm observed))"

definition ReadOne ::
  "('e, 'd) ack_runtime \<Rightarrow> sched \<Rightarrow> ('w, 'e) resourceManager \<Rightarrow> aws_resource \<Rightarrow> ('w, 'e) env \<Rightarrow>
   (resource \<times> aws_resource \<times> 'e option) outcome \<times> ('w, 'e) env" where
  "ReadOne rt s rm res w =
     op_then (checked res, w) (\<lambda>r w.
     op_then (sdkFind rt rm r w) (\<lambda>(observed, err) w.
     op_then (and_then (mirrorAWSTags rt s (Some r) observed) deref, w) (\<lambda>r w.
       (and_then (finish rt rm r (observed, err)) (\<lambda>(out, err). Ret (r, out, err)), w))))"

definition Create ::
  "('e, 'd) ack_runtime \<Rightarrow> ('w, 'e) resourceManager \<Rightarrow> aws_resource \<Rightarrow> ('w, 'e) env \<Rightarrow>
   (aws_resource \<times> 'e option) outcome \<times> ('w, 'e) env" where
  "Create rt rm res w =
     op_then (checked res, w) (\<lambda>r w.
     op_then (sdkCreate rt rm r w) (\<lambda>created w. (finish rt rm r created, w)))"

definition Update ::
  "('e, 'd) ack_runtime \<Rightarrow> sched \<Rightarrow> ('w, 'e) resourceManager \<Rightarrow> aws_resource \<Rightarrow> aws_resource \<Rightarrow> 'd \<Rightarrow>
   ('w, 'e) env \<Rightarrow> (aws_resource \<times> 'e option) outcome \<times> ('w, 'e) env" where
  "Update rt s rm resDesired resLatest delta w =
     op_then (concreteResource resDesired, w) (\<lambda>_ w.
     op_then (concreteResource resLatest, w) (\<lambda>_ w.
     op_then (checked resDesired, w) (\<lambda>desired w.
     op_then (checked resLatest, w) (\<lambda>latest w.
     op_then (sdkUpdate rt s rm desired latest delta w) (\<lambda>updated w.
       (finish rt rm latest updated, w))))))"

definition Delete ::
  "('e, 'd) ack_runtime \<Rightarrow> ('w, 'e) resourceManager \<Rightarrow> aws_resource \<Rightarrow> ('w, 'e) env \<Rightarrow>
   (aws_resource \<times> 'e option) outcome \<times> ('w, 'e) env" where
  "Delete rt rm res w =
     op_then (checked res, w) (\<lambda>r w.
     op_then (sdkDelete rm r w) (\<lambda>observed w. (finish rt rm r observed, w)))"

section \<open>Names, late initialisation, the synced test, construction\<close>

definition ARNFromName :: "('w, 'e) resourceManager \<Rightarrow> string \<Rightarrow> string" where
  "ARNFromName rm name =
     ''arn:'' @ awsPartition rm @ '':networkmanager:'' @ awsRegion rm @ '':'' @
     awsAccountID rm @ '':'' @ name"

definition lateInitializeFieldNames :: "string list" where
  "lateInitializeFieldNames = []"

definition incompleteLateInitialization :: "aws_resource \<Rightarrow> bool" where
  "incompleteLateInitialization res = False"

definition lateInitializeFromReadOneOutput :: "aws_resource \<Rightarrow> aws_resource \<Rightarrow> aws_resource" where
  "lateInitializeFromReadOneOutput observed latest = latest"

text \<open>
  The method \<open>DeepCopy\<close> through the interface. A copy has the dynamic type of the original;
  nothing is said of the copies of types this package does not define.
\<close>

definition resource_DeepCopy :: "resource \<Rightarrow> resource" where
  "resource_DeepCopy r = \<lparr>ko = GlobalNetwork_DeepCopy (ko r)\<rparr>"

definition aws_DeepCopy :: "aws_resource \<Rightarrow> aws_resource outcome" where
  "aws_DeepCopy res =
     (case res of
        NilInterface \<Rightarrow> Panic
      | ResourcePtr r \<Rightarrow> and_then (deref r) (\<lambda>r. Ret (ResourcePtr (Some (resource_DeepCopy r))))
      | OtherDynamicType \<Rightarrow> Ret OtherDynamicType)"

definition LateInitialize ::
  "('e, 'd) ack_runtime \<Rightarrow> sched \<Rightarrow> ('w, 'e) resourceManager \<Rightarrow> aws_resource \<Rightarrow> ('w, 'e) env \<Rightarrow>
   (aws_resource \<times> 'e option) outcome \<times> ('w, 'e) env" where
  "LateInitialize rt s rm latest w =
     (if length lateInitializeFieldNames = 0 then (Ret (latest, None), w)
      else
        op_then (aws_DeepCopy latest, w) (\<lambda>latestCopy w.
        op_then (ReadOne rt s rm latestCopy w) (\<lambda>(r, observed, err) w.
          let latestCopy = ResourcePtr (Some r)
          in case err of
               Some e \<Rightarrow>
                 (let latestCopy = SetLateInitialized rt latestCopy ConditionFalse
                        (Some ''Unable to complete Read operation required for late initialization'')
                        (Some ''Late Initialization Failure'');
                      latestCopy = SetSynced rt latestCopy ConditionFalse None None
                  in (Ret (latestCopy, err), w))
             | None \<Rightarrow>
                 (let lateInitializedRes = lateInitializeFromReadOneOutput observed latestCopy
                  in if incompleteLateInitialization lateInitializedRes
                     then
                       (let res = SetLateInitialized rt lateInitializedRes ConditionFalse
                              (Some ''Late initialization did not complete, requeuing with delay of 5 seconds'')
                              (Some ''Delayed Late Initialization'');
                            res = SetSynced rt res ConditionFalse None None
                        in (Ret (res, Some (NeededAfter rt None (5 * 1000000000))), w))
                     else
                       (Ret (SetLateInitialized rt lateInitializedRes ConditionTrue
                              (Some ''Late initialization successful'')
                              (Some ''Late initialization successful''), None), w)))))"

definition IsSynced ::
  "('e, 'd) ack_runtime \<Rightarrow> aws_resource \<Rightarrow> (bool \<times> 'e option) outcome" where
  "IsSynced rt res =
     and_then (checked res) (\<lambda>r. and_then (deref (ko r)) (\<lambda>g.
       case State (Status g) of
         None \<Rightarrow> Ret (False, None)
       | Some st \<Rightarrow>
           (let stateCandidates = [''AVAILABLE'']
            in if \<not> InStrings rt st stateCandidates then Ret (False, None) else Ret (True, None))))"

text \<open>\<open>NewFromConfig\<close> is \<open>svcsdk.NewFromConfig\<close>; the error of the constructor is always nil.\<close>

definition newResourceManager ::
  "(string \<Rightarrow> ('w, 'e) svcsdk_Client) \<Rightarrow> ack_config \<Rightarrow> string \<Rightarrow> string \<Rightarrow> string \<Rightarrow>
   ('w, 'e) resourceManager option \<times> 'e option" where
  "newResourceManager NewFromConfig conf clientconf accountID region =
     (Some \<lparr>cfg = conf, clientcfg = clientconf, awsAccountID = accountID, awsRegion = region,
        awsPartition = cfg_Partition conf, sdkapi = NewFromConfig clientconf\<rparr>, None)"

section \<open>The methods on tags, through the codec\<close>

abbreviation edit_tags ::
  "('e, 'd) ack_runtime \<Rightarrow> order \<Rightarrow> (string gomap \<Rightarrow> string gomap) \<Rightarrow> tag option slice \<Rightarrow> tag option slice outcome" where
  "edit_tags rt ord \<equiv> tag_codec.edit (convertToOrderedACKTags rt) (\<lambda>m ks. fst (fromACKTags ord m ks))"

lemma edit_tags_law:
  assumes "tags_lib_ok rt" and "tags_wf ts"
    and "\<And>m. mwf m \<Longrightarrow> mget m = tag_map ts \<Longrightarrow> mwf (f m) \<and> mget (f m) = M"
  obtains ts' where "edit_tags rt ord f ts = Ret ts'" and "tags_normal ts'" and "tag_map ts' = M"
  using codec.edit_law [of rt ts f M ord] assms tags_lib_okD(1) by metis

lemma EnsureTags_law:
  assumes "tags_lib_ok rt" and "tags_wf (Tags (Spec g))"
  obtains ts where "EnsureTags rt s rm (ResourcePtr (Some \<lparr>ko = Some g\<rparr>)) md = Ret (\<lparr>ko = Some (set_tags ts g)\<rparr>, None)"
    and "tags_normal ts" and "tag_map ts = mget (GetDefaultTags rt (cfg rm) g md) ++ tag_map (Tags (Spec g))"
proof -
  let ?f = "\<lambda>m. MergeTags rt m (GetDefaultTags rt (cfg rm) g md)"
  have f: "mwf (?f m) \<and> mget (?f m) = mget (GetDefaultTags rt (cfg rm) g md) ++ tag_map (Tags (Spec g))"
    if "mwf m" "mget m = tag_map (Tags (Spec g))" for m
    using tags_lib_okD [OF assms(1)] that by simp
  obtain ts where "edit_tags rt (s 1) ?f (Tags (Spec g)) = Ret ts" "tags_normal ts"
    "tag_map ts = mget (GetDefaultTags rt (cfg rm) g md) ++ tag_map (Tags (Spec g))"
    by (rule edit_tags_law [OF assms f])
  then show ?thesis
    by (intro that) (auto simp: EnsureTags_def codec.edit_def outcome_simps Let_def)
qed

lemma FilterSystemTags_law:
  assumes "tags_lib_ok rt" and "tags_wf (Tags (Spec g))"
  obtains ts where "FilterSystemTags rt s (ResourcePtr (Some \<lparr>ko = Some g\<rparr>)) systemTags =
      Ret (Some \<lparr>ko = Some (set_tags ts g)\<rparr>)"
    and "tags_normal ts" and "tag_map ts = tag_map (Tags (Spec g)) |` {k. \<not> aws_key k \<and> k \<notin> set systemTags}"
proof -
  let ?f = "ignoreSystemTags (s 0) systemTags"
  have f: "mwf (?f m) \<and> mget (?f m) = tag_map (Tags (Spec g)) |` {k. \<not> aws_key k \<and> k \<notin> set systemTags}"
    if "mwf m" "mget m = tag_map (Tags (Spec g))" for m
    using that by (auto simp: mwf_ignoreSystemTags mget_ignoreSystemTags fun_eq_iff restrict_map_def)
  obtain ts where "edit_tags rt (s 1) ?f (Tags (Spec g)) = Ret ts" "tags_normal ts"
    "tag_map ts = tag_map (Tags (Spec g)) |` {k. \<not> aws_key k \<and> k \<notin> set systemTags}"
    by (rule edit_tags_law [OF assms f])
  then show ?thesis
    by (intro that) (auto simp: FilterSystemTags_def concreteResource_def codec.edit_def outcome_simps Let_def)
qed

text \<open>The tags of the desired resource with the AWS tags of the latest one.\<close>

definition with_aws_tags :: "(string \<rightharpoonup> string) \<Rightarrow> (string \<rightharpoonup> string) \<Rightarrow> string \<rightharpoonup> string" where
  "with_aws_tags desired latest = desired ++ (latest |` {k. aws_key k})"

lemma mirrorAWSTags_law:
  assumes "tags_lib_ok rt" and "tags_wf (Tags (Spec ga))" and "tags_wf (Tags (Spec gb))"
  obtains ts where "mirrorAWSTags rt s (Some \<lparr>ko = Some ga\<rparr>) (Some \<lparr>ko = Some gb\<rparr>) =
      Ret (Some \<lparr>ko = Some (set_tags ts ga)\<rparr>)"
    and "tags_normal ts" and "tag_map ts = with_aws_tags (tag_map (Tags (Spec ga))) (tag_map (Tags (Spec gb)))"
proof -
  obtain mb kb where b: "convertToOrderedACKTags rt (Tags (Spec gb)) = Ret (mb, kb)"
      "mwf mb" "mget mb = tag_map (Tags (Spec gb))"
    by (rule convert_wf [OF tags_lib_okD(1) [OF assms(1)] assms(3)])
  let ?f = "\<lambda>m. syncAWSTags (s 0) m mb"
  have f: "mwf (?f m) \<and> mget (?f m) = with_aws_tags (tag_map (Tags (Spec ga))) (tag_map (Tags (Spec gb)))"
    if "mwf m" "mget m = tag_map (Tags (Spec ga))" for m
    using that by (auto simp: mwf_syncAWSTags mget_syncAWSTags b fun_eq_iff restrict_map_def
      with_aws_tags_def map_add_def split: option.split)
  obtain ts where "edit_tags rt (s 1) ?f (Tags (Spec ga)) = Ret ts" "tags_normal ts"
    "tag_map ts = with_aws_tags (tag_map (Tags (Spec ga))) (tag_map (Tags (Spec gb)))"
    by (rule edit_tags_law [OF assms(1,2) f])
  then show ?thesis
    by (intro that) (auto simp: mirrorAWSTags_def codec.edit_def outcome_simps Let_def b)
qed

lemma mirrorAWSTags_None [simp]: "mirrorAWSTags rt s a None = Ret a"
  by (simp add: mirrorAWSTags_def)

section \<open>The end of an operation\<close>

lemma conditions_updated_reflects:
  assumes "conditions_updated rt rm err g g'"
  shows "reflects n g' = reflects n g"
  using conditions_updated_frame [OF assms] by (simp add: reflects_def)

text \<open>
  What \<open>finish\<close> returns for a success with a resource, and for an error without one: the
  first keeps all the resource shows, the second is the argument with its conditions updated.
\<close>

lemma finish_success:
  assumes lib: "errors_lib_ok rt" "condition_types_ok rt" and wf: "conds_wf (conds_of g)"
  obtains g' where "finish rt rm r (Some \<lparr>ko = Some g\<rparr>, None) = Ret (ResourcePtr (Some \<lparr>ko = Some g'\<rparr>), None)"
    and "\<And>n. reflects n g' = reflects n g" and "Spec g' = Spec g" and "ObjectMeta g' = ObjectMeta g"
    and "GlobalNetworkID (Status g') = GlobalNetworkID (Status g)"
    and "ARN (metadata_of g') = ARN (metadata_of g)" and "conds_wf (conds_of g')"
proof -
  obtain g' where g': "onSuccess rt rm (Some \<lparr>ko = Some g\<rparr>) = Ret (ResourcePtr (Some \<lparr>ko = Some g'\<rparr>), None)"
    "conditions_updated rt rm None g g' \<or> g' = g \<and> dom (cond_map (conds_of g)) \<inter> status_types rt = {}"
    by (rule onSuccess_law [OF lib _ wf, of "\<lparr>ko = Some g\<rparr>" rm]) auto
  have "finish rt rm r (Some \<lparr>ko = Some g\<rparr>, None) = Ret (ResourcePtr (Some \<lparr>ko = Some g'\<rparr>), None)"
    by (simp add: finish_def g')
  then show ?thesis
  proof (rule that)
    have frame: "reflects n g' = reflects n g \<and> Spec g' = Spec g \<and> ObjectMeta g' = ObjectMeta g \<and>
        GlobalNetworkID (Status g') = GlobalNetworkID (Status g) \<and>
        ARN (metadata_of g') = ARN (metadata_of g) \<and> conds_wf (conds_of g')" for n
      using g'(2) wf by (auto simp: conditions_updated_reflects conditions_updated_frame)
    then show "\<And>n. reflects n g' = reflects n g" and "Spec g' = Spec g" and "ObjectMeta g' = ObjectMeta g"
      and "GlobalNetworkID (Status g') = GlobalNetworkID (Status g)"
      and "ARN (metadata_of g') = ARN (metadata_of g)" and "conds_wf (conds_of g')"
      by blast+
  qed
qed

lemma finish_failure:
  assumes lib: "errors_lib_ok rt" "condition_types_ok rt" and wf: "conds_wf (conds_of g)"
  obtains g' where "finish rt rm \<lparr>ko = Some g\<rparr> (None, Some e) = Ret (ResourcePtr (Some \<lparr>ko = Some g'\<rparr>),
      Some (if is_terminal rt (Some e) then Terminal rt else e))"
    and "conditions_updated rt rm (Some e) g g'"
proof -
  obtain g' where "conditions_updated rt rm (Some e) g g'"
    "onError rt rm (Some \<lparr>ko = Some g\<rparr>) (Some e) = Ret (ResourcePtr (Some \<lparr>ko = Some g'\<rparr>),
      Some (if is_terminal rt (Some e) then Terminal rt else e))"
    by (rule onError_law [OF lib _ wf, of "\<lparr>ko = Some g\<rparr>" rm e]) auto
  then show ?thesis by (intro that) (simp_all add: finish_def)
qed

section \<open>Reading\<close>

lemma read_law:
  assumes ok: "service_ok rt (sdkapi rm) nets tagging"
    and lib: "tags_lib_ok rt" "errors_lib_ok rt" "condition_types_ok rt"
    and id: "GlobalNetworkID (Status g) = Some i"
    and wf: "conds_wf (conds_of g)" "tags_wf (Tags (Spec g))"
  obtains (found) n ts g' w' where
      "ReadOne rt s rm (ResourcePtr (Some \<lparr>ko = Some g\<rparr>)) w =
        (Ret (\<lparr>ko = Some (set_tags ts g)\<rparr>, ResourcePtr (Some \<lparr>ko = Some g'\<rparr>), None), w')"
      and "nets (svc w') = nets (svc w)" and "tagging (svc w') = tagging (svc w)"
      and "nets (svc w) i = Some n" and "reflects n g'" and "ObjectMeta g' = ObjectMeta g"
      and "GlobalNetworkID (Status g') = Some i" and "conds_wf (conds_of g')"
      and "tags_normal ts" and "tag_map ts = with_aws_tags (tag_map (Tags (Spec g))) (net_tags n)"
  | (failed) e g' w' where
      "ReadOne rt s rm (ResourcePtr (Some \<lparr>ko = Some g\<rparr>)) w =
        (Ret (\<lparr>ko = Some g\<rparr>, ResourcePtr (Some \<lparr>ko = Some g'\<rparr>),
          Some (if is_terminal rt (Some e) then Terminal rt else e)), w')"
      and "nets (svc w') = nets (svc w)" and "tagging (svc w') = tagging (svc w)"
      and "conditions_updated rt rm (Some e) g g'"
      and "e = NotFound rt \<longrightarrow> nets (svc w) i = None"
proof -
  let ?r = "\<lparr>ko = Some g\<rparr>"
  obtain res err w' where find: "sdkFind rt rm ?r w = (Ret (res, err), w')"
    and svc: "nets (svc w') = nets (svc w)" "tagging (svc w') = tagging (svc w)"
    and cases: "case err of
       None \<Rightarrow> (\<exists>n g'. res = Some \<lparr>ko = Some g'\<rparr> \<and> nets (svc w) i = Some n \<and>
                 reflects n g' \<and> keeps g g' \<and> GlobalNetworkID (Status g') = Some i)
     | Some e \<Rightarrow> res = None \<and> (e = NotFound rt \<longrightarrow> nets (svc w) i = None)"
    by (rule find_law [OF ok id, of w])
  show ?thesis
  proof (cases err)
    case (Some e)
    obtain g' where "finish rt rm ?r (None, Some e) = Ret (ResourcePtr (Some \<lparr>ko = Some g'\<rparr>),
        Some (if is_terminal rt (Some e) then Terminal rt else e))"
      and upd: "conditions_updated rt rm (Some e) g g'"
      by (rule finish_failure [OF lib(2,3) wf(1)])
    with find cases Some have run: "ReadOne rt s rm (ResourcePtr (Some ?r)) w =
        (Ret (?r, ResourcePtr (Some \<lparr>ko = Some g'\<rparr>),
          Some (if is_terminal rt (Some e) then Terminal rt else e)), w')"
      by (simp add: ReadOne_def)
    show ?thesis by (rule failed [OF run svc upd]) (use cases Some in simp)
  next
    case None
    then obtain n g2 where g2: "res = Some \<lparr>ko = Some g2\<rparr>" "nets (svc w) i = Some n" "reflects n g2"
      "keeps g g2" "GlobalNetworkID (Status g2) = Some i"
      using cases by auto
    have tags: "Tags (Spec g2) = tags_of_sdk (sdk_Tags n)" using g2(3) by (simp add: reflects_def)
    obtain ts where mirror: "mirrorAWSTags rt s (Some ?r) (Some \<lparr>ko = Some g2\<rparr>) = Ret (Some \<lparr>ko = Some (set_tags ts g)\<rparr>)"
      and ts: "tags_normal ts" "tag_map ts = with_aws_tags (tag_map (Tags (Spec g))) (net_tags n)"
      by (rule mirrorAWSTags_law [OF lib(1) wf(2), of g2 s]) (simp_all add: tags net_tags_def)
    have wf2: "conds_wf (conds_of g2)" using g2(4) wf(1) by (simp add: keeps_def)
    obtain g' where fin: "finish rt rm \<lparr>ko = Some (set_tags ts g)\<rparr> (Some \<lparr>ko = Some g2\<rparr>, None) =
        Ret (ResourcePtr (Some \<lparr>ko = Some g'\<rparr>), None)"
      and g': "\<And>n. reflects n g' = reflects n g2" "ObjectMeta g' = ObjectMeta g2"
      "GlobalNetworkID (Status g') = GlobalNetworkID (Status g2)" "conds_wf (conds_of g')"
      by (rule finish_success [OF lib(2,3) wf2, of rm "\<lparr>ko = Some (set_tags ts g)\<rparr>"], rule that)
    have run: "ReadOne rt s rm (ResourcePtr (Some ?r)) w =
        (Ret (\<lparr>ko = Some (set_tags ts g)\<rparr>, ResourcePtr (Some \<lparr>ko = Some g'\<rparr>), None), w')"
      using find None g2(1) mirror fin by (simp add: ReadOne_def)
    show ?thesis
      by (rule found [OF run svc g2(2)]) (use g2 g' ts in \<open>simp_all add: keeps_def\<close>)
  qed
qed

section \<open>Updating\<close>

lemma Update_law:
  assumes "service_ok rt (sdkapi rm) nets tagging"
    and "tags_lib_ok rt" and "compare_lib_ok rt" and "errors_lib_ok rt" and "condition_types_ok rt"
    and "nets (svc w) i = Some n" and "update_pre rt i n g l d"
    and "conds_wf (conds_of g)" and "conds_wf (conds_of l)"
  obtains (failed) e g' w' where
      "Update rt s rm (ResourcePtr (Some \<lparr>ko = Some g\<rparr>)) (ResourcePtr (Some \<lparr>ko = Some l\<rparr>)) d w =
        (Ret (ResourcePtr (Some \<lparr>ko = Some g'\<rparr>), Some (if is_terminal rt (Some e) then Terminal rt else e)), w')"
      and "conditions_updated rt rm (Some e) l g'"
  | (updated) g' n' w' where
      "Update rt s rm (ResourcePtr (Some \<lparr>ko = Some g\<rparr>)) (ResourcePtr (Some \<lparr>ko = Some l\<rparr>)) d w =
        (Ret (ResourcePtr (Some \<lparr>ko = Some g'\<rparr>), None), w')"
      and "nets (svc w') i = Some n'" and "GlobalNetworkID (Status g') = Some i"
      and "net_tags n' = synced (tag_map (Tags (Spec g))) (tag_map (Tags (Spec l))) (net_tags n)"
      and "sdk_Description n' = (if Description (Spec g) = None then sdk_Description n else Description (Spec g))"
      and "sdk_GlobalNetworkArn n' = sdk_GlobalNetworkArn n"
      and "ARN (metadata_of g') = sdk_GlobalNetworkArn n" and "conds_wf (conds_of g')"
proof -
  obtain res err w' where run: "sdkUpdate rt s rm \<lparr>ko = Some g\<rparr> \<lparr>ko = Some l\<rparr> d w = (Ret (res, err), w')"
    and res: "err \<noteq> None \<longrightarrow> res = None"
    by (rule update_returns [OF assms(1-3,6,7)])
  let ?Update = "Update rt s rm (ResourcePtr (Some \<lparr>ko = Some g\<rparr>)) (ResourcePtr (Some \<lparr>ko = Some l\<rparr>)) d w"
  have eq: "?Update = (finish rt rm \<lparr>ko = Some l\<rparr> (res, err), w')"
    using run by (simp add: Update_def concreteResource_def)
  show ?thesis
  proof (cases err)
    case (Some e)
    obtain g' where "finish rt rm \<lparr>ko = Some l\<rparr> (None, Some e) = Ret (ResourcePtr (Some \<lparr>ko = Some g'\<rparr>),
        Some (if is_terminal rt (Some e) then Terminal rt else e))"
      and upd: "conditions_updated rt rm (Some e) l g'"
      by (rule finish_failure [OF assms(4,5,9)])
    with eq Some res show ?thesis by (intro failed [where e = e and g' = g' and w' = w']) simp_all
  next
    case None
    obtain n' g2 where n': "nets (svc w') i = Some n'"
      "net_tags n' = synced (tag_map (Tags (Spec g))) (tag_map (Tags (Spec l))) (net_tags n)"
      "sdk_Description n' = (case Description (Spec g) of None \<Rightarrow> sdk_Description n | Some x \<Rightarrow> Some x)"
      and g2: "res = Some \<lparr>ko = Some g2\<rparr>" "keeps g g2" "GlobalNetworkID (Status g2) = Some i"
        "ARN (metadata_of g2) = sdk_GlobalNetworkArn n'"
      and arn: "sdk_GlobalNetworkArn n' = sdk_GlobalNetworkArn n"
      by (rule update_law [OF assms(1-3,6,7) run [unfolded None]], rule that)
    have wf2: "conds_wf (conds_of g2)" using g2(2) assms(8) by (simp add: keeps_def)
    obtain g' where "finish rt rm \<lparr>ko = Some l\<rparr> (Some \<lparr>ko = Some g2\<rparr>, None) =
        Ret (ResourcePtr (Some \<lparr>ko = Some g'\<rparr>), None)"
      and g': "GlobalNetworkID (Status g') = GlobalNetworkID (Status g2)"
        "ARN (metadata_of g') = ARN (metadata_of g2)" "conds_wf (conds_of g')"
      by (rule finish_success [OF assms(4,5) wf2, of rm "\<lparr>ko = Some l\<rparr>"], rule that)
    with eq None g2 n'(3) show ?thesis
      by (intro updated [where g' = g', OF _ n'(1) _ n'(2) _ arn _ g'(3)]) (simp_all add: g' arn split: option.splits)
  qed
qed

section \<open>Creating\<close>

lemma Create_law:
  assumes "service_ok rt (sdkapi rm) nets tagging"
    and "errors_lib_ok rt" and "condition_types_ok rt"
    and "conds_wf (conds_of g)" and "tags_normal (Tags (Spec g))"
  obtains (failed) e g' w' where
      "Create rt rm (ResourcePtr (Some \<lparr>ko = Some g\<rparr>)) w =
        (Ret (ResourcePtr (Some \<lparr>ko = Some g'\<rparr>), Some (if is_terminal rt (Some e) then Terminal rt else e)), w')"
      and "conditions_updated rt rm (Some e) g g'"
  | (created) i n g' w' where
      "Create rt rm (ResourcePtr (Some \<lparr>ko = Some g\<rparr>)) w = (Ret (ResourcePtr (Some \<lparr>ko = Some g'\<rparr>), None), w')"
      and "ObjectMeta g' = ObjectMeta g" and "nets (svc w) i = None" and "nets (svc w') = (nets (svc w))(i \<mapsto> n)"
      and "sdk_Description n = Description (Spec g)" and "net_tags n = tag_map (Tags (Spec g))"
      and "reflects n g'" and "GlobalNetworkID (Status g') = Some i" and "ARN (metadata_of g') \<noteq> None"
      and "conds_wf (conds_of g')"
proof -
  obtain res err w' where run: "sdkCreate rt rm \<lparr>ko = Some g\<rparr> w = (Ret (res, err), w')"
    and cases: "case err of
       Some e \<Rightarrow> res = None
     | None \<Rightarrow> (\<exists>i n g'. nets (svc w) i = None \<and> nets (svc w') = (nets (svc w))(i \<mapsto> n) \<and>
         sdk_Description n = Description (Spec g) \<and> net_tags n = tag_map (Tags (Spec g)) \<and>
         res = Some \<lparr>ko = Some g'\<rparr> \<and> reflects n g' \<and> keeps g g' \<and>
         GlobalNetworkID (Status g') = Some i \<and> ARN (metadata_of g') \<noteq> None)"
    by (rule create_law [OF assms(1,5), of w])
  show ?thesis
  proof (cases err)
    case (Some e)
    obtain g' where fin: "finish rt rm \<lparr>ko = Some g\<rparr> (None, Some e) = Ret (ResourcePtr (Some \<lparr>ko = Some g'\<rparr>),
        Some (if is_terminal rt (Some e) then Terminal rt else e))"
      and upd: "conditions_updated rt rm (Some e) g g'"
      by (rule finish_failure [OF assms(2-4)])
    with run cases Some show ?thesis
      by (intro failed [where g' = g' and e = e]) (simp_all add: Create_def)
  next
    case None
    then obtain i n g2 where g2: "nets (svc w) i = None" "nets (svc w') = (nets (svc w))(i \<mapsto> n)"
      "sdk_Description n = Description (Spec g)" "net_tags n = tag_map (Tags (Spec g))"
      "res = Some \<lparr>ko = Some g2\<rparr>" "reflects n g2" "keeps g g2"
      "GlobalNetworkID (Status g2) = Some i" "ARN (metadata_of g2) \<noteq> None"
      using cases by auto
    have wf2: "conds_wf (conds_of g2)" using g2(7) assms(4) by (simp add: keeps_def)
    obtain g' where fin: "finish rt rm \<lparr>ko = Some g\<rparr> (Some \<lparr>ko = Some g2\<rparr>, None) =
        Ret (ResourcePtr (Some \<lparr>ko = Some g'\<rparr>), None)"
      and g': "\<And>n. reflects n g' = reflects n g2" "ObjectMeta g' = ObjectMeta g2"
      "GlobalNetworkID (Status g') = GlobalNetworkID (Status g2)"
      "ARN (metadata_of g') = ARN (metadata_of g2)" "conds_wf (conds_of g')"
      by (rule finish_success [OF assms(2,3) wf2, of rm "\<lparr>ko = Some g\<rparr>"], rule that)
    have "Create rt rm (ResourcePtr (Some \<lparr>ko = Some g\<rparr>)) w = (Ret (ResourcePtr (Some \<lparr>ko = Some g'\<rparr>), None), w')"
      using run None g2(5) fin by (simp add: Create_def)
    then show ?thesis using g2 g' by (intro created [where g' = g', OF _ _ g2(1-4)]) (simp_all add: keeps_def)
  qed
qed

section \<open>Properties\<close>

text \<open>
  C21: \<open>EnsureTags\<close> adds the controller's default tags without overriding the user's. The tags
  afterwards are the defaults overridden by the tags of the spec, as a list in which every
  tag has a key and a value and no key occurs twice; nothing else of the object changes.
\<close>

theorem ensure_tags_user_wins:
  assumes "tags_lib_ok rt" and "tags_wf (Tags (Spec g))"
  shows "\<exists>ts. EnsureTags rt s rm (ResourcePtr (Some \<lparr>ko = Some g\<rparr>)) md =
      Ret (\<lparr>ko = Some (g\<lparr>Spec := (Spec g)\<lparr>Tags := ts\<rparr>\<rparr>)\<rparr>, None) \<and>
    tags_normal ts \<and> tag_map ts = mget (GetDefaultTags rt (cfg rm) g md) ++ tag_map (Tags (Spec g))"
  by (rule EnsureTags_law [OF assms, of s rm md]) (auto simp: set_tags_def)

text \<open>
  C22: \<open>FilterSystemTags\<close> removes exactly the tags whose key starts with \<open>aws:\<close> or is one of the
  system keys given, and leaves a normal tag list and the rest of the object alone.
\<close>

theorem filter_system_tags_exact:
  assumes "tags_lib_ok rt" and "tags_wf (Tags (Spec g))"
  shows "\<exists>ts. FilterSystemTags rt s (ResourcePtr (Some \<lparr>ko = Some g\<rparr>)) systemTags =
      Ret (Some \<lparr>ko = Some (g\<lparr>Spec := (Spec g)\<lparr>Tags := ts\<rparr>\<rparr>)\<rparr>) \<and>
    tags_normal ts \<and>
    (\<forall>k. tag_map ts k = (if prefix ''aws:'' k \<or> k \<in> set systemTags then None
                         else tag_map (Tags (Spec g)) k))"
  by (rule FilterSystemTags_law [OF assms, of s systemTags])
    (auto simp: set_tags_def restrict_map_def aws_key_def)

text \<open>
  C10: \<open>ReadOne\<close> returns what the service holds, and never changes a network. For an object with one condition
  of each type and tags with keys and values it always returns. On success the
  result shows the network the identifier names, and the argument's tag list becomes a
  normal one to which the network's \<open>aws:\<close> tags are mirrored. On an error, which is \<open>Terminal\<close> in place of one
  that is terminal, the argument is left alone and the result is a copy of it with the conditions that error gives
  and the defaults of the status filled in, everything else as it was; \<open>NotFound\<close> is
  returned only when there is no such network.
\<close>

theorem read_one_reads:
  assumes "service_ok rt (sdkapi rm) nets tagging"
    and "tags_lib_ok rt" and "errors_lib_ok rt" and "condition_types_ok rt"
    and "GlobalNetworkID (Status g) = Some i"
    and "conds_wf (conds_of g)" and "tags_wf (Tags (Spec g))"
  shows "\<exists>ts g' err w'. ReadOne rt s rm (ResourcePtr (Some \<lparr>ko = Some g\<rparr>)) w =
      (Ret (\<lparr>ko = Some (set_tags ts g)\<rparr>, ResourcePtr (Some \<lparr>ko = Some g'\<rparr>), err), w') \<and>
    nets (svc w') = nets (svc w) \<and>
    (if err = None
     then \<exists>n. nets (svc w) i = Some n \<and> reflects n g' \<and> tags_normal ts \<and>
       (\<forall>k. tag_map ts k = (if prefix ''aws:'' k \<and> net_tags n k \<noteq> None then net_tags n k
                            else tag_map (Tags (Spec g)) k))
     else ts = Tags (Spec g) \<and> (err = Some (NotFound rt) \<longrightarrow> nets (svc w) i = None) \<and>
       (\<exists>e cs. err = Some (if is_terminal rt (Some e) then Terminal rt else e) \<and>
          g' = with_conditions cs (setStatusDefaults rm g) \<and> conds_wf cs \<and>
          cond_map cs = conditions_spec rt (Some e) (cond_map (conds_of g))))"
proof (rule read_law [OF assms, of s w])
  fix n ts g' w'
  assume "tag_map ts = with_aws_tags (tag_map (Tags (Spec g))) (net_tags n)"
  then have "tag_map ts k = (if prefix ''aws:'' k \<and> net_tags n k \<noteq> None then net_tags n k
      else tag_map (Tags (Spec g)) k)" for k
    by (auto simp: with_aws_tags_def map_add_def restrict_map_def aws_key_def split: option.split)
  moreover assume "ReadOne rt s rm (ResourcePtr (Some \<lparr>ko = Some g\<rparr>)) w =
      (Ret (\<lparr>ko = Some (set_tags ts g)\<rparr>, ResourcePtr (Some \<lparr>ko = Some g'\<rparr>), None), w')"
    "nets (svc w') = nets (svc w)" "nets (svc w) i = Some n" "reflects n g'" "tags_normal ts"
  ultimately show ?thesis by auto
next
  fix e g' w'
  assume upd: "conditions_updated rt rm (Some e) g g'" and nf: "e = NotFound rt \<longrightarrow> nets (svc w) i = None"
  have "(if is_terminal rt (Some e) then Terminal rt else e) = NotFound rt \<longrightarrow> nets (svc w) i = None"
    using nf assms(3) by (auto simp: errors_lib_ok_def)
  moreover have "set_tags (Tags (Spec g)) g = g" by (simp add: set_tags_def)
  moreover assume "ReadOne rt s rm (ResourcePtr (Some \<lparr>ko = Some g\<rparr>)) w =
      (Ret (\<lparr>ko = Some g\<rparr>, ResourcePtr (Some \<lparr>ko = Some g'\<rparr>),
        Some (if is_terminal rt (Some e) then Terminal rt else e)), w')"
    "nets (svc w') = nets (svc w)"
  ultimately show ?thesis
    using upd
    by (intro exI [of _ "Tags (Spec g)"] exI [of _ g'] exI [of _ w']
        exI [of _ "Some (if is_terminal rt (Some e) then Terminal rt else e)"]) (auto simp: conditions_updated_def)
qed

text \<open>
  C11: \<open>Create\<close> of an object with one condition of each type and a normal tag list always returns. Without
  an error it has made one network with the description and tags of the spec, and returns an
  object that shows it and carries its identifier and ARN. On an error, which is \<open>Terminal\<close> in place of one
  that is terminal, no network is reported: the result is the argument with the conditions that error gives and the
  defaults of the status filled in, everything else as it was, identifier, ARN and state
  included.
\<close>

theorem create_creates:
  assumes "service_ok rt (sdkapi rm) nets tagging"
    and "errors_lib_ok rt" and "condition_types_ok rt"
    and "conds_wf (conds_of g)" and "tags_normal (Tags (Spec g))"
  shows "\<exists>g' err w'. Create rt rm (ResourcePtr (Some \<lparr>ko = Some g\<rparr>)) w =
      (Ret (ResourcePtr (Some \<lparr>ko = Some g'\<rparr>), err), w') \<and> ObjectMeta g' = ObjectMeta g \<and>
    (if err = None
     then \<exists>i n. nets (svc w) i = None \<and> nets (svc w') = (nets (svc w))(i \<mapsto> n) \<and>
       sdk_Description n = Description (Spec g) \<and> net_tags n = tag_map (Tags (Spec g)) \<and>
       reflects n g' \<and> GlobalNetworkID (Status g') = Some i \<and> ARN (metadata_of g') \<noteq> None
     else ARN (metadata_of g') = ARN (metadata_of g) \<and>
       (\<exists>e cs. err = Some (if is_terminal rt (Some e) then Terminal rt else e) \<and>
          g' = with_conditions cs (setStatusDefaults rm g) \<and> conds_wf cs \<and>
          cond_map cs = conditions_spec rt (Some e) (cond_map (conds_of g))))"
proof (rule Create_law [OF assms, of w])
  fix e g' w'
  assume "Create rt rm (ResourcePtr (Some \<lparr>ko = Some g\<rparr>)) w =
      (Ret (ResourcePtr (Some \<lparr>ko = Some g'\<rparr>), Some (if is_terminal rt (Some e) then Terminal rt else e)), w')"
    and upd: "conditions_updated rt rm (Some e) g g'"
  then show ?thesis
    using conditions_updated_frame [OF upd]
    by (intro exI [of _ g'] exI [of _ w'] exI [of _ "Some (if is_terminal rt (Some e) then Terminal rt else e)"])
      (auto simp: conditions_updated_def)
qed auto

text \<open>
  C8: \<open>Update\<close> brings the network to the desired state and reports errors on the latest
  resource. The desired object must carry the identifier and the ARN of the network
  (\<open>update_pre\<close>), the latest one show its description and tags of it, both have keys and values in their tags
  and one condition of each type. Then \<open>Update\<close> always returns; without an error the network has the desired tags, those
  filtered from the latest resource kept, and the desired description if there is one; the
  result names that network. With an error, which is \<open>Terminal\<close> in place of one that is terminal, the result is
  the latest resource with the conditions that error gives and the defaults of the status filled in, everything
  else as it was.
\<close>

theorem update_converges:
  assumes "service_ok rt (sdkapi rm) nets tagging"
    and "tags_lib_ok rt" and "compare_lib_ok rt" and "errors_lib_ok rt" and "condition_types_ok rt"
    and "nets (svc w) i = Some n" and "update_pre rt i n g l d"
    and "conds_wf (conds_of g)" and "conds_wf (conds_of l)"
  shows "\<exists>g' err w'. Update rt s rm (ResourcePtr (Some \<lparr>ko = Some g\<rparr>)) (ResourcePtr (Some \<lparr>ko = Some l\<rparr>)) d w =
      (Ret (ResourcePtr (Some \<lparr>ko = Some g'\<rparr>), err), w') \<and>
    (if err = None
     then \<exists>n'. nets (svc w') i = Some n' \<and> GlobalNetworkID (Status g') = Some i \<and>
       net_tags n' = (net_tags n |` (- dom (tag_map (Tags (Spec l))))) ++ tag_map (Tags (Spec g)) \<and>
       sdk_Description n' = (if Description (Spec g) = None then sdk_Description n else Description (Spec g))
     else \<exists>e cs. err = Some (if is_terminal rt (Some e) then Terminal rt else e) \<and>
       g' = with_conditions cs (setStatusDefaults rm l) \<and> conds_wf cs \<and>
       cond_map cs = conditions_spec rt (Some e) (cond_map (conds_of l)))"
proof (rule Update_law [OF assms, of s])
  fix e g' w'
  assume "Update rt s rm (ResourcePtr (Some \<lparr>ko = Some g\<rparr>)) (ResourcePtr (Some \<lparr>ko = Some l\<rparr>)) d w =
      (Ret (ResourcePtr (Some \<lparr>ko = Some g'\<rparr>), Some (if is_terminal rt (Some e) then Terminal rt else e)), w')"
    "conditions_updated rt rm (Some e) l g'"
  then show ?thesis
    by (intro exI [of _ g'] exI [of _ w'] exI [of _ "Some (if is_terminal rt (Some e) then Terminal rt else e)"])
      (auto simp: conditions_updated_def)
next
  fix g' n' w'
  assume "Update rt s rm (ResourcePtr (Some \<lparr>ko = Some g\<rparr>)) (ResourcePtr (Some \<lparr>ko = Some l\<rparr>)) d w =
      (Ret (ResourcePtr (Some \<lparr>ko = Some g'\<rparr>), None), w')"
    "nets (svc w') i = Some n'" "GlobalNetworkID (Status g') = Some i"
    "net_tags n' = synced (tag_map (Tags (Spec g))) (tag_map (Tags (Spec l))) (net_tags n)"
    "sdk_Description n' = (if Description (Spec g) = None then sdk_Description n else Description (Spec g))"
  then show ?thesis by (simp add: synced_def)
qed

text \<open>
  C12: \<open>Delete\<close> asks the service once to delete the network the object names. On success the
  result is the nil resource without error, the network is gone or being deleted and the
  others are untouched; on an error of that call the answer is that error, or \<open>Terminal\<close> if it is terminal, and
  the object with the conditions that error gives and the defaults of the status filled in, everything else
  as it was.
\<close>

theorem delete_deletes:
  assumes "service_ok rt (sdkapi rm) nets tagging"
    and "errors_lib_ok rt" and "condition_types_ok rt"
    and "GlobalNetworkID (Status g) = Some i" and "conds_wf (conds_of g)"
  shows "\<exists>out err callErr w'. Delete rt rm (ResourcePtr (Some \<lparr>ko = Some g\<rparr>)) w = (Ret (out, err), w') \<and>
    api_calls w' = api_calls w @ [(''DELETE'', ''DeleteGlobalNetwork'', callErr)] \<and>
    (if callErr = None
     then out = NilInterface \<and> err = None \<and> (\<forall>j. j \<noteq> i \<longrightarrow> nets (svc w') j = nets (svc w) j) \<and>
       (\<forall>n. nets (svc w') i = Some n \<longrightarrow> sdk_State n = ''DELETING'')
     else err = Some (if is_terminal rt callErr then Terminal rt else the callErr) \<and>
       (\<exists>cs. out = ResourcePtr (Some \<lparr>ko = Some (with_conditions cs (setStatusDefaults rm g))\<rparr>) \<and> conds_wf cs \<and>
          cond_map cs = conditions_spec rt callErr (cond_map (conds_of g))))"
proof -
  obtain err s where call: "DeleteGlobalNetwork (sdkapi rm) \<lparr>delete_GlobalNetworkId = Some i\<rparr> (svc w) = (err, s)"
    by fastforce
  let ?w = "RecordAPICall ''DELETE'' ''DeleteGlobalNetwork'' err (w\<lparr>svc := s\<rparr>)"
  have eq: "Delete rt rm (ResourcePtr (Some \<lparr>ko = Some g\<rparr>)) w = (finish rt rm \<lparr>ko = Some g\<rparr> (None, err), ?w)"
    using sdkDelete_eq [of rm g w, unfolded assms(4), OF call] by (simp add: Delete_def)
  show ?thesis
  proof (cases err)
    case None
    have "delete_ok (sdkapi rm) nets" using assms(1) by (simp add: service_ok_def)
    with call None have "(\<forall>j. j \<noteq> i \<longrightarrow> nets s j = nets (svc w) j) \<and>
        (nets s i = None \<or> (\<exists>n. nets s i = Some n \<and> sdk_State n = ''DELETING''))"
      unfolding delete_ok_def state_string.simps by blast
    with eq None show ?thesis by (auto simp: finish_def onSuccess_def)
  next
    case (Some e)
    obtain g' where "finish rt rm \<lparr>ko = Some g\<rparr> (None, Some e) = Ret (ResourcePtr (Some \<lparr>ko = Some g'\<rparr>),
        Some (if is_terminal rt (Some e) then Terminal rt else e))"
      and upd: "conditions_updated rt rm (Some e) g g'"
      by (rule finish_failure [OF assms(2,3,5)])
    with eq Some upd show ?thesis by (auto simp: conditions_updated_def)
  qed
qed

text \<open>
  A resource is synced exactly when the last state read of its network is \<open>AVAILABLE\<close>; it
  is not while the network is pending, updating, being deleted or its state is unknown.
\<close>

lemma is_synced_iff_available:
  assumes "util_lib_ok rt"
  shows "IsSynced rt (ResourcePtr (Some \<lparr>ko = Some g\<rparr>)) =
    Ret (State (Status g) = Some (state_string GN_AVAILABLE), None)"
  using assms by (auto simp: IsSynced_def util_lib_ok_def split: option.split)

text \<open>
  C37: a call without a resource that has an object panics before anything is done: none of
  the four operations calls the service then, and nothing is recorded.
\<close>

theorem operations_need_an_object:
  "if \<exists>g. res = ResourcePtr (Some \<lparr>ko = Some g\<rparr>) then checked res \<noteq> Panic
   else ReadOne rt s rm res w = (Panic, w) \<and> Create rt rm res w = (Panic, w) \<and>
     Update rt s rm res latest d w = (Panic, w) \<and> Update rt s rm desired res d w = (Panic, w) \<and>
     Delete rt rm res w = (Panic, w) \<and> EnsureTags rt s rm res md = Panic \<and>
     IsSynced rt res = Panic"
proof (cases "checked res")
  case (Ret r)
  then show ?thesis by (auto simp: checked_Ret)
next
  case Panic
  have "Update rt s rm desired res d w = (Panic, w)"
    by (cases "concreteResource desired"; cases "concreteResource res"; cases "checked desired")
      (simp_all add: Update_def Panic)
  moreover have "Update rt s rm res latest d w = (Panic, w)"
    by (cases "concreteResource res"; cases "concreteResource latest") (simp_all add: Update_def Panic)
  ultimately show ?thesis
    using Panic by (auto simp: ReadOne_def Create_def Delete_def EnsureTags_def IsSynced_def)
qed

lemma late_initialize_idle:
  "LateInitialize rt s rm latest w = (Ret (latest, None), w)"
  by (simp add: LateInitialize_def lateInitializeFieldNames_def)

end
