(* ===== verification/ResourceObject.thy ===== *)
theory ResourceObject
  imports Manager
begin

text \<open>
  The resource and its descriptor: \<open>resource.go\<close>, \<open>identifiers.go\<close>, \<open>descriptor.go\<close> and
  \<open>references.go\<close> of \<open>pkg/resource/global_network\<close>. A method with a pointer receiver takes
  the pointer; a method that changes the object it points to returns the resource as it
  leaves it. The descriptor's methods are called with resources of this package, so their
  argument is the pointer in the interface.
\<close>

section \<open>\<open>resource.go\<close>\<close>

text \<open>
  Values of the interface \<open>rtclient.Object\<close>: nil, a pointer to a GlobalNetwork, or an object
  of another kind, of which only the metadata can be reached through the interface.
\<close>

datatype client_object = NilObject | GlobalNetworkPtr "GlobalNetwork option" | OtherObject object_meta

definition object_of :: "resource option \<Rightarrow> GlobalNetwork outcome" where
  "object_of r = and_then (deref r) (\<lambda>r. deref (ko r))"

record resourceIdentifiers =
  meta :: "resource_metadata option"

definition Identifiers :: "resource option \<Rightarrow> resourceIdentifiers outcome" where
  "Identifiers r = and_then (object_of r) (\<lambda>g. Ret \<lparr>meta = ACKResourceMetadata (Status g)\<rparr>)"

definition IsBeingDeleted :: "('e, 'd) ack_runtime \<Rightarrow> resource option \<Rightarrow> bool outcome" where
  "IsBeingDeleted rt r =
     and_then (object_of r) (\<lambda>g. Ret (\<not> TimeIsZero rt (DeletionTimestamp (ObjectMeta g))))"

text \<open>The result wraps the pointer, so it is not the nil interface even when the pointer is nil.\<close>

definition RuntimeObject :: "resource option \<Rightarrow> client_object outcome" where
  "RuntimeObject r = and_then (deref r) (\<lambda>r. Ret (GlobalNetworkPtr (ko r)))"

definition MetaObject :: "resource option \<Rightarrow> object_meta outcome" where
  "MetaObject r = and_then (object_of r) (\<lambda>g. Ret (ObjectMeta g))"

definition ReplaceConditions :: "resource option \<Rightarrow> condition option slice \<Rightarrow> resource outcome" where
  "ReplaceConditions r conditions = and_then (object_of r) (\<lambda>g.
     Ret \<lparr>ko = Some (g\<lparr>Status := (Status g)\<lparr>Conditions := conditions\<rparr>\<rparr>)\<rparr>)"

definition SetObjectMeta :: "resource option \<Rightarrow> object_meta \<Rightarrow> resource outcome" where
  "SetObjectMeta r m = and_then (object_of r) (\<lambda>g. Ret \<lparr>ko = Some (g\<lparr>ObjectMeta := m\<rparr>)\<rparr>)"

definition SetStatus :: "resource option \<Rightarrow> aws_resource \<Rightarrow> resource outcome" where
  "SetStatus r desired =
     and_then (concreteResource desired) (\<lambda>d. and_then (object_of d) (\<lambda>d.
     and_then (object_of r) (\<lambda>g. Ret \<lparr>ko = Some (g\<lparr>Status := Status d\<rparr>)\<rparr>)))"

record AWSIdentifiers =
  NameOrID :: string

definition set_network_id :: "string \<Rightarrow> GlobalNetwork \<Rightarrow> GlobalNetwork" where
  "set_network_id i g = g\<lparr>Status := (Status g)\<lparr>GlobalNetworkID := Some i\<rparr>\<rparr>"

definition SetIdentifiers ::
  "('e, 'd) ack_runtime \<Rightarrow> resource option \<Rightarrow> AWSIdentifiers option \<Rightarrow>
   (resource option \<times> 'e option) outcome" where
  "SetIdentifiers rt r identifier =
     and_then (deref identifier) (\<lambda>identifier.
       if NameOrID identifier = '''' then Ret (r, Some (MissingNameIdentifier rt))
       else and_then (object_of r) (\<lambda>g.
         Ret (Some \<lparr>ko = Some (set_network_id (NameOrID identifier) g)\<rparr>, None)))"

definition PopulateResourceFromAnnotation ::
  "('e, 'd) ack_runtime \<Rightarrow> resource option \<Rightarrow> string gomap \<Rightarrow> (resource option \<times> 'e option) outcome" where
  "PopulateResourceFromAnnotation rt r adopted =
     (case mget adopted ''globalNetworkID'' of
        None \<Rightarrow> Ret (r, Some (NewTerminalError rt (Errorf rt ''required field missing: globalNetworkID'')))
      | Some f0 \<Rightarrow> and_then (object_of r) (\<lambda>g. Ret (Some \<lparr>ko = Some (set_network_id f0 g)\<rparr>, None)))"

section \<open>\<open>identifiers.go\<close>\<close>

definition identifiers_ARN :: "resourceIdentifiers \<Rightarrow> string option" where
  "identifiers_ARN ri = (case meta ri of Some m \<Rightarrow> ARN m | None \<Rightarrow> None)"

definition identifiers_OwnerAccountID :: "resourceIdentifiers \<Rightarrow> string option" where
  "identifiers_OwnerAccountID ri = (case meta ri of Some m \<Rightarrow> OwnerAccountID m | None \<Rightarrow> None)"

definition identifiers_Region :: "resourceIdentifiers \<Rightarrow> string option" where
  "identifiers_Region ri = (case meta ri of Some m \<Rightarrow> Region m | None \<Rightarrow> None)"

definition identifiers_Partition :: "resourceIdentifiers \<Rightarrow> string option" where
  "identifiers_Partition ri = (case meta ri of Some m \<Rightarrow> Partition m | None \<Rightarrow> None)"

section \<open>\<open>descriptor.go\<close>\<close>

definition FinalizerString :: string where
  "FinalizerString = ''finalizers.networkmanager.services.k8s.aws/GlobalNetwork''"

record GroupVersionKind =
  gvk_Group :: string
  gvk_Version :: string
  gvk_Kind :: string

text \<open>The names the package declares, and \<open>WithKind\<close> and \<open>WithResource\<close> of a group and version.\<close>

record group_kind =
  gk_Group :: string
  gk_Kind :: string

record group_version_resource =
  gvr_Group :: string
  gvr_Version :: string
  gvr_Resource :: string

definition GroupKind :: group_kind where
  "GroupKind = \<lparr>gk_Group = ''networkmanager.services.k8s.aws'', gk_Kind = ''GlobalNetwork''\<rparr>"

definition GroupVersionResource :: group_version_resource where
  "GroupVersionResource = \<lparr>gvr_Group = gv_Group GroupVersion, gvr_Version = gv_Version GroupVersion,
     gvr_Resource = ''globalnetworks''\<rparr>"

text \<open>The descriptor is a struct without fields, so all descriptors are one; the methods read nothing of it.\<close>

datatype resourceDescriptor = EmptyDescriptor

definition GroupVersionKindOf :: "resourceDescriptor \<Rightarrow> GroupVersionKind" where
  "GroupVersionKindOf d = \<lparr>gvk_Group = gv_Group GroupVersion, gvk_Version = gv_Version GroupVersion,
     gvk_Kind = gk_Kind GroupKind\<rparr>"

text \<open>The group is written down twice, as the same text.\<close>

lemma one_group: "gvk_Group (GroupVersionKindOf d) = gk_Group GroupKind" "gvr_Group GroupVersionResource = gk_Group GroupKind"
  by (simp_all add: GroupVersionKindOf_def GroupVersionResource_def GroupVersion_def GroupKind_def)

definition EmptyRuntimeObject :: client_object where
  "EmptyRuntimeObject = GlobalNetworkPtr (Some
     \<lparr>TypeMeta = \<lparr>Kind = '''', APIVersion = ''''\<rparr>,
      ObjectMeta = \<lparr>om_Name = '''', om_Namespace = '''', DeletionTimestamp = None, Finalizers = None,
        Annotations = None, om_rest = ''''\<rparr>,
      Spec = \<lparr>Description = None, Tags = None\<rparr>,
      Status = \<lparr>ACKResourceMetadata = None, Conditions = None, CreatedAt = None,
        GlobalNetworkID = None, State = None\<rparr>\<rparr>)"

definition ResourceFromRuntimeObject :: "client_object \<Rightarrow> resource outcome" where
  "ResourceFromRuntimeObject obj =
     (case obj of GlobalNetworkPtr p \<Rightarrow> Ret \<lparr>ko = p\<rparr> | _ \<Rightarrow> Panic)"

definition Delta ::
  "('e, 'd) ack_runtime \<Rightarrow> aws_resource \<Rightarrow> aws_resource \<Rightarrow> 'd outcome" where
  "Delta rt a b = and_then (concreteResource a) (\<lambda>a. and_then (concreteResource b) (\<lambda>b.
     newResourceDelta rt a b))"

text \<open>The methods of \<open>rtclient.Object\<close> the descriptor calls: they need the metadata of the object.\<close>

definition get_meta :: "client_object \<Rightarrow> object_meta outcome" where
  "get_meta obj =
     (case obj of
        NilObject \<Rightarrow> Panic
      | GlobalNetworkPtr p \<Rightarrow> and_then (deref p) (\<lambda>g. Ret (ObjectMeta g))
      | OtherObject m \<Rightarrow> Ret m)"

definition set_meta :: "object_meta \<Rightarrow> client_object \<Rightarrow> client_object" where
  "set_meta m obj =
     (case obj of
        NilObject \<Rightarrow> NilObject
      | GlobalNetworkPtr p \<Rightarrow> GlobalNetworkPtr (map_option (\<lambda>g. g\<lparr>ObjectMeta := m\<rparr>) p)
      | OtherObject _ \<Rightarrow> OtherObject m)"

fun contains_loop :: "string list \<Rightarrow> string \<Rightarrow> bool" where
  "contains_loop [] finalizer = False"
| "contains_loop (e # f) finalizer = (if e = finalizer then True else contains_loop f finalizer)"

definition containsFinalizer :: "client_object \<Rightarrow> string \<Rightarrow> bool outcome" where
  "containsFinalizer obj finalizer =
     and_then (get_meta obj) (\<lambda>m. Ret (contains_loop (elems (Finalizers m)) finalizer))"

definition IsManaged :: "resource option \<Rightarrow> bool outcome" where
  "IsManaged res = and_then (RuntimeObject res) (\<lambda>obj.
     if obj = NilObject then Panic else containsFinalizer obj FinalizerString)"

definition MarkManaged :: "('e, 'd) ack_runtime \<Rightarrow> resource option \<Rightarrow> client_object outcome" where
  "MarkManaged rt res = and_then (RuntimeObject res) (\<lambda>obj.
     if obj = NilObject then Panic
     else and_then (get_meta obj) (\<lambda>m. Ret (set_meta (AddFinalizer rt m FinalizerString) obj)))"

definition MarkUnmanaged :: "('e, 'd) ack_runtime \<Rightarrow> resource option \<Rightarrow> client_object outcome" where
  "MarkUnmanaged rt res = and_then (RuntimeObject res) (\<lambda>obj.
     if obj = NilObject then Panic
     else and_then (get_meta obj) (\<lambda>m. Ret (set_meta (RemoveFinalizer rt m FinalizerString) obj)))"

definition MarkAdopted :: "('e, 'd) ack_runtime \<Rightarrow> resource option \<Rightarrow> client_object outcome" where
  "MarkAdopted rt res = and_then (RuntimeObject res) (\<lambda>obj.
     if obj = NilObject then Panic
     else and_then (get_meta obj) (\<lambda>m.
       let current = (case Annotations m of None \<Rightarrow> [] | Some current \<Rightarrow> current);
           current = mput (AnnotationAdopted rt) ''true'' current
       in Ret (set_meta (m\<lparr>Annotations := Some current\<rparr>) obj)))"

section \<open>\<open>references.go\<close>\<close>

definition ClearResolvedReferences :: "aws_resource \<Rightarrow> aws_resource outcome" where
  "ClearResolvedReferences res =
     and_then (concreteResource res) (\<lambda>r. and_then (deref r) (\<lambda>r.
       Ret (ResourcePtr (Some \<lparr>ko = GlobalNetwork_DeepCopy (ko r)\<rparr>))))"

definition ResolveReferences :: "aws_resource \<Rightarrow> aws_resource \<times> bool \<times> 'e option" where
  "ResolveReferences res = (res, False, None)"

definition validateReferenceFields :: "GlobalNetwork option \<Rightarrow> 'e option" where
  "validateReferenceFields g = None"

section \<open>Properties\<close>

lemma contains_loop_iff [simp]: "contains_loop fs f \<longleftrightarrow> f \<in> set fs"
  by (induction fs) auto

lemma object_simps [simp]:
  "object_of (Some \<lparr>ko = Some g\<rparr>) = Ret g" "object_of None = Panic" "object_of (Some \<lparr>ko = None\<rparr>) = Panic"
  "RuntimeObject (Some r) = Ret (GlobalNetworkPtr (ko r))" "RuntimeObject None = Panic"
  "get_meta (GlobalNetworkPtr (Some g)) = Ret (ObjectMeta g)"
  "set_meta m (GlobalNetworkPtr (Some g)) = GlobalNetworkPtr (Some (g\<lparr>ObjectMeta := m\<rparr>))"
  by (simp_all add: object_of_def RuntimeObject_def get_meta_def set_meta_def)

lemma IsManaged_eq:
  "IsManaged (Some \<lparr>ko = Some g\<rparr>) = Ret (FinalizerString \<in> set (finalizers_of (ObjectMeta g)))"
  by (simp add: IsManaged_def containsFinalizer_def finalizers_of_def)

text \<open>
  C38: marking a resource managed and unmanaged toggles exactly its finalizer. After
  \<open>MarkManaged\<close> the descriptor calls it managed, after \<open>MarkUnmanaged\<close> no longer, the other
  finalizers are those it had, and spec, status and the rest of the metadata are untouched.
\<close>

theorem managed_marks:
  assumes "finalizer_lib_ok rt"
  shows "\<exists>g1 g2. MarkManaged rt (Some \<lparr>ko = Some g\<rparr>) = Ret (GlobalNetworkPtr (Some g1)) \<and>
    IsManaged (Some \<lparr>ko = Some g1\<rparr>) = Ret True \<and>
    MarkUnmanaged rt (Some \<lparr>ko = Some g1\<rparr>) = Ret (GlobalNetworkPtr (Some g2)) \<and>
    IsManaged (Some \<lparr>ko = Some g2\<rparr>) = Ret False \<and>
    set (finalizers_of (ObjectMeta g2)) = set (finalizers_of (ObjectMeta g)) - {FinalizerString} \<and>
    Spec g2 = Spec g \<and> Status g2 = Status g \<and>
    (ObjectMeta g2)\<lparr>Finalizers := Finalizers (ObjectMeta g)\<rparr> = ObjectMeta g"
proof -
  obtain fs where add: "AddFinalizer rt (ObjectMeta g) FinalizerString = (ObjectMeta g)\<lparr>Finalizers := fs\<rparr>"
    and fs: "set (elems fs) = insert FinalizerString (set (finalizers_of (ObjectMeta g)))"
    using assms unfolding finalizer_lib_ok_def by blast
  let ?m = "(ObjectMeta g)\<lparr>Finalizers := fs\<rparr>"
  obtain fs' where del: "RemoveFinalizer rt ?m FinalizerString = ?m\<lparr>Finalizers := fs'\<rparr>"
    and fs': "set (elems fs') = set (finalizers_of ?m) - {FinalizerString}"
    using assms unfolding finalizer_lib_ok_def by blast
  have "set (elems fs') = set (finalizers_of (ObjectMeta g)) - {FinalizerString}"
    using fs fs' by (auto simp: finalizers_of_def)
  then show ?thesis
    using fs by (simp add: MarkManaged_def MarkUnmanaged_def IsManaged_eq add del) (simp add: finalizers_of_def)
qed

text \<open>
  \<open>MarkAdopted\<close> sets the adoption annotation to \<open>true\<close>, also on an object that has no
  annotations yet, and leaves every other annotation and the rest of the object alone.
\<close>

lemma adopted_mark:
  "\<exists>as. MarkAdopted rt (Some \<lparr>ko = Some g\<rparr>) =
      Ret (GlobalNetworkPtr (Some (g\<lparr>ObjectMeta := (ObjectMeta g)\<lparr>Annotations := Some as\<rparr>\<rparr>))) \<and>
    mget as = (case Annotations (ObjectMeta g) of None \<Rightarrow> Map.empty | Some old \<Rightarrow> mget old)
                (AnnotationAdopted rt \<mapsto> ''true'')"
  by (auto simp: MarkAdopted_def Let_def gm.get_put split: option.split)

text \<open>
  Adoption from the annotation. With the field \<open>globalNetworkID\<close> the resource gets this
  identifier and nothing else changes, and from then on \<open>sdkFind\<close> no longer answers
  \<open>NotFound\<close> without asking the service; without the field the error is terminal and the
  resource is left as it is.
\<close>

lemma adoption_sets_identifier:
  assumes "errors_lib_ok rt"
  shows "case mget adopted ''globalNetworkID'' of
      Some i \<Rightarrow> \<exists>g'. PopulateResourceFromAnnotation rt (Some \<lparr>ko = Some g\<rparr>) adopted =
          Ret (Some \<lparr>ko = Some g'\<rparr>, None) \<and> GlobalNetworkID (Status g') = Some i \<and>
        requiredFieldsMissingFromReadManyInput \<lparr>ko = Some g'\<rparr> = Ret False \<and>
        Spec g' = Spec g \<and> ObjectMeta g' = ObjectMeta g \<and> metadata_of g' = metadata_of g
    | None \<Rightarrow> \<exists>e. PopulateResourceFromAnnotation rt (Some \<lparr>ko = Some g\<rparr>) adopted =
          Ret (Some \<lparr>ko = Some g\<rparr>, Some e) \<and> is_terminal rt (Some e)"
  using assms
  by (auto simp: PopulateResourceFromAnnotation_def set_network_id_def metadata_of_def
      requiredFieldsMissingFromReadManyInput_def is_terminal_def named_terminal_def errors_lib_ok_def
      split: option.split)

text \<open>
  \<open>SetIdentifiers\<close> refuses the empty identifier, leaving the resource alone, and otherwise
  stores it where \<open>newListRequestPayload\<close> and the other payloads read it.
\<close>

lemma set_identifiers_selects:
  "SetIdentifiers rt (Some \<lparr>ko = Some g\<rparr>) (Some ids) =
     (if NameOrID ids = '''' then Ret (Some \<lparr>ko = Some g\<rparr>, Some (MissingNameIdentifier rt))
      else Ret (Some \<lparr>ko = Some (set_network_id (NameOrID ids) g)\<rparr>, None)) \<and>
   newListRequestPayload \<lparr>ko = Some (set_network_id (NameOrID ids) g)\<rparr> =
     Ret (\<lparr>GlobalNetworkIds = Some [NameOrID ids]\<rparr>, None :: 'e option) \<and>
   newDeleteRequestPayload \<lparr>ko = Some (set_network_id (NameOrID ids) g)\<rparr> =
     Ret (\<lparr>delete_GlobalNetworkId = Some (NameOrID ids)\<rparr>, None :: 'e option)"
  by (simp add: SetIdentifiers_def newListRequestPayload_def newDeleteRequestPayload_def set_network_id_def)

end
