(* ===== verification/ManagerFactory.thy ===== *)
theory ManagerFactory
  imports Manager
begin

text \<open>
  \<open>pkg/resource/global_network/manager_factory.go\<close>: the factory that hands out resource
  managers and caches them by account, region and role. \<open>ManagerFor\<close> is modelled twice: as
  one call that runs alone, and as the steps that concurrent calls take between the
  operations on the lock. The managers made so far are a list, a pointer to a manager is an
  index into it. \<open>cache_inv\<close> and \<open>lock_inv\<close> are the invariants of the reachable states; the
  properties at the end are about what the calls return, and about what the code does not
  exclude.
\<close>

section \<open>The cache key\<close>

definition rmId :: "string \<Rightarrow> string \<Rightarrow> string \<Rightarrow> string" where
  "rmId accountID region roleARN = accountID @ ''/'' @ region @ ''/'' @ roleARN"

lemma split_at_slash:
  assumes "CHR ''/'' \<notin> set a" and "CHR ''/'' \<notin> set b" and "a @ ''/'' @ x = b @ ''/'' @ y"
  shows "a = b \<and> x = y"
proof -
  have take: "takeWhile (\<lambda>c. c \<noteq> CHR ''/'') (u @ ''/'' @ v) = u" if "CHR ''/'' \<notin> set u" for u v :: string
    using that by (induction u) auto
  from arg_cong [OF assms(3), of "takeWhile (\<lambda>c. c \<noteq> CHR ''/'')"] have "a = b"
    by (simp only: take [OF assms(1)] take [OF assms(2)])
  with assms(3) show ?thesis by simp
qed

lemma rmId_inject:
  assumes "CHR ''/'' \<notin> set i" "CHR ''/'' \<notin> set i'" "CHR ''/'' \<notin> set r" "CHR ''/'' \<notin> set r'"
  shows "rmId i r a = rmId i' r' a' \<longleftrightarrow> i = i' \<and> r = r' \<and> a = a'"
  using split_at_slash [OF assms(1,2), of "r @ ''/'' @ a" "r' @ ''/'' @ a'"]
    split_at_slash [OF assms(3,4), of a a']
  unfolding rmId_def by blast

section \<open>One call\<close>

record request =
  req_cfg :: ack_config
  req_clientcfg :: string
  req_id :: string
  req_region :: string
  req_roleARN :: string

definition req_key :: "request \<Rightarrow> string" where
  "req_key q = rmId (req_id q) (req_region q) (req_roleARN q)"

record ('w, 'e) factory =
  rmCache :: "nat gomap"
  made :: "('w, 'e) resourceManager list"

definition newResourceManagerFactory :: "('w, 'e) factory" where
  "newResourceManagerFactory = \<lparr>rmCache = [], made = []\<rparr>"

definition manager_of ::
  "(string \<Rightarrow> ('w, 'e) svcsdk_Client) \<Rightarrow> request \<Rightarrow> ('w, 'e) resourceManager option \<times> 'e option" where
  "manager_of NewFromConfig q =
     newResourceManager NewFromConfig (req_cfg q) (req_clientcfg q) (req_id q) (req_region q)"

text \<open>The part of a call after the lock is taken: it makes a manager and stores it, without looking again.\<close>

definition make_manager ::
  "(string \<Rightarrow> ('w, 'e) svcsdk_Client) \<Rightarrow> request \<Rightarrow> ('w, 'e) factory \<Rightarrow>
   (nat option \<times> 'e option) \<times> ('w, 'e) factory" where
  "make_manager NewFromConfig q f =
     (case manager_of NewFromConfig q of
        (_, Some e) \<Rightarrow> ((None, Some e), f)
      | (None, None) \<Rightarrow> ((None, None), f)
      | (Some rm, None) \<Rightarrow>
          ((Some (length (made f)), None),
           f\<lparr>made := made f @ [rm], rmCache := mput (req_key q) (length (made f)) (rmCache f)\<rparr>))"

definition ManagerFor ::
  "(string \<Rightarrow> ('w, 'e) svcsdk_Client) \<Rightarrow> request \<Rightarrow> ('w, 'e) factory \<Rightarrow>
   (nat option \<times> 'e option) \<times> ('w, 'e) factory" where
  "ManagerFor NewFromConfig q f =
     (case mget (rmCache f) (req_key q) of
        Some rm \<Rightarrow> ((Some rm, None), f)
      | None \<Rightarrow> make_manager NewFromConfig q f)"

definition IsAdoptable :: bool where
  "IsAdoptable = True"

definition RequeueOnSuccessSeconds :: int where
  "RequeueOnSuccessSeconds = 0"

text \<open>The manager a request gets when one is made for it.\<close>

definition fresh_manager :: "(string \<Rightarrow> ('w, 'e) svcsdk_Client) \<Rightarrow> request \<Rightarrow> ('w, 'e) resourceManager" where
  "fresh_manager NewFromConfig q =
     \<lparr>cfg = req_cfg q, clientcfg = req_clientcfg q, awsAccountID = req_id q, awsRegion = req_region q,
      awsPartition = cfg_Partition (req_cfg q), sdkapi = NewFromConfig (req_clientcfg q)\<rparr>"

lemma make_manager_eq:
  "make_manager NFC q f = ((Some (length (made f)), None),
     f\<lparr>made := made f @ [fresh_manager NFC q], rmCache := mput (req_key q) (length (made f)) (rmCache f)\<rparr>)"
  by (simp add: make_manager_def manager_of_def newResourceManager_def fresh_manager_def)

section \<open>Concurrent calls\<close>

text \<open>
  Where a call is: before \<open>RLock\<close>, holding the read lock before and after the lookup,
  after \<open>RUnlock\<close> with nothing found, waiting in \<open>Lock\<close>, holding the lock before and after the
  work, returned. Every call \<open>t\<close> has its request \<open>req t\<close>. As Go's \<open>sync.RWMutex\<close> documents, a
  waiting \<open>Lock\<close> keeps new readers out: \<open>waiting\<close> is the call that has announced itself and waits
  for the readers to leave; another writer waits until that one has unlocked.
\<close>

datatype pc = Start | Reading | Looked "nat option" | Missed | Waiting | Locked | Made "nat option"
  | Returned "nat option"

record ('w, 'e) system =
  fac :: "('w, 'e) factory"
  readers :: "nat set"
  waiting :: "nat option"
  writer :: "nat option"
  pcs :: "nat \<Rightarrow> pc"

definition init_system :: "('w, 'e) system" where
  "init_system = \<lparr>fac = newResourceManagerFactory, readers = {}, waiting = None, writer = None,
     pcs = (\<lambda>_. Start)\<rparr>"

inductive step ::
  "(string \<Rightarrow> ('w, 'e) svcsdk_Client) \<Rightarrow> (nat \<Rightarrow> request) \<Rightarrow> ('w, 'e) system \<Rightarrow> ('w, 'e) system \<Rightarrow> bool"
  for NewFromConfig :: "string \<Rightarrow> ('w, 'e) svcsdk_Client" and req :: "nat \<Rightarrow> request" where
  rlock: "pcs s t = Start \<Longrightarrow> writer s = None \<Longrightarrow> waiting s = None \<Longrightarrow>
    step NewFromConfig req s (s\<lparr>readers := insert t (readers s), pcs := (pcs s)(t := Reading)\<rparr>)"
| lookup: "pcs s t = Reading \<Longrightarrow>
    step NewFromConfig req s (s\<lparr>pcs := (pcs s)(t := Looked (mget (rmCache (fac s)) (req_key (req t))))\<rparr>)"
| hit: "pcs s t = Looked (Some rm) \<Longrightarrow>
    step NewFromConfig req s (s\<lparr>readers := readers s - {t}, pcs := (pcs s)(t := Returned (Some rm))\<rparr>)"
| miss: "pcs s t = Looked None \<Longrightarrow>
    step NewFromConfig req s (s\<lparr>readers := readers s - {t}, pcs := (pcs s)(t := Missed)\<rparr>)"
| announce: "pcs s t = Missed \<Longrightarrow> writer s = None \<Longrightarrow> waiting s = None \<Longrightarrow>
    step NewFromConfig req s (s\<lparr>waiting := Some t, pcs := (pcs s)(t := Waiting)\<rparr>)"
| lock: "pcs s t = Waiting \<Longrightarrow> readers s = {} \<Longrightarrow>
    step NewFromConfig req s (s\<lparr>waiting := None, writer := Some t, pcs := (pcs s)(t := Locked)\<rparr>)"
| create: "pcs s t = Locked \<Longrightarrow> make_manager NewFromConfig (req t) (fac s) = ((rm, err), f) \<Longrightarrow>
    step NewFromConfig req s (s\<lparr>fac := f, pcs := (pcs s)(t := Made rm)\<rparr>)"
| unlock: "pcs s t = Made rm \<Longrightarrow>
    step NewFromConfig req s (s\<lparr>writer := None, pcs := (pcs s)(t := Returned rm)\<rparr>)"

inductive reachable ::
  "(string \<Rightarrow> ('w, 'e) svcsdk_Client) \<Rightarrow> (nat \<Rightarrow> request) \<Rightarrow> ('w, 'e) system \<Rightarrow> bool"
  for NewFromConfig :: "string \<Rightarrow> ('w, 'e) svcsdk_Client" and req :: "nat \<Rightarrow> request" where
  initial: "reachable NewFromConfig req init_system"
| next_state: "reachable NewFromConfig req s \<Longrightarrow> step NewFromConfig req s s' \<Longrightarrow> reachable NewFromConfig req s'"

inductive_cases step_cases: "step NFC req s s'"

section \<open>The invariant\<close>

text \<open>A pointer to a manager that was made for some request with this key.\<close>

definition points_to ::
  "(string \<Rightarrow> ('w, 'e) svcsdk_Client) \<Rightarrow> (nat \<Rightarrow> request) \<Rightarrow> ('w, 'e) factory \<Rightarrow> string \<Rightarrow> nat \<Rightarrow> bool" where
  "points_to NFC req f key p \<longleftrightarrow> p < length (made f) \<and>
     (\<exists>t. req_key (req t) = key \<and> made f ! p = fresh_manager NFC (req t))"

text \<open>The result a call holds, if it holds one.\<close>

fun holds :: "pc \<Rightarrow> nat option \<Rightarrow> bool" where
  "holds (Looked (Some p)) r = (r = Some p)"
| "holds (Made p) r = (r = p)"
| "holds (Returned p) r = (r = p)"
| "holds _ r = False"

definition reading :: "pc \<Rightarrow> bool" where
  "reading c \<longleftrightarrow> c = Reading \<or> (\<exists>p. c = Looked p)"

definition writing :: "pc \<Rightarrow> bool" where
  "writing c \<longleftrightarrow> c = Locked \<or> (\<exists>p. c = Made p)"

definition cache_inv ::
  "(string \<Rightarrow> ('w, 'e) svcsdk_Client) \<Rightarrow> (nat \<Rightarrow> request) \<Rightarrow> ('w, 'e) system \<Rightarrow> bool" where
  "cache_inv NFC req s \<longleftrightarrow>
     (\<forall>key p. mget (rmCache (fac s)) key = Some p \<longrightarrow> points_to NFC req (fac s) key p) \<and>
     (\<forall>t r. holds (pcs s t) r \<longrightarrow>
        (\<exists>p. r = Some p \<and> points_to NFC req (fac s) (req_key (req t)) p) \<and>
        mget (rmCache (fac s)) (req_key (req t)) \<noteq> None)"

definition lock_inv :: "('w, 'e) system \<Rightarrow> bool" where
  "lock_inv s \<longleftrightarrow> (\<forall>t. t \<in> readers s \<longleftrightarrow> reading (pcs s t)) \<and>
     (\<forall>t. writer s = Some t \<longleftrightarrow> writing (pcs s t)) \<and> (\<forall>t. waiting s = Some t \<longleftrightarrow> pcs s t = Waiting) \<and>
     (writer s \<noteq> None \<longrightarrow> readers s = {} \<and> waiting s = None)"

lemma pc_simps [simp]:
  "\<not> reading Start" "reading Reading" "reading (Looked p)" "\<not> reading Missed" "\<not> reading Waiting" "\<not> reading Locked"
  "\<not> reading (Made p)" "\<not> reading (Returned p)" "\<not> writing Start" "\<not> writing Reading"
  "\<not> writing (Looked p)" "\<not> writing Missed" "\<not> writing Waiting" "writing Locked" "writing (Made p)" "\<not> writing (Returned p)"
  by (auto simp: reading_def writing_def)

lemma points_to_mono:
  "points_to NFC req f key p \<Longrightarrow> points_to NFC req (f\<lparr>made := made f @ [m], rmCache := c\<rparr>) key p"
  by (auto simp: points_to_def nth_append)

lemma points_to_new:
  "points_to NFC req (f\<lparr>made := made f @ [fresh_manager NFC (req t)], rmCache := c\<rparr>)
     (req_key (req t)) (length (made f))"
  by (auto simp: points_to_def)

lemma lock_invD:
  assumes "lock_inv s"
  shows "reading (pcs s t) \<longleftrightarrow> t \<in> readers s" and "writing (pcs s t) \<longleftrightarrow> writer s = Some t"
    and "pcs s t = Waiting \<longleftrightarrow> waiting s = Some t" and "writer s \<noteq> None \<Longrightarrow> readers s = {} \<and> waiting s = None"
  using assms by (simp_all add: lock_inv_def)

text \<open>A step of the call \<open>t\<close> to \<open>c\<close> keeps the lock if the lock after it says of \<open>t\<close> what \<open>c\<close> says.\<close>

lemma lock_inv_pc:
  assumes "lock_inv s" and "pcs s' = (pcs s)(t := c)"
    and "readers s' - {t} = readers s - {t}" and "\<And>u. u \<noteq> t \<Longrightarrow> writer s' = Some u \<longleftrightarrow> writer s = Some u"
    and "\<And>u. u \<noteq> t \<Longrightarrow> waiting s' = Some u \<longleftrightarrow> waiting s = Some u"
    and "t \<in> readers s' \<longleftrightarrow> reading c" and "writer s' = Some t \<longleftrightarrow> writing c" and "waiting s' = Some t \<longleftrightarrow> c = Waiting"
    and "writer s' \<noteq> None \<Longrightarrow> readers s' = {} \<and> waiting s' = None"
  shows "lock_inv s'"
proof -
  have "(u \<in> readers s' \<longleftrightarrow> reading (pcs s' u)) \<and> (writer s' = Some u \<longleftrightarrow> writing (pcs s' u)) \<and>
      (waiting s' = Some u \<longleftrightarrow> pcs s' u = Waiting)" for u
  proof (cases "u = t")
    case False
    then have "u \<in> readers s' \<longleftrightarrow> u \<in> readers s" using assms(3) by blast
    with False show ?thesis by (simp add: assms(2,4,5) lock_invD [OF assms(1)])
  qed (simp add: assms(2,6-8))
  with assms(9) show ?thesis by (simp add: lock_inv_def)
qed

lemma lock_inv_step:
  assumes "step NFC req s s'" and inv: "lock_inv s"
  shows "lock_inv s'"
proof -
  have at: "(t \<in> readers s \<longleftrightarrow> reading c) \<and> (writer s = Some t \<longleftrightarrow> writing c) \<and> (waiting s = Some t \<longleftrightarrow> c = Waiting)"
    if "pcs s t = c" for t c
    using lock_invD(1-3) [OF inv, of t] that by simp
  note one = lock_invD(4) [OF inv]
  show ?thesis using assms(1)
  proof cases
    case (rlock t) from at [OF rlock(2)] rlock show ?thesis by (intro lock_inv_pc [OF inv, of s' t Reading]) auto
  next
    case (lookup t)
    from at [OF lookup(2)] lookup one show ?thesis by (intro lock_inv_pc [OF inv, of s' t]) auto
  next
    case (hit t rm)
    from at [OF hit(2)] hit one show ?thesis by (intro lock_inv_pc [OF inv, of s' t]) auto
  next
    case (miss t)
    from at [OF miss(2)] miss one show ?thesis by (intro lock_inv_pc [OF inv, of s' t Missed]) auto
  next
    case (announce t)
    from at [OF announce(2)] announce show ?thesis by (intro lock_inv_pc [OF inv, of s' t Waiting]) auto
  next
    case (lock t)
    from at [OF lock(2)] lock one show ?thesis by (intro lock_inv_pc [OF inv, of s' t Locked]) auto
  next
    case (create t rm err f)
    from at [OF create(2)] create one show ?thesis by (intro lock_inv_pc [OF inv, of s' t "Made rm"]) auto
  next
    case (unlock t rm)
    from at [OF unlock(2)] unlock one show ?thesis by (intro lock_inv_pc [OF inv, of s' t]) auto
  qed
qed

lemma holds_Looked [simp]: "holds (Looked x) r \<longleftrightarrow> x = r \<and> r \<noteq> None"
  by (cases x) auto

text \<open>A step that leaves the cache alone and gives the call no result it did not find there.\<close>

lemma cache_inv_pc:
  assumes "cache_inv NFC req s" and "fac s' = fac s" and "pcs s' = (pcs s)(t := c)"
    and "\<And>r. holds c r \<Longrightarrow>
      holds (pcs s t) r \<or> r \<noteq> None \<and> mget (rmCache (fac s)) (req_key (req t)) = r"
  shows "cache_inv NFC req s'"
proof -
  have cached: "points_to NFC req (fac s) key p" if "mget (rmCache (fac s)) key = Some p" for key p
    using assms(1) that by (simp add: cache_inv_def)
  have held: "(\<exists>p. r = Some p \<and> points_to NFC req (fac s) (req_key (req u)) p) \<and>
      mget (rmCache (fac s)) (req_key (req u)) \<noteq> None" if "holds (pcs s u) r" for u r
    using assms(1) that by (simp add: cache_inv_def)
  have "(\<exists>p. r = Some p \<and> points_to NFC req (fac s) (req_key (req u)) p) \<and>
      mget (rmCache (fac s)) (req_key (req u)) \<noteq> None" if "holds (((pcs s)(t := c)) u) r" for u r
  proof (cases "u = t")
    case True
    with that assms(4) [of r] held [of t r] cached show ?thesis by auto
  next
    case False
    with that held [of u r] show ?thesis by simp
  qed
  with cached show ?thesis by (simp add: cache_inv_def assms(2,3))
qed

lemma cache_inv_step:
  assumes "step NFC req s s'" and inv: "cache_inv NFC req s"
  shows "cache_inv NFC req s'"
  using assms(1)
proof cases
  case (create t rm err f)
  then have f: "rm = Some (length (made (fac s)))"
    "f = (fac s)\<lparr>made := made (fac s) @ [fresh_manager NFC (req t)],
       rmCache := mput (req_key (req t)) (length (made (fac s))) (rmCache (fac s))\<rparr>"
    by (simp_all add: make_manager_eq)
  have cached: "points_to NFC req f key p" if "mget (rmCache f) key = Some p" for key p
  proof (cases "key = req_key (req t)")
    case True
    with that show ?thesis using points_to_new [where f = "fac s" and t = t] by (simp add: f(2) gm.get_put)
  next
    case False
    with that inv have "points_to NFC req (fac s) key p" by (simp add: f(2) gm.get_put cache_inv_def)
    then show ?thesis unfolding f(2) by (rule points_to_mono)
  qed
  have held: "(\<exists>p. r = Some p \<and> points_to NFC req f (req_key (req u)) p) \<and>
      mget (rmCache f) (req_key (req u)) \<noteq> None" if "holds (((pcs s)(t := Made rm)) u) r" for u r
  proof (cases "u = t")
    case True
    with that show ?thesis
      using points_to_new [where f = "fac s" and t = t] by (simp add: f gm.get_put)
  next
    case False
    with that inv obtain p where "r = Some p" "points_to NFC req (fac s) (req_key (req u)) p"
      "mget (rmCache (fac s)) (req_key (req u)) \<noteq> None"
      unfolding cache_inv_def by (metis fun_upd_other)
    moreover from this(2) have "points_to NFC req f (req_key (req u)) p" unfolding f(2) by (rule points_to_mono)
    ultimately show ?thesis by (auto simp: f(2) gm.get_put)
  qed
  show ?thesis using cached held by (simp add: cache_inv_def create(1))
qed (rule cache_inv_pc [OF inv], simp, simp, force)+

lemma reachable_inv:
  assumes "reachable NFC req s"
  shows "cache_inv NFC req s \<and> lock_inv s"
  using assms
proof induction
  case initial
  show ?case by (simp add: cache_inv_def lock_inv_def init_system_def newResourceManagerFactory_def)
next
  case (next_state s s')
  then show ?case using cache_inv_step lock_inv_step by blast
qed

section \<open>Progress\<close>

text \<open>Calls ordered by how far they have come.\<close>

fun progress :: "pc \<Rightarrow> nat" where
  "progress Start = 0"
| "progress Reading = 1"
| "progress (Looked p) = 2"
| "progress Missed = 3"
| "progress Waiting = 4"
| "progress Locked = 5"
| "progress (Made p) = 6"
| "progress (Returned p) = 7"

instantiation pc :: preorder
begin

definition less_eq_pc :: "pc \<Rightarrow> pc \<Rightarrow> bool" where
  "less_eq_pc a b \<longleftrightarrow> progress a \<le> progress b"

definition less_pc :: "pc \<Rightarrow> pc \<Rightarrow> bool" where
  "less_pc a b \<longleftrightarrow> progress a < progress b"

instance
  by standard (auto simp: less_eq_pc_def less_pc_def)

end

lemma progress_bound: "progress c \<le> 7"
  by (cases c) simp_all

text \<open>A step moves one call, and moves it forward.\<close>

lemma step_moves:
  assumes "step NFC req s s'"
  obtains t where "pcs s t < pcs s' t" and "\<And>u. u \<noteq> t \<Longrightarrow> pcs s' u = pcs s u"
proof -
  have "\<exists>t c. pcs s' = (pcs s)(t := c) \<and> pcs s t < c"
    using assms by (elim step_cases; intro exI conjI) (auto simp: less_pc_def)
  then obtain t c where "pcs s' = (pcs s)(t := c)" "pcs s t < c" by blast
  then show ?thesis by (intro that [of t]) simp_all
qed

lemma steps_forward:
  assumes "(step NFC req ^^ n) s s'"
  shows "pcs s u \<le> pcs s' u"
  using assms
proof (induction n arbitrary: s')
  case (Suc n)
  then obtain q where q: "(step NFC req ^^ n) s q" "step NFC req q s'" by auto
  obtain t where "pcs q t < pcs s' t" "\<And>u. u \<noteq> t \<Longrightarrow> pcs s' u = pcs q u"
    by (rule step_moves [OF q(2)], rule that)
  then have "pcs q u \<le> pcs s' u" by (cases "u = t") (auto intro: less_imp_le)
  with Suc.IH [OF q(1)] show ?case by (rule order_trans)
qed simp

lemma steps_progress:
  assumes "(step NFC req ^^ n) s s'" and "finite T" and "\<And>u. u \<notin> T \<Longrightarrow> pcs s' u = pcs s u"
  shows "(\<Sum>t \<in> T. progress (pcs s t)) + n \<le> (\<Sum>t \<in> T. progress (pcs s' t))"
  using assms(1,3)
proof (induction n arbitrary: s')
  case (Suc n)
  then obtain q where q: "(step NFC req ^^ n) s q" "step NFC req q s'" by auto
  obtain t where t: "pcs q t < pcs s' t" and other: "\<And>u. u \<noteq> t \<Longrightarrow> pcs s' u = pcs q u"
    by (rule step_moves [OF q(2)], rule that)
  have T: "t \<in> T"
  proof (rule ccontr)
    assume "t \<notin> T"
    with Suc.prems(2) t have "pcs q t < pcs s t" by simp
    with steps_forward [OF q(1), of t] show False by (simp add: less_pc_def less_eq_pc_def)
  qed
  then have "pcs q u = pcs s u" if "u \<notin> T" for u
    using Suc.prems(2) [OF that] other [of u] that by metis
  note le = Suc.IH [OF q(1) this]
  have "(\<Sum>t \<in> T. progress (pcs q t)) < (\<Sum>t \<in> T. progress (pcs s' t))"
  proof (rule sum_strict_mono_ex1)
    show "\<forall>u \<in> T. progress (pcs q u) \<le> progress (pcs s' u)"
      using t other by (metis less_pc_def less_imp_le order_refl)
    show "\<exists>u \<in> T. progress (pcs q u) < progress (pcs s' u)"
      using T t by (auto simp: less_pc_def)
  qed (rule assms(2))
  with le show ?case by simp
qed simp

section \<open>Properties\<close>

lemma points_to_unique_key:
  assumes "points_to NFC req f (req_key (req t)) p"
    and "\<And>u. CHR ''/'' \<notin> set (req_id (req u)) \<and> CHR ''/'' \<notin> set (req_region (req u))"
  obtains u where "made f ! p = fresh_manager NFC (req u)" and "p < length (made f)"
    and "req_id (req u) = req_id (req t)" and "req_region (req u) = req_region (req t)"
    and "req_roleARN (req u) = req_roleARN (req t)"
proof -
  obtain u where u: "p < length (made f)" "req_key (req u) = req_key (req t)"
    "made f ! p = fresh_manager NFC (req u)"
    using assms(1) by (auto simp: points_to_def)
  moreover have "req_id (req u) = req_id (req t) \<and> req_region (req u) = req_region (req t) \<and>
      req_roleARN (req u) = req_roleARN (req t)"
    using u(2) assms(2) by (simp add: req_key_def rmId_inject)
  ultimately show ?thesis using that by blast
qed

text \<open>
  C16: every call that returns gets a manager, without error, that was made for its account,
  region and role, whatever calls ran beside it and in whatever order their steps came, if no
  account and no region of a request contains a slash (the key separates the three by slashes; account numbers and
  names of regions contain none).
\<close>

theorem returned_manager_fits:
  assumes "reachable NFC req s" and "pcs s t = Returned r"
    and "\<And>u. CHR ''/'' \<notin> set (req_id (req u)) \<and> CHR ''/'' \<notin> set (req_region (req u))"
  shows "\<exists>p u. r = Some p \<and> p < length (made (fac s)) \<and> made (fac s) ! p = fresh_manager NFC (req u) \<and>
    awsAccountID (made (fac s) ! p) = req_id (req t) \<and> awsRegion (made (fac s) ! p) = req_region (req t) \<and>
    req_roleARN (req u) = req_roleARN (req t)"
proof -
  have "cache_inv NFC req s" using reachable_inv [OF assms(1)] by simp
  then obtain p where p: "r = Some p" "points_to NFC req (fac s) (req_key (req t)) p"
    using assms(2) unfolding cache_inv_def by (metis holds.simps(3))
  show ?thesis
    by (rule points_to_unique_key [OF p(2) assms(3)]) (auto simp: p(1) fresh_manager_def)
qed

text \<open>
  The lock protects the cache. In no reachable state are two calls between taking and
  releasing the lock, nor a call there while another holds the read lock.
\<close>

lemma cache_writers_exclusive:
  assumes "reachable NFC req s" and "writing (pcs s t)"
  shows "\<not> reading (pcs s u) \<and> (writing (pcs s u) \<longrightarrow> u = t)"
proof -
  have inv: "lock_inv s" using reachable_inv [OF assms(1)] by simp
  have "writer s = Some t" using lock_invD(2) [OF inv, of t] assms(2) by simp
  then show ?thesis using lock_invD(1,2) [OF inv, of u] lock_invD(4) [OF inv] by auto
qed

text \<open>A call that holds the lock can go on; so can the one that waits for it once no reader is left.\<close>

lemma holder_moves:
  assumes "reading (pcs s u) \<or> writing (pcs s u)"
  shows "\<exists>s'. step NFC req s s' \<and> pcs s u < pcs s' u"
proof (cases "pcs s u")
  case Reading
  show ?thesis by (rule exI, rule conjI, rule lookup [OF Reading]) (simp add: less_pc_def Reading)
next
  case (Looked p)
  show ?thesis
  proof (cases p)
    case None
    with Looked have m: "pcs s u = Looked None" by simp
    show ?thesis by (rule exI, rule conjI, rule miss [OF m]) (simp add: less_pc_def m)
  next
    case (Some rm)
    with Looked have h: "pcs s u = Looked (Some rm)" by simp
    show ?thesis by (rule exI, rule conjI, rule hit [OF h]) (simp add: less_pc_def h)
  qed
next
  case Locked
  show ?thesis by (rule exI, rule conjI, rule create [OF Locked make_manager_eq]) (simp add: less_pc_def Locked)
next
  case (Made rm)
  show ?thesis by (rule exI, rule conjI, rule unlock [OF Made]) (simp add: less_pc_def Made)
qed (use assms in simp_all)

lemma waiter_moves:
  assumes w: "pcs s u = Waiting" and "readers s = {}"
  shows "\<exists>s'. step NFC req s s' \<and> pcs s u < pcs s' u"
  by (rule exI, rule conjI, rule lock [OF assms]) (simp add: less_pc_def w)

lemma outsider_moves:
  assumes "pcs s u = Start \<or> pcs s u = Missed" and free: "writer s = None" "waiting s = None"
  shows "\<exists>s'. step NFC req s s' \<and> pcs s u < pcs s' u"
  using assms(1)
proof
  assume st: "pcs s u = Start"
  show ?thesis by (rule exI, rule conjI, rule rlock [OF st free]) (simp add: less_pc_def st)
next
  assume mi: "pcs s u = Missed"
  show ?thesis by (rule exI, rule conjI, rule announce [OF mi free]) (simp add: less_pc_def mi)
qed

lemma some_call_moves:
  assumes "lock_inv s" and "\<And>r. pcs s t \<noteq> Returned r"
  shows "\<exists>u s'. (u = t \<or> reading (pcs s u) \<or> writing (pcs s u) \<or> pcs s u = Waiting) \<and>
    step NFC req s s' \<and> pcs s u < pcs s' u"
proof (cases "\<exists>u. reading (pcs s u) \<or> writing (pcs s u)")
  case True
  with holder_moves show ?thesis by blast
next
  case False
  note inv = assms(1)
  have "t \<notin> readers s" "writer s \<noteq> Some t" for t
    using False lock_invD(1,2) [OF inv, of t] by blast+
  then have free: "writer s = None" "readers s = {}" by (cases "writer s", auto)
  show ?thesis
  proof (cases "waiting s")
    case None
    have "\<not> reading (pcs s t)" "\<not> writing (pcs s t)" "pcs s t \<noteq> Waiting"
      using False lock_invD(3) [OF inv, of t] None by simp_all
    then have "pcs s t = Start \<or> pcs s t = Missed" using assms(2) by (cases "pcs s t") auto
    with outsider_moves [OF _ free(1) None] show ?thesis by blast
  next
    case (Some u)
    then have "pcs s u = Waiting" using lock_invD(3) [OF inv, of u] by simp
    with waiter_moves [OF _ free(2)] show ?thesis by blast
  qed
qed

text \<open>
  C29: calls do not deadlock. A call that has not returned can take a step itself, or some call
  that holds the lock or waits for it can.
\<close>

theorem calls_do_not_deadlock:
  assumes "reachable NFC req s" and "\<And>r. pcs s t \<noteq> Returned r"
  shows "\<exists>u s'. (u = t \<or> reading (pcs s u) \<or> writing (pcs s u) \<or> pcs s u = Waiting) \<and>
    step NFC req s s' \<and> pcs s u < pcs s' u"
  using reachable_inv [OF assms(1)] by (intro some_call_moves assms(2)) simp

definition unlocked :: "('w, 'e) system \<Rightarrow> bool" where
  "unlocked s \<longleftrightarrow> writer s = None \<and> waiting s = None \<and> readers s = {}"

lemma reachable_steps: "(step NFC req)\<^sup>*\<^sup>* s s' \<Longrightarrow> reachable NFC req s \<Longrightarrow> reachable NFC req s'"
  by (induction rule: rtranclp_induct) (auto intro: next_state)

text \<open>When all calls have returned or not begun, the lock is free.\<close>

lemma at_rest_unlocked:
  assumes "lock_inv s" and "\<And>u. pcs s u = Start \<or> (\<exists>r. pcs s u = Returned r)"
  shows "unlocked s"
proof -
  have "\<not> reading (pcs s u) \<and> \<not> writing (pcs s u) \<and> pcs s u \<noteq> Waiting" for u using assms(2) [of u] by auto
  then have "u \<notin> readers s" "writer s \<noteq> Some u" "waiting s \<noteq> Some u" for u
    using lock_invD(1-3) [OF assms(1), of u] by blast+
  then show ?thesis by (cases "writer s"; cases "waiting s") (auto simp: unlocked_def)
qed

text \<open>
  C30: every call returns. A run from the beginning in which the calls of a finite set take part has at most
  seven steps for each of them. As long as one of these calls has not returned, the run can be continued by a
  step of one of them; so it cannot but end, and when it does, all of them have
  returned a manager, one is cached under the key of each, and nobody holds the lock or waits for it.
\<close>

theorem calls_return:
  assumes "(step NFC req ^^ n) init_system s" and "finite T" and "\<And>u. u \<notin> T \<Longrightarrow> pcs s u = Start"
  shows "n \<le> 7 * card T \<and>
    ((\<exists>s'. step NFC req s s' \<and> (\<forall>u. u \<notin> T \<longrightarrow> pcs s' u = Start)) \<or>
     unlocked s \<and> (\<forall>t \<in> T. (\<exists>p. pcs s t = Returned (Some p)) \<and> mget (rmCache (fac s)) (req_key (req t)) \<noteq> None))"
proof
  have "(\<Sum>t \<in> T. progress (pcs s t)) \<le> (\<Sum>t \<in> T. 7)" by (rule sum_mono) (rule progress_bound)
  moreover have "pcs s u = pcs init_system u" if "u \<notin> T" for u using assms(3) [OF that] by (simp add: init_system_def)
  ultimately show "n \<le> 7 * card T" using steps_progress [OF assms(1,2)] by fastforce
  have "reachable NFC req s"
    using reachable_steps [OF relpowp_imp_rtranclp [OF assms(1)] initial] .
  then have inv: "cache_inv NFC req s" "lock_inv s" using reachable_inv by blast+
  show "(\<exists>s'. step NFC req s s' \<and> (\<forall>u. u \<notin> T \<longrightarrow> pcs s' u = Start)) \<or>
     unlocked s \<and> (\<forall>t \<in> T. (\<exists>p. pcs s t = Returned (Some p)) \<and> mget (rmCache (fac s)) (req_key (req t)) \<noteq> None)"
  proof (cases "\<forall>t \<in> T. \<exists>r. pcs s t = Returned r")
    case True
    then have "unlocked s" using at_rest_unlocked [OF inv(2)] assms(3) by blast
    moreover have "(\<exists>p. pcs s t = Returned (Some p)) \<and> mget (rmCache (fac s)) (req_key (req t)) \<noteq> None" if "t \<in> T" for t
      using True that inv(1) unfolding cache_inv_def by (metis holds.simps(3))
    ultimately show ?thesis by blast
  next
    case False
    then obtain t where t: "t \<in> T" "\<And>r. pcs s t \<noteq> Returned r" by blast
    obtain u s' where u: "u = t \<or> reading (pcs s u) \<or> writing (pcs s u) \<or> pcs s u = Waiting"
      and step: "step NFC req s s'" "pcs s u < pcs s' u"
      using some_call_moves [OF inv(2) t(2)] by blast
    have "u \<in> T" using u t(1) assms(3) [of u] by (cases "u \<in> T") auto
    obtain v where v: "pcs s v < pcs s' v" and other: "\<And>x. x \<noteq> v \<Longrightarrow> pcs s' x = pcs s x"
      by (rule step_moves [OF step(1)], rule that)
    have "v = u" using other [of u] step(2) by (cases "u = v") (simp_all add: less_pc_def)
    with other \<open>u \<in> T\<close> assms(3) have "\<forall>x. x \<notin> T \<longrightarrow> pcs s' x = Start" by metis
    with step(1) show ?thesis by blast
  qed
qed

text \<open>
  A call that runs alone makes a manager only for a key that is not cached, and a second
  call with the same account, region and role gets the same manager, whatever configuration
  it brings, and changes nothing.
\<close>

lemma manager_for_caches:
  "case ManagerFor NFC q f of ((r, err), f') \<Rightarrow>
     err = None \<and> r \<noteq> None \<and> mget (rmCache f') (req_key q) = r \<and>
     length (made f') = length (made f) + (if mget (rmCache f) (req_key q) = None then 1 else 0) \<and>
     ManagerFor NFC (q\<lparr>req_cfg := conf, req_clientcfg := clientconf\<rparr>) f' = ((r, None), f')"
  by (auto simp: ManagerFor_def make_manager_eq gm.get_put req_key_def split: option.split)

text \<open>
  A call that nobody disturbs, in two parts: the lookup that finds nothing, and the work under
  the lock. Together with a lookup that finds a manager they make the whole call.
\<close>

lemmas more_steps = rtranclp.rtrancl_into_rtrancl [where r = "step NFC req" for NFC req]

lemma look_run:
  assumes "pcs s t = Start" and "unlocked s"
  shows "(step NFC req)\<^sup>*\<^sup>* s (s\<lparr>readers := {t},
    pcs := (pcs s)(t := Looked (mget (rmCache (fac s)) (req_key (req t))))\<rparr>)"
proof -
  have 1: "step NFC req s (s\<lparr>readers := {t}, pcs := (pcs s)(t := Reading)\<rparr>)"
    using rlock [of s t NFC req] assms by (simp add: unlocked_def)
  show ?thesis
    by (rule more_steps [OF more_steps [OF rtranclp.rtrancl_refl 1]])
      (use lookup [of "s\<lparr>readers := {t}, pcs := (pcs s)(t := Reading)\<rparr>" t NFC req] in simp)
qed

lemma miss_run:
  assumes "pcs s t = Start" and "unlocked s" and "mget (rmCache (fac s)) (req_key (req t)) = None"
  shows "(step NFC req)\<^sup>*\<^sup>* s (s\<lparr>pcs := (pcs s)(t := Missed)\<rparr>)"
  by (rule more_steps [OF look_run [OF assms(1,2)]])
    (use miss [of "s\<lparr>readers := {t}, pcs := (pcs s)(t := Looked None)\<rparr>" t NFC req] assms(2,3)
      in \<open>cases s, simp add: unlocked_def\<close>)

lemma hit_run:
  assumes "pcs s t = Start" and "unlocked s" and "mget (rmCache (fac s)) (req_key (req t)) = Some p"
  shows "(step NFC req)\<^sup>*\<^sup>* s (s\<lparr>pcs := (pcs s)(t := Returned (Some p))\<rparr>)"
  by (rule more_steps [OF look_run [OF assms(1,2)]])
    (use hit [of "s\<lparr>readers := {t}, pcs := (pcs s)(t := Looked (Some p))\<rparr>" t p NFC req] assms(2,3)
      in \<open>cases s, simp add: unlocked_def\<close>)

lemma make_run:
  assumes "pcs s t = Missed" and "unlocked s"
  shows "(step NFC req)\<^sup>*\<^sup>* s (s\<lparr>fac := snd (make_manager NFC (req t) (fac s)),
    pcs := (pcs s)(t := Returned (Some (length (made (fac s)))))\<rparr>)"
proof -
  let ?r = "Some (length (made (fac s)))" and ?f = "snd (make_manager NFC (req t) (fac s))"
  let ?s1 = "s\<lparr>waiting := Some t, pcs := (pcs s)(t := Waiting)\<rparr>"
  let ?s2 = "?s1\<lparr>waiting := None, writer := Some t, pcs := (pcs ?s1)(t := Locked)\<rparr>"
  let ?s3 = "?s2\<lparr>fac := ?f, pcs := (pcs ?s2)(t := Made ?r)\<rparr>"
  let ?s4 = "?s3\<lparr>writer := None, pcs := (pcs ?s3)(t := Returned ?r)\<rparr>"
  have 1: "step NFC req s ?s1" using assms by (intro announce) (simp_all add: unlocked_def)
  have 2: "step NFC req ?s1 ?s2" using assms by (intro lock) (simp_all add: unlocked_def)
  have 3: "step NFC req ?s2 ?s3" by (rule create [where err = None]) (simp_all add: make_manager_eq)
  have 4: "step NFC req ?s3 ?s4" by (intro unlock) simp
  have "?s4 = s\<lparr>fac := ?f, pcs := (pcs s)(t := Returned ?r)\<rparr>"
    using assms(2) by (cases s) (simp add: unlocked_def)
  with more_steps [OF more_steps [OF more_steps [OF more_steps [OF rtranclp.rtrancl_refl 1] 2] 3] 4]
  show ?thesis by simp
qed

lemma unlocked_pcs [simp]: "unlocked (s\<lparr>pcs := c\<rparr>) = unlocked s" "unlocked (s\<lparr>fac := f\<rparr>) = unlocked s"
  by (simp_all add: unlocked_def)

lemma solo_run:
  assumes "pcs s t = Start" and "unlocked s"
  shows "(step NFC req)\<^sup>*\<^sup>* s (s\<lparr>fac := snd (ManagerFor NFC (req t) (fac s)),
    pcs := (pcs s)(t := Returned (fst (fst (ManagerFor NFC (req t) (fac s)))))\<rparr>)"
proof (cases "mget (rmCache (fac s)) (req_key (req t))")
  case None
  let ?s1 = "s\<lparr>pcs := (pcs s)(t := Missed)\<rparr>"
  have "(step NFC req)\<^sup>*\<^sup>* s ?s1" using assms None by (rule miss_run)
  moreover have "(step NFC req)\<^sup>*\<^sup>* ?s1 (s\<lparr>fac := snd (make_manager NFC (req t) (fac s)),
      pcs := (pcs s)(t := Returned (Some (length (made (fac s)))))\<rparr>)"
    using make_run [of ?s1 t NFC req] assms(2) by simp
  ultimately show ?thesis using None by (simp add: ManagerFor_def make_manager_eq)
next
  case (Some p)
  from assms Some have "(step NFC req)\<^sup>*\<^sup>* s (s\<lparr>pcs := (pcs s)(t := Returned (Some p))\<rparr>)" by (rule hit_run)
  with Some show ?thesis by (simp add: ManagerFor_def)
qed

text \<open>
  C33: the steps of a call that nobody disturbs add up to \<open>ManagerFor\<close>: from any state
  in which no lock is held, a call that has not started reaches its return with the result
  and the cache that \<open>ManagerFor\<close> computes.
\<close>

theorem steps_refine_manager_for:
  assumes "pcs s t = Start" and "writer s = None" and "waiting s = None" and "readers s = {}"
  shows "\<exists>s'. (step NFC req)\<^sup>*\<^sup>* s s' \<and>
    (case ManagerFor NFC (req t) (fac s) of ((r, err), f) \<Rightarrow>
       fac s' = f \<and> err = None \<and> pcs s' = (pcs s)(t := Returned r) \<and> writer s' = None \<and>
       waiting s' = None \<and> readers s' = {})"
proof -
  have "snd (fst (ManagerFor NFC (req t) (fac s))) = None"
    by (simp add: ManagerFor_def make_manager_eq split: option.split)
  then show ?thesis
    using solo_run [of s t NFC req] assms
    by (intro exI, intro conjI, simp add: unlocked_def) (simp add: case_prod_unfold)
qed

text \<open>
  C28: the cache does not keep calls from making two managers for one account, region and
  role: for any requests, two calls with the same key can both miss, and then each makes a
  manager of its own and returns it, the second replacing the first in the cache.
\<close>

theorem two_managers_for_one_key:
  assumes "t \<noteq> u" and "req_key (req t) = req_key (req u)"
  shows "\<exists>s p q. reachable NFC req s \<and> pcs s t = Returned (Some p) \<and> pcs s u = Returned (Some q) \<and>
    p \<noteq> q \<and> length (made (fac s)) = 2 \<and> mget (rmCache (fac s)) (req_key (req t)) = Some q"
proof -
  let ?s0 = "init_system :: ('a, 'b) system"
  let ?s1 = "?s0\<lparr>pcs := (pcs ?s0)(t := Missed)\<rparr>"
  let ?s2 = "?s1\<lparr>pcs := (pcs ?s1)(u := Missed)\<rparr>"
  let ?s3 = "?s2\<lparr>fac := snd (make_manager NFC (req t) (fac ?s2)),
    pcs := (pcs ?s2)(t := Returned (Some (length (made (fac ?s2)))))\<rparr>"
  let ?s4 = "?s3\<lparr>fac := snd (make_manager NFC (req u) (fac ?s3)),
    pcs := (pcs ?s3)(u := Returned (Some (length (made (fac ?s3)))))\<rparr>"
  have init: "unlocked ?s0" "pcs ?s0 x = Start" "mget (rmCache (fac ?s0)) k = None" for x k
    by (simp_all add: unlocked_def init_system_def newResourceManagerFactory_def)
  have "(step NFC req)\<^sup>*\<^sup>* ?s0 ?s1" by (rule miss_run) (simp_all add: init)
  moreover have "(step NFC req)\<^sup>*\<^sup>* ?s1 ?s2" using assms(1) by (intro miss_run) (simp_all add: init)
  moreover have "(step NFC req)\<^sup>*\<^sup>* ?s2 ?s3" using assms(1) by (intro make_run) (simp_all add: init)
  moreover have "(step NFC req)\<^sup>*\<^sup>* ?s3 ?s4" using assms(1) by (intro make_run) (simp_all add: init)
  ultimately have "(step NFC req)\<^sup>*\<^sup>* ?s0 ?s4" by (meson rtranclp_trans)
  then have "reachable NFC req ?s4" using initial by (rule reachable_steps)
  then show ?thesis
    by (intro exI [of _ ?s4] exI [of _ 0] exI [of _ 1])
      (use assms in \<open>simp add: init_system_def make_manager_eq newResourceManagerFactory_def gm.get_put\<close>)
qed

end
