(* ===== verification/ExampleService.thy ===== *)
theory ExampleService
  imports ResourceObject ManagerFactory
begin

text \<open>
  A concrete runtime and a concrete service, with which the witnesses of the properties
  run. \<open>example_rt\<close> gives every library function its simplest documented behaviour (errors
  are texts, a delta is the list of its paths); \<open>example_client\<close> keeps networks and tags in
  association lists. The lemmas show that they satisfy the hypotheses of the properties.
\<close>

section \<open>The runtime\<close>

definition example_rt :: "(string, string list) ack_runtime" where
  "example_rt = \<lparr>
     NotFound = ''not found'', Terminal = ''terminal'', SecretTypeNotSupported = ''secret type'',
     SecretNotFound = ''secret'', MissingNameIdentifier = ''missing name'',
     ErrorText = (\<lambda>e. e), Errorf = (\<lambda>s. s),
     AsAPIErrorCode = (\<lambda>e. if e \<in> set [''ValidationException'', ''ResourceNotFoundException'',
        ''ThrottlingException''] then Some e else None),
     AWSErrorText = (\<lambda>e. if e \<in> set [''ValidationException'', ''ResourceNotFoundException'',
        ''ThrottlingException''] then Some (e @ '': failed'') else None),
     IsTerminalError = (\<lambda>e. prefix ''terminal:'' e), NewTerminalError = (\<lambda>e. ''terminal:'' @ e),
     WrapPostCreateError = (\<lambda>e. ''post-create: '' @ e), NeededAfter = (\<lambda>_ _. ''requeue''),
     NewTags = [], MergeTags = (\<lambda>a b. fold (\<lambda>(k, v). mput k v) a b),
     GetDefaultTags = (\<lambda>_ _ md. [(''services.k8s.aws/controller-version'', md)]),
     HasNilDifference = (\<lambda>a b. (a = None) \<noteq> (b = None)),
     MapStringStringEqual = (\<lambda>a b. list_all (\<lambda>k. mget a k = mget b k) (mkeys a @ mkeys b)),
     NewDelta = [], DeltaAdd = (\<lambda>d p _ _. d @ [p]), DifferentAt = (\<lambda>d p. List.member d p),
     DifferentExcept = (\<lambda>d ps. list_ex (\<lambda>q. \<not> List.member ps q) d), InStrings = (\<lambda>s ss. List.member ss s),
     ConditionTypeTerminal = ''ACK.Terminal'', ConditionTypeRecoverable = ''ACK.Recoverable'',
     ConditionTypeResourceSynced = ''ACK.ResourceSynced'',
     SetLateInitialized = (\<lambda>r _ _ _. r), SetSynced = (\<lambda>r _ _ _. r),
     AnnotationAdopted = ''services.k8s.aws/adopted'',
     AddFinalizer = (\<lambda>m f. if List.member (finalizers_of m) f then m
        else m\<lparr>Finalizers := Some (finalizers_of m @ [f])\<rparr>),
     RemoveFinalizer = (\<lambda>m f. m\<lparr>Finalizers := Some (filter (\<lambda>x. x \<noteq> f) (finalizers_of m))\<rparr>),
     TimeIsZero = (\<lambda>t. t = None \<or> t = Some 0)\<rparr>"

lemma example_tags_lib: "tags_lib_ok example_rt"
proof -
  have "map_of (rev a) = mget a" if "mwf a" for a :: "string gomap"
    using that by (simp add: mget_def mwf_def map_of_rev_distinct)
  then show ?thesis
    by (auto simp: tags_lib_ok_def example_rt_def gm.fold_put gm.wf_fold_put)
      (simp add: mwf_def)
qed

lemma example_equal: "MapStringStringEqual example_rt a b \<longleftrightarrow> mget a = mget b"
proof -
  have "(\<forall>k \<in> set (mkeys a) \<union> set (mkeys b). mget a k = mget b k) \<longleftrightarrow> mget a = mget b"
    by (auto simp: fun_eq_iff gm.keys_get)
  then show ?thesis by (auto simp: example_rt_def list_all_iff)
qed

lemma example_compare_lib: "compare_lib_ok example_rt"
  by (auto simp: compare_lib_ok_def example_equal)
    (auto simp: example_rt_def list_ex_iff)

lemma example_errors_lib: "errors_lib_ok example_rt"
  by (simp add: errors_lib_ok_def example_rt_def)

lemma example_condition_types: "condition_types_ok example_rt"
  by (simp add: condition_types_ok_def example_rt_def)

lemma example_util_lib: "util_lib_ok example_rt"
  by (simp add: util_lib_ok_def example_rt_def)

lemma example_finalizer_lib: "finalizer_lib_ok example_rt"
proof -
  have "\<exists>fs. AddFinalizer example_rt m f = m\<lparr>Finalizers := fs\<rparr> \<and>
      set (elems fs) = insert f (set (finalizers_of m))" for m f
    by (cases "f \<in> set (finalizers_of m)")
      (rule exI [of _ "if f \<in> set (finalizers_of m) then Finalizers m else Some (finalizers_of m @ [f])"];
        auto simp: example_rt_def finalizers_of_def)+
  moreover have "\<exists>fs. RemoveFinalizer example_rt m f = m\<lparr>Finalizers := fs\<rparr> \<and>
      set (elems fs) = set (finalizers_of m) - {f}" for m f
    by (rule exI [of _ "Some (filter (\<lambda>x. x \<noteq> f) (finalizers_of m))"]) (auto simp: example_rt_def)
  ultimately show ?thesis by (simp add: finalizer_lib_ok_def)
qed

section \<open>The service\<close>

text \<open>The networks and the tags there are, and the identifiers of networks that were deleted.\<close>

record world =
  w_nets :: "(string \<times> string option \<times> string) list"
  w_tags :: "(string \<times> (string \<times> string) list) list"
  w_gone :: "string list"

definition arn_of :: "string \<Rightarrow> string" where
  "arn_of i = ''arn:aws:networkmanager::123456789012:global-network/'' @ i"

definition held :: "world \<Rightarrow> string \<Rightarrow> (string \<times> string) list" where
  "held w a = (case map_of (w_tags w) a of None \<Rightarrow> [] | Some kvs \<Rightarrow> AList.clearjunk kvs)"

definition example_nets :: "world networks" where
  "example_nets w i = (case map_of (w_nets w) i of
     None \<Rightarrow> None
   | Some (d, st) \<Rightarrow> Some \<lparr>sdk_CreatedAt = None, sdk_Description = d, sdk_GlobalNetworkArn = Some (arn_of i),
       sdk_GlobalNetworkId = Some i, sdk_State = st, sdk_Tags = Some (sdk_tags (held w (arn_of i)))\<rparr>)"

definition example_tagging :: "world tagging" where
  "example_tagging w a = map_of (held w a)"

definition pairs_of :: "sdk_tag slice \<Rightarrow> (string \<times> string) list" where
  "pairs_of ts = map (\<lambda>t. (the (sdk_Key t), the (sdk_Value t))) (elems ts)"

definition store_tags :: "string \<Rightarrow> (string \<times> string) list \<Rightarrow> world \<Rightarrow> world" where
  "store_tags a kvs w = w\<lparr>w_tags := (a, kvs) # w_tags w\<rparr>"

definition fresh_id :: "world \<Rightarrow> string" where
  "fresh_id w = ''n'' @ concat (map fst (w_nets w) @ w_gone w)"

definition example_used :: "world \<Rightarrow> string set" where
  "example_used w = set (map fst (w_nets w) @ w_gone w)"

definition refused :: string where
  "refused = ''ValidationException''"

definition example_client :: "(world, string) svcsdk_Client" where
  "example_client = \<lparr>
     TagResource = (\<lambda>inp w. case tag_ResourceArn inp of
         None \<Rightarrow> (Some refused, w)
       | Some a \<Rightarrow> (None, store_tags a (pairs_of (tag_Tags inp) @ held w a) w)),
     UntagResource = (\<lambda>inp w. case untag_ResourceArn inp of
         None \<Rightarrow> (Some refused, w)
       | Some a \<Rightarrow> (None, store_tags a (filter (\<lambda>(k, v). \<not> List.member (elems (untag_TagKeys inp)) k) (held w a)) w)),
     DescribeGlobalNetworks = (\<lambda>inp w. case GlobalNetworkIds inp of
         Some [i] \<Rightarrow> ((Some \<lparr>GlobalNetworks = Some (case example_nets w i of None \<Rightarrow> [] | Some n \<Rightarrow> [n])\<rparr>, None), w)
       | _ \<Rightarrow> ((None, Some refused), w)),
     CreateGlobalNetwork = (\<lambda>inp w.
         let i = fresh_id w;
             w' = store_tags (arn_of i) (pairs_of (create_Tags inp))
                    (w\<lparr>w_nets := (i, create_Description inp, ''PENDING'') # w_nets w\<rparr>)
         in ((Some \<lparr>created_GlobalNetwork = example_nets w' i\<rparr>, None), w')),
     UpdateGlobalNetwork = (\<lambda>inp w. case update_GlobalNetworkId inp of
         None \<Rightarrow> ((None, Some refused), w)
       | Some i \<Rightarrow> (case map_of (w_nets w) i of
             None \<Rightarrow> ((None, Some ''ResourceNotFoundException''), w)
           | Some (d, st) \<Rightarrow>
               (let w' = w\<lparr>w_nets := (i, (case update_Description inp of None \<Rightarrow> d | Some x \<Rightarrow> Some x), st) # w_nets w\<rparr>
                in ((Some \<lparr>updated_GlobalNetwork = example_nets w' i\<rparr>, None), w')))),
     DeleteGlobalNetwork = (\<lambda>inp w. case delete_GlobalNetworkId inp of
         None \<Rightarrow> (Some refused, w)
       | Some i \<Rightarrow> (None, w\<lparr>w_nets := filter (\<lambda>(j, _). j \<noteq> i) (w_nets w), w_gone := i # w_gone w\<rparr>))\<rparr>"

text \<open>The service keeps its promises.\<close>

lemma arn_of_inject [simp]: "arn_of i = arn_of j \<longleftrightarrow> i = j"
  by (simp add: arn_of_def)

lemma held_store [simp]:
  "held (store_tags a kvs w) b = (if b = a then AList.clearjunk kvs else held w b)"
  "w_nets (store_tags a kvs w) = w_nets w" "w_gone (store_tags a kvs w) = w_gone w"
  by (simp_all add: held_def store_tags_def)

lemma held_nets [simp]: "held (w\<lparr>w_nets := x\<rparr>) a = held w a" "held (w\<lparr>w_nets := x, w_gone := y\<rparr>) a = held w a"
  by (simp_all add: held_def)

lemma distinct_held [simp]: "distinct (map fst (held w a))"
  by (simp add: held_def distinct_clearjunk split: option.split)

lemma tags_of_sdk_tags: "elems (tags_of_sdk (Some (sdk_tags kvs))) = tag_list kvs"
  by (induction kvs) (auto simp: tags_of_sdk_def sdk_tags_def tag_list_def new_tag_def)

lemma sdk_tags_law:
  assumes "distinct (map fst kvs)"
  shows "tag_map (tags_of_sdk (Some (sdk_tags kvs))) = map_of kvs"
    and "tags_normal (tags_of_sdk (Some (sdk_tags kvs)))"
  using assms by (simp_all add: tag_map_def tags_normal_def tags_of_sdk_tags map_of_rev_distinct)

lemma pairs_of_sdk_tags [simp]: "pairs_of (Some (sdk_tags kvs)) = kvs"
  by (induction kvs) (auto simp: pairs_of_def sdk_tags_def)

lemma pairs_of_law:
  assumes "tags_normal (tags_of_sdk ts)"
  shows "tag_map (tags_of_sdk ts) = map_of (pairs_of ts)"
proof -
  have pairs: "tag_pairs (map (\<lambda>t. Some \<lparr>Key = sdk_Key t, Value = sdk_Value t\<rparr>) us) =
      map (\<lambda>t. (the (sdk_Key t), the (sdk_Value t))) us"
    if "list_all tag_full (map (\<lambda>t. Some \<lparr>Key = sdk_Key t, Value = sdk_Value t\<rparr>) us)" for us :: "sdk_tag list"
    using that by (induction us) (auto simp: tag_full_def)
  have elems: "elems (tags_of_sdk ts) = map (\<lambda>t. Some \<lparr>Key = sdk_Key t, Value = sdk_Value t\<rparr>) (elems ts)"
    by (cases ts) (simp_all add: tags_of_sdk_def)
  have "tag_pairs (elems (tags_of_sdk ts)) = pairs_of ts"
    using assms pairs by (simp add: tags_normal_def elems pairs_of_def)
  moreover have "distinct (map fst (pairs_of ts))"
    using assms by (simp add: tags_normal_def elems pairs_of_def tag_key_def comp_def)
  ultimately show ?thesis by (simp add: tag_map_def map_of_rev_distinct)
qed

lemma fresh_id_unused: "fresh_id w \<notin> example_used w"
proof -
  have le: "length x \<le> length (concat xs)" if "x \<in> set xs" for x :: string and xs
    using that by (induction xs) auto
  have "length x < length (fresh_id w)" if "x \<in> example_used w" for x
    using le [of x "map fst (w_nets w) @ w_gone w"] that by (simp add: fresh_id_def example_used_def less_Suc_eq_le)
  then show ?thesis by blast
qed

lemma fresh_id_new: "map_of (w_nets w) (fresh_id w) = None"
  using fresh_id_unused [of w] by (simp add: example_used_def map_of_eq_None_iff)

lemma example_networks: "networks_ok example_nets example_tagging"
  by (auto simp: networks_ok_def example_nets_def example_tagging_def net_tags_def sdk_tags_law
      split: option.splits)

lemma example_service: "service_ok example_rt example_client example_nets example_tagging"
proof -
  have "describe_ok example_rt example_client example_nets example_tagging"
    by (auto simp: describe_ok_def example_client_def split: option.split)
  moreover have "create_ok example_client example_nets"
  proof -
    show ?thesis
      unfolding create_ok_def
    proof (intro allI impI)
      fix inp w resp w'
      assume call: "CreateGlobalNetwork example_client inp w = ((resp, None), w')"
        and normal: "tags_normal (tags_of_sdk (create_Tags inp))"
      let ?i = "fresh_id w"
      let ?n = "\<lparr>sdk_CreatedAt = None, sdk_Description = create_Description inp,
        sdk_GlobalNetworkArn = Some (arn_of ?i), sdk_GlobalNetworkId = Some ?i, sdk_State = ''PENDING'',
        sdk_Tags = Some (sdk_tags (AList.clearjunk (pairs_of (create_Tags inp))))\<rparr>"
      have w': "w' = store_tags (arn_of ?i) (pairs_of (create_Tags inp))
          (w\<lparr>w_nets := (?i, create_Description inp, ''PENDING'') # w_nets w\<rparr>)"
        and resp: "resp = Some \<lparr>created_GlobalNetwork = example_nets w' ?i\<rparr>"
        using call by (auto simp: example_client_def Let_def)
      have "example_nets w' = (example_nets w)(?i \<mapsto> ?n)"
        by (auto simp: fun_eq_iff example_nets_def w' split: option.split)
      moreover have "example_nets w ?i = None"
        by (simp add: example_nets_def fresh_id_new)
      moreover have "net_tags ?n = tag_map (tags_of_sdk (create_Tags inp))"
        by (simp add: net_tags_def sdk_tags_law distinct_clearjunk map_of_clearjunk pairs_of_law [OF normal])
      ultimately show "\<exists>i n. resp = Some \<lparr>created_GlobalNetwork = Some n\<rparr> \<and> example_nets w i = None \<and>
          example_nets w' = (example_nets w)(i \<mapsto> n) \<and> sdk_Description n = create_Description inp \<and>
          net_tags n = tag_map (tags_of_sdk (create_Tags inp))"
        by (intro exI [of _ ?i] exI [of _ ?n]) (simp add: resp)
    qed
  qed
  moreover have "update_ok example_client example_nets example_tagging"
    unfolding update_ok_def
    by (auto simp: example_client_def example_nets_def example_tagging_def fun_eq_iff Let_def
        split: option.splits)
  moreover have "delete_ok example_client example_nets"
  proof -
    have "map_of (filter (\<lambda>(j, _). j \<noteq> i) xs) k = (if k = i then None else map_of xs k)"
      for i k and xs :: "(string \<times> string option \<times> string) list"
      by (induction xs) auto
    then show ?thesis
      by (auto simp: delete_ok_def example_client_def example_nets_def split: option.split)
  qed
  moreover have "tagging_frame example_client example_nets"
    by (auto simp: tagging_frame_def example_client_def example_nets_def bare_def
        split: option.splits if_splits)
  moreover have "tag_service_ok example_client example_tagging"
  proof -
    have filt: "map_of (filter (\<lambda>(k, v). k \<notin> K) kvs) = map_of kvs |` (- K)"
      for K and kvs :: "(string \<times> string) list"
      by (induction kvs) (auto simp: fun_eq_iff restrict_map_def)
    show ?thesis
      by (auto simp: tag_service_ok_def example_client_def example_tagging_def fun_eq_iff
          map_of_clearjunk filt)
  qed
  ultimately show ?thesis by (simp add: service_ok_def example_networks)
qed

end
