(* ===== verification/Reconcile.thy ===== *)
theory Reconcile
  imports ResourceObject
begin

text \<open>
  The manager's operations in the order a reconciliation calls them. \<open>read_stage\<close> adds the default
  tags to the desired object and reads the network (which mirrors its \<open>aws:\<close> tags into the
  desired object); \<open>update_stage\<close> filters system tags from both objects and updates the network
  by their difference. \<open>reconcile_pass\<close> is one after the other: it returns the first error, or
  else the difference and the object \<open>Update\<close> returned; \<open>reconcile_sync\<close> creates the network
  where there is none. Every operation runs with iteration orders of its own. The loop that makes
  these calls is the ACK runtime's and not part of the repository: the definitions here are the
  scenario the properties are stated over, not a model of that loop.
\<close>

definition read_stage ::
  "('e, 'd) ack_runtime \<Rightarrow> (nat \<Rightarrow> sched) \<Rightarrow> ('w, 'e) resourceManager \<Rightarrow> service_metadata \<Rightarrow>
   aws_resource \<Rightarrow> ('w, 'e) env \<Rightarrow> (resource \<times> aws_resource \<times> 'e option) outcome \<times> ('w, 'e) env" where
  "read_stage rt s rm md res w =
     op_then (EnsureTags rt (s 0) rm res md, w) (\<lambda>(desired, err) w.
     case err of
       Some e \<Rightarrow> (Ret (desired, res, Some e), w)
     | None \<Rightarrow> ReadOne rt (s 1) rm (ResourcePtr (Some desired)) w)"

definition update_stage ::
  "('e, 'd) ack_runtime \<Rightarrow> (nat \<Rightarrow> sched) \<Rightarrow> ('w, 'e) resourceManager \<Rightarrow> string list \<Rightarrow>
   resource \<Rightarrow> aws_resource \<Rightarrow> ('w, 'e) env \<Rightarrow> ('e + 'd \<times> aws_resource) outcome \<times> ('w, 'e) env" where
  "update_stage rt s rm systemTags desired latest w =
     op_then (FilterSystemTags rt (s 2) (ResourcePtr (Some desired)) systemTags, w) (\<lambda>desired w.
     op_then (FilterSystemTags rt (s 3) latest systemTags, w) (\<lambda>latest w.
     op_then (Delta rt (ResourcePtr desired) (ResourcePtr latest), w) (\<lambda>delta w.
     op_then (Update rt (s 4) rm (ResourcePtr desired) (ResourcePtr latest) delta w) (\<lambda>(out, err) w.
       (Ret (case err of Some e \<Rightarrow> Inl e | None \<Rightarrow> Inr (delta, out)), w)))))"

definition reconcile_pass ::
  "('e, 'd) ack_runtime \<Rightarrow> (nat \<Rightarrow> sched) \<Rightarrow> ('w, 'e) resourceManager \<Rightarrow> service_metadata \<Rightarrow> string list \<Rightarrow>
   aws_resource \<Rightarrow> ('w, 'e) env \<Rightarrow> ('e + 'd \<times> aws_resource) outcome \<times> ('w, 'e) env" where
  "reconcile_pass rt s rm md systemTags res w =
     op_then (read_stage rt s rm md res w) (\<lambda>(desired, latest, err) w.
     case err of
       Some e \<Rightarrow> (Ret (Inl e), w)
     | None \<Rightarrow> update_stage rt s rm systemTags desired latest w)"

text \<open>What follows the reading: the network is created where there is none, or updated.\<close>

definition write_stage ::
  "('e, 'd) ack_runtime \<Rightarrow> (nat \<Rightarrow> sched) \<Rightarrow> ('w, 'e) resourceManager \<Rightarrow> string list \<Rightarrow>
   resource \<Rightarrow> aws_resource \<Rightarrow> 'e option \<Rightarrow> ('w, 'e) env \<Rightarrow> ('e + aws_resource) outcome \<times> ('w, 'e) env" where
  "write_stage rt s rm systemTags desired latest err w =
     (case err of
        Some e \<Rightarrow>
          if e = NotFound rt
          then op_then (Create rt rm (ResourcePtr (Some desired)) w) (\<lambda>(out, err) w.
            (Ret (case err of Some e \<Rightarrow> Inl e | None \<Rightarrow> Inr out), w))
          else (Ret (Inl e), w)
      | None \<Rightarrow>
          op_then (update_stage rt s rm systemTags desired latest w) (\<lambda>res w.
            (Ret (case res of Inl e \<Rightarrow> Inl e | Inr (_, out) \<Rightarrow> Inr out), w)))"

definition reconcile_sync ::
  "('e, 'd) ack_runtime \<Rightarrow> (nat \<Rightarrow> sched) \<Rightarrow> ('w, 'e) resourceManager \<Rightarrow> service_metadata \<Rightarrow> string list \<Rightarrow>
   aws_resource \<Rightarrow> ('w, 'e) env \<Rightarrow> ('e + aws_resource) outcome \<times> ('w, 'e) env" where
  "reconcile_sync rt s rm md systemTags res w =
     op_then (read_stage rt s rm md res w) (\<lambda>(desired, latest, err) w.
     write_stage rt s rm systemTags desired latest err w)"

text \<open>The tags a pass is to bring about, of which it leaves the system tags to the service.\<close>

definition wanted_tags ::
  "('e, 'd) ack_runtime \<Rightarrow> ('w, 'e) resourceManager \<Rightarrow> service_metadata \<Rightarrow> GlobalNetwork \<Rightarrow> string \<rightharpoonup> string" where
  "wanted_tags rt rm md g = mget (GetDefaultTags rt (cfg rm) g md) ++ tag_map (Tags (Spec g))"

definition own_key :: "string list \<Rightarrow> string \<Rightarrow> bool" where
  "own_key systemTags k \<longleftrightarrow> \<not> aws_key k \<and> k \<notin> set systemTags"

text \<open>An object that carries the identifiers of a network; what a pass starts from.\<close>

definition identifies :: "GlobalNetwork \<Rightarrow> string \<Rightarrow> sdk_global_network \<Rightarrow> bool" where
  "identifies g i n \<longleftrightarrow> GlobalNetworkID (Status g) = Some i \<and> ACKResourceMetadata (Status g) \<noteq> None \<and>
     ARN (metadata_of g) = sdk_GlobalNetworkArn n \<and> conds_wf (conds_of g)"

definition pass_pre :: "GlobalNetwork \<Rightarrow> string \<Rightarrow> sdk_global_network \<Rightarrow> bool" where
  "pass_pre g i n \<longleftrightarrow> identifies g i n \<and> tags_wf (Tags (Spec g))"

text \<open>
  An object that shows the tags and the description of a network: less than \<open>reflects\<close>, and what
  a change of the order of the tags leaves true.
\<close>

definition seen :: "sdk_global_network \<Rightarrow> GlobalNetwork \<Rightarrow> bool" where
  "seen n l \<longleftrightarrow> tags_wf (Tags (Spec l)) \<and> tag_map (Tags (Spec l)) = net_tags n \<and>
     Description (Spec l) = sdk_Description n"

lemma reflects_seen: "reflects n l \<Longrightarrow> seen n l"
  by (simp add: reflects_def seen_def net_tags_def)

lemma identifies_set_tags [simp]: "identifies (set_tags ts g) i n = identifies g i n"
  by (simp add: identifies_def)

section \<open>The reading of a pass\<close>

lemma read_stage_law:
  assumes ok: "service_ok rt (sdkapi rm) nets tagging"
    and lib: "tags_lib_ok rt" "errors_lib_ok rt" "condition_types_ok rt"
    and g: "GlobalNetworkID (Status g) = Some i" "conds_wf (conds_of g)" "tags_wf (Tags (Spec g))"
  obtains (failed) ts out e w' where
      "read_stage rt s rm md (ResourcePtr (Some \<lparr>ko = Some g\<rparr>)) w = (Ret (\<lparr>ko = Some (set_tags ts g)\<rparr>, out, Some e), w')"
      and "nets (svc w') = nets (svc w)" and "e = NotFound rt \<longrightarrow> nets (svc w) i = None"
      and "tags_normal ts" and "tag_map ts = wanted_tags rt rm md g"
  | (found) ts l w' n where
      "read_stage rt s rm md (ResourcePtr (Some \<lparr>ko = Some g\<rparr>)) w =
        (Ret (\<lparr>ko = Some (set_tags ts g)\<rparr>, ResourcePtr (Some \<lparr>ko = Some l\<rparr>), None), w')"
      and "nets (svc w') = nets (svc w)" and "nets (svc w) i = Some n" and "reflects n l" and "conds_wf (conds_of l)"
      and "tags_normal ts" and "\<And>k. own_key sys k \<Longrightarrow> tag_map ts k = wanted_tags rt rm md g k"
proof -
  obtain ts1 where ens: "EnsureTags rt (s 0) rm (ResourcePtr (Some \<lparr>ko = Some g\<rparr>)) md =
      Ret (\<lparr>ko = Some (set_tags ts1 g)\<rparr>, None)"
    and ts1: "tags_normal ts1" "tag_map ts1 = wanted_tags rt rm md g"
    by (rule EnsureTags_law [OF lib(1) g(3), of "s 0" rm md]) (simp add: wanted_tags_def)
  let ?g = "set_tags ts1 g"
  have g1: "GlobalNetworkID (Status ?g) = Some i" "conds_wf (conds_of ?g)" "tags_wf (Tags (Spec ?g))"
    using g ts1(1) by (simp_all add: tags_normal_wf)
  show ?thesis
  proof (rule read_law [OF ok lib g1, of "s 1" w])
    fix e g' w'
    assume run: "ReadOne rt (s 1) rm (ResourcePtr (Some \<lparr>ko = Some ?g\<rparr>)) w =
      (Ret (\<lparr>ko = Some ?g\<rparr>, ResourcePtr (Some \<lparr>ko = Some g'\<rparr>),
        Some (if is_terminal rt (Some e) then Terminal rt else e)), w')"
      and nf: "e = NotFound rt \<longrightarrow> nets (svc w) i = None" and same: "nets (svc w') = nets (svc w)"
    have "(if is_terminal rt (Some e) then Terminal rt else e) = NotFound rt \<longrightarrow> nets (svc w) i = None"
      using nf lib(2) by (auto simp: errors_lib_ok_def)
    with ens run show ?thesis by (intro failed [OF _ same _ ts1]) (simp_all add: read_stage_def)
  next
    fix m ts2 l w'
    assume read: "ReadOne rt (s 1) rm (ResourcePtr (Some \<lparr>ko = Some ?g\<rparr>)) w =
        (Ret (\<lparr>ko = Some (set_tags ts2 ?g)\<rparr>, ResourcePtr (Some \<lparr>ko = Some l\<rparr>), None), w')"
      and r: "nets (svc w') = nets (svc w)" "nets (svc w) i = Some m" "reflects m l" "conds_wf (conds_of l)"
        "tags_normal ts2" and ts2: "tag_map ts2 = with_aws_tags (tag_map (Tags (Spec ?g))) (net_tags m)"
    have "tag_map ts2 k = wanted_tags rt rm md g k" if "own_key sys k" for k
      using that by (simp add: ts2 ts1(2) with_aws_tags_def own_key_def map_add_def restrict_map_def)
    moreover have "set_tags ts2 ?g = set_tags ts2 g" by (simp add: set_tags_def)
    ultimately show ?thesis
      using ens read by (intro found [OF _ r(1-5)]) (simp_all add: read_stage_def)
  qed
qed

section \<open>The update of a pass\<close>

text \<open>
  After filtering, the difference is that of the desired and the existing tags under the keys
  that are the user's, and of the descriptions.
\<close>

lemma filtered_delta:
  assumes lib: "tags_lib_ok rt" "compare_lib_ok rt"
    and g: "tags_normal (Tags (Spec g))" "tag_map (Tags (Spec g)) = m |` {k. own_key sys k}"
    and l: "tags_normal (Tags (Spec l))" "tag_map (Tags (Spec l)) = m' |` {k. own_key sys k}"
  obtains d where "newResourceDelta rt (Some \<lparr>ko = Some g\<rparr>) (Some \<lparr>ko = Some l\<rparr>) = Ret d"
    and "DifferentAt rt d ''Spec.Tags'' \<longleftrightarrow> (\<exists>k. own_key sys k \<and> m' k \<noteq> m k)"
    and "DifferentExcept rt d [''Spec.Tags''] \<longleftrightarrow> Description (Spec g) \<noteq> Description (Spec l)"
proof -
  have wf: "tags_wf (Tags (Spec g))" "tags_wf (Tags (Spec l))" using g(1) l(1) by (simp_all add: tags_normal_wf)
  obtain d where d: "newResourceDelta rt (Some \<lparr>ko = Some g\<rparr>) (Some \<lparr>ko = Some l\<rparr>) = Ret d"
    using newResourceDelta_eq [OF lib wf] by auto
  note facts = delta_facts [OF lib wf d]
  have "tag_map (Tags (Spec g)) k = tag_map (Tags (Spec l)) k \<longleftrightarrow> (own_key sys k \<longrightarrow> m' k = m k)" for k
    by (auto simp: g(2) l(2) restrict_map_def)
  then have "tag_map (Tags (Spec g)) \<noteq> tag_map (Tags (Spec l)) \<longleftrightarrow> (\<exists>k. own_key sys k \<and> m' k \<noteq> m k)"
    by (simp add: fun_eq_iff)
  with d facts show ?thesis by (intro that [of d]) auto
qed

text \<open>The update stage up to its call of \<open>Update\<close>: the filtered objects and their difference.\<close>

lemma update_stage_begins:
  assumes lib: "tags_lib_ok rt" "compare_lib_ok rt" and g: "tags_wf (Tags (Spec g))" and l: "seen n l"
  obtains ts us d where
    "update_stage rt s rm sys \<lparr>ko = Some g\<rparr> (ResourcePtr (Some \<lparr>ko = Some l\<rparr>)) w =
      op_then (Update rt (s 4) rm (ResourcePtr (Some \<lparr>ko = Some (set_tags ts g)\<rparr>))
          (ResourcePtr (Some \<lparr>ko = Some (set_tags us l)\<rparr>)) d w)
        (\<lambda>(out, err) w. (Ret (case err of Some e \<Rightarrow> Inl e | None \<Rightarrow> Inr (d, out)), w))"
    and "tags_normal ts" and "tag_map ts = tag_map (Tags (Spec g)) |` {k. own_key sys k}"
    and "tags_normal us" and "tag_map us = net_tags n |` {k. own_key sys k}"
    and "newResourceDelta rt (Some \<lparr>ko = Some (set_tags ts g)\<rparr>) (Some \<lparr>ko = Some (set_tags us l)\<rparr>) = Ret d"
    and "DifferentAt rt d ''Spec.Tags'' \<longleftrightarrow> (\<exists>k. own_key sys k \<and> net_tags n k \<noteq> tag_map (Tags (Spec g)) k)"
    and "DifferentExcept rt d [''Spec.Tags''] \<longleftrightarrow> Description (Spec g) \<noteq> Description (Spec l)"
proof -
  have l': "tags_wf (Tags (Spec l))" "tag_map (Tags (Spec l)) = net_tags n" using l by (simp_all add: seen_def)
  obtain ts where f1: "FilterSystemTags rt (s 2) (ResourcePtr (Some \<lparr>ko = Some g\<rparr>)) sys =
      Ret (Some \<lparr>ko = Some (set_tags ts g)\<rparr>)"
    and ts: "tags_normal ts" "tag_map ts = tag_map (Tags (Spec g)) |` {k. own_key sys k}"
    by (rule FilterSystemTags_law [OF lib(1) g, of "s 2" sys]) (auto simp: own_key_def)
  obtain us where f2: "FilterSystemTags rt (s 3) (ResourcePtr (Some \<lparr>ko = Some l\<rparr>)) sys =
      Ret (Some \<lparr>ko = Some (set_tags us l)\<rparr>)"
    and us: "tags_normal us" "tag_map us = net_tags n |` {k. own_key sys k}"
    by (rule FilterSystemTags_law [OF lib(1) l'(1), of "s 3" sys]) (auto simp: own_key_def l'(2))
  obtain d where d: "newResourceDelta rt (Some \<lparr>ko = Some (set_tags ts g)\<rparr>) (Some \<lparr>ko = Some (set_tags us l)\<rparr>) = Ret d"
    and dt: "DifferentAt rt d ''Spec.Tags'' \<longleftrightarrow> (\<exists>k. own_key sys k \<and> net_tags n k \<noteq> tag_map (Tags (Spec g)) k)"
    and dd: "DifferentExcept rt d [''Spec.Tags''] \<longleftrightarrow> Description (Spec g) \<noteq> Description (Spec l)"
    by (rule filtered_delta [OF lib, of "set_tags ts g" "tag_map (Tags (Spec g))" sys "set_tags us l" "net_tags n"])
      (auto simp: ts us)
  have "update_stage rt s rm sys \<lparr>ko = Some g\<rparr> (ResourcePtr (Some \<lparr>ko = Some l\<rparr>)) w =
      op_then (Update rt (s 4) rm (ResourcePtr (Some \<lparr>ko = Some (set_tags ts g)\<rparr>))
          (ResourcePtr (Some \<lparr>ko = Some (set_tags us l)\<rparr>)) d w)
        (\<lambda>(out, err) w. (Ret (case err of Some e \<Rightarrow> Inl e | None \<Rightarrow> Inr (d, out)), w))"
    using f1 f2 d by (simp add: update_stage_def Delta_def concreteResource_def)
  from that [OF this ts us d dt dd] show ?thesis .
qed

lemma update_stage_law:
  assumes ok: "service_ok rt (sdkapi rm) nets tagging"
    and lib: "tags_lib_ok rt" "compare_lib_ok rt" "errors_lib_ok rt" "condition_types_ok rt"
    and n: "nets (svc w) i = Some n"
    and g: "pass_pre g i n" and l: "seen n l" "conds_wf (conds_of l)"
  obtains (failed) e w' where
      "update_stage rt s rm sys \<lparr>ko = Some g\<rparr> (ResourcePtr (Some \<lparr>ko = Some l\<rparr>)) w = (Ret (Inl e), w')"
  | (finished) d out w' n' where
      "update_stage rt s rm sys \<lparr>ko = Some g\<rparr> (ResourcePtr (Some \<lparr>ko = Some l\<rparr>)) w =
        (Ret (Inr (d, ResourcePtr (Some \<lparr>ko = Some out\<rparr>))), w')"
      and "nets (svc w') i = Some n'" and "identifies out i n'"
      and "\<And>k. net_tags n' k = (if own_key sys k then tag_map (Tags (Spec g)) k else net_tags n k)"
      and "sdk_Description n' = (if Description (Spec g) = None then sdk_Description n else Description (Spec g))"
      and "sdk_GlobalNetworkArn n' = sdk_GlobalNetworkArn n"
      and "DifferentAt rt d ''Spec.Tags'' \<longleftrightarrow> (\<exists>k. own_key sys k \<and> net_tags n k \<noteq> tag_map (Tags (Spec g)) k)"
      and "DifferentExcept rt d [''Spec.Tags''] \<longleftrightarrow> Description (Spec g) \<noteq> sdk_Description n"
proof -
  have gwf: "GlobalNetworkID (Status g) = Some i" "conds_wf (conds_of g)" "tags_wf (Tags (Spec g))"
    using g by (simp_all add: pass_pre_def identifies_def)
  have l': "tags_wf (Tags (Spec l))" "tag_map (Tags (Spec l)) = net_tags n" "Description (Spec l) = sdk_Description n"
    using l(1) by (simp_all add: seen_def)
  obtain ts us d where run: "update_stage rt s rm sys \<lparr>ko = Some g\<rparr> (ResourcePtr (Some \<lparr>ko = Some l\<rparr>)) w =
      op_then (Update rt (s 4) rm (ResourcePtr (Some \<lparr>ko = Some (set_tags ts g)\<rparr>))
          (ResourcePtr (Some \<lparr>ko = Some (set_tags us l)\<rparr>)) d w)
        (\<lambda>(out, err) w. (Ret (case err of Some e \<Rightarrow> Inl e | None \<Rightarrow> Inr (d, out)), w))"
    and ts: "tags_normal ts" "tag_map ts = tag_map (Tags (Spec g)) |` {k. own_key sys k}"
    and us: "tags_normal us" "tag_map us = net_tags n |` {k. own_key sys k}"
    and d: "newResourceDelta rt (Some \<lparr>ko = Some (set_tags ts g)\<rparr>) (Some \<lparr>ko = Some (set_tags us l)\<rparr>) = Ret d"
    and dt: "DifferentAt rt d ''Spec.Tags'' \<longleftrightarrow> (\<exists>k. own_key sys k \<and> net_tags n k \<noteq> tag_map (Tags (Spec g)) k)"
    and dd: "DifferentExcept rt d [''Spec.Tags''] \<longleftrightarrow> Description (Spec g) \<noteq> Description (Spec l)"
    by (rule update_stage_begins [OF lib(1,2) gwf(3) l(1), of s rm sys w])
  have pre: "update_pre rt i n (set_tags ts g) (set_tags us l) d"
    using g d l'(3) ts us
    by (auto simp: update_pre_def pass_pre_def identifies_def tags_normal_full map_le_def restrict_map_def split: if_splits)
  have wf: "conds_wf (conds_of (set_tags ts g))" "conds_wf (conds_of (set_tags us l))" using gwf(2) l(2) by simp_all
  show ?thesis
  proof (rule Update_law [OF ok lib n pre wf, of "s 4"])
    fix e g' w'
    assume "Update rt (s 4) rm (ResourcePtr (Some \<lparr>ko = Some (set_tags ts g)\<rparr>))
        (ResourcePtr (Some \<lparr>ko = Some (set_tags us l)\<rparr>)) d w =
      (Ret (ResourcePtr (Some \<lparr>ko = Some g'\<rparr>), Some (if is_terminal rt (Some e) then Terminal rt else e)), w')"
    with run show ?thesis by (intro failed) simp
  next
    fix g' n' w'
    assume upd: "Update rt (s 4) rm (ResourcePtr (Some \<lparr>ko = Some (set_tags ts g)\<rparr>))
        (ResourcePtr (Some \<lparr>ko = Some (set_tags us l)\<rparr>)) d w = (Ret (ResourcePtr (Some \<lparr>ko = Some g'\<rparr>), None), w')"
      and n': "nets (svc w') i = Some n'" "GlobalNetworkID (Status g') = Some i"
        "net_tags n' = synced (tag_map (Tags (Spec (set_tags ts g)))) (tag_map (Tags (Spec (set_tags us l)))) (net_tags n)"
        "sdk_Description n' = (if Description (Spec (set_tags ts g)) = None then sdk_Description n else Description (Spec (set_tags ts g)))"
        "sdk_GlobalNetworkArn n' = sdk_GlobalNetworkArn n" "ARN (metadata_of g') = sdk_GlobalNetworkArn n"
        "conds_wf (conds_of g')"
    have tags: "net_tags n' k = (if own_key sys k then tag_map (Tags (Spec g)) k else net_tags n k)" for k
      by (auto simp: n'(3) ts(2) us(2) synced_def restrict_map_def map_add_def domIff split: option.split)
    obtain arn where "sdk_GlobalNetworkArn n = Some arn" by (rule service_networks [OF ok n])
    with n'(6) have "ACKResourceMetadata (Status g') \<noteq> None"
      by (cases "ACKResourceMetadata (Status g')") (simp_all add: metadata_of_def)
    then have idf: "identifies g' i n'" using n'(2,5-7) by (simp add: identifies_def)
    show ?thesis
      by (rule finished [OF _ n'(1) idf tags _ n'(5) dt]) (use run upd n'(4) dd l'(3) in simp_all)
  qed
qed

section \<open>A pass\<close>

lemma pass_law:
  assumes ok: "service_ok rt (sdkapi rm) nets tagging"
    and lib: "tags_lib_ok rt" "compare_lib_ok rt" "errors_lib_ok rt" "condition_types_ok rt"
    and n: "nets (svc w) i = Some n" and pre: "pass_pre g i n"
  obtains (failed) e w' where
      "reconcile_pass rt s rm md systemTags (ResourcePtr (Some \<lparr>ko = Some g\<rparr>)) w = (Ret (Inl e), w')"
  | (finished) d out w' n' where
      "reconcile_pass rt s rm md systemTags (ResourcePtr (Some \<lparr>ko = Some g\<rparr>)) w =
        (Ret (Inr (d, ResourcePtr (Some \<lparr>ko = Some out\<rparr>))), w')"
      and "nets (svc w') i = Some n'" and "GlobalNetworkID (Status out) = Some i"
      and "\<And>k. net_tags n' k = (if own_key systemTags k then wanted_tags rt rm md g k else net_tags n k)"
      and "sdk_Description n' = (if Description (Spec g) = None then sdk_Description n else Description (Spec g))"
      and "sdk_GlobalNetworkArn n' = sdk_GlobalNetworkArn n"
      and "DifferentAt rt d ''Spec.Tags'' \<longleftrightarrow> (\<exists>k. own_key systemTags k \<and> net_tags n k \<noteq> wanted_tags rt rm md g k)"
      and "DifferentExcept rt d [''Spec.Tags''] \<longleftrightarrow> Description (Spec g) \<noteq> sdk_Description n"
proof -
  have g: "GlobalNetworkID (Status g) = Some i" "conds_wf (conds_of g)" "tags_wf (Tags (Spec g))"
    using pre by (simp_all add: pass_pre_def identifies_def)
  show ?thesis
  proof (rule read_stage_law [OF ok lib(1,3,4) g, where s = s and md = md and w = w and sys = systemTags])
    fix ts out e w'
    assume "read_stage rt s rm md (ResourcePtr (Some \<lparr>ko = Some g\<rparr>)) w = (Ret (\<lparr>ko = Some (set_tags ts g)\<rparr>, out, Some e), w')"
    then show ?thesis by (intro failed) (simp add: reconcile_pass_def)
  next
    fix ts l w1 m
    assume read: "read_stage rt s rm md (ResourcePtr (Some \<lparr>ko = Some g\<rparr>)) w =
        (Ret (\<lparr>ko = Some (set_tags ts g)\<rparr>, ResourcePtr (Some \<lparr>ko = Some l\<rparr>), None), w1)"
      and r: "nets (svc w1) = nets (svc w)" "nets (svc w) i = Some m" "reflects m l" "conds_wf (conds_of l)"
        "tags_normal ts" and ts: "\<And>k. own_key systemTags k \<Longrightarrow> tag_map ts k = wanted_tags rt rm md g k"
    have m: "m = n" and n1: "nets (svc w1) i = Some n" using r(1,2) n by simp_all
    have pre1: "pass_pre (set_tags ts g) i n" using pre r(5) by (simp add: pass_pre_def tags_normal_wf)
    show ?thesis
    proof (rule update_stage_law [OF ok lib n1 pre1 reflects_seen [OF r(3) [unfolded m]] r(4), of s systemTags])
      fix e w'
      assume "update_stage rt s rm systemTags \<lparr>ko = Some (set_tags ts g)\<rparr> (ResourcePtr (Some \<lparr>ko = Some l\<rparr>)) w1 = (Ret (Inl e), w')"
      with read show ?thesis by (intro failed) (simp add: reconcile_pass_def)
    next
      fix d out w' n'
      assume "update_stage rt s rm systemTags \<lparr>ko = Some (set_tags ts g)\<rparr> (ResourcePtr (Some \<lparr>ko = Some l\<rparr>)) w1 =
          (Ret (Inr (d, ResourcePtr (Some \<lparr>ko = Some out\<rparr>))), w')"
        and n': "nets (svc w') i = Some n'" "identifies out i n'"
          "\<And>k. net_tags n' k = (if own_key systemTags k then tag_map (Tags (Spec (set_tags ts g))) k else net_tags n k)"
          "sdk_Description n' = (if Description (Spec (set_tags ts g)) = None then sdk_Description n else Description (Spec (set_tags ts g)))"
          "sdk_GlobalNetworkArn n' = sdk_GlobalNetworkArn n"
          "DifferentAt rt d ''Spec.Tags'' \<longleftrightarrow> (\<exists>k. own_key systemTags k \<and> net_tags n k \<noteq> tag_map (Tags (Spec (set_tags ts g))) k)"
          "DifferentExcept rt d [''Spec.Tags''] \<longleftrightarrow> Description (Spec (set_tags ts g)) \<noteq> sdk_Description n"
      with read show ?thesis
        by (intro finished [where n' = n']) (auto simp: reconcile_pass_def identifies_def ts)
    qed
  qed
qed

section \<open>Properties\<close>

text \<open>An update to be made to the tags needs the ARN in the desired object.\<close>

lemma Update_without_ARN:
  assumes "ARN (metadata_of g) = None" and "DifferentAt rt d ''Spec.Tags''"
  shows "Update rt s rm (ResourcePtr (Some \<lparr>ko = Some g\<rparr>)) (ResourcePtr (Some \<lparr>ko = Some l\<rparr>)) d w = (Panic, w)"
  using assms
  by (cases "ACKResourceMetadata (Status g)")
    (simp_all add: Update_def concreteResource_def sdkUpdate_def update_tags_def metadata_of_def)

text \<open>
  C39: an object that has been given only the identifier of its network, as \<open>PopulateResourceFromAnnotation\<close>
  gives it to one that is to be adopted, cannot be reconciled to other tags than the network has. The metadata
  with the ARN stays nil, and if under a key of the user's the network has not the wanted tag, the pass panics after the
  read that found the network: \<open>sdkUpdate\<close> dereferences the nil metadata before it makes a call.
\<close>

theorem adopted_pass_panics:
  assumes "service_ok rt (sdkapi rm) nets tagging"
    and "tags_lib_ok rt" and "compare_lib_ok rt" and "errors_lib_ok rt" and "condition_types_ok rt"
    and "PopulateResourceFromAnnotation rt (Some \<lparr>ko = Some g0\<rparr>) adopted = Ret (Some \<lparr>ko = Some g\<rparr>, None)"
    and "ARN (metadata_of g0) = None" and "conds_wf (conds_of g0)" and "tags_wf (Tags (Spec g0))"
    and "GlobalNetworkID (Status g) = Some i" and "nets (svc w) i = Some n"
    and "\<not> prefix ''aws:'' k" and "k \<notin> set systemTags"
    and "net_tags n k \<noteq> (mget (GetDefaultTags rt (cfg rm) g md) ++ tag_map (Tags (Spec g))) k"
    and "read_stage rt s rm md (ResourcePtr (Some \<lparr>ko = Some g\<rparr>)) w = (Ret (r, latest, None), w')"
  shows "reconcile_pass rt s rm md systemTags (ResourcePtr (Some \<lparr>ko = Some g\<rparr>)) w = (Panic, w') \<and>
    nets (svc w') = nets (svc w)"
proof -
  obtain i' where "g = set_network_id i' g0"
    using assms(6) by (auto simp: PopulateResourceFromAnnotation_def split: option.splits)
  with assms(7-9) have g: "ARN (metadata_of g) = None" "conds_wf (conds_of g)" "tags_wf (Tags (Spec g))"
    by (simp_all add: set_network_id_def metadata_of_def)
  have own: "own_key systemTags k" using assms(12,13) by (simp add: own_key_def aws_key_def)
  show ?thesis
  proof (rule read_stage_law [OF assms(1,2,4,5,10) g(2,3), where s = s and md = md and w = w and sys = systemTags])
    fix ts l w1 m
    assume read: "read_stage rt s rm md (ResourcePtr (Some \<lparr>ko = Some g\<rparr>)) w =
        (Ret (\<lparr>ko = Some (set_tags ts g)\<rparr>, ResourcePtr (Some \<lparr>ko = Some l\<rparr>), None), w1)"
      and m: "nets (svc w1) = nets (svc w)" "nets (svc w) i = Some m" "reflects m l" "tags_normal ts"
      and ts: "\<And>k. own_key systemTags k \<Longrightarrow> tag_map ts k = wanted_tags rt rm md g k"
    have differ: "net_tags m k \<noteq> tag_map (Tags (Spec (set_tags ts g))) k"
      using ts [OF own] assms(11,14) m(2) by (simp add: wanted_tags_def)
    have wf: "tags_wf (Tags (Spec (set_tags ts g)))" using m(4) by (simp add: tags_normal_wf)
    have "update_stage rt s rm systemTags \<lparr>ko = Some (set_tags ts g)\<rparr> (ResourcePtr (Some \<lparr>ko = Some l\<rparr>)) w1 = (Panic, w1)"
      by (rule update_stage_begins [OF assms(2,3) wf reflects_seen [OF m(3)], of s rm systemTags w1])
        (use own differ g(1) in \<open>auto simp: Update_without_ARN\<close>)
    then show ?thesis using read assms(15) m(1) by (simp add: reconcile_pass_def)
  qed (use assms(15) in simp)
qed

end
