(* ===== verification/Startup.thy ===== *)
theory Startup
  imports ManagerFactory ResourceObject
begin

text \<open>
  The process: \<open>cmd/controller/main.go\<close>, with the registry (\<open>pkg/resource/registry.go\<close>), the
  registration of the types (\<open>apis/v1alpha1/groupversion_info.go\<close>, the \<open>init\<close> of
  \<open>global_network.go\<close> and \<open>manager_factory.go\<close>) and the build constants of \<open>pkg/version\<close>.
  \<open>start_lib\<close> is the record of the library calls; each acts on the state \<open>'o\<close> of everything
  outside, which includes the registry and the scheme. A stage of \<open>main\<close> returns \<open>Inl\<close> when
  it ends the process. A call of \<open>Start\<close> is one that returns.
\<close>

section \<open>Libraries and state\<close>

type_synonym handle = nat

record start_config =
  WatchNamespace :: string
  WebhookServerAddr :: string
  MetricsAddr :: string
  HealthzAddr :: string
  LeaderElectionNamespace :: string
  EnableLeaderElection :: bool
  EnableWebhookServer :: bool
  start_rest :: string

record manager_options =
  opt_DefaultNamespaces :: "unit gomap"
  opt_DefaultLabelSelector :: handle
  opt_Port :: int
  opt_Host :: string
  opt_MetricsBindAddress :: string
  opt_LeaderElection :: bool
  opt_LeaderElectionID :: string
  opt_LeaderElectionNamespace :: string
  opt_HealthProbeBindAddress :: string
  opt_LivenessEndpointName :: string
  opt_ReadinessEndpointName :: string

text \<open>\<open>acktypes.VersionInfo\<close>, and the variables of \<open>pkg/version\<close> the linker sets.\<close>

record build_vars =
  GitVersion :: string
  GitCommit :: string
  BuildDate :: string

definition ACKGenerateVersion :: string where
  "ACKGenerateVersion = ''v0.67.0''"

definition ACKGenerateBuildDate :: string where
  "ACKGenerateBuildDate = ''2026-10-23T21:37:47Z''"

text \<open>\<open>SchemeBuilder\<close>: what a \<open>scheme.Builder\<close> is made with. What is registered with it is outside.\<close>

record scheme_builder =
  builder_GroupVersion :: group_version

definition SchemeBuilder :: scheme_builder where
  "SchemeBuilder = \<lparr>builder_GroupVersion = GroupVersion\<rparr>"

record ('o, 'e) webhook =
  hook_UID :: string
  hook_Setup :: "handle \<Rightarrow> 'o \<Rightarrow> 'e option \<times> 'o"

text \<open>
  \<open>ParseFlags\<close> stands for \<open>BindFlags\<close>, \<open>flag.Parse\<close> and \<open>SetupLogger\<close> on the configuration;
  \<open>GetConfigOrDie\<close> returns nothing when it ends the process. \<open>NewServiceController\<close> takes the
  alias, the API group and the version, the three \<open>With\<close> methods configure the result.
\<close>

record ('o, 'e, 's, 'w) start_lib =
  RegisterResourceManagerFactory :: "('w, 'e) factory \<Rightarrow> 'o \<Rightarrow> 'o"
  GetResourceManagerFactories :: "'o \<Rightarrow> ('w, 'e) factory list"
  Builder_Register :: "scheme_builder \<Rightarrow> string list \<Rightarrow> 'o \<Rightarrow> 'o"
  clientgoscheme_AddToScheme :: "'o \<Rightarrow> 'e option \<times> 'o"
  Builder_AddToScheme :: "scheme_builder \<Rightarrow> 'o \<Rightarrow> 'e option \<times> 'o"
  ackv1alpha1_AddToScheme :: "'o \<Rightarrow> 'e option \<times> 'o"
  ParseFlags :: "'o \<Rightarrow> start_config \<times> 'o"
  Validate :: "GroupVersionKind list \<Rightarrow> start_config \<Rightarrow> 'o \<Rightarrow> ('e option \<times> start_config) \<times> 'o"
  GetHostPort :: "string \<Rightarrow> string \<times> int \<times> 'e option"
  GetWatchNamespaces :: "start_config \<Rightarrow> string list \<times> 'e option"
  ParseWatchSelectors :: "start_config \<Rightarrow> handle \<times> 'e option"
  GetConfigOrDie :: "'o \<Rightarrow> handle option \<times> 'o"
  NewManager :: "handle \<Rightarrow> manager_options \<Rightarrow> 'o \<Rightarrow> (handle \<times> 'e option) \<times> 'o"
  SetupSignalHandler :: "'o \<Rightarrow> handle \<times> 'o"
  NewServiceController :: "string \<Rightarrow> string \<Rightarrow> build_vars \<Rightarrow> 's"
  WithLogger :: "'s \<Rightarrow> 's"
  WithResourceManagerFactories :: "('w, 'e) factory list \<Rightarrow> 's \<Rightarrow> 's"
  WithPrometheusRegistry :: "'s \<Rightarrow> 's"
  GetWebhooks :: "'o \<Rightarrow> ('o, 'e) webhook list"
  BindControllerManager :: "'s \<Rightarrow> handle \<Rightarrow> start_config \<Rightarrow> 'o \<Rightarrow> 'e option \<times> 'o"
  AddHealthzCheck :: "handle \<Rightarrow> string \<Rightarrow> 'o \<Rightarrow> 'e option \<times> 'o"
  AddReadyzCheck :: "handle \<Rightarrow> string \<Rightarrow> 'o \<Rightarrow> 'e option \<times> 'o"
  StartManager :: "handle \<Rightarrow> handle \<Rightarrow> 'o \<Rightarrow> 'e option \<times> 'o"
  ReadBuildInfo :: "(string \<times> string) list option"
  GoVersion :: string

datatype 'e log_entry =
    LogError 'e string "(string \<times> string) list"
  | LogInfo string "(string \<times> string) list"
  | LogDebug string "(string \<times> string) list"

record ('o, 'e) process =
  world :: 'o
  messages :: "'e log_entry list"

text \<open>How a process ends: \<open>os.Exit\<close> in this code, in \<open>GetConfigOrDie\<close>, or the return of \<open>main\<close>.\<close>

datatype ending = Exit int | Died | Completed

definition call :: "('o \<Rightarrow> 'r \<times> 'o) \<Rightarrow> ('o, 'e) process \<Rightarrow> 'r \<times> ('o, 'e) process" where
  "call f p = (let (r, u) = f (world p) in (r, p\<lparr>world := u\<rparr>))"

definition log_message :: "'e log_entry \<Rightarrow> ('o, 'e) process \<Rightarrow> ('o, 'e) process" where
  "log_message m p = p\<lparr>messages := messages p @ [m]\<rparr>"

text \<open>\<open>setupLog.Error(err, msg, "aws.service", v)\<close> and \<open>os.Exit(1)\<close>.\<close>

definition fatal :: "'e \<Rightarrow> string \<Rightarrow> string \<Rightarrow> ('o, 'e) process \<Rightarrow> (ending + 'a) \<times> ('o, 'e) process" where
  "fatal e msg v p = (Inl (Exit 1), log_message (LogError e msg [(''aws.service'', v)]) p)"

fun stage_then ::
  "(ending + 'a) \<times> 'p \<Rightarrow> ('a \<Rightarrow> 'p \<Rightarrow> (ending + 'b) \<times> 'p) \<Rightarrow> (ending + 'b) \<times> 'p" where
  "stage_then (Inl x, p) f = (Inl x, p)"
| "stage_then (Inr a, p) f = f a p"

text \<open>A call whose error ends the process.\<close>

definition require ::
  "('o \<Rightarrow> 'e option \<times> 'o) \<Rightarrow> string \<Rightarrow> string \<Rightarrow> ('o, 'e) process \<Rightarrow> (ending + unit) \<times> ('o, 'e) process" where
  "require f msg v p =
     (case call f p of
        (Some e, p) \<Rightarrow> fatal e msg v p
      | (None, p) \<Rightarrow> (Inr (), p))"

section \<open>Before \<open>main\<close>\<close>

definition awsServiceAPIGroup :: string where
  "awsServiceAPIGroup = ''networkmanager.services.k8s.aws''"

definition awsServiceAlias :: string where
  "awsServiceAlias = ''networkmanager''"

definition GetManagerFactories :: "('o, 'e, 's, 'w) start_lib \<Rightarrow> 'o \<Rightarrow> ('w, 'e) factory list" where
  "GetManagerFactories L u = GetResourceManagerFactories L u"

definition RegisterManagerFactory :: "('o, 'e, 's, 'w) start_lib \<Rightarrow> ('w, 'e) factory \<Rightarrow> 'o \<Rightarrow> 'o" where
  "RegisterManagerFactory L f u = RegisterResourceManagerFactory L f u"

text \<open>
  The \<open>init\<close> functions, in the order of the imports: the types register themselves, then
  the factory, then \<open>main\<close> adds the types to its scheme and ignores the errors.
\<close>

definition init_types :: "('o, 'e, 's, 'w) start_lib \<Rightarrow> 'o \<Rightarrow> 'o" where
  "init_types L u = Builder_Register L SchemeBuilder [''GlobalNetwork'', ''GlobalNetworkList''] u"

definition init_factory :: "('o, 'e, 's, 'w) start_lib \<Rightarrow> 'o \<Rightarrow> 'o" where
  "init_factory L u = RegisterManagerFactory L newResourceManagerFactory u"

text \<open>\<open>AddToScheme = SchemeBuilder.AddToScheme\<close>, called as \<open>svctypes.AddToScheme\<close>.\<close>

definition AddToScheme :: "('o, 'e, 's, 'w) start_lib \<Rightarrow> 'o \<Rightarrow> 'e option \<times> 'o" where
  "AddToScheme L = Builder_AddToScheme L SchemeBuilder"

definition init_main :: "('o, 'e, 's, 'w) start_lib \<Rightarrow> 'o \<Rightarrow> 'o" where
  "init_main L u =
     snd (ackv1alpha1_AddToScheme L (snd (AddToScheme L (snd (clientgoscheme_AddToScheme L u)))))"

section \<open>\<open>main\<close>\<close>

fun dep_loop :: "string \<Rightarrow> (string \<times> string) list \<Rightarrow> string" where
  "dep_loop path [] = ''unknown''"
| "dep_loop path ((p, version) # deps) = (if p = path then version else dep_loop path deps)"

definition depVersion :: "('o, 'e, 's, 'w) start_lib \<Rightarrow> string \<Rightarrow> string" where
  "depVersion L path = (case ReadBuildInfo L of None \<Rightarrow> ''unknown'' | Some deps \<Rightarrow> dep_loop path deps)"

text \<open>\<open>ResourceDescriptor\<close> of the factory: a new descriptor.\<close>

definition ResourceDescriptor :: "('w, 'e) factory \<Rightarrow> resourceDescriptor" where
  "ResourceDescriptor f = EmptyDescriptor"

definition resourceGVKs :: "('w, 'e) factory list \<Rightarrow> GroupVersionKind list" where
  "resourceGVKs fs = fold (\<lambda>mf gvks. gvks @ [GroupVersionKindOf (ResourceDescriptor mf)]) fs []"

text \<open>The part up to the manager options: the configuration and what is parsed out of it.\<close>

definition configure ::
  "('o, 'e, 's, 'w) start_lib \<Rightarrow> ('o, 'e) process \<Rightarrow>
   (ending + start_config \<times> manager_options) \<times> ('o, 'e) process" where
  "configure L p =
     (let (ackCfg, p) = call (ParseFlags L) p;
          gvks = resourceGVKs (GetManagerFactories L (world p));
          ((err, ackCfg), p) = call (Validate L gvks ackCfg) p
      in case err of
           Some e \<Rightarrow> fatal e ''Unable to create controller manager'' awsServiceAlias p
         | None \<Rightarrow>
      (let (host, port, err) = GetHostPort L (WebhookServerAddr ackCfg)
       in case err of
            Some e \<Rightarrow> fatal e ''Unable to parse webhook server address.'' awsServiceAlias p
          | None \<Rightarrow>
      (let (namespaces, err) = GetWatchNamespaces L ackCfg
       in case err of
            Some e \<Rightarrow> fatal e ''Unable to parse watch namespaces.'' (WatchNamespace ackCfg) p
          | None \<Rightarrow>
      (let watchNamespaces = fold (\<lambda>namespace m. mput namespace () m) namespaces [];
           (watchSelectors, err) = ParseWatchSelectors L ackCfg
       in case err of
            Some e \<Rightarrow> fatal e ''Unable to parse watch selectors.'' awsServiceAlias p
          | None \<Rightarrow>
              (Inr (ackCfg,
                 \<lparr>opt_DefaultNamespaces = watchNamespaces, opt_DefaultLabelSelector = watchSelectors,
                  opt_Port = port, opt_Host = host, opt_MetricsBindAddress = MetricsAddr ackCfg,
                  opt_LeaderElection = EnableLeaderElection ackCfg,
                  opt_LeaderElectionID = ''ack-'' @ awsServiceAPIGroup,
                  opt_LeaderElectionNamespace = LeaderElectionNamespace ackCfg,
                  opt_HealthProbeBindAddress = HealthzAddr ackCfg,
                  opt_LivenessEndpointName = ''/healthz'', opt_ReadinessEndpointName = ''/readyz''\<rparr>), p)))))"

definition new_manager ::
  "('o, 'e, 's, 'w) start_lib \<Rightarrow> manager_options \<Rightarrow> ('o, 'e) process \<Rightarrow> (ending + handle) \<times> ('o, 'e) process" where
  "new_manager L options p =
     (let (config, p) = call (GetConfigOrDie L) p
      in case config of
           None \<Rightarrow> (Inl Died, p)
         | Some c \<Rightarrow>
             (let ((mgr, err), p) = call (NewManager L c options) p
              in case err of
                   Some e \<Rightarrow> fatal e ''unable to create controller manager'' awsServiceAlias p
                 | None \<Rightarrow> (Inr mgr, p)))"

definition log_build :: "('o, 'e, 's, 'w) start_lib \<Rightarrow> build_vars \<Rightarrow> ('o, 'e) process \<Rightarrow> ('o, 'e) process" where
  "log_build L version p =
     log_message (LogDebug ''build details''
       [(''aws.service'', awsServiceAlias), (''gitCommit'', GitCommit version),
        (''buildDate'', BuildDate version), (''goVersion'', GoVersion L),
        (''ackGenerateVersion'', ACKGenerateVersion),
        (''ackRuntimeVersion'', depVersion L ''github.com/aws-controllers-k8s/runtime''),
        (''awsSDKGoV2Version'', depVersion L ''github.com/aws/aws-sdk-go-v2'')])
     (log_message (LogInfo ''initializing service controller''
       [(''aws.service'', awsServiceAlias), (''version'', GitVersion version)]) p)"

definition service_controller ::
  "('o, 'e, 's, 'w) start_lib \<Rightarrow> build_vars \<Rightarrow> 'o \<Rightarrow> 's" where
  "service_controller L version u =
     WithPrometheusRegistry L (WithResourceManagerFactories L (GetManagerFactories L u)
       (WithLogger L (NewServiceController L awsServiceAlias awsServiceAPIGroup version)))"

text \<open>A webhook that cannot be set up is logged, and the next one is tried.\<close>

fun hook_loop :: "handle \<Rightarrow> ('o, 'e) webhook list \<Rightarrow> ('o, 'e) process \<Rightarrow> ('o, 'e) process" where
  "hook_loop mgr [] p = p"
| "hook_loop mgr (webhook # webhooks) p =
     (case call (hook_Setup webhook mgr) p of
        (Some e, p) \<Rightarrow> hook_loop mgr webhooks (log_message
           (LogError e (''unable to register webhook '' @ hook_UID webhook)
             [(''aws.service'', awsServiceAlias)]) p)
      | (None, p) \<Rightarrow> hook_loop mgr webhooks p)"

text \<open>The part of \<open>main\<close> that has a manager: it returns when \<open>Start\<close> does.\<close>

definition serve ::
  "('o, 'e, 's, 'w) start_lib \<Rightarrow> build_vars \<Rightarrow> start_config \<Rightarrow> handle \<Rightarrow> ('o, 'e) process \<Rightarrow>
   (ending + unit) \<times> ('o, 'e) process" where
  "serve L version ackCfg mgr p =
     (let (stopChan, p) = call (SetupSignalHandler L) p;
          p = log_build L version p;
          sc = service_controller L version (world p);
          p = (if EnableWebhookServer ackCfg then hook_loop mgr (GetWebhooks L (world p)) p else p)
      in stage_then (require (BindControllerManager L sc mgr ackCfg)
           ''unable bind to controller manager to service controller'' awsServiceAlias p) (\<lambda>_ p.
         stage_then (require (AddHealthzCheck L mgr ''health'')
           ''unable to set up health check'' awsServiceAlias p) (\<lambda>_ p.
         stage_then (require (AddReadyzCheck L mgr ''check'')
           ''unable to set up ready check'' awsServiceAlias p) (\<lambda>_ p.
         require (StartManager L mgr stopChan) ''unable to start controller manager'' awsServiceAlias
           (log_message (LogInfo ''starting manager'' [(''aws.service'', awsServiceAlias)]) p)))))"

definition main_stages ::
  "('o, 'e, 's, 'w) start_lib \<Rightarrow> build_vars \<Rightarrow> ('o, 'e) process \<Rightarrow> (ending + unit) \<times> ('o, 'e) process" where
  "main_stages L version p =
     stage_then (configure L p) (\<lambda>(ackCfg, options) p.
     stage_then (new_manager L options p) (\<lambda>mgr p. serve L version ackCfg mgr p))"

definition main ::
  "('o, 'e, 's, 'w) start_lib \<Rightarrow> build_vars \<Rightarrow> ('o, 'e) process \<Rightarrow> ending \<times> ('o, 'e) process" where
  "main L version p =
     (case main_stages L version p of (Inl x, p) \<Rightarrow> (x, p) | (Inr _, p) \<Rightarrow> (Completed, p))"

text \<open>The whole program: the initialisers, then \<open>main\<close>.\<close>

definition program ::
  "('o, 'e, 's, 'w) start_lib \<Rightarrow> build_vars \<Rightarrow> 'o \<Rightarrow> ending \<times> ('o, 'e) process" where
  "program L version u =
     main L version \<lparr>world = init_main L (init_factory L (init_types L u)), messages = []\<rparr>"

section \<open>How the process ends\<close>

definition hook_message :: string where
  "hook_message = ''unable to register webhook ''"

text \<open>An error that is not one of a webhook.\<close>

fun fatal_entry :: "'e log_entry \<Rightarrow> bool" where
  "fatal_entry (LogError e msg v) \<longleftrightarrow> \<not> prefix hook_message msg"
| "fatal_entry _ \<longleftrightarrow> False"

definition quiet :: "('o, 'e) process \<Rightarrow> ('o, 'e) process \<Rightarrow> bool" where
  "quiet p p' \<longleftrightarrow> (\<exists>new. messages p' = messages p @ new \<and> \<not> list_ex fatal_entry new)"

definition failed :: "('o, 'e) process \<Rightarrow> ('o, 'e) process \<Rightarrow> bool" where
  "failed p p' \<longleftrightarrow> (\<exists>new e msg v. messages p' = messages p @ new @ [LogError e msg [(''aws.service'', v)]] \<and>
     \<not> list_ex fatal_entry new \<and> fatal_entry (LogError e msg [(''aws.service'', v)]))"

text \<open>What every stage guarantees of its messages, and how the guarantees compose.\<close>

definition stage_ok :: "('o, 'e) process \<Rightarrow> (ending + 'a) \<times> ('o, 'e) process \<Rightarrow> bool" where
  "stage_ok p r = (case r of
       (Inl (Exit c), p') \<Rightarrow> c = 1 \<and> failed p p'
     | (Inl Died, p') \<Rightarrow> quiet p p'
     | (Inl Completed, p') \<Rightarrow> False
     | (Inr _, p') \<Rightarrow> quiet p p')"

named_theorems stage_intros \<open>the messages of the stages of the start-up\<close>

lemma quiet_refl [simp, intro]: "quiet p p"
  by (simp add: quiet_def)

lemma quiet_trans: "quiet p p' \<Longrightarrow> quiet p' p'' \<Longrightarrow> quiet p p''"
  by (auto simp: quiet_def)

lemma quiet_failed: "quiet p p' \<Longrightarrow> failed p' p'' \<Longrightarrow> failed p p''"
  by (fastforce simp: quiet_def failed_def)

lemma quiet_log [stage_intros]: "\<not> fatal_entry m \<Longrightarrow> quiet p p' \<Longrightarrow> quiet p (log_message m p')"
  by (auto simp: quiet_def log_message_def)

lemma quiet_call: "call f p' = (r, p'') \<Longrightarrow> quiet p p' \<Longrightarrow> quiet p p''"
  by (auto simp: call_def quiet_def split: prod.splits)

lemma stage_before:
  "quiet p p' \<Longrightarrow> stage_ok p' r \<Longrightarrow> stage_ok p r"
  by (auto simp: stage_ok_def intro: quiet_trans quiet_failed split: prod.splits sum.splits ending.splits)

lemma stage_then_ok [stage_intros]:
  assumes "stage_ok p r" and "\<And>a p'. r = (Inr a, p') \<Longrightarrow> quiet p p' \<Longrightarrow> stage_ok p' (f a p')"
  shows "stage_ok p (stage_then r f)"
proof (cases "(r, f)" rule: stage_then.cases)
  case (1 x p' f')
  with assms(1) show ?thesis by (simp add: stage_ok_def split: ending.splits)
next
  case (2 a p' f')
  with assms have "quiet p p'" by (simp add: stage_ok_def)
  with 2 assms(2) [of a p'] show ?thesis by (simp add: stage_before)
qed

lemma stage_Inr [stage_intros]: "quiet p p' \<Longrightarrow> stage_ok p (Inr a, p')"
  by (simp add: stage_ok_def)

lemma stage_fatal [stage_intros]:
  "quiet p p' \<Longrightarrow> \<not> prefix hook_message msg \<Longrightarrow> stage_ok p (fatal e msg v p')"
  by (auto simp: stage_ok_def fatal_def failed_def quiet_def log_message_def)

lemma stage_Died [stage_intros]: "quiet p p' \<Longrightarrow> stage_ok p (Inl Died, p')"
  by (simp add: stage_ok_def)

lemma require_ok [stage_intros]:
  "\<not> prefix hook_message msg \<Longrightarrow> quiet p p' \<Longrightarrow> stage_ok p (require f msg v p')"
  by (auto simp: require_def intro!: stage_intros elim!: quiet_call split: prod.split option.split)

lemma configure_ok [stage_intros]: "stage_ok p (configure L p)"
  by (auto simp: configure_def Let_def hook_message_def intro!: stage_intros
      split: prod.split option.split) (blast intro: quiet_call)+

lemma new_manager_ok [stage_intros]: "stage_ok p (new_manager L options p)"
  by (auto simp: new_manager_def Let_def hook_message_def intro!: stage_intros
      split: prod.split option.split) (blast intro: quiet_call)+

lemma hook_loop_quiet [stage_intros]: "quiet p p' \<Longrightarrow> quiet p (hook_loop mgr hooks p')"
proof (induction hooks arbitrary: p')
  case (Cons h hooks)
  then show ?case
    by (auto simp: hook_message_def intro!: Cons.IH quiet_log intro: quiet_call
        split: prod.split option.split)
qed simp

lemma serve_ok [stage_intros]: "stage_ok p (serve L version ackCfg mgr p)"
proof -
  have "stage_ok p (let p = (if b then hook_loop mgr hooks p' else p') in
      stage_then (require bind ''unable bind to controller manager to service controller'' v p) (\<lambda>_ p.
      stage_then (require health ''unable to set up health check'' v p) (\<lambda>_ p.
      stage_then (require ready ''unable to set up ready check'' v p) (\<lambda>_ p.
      require start ''unable to start controller manager'' v (log_message (LogInfo m kvs) p)))))"
    if "quiet p p'" for b hooks p' bind health ready start v m kvs
    using that by (auto simp: Let_def hook_message_def intro!: stage_intros)
  from this [of "log_build L version q" for q]
  show ?thesis
    by (auto simp: serve_def log_build_def Let_def intro!: stage_intros hook_loop_quiet
        simp: hook_message_def elim!: quiet_call split: prod.split)
qed

text \<open>A stage that goes on, and the call it ends with.\<close>

lemma stage_then_Inr:
  "stage_then r f = (Inr b, p') \<longleftrightarrow> (\<exists>a q. r = (Inr a, q) \<and> f a q = (Inr b, p'))"
  by (cases "(r, f)" rule: stage_then.cases) auto

lemma require_Inr: "require f msg v p = (Inr u, p') \<longleftrightarrow> call f p = (None, p')"
  by (auto simp: require_def fatal_def split: prod.split option.split)

definition starting :: "'e log_entry" where
  "starting = LogInfo ''starting manager'' [(''aws.service'', awsServiceAlias)]"

lemma serve_started:
  assumes "serve L version ackCfg mgr p = (Inr u, p')"
  shows "\<exists>ch w. StartManager L mgr ch w = (None, world p') \<and> last (messages p') = starting"
  using assms
  by (auto simp: serve_def Let_def stage_then_Inr require_Inr call_def log_message_def starting_def
      split: prod.splits) blast

lemma main_stages_of:
  assumes "main L version p = (x, p')"
  obtains r where "main_stages L version p = (r, p')" and "stage_ok p (r, p')"
    and "r = Inl x \<or> (\<exists>u. r = Inr u \<and> x = Completed)"
proof -
  obtain r q where r: "main_stages L version p = (r, q)" by fastforce
  have "stage_ok p (r, q)"
    unfolding r [symmetric] main_stages_def by (auto intro!: stage_intros)
  with r assms show ?thesis
    by (cases r) (auto simp: main_def intro: that)
qed

section \<open>Properties\<close>

text \<open>
  C31: the exit status tells how the start-up went. The process logs at most one error that is
  not one of a webhook; it exits with status 1 exactly when it logged one, which is then
  the last message. It returns only after \<open>Start\<close> of the manager returned without error, and
  \<open>"starting manager"\<close> is then its last message. A failing webhook never ends the process.
\<close>

theorem exit_tells_error:
  assumes "main L version p = (x, p')"
  shows "(case x of
      Exit c \<Rightarrow> c = 1 \<and> failed p p'
    | Died \<Rightarrow> quiet p p'
    | Completed \<Rightarrow> quiet p p' \<and> last (messages p') = starting \<and>
        (\<exists>mgr ch w. StartManager L mgr ch w = (None, world p')))"
proof -
  obtain r where r: "main_stages L version p = (r, p')" and ok: "stage_ok p (r, p')"
    and x: "r = Inl x \<or> (\<exists>u. r = Inr u \<and> x = Completed)"
    by (rule main_stages_of [OF assms])
  show ?thesis
  proof (cases r)
    case (Inl y)
    with x ok show ?thesis by (auto simp: stage_ok_def split: ending.splits)
  next
    case (Inr u)
    with r obtain ackCfg mgr q where "serve L version ackCfg mgr q = (Inr u, p')"
      by (auto simp: main_stages_def stage_then_Inr)
    with serve_started [of L version ackCfg mgr q u p'] ok Inr x show ?thesis
      by (auto simp: stage_ok_def)
  qed
qed

text \<open>
  The registry is a list of factories only \<open>RegisterManagerFactory\<close> adds to. What the start-up
  calls before it reads the list leaves it alone.
\<close>

definition registry_lib_ok :: "('o, 'e, 's, 'w) start_lib \<Rightarrow> bool" where
  "registry_lib_ok L \<longleftrightarrow>
     (let reg = GetResourceManagerFactories L in
      (\<forall>f u. reg (RegisterResourceManagerFactory L f u) = reg u @ [f]) \<and>
      (\<forall>b ks u. reg (Builder_Register L b ks u) = reg u) \<and>
      (\<forall>u. reg (snd (clientgoscheme_AddToScheme L u)) = reg u \<and>
        (\<forall>b. reg (snd (Builder_AddToScheme L b u)) = reg u) \<and> reg (snd (ackv1alpha1_AddToScheme L u)) = reg u \<and>
        reg (snd (ParseFlags L u)) = reg u \<and> reg (snd (GetConfigOrDie L u)) = reg u \<and>
        reg (snd (SetupSignalHandler L u)) = reg u) \<and>
      (\<forall>gvks c u. reg (snd (Validate L gvks c u)) = reg u) \<and>
      (\<forall>c opts u. reg (snd (NewManager L c opts u)) = reg u))"

lemma registry_lib_okD:
  assumes "registry_lib_ok L"
  shows "GetResourceManagerFactories L (RegisterResourceManagerFactory L f u) = GetResourceManagerFactories L u @ [f]"
    and "GetResourceManagerFactories L (Builder_Register L b ks u) = GetResourceManagerFactories L u"
    and "GetResourceManagerFactories L (snd (clientgoscheme_AddToScheme L u)) = GetResourceManagerFactories L u"
    and "GetResourceManagerFactories L (snd (Builder_AddToScheme L b u)) = GetResourceManagerFactories L u"
    and "GetResourceManagerFactories L (snd (ackv1alpha1_AddToScheme L u)) = GetResourceManagerFactories L u"
    and "ParseFlags L u = (c, u') \<Longrightarrow> GetResourceManagerFactories L u' = GetResourceManagerFactories L u"
    and "GetConfigOrDie L u = (h, u') \<Longrightarrow> GetResourceManagerFactories L u' = GetResourceManagerFactories L u"
    and "SetupSignalHandler L u = (h', u') \<Longrightarrow> GetResourceManagerFactories L u' = GetResourceManagerFactories L u"
    and "Validate L gvks c u = (r, u') \<Longrightarrow> GetResourceManagerFactories L u' = GetResourceManagerFactories L u"
    and "NewManager L k opts u = (m, u') \<Longrightarrow> GetResourceManagerFactories L u' = GetResourceManagerFactories L u"
proof -
  note d = assms [unfolded registry_lib_ok_def Let_def]
  show "GetResourceManagerFactories L (RegisterResourceManagerFactory L f u) = GetResourceManagerFactories L u @ [f]"
    "GetResourceManagerFactories L (Builder_Register L b ks u) = GetResourceManagerFactories L u"
    "GetResourceManagerFactories L (snd (clientgoscheme_AddToScheme L u)) = GetResourceManagerFactories L u"
    "GetResourceManagerFactories L (snd (Builder_AddToScheme L b u)) = GetResourceManagerFactories L u"
    "GetResourceManagerFactories L (snd (ackv1alpha1_AddToScheme L u)) = GetResourceManagerFactories L u"
    using d by simp_all
  show "ParseFlags L u = (c, u') \<Longrightarrow> GetResourceManagerFactories L u' = GetResourceManagerFactories L u"
    "GetConfigOrDie L u = (h, u') \<Longrightarrow> GetResourceManagerFactories L u' = GetResourceManagerFactories L u"
    "SetupSignalHandler L u = (h', u') \<Longrightarrow> GetResourceManagerFactories L u' = GetResourceManagerFactories L u"
    "Validate L gvks c u = (r, u') \<Longrightarrow> GetResourceManagerFactories L u' = GetResourceManagerFactories L u"
    "NewManager L k opts u = (m, u') \<Longrightarrow> GetResourceManagerFactories L u' = GetResourceManagerFactories L u"
    using d by (metis snd_conv)+
qed

text \<open>The stages that go on: what they called, and that the registry is as before.\<close>

lemma resourceGVKs_eq: "resourceGVKs fs = replicate (length fs) (GroupVersionKindOf EmptyDescriptor)"
proof -
  have "fold (\<lambda>mf gvks. gvks @ [GroupVersionKindOf (ResourceDescriptor mf)]) fs acc = acc @ replicate (length fs) (GroupVersionKindOf EmptyDescriptor)" for acc
    by (induction fs arbitrary: acc) (simp_all add: replicate_append_same ResourceDescriptor_def)
  then show ?thesis by (simp add: resourceGVKs_def)
qed

lemma namespaces_dom [simp]: "dom (mget (fold (\<lambda>n. mput n ()) ns [])) = set ns"
proof -
  have "dom (mget (fold (\<lambda>n. mput n ()) ns m)) = dom (mget m) \<union> set ns" for m
    by (induction ns arbitrary: m) (auto simp: gm.get_put)
  then show ?thesis by (simp add: mget_def)
qed

lemma configure_Inr:
  assumes "registry_lib_ok L" and "configure L p = (Inr (ackCfg, options), p')"
  obtains cfg0 u where "Validate L (resourceGVKs (GetResourceManagerFactories L (world p))) cfg0 u = ((None, ackCfg), world p')"
    and "dom (mget (opt_DefaultNamespaces options)) = set (fst (GetWatchNamespaces L ackCfg))"
    and "opt_LeaderElectionID options = ''ack-networkmanager.services.k8s.aws''"
    and "GetResourceManagerFactories L (world p') = GetResourceManagerFactories L (world p)"
  using assms(2) registry_lib_okD(6,9) [OF assms(1)]
  by (auto simp: configure_def GetManagerFactories_def call_def Let_def fatal_def awsServiceAPIGroup_def
      split: prod.splits option.splits)

lemma new_manager_Inr:
  assumes "registry_lib_ok L" and "new_manager L options p = (Inr mgr, p')"
  obtains k u where "NewManager L k options u = ((mgr, None), world p')"
    and "GetResourceManagerFactories L (world p') = GetResourceManagerFactories L (world p)"
  using assms(2) registry_lib_okD(7,10) [OF assms(1)]
  by (auto simp: new_manager_def call_def Let_def fatal_def split: prod.splits option.splits)

lemma world_log [simp]: "world (log_message m p) = world p" "world (log_build L version p) = world p"
  by (simp_all add: log_message_def log_build_def)

lemma serve_Inr:
  assumes "registry_lib_ok L" and "serve L version ackCfg mgr p = (Inr x, p')"
  shows "\<exists>u u'. BindControllerManager L (WithPrometheusRegistry L (WithResourceManagerFactories L
      (GetResourceManagerFactories L (world p))
      (WithLogger L (NewServiceController L ''networkmanager'' ''networkmanager.services.k8s.aws'' version))))
    mgr ackCfg u = (None, u')"
proof -
  obtain ch u where h: "SetupSignalHandler L (world p) = (ch, u)" by fastforce
  have "service_controller L version u = WithPrometheusRegistry L (WithResourceManagerFactories L
      (GetResourceManagerFactories L (world p))
      (WithLogger L (NewServiceController L ''networkmanager'' ''networkmanager.services.k8s.aws'' version)))"
    using registry_lib_okD(8) [OF assms(1) h]
    by (simp add: service_controller_def GetManagerFactories_def awsServiceAlias_def awsServiceAPIGroup_def)
  moreover have "\<exists>w u'. BindControllerManager L (service_controller L version u) mgr ackCfg w = (None, u')"
    using assms(2) h by (auto simp: serve_def Let_def stage_then_Inr require_Inr call_def split: prod.splits)
  ultimately show ?thesis by simp
qed

text \<open>
  C32: what runs is one controller for one kind. When the program returns, the configuration
  was validated for the kind \<open>GlobalNetwork\<close> alone, the manager was made to watch exactly the
  configured namespaces, and the service controller was bound to it with the one factory
  of this repository.
\<close>

theorem program_serves_one_kind:
  assumes "registry_lib_ok L" and "GetResourceManagerFactories L u = []"
    and "program L version u = (Completed, p')"
  shows "\<exists>cfg0 ackCfg options mgr k u1 u2 u3 u4 u5 u6.
    Validate L [GroupVersionKindOf EmptyDescriptor] cfg0 u1 = ((None, ackCfg), u2) \<and>
    NewManager L k options u3 = ((mgr, None), u4) \<and>
    dom (mget (opt_DefaultNamespaces options)) = set (fst (GetWatchNamespaces L ackCfg)) \<and>
    opt_LeaderElectionID options = ''ack-networkmanager.services.k8s.aws'' \<and>
    BindControllerManager L (WithPrometheusRegistry L (WithResourceManagerFactories L [newResourceManagerFactory]
        (WithLogger L (NewServiceController L ''networkmanager'' ''networkmanager.services.k8s.aws'' version))))
      mgr ackCfg u5 = (None, u6)"
proof -
  let ?p = "\<lparr>world = init_main L (init_factory L (init_types L u)), messages = []\<rparr> :: ('a, 'b) process"
  have reg: "GetResourceManagerFactories L (world ?p) = [newResourceManagerFactory]"
    by (simp add: init_main_def init_factory_def init_types_def AddToScheme_def RegisterManagerFactory_def
        registry_lib_okD [OF assms(1)] assms(2))
  have main: "main L version ?p = (Completed, p')" using assms(3) by (simp add: program_def)
  obtain r where "main_stages L version ?p = (r, p')" "stage_ok ?p (r, p')"
    "r = Inl Completed \<or> (\<exists>x. r = Inr x \<and> Completed = Completed)"
    by (rule main_stages_of [OF main])
  then obtain x where "main_stages L version ?p = (Inr x, p')" by (auto simp: stage_ok_def)
  then obtain ackCfg options p1 mgr p2 where conf: "configure L ?p = (Inr (ackCfg, options), p1)"
    and new: "new_manager L options p1 = (Inr mgr, p2)" and serve: "serve L version ackCfg mgr p2 = (Inr x, p')"
    by (auto simp: main_stages_def stage_then_Inr)
  obtain cfg0 u1 where c: "Validate L [GroupVersionKindOf EmptyDescriptor] cfg0 u1 = ((None, ackCfg), world p1)"
    "dom (mget (opt_DefaultNamespaces options)) = set (fst (GetWatchNamespaces L ackCfg))"
    "opt_LeaderElectionID options = ''ack-networkmanager.services.k8s.aws''"
    "GetResourceManagerFactories L (world p1) = [newResourceManagerFactory]"
    using configure_Inr [OF assms(1) conf] by (simp only: reg) (auto simp: resourceGVKs_eq)
  obtain k u3 where n: "NewManager L k options u3 = ((mgr, None), world p2)"
    "GetResourceManagerFactories L (world p2) = [newResourceManagerFactory]"
    using new_manager_Inr [OF assms(1) new] c(4) by metis
  show ?thesis
    using c n(1) serve_Inr [OF assms(1) serve] unfolding n(2) by blast
qed

end
