(* ===== verification/Witnesses.thy ===== *)
theory Witnesses
  imports ExampleService Reconcile Startup
begin

text \<open>
  The properties at work: for every property that has hypotheses, an instance on concrete
  values at which they hold. The values are a network \<open>n1\<close> of the example service, whose
  description and tags are to be changed, and the objects around it.
\<close>

section \<open>The values\<close>

definition ex_world :: world where
  "ex_world = \<lparr>w_nets = [(''n1'', Some ''old'', ''AVAILABLE'')],
     w_tags = [(arn_of ''n1'', [(''env'', ''dev''), (''aws:stack'', ''s1''), (''tmp'', ''1'')])], w_gone = []\<rparr>"

definition ex_env :: "(world, string) env" where
  "ex_env = \<lparr>svc = ex_world, api_calls = []\<rparr>"

definition ex_rm :: "(world, string) resourceManager" where
  "ex_rm = \<lparr>cfg = \<lparr>cfg_Partition = ''aws'', cfg_rest = ''''\<rparr>, clientcfg = '''', awsAccountID = ''123456789012'',
     awsRegion = ''us-west-2'', awsPartition = ''aws'', sdkapi = example_client\<rparr>"

definition ex_sched :: sched where
  "ex_sched = (\<lambda>n. if n = 0 then reverse_order else stored_order)"

definition ex_condition :: condition where
  "ex_condition = \<lparr>cond_Type = ''ACK.Terminal'', cond_Status = ''True'', cond_LastTransitionTime = None,
     cond_Message = Some ''old'', cond_Reason = None\<rparr>"

definition ex_object :: "string option \<Rightarrow> (string \<times> string) list \<Rightarrow> string option \<Rightarrow> GlobalNetwork" where
  "ex_object d ts i = \<lparr>TypeMeta = \<lparr>Kind = ''GlobalNetwork'', APIVersion = ''v1alpha1''\<rparr>,
     ObjectMeta = \<lparr>om_Name = ''net'', om_Namespace = ''default'', DeletionTimestamp = None,
       Finalizers = Some [''other''], Annotations = None, om_rest = ''''\<rparr>,
     Spec = \<lparr>Description = d, Tags = Some (tag_list ts)\<rparr>,
     Status = \<lparr>ACKResourceMetadata = Some (empty_metadata\<lparr>ARN := map_option arn_of i\<rparr>),
       Conditions = Some [Some ex_condition], CreatedAt = None, GlobalNetworkID = i,
       State = Some ''AVAILABLE''\<rparr>\<rparr>"

definition ex_desired :: GlobalNetwork where
  "ex_desired = ex_object (Some ''new'') [(''env'', ''prod''), (''team'', ''net'')] (Some ''n1'')"

definition ex_latest :: GlobalNetwork where
  "ex_latest = ex_object (Some ''old'') [(''env'', ''dev''), (''aws:stack'', ''s1''), (''tmp'', ''1'')] (Some ''n1'')"

definition ex_delta :: "string list" where
  "ex_delta = [''Spec.Description'', ''Spec.Tags'']"

abbreviation ex_res :: "GlobalNetwork \<Rightarrow> resource" where
  "ex_res g \<equiv> \<lparr>ko = Some g\<rparr>"

abbreviation ex_ptr :: "GlobalNetwork \<Rightarrow> aws_resource" where
  "ex_ptr g \<equiv> ResourcePtr (Some \<lparr>ko = Some g\<rparr>)"

lemma ex_object_sel [simp]:
  "Description (Spec (ex_object d ts i)) = d" "Tags (Spec (ex_object d ts i)) = Some (tag_list ts)"
  "GlobalNetworkID (Status (ex_object d ts i)) = i"
  "conds_of (ex_object d ts i) = [Some ex_condition]"
  "ACKResourceMetadata (Status (ex_object d ts i)) = Some (empty_metadata\<lparr>ARN := map_option arn_of i\<rparr>)"
  "ARN (metadata_of (ex_object d ts i)) = map_option arn_of i"
  "State (Status (ex_object d ts i)) = Some ''AVAILABLE''"
  by (simp_all add: ex_object_def metadata_of_def)

lemma ex_tags [simp]:
  "tags_wf (Some (tag_list ts))" "tags_full (Some (tag_list ts))"
  "distinct (map fst ts) \<Longrightarrow> tags_normal (Some (tag_list ts))"
  "distinct (map fst ts) \<Longrightarrow> tag_map (Some (tag_list ts)) = map_of ts"
  by (simp_all add: tags_normal_def tags_full_def tag_map_def tags_full_wf map_of_rev_distinct)

declare tag_list_simps [simp del]

lemma ex_conds_wf [simp]: "conds_wf [Some ex_condition]"
  by (simp add: conds_wf_def)

lemma ex_service [simp]: "service_ok example_rt (sdkapi ex_rm) example_nets example_tagging"
  by (simp add: ex_rm_def example_service)

lemmas ex_libs = example_tags_lib example_compare_lib example_errors_lib example_condition_types

definition ex_network :: sdk_global_network where
  "ex_network = the (example_nets ex_world ''n1'')"

lemma ex_network_found: "example_nets (svc ex_env) ''n1'' = Some ex_network"
  by (simp add: ex_env_def ex_network_def example_nets_def ex_world_def)

lemma ex_network_sel [simp]:
  "sdk_Description ex_network = Some ''old''" "sdk_GlobalNetworkArn ex_network = Some (arn_of ''n1'')"
  by (simp_all add: ex_network_def example_nets_def ex_world_def)

lemma ex_network_tags: "net_tags ex_network = map_of [(''env'', ''dev''), (''aws:stack'', ''s1''), (''tmp'', ''1'')]"
  by (simp add: ex_network_def example_nets_def ex_world_def net_tags_def sdk_tags_law held_def fun_eq_iff)

lemma ex_latest_tags: "tag_map (Tags (Spec ex_latest)) = net_tags ex_network"
  by (simp add: ex_latest_def ex_network_tags)

lemma ex_delta: "newResourceDelta example_rt (Some (ex_res ex_desired)) (Some (ex_res ex_latest)) = Ret ex_delta"
  by code_simp

lemma ex_update_pre: "update_pre example_rt ''n1'' ex_network ex_desired ex_latest ex_delta"
  by (simp add: update_pre_def ex_delta ex_latest_tags)
    (simp add: ex_desired_def ex_latest_def)

text \<open>An update and the read after it, run to the end.\<close>

definition ex_updated :: "resource \<times> (world, string) env" where
  "ex_updated = (case sdkUpdate example_rt ex_sched ex_rm (ex_res ex_desired) (ex_res ex_latest) ex_delta ex_env of
     (Ret (Some r, _), w') \<Rightarrow> (r, w') | (_, w') \<Rightarrow> (\<lparr>ko = None\<rparr>, w'))"

definition ex_reread :: "resource \<Rightarrow> (world, string) env \<Rightarrow> resource \<times> (world, string) env" where
  "ex_reread r w = (case sdkFind example_rt ex_rm r w of
     (Ret (Some r', _), w') \<Rightarrow> (r', w') | (_, w') \<Rightarrow> (\<lparr>ko = None\<rparr>, w'))"

lemma ex_update_runs:
  "sdkUpdate example_rt ex_sched ex_rm (ex_res ex_desired) (ex_res ex_latest) ex_delta ex_env =
     (Ret (Some (fst ex_updated), None), snd ex_updated)"
  by code_simp

lemma ex_reread_runs:
  "sdkFind example_rt ex_rm (fst ex_updated) (snd ex_updated) =
     (Ret (Some (fst (ex_reread (fst ex_updated) (snd ex_updated))), None),
      snd (ex_reread (fst ex_updated) (snd ex_updated)))"
  by code_simp

section \<open>Tags\<close>

definition ex_tags_list :: "tag option slice" where
  "ex_tags_list = Some (tag_list [(''env'', ''prod''), (''team'', ''net'')])"

lemma ex_tags_list_law [simp]:
  "tags_normal ex_tags_list" "tags_full ex_tags_list"
  "tag_map ex_tags_list = map_of [(''env'', ''prod''), (''team'', ''net'')]"
  by (simp_all add: ex_tags_list_def)

theorem tag_conversion_roundtrip_witness:
  "\<exists>m ks. convertToOrderedACKTags example_rt ex_tags_list = Ret (m, ks) \<and> mget m = tag_map ex_tags_list \<and>
    elems (fst (fromACKTags reverse_order m ks)) = elems ex_tags_list"
  by (rule tag_conversion_roundtrip) (simp_all add: tags_lib_okD(1) [OF example_tags_lib])

definition ex_map :: "string gomap" where
  "ex_map = [(''b'', ''2''), (''a'', ''1''), (''c'', ''3'')]"

definition ex_existing :: "tag option slice" where
  "ex_existing = Some (tag_list [(''env'', ''dev''), (''tmp'', ''1'')])"

lemma ex_existing_law [simp]:
  "tags_full ex_existing" "tag_map ex_existing = map_of [(''env'', ''dev''), (''tmp'', ''1'')]"
  by (simp_all add: ex_existing_def)

definition ex_sync :: "string option outcome \<times> (world, string) env" where
  "ex_sync = SyncTags ex_sched example_client (arn_of ''n1'') ex_tags_list ex_existing ex_env"

lemma ex_sync_run: "fst ex_sync = Ret None" and ex_sync_calls: "map (fst \<circ> snd) (api_calls (snd ex_sync)) = [''TagResource'', ''UntagResource'']"
  by code_simp+

lemma ex_tagging: "example_tagging (svc ex_env) (arn_of ''n1'') =
    map_of [(''env'', ''dev''), (''aws:stack'', ''s1''), (''tmp'', ''1'')]"
  by (simp add: example_tagging_def ex_env_def ex_world_def held_def fun_eq_iff)

theorem sync_tags_converges_witness:
  "example_tagging (svc (snd ex_sync)) (arn_of ''n1'') ''env'' = Some ''prod'' \<and>
   example_tagging (svc (snd ex_sync)) (arn_of ''n1'') ''tmp'' = None \<and>
   example_tagging (svc (snd ex_sync)) (arn_of ''n1'') ''aws:stack'' = Some ''s1''"
proof -
  have ok: "tag_service_ok example_client example_tagging"
    using example_service by (simp add: service_ok_def)
  have le: "tag_map ex_existing \<subseteq>\<^sub>m example_tagging (svc ex_env) (arn_of ''n1'')"
    by (auto simp: map_le_def ex_tagging)
  have run: "SyncTags ex_sched example_client (arn_of ''n1'') ex_tags_list ex_existing ex_env = (Ret None, snd ex_sync)"
    using ex_sync_run by (simp add: ex_sync_def prod_eq_iff)
  from sync_tags_converges [OF ok _ _ le run] show ?thesis
    by (simp add: ex_tagging restrict_map_def)
qed

theorem sync_tags_calls_witness:
  "\<exists>err tagErr w'. SyncTags ex_sched example_client (arn_of ''n1'') ex_tags_list ex_existing ex_env = (Ret err, w') \<and>
    (let set_any = (\<exists>k v. tag_map ex_tags_list k = Some v \<and> tag_map ex_existing k \<noteq> Some v);
         drop_any = (\<exists>k. tag_map ex_existing k \<noteq> None \<and> tag_map ex_tags_list k = None);
         untag = drop_any \<and> (set_any \<longrightarrow> tagErr = None)
     in api_calls w' = api_calls ex_env @
          (if set_any then [(''UPDATE'', ''TagResource'', tagErr)] else []) @
          (if untag then [(''UPDATE'', ''UntagResource'', err)] else []) \<and>
        (\<not> untag \<longrightarrow> err = (if set_any then tagErr else None)))"
  by (rule sync_tags_calls) simp_all

section \<open>The delta\<close>

theorem delta_reports_differences_witness:
  "\<exists>d. newResourceDelta example_rt (Some (ex_res ex_desired)) (Some (ex_res ex_latest)) = Ret d \<and>
    DifferentAt example_rt d ''Spec.Tags'' \<and> DifferentAt example_rt d ''Spec.Description'' \<and>
    DifferentExcept example_rt d [''Spec.Tags'']"
proof -
  have wf: "tags_wf (Tags (Spec ex_desired))" "tags_wf (Tags (Spec ex_latest))"
    by (simp_all add: ex_desired_def ex_latest_def)
  have "tag_map (Tags (Spec ex_desired)) ''env'' \<noteq> tag_map (Tags (Spec ex_latest)) ''env''"
    and "Description (Spec ex_desired) \<noteq> Description (Spec ex_latest)"
    by (simp_all add: ex_desired_def ex_latest_def)
  then have differ: "tag_map (Tags (Spec ex_desired)) \<noteq> tag_map (Tags (Spec ex_latest))"
    "Description (Spec ex_desired) \<noteq> Description (Spec ex_latest)" by auto
  from delta_reports_differences [OF example_tags_lib example_compare_lib wf] differ show ?thesis by simp
qed

section \<open>Conditions\<close>

theorem update_conditions_refines_witness:
  "\<exists>cs. conds_wf cs \<and>
    cond_map cs = conditions_spec example_rt (Some ''ThrottlingException'') (cond_map (conds_of ex_desired)) \<and>
    updateConditions example_rt ex_rm (ex_res ex_desired) False (Some ''ThrottlingException'') =
      Ret (if dom (cond_map cs) \<inter> status_types example_rt \<noteq> {}
           then (Some \<lparr>ko = Some (with_conditions cs (setStatusDefaults ex_rm ex_desired))\<rparr>, True)
           else (None, False))"
  by (rule update_conditions_refines [OF example_errors_lib example_condition_types])
    (simp_all add: ex_desired_def)

lemma ex_ko: "ko (ex_res g) = Some g"
  by simp

lemma ex_terminal: "is_terminal example_rt (Some ''ValidationException'')"
  by (simp add: is_terminal_def terminalAWSError_def example_rt_def)

theorem on_error_classifies_witness:
  "\<exists>g'. onError example_rt ex_rm (Some (ex_res ex_desired)) (Some ''ValidationException'') =
      Ret (ex_ptr g', Some ''terminal'') \<and>
    cond_up (conds_of g') ''ACK.Terminal'' \<and> Spec g' = Spec ex_desired"
proof -
  have wf: "conds_wf (conds_of ex_desired)" by (simp add: ex_desired_def)
  have names: "Terminal example_rt = ''terminal''" "ConditionTypeTerminal example_rt = ''ACK.Terminal''"
    by (simp_all add: example_rt_def)
  from on_error_classifies [OF example_errors_lib example_condition_types ex_ko wf,
      of ex_rm "''ValidationException''"]
  show ?thesis by (auto simp: ex_terminal names)
qed

theorem on_success_clears_witness:
  "\<exists>g' c. onSuccess example_rt ex_rm (Some (ex_res ex_desired)) = Ret (ex_ptr g', None) \<and>
    cond_map (conds_of g') ''ACK.Terminal'' = Some c \<and> cond_Status c = ''False'' \<and> cond_Message c = None"
proof -
  have wf: "conds_wf (conds_of ex_desired)" by (simp add: ex_desired_def)
  obtain g' where run: "onSuccess example_rt ex_rm (Some (ex_res ex_desired)) = Ret (ex_ptr g', None)"
    and clear: "\<forall>ty c. cond_map (conds_of g') ty = Some c \<longrightarrow>
       (if ty \<in> {ConditionTypeTerminal example_rt, ConditionTypeRecoverable example_rt}
        then cond_Status c = ConditionFalse \<and> cond_Message c = None
        else cond_map (conds_of ex_desired) ty = Some c)"
    and dom: "dom (cond_map (conds_of g')) = dom (cond_map (conds_of ex_desired))"
    using on_success_clears [OF example_errors_lib example_condition_types ex_ko wf, of ex_rm] by blast
  have "''ACK.Terminal'' \<in> dom (cond_map (conds_of g'))"
    unfolding dom by (simp add: ex_desired_def cond_map_def ex_condition_def)
  then obtain c where c: "cond_map (conds_of g') ''ACK.Terminal'' = Some c" by blast
  have "ConditionTypeTerminal example_rt = ''ACK.Terminal''" by (simp add: example_rt_def)
  with clear c have "cond_Status c = ''False'' \<and> cond_Message c = None" by auto
  with run c show ?thesis by blast
qed

section \<open>The operations on the service\<close>

theorem update_then_find_no_delta_witness:
  "\<exists>r w' r' w'' d'.
     sdkUpdate example_rt ex_sched ex_rm (ex_res ex_desired) (ex_res ex_latest) ex_delta ex_env = (Ret (Some r, None), w') \<and>
     sdkFind example_rt ex_rm r w' = (Ret (Some r', None), w'') \<and>
     newResourceDelta example_rt (Some (ex_res ex_desired)) (Some r') = Ret d' \<and>
     \<not> DifferentAt example_rt d' ''Spec.Tags'' \<and> \<not> DifferentAt example_rt d' ''Spec.Description''"
proof -
  have "Description (Spec ex_desired) \<noteq> None" by (simp add: ex_desired_def)
  from update_then_find_no_delta [OF ex_service ex_libs(1,2) ex_network_found ex_update_pre ex_latest_tags this
      ex_update_runs ex_reread_runs]
  show ?thesis using ex_update_runs ex_reread_runs by blast
qed

text \<open>The same update with no description desired.\<close>

definition ex_silent :: GlobalNetwork where
  "ex_silent = ex_object None [(''env'', ''prod''), (''team'', ''net'')] (Some ''n1'')"

lemma ex_silent_pre: "update_pre example_rt ''n1'' ex_network ex_silent ex_latest ex_delta"
proof -
  have "newResourceDelta example_rt (Some (ex_res ex_silent)) (Some (ex_res ex_latest)) = Ret ex_delta"
    by code_simp
  then show ?thesis
    by (simp add: update_pre_def ex_latest_tags) (simp add: ex_silent_def ex_latest_def)
qed

definition ex_silent_updated :: "resource \<times> (world, string) env" where
  "ex_silent_updated = (case sdkUpdate example_rt ex_sched ex_rm (ex_res ex_silent) (ex_res ex_latest) ex_delta ex_env of
     (Ret (Some r, _), w') \<Rightarrow> (r, w') | (_, w') \<Rightarrow> (\<lparr>ko = None\<rparr>, w'))"

lemma ex_silent_runs:
  "sdkUpdate example_rt ex_sched ex_rm (ex_res ex_silent) (ex_res ex_latest) ex_delta ex_env =
     (Ret (Some (fst ex_silent_updated), None), snd ex_silent_updated)"
  by code_simp

lemma ex_silent_reread_runs:
  "sdkFind example_rt ex_rm (fst ex_silent_updated) (snd ex_silent_updated) =
     (Ret (Some (fst (ex_reread (fst ex_silent_updated) (snd ex_silent_updated))), None),
      snd (ex_reread (fst ex_silent_updated) (snd ex_silent_updated)))"
  by code_simp

theorem update_keeps_description_witness:
  "\<exists>r w' n' r' d'.
     sdkUpdate example_rt ex_sched ex_rm (ex_res ex_silent) (ex_res ex_latest) ex_delta ex_env = (Ret (Some r, None), w') \<and>
     example_nets (svc w') ''n1'' = Some n' \<and> sdk_Description n' = Some ''old'' \<and>
     newResourceDelta example_rt (Some (ex_res ex_silent)) (Some r') = Ret d' \<and>
     DifferentAt example_rt d' ''Spec.Description''"
proof -
  have "Description (Spec ex_silent) = None" by (simp add: ex_silent_def)
  from update_keeps_description [OF ex_service ex_libs(1,2) ex_network_found ex_silent_pre this
      ex_network_sel(1) ex_silent_runs ex_silent_reread_runs]
  show ?thesis using ex_silent_runs by blast
qed

section \<open>The manager\<close>

lemma ex_wf [simp]:
  "tags_wf (Tags (Spec ex_desired))" "tags_wf (Tags (Spec ex_latest))" "tags_normal (Tags (Spec ex_desired))"
  "conds_wf (conds_of ex_desired)" "conds_wf (conds_of ex_latest)"
  "GlobalNetworkID (Status ex_desired) = Some ''n1''"
  by (simp_all add: ex_desired_def ex_latest_def)

lemma ex_desired_tags: "tag_map (Tags (Spec ex_desired)) = map_of [(''env'', ''prod''), (''team'', ''net'')]"
  by (simp add: ex_desired_def)

lemma ex_defaults: "mget (GetDefaultTags example_rt c g md) = [''services.k8s.aws/controller-version'' \<mapsto> md]"
  by (simp add: example_rt_def mget_def)

theorem ensure_tags_user_wins_witness:
  "\<exists>ts. EnsureTags example_rt ex_sched ex_rm (ex_ptr ex_desired) ''v1'' =
      Ret (ex_res (ex_desired\<lparr>Spec := (Spec ex_desired)\<lparr>Tags := ts\<rparr>\<rparr>), None) \<and>
    tag_map ts ''env'' = Some ''prod'' \<and> tag_map ts ''services.k8s.aws/controller-version'' = Some ''v1''"
  using ensure_tags_user_wins [OF example_tags_lib ex_wf(1), of ex_sched ex_rm "''v1''"]
  by (auto simp: ex_defaults ex_desired_tags)

theorem filter_system_tags_exact_witness:
  "\<exists>ts. FilterSystemTags example_rt ex_sched (ex_ptr ex_latest) [''tmp''] =
      Ret (Some (ex_res (ex_latest\<lparr>Spec := (Spec ex_latest)\<lparr>Tags := ts\<rparr>\<rparr>))) \<and>
    tag_map ts ''env'' = Some ''dev'' \<and> tag_map ts ''aws:stack'' = None \<and> tag_map ts ''tmp'' = None"
  using filter_system_tags_exact [OF example_tags_lib ex_wf(2), of ex_sched "[''tmp'']"]
  by (auto simp: ex_latest_tags ex_network_tags)

definition ex_read :: "(resource \<times> aws_resource \<times> string option) outcome \<times> (world, string) env" where
  "ex_read = ReadOne example_rt ex_sched ex_rm (ex_ptr ex_desired) ex_env"

theorem read_one_reads_witness:
  "\<exists>ts g' err w'. ReadOne example_rt ex_sched ex_rm (ex_ptr ex_desired) ex_env =
      (Ret (ex_res (set_tags ts ex_desired), ex_ptr g', err), w') \<and>
    example_nets (svc w') = example_nets (svc ex_env) \<and>
    (if err = None
     then \<exists>n. example_nets (svc ex_env) ''n1'' = Some n \<and> reflects n g' \<and> tags_normal ts \<and>
       (\<forall>k. tag_map ts k = (if prefix ''aws:'' k \<and> net_tags n k \<noteq> None then net_tags n k
                            else tag_map (Tags (Spec ex_desired)) k))
     else ts = Tags (Spec ex_desired) \<and> (err = Some (NotFound example_rt) \<longrightarrow> example_nets (svc ex_env) ''n1'' = None) \<and>
       (\<exists>e cs. err = Some (if is_terminal example_rt (Some e) then Terminal example_rt else e) \<and>
          g' = with_conditions cs (setStatusDefaults ex_rm ex_desired) \<and> conds_wf cs \<and>
          cond_map cs = conditions_spec example_rt (Some e) (cond_map (conds_of ex_desired))))"
  by (rule read_one_reads [OF ex_service ex_libs(1,3,4)]) simp_all

theorem create_creates_witness:
  "\<exists>g' err w'. Create example_rt ex_rm (ex_ptr ex_desired) ex_env = (Ret (ex_ptr g', err), w') \<and>
    ObjectMeta g' = ObjectMeta ex_desired \<and>
    (if err = None
     then \<exists>i n. example_nets (svc ex_env) i = None \<and> example_nets (svc w') = (example_nets (svc ex_env))(i \<mapsto> n) \<and>
       sdk_Description n = Description (Spec ex_desired) \<and> net_tags n = tag_map (Tags (Spec ex_desired)) \<and>
       reflects n g' \<and> GlobalNetworkID (Status g') = Some i \<and> ARN (metadata_of g') \<noteq> None
     else ARN (metadata_of g') = ARN (metadata_of ex_desired) \<and>
       (\<exists>e cs. err = Some (if is_terminal example_rt (Some e) then Terminal example_rt else e) \<and>
          g' = with_conditions cs (setStatusDefaults ex_rm ex_desired) \<and> conds_wf cs \<and>
          cond_map cs = conditions_spec example_rt (Some e) (cond_map (conds_of ex_desired))))"
  by (rule create_creates [OF ex_service ex_libs(3,4)]) simp_all

theorem update_converges_witness:
  "\<exists>g' err w'. Update example_rt ex_sched ex_rm (ex_ptr ex_desired) (ex_ptr ex_latest) ex_delta ex_env =
      (Ret (ex_ptr g', err), w') \<and>
    (if err = None
     then \<exists>n'. example_nets (svc w') ''n1'' = Some n' \<and> net_tags n' = tag_map (Tags (Spec ex_desired)) \<and>
       sdk_Description n' = Some ''new''
     else \<exists>e cs. err = Some (if is_terminal example_rt (Some e) then Terminal example_rt else e) \<and>
       g' = with_conditions cs (setStatusDefaults ex_rm ex_latest))"
proof -
  have all: "net_tags ex_network |` (- dom (tag_map (Tags (Spec ex_latest)))) = Map.empty"
    by (auto simp: ex_latest_tags restrict_map_def fun_eq_iff)
  have new: "Description (Spec ex_desired) = Some ''new''" by (simp add: ex_desired_def)
  obtain g' err w' where run: "Update example_rt ex_sched ex_rm (ex_ptr ex_desired) (ex_ptr ex_latest) ex_delta ex_env =
      (Ret (ex_ptr g', err), w')"
    and res: "if err = None
     then \<exists>n'. example_nets (svc w') ''n1'' = Some n' \<and> GlobalNetworkID (Status g') = Some ''n1'' \<and>
       net_tags n' = (Map.empty ++ tag_map (Tags (Spec ex_desired))) \<and>
       sdk_Description n' = (if Description (Spec ex_desired) = None then sdk_Description ex_network
                             else Description (Spec ex_desired))
     else \<exists>e cs. err = Some (if is_terminal example_rt (Some e) then Terminal example_rt else e) \<and>
       g' = with_conditions cs (setStatusDefaults ex_rm ex_latest) \<and> conds_wf cs \<and>
       cond_map cs = conditions_spec example_rt (Some e) (cond_map (conds_of ex_latest))"
    using update_converges [OF ex_service ex_libs ex_network_found ex_update_pre ex_wf(4,5), of ex_sched]
    unfolding all by blast
  have new_map: "Map.empty ++ tag_map (Tags (Spec ex_desired)) = tag_map (Tags (Spec ex_desired))" by simp
  show ?thesis
    by (rule exI [of _ g'], rule exI [of _ err], rule exI [of _ w'])
      (use run res in \<open>cases err; auto simp: new new_map\<close>)
qed

theorem delete_deletes_witness:
  "\<exists>out err callErr w'. Delete example_rt ex_rm (ex_ptr ex_desired) ex_env = (Ret (out, err), w') \<and>
    api_calls w' = api_calls ex_env @ [(''DELETE'', ''DeleteGlobalNetwork'', callErr)] \<and>
    (if callErr = None
     then out = NilInterface \<and> err = None \<and> (\<forall>j. j \<noteq> ''n1'' \<longrightarrow> example_nets (svc w') j = example_nets (svc ex_env) j) \<and>
       (\<forall>n. example_nets (svc w') ''n1'' = Some n \<longrightarrow> sdk_State n = ''DELETING'')
     else err = Some (if is_terminal example_rt callErr then Terminal example_rt else the callErr) \<and>
       (\<exists>cs. out = ex_ptr (with_conditions cs (setStatusDefaults ex_rm ex_desired)) \<and> conds_wf cs \<and>
          cond_map cs = conditions_spec example_rt callErr (cond_map (conds_of ex_desired))))"
  by (rule delete_deletes [OF ex_service ex_libs(3,4)]) simp_all

section \<open>The resource and its descriptor\<close>

theorem managed_marks_witness:
  "\<exists>g1 g2. MarkManaged example_rt (Some (ex_res ex_desired)) = Ret (GlobalNetworkPtr (Some g1)) \<and>
    IsManaged (Some (ex_res g1)) = Ret True \<and>
    MarkUnmanaged example_rt (Some (ex_res g1)) = Ret (GlobalNetworkPtr (Some g2)) \<and>
    IsManaged (Some (ex_res g2)) = Ret False"
  using managed_marks [OF example_finalizer_lib, of ex_desired] by blast

section \<open>The factory\<close>

definition ex_request :: "nat \<Rightarrow> request" where
  "ex_request n = \<lparr>req_cfg = \<lparr>cfg_Partition = ''aws'', cfg_rest = ''''\<rparr>, req_clientcfg = '''',
     req_id = ''123456789012'', req_region = ''us-west-2'', req_roleARN = ''arn:aws:iam::1:role/r''\<rparr>"

abbreviation ex_new :: "string \<Rightarrow> (world, string) svcsdk_Client" where
  "ex_new \<equiv> (\<lambda>_. example_client)"

lemma ex_no_slash: "CHR ''/'' \<notin> set (req_id (ex_request u)) \<and> CHR ''/'' \<notin> set (req_region (ex_request u))"
  by (simp add: ex_request_def)

lemma ex_run:
  obtains s :: "(world, string) system" and r where "(step ex_new ex_request)\<^sup>*\<^sup>* init_system s"
    and "pcs s = (\<lambda>_. Start)(t := Returned r)"
proof (rule that)
  let ?s0 = "init_system :: (world, string) system"
  show "(step ex_new ex_request)\<^sup>*\<^sup>* init_system
      (?s0\<lparr>fac := snd (ManagerFor ex_new (ex_request t) (fac ?s0)),
         pcs := (pcs ?s0)(t := Returned (fst (fst (ManagerFor ex_new (ex_request t) (fac ?s0)))))\<rparr>)"
    by (rule solo_run [of init_system]) (simp_all add: init_system_def unlocked_def)
qed (simp add: init_system_def)

lemma ex_returned:
  "\<exists>(s :: (world, string) system) r. reachable ex_new ex_request s \<and> pcs s 0 = Returned r"
proof -
  obtain s :: "(world, string) system" and r where "(step ex_new ex_request)\<^sup>*\<^sup>* init_system s"
    and "pcs s = (\<lambda>_. Start)(0 := Returned r)" by (rule ex_run)
  then show ?thesis using reachable_steps [OF _ initial] by (intro exI [of _ s] exI [of _ r]) simp
qed

theorem returned_manager_fits_witness:
  "\<exists>(s :: (world, string) system) p. reachable ex_new ex_request s \<and> pcs s 0 = Returned (Some p) \<and>
    awsRegion (made (fac s) ! p) = ''us-west-2''"
proof -
  obtain s r where s: "reachable ex_new ex_request s" "pcs s 0 = Returned r"
    using ex_returned by blast
  from returned_manager_fits [OF s ex_no_slash] s show ?thesis by (auto simp: ex_request_def)
qed

definition ex_locked :: "(world, string) system" where
  "ex_locked = init_system\<lparr>writer := Some 0, pcs := (\<lambda>_. Start)(0 := Locked)\<rparr>"

lemma ex_locked_reachable: "reachable ex_new ex_request ex_locked"
proof -
  let ?s0 = "init_system :: (world, string) system"
  let ?s1 = "?s0\<lparr>pcs := (pcs ?s0)(0 := Missed)\<rparr>"
  let ?s2 = "?s1\<lparr>waiting := Some 0, pcs := (pcs ?s1)(0 := Waiting)\<rparr>"
  have "(step ex_new ex_request)\<^sup>*\<^sup>* ?s0 ?s1"
    by (rule miss_run) (simp_all add: init_system_def unlocked_def newResourceManagerFactory_def)
  then have "reachable ex_new ex_request ?s1" using initial by (rule reachable_steps)
  moreover have "step ex_new ex_request ?s1 ?s2" by (rule announce) (simp_all add: init_system_def)
  moreover have "step ex_new ex_request ?s2 (?s2\<lparr>waiting := None, writer := Some 0, pcs := (pcs ?s2)(0 := Locked)\<rparr>)"
    by (rule lock) (simp_all add: init_system_def)
  moreover have "?s2\<lparr>waiting := None, writer := Some 0, pcs := (pcs ?s2)(0 := Locked)\<rparr> = ex_locked"
    by (simp add: ex_locked_def init_system_def)
  ultimately show ?thesis by (metis next_state)
qed

theorem calls_do_not_deadlock_witness:
  "\<exists>u s'. (u = 1 \<or> u = 0) \<and> step ex_new ex_request ex_locked s' \<and> pcs ex_locked u < pcs s' u"
proof -
  have "\<And>r. pcs ex_locked 1 \<noteq> Returned r" by (simp add: ex_locked_def)
  from calls_do_not_deadlock [OF ex_locked_reachable this]
  obtain u s' where "u = 1 \<or> reading (pcs ex_locked u) \<or> writing (pcs ex_locked u) \<or> pcs ex_locked u = Waiting"
    "step ex_new ex_request ex_locked s'" "pcs ex_locked u < pcs s' u" by blast
  then show ?thesis by (auto simp: ex_locked_def init_system_def split: if_splits)
qed

theorem calls_return_witness:
  "\<exists>n (s :: (world, string) system). (step ex_new ex_request ^^ n) init_system s \<and> n \<le> 7 \<and>
    (\<exists>p. pcs s 5 = Returned (Some p)) \<and> unlocked s"
proof -
  obtain s :: "(world, string) system" and r where "(step ex_new ex_request)\<^sup>*\<^sup>* init_system s"
    and s: "pcs s = (\<lambda>_. Start)(5 := Returned r)" by (rule ex_run)
  then obtain n where n: "(step ex_new ex_request ^^ n) init_system s" by (metis rtranclp_imp_relpowp)
  have stuck: "\<not> (\<exists>s'. step ex_new ex_request s s' \<and> (\<forall>u. u \<notin> {5} \<longrightarrow> pcs s' u = Start))"
  proof
    assume "\<exists>s'. step ex_new ex_request s s' \<and> (\<forall>u. u \<notin> {5} \<longrightarrow> pcs s' u = Start)"
    then obtain s' where step: "step ex_new ex_request s s'" and out: "\<forall>u. u \<notin> {5} \<longrightarrow> pcs s' u = Start" by blast
    obtain v where v: "pcs s v < pcs s' v" by (rule step_moves [OF step])
    with out s show False by (cases "v = 5"; cases "pcs s' v") (auto simp: less_pc_def)
  qed
  have "n \<le> 7 * card {5 :: nat} \<and>
      ((\<exists>s'. step ex_new ex_request s s' \<and> (\<forall>u. u \<notin> {5} \<longrightarrow> pcs s' u = Start)) \<or>
       unlocked s \<and> (\<forall>t \<in> {5}. (\<exists>p. pcs s t = Returned (Some p)) \<and>
         mget (rmCache (fac s)) (req_key (ex_request t)) \<noteq> None))"
    by (rule calls_return [OF n]) (simp_all add: s)
  then have "n \<le> 7 \<and> unlocked s \<and> (\<exists>p. pcs s 5 = Returned (Some p))"
    by (elim conjE disjE) (rule notE [OF stuck], assumption, simp)
  with n show ?thesis by (intro exI [of _ n] exI [of _ s]) simp
qed

theorem steps_refine_manager_for_witness:
  "\<exists>s'. (step ex_new ex_request)\<^sup>*\<^sup>* init_system s' \<and> pcs s' 5 = Returned (Some 0) \<and> writer s' = None"
proof -
  have "ManagerFor ex_new (ex_request 5) (fac init_system) =
      ((Some 0, None), snd (ManagerFor ex_new (ex_request 5) (fac init_system)))"
    by (simp add: ManagerFor_def make_manager_eq init_system_def newResourceManagerFactory_def)
  with steps_refine_manager_for [of init_system 5 ex_new ex_request]
  show ?thesis by (auto simp: init_system_def case_prod_unfold prod_eq_iff)
qed

theorem two_managers_for_one_key_witness:
  "\<exists>s p q. reachable ex_new ex_request s \<and> pcs s 0 = Returned (Some p) \<and> pcs s 1 = Returned (Some q) \<and> p \<noteq> q"
  using two_managers_for_one_key [of 0 1 ex_request ex_new] by (auto simp: ex_request_def)

section \<open>Passes\<close>

abbreviation ex_pass :: "(world, string) env \<Rightarrow>
    (string + string list \<times> aws_resource) outcome \<times> (world, string) env" where
  "ex_pass \<equiv> reconcile_pass example_rt (\<lambda>_. ex_sched) ex_rm ''v1'' [] (ex_ptr ex_desired)"

fun pass_ok :: "('e + 'd \<times> aws_resource) outcome \<Rightarrow> bool" where
  "pass_ok (Ret (Inr x)) \<longleftrightarrow> True"
| "pass_ok _ \<longleftrightarrow> False"

lemma ex_pass_twice: "pass_ok (fst (ex_pass ex_env)) \<and> pass_ok (fst (ex_pass (snd (ex_pass ex_env))))"
  by code_simp

lemma pass_okE:
  assumes "pass_ok (fst p)"
  obtains d out w' where "p = (Ret (Inr (d, out)), w')"
  using assms by (metis pass_ok.elims(2) prod.exhaust fst_conv)

lemma ex_pass_pre: "pass_pre ex_desired ''n1'' ex_network"
  by (simp add: pass_pre_def identifies_def ex_desired_def)

text \<open>An object that is to adopt the network \<open>n1\<close>, which has other tags.\<close>

definition ex_adopter :: GlobalNetwork where
  "ex_adopter = (ex_object (Some ''new'') [(''env'', ''prod'')] None)
     \<lparr>Status := \<lparr>ACKResourceMetadata = None, Conditions = None, CreatedAt = None, GlobalNetworkID = None, State = None\<rparr>\<rparr>"

abbreviation "ex_adopts \<equiv> set_network_id ''n1'' ex_adopter"

fun read_ok :: "('a \<times> 'b \<times> 'e option) outcome \<Rightarrow> bool" where
  "read_ok (Ret (r, l, None)) \<longleftrightarrow> True"
| "read_ok _ \<longleftrightarrow> False"

lemma ex_adopter_read: "read_ok (fst (read_stage example_rt (\<lambda>_. ex_sched) ex_rm ''v1'' (ex_ptr ex_adopts) ex_env))"
  by code_simp

theorem adopted_pass_panics_witness:
  "PopulateResourceFromAnnotation example_rt (Some (ex_res ex_adopter)) [(''globalNetworkID'', ''n1'')] =
     Ret (Some (ex_res ex_adopts), None) \<and>
   fst (reconcile_pass example_rt (\<lambda>_. ex_sched) ex_rm ''v1'' [] (ex_ptr ex_adopts) ex_env) = Panic"
proof -
  have adopt: "PopulateResourceFromAnnotation example_rt (Some (ex_res ex_adopter)) [(''globalNetworkID'', ''n1'')] =
      Ret (Some (ex_res ex_adopts), None)"
    by (simp add: PopulateResourceFromAnnotation_def mget_def)
  obtain r l w' where read: "read_stage example_rt (\<lambda>_. ex_sched) ex_rm ''v1'' (ex_ptr ex_adopts) ex_env = (Ret (r, l, None), w')"
    using ex_adopter_read by (cases "read_stage example_rt (\<lambda>_. ex_sched) ex_rm ''v1'' (ex_ptr ex_adopts) ex_env")
      (auto elim!: read_ok.elims(2))
  have g0: "ARN (metadata_of ex_adopter) = None" "conds_wf (conds_of ex_adopter)" "tags_wf (Tags (Spec ex_adopter))"
    and id: "GlobalNetworkID (Status ex_adopts) = Some ''n1''"
    by (simp_all add: ex_adopter_def metadata_of_def conds_wf_def set_network_id_def)
  have differ: "net_tags ex_network ''env'' \<noteq>
      (mget (GetDefaultTags example_rt (cfg ex_rm) ex_adopts ''v1'') ++ tag_map (Tags (Spec ex_adopts))) ''env''"
    by (simp add: ex_network_tags ex_defaults ex_adopter_def set_network_id_def)
  have "fst (reconcile_pass example_rt (\<lambda>_. ex_sched) ex_rm ''v1'' [] (ex_ptr ex_adopts) ex_env) = Panic"
    using adopted_pass_panics [OF ex_service ex_libs adopt g0 id ex_network_found _ _ differ read, of "[]"] by simp
  with adopt show ?thesis ..
qed

section \<open>The start-up\<close>

text \<open>The outside of the process is the registry; \<open>bad\<close> names the calls that fail.\<close>

type_synonym ex_outside = "(world, string) factory list"

definition ex_call :: "string list \<Rightarrow> string \<Rightarrow> ex_outside \<Rightarrow> string option \<times> ex_outside" where
  "ex_call bad name u = (if List.member bad name then Some name else None, u)"

definition ex_lib :: "string list \<Rightarrow> (ex_outside, string, string list, world) start_lib" where
  "ex_lib bad = \<lparr>
     RegisterResourceManagerFactory = (\<lambda>f u. u @ [f]), GetResourceManagerFactories = (\<lambda>u. u),
     Builder_Register = (\<lambda>_ _ u. u), clientgoscheme_AddToScheme = ex_call bad ''scheme'',
     Builder_AddToScheme = (\<lambda>_. ex_call bad ''scheme''), ackv1alpha1_AddToScheme = ex_call bad ''scheme'',
     ParseFlags = (\<lambda>u. (\<lparr>WatchNamespace = ''a,b'', WebhookServerAddr = '':9443'', MetricsAddr = '':8080'',
       HealthzAddr = '':8081'', LeaderElectionNamespace = '''', EnableLeaderElection = False,
       EnableWebhookServer = True, start_rest = ''''\<rparr>, u)),
     Validate = (\<lambda>gvks c u. ((fst (ex_call bad ''validate'' u), c), u)),
     GetHostPort = (\<lambda>a. ('''', 9443, None)), GetWatchNamespaces = (\<lambda>c. ([''a'', ''b''], None)),
     ParseWatchSelectors = (\<lambda>c. (0, None)), GetConfigOrDie = (\<lambda>u. (Some 1, u)),
     NewManager = (\<lambda>k opts u. ((2, fst (ex_call bad ''manager'' u)), u)),
     SetupSignalHandler = (\<lambda>u. (3, u)), NewServiceController = (\<lambda>a g v. [a, g]),
     WithLogger = (\<lambda>c. c), WithResourceManagerFactories = (\<lambda>fs c. c @ map (\<lambda>_. ''factory'') fs),
     WithPrometheusRegistry = (\<lambda>c. c),
     GetWebhooks = (\<lambda>u. [\<lparr>hook_UID = ''h1'', hook_Setup = \<lambda>_. ex_call bad ''h1''\<rparr>,
       \<lparr>hook_UID = ''h2'', hook_Setup = \<lambda>_. ex_call bad ''h2''\<rparr>]),
     BindControllerManager = (\<lambda>_ _ _. ex_call bad ''bind''),
     AddHealthzCheck = (\<lambda>_ _. ex_call bad ''health''), AddReadyzCheck = (\<lambda>_ _. ex_call bad ''ready''),
     StartManager = (\<lambda>_ _. ex_call bad ''start''), ReadBuildInfo = None, GoVersion = ''go1.25''\<rparr>"

definition ex_version :: build_vars where
  "ex_version = \<lparr>GitVersion = ''v1'', GitCommit = ''c0'', BuildDate = ''today''\<rparr>"

definition ex_process :: "(ex_outside, string) process" where
  "ex_process = \<lparr>world = [], messages = []\<rparr>"

lemma ex_call_same [simp]: "snd (ex_call bad n u) = u"
  by (simp add: ex_call_def)

lemma ex_registry: "registry_lib_ok (ex_lib bad)"
  by (simp add: registry_lib_ok_def ex_lib_def Let_def)

lemma ex_endings:
  "fst (main (ex_lib [''ready'', ''h1'']) ex_version ex_process) = Exit 1"
  "fst (main (ex_lib [''h1'']) ex_version ex_process) = Completed"
  "fst (program (ex_lib [''scheme'', ''h2'']) ex_version []) = Completed"
  by code_simp+

theorem exit_tells_error_witness:
  "\<exists>p1 p2. main (ex_lib [''ready'', ''h1'']) ex_version ex_process = (Exit 1, p1) \<and> failed ex_process p1 \<and>
    main (ex_lib [''h1'']) ex_version ex_process = (Completed, p2) \<and> last (messages p2) = starting"
proof -
  obtain p1 p2 where run: "main (ex_lib [''ready'', ''h1'']) ex_version ex_process = (Exit 1, p1)"
      "main (ex_lib [''h1'']) ex_version ex_process = (Completed, p2)"
    using ex_endings(1,2) by (metis prod.collapse)
  from exit_tells_error [OF run(1)] exit_tells_error [OF run(2)] run show ?thesis by simp
qed

theorem program_serves_one_kind_witness:
  "\<exists>p'. program (ex_lib [''scheme'', ''h2'']) ex_version [] = (Completed, p') \<and>
    (\<exists>options k u3 u4 mgr. NewManager (ex_lib [''scheme'', ''h2'']) k options u3 = ((mgr, None), u4) \<and>
      dom (mget (opt_DefaultNamespaces options)) = {''a'', ''b''})"
proof -
  obtain p' where run: "program (ex_lib [''scheme'', ''h2'']) ex_version [] = (Completed, p')"
    using ex_endings(3) by (metis prod.collapse)
  have empty: "GetResourceManagerFactories (ex_lib [''scheme'', ''h2'']) [] = []" by (simp add: ex_lib_def)
  have "fst (GetWatchNamespaces (ex_lib [''scheme'', ''h2'']) c) = [''a'', ''b'']" for c by (simp add: ex_lib_def)
  with program_serves_one_kind [OF ex_registry empty run] run show ?thesis by (simp del: prod.simps) metis
qed

end
