(* ===== verification/ApiCalls.thy ===== *)
theory ApiCalls
  imports Reconcile "HOL-Library.Sublist"
begin

text \<open>
  The calls of the AWS API an operation makes: which, in which order, how many, and none after one
  that failed; and that the metrics recorder is told of each of them. Nothing is assumed of the
  service or of the libraries, so this holds on every branch of the code, errors and panics included.
  The locale \<open>call_relation\<close> is a reflexive and transitive relation between states of the world; if every
  call an operation can make keeps to it, with the report to the recorder that follows, so does the
  operation. \<open>logged cl\<close> is a client that beside the calls of \<open>cl\<close> keeps a log of them.
\<close>

section \<open>Calls within a bound\<close>

type_synonym 'e call = "string \<times> string \<times> 'e option"

abbreviation call_op :: "'e call \<Rightarrow> string" where "call_op c \<equiv> fst (snd c)"

abbreviation call_ok :: "'e call \<Rightarrow> bool" where "call_ok c \<equiv> snd (snd c) = None"

text \<open>
  From \<open>w\<close> to \<open>w'\<close> some of the operations \<open>ops\<close> were called, each at most as often as it is listed
  and in that order, and only the last call can have failed; \<open>calls_fine\<close>: none has failed.
\<close>

definition calls_within :: "string list \<Rightarrow> ('w, 'e) env \<Rightarrow> ('w, 'e) env \<Rightarrow> bool" where
  "calls_within ops w w' \<longleftrightarrow> (\<exists>cs. api_calls w' = api_calls w @ cs \<and> subseq (map call_op cs) ops \<and>
     list_all call_ok (butlast cs))"

definition calls_fine :: "string list \<Rightarrow> ('w, 'e) env \<Rightarrow> ('w, 'e) env \<Rightarrow> bool" where
  "calls_fine ops w w' \<longleftrightarrow> (\<exists>cs. api_calls w' = api_calls w @ cs \<and> subseq (map call_op cs) ops \<and>
     list_all call_ok cs)"

named_theorems call_intros \<open>bounds of calls\<close>

lemma calls_fine_refl [call_intros]: "calls_fine ops w w"
  by (simp add: calls_fine_def)

lemma calls_fine_within: "calls_fine ops w w' \<Longrightarrow> calls_within ops w w'"
  by (auto simp: calls_fine_def calls_within_def list_all_iff dest: in_set_butlastD)

lemma calls_within_refl [call_intros]: "calls_within ops w w"
  by (intro calls_fine_within calls_fine_refl)

lemma calls_within_mono: "calls_within a w w' \<Longrightarrow> subseq a ops \<Longrightarrow> calls_within ops w w'"
  by (auto simp: calls_within_def intro: subseq_order.trans)

lemma calls_fine_mono: "calls_fine a w w' \<Longrightarrow> subseq a ops \<Longrightarrow> calls_fine ops w w'"
  by (auto simp: calls_fine_def intro: subseq_order.trans)

lemma recorded_call [call_intros]:
  "calls_within (op # ops) w (RecordAPICall t op err (w\<lparr>svc := s\<rparr>))"
  "calls_fine (op # ops) w (RecordAPICall t op None (w\<lparr>svc := s\<rparr>))"
  by (simp_all add: calls_within_def calls_fine_def)

lemma calls_fine_trans:
  assumes "calls_fine a w w1" and "calls_fine b w1 w2"
  shows "calls_fine (a @ b) w w2"
proof -
  obtain cs ds where "api_calls w1 = api_calls w @ cs" "subseq (map call_op cs) a" "list_all call_ok cs"
    "api_calls w2 = api_calls w1 @ ds" "subseq (map call_op ds) b" "list_all call_ok ds"
    using assms by (auto simp: calls_fine_def)
  then show ?thesis
    unfolding calls_fine_def by (intro exI [of _ "cs @ ds"]) (simp add: list_emb_append_mono)
qed

lemma calls_within_trans:
  assumes "calls_fine a w w1" and "calls_within b w1 w2"
  shows "calls_within (a @ b) w w2"
proof -
  obtain cs ds where "api_calls w1 = api_calls w @ cs" "subseq (map call_op cs) a" "list_all call_ok cs"
    "api_calls w2 = api_calls w1 @ ds" "subseq (map call_op ds) b" "list_all call_ok (butlast ds)"
    using assms by (auto simp: calls_fine_def calls_within_def)
  then show ?thesis
    unfolding calls_within_def
    by (intro exI [of _ "cs @ ds"]) (auto simp: list_emb_append_mono butlast_append list_all_iff dest: in_set_butlastD)
qed

text \<open>A result without an error comes only after calls without one.\<close>

definition bounded :: "string list \<Rightarrow> ('w, 'e) env \<Rightarrow> ('a \<Rightarrow> bool) \<Rightarrow> 'a outcome \<times> ('w, 'e) env \<Rightarrow> bool" where
  "bounded ops w ok p \<longleftrightarrow> calls_within ops w (snd p) \<and>
     (\<forall>x. fst p = Ret x \<longrightarrow> ok x \<longrightarrow> calls_fine ops w (snd p))"

lemma bounded_within: "bounded ops w ok p \<Longrightarrow> calls_within ops w (snd p)"
  by (simp add: bounded_def)

lemma bounded_pure [call_intros]: "bounded ops w ok (m, w)"
  by (simp add: bounded_def call_intros)

text \<open>
  An operation that ends with its error: what follows it, when it has none, may make the calls
  \<open>b\<close>; when it has one, nothing more is called.
\<close>

lemma bounded_then:
  assumes "bounded a w ok p"
    and "\<And>x w1. p = (Ret x, w1) \<Longrightarrow> ok x \<Longrightarrow> bounded b w1 ok' (f x w1)"
    and "\<And>x w1. p = (Ret x, w1) \<Longrightarrow> \<not> ok x \<Longrightarrow> snd (f x w1) = w1 \<and> (\<forall>y. fst (f x w1) = Ret y \<longrightarrow> \<not> ok' y)"
  shows "bounded (a @ b) w ok' (op_then p f)"
proof (cases p)
  case (Pair m w1)
  have a: "calls_within a w w1" using assms(1) by (simp add: bounded_def Pair)
  then have ab: "calls_within (a @ b) w w1" by (rule calls_within_mono) (simp add: subseq_rev_drop_many)
  show ?thesis
  proof (cases m)
    case Panic
    then show ?thesis using ab by (simp add: bounded_def Pair)
  next
    case (Ret x)
    show ?thesis
    proof (cases "ok x")
      case True
      then have "calls_fine a w w1" using assms(1) by (simp add: bounded_def Pair Ret)
      moreover have "bounded b w1 ok' (f x w1)" using assms(2) True by (simp add: Pair Ret)
      ultimately show ?thesis
        by (auto simp: bounded_def Pair Ret intro: calls_within_trans calls_fine_trans)
    next
      case False
      then show ?thesis using assms(3) ab by (auto simp: bounded_def Pair Ret)
    qed
  qed
qed

section \<open>The operations\<close>

lemma bounded_pure_then:
  "(\<And>x. m = Ret x \<Longrightarrow> bounded ops w ok (f x w)) \<Longrightarrow> bounded ops w ok (op_then (m, w) f)"
  by (cases m) (simp_all add: bounded_pure)

text \<open>\<open>SyncTags\<close> as a sequence: the plan, the call that adds, the call that removes.\<close>

lemma SyncTags_sequence:
  "SyncTags s client arn aTags bTags w =
     op_then (sync_plan s aTags bTags, w) (\<lambda>(toAdd, toDelete) w.
     op_then (if length toAdd > 0
         then op_then (log_loop (entries (s 2) toAdd), w) (\<lambda>_ w.
           (Ret (fst (addTags (s 3) client arn toAdd w)), snd (addTags (s 3) client arn toAdd w)))
         else (Ret None, w)) (\<lambda>err w.
     case err of
       Some e \<Rightarrow> (Ret (Some e), w)
     | None \<Rightarrow> if length toDelete > 0
         then (Ret (fst (removeTags client arn toDelete w)), snd (removeTags client arn toDelete w))
         else (Ret None, w)))"
  by (auto simp: SyncTags_def case_prod_unfold Let_def split: outcome.split option.split)

lemma tag_calls:
  "bounded [''TagResource''] w (\<lambda>err. err = None)
     (Ret (fst (addTags ord client arn toAdd w)), snd (addTags ord client arn toAdd w))"
  "bounded [''UntagResource''] w (\<lambda>err. err = None)
     (Ret (fst (removeTags client arn ks w)), snd (removeTags client arn ks w))"
  by (auto simp: bounded_def addTags_def removeTags_def call_intros Let_def split: prod.split)

lemma SyncTags_calls:
  "bounded [''TagResource'', ''UntagResource''] w (\<lambda>err. err = None) (SyncTags s client arn aTags bTags w)"
proof -
  have "bounded ([''TagResource''] @ [''UntagResource'']) w (\<lambda>err. err = None)
      (op_then (if length toAdd > 0
         then op_then (log_loop (entries (s 2) toAdd), w) (\<lambda>_ w.
           (Ret (fst (addTags (s 3) client arn toAdd w)), snd (addTags (s 3) client arn toAdd w)))
         else (Ret None, w)) (\<lambda>err w.
     case err of
       Some e \<Rightarrow> (Ret (Some e), w)
     | None \<Rightarrow> if length toDelete > 0
         then (Ret (fst (removeTags client arn toDelete w)), snd (removeTags client arn toDelete w))
         else (Ret None, w)))" for toAdd toDelete
    by (rule bounded_then [where ok = "\<lambda>err. err = None"])
      (auto intro!: bounded_pure_then tag_calls bounded_pure)
  then show ?thesis
    unfolding SyncTags_sequence by (auto intro!: bounded_pure_then)
qed

lemma bounded_call:
  "(\<And>e x. err = Some e \<Longrightarrow> m = Ret x \<Longrightarrow> \<not> ok x) \<Longrightarrow>
    bounded (op # ops) w ok (m, RecordAPICall t op err (w\<lparr>svc := s\<rparr>))"
  by (cases err) (auto simp: bounded_def call_intros)

lemmas bounded_steps = bounded_pure_then bounded_pure bounded_call

lemma sdkFind_calls: "bounded [''DescribeGlobalNetworks''] w (\<lambda>(r, err). err = None) (sdkFind rt rm r w)"
  unfolding sdkFind_def
  by (auto simp: Let_def outcome_simps intro!: bounded_steps split: option.split prod.split)

lemma sdkCreate_calls: "bounded [''CreateGlobalNetwork''] w (\<lambda>(r, err). err = None) (sdkCreate rt rm r w)"
  unfolding sdkCreate_def
  by (auto simp: Let_def outcome_simps intro!: bounded_steps split: option.split prod.split)

lemma sdkDelete_calls: "bounded [''DeleteGlobalNetwork''] w (\<lambda>(r, err). err = None) (sdkDelete rm r w)"
  unfolding sdkDelete_def
  by (auto simp: Let_def outcome_simps intro!: bounded_steps split: option.split prod.split)

lemma sdkUpdate_calls:
  "bounded [''TagResource'', ''UntagResource'', ''UpdateGlobalNetwork''] w (\<lambda>(r, err). err = None)
     (sdkUpdate rt s rm desired latest delta w)"
proof -
  have tags: "bounded [''TagResource'', ''UntagResource''] w (\<lambda>err. err = None)
      (update_tags rt s rm desired latest delta w)"
    by (auto simp: update_tags_def syncTags_def intro!: bounded_steps SyncTags_calls)
  have "bounded ([''TagResource'', ''UntagResource''] @ [''UpdateGlobalNetwork'']) w (\<lambda>(r, err). err = None)
      (sdkUpdate rt s rm desired latest delta w)"
    unfolding sdkUpdate_def
    by (rule bounded_then [OF tags])
      (auto simp: Let_def outcome_simps intro!: bounded_steps split: option.split prod.split)
  then show ?thesis by simp
qed

text \<open>The end of a method keeps an error an error and a success a success.\<close>

lemma finish_error: "finish rt rm r (res, err) = Ret (out, err') \<Longrightarrow> err' = None \<longleftrightarrow> err = None"
  by (auto simp: finish_def onError_def onSuccess_def outcome_simps split: option.splits if_splits)

lemma bounded_end:
  assumes "bounded ops w ok p"
    and "\<And>x w1 y. p = (Ret x, w1) \<Longrightarrow> snd (f x w1) = w1 \<and> (fst (f x w1) = Ret y \<longrightarrow> ok' y \<longrightarrow> ok x)"
  shows "bounded ops w ok' (op_then p f)"
proof (cases p)
  case (Pair m w1)
  then show ?thesis
    using assms by (cases m) (auto simp: bounded_def)
qed

lemma op_then_pure: "op_then (m, w) f = (case m of Panic \<Rightarrow> (Panic, w) | Ret x \<Rightarrow> f x w)"
  by (cases m) simp_all

lemma ReadOne_calls:
  "bounded [''DescribeGlobalNetworks''] w (\<lambda>(r, out, err). err = None) (ReadOne rt s rm res w)"
  unfolding ReadOne_def
  by (intro bounded_pure_then bounded_end [OF sdkFind_calls])
    (auto simp: outcome_simps op_then_pure dest: finish_error split: outcome.splits)

lemma Create_calls: "bounded [''CreateGlobalNetwork''] w (\<lambda>(out, err). err = None) (Create rt rm res w)"
  unfolding Create_def
  by (intro bounded_pure_then bounded_end [OF sdkCreate_calls]) (auto dest: finish_error)

lemma Delete_calls: "bounded [''DeleteGlobalNetwork''] w (\<lambda>(out, err). err = None) (Delete rt rm res w)"
  unfolding Delete_def
  by (intro bounded_pure_then bounded_end [OF sdkDelete_calls]) (auto dest: finish_error)

lemma Update_calls:
  "bounded [''TagResource'', ''UntagResource'', ''UpdateGlobalNetwork''] w (\<lambda>(out, err). err = None)
     (Update rt s rm desired latest delta w)"
  unfolding Update_def
  by (intro bounded_pure_then bounded_end [OF sdkUpdate_calls]) (auto dest: finish_error)

lemma read_stage_calls:
  "bounded [''DescribeGlobalNetworks''] w (\<lambda>(r, out, err). err = None) (read_stage rt s rm md res w)"
  unfolding read_stage_def
  by (auto intro!: bounded_steps ReadOne_calls split: option.split)

lemma update_stage_calls:
  "bounded [''TagResource'', ''UntagResource'', ''UpdateGlobalNetwork''] w (\<lambda>out. \<not> isl out)
     (update_stage rt s rm sys desired latest w)"
  unfolding update_stage_def
  by (auto intro!: bounded_pure_then bounded_end [OF Update_calls] split: option.splits)

lemma reconcile_pass_calls:
  "bounded [''DescribeGlobalNetworks'', ''TagResource'', ''UntagResource'', ''UpdateGlobalNetwork''] w
     (\<lambda>out. \<not> isl out) (reconcile_pass rt s rm md sys res w)"
proof -
  have "bounded ([''DescribeGlobalNetworks''] @ [''TagResource'', ''UntagResource'', ''UpdateGlobalNetwork'']) w
      (\<lambda>out. \<not> isl out) (reconcile_pass rt s rm md sys res w)"
    unfolding reconcile_pass_def
    by (rule bounded_then [OF read_stage_calls]) (auto intro!: update_stage_calls)
  then show ?thesis by simp
qed

section \<open>Relations that every call keeps\<close>

text \<open>The world after a call and its report to the metrics recorder.\<close>

abbreviation "after_tag client inp w \<equiv> RecordAPICall ''UPDATE'' ''TagResource''
  (fst (TagResource client inp (svc w))) (w\<lparr>svc := snd (TagResource client inp (svc w))\<rparr>)"

abbreviation "after_untag client inp w \<equiv> RecordAPICall ''UPDATE'' ''UntagResource''
  (fst (UntagResource client inp (svc w))) (w\<lparr>svc := snd (UntagResource client inp (svc w))\<rparr>)"

abbreviation "after_describe client inp w \<equiv> RecordAPICall ''READ_MANY'' ''DescribeGlobalNetworks''
  (snd (fst (DescribeGlobalNetworks client inp (svc w)))) (w\<lparr>svc := snd (DescribeGlobalNetworks client inp (svc w))\<rparr>)"

abbreviation "after_create client inp w \<equiv> RecordAPICall ''CREATE'' ''CreateGlobalNetwork''
  (snd (fst (CreateGlobalNetwork client inp (svc w)))) (w\<lparr>svc := snd (CreateGlobalNetwork client inp (svc w))\<rparr>)"

abbreviation "after_update client inp w \<equiv> RecordAPICall ''UPDATE'' ''UpdateGlobalNetwork''
  (snd (fst (UpdateGlobalNetwork client inp (svc w)))) (w\<lparr>svc := snd (UpdateGlobalNetwork client inp (svc w))\<rparr>)"

abbreviation "after_delete client inp w \<equiv> RecordAPICall ''DELETE'' ''DeleteGlobalNetwork''
  (fst (DeleteGlobalNetwork client inp (svc w))) (w\<lparr>svc := snd (DeleteGlobalNetwork client inp (svc w))\<rparr>)"

lemma answered: "snd (case err of None \<Rightarrow> (m, w) | Some e \<Rightarrow> (f e, w)) = w"
  by (cases err) simp_all

locale call_relation =
  fixes R :: "('w, 'e) env \<Rightarrow> ('w, 'e) env \<Rightarrow> bool"
  assumes refl: "R w w" and trans: "R w u \<Longrightarrow> R u v \<Longrightarrow> R w v"
begin

lemma related_then:
  assumes "R w (snd p)" and "\<And>x w1. p = (Ret x, w1) \<Longrightarrow> R w1 (snd (f x w1))"
  shows "R w (snd (op_then p f))"
proof (cases p)
  case (Pair m w1)
  then show ?thesis using assms by (cases m) (auto intro: trans)
qed

lemma related_pure: "R w (snd (m, w))"
  by (simp add: refl)

lemmas related_steps = related_then related_pure refl

lemma SyncTags_related:
  assumes "\<And>inp v. tag_ResourceArn inp = Some arn \<Longrightarrow> R v (after_tag client inp v)"
    and "\<And>inp v. untag_ResourceArn inp = Some arn \<Longrightarrow> R v (after_untag client inp v)"
  shows "R w (snd (SyncTags sch client arn aTags bTags w))"
proof -
  have "R u (snd (addTags ord client arn toAdd u))" for ord toAdd u
    using assms(1) by (auto simp: addTags_def Let_def case_prod_unfold)
  moreover have "R u (snd (removeTags client arn ks u))" for ks u
    using assms(2) by (auto simp: removeTags_def Let_def case_prod_unfold)
  ultimately show ?thesis
    unfolding SyncTags_sequence by (auto intro!: related_steps split: option.split)
qed

lemma sdkFind_related:
  assumes "\<And>inp v. R v (after_describe (sdkapi rm) inp v)"
  shows "R w (snd (sdkFind rt rm r w))"
  unfolding sdkFind_def using assms
  by (auto intro!: related_then simp: Let_def case_prod_unfold answered refl split: option.split)

lemma ReadOne_related:
  assumes "\<And>inp v. R v (after_describe (sdkapi rm) inp v)"
  shows "R w (snd (ReadOne rt sch rm res w))"
  unfolding ReadOne_def
  by (auto intro!: related_then sdkFind_related assms simp: refl)

lemma sdkUpdate_related:
  assumes "\<And>inp v. update_GlobalNetworkId inp = GlobalNetworkID (Status g) \<Longrightarrow>
      R v (after_update (sdkapi rm) inp v)"
    and "\<And>arn inp v. ARN (metadata_of g) = Some arn \<Longrightarrow> tag_ResourceArn inp = Some arn \<Longrightarrow>
      R v (after_tag (sdkapi rm) inp v)"
    and "\<And>arn inp v. ARN (metadata_of g) = Some arn \<Longrightarrow> untag_ResourceArn inp = Some arn \<Longrightarrow>
      R v (after_untag (sdkapi rm) inp v)"
  shows "R w (snd (sdkUpdate rt sch rm \<lparr>ko = Some g\<rparr> latest delta w))"
proof -
  have tags: "R w (snd (update_tags rt sch rm \<lparr>ko = Some g\<rparr> latest delta w))"
    unfolding update_tags_def syncTags_def
    by (auto intro!: related_then SyncTags_related assms(2,3) simp: refl metadata_of_def outcome_simps)
  show ?thesis
    unfolding sdkUpdate_def
    using assms(1)
    by (auto intro!: related_then tags
        simp: refl Let_def case_prod_unfold answered newUpdateRequestPayload_def split: option.split)
qed

lemma Create_related:
  assumes "\<And>inp v. R v (after_create (sdkapi rm) inp v)"
  shows "R w (snd (Create rt rm res w))"
  unfolding Create_def sdkCreate_def using assms
  by (auto intro!: related_then simp: refl Let_def case_prod_unfold answered split: option.split)

lemma Delete_related:
  assumes "\<And>inp v. R v (after_delete (sdkapi rm) inp v)"
  shows "R w (snd (Delete rt rm res w))"
  unfolding Delete_def sdkDelete_def using assms
  by (auto intro!: related_then simp: refl Let_def case_prod_unfold answered split: option.split)

lemma Update_related:
  assumes "\<And>inp v. R v (after_update (sdkapi rm) inp v)"
    and "\<And>inp v. R v (after_tag (sdkapi rm) inp v)" and "\<And>inp v. R v (after_untag (sdkapi rm) inp v)"
  shows "R w (snd (Update rt sch rm desired latest delta w))"
proof -
  have "R u (snd (sdkUpdate rt sch rm r l delta u))" for r l u
  proof (cases "ko r")
    case None
    then have "ko r = None" .
    then show ?thesis
      unfolding sdkUpdate_def update_tags_def newUpdateRequestPayload_def
      by (auto intro!: related_then simp: refl split: option.split)
  next
    case (Some g)
    then have "r = \<lparr>ko = Some g\<rparr>" by simp
    with sdkUpdate_related [OF assms, where g = g] show ?thesis by simp
  qed
  then show ?thesis
    unfolding Update_def by (auto intro!: related_then simp: refl)
qed

text \<open>The stages of a reconciliation and the whole of it, if every call keeps to the relation.\<close>

lemma read_related:
  assumes "\<And>inp v. R v (after_describe (sdkapi rm) inp v)"
  shows "R w (snd (read_stage rt ss rm md res w))"
  unfolding read_stage_def
  by (auto intro!: related_then ReadOne_related assms simp: refl split: option.split)

lemma write_related:
  assumes "\<And>inp v. R v (after_create (sdkapi rm) inp v)"
    and "\<And>inp v. R v (after_update (sdkapi rm) inp v)"
    and "\<And>inp v. R v (after_tag (sdkapi rm) inp v)" and "\<And>inp v. R v (after_untag (sdkapi rm) inp v)"
  shows "R w (snd (write_stage rt ss rm sys r l err w))"
proof -
  have "R w (snd (update_stage rt ss rm sys r l w))"
    unfolding update_stage_def
    by (auto intro!: related_then Update_related assms(2-4) simp: refl)
  then show ?thesis
    unfolding write_stage_def
    by (auto intro!: related_then Create_related assms(1) simp: refl split: option.split)
qed

lemma pass_related:
  assumes "\<And>inp v. R v (after_describe (sdkapi rm) inp v)"
    and "\<And>inp v. R v (after_update (sdkapi rm) inp v)"
    and "\<And>inp v. R v (after_tag (sdkapi rm) inp v)" and "\<And>inp v. R v (after_untag (sdkapi rm) inp v)"
  shows "R w (snd (reconcile_pass rt ss rm md sys res w))"
proof -
  have "R u (snd (update_stage rt ss rm sys r l u))" for r l u
    unfolding update_stage_def
    by (auto intro!: related_then Update_related assms(2-4) simp: refl)
  then show ?thesis
    unfolding reconcile_pass_def
    by (auto intro!: related_then read_related assms(1) simp: refl split: option.split)
qed

lemma sync_related:
  assumes "\<And>inp v. R v (after_describe (sdkapi rm) inp v)"
    and "\<And>inp v. R v (after_create (sdkapi rm) inp v)"
    and "\<And>inp v. R v (after_update (sdkapi rm) inp v)"
    and "\<And>inp v. R v (after_tag (sdkapi rm) inp v)" and "\<And>inp v. R v (after_untag (sdkapi rm) inp v)"
  shows "R w (snd (reconcile_sync rt ss rm md sys res w))"
  unfolding reconcile_sync_def
  by (auto intro!: related_then read_related write_related assms)

end

section \<open>A client that keeps a log\<close>

text \<open>
  The state of the service with a log of the calls it has answered, oldest first: the operation and
  its error. Only a call adds to the log. The metrics record on the other hand is what the
  code says it did.
\<close>

definition log_call :: "string \<Rightarrow> ('r \<Rightarrow> 'e option) \<Rightarrow> ('w \<Rightarrow> 'r \<times> 'w) \<Rightarrow>
   'w \<times> (string \<times> 'e option) list \<Rightarrow> 'r \<times> 'w \<times> (string \<times> 'e option) list" where
  "log_call op err f s = (case f (fst s) of (r, w) \<Rightarrow> (r, w, snd s @ [(op, err r)]))"

definition logged :: "('w, 'e) svcsdk_Client \<Rightarrow> ('w \<times> (string \<times> 'e option) list, 'e) svcsdk_Client" where
  "logged cl = \<lparr>
     TagResource = (\<lambda>inp. log_call ''TagResource'' id (TagResource cl inp)),
     UntagResource = (\<lambda>inp. log_call ''UntagResource'' id (UntagResource cl inp)),
     DescribeGlobalNetworks = (\<lambda>inp. log_call ''DescribeGlobalNetworks'' snd (DescribeGlobalNetworks cl inp)),
     CreateGlobalNetwork = (\<lambda>inp. log_call ''CreateGlobalNetwork'' snd (CreateGlobalNetwork cl inp)),
     UpdateGlobalNetwork = (\<lambda>inp. log_call ''UpdateGlobalNetwork'' snd (UpdateGlobalNetwork cl inp)),
     DeleteGlobalNetwork = (\<lambda>inp. log_call ''DeleteGlobalNetwork'' id (DeleteGlobalNetwork cl inp))\<rparr>"

text \<open>
  From \<open>w\<close> to \<open>w'\<close> the service was called as the metrics recorder was told, call for call: the same operations
  in the same order with the same errors.
\<close>

definition metered ::
  "('w \<times> (string \<times> 'e option) list, 'e) env \<Rightarrow> ('w \<times> (string \<times> 'e option) list, 'e) env \<Rightarrow> bool" where
  "metered w w' \<longleftrightarrow> (\<exists>cs. api_calls w' = api_calls w @ cs \<and> snd (svc w') = snd (svc w) @ map snd cs)"

interpretation metering: call_relation metered
proof
  show "metered w w" for w :: "('w \<times> (string \<times> 'e option) list, 'e) env" by (simp add: metered_def)
  show "metered w v" if "metered w u" "metered u v" for w u v :: "('w \<times> (string \<times> 'e option) list, 'e) env"
    using that unfolding metered_def by (metis append.assoc map_append)
qed

lemma logged_metered:
  "metered v (after_tag (logged cl) ti v)" "metered v (after_untag (logged cl) ui v)"
  "metered v (after_describe (logged cl) di v)" "metered v (after_create (logged cl) ci v)"
  "metered v (after_update (logged cl) pi v)" "metered v (after_delete (logged cl) xi v)"
  by (simp_all add: metered_def logged_def log_call_def case_prod_unfold)

text \<open>
  The calls of an operation on the service: from \<open>w\<close> to \<open>w'\<close> it made the calls \<open>cs\<close>, each of them
  once and reported, some of the operations \<open>ops\<close> in that order, and only the last call can have failed.
\<close>

definition makes_calls :: "string list \<Rightarrow> ('w \<times> (string \<times> 'e option) list, 'e) env \<Rightarrow>
   ('w \<times> (string \<times> 'e option) list, 'e) env \<Rightarrow> bool" where
  "makes_calls ops w w' \<longleftrightarrow> (\<exists>cs. snd (svc w') = snd (svc w) @ cs \<and>
     map snd (api_calls w') = map snd (api_calls w) @ cs \<and>
     subseq (map fst cs) ops \<and> (\<forall>c \<in> set (butlast cs). snd c = None))"

lemma makes_calls:
  assumes "metered w w'" and "calls_within ops w w'"
  shows "makes_calls ops w w'"
proof -
  obtain cs where cs: "api_calls w' = api_calls w @ cs" "snd (svc w') = snd (svc w) @ map snd cs"
    using assms(1) by (auto simp: metered_def)
  have "subseq (map call_op cs) ops" "list_all call_ok (butlast cs)"
    using assms(2) cs(1) by (auto simp: calls_within_def)
  then have "subseq (map fst (map snd cs)) ops" "\<forall>c \<in> set (butlast (map snd cs)). snd c = None"
    by (auto simp: comp_def list_all_iff map_butlast [symmetric])
  with cs show ?thesis unfolding makes_calls_def by (intro exI [of _ "map snd cs"]) simp
qed

section \<open>Properties\<close>

text \<open>
  C7: an operation makes few calls of the API, in a fixed order, none of them twice and none
  after one that failed: one to read, one to create, one to delete; for an update first the tags
  to set, then those to remove, then the network; for a whole pass one to read and those of
  an update. These are the calls the service answers, as its log of them shows, and the metrics recorder is told of
  each of them and of no other, with its error. This holds whatever the service answers, errors
  and panics included.
\<close>

theorem operations_make_few_calls:
  "makes_calls [''DescribeGlobalNetworks''] w (snd (ReadOne rt s (rm\<lparr>sdkapi := logged cl\<rparr>) res w)) \<and>
   makes_calls [''CreateGlobalNetwork''] w (snd (Create rt (rm\<lparr>sdkapi := logged cl\<rparr>) res w)) \<and>
   makes_calls [''DeleteGlobalNetwork''] w (snd (Delete rt (rm\<lparr>sdkapi := logged cl\<rparr>) res w)) \<and>
   makes_calls [''TagResource'', ''UntagResource'', ''UpdateGlobalNetwork''] w
     (snd (Update rt s (rm\<lparr>sdkapi := logged cl\<rparr>) desired latest delta w)) \<and>
   makes_calls [''DescribeGlobalNetworks'', ''TagResource'', ''UntagResource'', ''UpdateGlobalNetwork''] w
     (snd (reconcile_pass rt scheds (rm\<lparr>sdkapi := logged cl\<rparr>) md sys res w))"
proof (intro conjI makes_calls)
  let ?rm = "rm\<lparr>sdkapi := logged cl\<rparr>"
  note laws = logged_metered
  show "metered w (snd (ReadOne rt s ?rm res w))"
    by (rule metering.ReadOne_related) (simp add: laws)
  show "metered w (snd (Create rt ?rm res w))"
    by (rule metering.Create_related) (simp add: laws)
  show "metered w (snd (Delete rt ?rm res w))"
    by (rule metering.Delete_related) (simp add: laws)
  show "metered w (snd (Update rt s ?rm desired latest delta w))"
    by (rule metering.Update_related) (simp_all add: laws)
  show "metered w (snd (reconcile_pass rt scheds ?rm md sys res w))"
    by (rule metering.pass_related) (simp_all add: laws)
qed (intro bounded_within [OF ReadOne_calls] bounded_within [OF Create_calls]
    bounded_within [OF Delete_calls] bounded_within [OF Update_calls] bounded_within [OF reconcile_pass_calls])+

end
