(* ===== verification/Isolation.thy ===== *)
theory Isolation
  imports ApiCalls
begin

text \<open>
  The controller acts on the network an object names and on no other. The interpretation
  \<open>others\<close> of \<open>call_relation\<close> is the relation that leaves the other networks alone; others are that
  the networks stay (\<open>same_networks\<close>), are only added to (\<open>growing\<close>), or keep their ARNs (\<open>arns\<close>).
\<close>

section \<open>Only the tags of the desired object change on the way\<close>

lemma set_tags_same: "\<exists>ts. g = set_tags ts g"
  by (rule exI [of _ "Tags (Spec g)"]) (simp add: set_tags_def)

lemma set_tags_twice [simp]: "set_tags ts (set_tags us g) = set_tags ts g"
  by (simp add: set_tags_def)

lemma EnsureTags_argument:
  "EnsureTags rt s rm (ResourcePtr (Some \<lparr>ko = Some g\<rparr>)) md = Ret (r, err) \<Longrightarrow>
    \<exists>ts. r = \<lparr>ko = Some (set_tags ts g)\<rparr>"
  by (auto simp: EnsureTags_def outcome_simps Let_def)

lemma FilterSystemTags_argument:
  "FilterSystemTags rt s (ResourcePtr (Some \<lparr>ko = Some g\<rparr>)) sys = Ret r \<Longrightarrow>
    \<exists>ts. r = Some \<lparr>ko = Some (set_tags ts g)\<rparr>"
  by (auto simp: FilterSystemTags_def concreteResource_def outcome_simps Let_def)

lemma mirrorAWSTags_argument:
  "mirrorAWSTags rt s (Some \<lparr>ko = Some g\<rparr>) b = Ret r \<Longrightarrow> \<exists>ts. r = Some \<lparr>ko = Some (set_tags ts g)\<rparr>"
  by (auto simp: mirrorAWSTags_def outcome_simps Let_def set_tags_same split: if_splits)

lemma ReadOne_argument:
  "ReadOne rt s rm (ResourcePtr (Some \<lparr>ko = Some g\<rparr>)) w = (Ret (r, out, err), w') \<Longrightarrow>
    \<exists>ts. r = \<lparr>ko = Some (set_tags ts g)\<rparr>"
  by (auto simp: ReadOne_def op_then_Ret outcome_simps dest!: mirrorAWSTags_argument)

lemma read_stage_argument:
  assumes "read_stage rt s rm md (ResourcePtr (Some \<lparr>ko = Some g\<rparr>)) w = (Ret (r, out, err), w')"
  shows "\<exists>ts. r = \<lparr>ko = Some (set_tags ts g)\<rparr>"
  using assms
  by (auto simp: read_stage_def op_then_Ret split: option.splits
      dest!: EnsureTags_argument ReadOne_argument)

section \<open>The other networks\<close>

text \<open>The same network, up to the order of its tags.\<close>

definition alike :: "sdk_global_network option \<Rightarrow> sdk_global_network option \<Rightarrow> bool" where
  "alike a b \<longleftrightarrow> map_option bare a = map_option bare b \<and> map_option net_tags a = map_option net_tags b"

lemma alike_refl [simp]: "alike a a"
  by (simp add: alike_def)

lemma alike_trans: "alike a b \<Longrightarrow> alike b c \<Longrightarrow> alike a c"
  by (simp add: alike_def)

lemma alike_None [simp]: "alike None b \<longleftrightarrow> b = None" "alike a None \<longleftrightarrow> a = None"
  by (cases b) (auto simp: alike_def)

text \<open>No network but the one named \<open>i\<close> has this ARN.\<close>

definition owns :: "'w networks \<Rightarrow> string \<Rightarrow> string option \<Rightarrow> 'w \<Rightarrow> bool" where
  "owns nets i arn s \<longleftrightarrow> (\<forall>j n. nets s j = Some n \<longrightarrow> arn \<noteq> None \<longrightarrow> sdk_GlobalNetworkArn n = arn \<longrightarrow> j = i)"

definition others_kept :: "'w networks \<Rightarrow> string \<Rightarrow> string option \<Rightarrow> 'w \<Rightarrow> 'w \<Rightarrow> bool" where
  "others_kept nets i arn s s' \<longleftrightarrow> (owns nets i arn s \<longrightarrow> (\<forall>j. j \<noteq> i \<longrightarrow> alike (nets s j) (nets s' j)))"

lemma owns_kept:
  assumes "owns nets i arn s" and "\<And>j. j \<noteq> i \<Longrightarrow> alike (nets s j) (nets s' j)"
  shows "owns nets i arn s'"
  unfolding owns_def
proof (intro allI impI)
  fix j n'
  assume n': "nets s' j = Some n'" "arn \<noteq> None" "sdk_GlobalNetworkArn n' = arn"
  show "j = i"
  proof (rule ccontr)
    assume "j \<noteq> i"
    with assms(2) n'(1) have "map_option bare (nets s j) = map_option bare (Some n')"
      by (metis alike_def)
    then obtain n where "nets s j = Some n" "sdk_GlobalNetworkArn n = sdk_GlobalNetworkArn n'"
      by (metis bare_eqD)
    with assms(1) n' \<open>j \<noteq> i\<close> show False by (metis owns_def)
  qed
qed

lemma others_kept_trans: "others_kept nets i arn s t \<Longrightarrow> others_kept nets i arn t u \<Longrightarrow> others_kept nets i arn s u"
  using owns_kept [of nets i arn s t] unfolding others_kept_def by (meson alike_trans)

interpretation others: call_relation "\<lambda>w w'. others_kept nets i arn (svc w) (svc w')" for nets :: "'w networks" and i arn
  by unfold_locales (simp add: others_kept_def, rule others_kept_trans)

text \<open>
  What is relied on beside \<open>service_ok\<close>: a call that names a network or an ARN changes nothing of
  the others, whatever it answers; a call that describes changes no network; a creation takes no network away and
  alters none, whatever it answers (one that answers an error may have created networks, when only the answer was lost); an update
  neither adds nor removes a network and changes no ARN, a deletion adds none and changes no ARN;
  no two networks have one ARN.
\<close>

definition calls_local :: "('w, 'e) svcsdk_Client \<Rightarrow> 'w networks \<Rightarrow> 'w tagging \<Rightarrow> bool" where
  "calls_local client nets tagging \<longleftrightarrow>
     (\<forall>inp s. nets (snd (DescribeGlobalNetworks client inp s)) = nets s) \<and>
     (\<forall>inp s resp err s'. CreateGlobalNetwork client inp s = ((resp, err), s') \<longrightarrow>
        nets s \<subseteq>\<^sub>m nets s') \<and>
     (\<forall>inp s j. update_GlobalNetworkId inp \<noteq> Some j \<longrightarrow>
        nets (snd (UpdateGlobalNetwork client inp s)) j = nets s j) \<and>
     (\<forall>inp s j. delete_GlobalNetworkId inp \<noteq> Some j \<longrightarrow>
        nets (snd (DeleteGlobalNetwork client inp s)) j = nets s j) \<and>
     (\<forall>inp s j. map_option sdk_GlobalNetworkArn (nets (snd (UpdateGlobalNetwork client inp s)) j) =
        map_option sdk_GlobalNetworkArn (nets s j)) \<and>
     (\<forall>inp s j n. nets (snd (DeleteGlobalNetwork client inp s)) j = Some n \<longrightarrow>
        map_option sdk_GlobalNetworkArn (nets s j) = Some (sdk_GlobalNetworkArn n)) \<and>
     (\<forall>inp s b. tag_ResourceArn inp \<noteq> Some b \<longrightarrow> tagging (snd (TagResource client inp s)) b = tagging s b) \<and>
     (\<forall>inp s b. untag_ResourceArn inp \<noteq> Some b \<longrightarrow> tagging (snd (UntagResource client inp s)) b = tagging s b) \<and>
     (\<forall>s i j n m. nets s i = Some n \<longrightarrow> nets s j = Some m \<longrightarrow>
        sdk_GlobalNetworkArn n = sdk_GlobalNetworkArn m \<longrightarrow> i = j)"

lemma tagging_kept:
  assumes ok: "service_ok rt client nets tagging"
    and bare: "\<And>j. map_option bare (nets s' j) = map_option bare (nets s j)"
    and tags: "\<And>b. b \<noteq> arn \<Longrightarrow> tagging s' b = tagging s b"
  shows "others_kept nets i (Some arn) s s'"
  unfolding others_kept_def
proof (intro impI allI)
  fix j
  assume own: "owns nets i (Some arn) s" and j: "j \<noteq> i"
  show "alike (nets s j) (nets s' j)"
  proof (cases "nets s j")
    case None
    with bare [of j] show ?thesis by simp
  next
    case (Some n)
    obtain n' where n': "nets s' j = Some n'" "sdk_GlobalNetworkArn n' = sdk_GlobalNetworkArn n"
      using bare [of j] bare_eqD Some by metis
    obtain a where a: "sdk_GlobalNetworkArn n = Some a" "net_tags n = tagging s a"
      by (rule service_networks [OF ok Some])
    have "net_tags n' = tagging s' a"
      by (rule service_networks [OF ok n'(1)]) (simp add: n'(2) a(1))
    moreover have "a \<noteq> arn" using own Some j a(1) by (auto simp: owns_def)
    ultimately show ?thesis using tags bare [of j] a(2) n'(1) Some by (simp add: alike_def)
  qed
qed

lemma service_keeps_others:
  assumes ok: "service_ok rt client nets tagging" and loc: "calls_local client nets tagging"
  shows "others_kept nets i arn s (snd (DescribeGlobalNetworks client inp1 s))"
    and "update_GlobalNetworkId inp2 = Some i \<Longrightarrow> others_kept nets i arn s (snd (UpdateGlobalNetwork client inp2 s))"
    and "delete_GlobalNetworkId inp3 = Some i \<Longrightarrow> others_kept nets i arn s (snd (DeleteGlobalNetwork client inp3 s))"
    and "tag_ResourceArn inp4 = Some a \<Longrightarrow> others_kept nets i (Some a) s (snd (TagResource client inp4 s))"
    and "untag_ResourceArn inp5 = Some a \<Longrightarrow> others_kept nets i (Some a) s (snd (UntagResource client inp5 s))"
proof -
  have frame: "tagging_frame client nets" using ok by (simp add: service_ok_def)
  show "others_kept nets i arn s (snd (DescribeGlobalNetworks client inp1 s))"
    "update_GlobalNetworkId inp2 = Some i \<Longrightarrow> others_kept nets i arn s (snd (UpdateGlobalNetwork client inp2 s))"
    "delete_GlobalNetworkId inp3 = Some i \<Longrightarrow> others_kept nets i arn s (snd (DeleteGlobalNetwork client inp3 s))"
    using loc by (simp_all add: calls_local_def others_kept_def)
  show "others_kept nets i (Some a) s (snd (TagResource client inp4 s))" if "tag_ResourceArn inp4 = Some a"
  proof (rule tagging_kept [OF ok])
    show "map_option bare (nets (snd (TagResource client inp4 s)) j) = map_option bare (nets s j)" for j
      using frame unfolding tagging_frame_def by (metis prod.collapse)
    show "tagging (snd (TagResource client inp4 s)) b = tagging s b" if "b \<noteq> a" for b
      using loc that \<open>tag_ResourceArn inp4 = Some a\<close> by (simp add: calls_local_def)
  qed
  show "others_kept nets i (Some a) s (snd (UntagResource client inp5 s))" if "untag_ResourceArn inp5 = Some a"
  proof (rule tagging_kept [OF ok])
    show "map_option bare (nets (snd (UntagResource client inp5 s)) j) = map_option bare (nets s j)" for j
      using frame unfolding tagging_frame_def by (metis prod.collapse)
    show "tagging (snd (UntagResource client inp5 s)) b = tagging s b" if "b \<noteq> a" for b
      using loc that \<open>untag_ResourceArn inp5 = Some a\<close> by (simp add: calls_local_def)
  qed
qed

text \<open>
  What a creation that answers an error may leave behind: at most \<open>r\<close> networks, one if the answer to a
  request that was carried out is lost, more if the client of the service has repeated the request.
\<close>

definition create_leaves :: "('w, 'e) svcsdk_Client \<Rightarrow> 'w networks \<Rightarrow> nat \<Rightarrow> bool" where
  "create_leaves client nets r \<longleftrightarrow>
     (\<forall>inp s resp e s'. CreateGlobalNetwork client inp s = ((resp, Some e), s') \<longrightarrow>
        finite (dom (nets s') - dom (nets s)) \<and> card (dom (nets s') - dom (nets s)) \<le> r)"

text \<open>The creations that have failed, as the metrics recorder was told of them.\<close>

definition failed_creations :: "('w, 'e) env \<Rightarrow> nat" where
  "failed_creations w = length (filter (\<lambda>(t, op, err). op = ''CreateGlobalNetwork'' \<and> err \<noteq> None) (api_calls w))"

lemma failed_creations_mono: "calls_within ops w w' \<Longrightarrow> failed_creations w \<le> failed_creations w'"
  by (auto simp: calls_within_def failed_creations_def)

section \<open>The operations\<close>

lemma update_keeps_others:
  assumes "service_ok rt (sdkapi rm) nets tagging" and "calls_local (sdkapi rm) nets tagging"
    and "GlobalNetworkID (Status g) = Some i"
  shows "others_kept nets i (ARN (metadata_of g)) (svc w)
    (svc (snd (Update rt s rm (ResourcePtr (Some \<lparr>ko = Some g\<rparr>)) latest delta w)))"
proof -
  note kept = service_keeps_others [OF assms(1,2)]
  have "others_kept nets i (ARN (metadata_of g)) (svc u)
      (svc (snd (sdkUpdate rt s rm \<lparr>ko = Some g\<rparr> l delta u)))" for l u
    by (rule others.sdkUpdate_related) (use assms(3) kept in auto)
  then show ?thesis
    unfolding Update_def by (auto intro!: others.related_then simp: others.refl concreteResource_def)
qed

lemma update_stage_keeps_others:
  assumes "service_ok rt (sdkapi rm) nets tagging" and "calls_local (sdkapi rm) nets tagging"
    and "GlobalNetworkID (Status g) = Some i"
  shows "others_kept nets i (ARN (metadata_of g)) (svc w)
    (svc (snd (update_stage rt s rm sys \<lparr>ko = Some g\<rparr> latest w)))"
  unfolding update_stage_def
  by (auto intro!: others.related_then update_keeps_others [OF assms(1,2), of "set_tags ts g" for ts, simplified]
      simp: others.refl assms(3) dest!: FilterSystemTags_argument)

interpretation same_networks: call_relation "\<lambda>w w'. nets (svc w') = nets (svc w)" for nets :: "'w networks"
  by unfold_locales simp_all

lemma read_one_keeps_networks:
  assumes "calls_local (sdkapi rm) nets tagging"
  shows "nets (svc (snd (ReadOne rt s rm res w))) = nets (svc w)"
  by (rule same_networks.ReadOne_related) (use assms in \<open>simp add: calls_local_def\<close>)

lemma read_stage_keeps_networks:
  assumes "calls_local (sdkapi rm) nets tagging"
  shows "nets (svc (snd (read_stage rt s rm md res w))) = nets (svc w)"
  by (rule same_networks.read_related) (use assms in \<open>simp add: calls_local_def\<close>)

interpretation growing: call_relation "\<lambda>w w'. nets (svc w) \<subseteq>\<^sub>m nets (svc w')" for nets :: "'w networks"
  by unfold_locales (auto intro: map_le_trans)

lemma create_keeps_networks:
  assumes "calls_local (sdkapi rm) nets tagging"
  shows "nets (svc w) \<subseteq>\<^sub>m nets (svc (snd (Create rt rm res w)))"
proof -
  have "nets s \<subseteq>\<^sub>m nets (snd (CreateGlobalNetwork (sdkapi rm) inp s))" for inp s
    using assms unfolding calls_local_def by (metis prod.collapse)
  then show ?thesis by (intro growing.Create_related [where nets = nets]) simp
qed

text \<open>A creation that answers an error has made one call, which failed.\<close>

lemma create_failed_call:
  assumes "Create rt rm res w = (Ret (out, Some e), w')"
  obtains inp resp e' where "CreateGlobalNetwork (sdkapi rm) inp (svc w) = ((resp, Some e'), svc w')"
    and "api_calls w' = api_calls w @ [(''CREATE'', ''CreateGlobalNetwork'', Some e')]"
  using assms
  by (auto simp: Create_def sdkCreate_def op_then_Ret Let_def outcome_simps post_create_defer_def newCreateRequestPayload_def
      dest!: finish_error split: option.splits prod.splits)

lemma delete_keeps_others:
  assumes "calls_local (sdkapi rm) nets tagging" and "GlobalNetworkID (Status g) = Some i" and "j \<noteq> i"
  shows "nets (svc (snd (Delete rt rm (ResourcePtr (Some \<lparr>ko = Some g\<rparr>)) w))) j = nets (svc w) j"
proof -
  obtain err s where "DeleteGlobalNetwork (sdkapi rm) \<lparr>delete_GlobalNetworkId = Some i\<rparr> (svc w) = (err, s)"
    by fastforce
  moreover from this have "nets s j = nets (svc w) j"
    using assms(1,3) unfolding calls_local_def
    by (metis DeleteGlobalNetworkInput.select_convs(1) option.inject snd_conv)
  ultimately show ?thesis
    using assms(2) by (simp add: Delete_def sdkDelete_eq op_then_pure)
qed

lemma pass_keeps_others:
  assumes "service_ok rt (sdkapi rm) nets tagging" and "calls_local (sdkapi rm) nets tagging"
    and "GlobalNetworkID (Status g) = Some i"
  shows "others_kept nets i (ARN (metadata_of g)) (svc w)
    (svc (snd (reconcile_pass rt s rm md sys (ResourcePtr (Some \<lparr>ko = Some g\<rparr>)) w)))"
proof -
  have read: "others_kept nets i (ARN (metadata_of g)) (svc w)
      (svc (snd (read_stage rt s rm md (ResourcePtr (Some \<lparr>ko = Some g\<rparr>)) w)))"
    by (simp add: others_kept_def read_stage_keeps_networks [OF assms(2)])
  have "others_kept nets i (ARN (metadata_of g)) (svc u)
      (svc (snd (update_stage rt s rm sys \<lparr>ko = Some (set_tags ts g)\<rparr> latest u)))" for ts latest u
    using update_stage_keeps_others [OF assms(1,2), of "set_tags ts g" i] assms(3) by simp
  then show ?thesis
    unfolding reconcile_pass_def
    by (auto intro!: others.related_then read simp: others.refl dest!: read_stage_argument split: option.split)
qed

text \<open>An update leaves the ARNs alone, and so every network where it is.\<close>

definition arn_at :: "'w networks \<Rightarrow> 'w \<Rightarrow> string \<rightharpoonup> string option" where
  "arn_at nets s j = map_option sdk_GlobalNetworkArn (nets s j)"

interpretation arns: call_relation "\<lambda>w w'. arn_at nets (svc w') = arn_at nets (svc w)" for nets :: "'w networks"
  by unfold_locales simp_all

lemma arn_at_bare:
  assumes "\<And>j. map_option bare (nets s' j) = map_option bare (nets s j)"
  shows "arn_at nets s' = arn_at nets s"
proof
  fix j
  have "arn_at nets s' j = map_option sdk_GlobalNetworkArn (map_option bare (nets s' j))" for s'
    by (simp add: arn_at_def option.map_comp comp_def)
  then show "arn_at nets s' j = arn_at nets s j" by (simp add: assms)
qed

lemma update_stage_keeps_arns:
  assumes "service_ok rt (sdkapi rm) nets tagging" and "calls_local (sdkapi rm) nets tagging"
  shows "arn_at nets (svc (snd (update_stage rt s rm sys \<lparr>ko = Some g\<rparr> latest w))) = arn_at nets (svc w)"
proof -
  have frame: "tagging_frame (sdkapi rm) nets" using assms(1) by (simp add: service_ok_def)
  have calls: "arn_at nets (snd (UpdateGlobalNetwork (sdkapi rm) ui v)) = arn_at nets v"
    "arn_at nets (snd (TagResource (sdkapi rm) ti v)) = arn_at nets v"
    "arn_at nets (snd (UntagResource (sdkapi rm) xi v)) = arn_at nets v" for ui ti xi v
  proof -
    show "arn_at nets (snd (UpdateGlobalNetwork (sdkapi rm) ui v)) = arn_at nets v"
      using assms(2) by (simp add: calls_local_def arn_at_def fun_eq_iff)
    show "arn_at nets (snd (TagResource (sdkapi rm) ti v)) = arn_at nets v"
      "arn_at nets (snd (UntagResource (sdkapi rm) xi v)) = arn_at nets v"
      using frame unfolding tagging_frame_def by (metis arn_at_bare prod.collapse)+
  qed
  have "arn_at nets (svc (snd (sdkUpdate rt s' rm \<lparr>ko = Some g'\<rparr> l delta u))) = arn_at nets (svc u)" for s' g' l delta u
    by (rule arns.sdkUpdate_related) (simp_all add: calls)
  then have "arn_at nets (svc (snd (Update rt s' rm (ResourcePtr (Some \<lparr>ko = Some g'\<rparr>)) latest delta u))) =
      arn_at nets (svc u)" for s' g' latest delta u
    unfolding Update_def by (auto intro!: arns.related_then [of nets] simp: concreteResource_def)
  then show ?thesis
    unfolding update_stage_def
    by (auto intro!: arns.related_then [of nets] dest!: FilterSystemTags_argument)
qed

section \<open>Properties\<close>

text \<open>
  C6: the controller changes the network an object names and no other. Whatever the operation
  answers, an error or a panic included, every other network of the account is after a read, an
  update, a deletion or a whole pass as it was, up to the order of its tags; and a creation
  takes no network away and alters none.
\<close>

theorem operations_touch_own_network:
  assumes "service_ok rt (sdkapi rm) nets tagging" and "calls_local (sdkapi rm) nets tagging"
    and "GlobalNetworkID (Status g) = Some i" and "owns nets i (ARN (metadata_of g)) (svc w)" and "j \<noteq> i"
  shows "alike (nets (svc w) j) (nets (svc (snd (ReadOne rt s rm (ResourcePtr (Some \<lparr>ko = Some g\<rparr>)) w))) j) \<and>
    alike (nets (svc w) j) (nets (svc (snd (Update rt s rm (ResourcePtr (Some \<lparr>ko = Some g\<rparr>)) latest delta w))) j) \<and>
    alike (nets (svc w) j) (nets (svc (snd (Delete rt rm (ResourcePtr (Some \<lparr>ko = Some g\<rparr>)) w))) j) \<and>
    alike (nets (svc w) j) (nets (svc (snd (reconcile_pass rt ss rm md sys (ResourcePtr (Some \<lparr>ko = Some g\<rparr>)) w))) j) \<and>
    nets (svc w) \<subseteq>\<^sub>m nets (svc (snd (Create rt rm res w)))"
  using update_keeps_others [OF assms(1-3), of w] pass_keeps_others [OF assms(1-3), of w] assms(4,5)
  by (simp add: others_kept_def read_one_keeps_networks [OF assms(2)] delete_keeps_others [OF assms(2,3,5)]
      create_keeps_networks [OF assms(2)])

end
