(* ===== verification/ErrorSource.thy ===== *)
theory ErrorSource
  imports ApiCalls
begin

text \<open>
  Where errors come from: an operation returns an error only after a call of the API that failed,
  the last one it made. The one exception is a read that finds no network, which answers
  \<open>NotFound\<close>.
\<close>

section \<open>A failed call\<close>

definition faulted :: "('w, 'e) env \<Rightarrow> ('w, 'e) env \<Rightarrow> bool" where
  "faulted w w' \<longleftrightarrow> (\<exists>cs c. api_calls w' = api_calls w @ cs @ [c] \<and> \<not> call_ok c)"

text \<open>A result that is bad comes after a failed call.\<close>

definition honest :: "('w, 'e) env \<Rightarrow> ('a \<Rightarrow> bool) \<Rightarrow> 'a outcome \<times> ('w, 'e) env \<Rightarrow> bool" where
  "honest w bad p \<longleftrightarrow> (\<forall>x w'. p = (Ret x, w') \<longrightarrow> bad x \<longrightarrow> faulted w w')"

lemma honestD: "honest w bad p \<Longrightarrow> p = (Ret x, w') \<Longrightarrow> bad x \<Longrightarrow> faulted w w'"
  by (simp add: honest_def)

lemma honest_pure: "(\<And>x. m = Ret x \<Longrightarrow> \<not> bad x) \<Longrightarrow> honest w bad (m, w)"
  by (simp add: honest_def)

lemma honest_call:
  "(\<And>x. err = None \<Longrightarrow> m = Ret x \<Longrightarrow> \<not> bad x) \<Longrightarrow>
    honest w bad (m, RecordAPICall t op err (w\<lparr>svc := s\<rparr>))"
  by (cases err) (auto simp: honest_def faulted_def)

lemma honest_pure_then:
  "(\<And>x. m = Ret x \<Longrightarrow> honest w bad (f x w)) \<Longrightarrow> honest w bad (op_then (m, w) f)"
  by (cases m) (simp_all add: honest_def)

lemma faulted_later: "calls_within ops w w1 \<Longrightarrow> faulted w1 w' \<Longrightarrow> faulted w w'"
  unfolding calls_within_def faulted_def by (metis append.assoc)

text \<open>An operation followed by another: a bad result of the first ends it, or the second is honest.\<close>

lemma honest_then:
  assumes "calls_within ops w (snd p)" and "honest w bad' p"
    and "\<And>x w1. p = (Ret x, w1) \<Longrightarrow> bad' x \<Longrightarrow> snd (f x w1) = w1"
    and "\<And>x w1. p = (Ret x, w1) \<Longrightarrow> \<not> bad' x \<Longrightarrow> honest w1 bad (f x w1)"
  shows "honest w bad (op_then p f)"
  unfolding honest_def
proof (intro allI impI)
  fix y w'
  assume "op_then p f = (Ret y, w')" and bad: "bad y"
  then obtain x w1 where p: "p = (Ret x, w1)" and f: "f x w1 = (Ret y, w')"
    by (auto simp: op_then_Ret)
  show "faulted w w'"
  proof (cases "bad' x")
    case True
    with assms(3) [OF p] f have "w' = w1" by simp
    with honestD [OF assms(2) p True] show ?thesis by simp
  next
    case False
    from honestD [OF assms(4) [OF p False] f bad] assms(1) p show ?thesis
      by (auto intro: faulted_later)
  qed
qed

text \<open>The end of a method, which calls nothing.\<close>

lemma honest_end:
  assumes "honest w bad p"
    and "\<And>x w1 y. p = (Ret x, w1) \<Longrightarrow> snd (f x w1) = w1 \<and> (fst (f x w1) = Ret y \<longrightarrow> bad' y \<longrightarrow> bad x)"
  shows "honest w bad' (op_then p f)"
  unfolding honest_def
proof (intro allI impI)
  fix y w'
  assume "op_then p f = (Ret y, w')" and bad: "bad' y"
  then obtain x w1 where p: "p = (Ret x, w1)" and f: "f x w1 = (Ret y, w')"
    by (auto simp: op_then_Ret)
  from assms(2) [OF p, of y] f bad have "w' = w1" "bad x" by simp_all
  with honestD [OF assms(1) p] show "faulted w w'" by simp
qed

section \<open>The operations\<close>

lemmas honest_steps = honest_pure_then honest_pure honest_call

lemma sdkFind_honest:
  "honest w (\<lambda>(r, err). err \<noteq> None \<and> err \<noteq> Some (NotFound rt)) (sdkFind rt rm r w)"
  unfolding sdkFind_def
  by (auto simp: Let_def outcome_simps newListRequestPayload_def neq_Nil_conv intro!: honest_steps
      split: option.split prod.split list.splits)

lemma sdkCreate_honest: "honest w (\<lambda>(r, err). err \<noteq> None) (sdkCreate rt rm r w)"
  unfolding sdkCreate_def
  by (auto simp: Let_def outcome_simps newCreateRequestPayload_def post_create_defer_def intro!: honest_steps
      split: option.splits prod.split)

lemma sdkDelete_honest: "honest w (\<lambda>(r, err). err \<noteq> None) (sdkDelete rm r w)"
  unfolding sdkDelete_def
  by (auto simp: Let_def outcome_simps newDeleteRequestPayload_def intro!: honest_steps split: option.splits prod.split)

lemma tag_calls_honest:
  "honest w (\<lambda>err. err \<noteq> None) (Ret (fst (addTags ord client arn toAdd w)), snd (addTags ord client arn toAdd w))"
  "honest w (\<lambda>err. err \<noteq> None) (Ret (fst (removeTags client arn ks w)), snd (removeTags client arn ks w))"
  by (auto simp: addTags_def removeTags_def Let_def intro!: honest_call split: prod.split)

lemma SyncTags_honest: "honest w (\<lambda>err. err \<noteq> None) (SyncTags s client arn aTags bTags w)"
proof -
  have add: "bounded [''TagResource''] w (\<lambda>err. err = None)
      (if length toAdd > 0
         then op_then (log_loop (entries (s 2) toAdd), w) (\<lambda>_ w.
           (Ret (fst (addTags (s 3) client arn toAdd w)), snd (addTags (s 3) client arn toAdd w)))
         else (Ret None, w))" for toAdd
    by (auto intro!: bounded_pure_then tag_calls bounded_pure)
  have "honest w (\<lambda>err. err \<noteq> None) (op_then (if length toAdd > 0
         then op_then (log_loop (entries (s 2) toAdd), w) (\<lambda>_ w.
           (Ret (fst (addTags (s 3) client arn toAdd w)), snd (addTags (s 3) client arn toAdd w)))
         else (Ret None, w)) (\<lambda>err w.
     case err of
       Some e \<Rightarrow> (Ret (Some e), w)
     | None \<Rightarrow> if length toDelete > 0
         then (Ret (fst (removeTags client arn toDelete w)), snd (removeTags client arn toDelete w))
         else (Ret None, w)))" for toAdd toDelete
    by (rule honest_then [OF bounded_within [OF add], where bad' = "\<lambda>err. err \<noteq> None"])
      (auto intro!: honest_pure_then tag_calls_honest honest_pure simp del: not_None_eq)
  then show ?thesis
    unfolding SyncTags_sequence by (auto intro!: honest_pure_then simp del: not_None_eq)
qed

lemma sdkUpdate_honest: "honest w (\<lambda>(r, err). err \<noteq> None) (sdkUpdate rt s rm desired latest delta w)"
proof -
  have within: "calls_within [''TagResource'', ''UntagResource''] w (snd (update_tags rt s rm desired latest delta w))"
    by (rule bounded_within) (auto simp: update_tags_def syncTags_def intro!: bounded_steps SyncTags_calls)
  have tags: "honest w (\<lambda>err. err \<noteq> None) (update_tags rt s rm desired latest delta w)"
    by (auto simp: update_tags_def syncTags_def intro!: honest_steps SyncTags_honest simp del: not_None_eq)
  show ?thesis
    unfolding sdkUpdate_def
    by (rule honest_then [OF within tags])
      (auto simp: Let_def outcome_simps newUpdateRequestPayload_def intro!: honest_steps split: option.splits prod.split)
qed

lemma Create_honest: "honest w (\<lambda>(out, err). err \<noteq> None) (Create rt rm res w)"
  unfolding Create_def
  by (intro honest_pure_then honest_end [OF sdkCreate_honest]) (auto dest: finish_error)

lemma Update_honest: "honest w (\<lambda>(out, err). err \<noteq> None) (Update rt s rm desired latest delta w)"
  unfolding Update_def
  by (intro honest_pure_then honest_end [OF sdkUpdate_honest]) (auto dest: finish_error)

lemma update_stage_honest: "honest w isl (update_stage rt s rm sys desired latest w)"
  unfolding update_stage_def
  by (auto intro!: honest_pure_then honest_end [OF Update_honest] split: option.splits)

text \<open>A read that answers an error other than \<open>NotFound\<close> made a call that failed.\<close>

lemma sdkFind_failed_empty: "sdkFind rt rm r w = (Ret (obs, Some e), w') \<Longrightarrow> obs = None"
  by (auto simp: sdkFind_def op_then_pure outcome_simps newListRequestPayload_def Let_def neq_Nil_conv
      split: if_splits outcome.splits option.splits prod.splits list.splits)

lemma read_stage_honest:
  assumes lib: "tags_lib_ok rt" "errors_lib_ok rt" "condition_types_ok rt"
    and g: "conds_wf (conds_of g)" "tags_wf (Tags (Spec g))"
    and run: "read_stage rt s rm md (ResourcePtr (Some \<lparr>ko = Some g\<rparr>)) w = (Ret (r, out, Some e), w')"
    and e: "e \<noteq> NotFound rt"
  shows "faulted w w'"
proof -
  obtain ts where ens: "EnsureTags rt (s 0) rm (ResourcePtr (Some \<lparr>ko = Some g\<rparr>)) md = Ret (\<lparr>ko = Some (set_tags ts g)\<rparr>, None)"
    by (rule EnsureTags_law [OF lib(1) g(2)])
  let ?g = "set_tags ts g"
  from run ens have read: "ReadOne rt (s 1) rm (ResourcePtr (Some \<lparr>ko = Some ?g\<rparr>)) w = (Ret (r, out, Some e), w')"
    by (simp add: read_stage_def)
  then obtain obs err r' where find: "sdkFind rt rm \<lparr>ko = Some ?g\<rparr> w = (Ret (obs, err), w')"
    and mirror: "and_then (mirrorAWSTags rt (s 1) (Some \<lparr>ko = Some ?g\<rparr>) obs) deref = Ret r'"
    and fin: "finish rt rm r' (obs, err) = Ret (out, Some e)"
    by (auto simp: ReadOne_def op_then_Ret outcome_simps)
  from fin obtain e0 where e0: "err = Some e0" by (auto dest: finish_error)
  with find have obs: "obs = None" by (auto dest: sdkFind_failed_empty)
  have "e0 \<noteq> NotFound rt"
  proof
    assume nf: "e0 = NotFound rt"
    have r': "r' = \<lparr>ko = Some ?g\<rparr>" using mirror by (simp add: obs mirrorAWSTags_def)
    have wf: "conds_wf (conds_of ?g)" using g(1) by simp
    obtain g' where "finish rt rm \<lparr>ko = Some ?g\<rparr> (None, Some (NotFound rt)) =
        Ret (ResourcePtr (Some \<lparr>ko = Some g'\<rparr>), Some (if is_terminal rt (Some (NotFound rt)) then Terminal rt else NotFound rt))"
      by (rule finish_failure [OF lib(2,3) wf])
    with fin e0 obs nf r' e NotFound_not_terminal [OF lib(2)] show False by simp
  qed
  with e0 show ?thesis by (intro honestD [OF sdkFind_honest find]) simp
qed

text \<open>A pass over a network that exists, and a reconciliation.\<close>

lemma pass_honest:
  assumes ok: "service_ok rt (sdkapi rm) nets tagging"
    and lib: "tags_lib_ok rt" "errors_lib_ok rt" "condition_types_ok rt"
    and n: "nets (svc w) i = Some n" and pre: "pass_pre g i n"
    and run: "reconcile_pass rt s rm md sys (ResourcePtr (Some \<lparr>ko = Some g\<rparr>)) w = (Ret (Inl e), w')"
  shows "faulted w w'"
proof -
  have g: "GlobalNetworkID (Status g) = Some i" "conds_wf (conds_of g)" "tags_wf (Tags (Spec g))"
    using pre by (simp_all add: pass_pre_def identifies_def)
  obtain r out err w1 where read: "read_stage rt s rm md (ResourcePtr (Some \<lparr>ko = Some g\<rparr>)) w = (Ret (r, out, err), w1)"
    and rest: "(case err of Some e \<Rightarrow> (Ret (Inl e), w1) | None \<Rightarrow> update_stage rt s rm sys r out w1) = (Ret (Inl e), w')"
    using run by (auto simp: reconcile_pass_def op_then_Ret)
  show ?thesis
  proof (cases err)
    case None
    then have "calls_within [''DescribeGlobalNetworks''] w w1"
      using bounded_within [OF read_stage_calls, of w rt s rm md "ResourcePtr (Some \<lparr>ko = Some g\<rparr>)"] read by simp
    moreover have "faulted w1 w'"
      using honestD [OF update_stage_honest, of rt s rm sys r out w1 "Inl e" w'] rest None by simp
    ultimately show ?thesis by (rule faulted_later)
  next
    case (Some e1)
    with rest have e1: "e1 = e" "w' = w1" by simp_all
    have "e \<noteq> NotFound rt"
      by (rule read_stage_law [OF ok lib g, of s md w]) (use read Some e1 n in auto)
    with read_stage_honest [OF lib g(2,3) read [unfolded Some e1]] e1 show ?thesis by simp
  qed
qed

lemma write_stage_honest:
  assumes "write_stage rt s rm sys r latest err w = (Ret (Inl e), w')"
  shows "err = Some e \<and> e \<noteq> NotFound rt \<and> w' = w \<or> faulted w w'"
proof (cases err)
  case None
  with assms obtain x where x: "update_stage rt s rm sys r latest w = (Ret x, w')"
    and "(case x of Inl e \<Rightarrow> Inl e | Inr (_, out) \<Rightarrow> Inr out) = (Inl e :: 'a + aws_resource)"
    by (auto simp: write_stage_def op_then_Ret)
  then have "isl x" by (auto split: sum.splits prod.splits)
  with x show ?thesis by (blast intro: honestD [OF update_stage_honest])
next
  case (Some e')
  with assms show ?thesis
    by (auto simp: write_stage_def op_then_Ret split: option.splits if_splits dest: honestD [OF Create_honest])
qed

lemma sync_honest:
  assumes lib: "tags_lib_ok rt" "errors_lib_ok rt" "condition_types_ok rt"
    and g: "conds_wf (conds_of g)" "tags_wf (Tags (Spec g))"
    and run: "reconcile_sync rt s rm md sys (ResourcePtr (Some \<lparr>ko = Some g\<rparr>)) w = (Ret (Inl e), w')"
  shows "faulted w w'"
proof -
  obtain r out err w1 where read: "read_stage rt s rm md (ResourcePtr (Some \<lparr>ko = Some g\<rparr>)) w = (Ret (r, out, err), w1)"
    and rest: "write_stage rt s rm sys r out err w1 = (Ret (Inl e), w')"
    using run by (auto simp: reconcile_sync_def op_then_Ret)
  from read have within: "calls_within [''DescribeGlobalNetworks''] w w1"
    using bounded_within [OF read_stage_calls, of w rt s rm md "ResourcePtr (Some \<lparr>ko = Some g\<rparr>)"] by simp
  from write_stage_honest [OF rest] show ?thesis
    using within read read_stage_honest [OF lib g] by (blast intro: faulted_later)
qed

end
