(* ===== verification/Lifecycle.thy ===== *)
theory Lifecycle
  imports Isolation ErrorSource
begin

text \<open>
  The life of one object: its user edits the spec, reconciliations create its network, read and
  update it or fail, conditions are patched, and the network is deleted, in any order and any
  number of times. \<open>life_step\<close> is one of these steps on the object and the world.
\<close>

abbreviation object :: "GlobalNetwork \<Rightarrow> aws_resource" where
  "object g \<equiv> ResourcePtr (Some \<lparr>ko = Some g\<rparr>)"

section \<open>Identifiers\<close>

text \<open>
  \<open>used\<close> are the identifiers the service has ever given to a network. A call only adds to
  them, and a network that appears has an identifier that was not among them.
\<close>

definition names_kept :: "'w networks \<Rightarrow> ('w \<Rightarrow> string set) \<Rightarrow> 'w \<Rightarrow> 'w \<Rightarrow> bool" where
  "names_kept nets used s s' \<longleftrightarrow> used s \<subseteq> used s' \<and>
     (\<forall>i. nets s i = None \<longrightarrow> nets s' i \<noteq> None \<longrightarrow> i \<notin> used s)"

definition ids_unique :: "('w, 'e) svcsdk_Client \<Rightarrow> 'w networks \<Rightarrow> ('w \<Rightarrow> string set) \<Rightarrow> bool" where
  "ids_unique client nets used \<longleftrightarrow>
     (\<forall>s i. nets s i \<noteq> None \<longrightarrow> i \<in> used s) \<and>
     (\<forall>inp s. names_kept nets used s (snd (DescribeGlobalNetworks client inp s))) \<and>
     (\<forall>inp s. names_kept nets used s (snd (CreateGlobalNetwork client inp s))) \<and>
     (\<forall>inp s. names_kept nets used s (snd (UpdateGlobalNetwork client inp s))) \<and>
     (\<forall>inp s. names_kept nets used s (snd (DeleteGlobalNetwork client inp s))) \<and>
     (\<forall>inp s. names_kept nets used s (snd (TagResource client inp s))) \<and>
     (\<forall>inp s. names_kept nets used s (snd (UntagResource client inp s)))"

lemma names_kept_refl [simp]: "names_kept nets used s s"
  by (simp add: names_kept_def)

lemma names_kept_trans: "names_kept nets used s t \<Longrightarrow> names_kept nets used t u \<Longrightarrow> names_kept nets used s u"
  unfolding names_kept_def by blast

interpretation naming: call_relation "\<lambda>w w'. names_kept nets used (svc w) (svc w')" for nets :: "'w networks" and used
  by unfold_locales (simp, rule names_kept_trans)

text \<open>A network that was not there under an identifier given before does not appear under it.\<close>

lemma names_keptD:
  assumes "names_kept nets used s s'"
  shows "i \<in> used s \<Longrightarrow> i \<in> used s'" and "i \<in> used s \<Longrightarrow> nets s i = None \<Longrightarrow> nets s' i = None"
  using assms unfolding names_kept_def by blast+

lemma sync_keeps_names:
  assumes "ids_unique (sdkapi rm) nets used"
  shows "names_kept nets used (svc w) (svc (snd (reconcile_sync rt ss rm md sys res w)))"
  by (rule naming.sync_related) (use assms in \<open>simp_all add: ids_unique_def\<close>)

lemma delete_keeps_names:
  assumes "ids_unique (sdkapi rm) nets used"
  shows "names_kept nets used (svc w) (svc (snd (Delete rt rm res w)))"
  by (rule naming.Delete_related) (use assms in \<open>simp add: ids_unique_def\<close>)

section \<open>A reconciliation that may create\<close>

text \<open>The reading stage of an object that names a network, or none yet.\<close>

lemma sdkFind_unnamed:
  "GlobalNetworkID (Status g) = None \<Longrightarrow> sdkFind rt rm \<lparr>ko = Some g\<rparr> w = (Ret (None, Some (NotFound rt)), w)"
  by (rule sdk_find_without_id)

lemma is_terminal_NotFound: "errors_lib_ok rt \<Longrightarrow> is_terminal rt (Some (NotFound rt)) = False"
  by (auto simp: errors_lib_ok_def is_terminal_def named_terminal_def terminalAWSError_def)

lemma read_stage_cases:
  assumes ok: "service_ok rt (sdkapi rm) nets tagging"
    and lib: "tags_lib_ok rt" "errors_lib_ok rt" "condition_types_ok rt"
    and g: "conds_wf (conds_of g)" "tags_wf (Tags (Spec g))"
  obtains (missing) ts out w' where
      "read_stage rt s rm md (ResourcePtr (Some \<lparr>ko = Some g\<rparr>)) w =
        (Ret (\<lparr>ko = Some (set_tags ts g)\<rparr>, out, Some (NotFound rt)), w')"
      and "nets (svc w') = nets (svc w)" and "\<And>i. GlobalNetworkID (Status g) = Some i \<Longrightarrow> nets (svc w) i = None"
      and "tags_normal ts" and "tag_map ts = wanted_tags rt rm md g"
  | (failed) r out e w' where
      "read_stage rt s rm md (ResourcePtr (Some \<lparr>ko = Some g\<rparr>)) w = (Ret (r, out, Some e), w')"
      and "nets (svc w') = nets (svc w)" and "e \<noteq> NotFound rt"
  | (found) i n ts l w' where
      "read_stage rt s rm md (ResourcePtr (Some \<lparr>ko = Some g\<rparr>)) w =
        (Ret (\<lparr>ko = Some (set_tags ts g)\<rparr>, ResourcePtr (Some \<lparr>ko = Some l\<rparr>), None), w')"
      and "nets (svc w') = nets (svc w)" and "GlobalNetworkID (Status g) = Some i"
      and "nets (svc w) i = Some n" and "reflects n l" and "conds_wf (conds_of l)"
      and "tags_normal ts" and "\<And>k. own_key sys k \<Longrightarrow> tag_map ts k = wanted_tags rt rm md g k"
proof (cases "GlobalNetworkID (Status g)")
  case None
  obtain ts where ens: "EnsureTags rt (s 0) rm (ResourcePtr (Some \<lparr>ko = Some g\<rparr>)) md =
      Ret (\<lparr>ko = Some (set_tags ts g)\<rparr>, None)"
    and ts: "tags_normal ts" "tag_map ts = wanted_tags rt rm md g"
    by (rule EnsureTags_law [OF lib(1) g(2), of "s 0" rm md]) (simp add: wanted_tags_def)
  have wf: "conds_wf (conds_of (set_tags ts g))" using g(1) by simp
  obtain g' where "finish rt rm \<lparr>ko = Some (set_tags ts g)\<rparr> (None, Some (NotFound rt)) =
      Ret (ResourcePtr (Some \<lparr>ko = Some g'\<rparr>), Some (NotFound rt))"
    by (rule finish_failure [OF lib(2,3) wf, of rm "NotFound rt"]) (simp add: is_terminal_NotFound [OF lib(2)])
  with ens None have "read_stage rt s rm md (ResourcePtr (Some \<lparr>ko = Some g\<rparr>)) w =
      (Ret (\<lparr>ko = Some (set_tags ts g)\<rparr>, ResourcePtr (Some \<lparr>ko = Some g'\<rparr>), Some (NotFound rt)), w)"
    by (simp add: read_stage_def ReadOne_def sdkFind_unnamed)
  then show ?thesis by (rule missing) (simp_all add: ts None)
next
  case (Some i)
  show ?thesis
  proof (rule read_stage_law [OF ok lib Some g, where s = s and md = md and w = w and sys = sys])
    fix ts out e w'
    assume "read_stage rt s rm md (ResourcePtr (Some \<lparr>ko = Some g\<rparr>)) w = (Ret (\<lparr>ko = Some (set_tags ts g)\<rparr>, out, Some e), w')"
      "nets (svc w') = nets (svc w)" "e = NotFound rt \<longrightarrow> nets (svc w) i = None"
      "tags_normal ts" "tag_map ts = wanted_tags rt rm md g"
    then show ?thesis using missing failed Some by (cases "e = NotFound rt") auto
  qed (use found Some in blast)
qed

lemma reflects_named:
  assumes "service_ok rt (sdkapi rm) nets tagging" and "nets s i = Some n" and "reflects n l"
  shows "GlobalNetworkID (Status l) = Some i"
  by (rule service_networks [OF assms(1,2)]) (use assms(3) in \<open>simp add: reflects_def\<close>)

text \<open>
  What the reading stage leaves for the writing stage, as a condition on the state of the service
  when the writing begins: a network that was not found does not exist, and one that was found
  is there, named by the desired object and shown by the latest one.
\<close>

definition ready ::
  "'w networks \<Rightarrow> ('e, 'd) ack_runtime \<Rightarrow> 'w \<Rightarrow> GlobalNetwork \<Rightarrow> aws_resource \<Rightarrow> 'e option \<Rightarrow> bool" where
  "ready nets rt s d latest err \<longleftrightarrow>
     (err = Some (NotFound rt) \<longrightarrow> conds_wf (conds_of d) \<and> tags_normal (Tags (Spec d)) \<and>
        (\<forall>i. GlobalNetworkID (Status d) = Some i \<longrightarrow> nets s i = None)) \<and>
     (err = None \<longrightarrow> tags_wf (Tags (Spec d)) \<and>
        (\<exists>i n l. latest = object l \<and> nets s i = Some n \<and> identifies d i n \<and> seen n l \<and>
           conds_wf (conds_of l) \<and> GlobalNetworkID (Status l) = Some i))"

lemma write_law:
  assumes ok: "service_ok rt (sdkapi rm) nets tagging" and loc: "calls_local (sdkapi rm) nets tagging"
    and lib: "tags_lib_ok rt" "compare_lib_ok rt" "errors_lib_ok rt" "condition_types_ok rt"
    and ready: "ready nets rt (svc w) d latest err"
  obtains (kept) e w' where
      "write_stage rt s rm sys \<lparr>ko = Some d\<rparr> latest err w = (Ret (Inl e), w')"
      and "nets (svc w') = nets (svc w)"
  | (unmade) g' e w' where
      "write_stage rt s rm sys \<lparr>ko = Some d\<rparr> latest err w = (Ret (Inl e), w')"
      and "Create rt rm (object d) w = (Ret (object g', Some e), w')"
  | (failed) i n e w' where
      "write_stage rt s rm sys \<lparr>ko = Some d\<rparr> latest err w = (Ret (Inl e), w')"
      and "GlobalNetworkID (Status d) = Some i" and "nets (svc w) i = Some n" and "identifies d i n"
      and "w' = snd (update_stage rt s rm sys \<lparr>ko = Some d\<rparr> latest w)"
  | (created) i n g' w' where
      "write_stage rt s rm sys \<lparr>ko = Some d\<rparr> latest err w = (Ret (Inr (object g')), w')"
      and "\<And>i. GlobalNetworkID (Status d) = Some i \<Longrightarrow> nets (svc w) i = None"
      and "nets (svc w) i = None" and "nets (svc w') = (nets (svc w))(i \<mapsto> n)" and "identifies g' i n"
      and "sdk_Description n = Description (Spec d)" and "net_tags n = tag_map (Tags (Spec d))"
  | (updated) i n n' g' w' where
      "write_stage rt s rm sys \<lparr>ko = Some d\<rparr> latest err w = (Ret (Inr (object g')), w')"
      and "GlobalNetworkID (Status d) = Some i" and "nets (svc w) i = Some n" and "identifies d i n"
      and "w' = snd (update_stage rt s rm sys \<lparr>ko = Some d\<rparr> latest w)"
      and "nets (svc w') i = Some n'" and "identifies g' i n'"
      and "\<And>k. own_key sys k \<Longrightarrow> net_tags n' k = tag_map (Tags (Spec d)) k"
      and "Description (Spec d) \<noteq> None \<Longrightarrow> sdk_Description n' = Description (Spec d)"
proof -
  consider "err = None" | "err = Some (NotFound rt)" | e where "err = Some e" "e \<noteq> NotFound rt" by (cases err) auto
  then show ?thesis
  proof cases
    case 1
    with ready obtain i n l where l: "latest = object l" "nets (svc w) i = Some n" "identifies d i n" "seen n l"
      "conds_wf (conds_of l)" and d: "tags_wf (Tags (Spec d))" by (auto simp: ready_def)
    have i: "GlobalNetworkID (Status d) = Some i" and pre: "pass_pre d i n"
      using l(3) d by (simp_all add: identifies_def pass_pre_def)
    show ?thesis
      by (rule update_stage_law [OF ok lib l(2) pre l(4,5), of s sys])
        (use 1 i l(1-3) in \<open>auto simp: write_stage_def intro: failed updated\<close>)
  next
    case 2
    with ready have d: "conds_wf (conds_of d)" and normal: "tags_normal (Tags (Spec d))"
      and gone: "\<And>i. GlobalNetworkID (Status d) = Some i \<Longrightarrow> nets (svc w) i = None" by (auto simp: ready_def)
    show ?thesis
    proof (rule Create_law [OF ok lib(3,4) d normal, of w])
      fix e g' w'
      assume c: "Create rt rm (object d) w = (Ret (object g', Some e), w')"
      from c 2 show ?thesis
        by (intro unmade [where e = e and w' = w' and g' = g']) (simp_all add: write_stage_def)
    next
      fix i n g' w'
      assume c: "Create rt rm (object d) w = (Ret (object g', None), w')"
        and new: "nets (svc w) i = None" "nets (svc w') = (nets (svc w))(i \<mapsto> n)"
          "sdk_Description n = Description (Spec d)" "net_tags n = tag_map (Tags (Spec d))"
          "reflects n g'" "GlobalNetworkID (Status g') = Some i" "ARN (metadata_of g') \<noteq> None" "conds_wf (conds_of g')"
      have "nets (svc w') i = Some n" by (simp add: new(2))
      then obtain arn where "sdk_GlobalNetworkArn n = Some arn" by (rule service_networks [OF ok])
      then have "identifies g' i n"
        using new(5-8) by (cases "ACKResourceMetadata (Status g')") (auto simp: identifies_def reflects_def metadata_of_def)
      with c new(1-4) gone 2 show ?thesis
        by (intro created [where g' = g' and w' = w' and i = i and n = n]) (simp_all add: write_stage_def)
    qed
  next
    case 3
    then show ?thesis by (intro kept) (simp_all add: write_stage_def)
  qed
qed

text \<open>
  What a reconciliation does. Without an error the object it returns names a network, which
  has the wanted tags under the user's keys and the desired description.
\<close>

lemma sync_law:
  assumes ok: "service_ok rt (sdkapi rm) nets tagging"
    and lib: "tags_lib_ok rt" "compare_lib_ok rt" "errors_lib_ok rt" "condition_types_ok rt"
    and g: "conds_wf (conds_of g)" "tags_wf (Tags (Spec g))"
    and named: "\<And>i n. GlobalNetworkID (Status g) = Some i \<Longrightarrow> nets (svc w) i = Some n \<Longrightarrow> identifies g i n"
    and loc: "calls_local (sdkapi rm) nets tagging"
  obtains (unread) e w' where
      "reconcile_sync rt s rm md sys (ResourcePtr (Some \<lparr>ko = Some g\<rparr>)) w = (Ret (Inl e), w')"
      and "nets (svc w) \<subseteq>\<^sub>m nets (svc w')"
  | (failed) i n ts l e u w' where
      "reconcile_sync rt s rm md sys (ResourcePtr (Some \<lparr>ko = Some g\<rparr>)) w = (Ret (Inl e), w')"
      and "GlobalNetworkID (Status g) = Some i" and "nets (svc u) = nets (svc w)" and "nets (svc w) i = Some n"
      and "w' = snd (update_stage rt s rm sys \<lparr>ko = Some (set_tags ts g)\<rparr> (ResourcePtr (Some \<lparr>ko = Some l\<rparr>)) u)"
  | (created) i n g' w' where
      "reconcile_sync rt s rm md sys (ResourcePtr (Some \<lparr>ko = Some g\<rparr>)) w =
        (Ret (Inr (ResourcePtr (Some \<lparr>ko = Some g'\<rparr>))), w')"
      and "\<And>i. GlobalNetworkID (Status g) = Some i \<Longrightarrow> nets (svc w) i = None"
      and "nets (svc w) i = None" and "nets (svc w') = (nets (svc w))(i \<mapsto> n)" and "identifies g' i n"
      and "sdk_Description n = Description (Spec g)" and "net_tags n = wanted_tags rt rm md g"
  | (updated) i n n' ts l g' u w' where
      "reconcile_sync rt s rm md sys (ResourcePtr (Some \<lparr>ko = Some g\<rparr>)) w =
        (Ret (Inr (ResourcePtr (Some \<lparr>ko = Some g'\<rparr>))), w')"
      and "GlobalNetworkID (Status g) = Some i" and "nets (svc u) = nets (svc w)" and "nets (svc w) i = Some n"
      and "w' = snd (update_stage rt s rm sys \<lparr>ko = Some (set_tags ts g)\<rparr> (ResourcePtr (Some \<lparr>ko = Some l\<rparr>)) u)"
      and "nets (svc w') i = Some n'" and "identifies g' i n'"
      and "\<And>k. own_key sys k \<Longrightarrow> net_tags n' k = wanted_tags rt rm md g k"
      and "Description (Spec g) \<noteq> None \<Longrightarrow> sdk_Description n' = Description (Spec g)"
proof (rule read_stage_cases [OF ok lib(1,3,4) g, where s = s and md = md and w = w and sys = sys])
  fix r out e w'
  assume "read_stage rt s rm md (object g) w = (Ret (r, out, Some e), w')"
    "nets (svc w') = nets (svc w)" "e \<noteq> NotFound rt"
  then show ?thesis
    by (intro unread [where e = e and w' = w']) (simp_all add: reconcile_sync_def write_stage_def)
next
  fix ts out u
  assume read: "read_stage rt s rm md (object g) w = (Ret (\<lparr>ko = Some (set_tags ts g)\<rparr>, out, Some (NotFound rt)), u)"
    and same: "nets (svc u) = nets (svc w)"
    and gone: "\<And>i. GlobalNetworkID (Status g) = Some i \<Longrightarrow> nets (svc w) i = None"
    and ts: "tags_normal ts" "tag_map ts = wanted_tags rt rm md g"
  have ready: "ready nets rt (svc u) (set_tags ts g) out (Some (NotFound rt))"
    using g(1) ts(1) gone same by (simp add: ready_def tags_normal_wf)
  from write_law [OF ok loc lib ready, of s sys] show ?thesis
  proof cases
    case (2 g' e w')
    have "nets (svc u) \<subseteq>\<^sub>m nets (svc w')"
      using create_keeps_networks [OF loc, of u rt "object (set_tags ts g)"] 2(2) by simp
    with read same 2(1) show ?thesis by (intro unread [where e = e and w' = w']) (simp_all add: reconcile_sync_def)
  qed (use read same gone ts(2) in \<open>auto simp: reconcile_sync_def intro: unread created\<close>)
next
  fix i n ts l u
  assume read: "read_stage rt s rm md (object g) w = (Ret (\<lparr>ko = Some (set_tags ts g)\<rparr>, object l, None), u)"
    and same: "nets (svc u) = nets (svc w)" and i: "GlobalNetworkID (Status g) = Some i" "nets (svc w) i = Some n"
    and l: "reflects n l" "conds_wf (conds_of l)"
    and ts: "tags_normal ts" "\<And>k. own_key sys k \<Longrightarrow> tag_map ts k = wanted_tags rt rm md g k"
  have ready: "ready nets rt (svc u) (set_tags ts g) (object l) None"
    using g(1) ts(1) named [OF i] i l same reflects_named [OF ok i(2) l(1)]
    by (auto simp: ready_def tags_normal_wf reflects_seen)
  note sync_failed = failed and sync_updated = updated
  from write_law [OF ok loc lib ready, of s sys] show ?thesis
  proof cases
    case (3 j m e w')
    with read i same show ?thesis
      by (intro sync_failed [where e = e and w' = w' and u = u]) (simp_all add: reconcile_sync_def)
  next
    case (5 j m n' g' w')
    with read i same ts show ?thesis
      by (intro sync_updated [where g' = g' and w' = w' and n' = n' and u = u]) (simp_all add: reconcile_sync_def)
  next
    case (2 g' e w')
    have "nets (svc u) \<subseteq>\<^sub>m nets (svc w')"
      using create_keeps_networks [OF loc, of u rt "object (set_tags ts g)"] 2(2) by simp
    with read same 2(1) show ?thesis by (intro unread [where e = e and w' = w']) (simp_all add: reconcile_sync_def)
  qed (use read i same ts in \<open>auto simp: reconcile_sync_def intro: unread\<close>)
qed

section \<open>The steps of a life\<close>

definition with_spec :: "GlobalNetworkSpec \<Rightarrow> GlobalNetwork \<Rightarrow> GlobalNetwork" where
  "with_spec sp g = g\<lparr>Spec := sp\<rparr>"

lemma with_spec_sel [simp]:
  "Spec (with_spec sp g) = sp" "Status (with_spec sp g) = Status g"
  "metadata_of (with_spec sp g) = metadata_of g" "identifies (with_spec sp g) i n = identifies g i n"
  by (simp_all add: with_spec_def identifies_def metadata_of_def)

inductive life_step ::
  "('e, 'd) ack_runtime \<Rightarrow> ('w, 'e) resourceManager \<Rightarrow> service_metadata \<Rightarrow> string list \<Rightarrow>
   GlobalNetwork \<times> ('w, 'e) env \<Rightarrow> GlobalNetwork \<times> ('w, 'e) env \<Rightarrow> bool"
  for rt rm md sys where
  edit: "tags_wf (Tags sp) \<Longrightarrow> life_step rt rm md sys (g, w) (with_spec sp g, w)"
| patch: "conds_wf (elems cs) \<Longrightarrow> life_step rt rm md sys (g, w) (g\<lparr>Status := (Status g)\<lparr>Conditions := cs\<rparr>\<rparr>, w)"
| sync: "reconcile_sync rt s rm md sys (object g) w = (Ret (Inr (object g')), w') \<Longrightarrow>
    life_step rt rm md sys (g, w) (with_spec (Spec g) g', w')"
| sync_error: "reconcile_sync rt s rm md sys (object g) w = (Ret (Inl e), w') \<Longrightarrow>
    life_step rt rm md sys (g, w) (g, w')"
| delete: "Delete rt rm (object g) w = (Ret res, w') \<Longrightarrow> life_step rt rm md sys (g, w) (g, w')"

inductive_cases life_stepE: "life_step rt rm md sys (g, w) (g', w')"

text \<open>
  The invariant, from networks \<open>N\<close>: they are as they were, and the object names none of them; it names
  an identifier the service has given, and carries the identifiers of the network it names.
\<close>

definition life_inv ::
  "'w networks \<Rightarrow> ('w \<Rightarrow> string set) \<Rightarrow> (string \<rightharpoonup> sdk_global_network) \<Rightarrow> GlobalNetwork \<times> ('w, 'e) env \<Rightarrow> bool" where
  "life_inv nets used N gw \<longleftrightarrow> (case gw of (g, w) \<Rightarrow>
     conds_wf (conds_of g) \<and> tags_wf (Tags (Spec g)) \<and>
     (\<forall>j. N j \<noteq> None \<longrightarrow> alike (N j) (nets (svc w) j)) \<and>
     (\<forall>i. GlobalNetworkID (Status g) = Some i \<longrightarrow>
        i \<in> used (svc w) \<and> N i = None \<and> (\<forall>n. nets (svc w) i = Some n \<longrightarrow> identifies g i n)))"

lemma map_le_at: "m \<subseteq>\<^sub>m N \<Longrightarrow> m j \<noteq> None \<Longrightarrow> N j = m j"
  by (auto simp: map_le_def dom_def)

lemma alike_there: "alike a b \<Longrightarrow> a \<noteq> None \<Longrightarrow> b \<noteq> None"
  by (cases b) auto

text \<open>A step that at most adds networks, under new identifiers.\<close>

lemma life_inv_grown:
  assumes inv: "life_inv nets used N (g, w)" and more: "nets (svc w) \<subseteq>\<^sub>m nets (svc w')"
    and kept: "names_kept nets used (svc w) (svc w')"
    and g': "Status g' = Status g" "tags_wf (Tags (Spec g'))"
  shows "life_inv nets used N (g', w')"
proof -
  have "alike (N j) (nets (svc w') j)" if "N j \<noteq> None" for j
    using inv that alike_there [of "N j" "nets (svc w) j"] map_le_at [OF more, of j] by (simp add: life_inv_def)
  moreover have "identifies g i n" if i: "GlobalNetworkID (Status g) = Some i" "nets (svc w') i = Some n" for i n
  proof -
    have "i \<in> used (svc w)" using inv i(1) by (simp add: life_inv_def)
    then have "nets (svc w) i \<noteq> None" using names_keptD(2) [OF kept, of i] i(2) by auto
    then have "nets (svc w) i = Some n" using map_le_at [OF more, of i] i(2) by simp
    with inv i(1) show ?thesis by (simp add: life_inv_def)
  qed
  ultimately show ?thesis
    using inv g' names_keptD(1) [OF kept] by (auto simp: life_inv_def identifies_def metadata_of_def)
qed

lemma life_inv_same:
  assumes "life_inv nets used N (g, w)" and "Status g' = Status g" and "tags_wf (Tags (Spec g'))"
  shows "life_inv nets used N (g', w)"
  by (rule life_inv_grown [OF assms(1) _ _ assms(2,3)]) simp_all

text \<open>A step that changes the network the object names only, and keeps its identifiers.\<close>

lemma life_inv_own:
  assumes inv: "life_inv nets used N (g, w)" and i: "GlobalNetworkID (Status g) = Some i"
    and kept: "names_kept nets used (svc w) (svc w')"
    and others: "\<And>j. j \<noteq> i \<Longrightarrow> alike (nets (svc w) j) (nets (svc w') j)"
    and g': "conds_wf (conds_of g')" "tags_wf (Tags (Spec g'))" "GlobalNetworkID (Status g') = Some i"
    and own: "\<And>n. nets (svc w') i = Some n \<Longrightarrow> identifies g' i n"
  shows "life_inv nets used N (g', w')"
proof -
  have old: "N j \<noteq> None \<longrightarrow> alike (N j) (nets (svc w') j)" for j
  proof
    assume j: "N j \<noteq> None"
    then have "j \<noteq> i" using inv i by (auto simp: life_inv_def)
    with others inv j show "alike (N j) (nets (svc w') j)"
      by (auto simp: life_inv_def intro: alike_trans)
  qed
  then show ?thesis using inv i g' own names_keptD(1) [OF kept] by (auto simp: life_inv_def)
qed

lemma owns_identified:
  assumes "calls_local client nets tagging" and "nets s i = Some n" and "identifies g i n"
  shows "owns nets i (ARN (metadata_of g)) s"
  unfolding owns_def
proof (intro allI impI)
  fix j m
  assume "nets s j = Some m" "sdk_GlobalNetworkArn m = ARN (metadata_of g)"
  with assms show "j = i" unfolding calls_local_def identifies_def by metis
qed

text \<open>What the update stage leaves, whether it fails or not.\<close>

lemma update_stage_own:
  assumes ok: "service_ok rt (sdkapi rm) nets tagging" and loc: "calls_local (sdkapi rm) nets tagging"
    and i: "GlobalNetworkID (Status g) = Some i" and n: "nets (svc w) i = Some n" "identifies g i n"
    and w': "w' = snd (update_stage rt s rm sys \<lparr>ko = Some (set_tags ts g)\<rparr> latest w)"
  shows "j \<noteq> i \<Longrightarrow> alike (nets (svc w) j) (nets (svc w') j)"
    and "nets (svc w') i = Some n' \<Longrightarrow> identifies g i n'"
proof -
  have "owns nets i (ARN (metadata_of (set_tags ts g))) (svc w)"
    using owns_identified [OF loc n] by simp
  then show "alike (nets (svc w) j) (nets (svc w') j)" if "j \<noteq> i"
    using update_stage_keeps_others [OF ok loc, of "set_tags ts g" i w s sys latest] i that
    by (simp add: others_kept_def w')
  have "arn_at nets (svc w') i = arn_at nets (svc w) i"
    using update_stage_keeps_arns [OF ok loc] by (simp add: w')
  then show "identifies g i n'" if "nets (svc w') i = Some n'"
    using that n by (simp add: arn_at_def identifies_def)
qed

lemma sync_keeps_inv:
  assumes ok: "service_ok rt (sdkapi rm) nets tagging" and loc: "calls_local (sdkapi rm) nets tagging"
    and ids: "ids_unique (sdkapi rm) nets used"
    and lib: "tags_lib_ok rt" "compare_lib_ok rt" "errors_lib_ok rt" "condition_types_ok rt"
    and inv: "life_inv nets used N (g, w)"
  obtains (error) e w' where "reconcile_sync rt s rm md sys (object g) w = (Ret (Inl e), w')"
      and "life_inv nets used N (g, w')"
  | (synced) g' i n w' where "reconcile_sync rt s rm md sys (object g) w = (Ret (Inr (object g')), w')"
      and "life_inv nets used N (with_spec (Spec g) g', w')"
      and "GlobalNetworkID (Status g') = Some i" and "nets (svc w') i = Some n"
      and "\<And>k. own_key sys k \<Longrightarrow> net_tags n k = wanted_tags rt rm md g k"
      and "Description (Spec g) \<noteq> None \<Longrightarrow> sdk_Description n = Description (Spec g)"
proof -
  have g: "conds_wf (conds_of g)" "tags_wf (Tags (Spec g))"
    and named: "\<And>i n. GlobalNetworkID (Status g) = Some i \<Longrightarrow> nets (svc w) i = Some n \<Longrightarrow> identifies g i n"
    using inv by (auto simp: life_inv_def)
  have kept: "names_kept nets used (svc w) (svc w')"
    if "reconcile_sync rt s rm md sys (object g) w = (m, w')" for m w'
    using sync_keeps_names [OF ids, of w rt s md sys "object g"] that by simp
  show ?thesis
  proof (rule sync_law [OF ok lib g named loc, where s = s and md = md and sys = sys])
    fix e w'
    assume run: "reconcile_sync rt s rm md sys (object g) w = (Ret (Inl e), w')" "nets (svc w) \<subseteq>\<^sub>m nets (svc w')"
    show ?thesis by (rule error [OF run(1) life_inv_grown [OF inv run(2) kept [OF run(1)] refl g(2)]])
  next
    fix i n ts l e u w'
    assume run: "reconcile_sync rt s rm md sys (object g) w = (Ret (Inl e), w')"
      and i: "GlobalNetworkID (Status g) = Some i" and u: "nets (svc u) = nets (svc w)" and n: "nets (svc w) i = Some n"
      and w': "w' = snd (update_stage rt s rm sys \<lparr>ko = Some (set_tags ts g)\<rparr> (object l) u)"
    have un: "nets (svc u) i = Some n" using u n by simp
    note own = update_stage_own [OF ok loc i un named [OF i n] w', unfolded u]
    have "life_inv nets used N (g, w')" by (rule life_inv_own [OF inv i kept [OF run] own(1) g i own(2)])
    with run show ?thesis by (rule error)
  next
    fix i n g' w'
    assume run: "reconcile_sync rt s rm md sys (object g) w = (Ret (Inr (object g')), w')"
      and gone: "\<And>i. GlobalNetworkID (Status g) = Some i \<Longrightarrow> nets (svc w) i = None"
      and new: "nets (svc w) i = None" "nets (svc w') = (nets (svc w))(i \<mapsto> n)" "identifies g' i n"
        "sdk_Description n = Description (Spec g)" "net_tags n = wanted_tags rt rm md g"
    have "life_inv nets used N (with_spec (Spec g) g', w')"
    proof -
      have i: "i \<in> used (svc w')" using ids new(2) by (simp add: ids_unique_def)
      have apart: "N i = None" using inv new(1) alike_there [of "N i" "nets (svc w) i"] by (auto simp: life_inv_def)
      have "alike (N j) (nets (svc w') j)" if "N j \<noteq> None" for j
        using inv that apart new(2) by (auto simp: life_inv_def)
      with i apart show ?thesis using inv new(2,3) by (auto simp: life_inv_def identifies_def metadata_of_def)
    qed
    then show ?thesis
      by (rule synced [OF run _ _, where i = i and n = n]) (use new in \<open>auto simp: identifies_def\<close>)
  next
    fix i n n' ts l g' u w'
    assume run: "reconcile_sync rt s rm md sys (object g) w = (Ret (Inr (object g')), w')"
      and i: "GlobalNetworkID (Status g) = Some i" and u: "nets (svc u) = nets (svc w)" and n: "nets (svc w) i = Some n"
      and w': "w' = snd (update_stage rt s rm sys \<lparr>ko = Some (set_tags ts g)\<rparr> (object l) u)"
      and n': "nets (svc w') i = Some n'" "identifies g' i n'"
        "\<And>k. own_key sys k \<Longrightarrow> net_tags n' k = wanted_tags rt rm md g k"
        "Description (Spec g) \<noteq> None \<Longrightarrow> sdk_Description n' = Description (Spec g)"
    have un: "nets (svc u) i = Some n" using u n by simp
    note own = update_stage_own [OF ok loc i un named [OF i n] w', unfolded u]
    have "life_inv nets used N (with_spec (Spec g) g', w')"
      by (rule life_inv_own [OF inv i kept [OF run] own(1)]) (use g n' in \<open>simp_all add: identifies_def\<close>)
    then show ?thesis
      by (rule synced [OF run]) (use n' in \<open>simp_all add: identifies_def\<close>)
  qed
qed


lemma delete_keeps_inv:
  assumes loc: "calls_local (sdkapi rm) nets tagging" and ids: "ids_unique (sdkapi rm) nets used"
    and inv: "life_inv nets used N (g, w)" and run: "Delete rt rm (object g) w = (Ret res, w')"
  shows "life_inv nets used N (g, w')"
proof -
  obtain err s where call: "DeleteGlobalNetwork (sdkapi rm) \<lparr>delete_GlobalNetworkId = GlobalNetworkID (Status g)\<rparr>
      (svc w) = (err, s)"
    by fastforce
  have w': "svc w' = s" using run by (auto simp: Delete_def sdkDelete_eq [OF call] op_then_Ret)
  have others: "nets s j = nets (svc w) j" if "GlobalNetworkID (Status g) \<noteq> Some j" for j
    using loc call that unfolding calls_local_def
    by (metis DeleteGlobalNetworkInput.select_convs(1) snd_conv)
  have own: "map_option sdk_GlobalNetworkArn (nets (svc w) j) = Some (sdk_GlobalNetworkArn n)" if "nets s j = Some n" for j n
    using loc call that unfolding calls_local_def by (metis snd_conv)
  have kept: "names_kept nets used (svc w) s"
    using delete_keeps_names [OF ids, of w rt "object g"] run w' by simp
  show ?thesis
  proof (cases "GlobalNetworkID (Status g)")
    case None
    then have "nets s = nets (svc w)" using others by auto
    with inv kept show ?thesis by (intro life_inv_grown [OF inv]) (simp_all add: w' life_inv_def)
  next
    case (Some i)
    have g: "conds_wf (conds_of g)" "tags_wf (Tags (Spec g))" using inv by (simp_all add: life_inv_def)
    have "identifies g i n" if n: "nets s i = Some n" for n
    proof -
      obtain m where "nets (svc w) i = Some m" "sdk_GlobalNetworkArn m = sdk_GlobalNetworkArn n"
        using own [OF n] by auto
      with inv Some show ?thesis by (simp add: life_inv_def identifies_def)
    qed
    then show ?thesis using others Some w' kept by (intro life_inv_own [OF inv Some _ _ g Some]) auto
  qed
qed

lemma life_step_inv:
  assumes ok: "service_ok rt (sdkapi rm) nets tagging" and loc: "calls_local (sdkapi rm) nets tagging"
    and ids: "ids_unique (sdkapi rm) nets used"
    and lib: "tags_lib_ok rt" "compare_lib_ok rt" "errors_lib_ok rt" "condition_types_ok rt"
    and step: "life_step rt rm md sys gw gw'" and inv: "life_inv nets used N gw"
  shows "life_inv nets used N gw'"
  using step inv
proof cases
  case (edit sp g w)
  with inv show ?thesis by (auto intro: life_inv_same)
next
  case (patch cs g w)
  with inv show ?thesis by (simp add: life_inv_def identifies_def metadata_of_def)
next
  case (sync s g w g' w')
  show ?thesis
    by (rule sync_keeps_inv [OF ok loc ids lib inv [unfolded sync(1)], of s md sys]) (use sync in auto)
next
  case (sync_error s g w e w')
  show ?thesis
    by (rule sync_keeps_inv [OF ok loc ids lib inv [unfolded sync_error(1)], of s md sys]) (use sync_error in auto)
next
  case (delete g w res w')
  with inv show ?thesis using delete_keeps_inv [OF loc ids] by simp
qed

lemma life_inv_reachable:
  assumes ok: "service_ok rt (sdkapi rm) nets tagging" "calls_local (sdkapi rm) nets tagging"
      "ids_unique (sdkapi rm) nets used"
    and lib: "tags_lib_ok rt" "compare_lib_ok rt" "errors_lib_ok rt" "condition_types_ok rt"
    and life: "(life_step rt rm md sys)\<^sup>*\<^sup>* (g0, w0) (g, w)"
    and start: "GlobalNetworkID (Status g0) = None" "conds_wf (conds_of g0)" "tags_wf (Tags (Spec g0))"
  shows "life_inv nets used (nets (svc w0)) (g, w)"
  using life
proof (induction rule: rtranclp_induct2)
  case refl
  show ?case using start by (simp add: life_inv_def)
next
  case (step g1 w1 g2 w2)
  show ?case by (rule life_step_inv [OF ok lib step(2,3)])
qed

section \<open>What it gives\<close>

text \<open>
  Over its whole life an object leaves the networks alone that there were before. Whatever sequence of
  edits, reconciliations, failures, patches and deletions an object goes through that starts without
  an identifier, they are as they were, up to the order of their tags, and it names none of them.
\<close>

lemma life_spares_networks:
  assumes "service_ok rt (sdkapi rm) nets tagging" and "calls_local (sdkapi rm) nets tagging"
    and "ids_unique (sdkapi rm) nets used"
    and "tags_lib_ok rt" and "compare_lib_ok rt" and "errors_lib_ok rt" and "condition_types_ok rt"
    and "(life_step rt rm md sys)\<^sup>*\<^sup>* (g0, w0) (g, w)"
    and "GlobalNetworkID (Status g0) = None" and "conds_wf (conds_of g0)" and "tags_wf (Tags (Spec g0))"
  shows "(\<forall>j. nets (svc w0) j \<noteq> None \<longrightarrow> alike (nets (svc w0) j) (nets (svc w) j)) \<and>
    (\<forall>i. GlobalNetworkID (Status g) = Some i \<longrightarrow> nets (svc w0) i = None)"
  using life_inv_reachable [OF assms] by (simp add: life_inv_def)

section \<open>Retries\<close>

text \<open>
  The runtime reconciles an object again after an error: up to \<open>Suc m\<close> reconciliations of the same object, the
  attempt that is followed by at most \<open>m\<close> others with the iteration orders \<open>s m\<close>, until one has no error.
\<close>

fun retry ::
  "nat \<Rightarrow> ('e, 'd) ack_runtime \<Rightarrow> (nat \<Rightarrow> nat \<Rightarrow> sched) \<Rightarrow> ('w, 'e) resourceManager \<Rightarrow> service_metadata \<Rightarrow> string list \<Rightarrow>
   aws_resource \<Rightarrow> ('w, 'e) env \<Rightarrow> ('e + aws_resource) outcome \<times> ('w, 'e) env" where
  "retry 0 rt s rm md sys res w = reconcile_sync rt (s 0) rm md sys res w"
| "retry (Suc m) rt s rm md sys res w =
     op_then (reconcile_sync rt (s (Suc m)) rm md sys res w) (\<lambda>r w.
     case r of Inl e \<Rightarrow> retry m rt s rm md sys res w | Inr out \<Rightarrow> (Ret (Inr out), w))"

text \<open>The calls of the API that have failed, as the metrics recorder was told of them.\<close>

definition failed_calls :: "('w, 'e) env \<Rightarrow> nat" where
  "failed_calls w = length (filter (\<lambda>(t, op, err). err \<noteq> None) (api_calls w))"

lemma faulted_counts: "faulted w w' \<Longrightarrow> failed_calls w < failed_calls w'"
  by (auto simp: faulted_def failed_calls_def)

text \<open>
  C40: an object is reconciled at the latest when the calls of the API no longer fail. However often it is
  retried, the reconciliations return; each of them that answers an error has had a call that failed, so
  after \<open>m\<close> more retries than the first attempt either more than \<open>m\<close> calls have failed, or an
  attempt has succeeded: the object it returns names a network that has the wanted tags under the user's keys and
  the desired description if there is one. The object may name a network or none yet; if the one it names exists, it
  carries its ARN.
\<close>

theorem retries_succeed:
  assumes "service_ok rt (sdkapi rm) nets tagging" and "calls_local (sdkapi rm) nets tagging"
    and "ids_unique (sdkapi rm) nets used"
    and "tags_lib_ok rt" and "compare_lib_ok rt" and "errors_lib_ok rt" and "condition_types_ok rt"
    and "conds_wf (conds_of g)" and "tags_wf (Tags (Spec g))"
    and "\<And>i. GlobalNetworkID (Status g) = Some i \<Longrightarrow> i \<in> used (svc w)"
    and "\<And>i n. GlobalNetworkID (Status g) = Some i \<Longrightarrow> nets (svc w) i = Some n \<Longrightarrow> identifies g i n"
  shows "\<exists>res w'. retry m rt s rm md sys (ResourcePtr (Some \<lparr>ko = Some g\<rparr>)) w = (Ret res, w') \<and>
    (case res of Inl e \<Rightarrow> failed_calls w + m < failed_calls w'
     | Inr out \<Rightarrow> \<exists>g' i n. out = ResourcePtr (Some \<lparr>ko = Some g'\<rparr>) \<and> GlobalNetworkID (Status g') = Some i \<and>
         nets (svc w') i = Some n \<and>
         (\<forall>k. \<not> prefix ''aws:'' k \<and> k \<notin> set sys \<longrightarrow>
            net_tags n k = (mget (GetDefaultTags rt (cfg rm) g md) ++ tag_map (Tags (Spec g))) k) \<and>
         (Description (Spec g) \<noteq> None \<longrightarrow> sdk_Description n = Description (Spec g)))"
    (is "\<exists>res w'. ?run m w res w' \<and> ?good m w res w'")
proof -
  note honest = sync_honest [OF assms(4,6,7,8,9)]
  have "\<exists>res w'. ?run m w res w' \<and> ?good m w res w'" if "life_inv nets used Map.empty (g, w)" for w
    using that
  proof (induction m arbitrary: w)
    case 0
    show ?case
      by (rule sync_keeps_inv [OF assms(1-7) 0, of "s 0" md sys])
        (auto simp: own_key_def aws_key_def wanted_tags_def dest!: honest intro: faulted_counts)
  next
    case (Suc m)
    show ?case
    proof (rule sync_keeps_inv [OF assms(1-7) Suc.prems, of "s (Suc m)" md sys])
      fix e u
      assume run: "reconcile_sync rt (s (Suc m)) rm md sys (object g) w = (Ret (Inl e), u)"
        and "life_inv nets used Map.empty (g, u)"
      then obtain res w' where rest: "?run m u res w'" "?good m u res w'" using Suc.IH by blast
      have "failed_calls w < failed_calls u" by (rule faulted_counts [OF honest [OF run]])
      with run rest show ?thesis
        by (intro exI [of _ res] exI [of _ w'] conjI) (auto split: sum.splits)
    qed (auto simp: own_key_def aws_key_def wanted_tags_def)
  qed
  then show ?thesis using assms(8-11) by (simp add: life_inv_def)
qed

end
