(* ===== verification/Fleet.thy ===== *)
theory Fleet
  imports Lifecycle
begin

text \<open>
  Any number of objects in one account. Objects appear, live (\<open>life_step\<close>) and go once their
  network is gone, their steps in any order; every reconciliation acts on the one world they
  share. \<open>fleet_inv\<close> is the invariant: no two objects name one network, and none names one
  that was there before.
\<close>

section \<open>Steps and identifiers\<close>

lemma life_step_keeps_names:
  assumes "ids_unique (sdkapi rm) nets used" and "life_step rt rm md sys (g, w) (g', w')"
  shows "names_kept nets used (svc w) (svc w')"
  using assms(2)
proof cases
  case (sync s g1)
  with sync_keeps_names [OF assms(1), of w rt s md sys "object g"] show ?thesis by simp
next
  case (sync_error s e)
  with sync_keeps_names [OF assms(1), of w rt s md sys "object g"] show ?thesis by simp
next
  case (delete res)
  with delete_keeps_names [OF assms(1), of w rt "object g"] show ?thesis by simp
qed simp_all

text \<open>A step gives an object another identifier only with the network it creates.\<close>

lemma life_step_names:
  assumes ok: "service_ok rt (sdkapi rm) nets tagging" and loc: "calls_local (sdkapi rm) nets tagging"
    and lib: "tags_lib_ok rt" "compare_lib_ok rt" "errors_lib_ok rt" "condition_types_ok rt"
    and inv: "life_inv nets used N (g, w)" and step: "life_step rt rm md sys (g, w) (g', w')"
  shows "GlobalNetworkID (Status g') = GlobalNetworkID (Status g) \<or>
    (\<exists>i. GlobalNetworkID (Status g') = Some i \<and> nets (svc w) i = None \<and> nets (svc w') i \<noteq> None)"
  using step
proof cases
  case (sync s g1)
  have g: "conds_wf (conds_of g)" "tags_wf (Tags (Spec g))" using inv by (simp_all add: life_inv_def)
  have named: "identifies g i n" if "GlobalNetworkID (Status g) = Some i" "nets (svc w) i = Some n" for i n
    using inv that by (simp add: life_inv_def)
  show ?thesis
    by (rule sync_law [OF ok lib g named loc, where s = s and md = md and w = w and sys = sys])
      (use sync in \<open>auto simp: identifies_def\<close>)
qed simp_all

section \<open>The fleet\<close>

type_synonym fleet = "nat \<Rightarrow> GlobalNetwork option"

inductive fleet_step ::
  "('e, 'd) ack_runtime \<Rightarrow> ('w, 'e) resourceManager \<Rightarrow> service_metadata \<Rightarrow> string list \<Rightarrow> 'w networks \<Rightarrow>
   fleet \<times> ('w, 'e) env \<Rightarrow> fleet \<times> ('w, 'e) env \<Rightarrow> bool"
  for rt rm md sys nets where
  appear: "objs t = None \<Longrightarrow> GlobalNetworkID (Status g) = None \<Longrightarrow> conds_wf (conds_of g) \<Longrightarrow>
    tags_wf (Tags (Spec g)) \<Longrightarrow> fleet_step rt rm md sys nets (objs, w) (objs(t \<mapsto> g), w)"
| live: "objs t = Some g \<Longrightarrow> life_step rt rm md sys (g, w) (g', w') \<Longrightarrow>
    fleet_step rt rm md sys nets (objs, w) (objs(t \<mapsto> g'), w')"
| go: "objs t = Some g \<Longrightarrow> (\<And>i. GlobalNetworkID (Status g) = Some i \<Longrightarrow> nets (svc w) i = None) \<Longrightarrow>
    fleet_step rt rm md sys nets (objs, w) (objs(t := None), w)"

text \<open>The object \<open>t\<close> names the network \<open>i\<close>.\<close>

definition names :: "fleet \<Rightarrow> nat \<Rightarrow> string \<Rightarrow> bool" where
  "names objs t i \<longleftrightarrow> (\<exists>g. objs t = Some g \<and> GlobalNetworkID (Status g) = Some i)"

definition fleet_inv ::
  "'w networks \<Rightarrow> ('w \<Rightarrow> string set) \<Rightarrow> (string \<rightharpoonup> sdk_global_network) \<Rightarrow> fleet \<times> ('w, 'e) env \<Rightarrow> bool" where
  "fleet_inv nets used N fw \<longleftrightarrow> (case fw of (objs, w) \<Rightarrow>
     (\<forall>t g. objs t = Some g \<longrightarrow> conds_wf (conds_of g) \<and> tags_wf (Tags (Spec g)) \<and>
        (\<forall>i n. GlobalNetworkID (Status g) = Some i \<longrightarrow> nets (svc w) i = Some n \<longrightarrow> identifies g i n)) \<and>
     (\<forall>t u i. names objs t i \<longrightarrow> names objs u i \<longrightarrow> t = u) \<and>
     (\<forall>t i. names objs t i \<longrightarrow> i \<in> used (svc w) \<and> N i = None) \<and>
     (\<forall>j. N j \<noteq> None \<longrightarrow> alike (N j) (nets (svc w) j)))"

text \<open>For one object the others' networks are networks that were there before.\<close>

lemma fleet_life_inv:
  assumes "fleet_inv nets used N (objs, w)" and "objs t = Some g"
  shows "life_inv nets used (\<lambda>j. if GlobalNetworkID (Status g) = Some j then None else nets (svc w) j) (g, w)"
proof -
  have "i \<in> used (svc w)" if "GlobalNetworkID (Status g) = Some i" for i
  proof -
    have "names objs t i" using assms(2) that by (simp add: names_def)
    with assms(1) show ?thesis unfolding fleet_inv_def by blast
  qed
  then show ?thesis using assms by (auto simp: fleet_inv_def life_inv_def)
qed

lemma names_upd:
  "names (objs(t \<mapsto> g)) u i \<longleftrightarrow> (if u = t then GlobalNetworkID (Status g) = Some i else names objs u i)"
  "names (objs(t := None)) u i \<longleftrightarrow> u \<noteq> t \<and> names objs u i"
  by (simp_all add: names_def)

lemma alike_identifies:
  assumes "alike (Some n) (Some n')" and "identifies g i n"
  shows "identifies g i n'"
proof -
  have "sdk_GlobalNetworkArn n = sdk_GlobalNetworkArn n'"
    using assms(1) by (metis alike_def bare_eqD option.inject option.simps(9))
  with assms(2) show ?thesis by (simp add: identifies_def)
qed

text \<open>A step of the object \<open>t\<close>, seen from the fleet.\<close>

lemma fleet_live_facts:
  assumes ok: "service_ok rt (sdkapi rm) nets tagging" and loc: "calls_local (sdkapi rm) nets tagging"
    and ids: "ids_unique (sdkapi rm) nets used"
    and lib: "tags_lib_ok rt" "compare_lib_ok rt" "errors_lib_ok rt" "condition_types_ok rt"
    and inv: "fleet_inv nets used N (objs, w)" and t: "objs t = Some g"
    and step: "life_step rt rm md sys (g, w) (g', w')"
  shows "names_kept nets used (svc w) (svc w')"
    and "conds_wf (conds_of g')" and "tags_wf (Tags (Spec g'))"
    and "\<And>i n. GlobalNetworkID (Status g') = Some i \<Longrightarrow> nets (svc w') i = Some n \<Longrightarrow> identifies g' i n"
    and "\<And>j. GlobalNetworkID (Status g) \<noteq> Some j \<Longrightarrow> nets (svc w) j \<noteq> None \<Longrightarrow>
      alike (nets (svc w) j) (nets (svc w') j)"
    and "\<And>u i. names objs u i \<Longrightarrow> GlobalNetworkID (Status g') = Some i \<Longrightarrow> u = t"
    and "\<And>i. GlobalNetworkID (Status g') = Some i \<Longrightarrow> i \<in> used (svc w') \<and> N i = None"
proof -
  define M where "M j = (if GlobalNetworkID (Status g) = Some j then None else nets (svc w) j)" for j
  have life: "life_inv nets used M (g, w)"
    using fleet_life_inv [OF inv t] by (simp add: M_def [abs_def])
  have life': "life_inv nets used M (g', w')" by (rule life_step_inv [OF ok loc ids lib step life])
  show kept: "names_kept nets used (svc w) (svc w')" by (rule life_step_keeps_names [OF ids step])
  show "conds_wf (conds_of g')" "tags_wf (Tags (Spec g'))" using life' by (simp_all add: life_inv_def)
  show "identifies g' i n" if "GlobalNetworkID (Status g') = Some i" "nets (svc w') i = Some n" for i n
    using life' that by (simp add: life_inv_def)
  show "alike (nets (svc w) j) (nets (svc w') j)"
    if "GlobalNetworkID (Status g) \<noteq> Some j" "nets (svc w) j \<noteq> None" for j
  proof -
    have "M j = nets (svc w) j" using that(1) by (simp add: M_def)
    moreover have "M j \<noteq> None \<longrightarrow> alike (M j) (nets (svc w') j)" using life' by (simp add: life_inv_def)
    ultimately show ?thesis using that(2) by simp
  qed
  have own: "names objs t i \<longleftrightarrow> GlobalNetworkID (Status g) = Some i" for i by (simp add: names_def t)
  have old: "i \<in> used (svc w) \<and> N i = None \<and> u = t"
    if "names objs u i" "GlobalNetworkID (Status g) = Some i" for u i
    using inv that own unfolding fleet_inv_def by blast
  have new: "GlobalNetworkID (Status g) = Some i \<or> nets (svc w) i = None \<and> nets (svc w') i \<noteq> None"
    if "GlobalNetworkID (Status g') = Some i" for i
    using life_step_names [OF ok loc lib life step] that by auto
  show "u = t" if "names objs u i" "GlobalNetworkID (Status g') = Some i" for u i
    using new [OF that(2)]
  proof
    assume "nets (svc w) i = None \<and> nets (svc w') i \<noteq> None"
    then have "i \<notin> used (svc w)" using kept by (simp add: names_kept_def)
    with inv that(1) show ?thesis by (simp add: fleet_inv_def)
  qed (use that old in blast)
  show "i \<in> used (svc w') \<and> N i = None" if "GlobalNetworkID (Status g') = Some i" for i
    using new [OF that]
  proof
    assume "GlobalNetworkID (Status g) = Some i"
    with old [of t i] own kept show ?thesis by (auto simp: names_kept_def)
  next
    assume new: "nets (svc w) i = None \<and> nets (svc w') i \<noteq> None"
    then have "i \<in> used (svc w')" using ids by (simp add: ids_unique_def)
    moreover have "N i \<noteq> None \<longrightarrow> alike (N i) (nets (svc w) i)" using inv by (simp add: fleet_inv_def)
    ultimately show ?thesis using new by auto
  qed
qed

lemma fleet_live:
  assumes ok: "service_ok rt (sdkapi rm) nets tagging" and loc: "calls_local (sdkapi rm) nets tagging"
    and ids: "ids_unique (sdkapi rm) nets used"
    and lib: "tags_lib_ok rt" "compare_lib_ok rt" "errors_lib_ok rt" "condition_types_ok rt"
    and inv: "fleet_inv nets used N (objs, w)" and t: "objs t = Some g"
    and step: "life_step rt rm md sys (g, w) (g', w')"
  shows "fleet_inv nets used N (objs(t \<mapsto> g'), w')"
proof -
  note facts = fleet_live_facts [OF assms]
  have own: "names objs t i \<longleftrightarrow> GlobalNetworkID (Status g) = Some i" for i by (simp add: names_def t)
  have "identifies h i n"
    if u: "u \<noteq> t" "objs u = Some h" and i: "GlobalNetworkID (Status h) = Some i" "nets (svc w') i = Some n" for u h i n
  proof -
    have "names objs u i" using u(2) i(1) by (simp add: names_def)
    then have g: "GlobalNetworkID (Status g) \<noteq> Some i" and used: "i \<in> used (svc w)"
      using inv own u(1) unfolding fleet_inv_def by blast+
    then obtain m where m: "nets (svc w) i = Some m"
      using names_keptD(2) [OF facts(1) used] i(2) by (cases "nets (svc w) i") auto
    have "identifies h i m" using inv u(2) i(1) m by (simp add: fleet_inv_def)
    with facts(5) [OF g] m i(2) show ?thesis by (simp add: alike_identifies)
  qed
  moreover have "alike (N j) (nets (svc w') j)" if j: "N j \<noteq> None" for j
  proof -
    have a: "alike (N j) (nets (svc w) j)" using inv j by (simp add: fleet_inv_def)
    have "\<not> names objs t j" using inv j by (auto simp: fleet_inv_def)
    moreover have "nets (svc w) j \<noteq> None" using a j by (cases "nets (svc w) j") auto
    ultimately show ?thesis using facts(5) [of j] own a by (blast intro: alike_trans)
  qed
  ultimately show ?thesis
    using inv facts(1-4,6,7)
    by (simp add: fleet_inv_def names_upd names_kept_def) (metis subsetD)
qed

lemma fleet_step_inv:
  assumes ok: "service_ok rt (sdkapi rm) nets tagging" and loc: "calls_local (sdkapi rm) nets tagging"
    and ids: "ids_unique (sdkapi rm) nets used"
    and lib: "tags_lib_ok rt" "compare_lib_ok rt" "errors_lib_ok rt" "condition_types_ok rt"
    and step: "fleet_step rt rm md sys nets fw fw'" and inv: "fleet_inv nets used N fw"
  shows "fleet_inv nets used N fw'"
  using step
proof cases
  case (appear objs t g w)
  then have "names (objs(t \<mapsto> g)) u i = names objs u i" for u i by (auto simp: names_def)
  with appear inv show ?thesis by (simp add: fleet_inv_def)
next
  case (live objs t g w g' w')
  with inv show ?thesis using fleet_live [OF ok loc ids lib] by blast
next
  case (go objs t g w)
  with inv go(1-3) show ?thesis by (simp add: fleet_inv_def names_upd) blast
qed

lemma fleet_inv_reachable:
  assumes ok: "service_ok rt (sdkapi rm) nets tagging" "calls_local (sdkapi rm) nets tagging"
      "ids_unique (sdkapi rm) nets used"
    and lib: "tags_lib_ok rt" "compare_lib_ok rt" "errors_lib_ok rt" "condition_types_ok rt"
    and run: "(fleet_step rt rm md sys nets)\<^sup>*\<^sup>* ((\<lambda>_. None), w0) fw"
  shows "fleet_inv nets used (nets (svc w0)) fw"
  using run
proof induction
  case base
  show ?case by (simp add: fleet_inv_def names_def)
next
  case (step fw1 fw2)
  show ?case by (rule fleet_step_inv [OF ok lib step(2,3)])
qed

section \<open>Properties\<close>

text \<open>
  C3: in every such fleet each object can be reconciled, and the others do not notice. The
  reconciliation returns; a call of the API failed, or the object names a network that has the wanted tags
  under the user's keys and the desired description if there is one; and in both cases every
  network that another object names, or that was there before, is as it was.
\<close>

theorem fleet_reconciles:
  assumes "service_ok rt (sdkapi rm) nets tagging" and "calls_local (sdkapi rm) nets tagging"
    and "ids_unique (sdkapi rm) nets used"
    and "tags_lib_ok rt" and "compare_lib_ok rt" and "errors_lib_ok rt" and "condition_types_ok rt"
    and "(fleet_step rt rm md sys nets)\<^sup>*\<^sup>* ((\<lambda>_. None), w0) (objs, w)" and "objs t = Some g"
  shows "\<exists>res w'. reconcile_sync rt s rm md sys (ResourcePtr (Some \<lparr>ko = Some g\<rparr>)) w = (Ret res, w') \<and>
    (case res of Inl e \<Rightarrow> faulted w w'
     | Inr out \<Rightarrow> \<exists>g' i n. out = ResourcePtr (Some \<lparr>ko = Some g'\<rparr>) \<and> GlobalNetworkID (Status g') = Some i \<and>
         nets (svc w') i = Some n \<and>
         (\<forall>k. \<not> prefix ''aws:'' k \<and> k \<notin> set sys \<longrightarrow>
            net_tags n k = (mget (GetDefaultTags rt (cfg rm) g md) ++ tag_map (Tags (Spec g))) k) \<and>
         (Description (Spec g) \<noteq> None \<longrightarrow> sdk_Description n = Description (Spec g))) \<and>
    (\<forall>u j. u \<noteq> t \<and> names objs u j \<or> nets (svc w0) j \<noteq> None \<longrightarrow> nets (svc w) j \<noteq> None \<longrightarrow>
       alike (nets (svc w) j) (nets (svc w') j))"
proof -
  note inv = fleet_inv_reachable [OF assms(1-8)]
  define M where "M j = (if GlobalNetworkID (Status g) = Some j then None else nets (svc w) j)" for j
  have life: "life_inv nets used M (g, w)" using fleet_life_inv [OF inv assms(9)] by (simp add: M_def [abs_def])
  then have g: "conds_wf (conds_of g)" "tags_wf (Tags (Spec g))" by (simp_all add: life_inv_def)
  have other: "\<forall>u j. u \<noteq> t \<and> names objs u j \<or> nets (svc w0) j \<noteq> None \<longrightarrow> nets (svc w) j \<noteq> None \<longrightarrow>
      alike (nets (svc w) j) (nets (svc w') j)" if k: "life_inv nets used M (g', w')" for g' w'
  proof (intro allI impI)
    fix u j
    assume j: "u \<noteq> t \<and> names objs u j \<or> nets (svc w0) j \<noteq> None" "nets (svc w) j \<noteq> None"
    have "\<not> names objs t j" using inv j(1) by (auto simp: fleet_inv_def)
    then have "M j = nets (svc w) j" using assms(9) by (simp add: M_def names_def)
    moreover have "M j \<noteq> None \<longrightarrow> alike (M j) (nets (svc w') j)" using k by (simp add: life_inv_def)
    ultimately show "alike (nets (svc w) j) (nets (svc w') j)" using j(2) by simp
  qed
  show ?thesis
  proof (rule sync_keeps_inv [OF assms(1-7) life, of s md sys])
    fix e w'
    assume run: "reconcile_sync rt s rm md sys (object g) w = (Ret (Inl e), w')" and k: "life_inv nets used M (g, w')"
    show ?thesis using run sync_honest [OF assms(4,6,7) g run] other [OF k] by auto
  next
    fix g' w' i n
    assume "reconcile_sync rt s rm md sys (object g) w = (Ret (Inr (object g')), w')"
      and k: "life_inv nets used M (with_spec (Spec g) g', w')"
      and "GlobalNetworkID (Status g') = Some i" "nets (svc w') i = Some n"
        "\<And>k. own_key sys k \<Longrightarrow> net_tags n k = wanted_tags rt rm md g k"
        "Description (Spec g) \<noteq> None \<Longrightarrow> sdk_Description n = Description (Spec g)"
    then show ?thesis using other [OF k] by (auto simp: own_key_def aws_key_def wanted_tags_def)
  qed
qed

end
