(* ===== verification/LifeWitnesses.thy ===== *)
theory LifeWitnesses
  imports Witnesses Fleet
begin

text \<open>
  The properties on isolation and on the life of an object at work, on the example service, which
  acts on the networks it is told of only.
\<close>

lemma ex_calls_local: "calls_local (sdkapi ex_rm) example_nets example_tagging"
  unfolding calls_local_def
proof (intro conjI allI impI)
  fix inp :: CreateGlobalNetworkInput and s resp err s'
  assume call: "CreateGlobalNetwork (sdkapi ex_rm) inp s = ((resp, err), s')"
  have "example_nets s (fresh_id s) = None"
    by (simp add: example_nets_def fresh_id_new)
  moreover have "s' = store_tags (arn_of (fresh_id s)) (pairs_of (create_Tags inp))
      (s\<lparr>w_nets := (fresh_id s, create_Description inp, ''PENDING'') # w_nets s\<rparr>)"
    using call by (auto simp: ex_rm_def example_client_def Let_def)
  ultimately show "example_nets s \<subseteq>\<^sub>m example_nets s'"
    by (auto simp: map_le_def example_nets_def split: option.splits)
next
  have gone: "map_of (filter (\<lambda>(j, _). j \<noteq> i) xs) k = (if k = i then None else map_of xs k)"
    for i k and xs :: "(string \<times> string option \<times> string) list"
    by (induction xs) auto
  fix inp :: DeleteGlobalNetworkInput and s j
  show "delete_GlobalNetworkId inp \<noteq> Some j \<Longrightarrow>
      example_nets (snd (DeleteGlobalNetwork (sdkapi ex_rm) inp s)) j = example_nets s j"
    by (auto simp: ex_rm_def example_client_def example_nets_def gone split: option.split)
  fix n
  show "example_nets (snd (DeleteGlobalNetwork (sdkapi ex_rm) inp s)) j = Some n \<Longrightarrow>
      map_option sdk_GlobalNetworkArn (example_nets s j) = Some (sdk_GlobalNetworkArn n)"
    by (auto simp: ex_rm_def example_client_def example_nets_def gone split: option.splits if_splits)
qed (auto simp: ex_rm_def example_client_def example_nets_def example_tagging_def Let_def held_def store_tags_def
    split: option.splits if_splits list.split)

declare tag_list_simps [simp del]

text \<open>The example world with a second network; a pass over the first one changes only that.\<close>

definition ex_two :: "(world, string) env" where
  "ex_two = \<lparr>svc = \<lparr>w_nets = (''n2'', Some ''other'', ''AVAILABLE'') # w_nets ex_world,
       w_tags = (arn_of ''n2'', [(''env'', ''test'')]) # w_tags ex_world, w_gone = []\<rparr>, api_calls = []\<rparr>"

abbreviation ex_two_passed :: "(world, string) env" where
  "ex_two_passed \<equiv> snd (reconcile_pass example_rt (\<lambda>_. ex_sched) ex_rm ''v1'' [] (ex_ptr ex_desired) ex_two)"

lemma ex_two_pass_changes:
  "map_option sdk_Description (example_nets (svc ex_two) ''n1'') = Some (Some ''old'') \<and>
   map_option sdk_Description (example_nets (svc ex_two_passed) ''n1'') = Some (Some ''new'')"
  by code_simp

theorem operations_touch_own_network_witness:
  "alike (example_nets (svc ex_two) ''n2'') (example_nets (svc ex_two_passed) ''n2'') \<and>
   example_nets (svc ex_two) ''n2'' \<noteq> None \<and>
   map_option sdk_Description (example_nets (svc ex_two) ''n1'') = Some (Some ''old'') \<and>
   map_option sdk_Description (example_nets (svc ex_two_passed) ''n1'') = Some (Some ''new'')"
proof -
  have "owns example_nets ''n1'' (ARN (metadata_of ex_desired)) (svc ex_two)"
    by (auto simp: owns_def ex_two_def ex_world_def example_nets_def ex_desired_def arn_of_def split: if_splits)
  with operations_touch_own_network [OF ex_service ex_calls_local, where g = ex_desired and i = "''n1''" and w = ex_two
      and j = "''n2''" and s = ex_sched and res = "ex_ptr ex_desired" and latest = "ex_ptr ex_latest"
      and delta = ex_delta and ss = "\<lambda>_. ex_sched" and md = "''v1''" and sys = "[]"]
  have "alike (example_nets (svc ex_two) ''n2'') (example_nets (svc ex_two_passed) ''n2'')"
    by (simp add: ex_desired_def)
  moreover have "example_nets (svc ex_two) ''n2'' \<noteq> None"
    by (simp add: ex_two_def example_nets_def)
  ultimately show ?thesis using ex_two_pass_changes by blast
qed

section \<open>A life\<close>

text \<open>An object without an identifier; a reconciliation creates its network.\<close>

definition ex_new_object :: GlobalNetwork where
  "ex_new_object = ex_object (Some ''new'') [(''env'', ''prod''), (''team'', ''net'')] None"

definition ex_life_sync :: "GlobalNetwork \<Rightarrow> (world, string) env \<Rightarrow> GlobalNetwork \<times> (world, string) env" where
  "ex_life_sync g w = (case reconcile_sync example_rt (\<lambda>_. ex_sched) ex_rm ''v1'' [] (object g) w of
     (Ret (Inr (ResourcePtr (Some r))), w') \<Rightarrow> (the (ko r), w') | (_, w') \<Rightarrow> (g, w'))"

lemma ex_life_sync_runs:
  "reconcile_sync example_rt (\<lambda>_. ex_sched) ex_rm ''v1'' [] (object ex_new_object) ex_env =
     (Ret (Inr (object (fst (ex_life_sync ex_new_object ex_env)))), snd (ex_life_sync ex_new_object ex_env))"
  by code_simp

abbreviation ex_life where "ex_life \<equiv> life_step example_rt ex_rm ''v1'' []"

abbreviation ex_made :: "GlobalNetwork \<times> (world, string) env" where
  "ex_made \<equiv> (with_spec (Spec ex_new_object) (fst (ex_life_sync ex_new_object ex_env)), snd (ex_life_sync ex_new_object ex_env))"

lemma ex_made_reached: "ex_life\<^sup>*\<^sup>* (ex_new_object, ex_env) ex_made"
  using life_step.sync [OF ex_life_sync_runs] by (rule r_into_rtranclp)

lemma ex_made_id: "GlobalNetworkID (Status (fst ex_made)) = Some ''nn1''"
  unfolding fst_conv with_spec_sel(2) by code_simp

section \<open>A fleet\<close>

lemma ex_named: "example_nets s i = None \<longleftrightarrow> i \<notin> set (map fst (w_nets s))"
proof -
  have "example_nets s i = None \<longleftrightarrow> map_of (w_nets s) i = None"
    by (auto simp: example_nets_def split: option.split)
  then show ?thesis by (simp add: map_of_eq_None_iff)
qed

lemma ex_ids_unique: "ids_unique (sdkapi ex_rm) example_nets example_used"
proof -
  have create: "names_kept example_nets example_used s (snd (CreateGlobalNetwork (sdkapi ex_rm) inp s))" for inp s
  proof -
    have "snd (CreateGlobalNetwork (sdkapi ex_rm) inp s) = store_tags (arn_of (fresh_id s)) (pairs_of (create_Tags inp))
        (s\<lparr>w_nets := (fresh_id s, create_Description inp, ''PENDING'') # w_nets s\<rparr>)"
      by (simp add: ex_rm_def example_client_def Let_def)
    then show ?thesis
      using fresh_id_unused [of s] by (auto simp: names_kept_def example_used_def ex_named)
  qed
  have delete: "names_kept example_nets example_used s (snd (DeleteGlobalNetwork (sdkapi ex_rm) inp s))" for inp s
    by (auto simp: names_kept_def ex_rm_def example_client_def example_used_def ex_named split: option.splits)
  have update: "names_kept example_nets example_used s (snd (UpdateGlobalNetwork (sdkapi ex_rm) inp s))" for inp s
    by (auto simp: names_kept_def ex_rm_def example_client_def example_used_def ex_named Let_def
        split: option.splits dest!: map_of_SomeD intro: rev_image_eqI)
  have tag: "names_kept example_nets example_used s (snd (TagResource (sdkapi ex_rm) inp s))" for inp s
    by (auto simp: names_kept_def ex_rm_def example_client_def example_used_def ex_named split: option.splits)
  have untag: "names_kept example_nets example_used s (snd (UntagResource (sdkapi ex_rm) inp s))" for inp s
    by (auto simp: names_kept_def ex_rm_def example_client_def example_used_def ex_named split: option.splits)
  have describe: "names_kept example_nets example_used s (snd (DescribeGlobalNetworks (sdkapi ex_rm) inp s))" for inp s
    by (auto simp: names_kept_def ex_rm_def example_client_def split: option.splits list.splits)
  have "i \<in> example_used s" if "example_nets s i \<noteq> None" for s i
    using that by (auto simp: ex_named example_used_def)
  with create update delete tag untag describe show ?thesis unfolding ids_unique_def by blast
qed

text \<open>Two objects that ask for the same; each gets a network of its own.\<close>

abbreviation ex_fleet where "ex_fleet \<equiv> fleet_step example_rt ex_rm ''v1'' [] example_nets"

definition ex_second :: "GlobalNetwork \<times> (world, string) env" where
  "ex_second = (with_spec (Spec ex_new_object) (fst (ex_life_sync ex_new_object (snd ex_made))),
     snd (ex_life_sync ex_new_object (snd ex_made)))"

lemma ex_second_runs:
  "reconcile_sync example_rt (\<lambda>_. ex_sched) ex_rm ''v1'' [] (object ex_new_object) (snd ex_made) =
     (Ret (Inr (object (fst (ex_life_sync ex_new_object (snd ex_made))))), snd (ex_life_sync ex_new_object (snd ex_made)))"
  by code_simp

lemma ex_second_id: "GlobalNetworkID (Status (fst ex_second)) = Some ''nnn1n1''"
  unfolding ex_second_def fst_conv with_spec_sel(2) by code_simp

lemma ex_second_nets: "example_nets (svc (snd ex_second)) ''nnn1n1'' \<noteq> None \<and> example_nets (svc ex_env) ''nnn1n1'' = None"
  unfolding ex_second_def snd_conv by code_simp

abbreviation ex_objects :: fleet where
  "ex_objects \<equiv> [0 \<mapsto> fst ex_made, 1 \<mapsto> fst ex_second]"

lemma ex_fleet_reached: "ex_fleet\<^sup>*\<^sup>* ((\<lambda>_. None), ex_env) (ex_objects, snd ex_second)"
proof -
  have wf: "GlobalNetworkID (Status ex_new_object) = None" "conds_wf (conds_of ex_new_object)"
    "tags_wf (Tags (Spec ex_new_object))"
    by (simp_all add: ex_new_object_def)
  have 1: "ex_fleet ((\<lambda>_. None), ex_env) ([0 \<mapsto> ex_new_object], ex_env)"
    by (rule appear) (simp_all add: wf)
  have 2: "ex_fleet ([0 \<mapsto> ex_new_object], ex_env) ([0 \<mapsto> ex_new_object, 0 \<mapsto> fst ex_made], snd ex_made)"
    unfolding fst_conv snd_conv by (rule live, simp, rule life_step.sync [OF ex_life_sync_runs])
  have 3: "ex_fleet ([0 \<mapsto> fst ex_made], snd ex_made) ([0 \<mapsto> fst ex_made, 1 \<mapsto> ex_new_object], snd ex_made)"
    by (rule appear) (simp_all add: wf)
  have 4: "ex_fleet ([0 \<mapsto> fst ex_made, 1 \<mapsto> ex_new_object], snd ex_made)
      ([0 \<mapsto> fst ex_made, 1 \<mapsto> ex_new_object, 1 \<mapsto> fst ex_second], snd ex_second)"
    unfolding ex_second_def fst_conv [of "with_spec s (fst (ex_life_sync g w))" "snd (ex_life_sync g w)" for s g w]
      snd_conv [of "with_spec s (fst (ex_life_sync ex_new_object (snd ex_made)))" for s]
    by (rule live, simp, rule life_step.sync [OF ex_second_runs])
  from 1 2 3 4 show ?thesis by (simp add: converse_rtranclp_into_rtranclp)
qed

theorem fleet_reconciles_witness:
  "\<exists>res w'. reconcile_sync example_rt (\<lambda>_. ex_sched) ex_rm ''v1'' [] (object (fst ex_made)) (snd ex_second) = (Ret res, w') \<and>
    alike (example_nets (svc (snd ex_second)) ''nnn1n1'') (example_nets (svc w') ''nnn1n1'')"
proof -
  have n: "names ex_objects 1 ''nnn1n1''" using ex_second_id by (simp add: names_def)
  have t: "ex_objects 0 = Some (fst ex_made)" by simp
  obtain res w' where run: "reconcile_sync example_rt (\<lambda>_. ex_sched) ex_rm ''v1'' [] (object (fst ex_made)) (snd ex_second) = (Ret res, w')"
    and others: "\<forall>u j. u \<noteq> 0 \<and> names ex_objects u j \<or> example_nets (svc ex_env) j \<noteq> None \<longrightarrow>
      example_nets (svc (snd ex_second)) j \<noteq> None \<longrightarrow>
      alike (example_nets (svc (snd ex_second)) j) (example_nets (svc w') j)"
    using fleet_reconciles [OF ex_service ex_calls_local ex_ids_unique ex_libs ex_fleet_reached t, of "\<lambda>_. ex_sched"]
    by (elim exE conjE)
  have "alike (example_nets (svc (snd ex_second)) ''nnn1n1'') (example_nets (svc w') ''nnn1n1'')"
    by (rule others [rule_format, of 1]) (use n ex_second_nets in \<open>simp_all\<close>)
  with run show ?thesis by (intro exI conjI)
qed

end
