(* ===== verification/JsonCodec.thy ===== *)
theory JsonCodec
  imports GoPrelude
begin

text \<open>
  How the structs of the API become JSON and come back, as \<open>encoding/json\<close> does it for the struct
  tags the code writes: the name of a member, and \<open>omitempty\<close>, which leaves out nil pointers and
  empty slices. The API server keeps the objects in this form, so what the controller stores and
  reads again has been through it. The locale \<open>json_codec\<close> is the contract of the codec of a type
  (what is decoded is the normal form of what was encoded), \<open>json_members\<close> the one of a group of
  members of a struct; pointers, slices, members and structs keep the contract.
  Names are matched exactly, as the decoder of Kubernetes does.
\<close>

section \<open>JSON values and the codec of a type\<close>

datatype json =
    JNull
  | JBool bool
  | JNum int
  | JStr string
  | JArr "json list"
  | JObj "(string \<times> json) list"

text \<open>
  \<open>j_zero\<close> is the zero value of the type, \<open>j_norm v\<close> what \<open>v\<close> is read back as. Decoding fails
  (\<open>None\<close>) when the value is of the wrong kind.
\<close>

record 'v jcodec =
  j_enc :: "'v \<Rightarrow> json"
  j_dec :: "json \<Rightarrow> 'v option"
  j_norm :: "'v \<Rightarrow> 'v"
  j_zero :: 'v

locale json_codec =
  fixes c :: "'v jcodec"
  assumes dec_enc: "j_dec c (j_enc c v) = Some (j_norm c v)"
    and norm_norm: "j_norm c (j_norm c v) = j_norm c v"
    and norm_null: "j_enc c (j_norm c v) = JNull \<Longrightarrow> j_enc c v = JNull"
begin

text \<open>A second trip changes nothing.\<close>

lemma second_trip: "j_dec c (j_enc c v) = Some w \<Longrightarrow> j_dec c (j_enc c w) = Some w"
  using dec_enc norm_norm by auto

end

text \<open>The members of a struct: what is written, and how they are read from the members of an object.\<close>

record 'v jmembers =
  m_write :: "'v \<Rightarrow> (string \<times> json) list"
  m_read :: "(string \<rightharpoonup> json) \<Rightarrow> 'v option"
  m_norm :: "'v \<Rightarrow> 'v"
  m_zero :: 'v
  m_names :: "string list"

locale json_members =
  fixes m :: "'v jmembers"
  assumes names: "fst ` set (m_write m v) \<subseteq> set (m_names m)"
    and distinct_names: "distinct (map fst (m_write m v))"
    and read_local: "(\<And>k. k \<in> set (m_names m) \<Longrightarrow> f k = f' k) \<Longrightarrow> m_read m f = m_read m f'"
    and read_write: "m_read m (map_of (m_write m v)) = Some (m_norm m v)"
    and members_norm: "m_norm m (m_norm m v) = m_norm m v"
begin

text \<open>
  Members with other names are ignored; of members with the same name the last one counts, and
  what is written has no two.
\<close>

lemma read_filter:
  "m_read m (map_of (rev (filter (\<lambda>(k, j). k \<in> set (m_names m)) kvs))) = m_read m (map_of (rev kvs))"
proof (rule read_local)
  fix k assume k: "k \<in> set (m_names m)"
  have "map_of (filter (\<lambda>(k, j). k \<in> set (m_names m)) xs) k = map_of xs k" for xs :: "(string \<times> json) list"
    using k by (induction xs) auto
  then show "map_of (rev (filter (\<lambda>(k, j). k \<in> set (m_names m)) kvs)) k = map_of (rev kvs) k"
    by (simp add: rev_filter)
qed

lemma last_counts: "distinct (map fst kvs) \<Longrightarrow> map_of (rev kvs) = map_of kvs"
  by (induction kvs) (auto simp: map_add_upd_left dom_map_of_conv_image_fst)

lemma read_written: "m_read m (map_of (rev (m_write m v))) = Some (m_norm m v)"
  using read_write last_counts [OF distinct_names] by simp

end

section \<open>The codecs of Go types\<close>

definition string_j :: "string jcodec" where
  "string_j = \<lparr>j_enc = JStr, j_dec = (\<lambda>j. case j of JStr s \<Rightarrow> Some s | JNull \<Rightarrow> Some [] | _ \<Rightarrow> None),
     j_norm = (\<lambda>s. s), j_zero = []\<rparr>"

text \<open>A pointer: nil is \<open>null\<close>, and a target that is written as \<open>null\<close> is read back as nil.\<close>

definition ptr_j :: "'v jcodec \<Rightarrow> 'v option jcodec" where
  "ptr_j c = \<lparr>
     j_enc = (\<lambda>p. case p of None \<Rightarrow> JNull | Some v \<Rightarrow> j_enc c v),
     j_dec = (\<lambda>j. if j = JNull then Some None else map_option Some (j_dec c j)),
     j_norm = (\<lambda>p. case p of None \<Rightarrow> None | Some v \<Rightarrow> if j_enc c v = JNull then None else Some (j_norm c v)),
     j_zero = None\<rparr>"

fun dec_list :: "(json \<Rightarrow> 'v option) \<Rightarrow> json list \<Rightarrow> 'v list option" where
  "dec_list d [] = Some []"
| "dec_list d (j # js) =
     (case d j of None \<Rightarrow> None | Some v \<Rightarrow> map_option ((#) v) (dec_list d js))"

text \<open>A slice: nil is \<open>null\<close>, the empty slice is the empty array.\<close>

definition slice_j :: "'v jcodec \<Rightarrow> 'v slice jcodec" where
  "slice_j c = \<lparr>
     j_enc = (\<lambda>s. case s of None \<Rightarrow> JNull | Some vs \<Rightarrow> JArr (map (j_enc c) vs)),
     j_dec = (\<lambda>j. case j of JNull \<Rightarrow> Some None | JArr js \<Rightarrow> map_option Some (dec_list (j_dec c) js) | _ \<Rightarrow> None),
     j_norm = map_option (map (j_norm c)),
     j_zero = None\<rparr>"

text \<open>A member: \<open>skip\<close> is the test of \<open>omitempty\<close>. A member that is not there leaves the zero value.\<close>

definition member_j :: "string \<Rightarrow> ('v \<Rightarrow> bool) \<Rightarrow> 'v jcodec \<Rightarrow> 'v jmembers" where
  "member_j name skip c = \<lparr>
     m_write = (\<lambda>v. if skip v then [] else [(name, j_enc c v)]),
     m_read = (\<lambda>f. case f name of None \<Rightarrow> Some (j_zero c) | Some j \<Rightarrow> j_dec c j),
     m_norm = (\<lambda>v. if skip v then j_zero c else j_norm c v),
     m_zero = j_zero c,
     m_names = [name]\<rparr>"

definition always :: "'v \<Rightarrow> bool" where "always v = False"

definition omit_nil :: "'v option \<Rightarrow> bool" where "omit_nil p \<longleftrightarrow> p = None"

definition omit_empty :: "'v slice \<Rightarrow> bool" where "omit_empty s \<longleftrightarrow> length (elems s) = 0"

abbreviation ptr_member :: "string \<Rightarrow> 'v jcodec \<Rightarrow> 'v option jmembers" where
  "ptr_member name c \<equiv> member_j name omit_nil (ptr_j c)"

abbreviation slice_member :: "string \<Rightarrow> 'v jcodec \<Rightarrow> 'v slice jmembers" where
  "slice_member name c \<equiv> member_j name omit_empty (slice_j c)"

text \<open>Members one after the other, and a struct with its members.\<close>

definition and_j :: "'a jmembers \<Rightarrow> 'b jmembers \<Rightarrow> ('a \<times> 'b) jmembers" where
  "and_j a b = \<lparr>
     m_write = (\<lambda>(x, y). m_write a x @ m_write b y),
     m_read = (\<lambda>f. case m_read a f of None \<Rightarrow> None | Some x \<Rightarrow> map_option (Pair x) (m_read b f)),
     m_norm = map_prod (m_norm a) (m_norm b),
     m_zero = (m_zero a, m_zero b),
     m_names = m_names a @ m_names b\<rparr>"

definition struct_j :: "('s \<Rightarrow> 'v) \<Rightarrow> ('v \<Rightarrow> 's) \<Rightarrow> 'v jmembers \<Rightarrow> 's jcodec" where
  "struct_j parts of_parts m = \<lparr>
     j_enc = (\<lambda>s. JObj (m_write m (parts s))),
     j_dec = (\<lambda>j. case j of
        JObj kvs \<Rightarrow> map_option of_parts (m_read m (map_of (rev kvs)))
      | JNull \<Rightarrow> Some (of_parts (m_zero m))
      | _ \<Rightarrow> None),
     j_norm = (\<lambda>s. of_parts (m_norm m (parts s))),
     j_zero = of_parts (m_zero m)\<rparr>"

lemmas jcodec_defs = string_j_def ptr_j_def slice_j_def struct_j_def
lemmas jmember_defs = member_j_def and_j_def always_def omit_nil_def omit_empty_def

section \<open>They keep the contract\<close>

named_theorems json_intros \<open>the codecs that keep the contract\<close>

lemma string_json [json_intros]: "json_codec string_j"
  by unfold_locales (simp_all add: string_j_def)

lemma ptr_json [json_intros]:
  assumes "json_codec c"
  shows "json_codec (ptr_j c)"
  using json_codec.dec_enc [OF assms] json_codec.norm_norm [OF assms] json_codec.norm_null [OF assms]
  by unfold_locales (auto simp: ptr_j_def split: option.splits if_splits)

lemma dec_list_map: "(\<And>v. d (e v) = Some (n v)) \<Longrightarrow> dec_list d (map e vs) = Some (map n vs)"
  by (induction vs) simp_all

lemma slice_json [json_intros]:
  assumes "json_codec c"
  shows "json_codec (slice_j c)"
  using dec_list_map [of "j_dec c" "j_enc c" "j_norm c", OF json_codec.dec_enc [OF assms]]
    json_codec.norm_norm [OF assms]
  by unfold_locales (auto simp: slice_j_def option.map_comp comp_def split: option.splits)

lemma member_json:
  assumes "json_codec c" and "\<And>v. skip (j_norm c v) \<Longrightarrow> skip v \<or> j_norm c v = j_zero c"
    and "j_norm c (j_zero c) = j_zero c"
  shows "json_members (member_j name skip c)"
  using assms(3) json_codec.dec_enc [OF assms(1)] json_codec.norm_norm [OF assms(1)]
  by unfold_locales (auto simp: member_j_def dest: assms(2))

lemma always_json [json_intros]:
  assumes "json_codec c"
  shows "json_members (member_j name always c)"
  using json_codec.dec_enc [OF assms] json_codec.norm_norm [OF assms]
  by unfold_locales (auto simp: member_j_def always_def)

lemma ptr_member_json [json_intros]: "json_codec c \<Longrightarrow> json_members (ptr_member name c)"
  by (rule member_json [OF ptr_json]) (simp_all add: ptr_j_def omit_nil_def)

lemma slice_member_json [json_intros]: "json_codec c \<Longrightarrow> json_members (slice_member name c)"
  by (rule member_json [OF slice_json])
    (auto simp: slice_j_def omit_empty_def elems_def split: option.splits)

lemma and_json [json_intros]:
  assumes a: "json_members a" and b: "json_members b" and "set (m_names a) \<inter> set (m_names b) = {}"
  shows "json_members (and_j a b)"
proof -
  note la = json_members.read_local [OF a] and lb = json_members.read_local [OF b]
  note na = json_members.names [OF a] and nb = json_members.names [OF b]
  have other: "map_of (m_write b y) k = None" if "k \<in> set (m_names a)" for k y
    using nb [of y] assms(3) that by (auto simp: map_of_eq_None_iff)
  have other': "map_of (m_write a x) k = None" if "k \<in> set (m_names b)" for k x
    using na [of x] assms(3) that by (auto simp: map_of_eq_None_iff)
  have reada: "m_read a (map_of (m_write a x @ m_write b y)) = m_read a (map_of (m_write a x))" for x y
    by (rule la) (simp add: map_add_def other split: option.split)
  have readb: "m_read b (map_of (m_write a x @ m_write b y)) = m_read b (map_of (m_write b y))" for x y
    by (rule lb) (simp add: map_add_def other' split: option.split)
  show ?thesis
  proof
    fix v and f f' :: "string \<rightharpoonup> json"
    show "fst ` set (m_write (and_j a b) v) \<subseteq> set (m_names (and_j a b))"
      using na [of "fst v"] nb [of "snd v"] by (cases v) (auto simp: and_j_def image_Un)
    have "fst ` set (m_write a (fst v)) \<inter> fst ` set (m_write b (snd v)) = {}"
      using na [of "fst v"] nb [of "snd v"] assms(3) by blast
    then show "distinct (map fst (m_write (and_j a b) v))"
      using json_members.distinct_names [OF a, of "fst v"] json_members.distinct_names [OF b, of "snd v"]
      by (cases v) (simp add: and_j_def)
    show "m_read (and_j a b) (map_of (m_write (and_j a b) v)) = Some (m_norm (and_j a b) v)"
      using reada readb json_members.read_write [OF a] json_members.read_write [OF b]
      by (cases v) (simp add: and_j_def)
    show "m_norm (and_j a b) (m_norm (and_j a b) v) = m_norm (and_j a b) v"
      using json_members.members_norm [OF a] json_members.members_norm [OF b] by (cases v) (simp add: and_j_def)
    assume same: "\<And>k. k \<in> set (m_names (and_j a b)) \<Longrightarrow> f k = f' k"
    have "m_read a f = m_read a f'" "m_read b f = m_read b f'"
      by (rule la, simp add: same and_j_def) (rule lb, simp add: same and_j_def)
    then show "m_read (and_j a b) f = m_read (and_j a b) f'" by (simp add: and_j_def split: option.split)
  qed
qed

lemma struct_json:
  assumes m: "json_members m" and "\<And>v. parts (of_parts v) = v"
  shows "json_codec (struct_j parts of_parts m)"
  using json_members.read_written [OF m] json_members.members_norm [OF m] assms(2)
  by unfold_locales (simp_all add: struct_j_def)

lemma struct_ignores:
  assumes "json_members m"
  shows "j_dec (struct_j parts of_parts m) (JObj (filter (\<lambda>(k, j). k \<in> set (m_names m)) kvs)) =
    j_dec (struct_j parts of_parts m) (JObj kvs)"
  using json_members.read_filter [OF assms] by (simp add: struct_j_def)

text \<open>Encodings are exact where no normal form is lost.\<close>

lemma ptr_norm_id:
  "(\<And>v. j_enc c v \<noteq> JNull) \<Longrightarrow> (\<And>v. j_norm c v = v) \<Longrightarrow> j_norm (ptr_j c) p = p"
  by (simp add: ptr_j_def split: option.split)

lemma slice_norm: "j_norm (slice_j c) xs = map_option (map (j_norm c)) xs"
  by (simp add: slice_j_def)

lemma norm_simps [simp]:
  "j_norm (ptr_j string_j) p = p"
  "j_enc (struct_j parts of_parts m) v \<noteq> JNull"
  "j_norm (struct_j parts of_parts m) v = of_parts (m_norm m (parts v))"
  "m_norm (and_j a b) (x, y) = (m_norm a x, m_norm b y)"
  "m_norm (member_j name always c) v = j_norm c v"
  "m_norm (ptr_member name d) q = j_norm (ptr_j d) q"
  "m_norm (slice_member name d) xs = (if elems xs = [] then None else map_option (map (j_norm d)) xs)"
  "m_names (member_j name skip c) = [name]" "m_names (and_j a b) = m_names a @ m_names b"
  by (simp_all add: jcodec_defs jmember_defs split: option.split)

end
