(* ===== verification/ResourceJson.thy ===== *)
theory ResourceJson
  imports JsonCodec ResourceDelta
begin

text \<open>
  The JSON form of the custom resource: the struct tags of \<open>apis/v1alpha1/global_network.go\<close> and of
  \<open>Tag\<close> in \<open>apis/v1alpha1/types.go\<close>, member by member. The codecs of the structs of Kubernetes and
  of the ACK runtime are parameters (\<open>json_ext\<close>) under the same contract.
\<close>

section \<open>The codecs of other packages\<close>

text \<open>\<open>metav1.TypeMeta\<close> is inlined: its members stand among those of the resource.\<close>

record json_ext =
  jx_TypeMeta :: "type_meta jmembers"
  jx_ObjectMeta :: "object_meta jcodec"
  jx_ListMeta :: "list_meta jcodec"
  jx_ResourceMetadata :: "resource_metadata jcodec"
  jx_Condition :: "condition jcodec"
  jx_Time :: "gotime jcodec"

text \<open>
  The contract, and what of these structs survives: the name, the namespace and the finalizers of
  the object, the metadata of the ACK runtime, the type and the status of a condition. Neither of the
  last two is ever written as \<open>null\<close>.
\<close>

definition json_ext_ok :: "json_ext \<Rightarrow> bool" where
  "json_ext_ok X \<longleftrightarrow>
     json_members (jx_TypeMeta X) \<and> set (m_names (jx_TypeMeta X)) \<inter> {''metadata'', ''spec'', ''status'', ''items''} = {} \<and>
     json_codec (jx_ObjectMeta X) \<and> json_codec (jx_ListMeta X) \<and> json_codec (jx_ResourceMetadata X) \<and>
     json_codec (jx_Condition X) \<and> json_codec (jx_Time X) \<and>
     (\<forall>m. om_Name (j_norm (jx_ObjectMeta X) m) = om_Name m \<and>
        om_Namespace (j_norm (jx_ObjectMeta X) m) = om_Namespace m \<and>
        finalizers_of (j_norm (jx_ObjectMeta X) m) = finalizers_of m) \<and>
     (\<forall>m. j_norm (jx_ResourceMetadata X) m = m \<and> j_enc (jx_ResourceMetadata X) m \<noteq> JNull) \<and>
     (\<forall>c. cond_Type (j_norm (jx_Condition X) c) = cond_Type c \<and>
        cond_Status (j_norm (jx_Condition X) c) = cond_Status c \<and> j_enc (jx_Condition X) c \<noteq> JNull)"

section \<open>The structs of the resource\<close>

definition tag_j :: "tag jcodec" where
  "tag_j = struct_j (\<lambda>t. (Key t, Value t)) (\<lambda>(k, v). \<lparr>Key = k, Value = v\<rparr>)
     (and_j (ptr_member ''key'' string_j) (ptr_member ''value'' string_j))"

definition spec_members :: "(string option \<times> tag option slice) jmembers" where
  "spec_members = and_j (ptr_member ''description'' string_j) (slice_member ''tags'' (ptr_j tag_j))"

definition spec_j :: "GlobalNetworkSpec jcodec" where
  "spec_j = struct_j (\<lambda>s. (Description s, Tags s)) (\<lambda>(d, ts). \<lparr>Description = d, Tags = ts\<rparr>) spec_members"

text \<open>\<open>ackResourceMetadata\<close> and \<open>conditions\<close> have no \<open>omitempty\<close>: a nil one is written as \<open>null\<close>.\<close>

definition status_j :: "json_ext \<Rightarrow> GlobalNetworkStatus jcodec" where
  "status_j X =
     struct_j (\<lambda>s. (ACKResourceMetadata s, Conditions s, CreatedAt s, GlobalNetworkID s, State s))
       (\<lambda>(md, cs, t, i, st). \<lparr>ACKResourceMetadata = md, Conditions = cs, CreatedAt = t, GlobalNetworkID = i, State = st\<rparr>)
       (and_j (member_j ''ackResourceMetadata'' always (ptr_j (jx_ResourceMetadata X)))
       (and_j (member_j ''conditions'' always (slice_j (ptr_j (jx_Condition X))))
       (and_j (ptr_member ''createdAt'' (jx_Time X))
       (and_j (ptr_member ''globalNetworkID'' string_j) (ptr_member ''state'' string_j)))))"

text \<open>\<open>omitempty\<close> never leaves out a struct.\<close>

definition network_j :: "json_ext \<Rightarrow> GlobalNetwork jcodec" where
  "network_j X =
     struct_j (\<lambda>g. (TypeMeta g, ObjectMeta g, Spec g, Status g))
       (\<lambda>(tm, om, sp, st). \<lparr>TypeMeta = tm, ObjectMeta = om, Spec = sp, Status = st\<rparr>)
       (and_j (jx_TypeMeta X)
       (and_j (member_j ''metadata'' always (jx_ObjectMeta X))
       (and_j (member_j ''spec'' always spec_j) (member_j ''status'' always (status_j X)))))"

definition network_list_j :: "json_ext \<Rightarrow> GlobalNetworkList jcodec" where
  "network_list_j X =
     struct_j (\<lambda>l. (list_TypeMeta l, list_ListMeta l, list_Items l))
       (\<lambda>(tm, lm, is). \<lparr>list_TypeMeta = tm, list_ListMeta = lm, list_Items = is\<rparr>)
       (and_j (jx_TypeMeta X)
       (and_j (member_j ''metadata'' always (jx_ListMeta X))
         (member_j ''items'' always (slice_j (network_j X)))))"

interpretation tag_json: json_codec tag_j
  unfolding tag_j_def by (intro struct_json json_intros) auto

lemmas [json_intros] = tag_json.json_codec_axioms

interpretation spec_members: json_members spec_members
  unfolding spec_members_def by (intro json_intros) simp

interpretation spec_json: json_codec spec_j
  unfolding spec_j_def by (intro struct_json spec_members.json_members_axioms) auto

lemma status_json: "json_ext_ok X \<Longrightarrow> json_codec (status_j X)"
  unfolding status_j_def json_ext_ok_def by (intro struct_json json_intros) auto

lemma network_json: "json_ext_ok X \<Longrightarrow> json_codec (network_j X)"
  unfolding network_j_def
  by (intro struct_json json_intros status_json spec_json.json_codec_axioms) (auto simp: json_ext_ok_def)

lemma network_list_json: "json_ext_ok X \<Longrightarrow> json_codec (network_list_j X)"
  unfolding network_list_j_def
  by (intro struct_json json_intros network_json) (auto simp: json_ext_ok_def)

section \<open>What is read back\<close>

text \<open>
  Nothing of the spec is lost but the difference between an empty list of tags and none; of
  the status, the texts are exact and the structs of other packages come back in their
  normal form.
\<close>

definition stored_tags :: "tag option slice \<Rightarrow> tag option slice" where
  "stored_tags ts = (if elems ts = [] then None else ts)"

definition stored_form :: "json_ext \<Rightarrow> GlobalNetwork \<Rightarrow> GlobalNetwork" where
  "stored_form X g =
     \<lparr>TypeMeta = m_norm (jx_TypeMeta X) (TypeMeta g), ObjectMeta = j_norm (jx_ObjectMeta X) (ObjectMeta g),
      Spec = \<lparr>Description = Description (Spec g), Tags = stored_tags (Tags (Spec g))\<rparr>,
      Status = \<lparr>ACKResourceMetadata = j_norm (ptr_j (jx_ResourceMetadata X)) (ACKResourceMetadata (Status g)),
        Conditions = map_option (map (j_norm (ptr_j (jx_Condition X)))) (Conditions (Status g)),
        CreatedAt = j_norm (ptr_j (jx_Time X)) (CreatedAt (Status g)),
        GlobalNetworkID = GlobalNetworkID (Status g), State = State (Status g)\<rparr>\<rparr>"

lemma tag_norm [simp]: "j_norm (ptr_j tag_j) t = t"
  by (rule ptr_norm_id) (simp_all add: tag_j_def)

lemma tags_norm [simp]: "map_option (map (j_norm (ptr_j tag_j))) ts = ts"
  by (cases ts) (simp_all add: map_idI)

lemma network_norm: "j_norm (network_j X) = stored_form X"
  by (rule ext)
    (simp add: network_j_def status_j_def spec_j_def spec_members_def stored_form_def stored_tags_def slice_norm)

lemma stored_tags_simps [simp]:
  "elems (stored_tags ts) = elems ts" "tags_wf (stored_tags ts) = tags_wf ts" "tag_map (stored_tags ts) = tag_map ts"
  "tags_normal (stored_tags ts) = tags_normal ts"
  by (auto simp: stored_tags_def tags_wf_def tag_map_def tags_normal_def)

lemma stored_form_sel [simp]:
  "Description (Spec (stored_form X g)) = Description (Spec g)"
  "Tags (Spec (stored_form X g)) = stored_tags (Tags (Spec g))"
  "GlobalNetworkID (Status (stored_form X g)) = GlobalNetworkID (Status g)"
  "State (Status (stored_form X g)) = State (Status g)"
  by (simp_all add: stored_form_def)

lemma stored_metadata:
  assumes "json_ext_ok X"
  shows "ACKResourceMetadata (Status (stored_form X g)) = ACKResourceMetadata (Status g)"
    and "finalizers_of (ObjectMeta (stored_form X g)) = finalizers_of (ObjectMeta g)"
    and "om_Name (ObjectMeta (stored_form X g)) = om_Name (ObjectMeta g)"
    and "om_Namespace (ObjectMeta (stored_form X g)) = om_Namespace (ObjectMeta g)"
  using assms by (simp_all add: stored_form_def json_ext_ok_def ptr_norm_id)

lemma stored_conditions:
  assumes "json_ext_ok X"
  shows "map (map_option cond_Type) (elems (Conditions (Status (stored_form X g)))) =
      map (map_option cond_Type) (elems (Conditions (Status g)))"
    and "map (map_option cond_Status) (elems (Conditions (Status (stored_form X g)))) =
      map (map_option cond_Status) (elems (Conditions (Status g)))"
  using assms by (cases "Conditions (Status g)"; auto simp: stored_form_def json_ext_ok_def ptr_j_def split: option.split)+

text \<open>The list of resources comes back element by element.\<close>

lemma list_json_roundtrip:
  assumes "json_ext_ok X"
  shows "\<exists>l'. j_dec (network_list_j X) (j_enc (network_list_j X) l) = Some l' \<and>
    list_Items l' = map_option (map (stored_form X)) (list_Items l)"
  using json_codec.dec_enc [OF network_list_json [OF assms], of l]
  by (simp add: network_list_j_def slice_norm network_norm)

lemma spec_ignores_others:
  "j_dec spec_j (JObj (filter (\<lambda>(k, j). k \<in> set (m_names spec_members)) kvs)) = j_dec spec_j (JObj kvs)"
  unfolding spec_j_def by (rule struct_ignores [OF spec_members.json_members_axioms])

section \<open>Properties\<close>

text \<open>
  C19: an object that is written to the API server and read again comes back. The resource is
  read without an error, with the description, the tags, the identifier and the state it had, the
  metadata of the ACK runtime and the types and statuses of the conditions; only an empty list of
  tags becomes nil. What was read does not change on a second trip, and the controller finds no
  difference between the object and what was read, so that storing an object does not lead to
  an update.
\<close>

theorem resource_json_roundtrip:
  assumes "json_ext_ok X" and "tags_lib_ok rt" and "compare_lib_ok rt" and "tags_wf (Tags (Spec g))"
  shows "\<exists>g' d. j_dec (network_j X) (j_enc (network_j X) g) = Some g' \<and>
    j_dec (network_j X) (j_enc (network_j X) g') = Some g' \<and>
    Description (Spec g') = Description (Spec g) \<and>
    Tags (Spec g') = (if elems (Tags (Spec g)) = [] then None else Tags (Spec g)) \<and>
    GlobalNetworkID (Status g') = GlobalNetworkID (Status g) \<and> State (Status g') = State (Status g) \<and>
    ACKResourceMetadata (Status g') = ACKResourceMetadata (Status g) \<and>
    map (map_option cond_Type) (elems (Conditions (Status g'))) =
      map (map_option cond_Type) (elems (Conditions (Status g))) \<and>
    map (map_option cond_Status) (elems (Conditions (Status g'))) =
      map (map_option cond_Status) (elems (Conditions (Status g))) \<and>
    newResourceDelta rt (Some \<lparr>ko = Some g\<rparr>) (Some \<lparr>ko = Some g'\<rparr>) = Ret d \<and>
    \<not> DifferentAt rt d ''Spec.Tags'' \<and> \<not> DifferentAt rt d ''Spec.Description'' \<and>
    \<not> DifferentExcept rt d [''Spec.Tags'']"
proof -
  note c = network_json [OF assms(1)]
  have trip: "j_dec (network_j X) (j_enc (network_j X) g) = Some (stored_form X g)"
    using json_codec.dec_enc [OF c] by (simp add: network_norm)
  obtain d where d: "newResourceDelta rt (Some \<lparr>ko = Some g\<rparr>) (Some \<lparr>ko = Some (stored_form X g)\<rparr>) = Ret d"
    using newResourceDelta_eq [OF assms(2,3), of g "stored_form X g"] assms(4) by simp
  note delta = delta_facts [OF assms(2,3) _ _ d]
  show ?thesis
    by (intro exI [of _ "stored_form X g"] exI [of _ d] conjI trip json_codec.second_trip [OF c trip] d
        stored_metadata(1) stored_conditions assms(1))
      (use assms(4) delta in simp_all, simp add: stored_tags_def)
qed

end
