(* ===== verification/Controller.thy ===== *)
theory Controller
  imports Fleet ResourceJson
begin

text \<open>
  Reconciliations of many objects at a time. A reconciliation has two stages, the reading and
  the writing (\<open>read_stage\<close>, \<open>write_stage\<close>); between them other objects are read and written, the
  object itself may be edited by its user, and the reconciliation may be given up. An object may be
  written to the API server as JSON and read again at any time. The finalizer
  (\<open>MarkManaged\<close>, \<open>IsManaged\<close>, \<open>MarkUnmanaged\<close>) keeps an object from going while its network exists.
  One object is reconciled by one worker at a time. An object is stored in the same step in which its
  network is written, unless the controller is stopped between the two (\<open>cluster_stop\<close>).
\<close>

section \<open>The steps\<close>

text \<open>
  A worker that has read the network of an object holds the object as it was then, the desired
  and the latest resource and the error of the reading.
\<close>

datatype 'e phase = Idle | Observed GlobalNetwork resource aws_resource "'e option"

record 'e work =
  stored :: GlobalNetwork
  phase :: "'e phase"

type_synonym 'e cluster = "nat \<Rightarrow> 'e work option"

abbreviation pointer :: "GlobalNetwork \<Rightarrow> resource option" where
  "pointer g \<equiv> Some \<lparr>ko = Some g\<rparr>"

inductive cluster_step ::
  "json_ext \<Rightarrow> ('e, 'd) ack_runtime \<Rightarrow> ('w, 'e) resourceManager \<Rightarrow> service_metadata \<Rightarrow> string list \<Rightarrow>
   'e cluster \<times> ('w, 'e) env \<Rightarrow> 'e cluster \<times> ('w, 'e) env \<Rightarrow> bool"
  for X rt rm md sys where
  appear: "objs t = None \<Longrightarrow> GlobalNetworkID (Status g) = None \<Longrightarrow> conds_wf (conds_of g) \<Longrightarrow>
    tags_wf (Tags (Spec g)) \<Longrightarrow>
    cluster_step X rt rm md sys (objs, w) (objs(t \<mapsto> \<lparr>stored = g, phase = Idle\<rparr>), w)"
| edit: "objs t = Some x \<Longrightarrow> tags_wf (Tags sp) \<Longrightarrow>
    cluster_step X rt rm md sys (objs, w) (objs(t \<mapsto> x\<lparr>stored := with_spec sp (stored x)\<rparr>), w)"
| touch: "objs t = Some x \<Longrightarrow> SetObjectMeta (pointer (stored x)) m = Ret \<lparr>ko = Some g\<rparr> \<Longrightarrow>
    (IsManaged (pointer (stored x)) = Ret True \<Longrightarrow> IsManaged (pointer g) = Ret True) \<Longrightarrow>
    cluster_step X rt rm md sys (objs, w) (objs(t \<mapsto> x\<lparr>stored := g\<rparr>), w)"
| patch: "objs t = Some x \<Longrightarrow> ReplaceConditions (pointer (stored x)) cs = Ret \<lparr>ko = Some g\<rparr> \<Longrightarrow>
    conds_wf (elems cs) \<Longrightarrow> cluster_step X rt rm md sys (objs, w) (objs(t \<mapsto> x\<lparr>stored := g\<rparr>), w)"
| persist: "objs t = Some x \<Longrightarrow> j_dec (network_j X) (j_enc (network_j X) (stored x)) = Some g \<Longrightarrow>
    cluster_step X rt rm md sys (objs, w) (objs(t \<mapsto> x\<lparr>stored := g\<rparr>), w)"
| mark: "objs t = Some x \<Longrightarrow> MarkManaged rt (pointer (stored x)) = Ret (GlobalNetworkPtr (Some g)) \<Longrightarrow>
    cluster_step X rt rm md sys (objs, w) (objs(t \<mapsto> x\<lparr>stored := g\<rparr>), w)"
| observe: "objs t = Some x \<Longrightarrow> phase x = Idle \<Longrightarrow> IsManaged (pointer (stored x)) = Ret True \<Longrightarrow>
    read_stage rt s rm md (object (stored x)) w = (Ret (r, latest, err), w') \<Longrightarrow>
    cluster_step X rt rm md sys (objs, w) (objs(t \<mapsto> x\<lparr>phase := Observed (stored x) r latest err\<rparr>), w')"
| give_up: "objs t = Some x \<Longrightarrow> cluster_step X rt rm md sys (objs, w) (objs(t \<mapsto> x\<lparr>phase := Idle\<rparr>), w)"
| written: "objs t = Some x \<Longrightarrow> phase x = Observed g0 r latest err \<Longrightarrow>
    write_stage rt s rm sys r latest err w = (Ret (Inr out), w') \<Longrightarrow>
    SetStatus (pointer (stored x)) out = Ret \<lparr>ko = Some g\<rparr> \<Longrightarrow>
    cluster_step X rt rm md sys (objs, w) (objs(t \<mapsto> \<lparr>stored = g, phase = Idle\<rparr>), w')"
| write_error: "objs t = Some x \<Longrightarrow> phase x = Observed g0 r latest err \<Longrightarrow>
    write_stage rt s rm sys r latest err w = (Ret (Inl e), w') \<Longrightarrow>
    cluster_step X rt rm md sys (objs, w) (objs(t \<mapsto> x\<lparr>phase := Idle\<rparr>), w')"
| delete: "objs t = Some x \<Longrightarrow> phase x = Observed g0 r latest None \<Longrightarrow>
    Delete rt rm latest w = (Ret (out, None), w') \<Longrightarrow>
    MarkUnmanaged rt (pointer (stored x)) = Ret (GlobalNetworkPtr (Some g)) \<Longrightarrow>
    cluster_step X rt rm md sys (objs, w) (objs(t \<mapsto> \<lparr>stored = g, phase = Idle\<rparr>), w')"
| delete_end: "objs t = Some x \<Longrightarrow> phase x = Observed g0 r latest None \<Longrightarrow>
    Delete rt rm latest w = (Ret (out, err), w') \<Longrightarrow>
    cluster_step X rt rm md sys (objs, w) (objs(t \<mapsto> x\<lparr>phase := Idle\<rparr>), w')"
| release: "objs t = Some x \<Longrightarrow> phase x = Observed g0 r latest (Some (NotFound rt)) \<Longrightarrow>
    MarkUnmanaged rt (pointer (stored x)) = Ret (GlobalNetworkPtr (Some g)) \<Longrightarrow>
    cluster_step X rt rm md sys (objs, w) (objs(t \<mapsto> \<lparr>stored = g, phase = Idle\<rparr>), w)"
| go: "objs t = Some x \<Longrightarrow> IsManaged (pointer (stored x)) = Ret False \<Longrightarrow>
    cluster_step X rt rm md sys (objs, w) (objs(t := None), w)"

text \<open>
  \<open>delete_end\<close> is a deletion that failed, or one after which the controller was stopped. A
  controller that is stopped after the writing leaves the object without the status it would have
  been given. A run counts these stops.
\<close>

inductive cluster_stop ::
  "('e, 'd) ack_runtime \<Rightarrow> ('w, 'e) resourceManager \<Rightarrow> string list \<Rightarrow>
   'e cluster \<times> ('w, 'e) env \<Rightarrow> 'e cluster \<times> ('w, 'e) env \<Rightarrow> bool"
  for rt rm sys where
  stop: "objs t = Some x \<Longrightarrow> phase x = Observed g0 r latest err \<Longrightarrow>
    write_stage rt s rm sys r latest err w = (Ret (Inr out), w') \<Longrightarrow>
    cluster_stop rt rm sys (objs, w) (objs(t \<mapsto> x\<lparr>phase := Idle\<rparr>), w')"

inductive cluster_run ::
  "json_ext \<Rightarrow> ('e, 'd) ack_runtime \<Rightarrow> ('w, 'e) resourceManager \<Rightarrow> service_metadata \<Rightarrow> string list \<Rightarrow>
   ('w, 'e) env \<Rightarrow> nat \<Rightarrow> 'e cluster \<times> ('w, 'e) env \<Rightarrow> bool"
  for X rt rm md sys w0 where
  run_empty: "cluster_run X rt rm md sys w0 0 ((\<lambda>_. None), w0)"
| run_step: "cluster_run X rt rm md sys w0 k cw \<Longrightarrow> cluster_step X rt rm md sys cw cw' \<Longrightarrow>
    cluster_run X rt rm md sys w0 k cw'"
| run_stop: "cluster_run X rt rm md sys w0 k cw \<Longrightarrow> cluster_stop rt rm sys cw cw' \<Longrightarrow>
    cluster_run X rt rm md sys w0 (Suc k) cw'"

section \<open>The invariant\<close>

definition managed :: "GlobalNetwork \<Rightarrow> bool" where
  "managed g \<longleftrightarrow> FinalizerString \<in> set (finalizers_of (ObjectMeta g))"

definition deleting :: "sdk_global_network \<Rightarrow> bool" where
  "deleting n \<longleftrightarrow> sdk_State n = ''DELETING''"

text \<open>
  What is true of one object and the reconciliation under way: an object without the finalizer is
  not being reconciled, and its network is gone or on the way to it; a worker that has read knows
  what it needs for the writing.
\<close>

definition phase_ok ::
  "'w networks \<Rightarrow> ('e, 'd) ack_runtime \<Rightarrow> ('w, 'e) resourceManager \<Rightarrow> service_metadata \<Rightarrow> string list \<Rightarrow>
   'w \<Rightarrow> GlobalNetwork \<Rightarrow> 'e phase \<Rightarrow> bool" where
  "phase_ok nets rt rm md sys s g p \<longleftrightarrow> (case p of
     Idle \<Rightarrow> managed g \<or> (\<forall>i n. GlobalNetworkID (Status g) = Some i \<longrightarrow> nets s i = Some n \<longrightarrow> deleting n)
   | Observed g0 r latest err \<Rightarrow> managed g \<and>
       (\<exists>d. r = \<lparr>ko = Some d\<rparr> \<and> GlobalNetworkID (Status d) = GlobalNetworkID (Status g) \<and>
          ready nets rt s d latest err \<and> Description (Spec d) = Description (Spec g0) \<and>
          (err = None \<or> err = Some (NotFound rt) \<longrightarrow>
             (\<forall>k. own_key sys k \<longrightarrow> tag_map (Tags (Spec d)) k = wanted_tags rt rm md g0 k))))"

definition work_ok ::
  "'w networks \<Rightarrow> ('e, 'd) ack_runtime \<Rightarrow> ('w, 'e) resourceManager \<Rightarrow> service_metadata \<Rightarrow> string list \<Rightarrow>
   'w \<Rightarrow> 'e work \<Rightarrow> bool" where
  "work_ok nets rt rm md sys s x \<longleftrightarrow> conds_wf (conds_of (stored x)) \<and> tags_wf (Tags (Spec (stored x))) \<and>
     (\<forall>i n. GlobalNetworkID (Status (stored x)) = Some i \<longrightarrow> nets s i = Some n \<longrightarrow> identifies (stored x) i n) \<and>
     phase_ok nets rt rm md sys s (stored x) (phase x)"

definition objects :: "'e cluster \<Rightarrow> fleet" where
  "objects objs t = map_option stored (objs t)"

definition cluster_inv ::
  "'w networks \<Rightarrow> ('w \<Rightarrow> string set) \<Rightarrow> ('e, 'd) ack_runtime \<Rightarrow> ('w, 'e) resourceManager \<Rightarrow> service_metadata \<Rightarrow>
   string list \<Rightarrow> (string \<rightharpoonup> sdk_global_network) \<Rightarrow> 'e cluster \<times> ('w, 'e) env \<Rightarrow> bool" where
  "cluster_inv nets used rt rm md sys N cw \<longleftrightarrow> (case cw of (objs, w) \<Rightarrow>
     (\<forall>t x. objs t = Some x \<longrightarrow> work_ok nets rt rm md sys (svc w) x) \<and>
     (\<forall>t u i. names (objects objs) t i \<longrightarrow> names (objects objs) u i \<longrightarrow> t = u) \<and>
     (\<forall>t i. names (objects objs) t i \<longrightarrow> i \<in> used (svc w) \<and> N i = None) \<and>
     (\<forall>j. N j \<noteq> None \<longrightarrow> alike (N j) (nets (svc w) j)) \<and>
     (\<forall>j n. nets (svc w) j = Some n \<longrightarrow> N j \<noteq> None \<or> (\<exists>t. names (objects objs) t j) \<or> deleting n))"

section \<open>What the others' steps leave true\<close>

lemma alike_SomeE:
  assumes "alike (Some n) b"
  obtains n' where "b = Some n'" and "bare n' = bare n" and "net_tags n' = net_tags n"
  using assms by (cases b) (auto simp: alike_def)

lemma alike_deleting: "alike (Some n) (Some n') \<Longrightarrow> deleting n' \<longleftrightarrow> deleting n"
  by (auto simp: alike_def deleting_def bare_def dest: arg_cong [where f = sdk_State])

lemma ready_other:
  assumes "ready nets rt s d latest err"
    and "\<And>i. GlobalNetworkID (Status d) = Some i \<Longrightarrow> alike (nets s i) (nets s' i)"
  shows "ready nets rt s' d latest err"
proof -
  have "\<exists>i n l. latest = object l \<and> nets s' i = Some n \<and> identifies d i n \<and> seen n l \<and>
      conds_wf (conds_of l) \<and> GlobalNetworkID (Status l) = Some i" if none: "err = None"
  proof -
    obtain i n l where l: "latest = object l" "nets s i = Some n" "identifies d i n" "seen n l"
      "conds_wf (conds_of l)" "GlobalNetworkID (Status l) = Some i"
      using assms(1) none by (auto simp: ready_def)
    then have alike: "alike (Some n) (nets s' i)" using assms(2) [of i] by (simp add: identifies_def)
    then obtain n' where n': "nets s' i = Some n'" "bare n' = bare n" "net_tags n' = net_tags n"
      by (rule alike_SomeE)
    have "sdk_Description n' = sdk_Description n"
      using arg_cong [OF n'(2), of sdk_Description] by (simp add: bare_def)
    then have "seen n' l" using l(4) n'(3) by (simp add: seen_def)
    moreover have "identifies d i n'" using alike_identifies [OF alike [unfolded n'(1)] l(3)] .
    ultimately show ?thesis using l n'(1) by blast
  qed
  moreover have "nets s' i = None" if "err = Some (NotFound rt)" "GlobalNetworkID (Status d) = Some i" for i
    using assms(1) assms(2) [OF that(2)] that by (simp add: ready_def)
  ultimately show ?thesis using assms(1) by (simp add: ready_def)
qed

lemma work_ok_other:
  assumes ok: "work_ok nets rt rm md sys s x"
    and alike: "\<And>i. GlobalNetworkID (Status (stored x)) = Some i \<Longrightarrow> alike (nets s i) (nets s' i)"
  shows "work_ok nets rt rm md sys s' x"
proof -
  have before: "\<exists>m. nets s i = Some m \<and> alike (Some m) (Some n)"
    if "GlobalNetworkID (Status (stored x)) = Some i" "nets s' i = Some n" for i n
    using alike [OF that(1)] that(2) by (cases "nets s i") auto
  have "identifies (stored x) i n" if "GlobalNetworkID (Status (stored x)) = Some i" "nets s' i = Some n" for i n
    using before [OF that] ok that(1) by (auto simp: work_ok_def intro: alike_identifies)
  moreover have "phase_ok nets rt rm md sys s' (stored x) (phase x)"
  proof (cases "phase x")
    case Idle
    have "deleting n" if "\<not> managed (stored x)" "GlobalNetworkID (Status (stored x)) = Some i" "nets s' i = Some n" for i n
      using before [OF that(2,3)] ok Idle that(1,2) by (auto simp: work_ok_def phase_ok_def alike_deleting)
    then show ?thesis by (auto simp: phase_ok_def Idle)
  next
    case (Observed g0 r latest err)
    have "ready nets rt s' d latest err"
      if "ready nets rt s d latest err" "GlobalNetworkID (Status d) = GlobalNetworkID (Status (stored x))" for d
      by (rule ready_other [OF that(1)]) (simp add: alike that(2))
    with ok Observed show ?thesis by (simp add: work_ok_def phase_ok_def) blast
  qed
  ultimately show ?thesis using ok by (simp add: work_ok_def)
qed

section \<open>A step of one object\<close>

text \<open>
  What a step of the object that names \<open>old\<close> before and \<open>new\<close> after it may do to the service: it
  changes no other network, makes at most the one the object names then, and that under a new
  identifier.
\<close>

definition own_step ::
  "'w networks \<Rightarrow> ('w \<Rightarrow> string set) \<Rightarrow> string option \<Rightarrow> string option \<Rightarrow> 'w \<Rightarrow> 'w \<Rightarrow> bool" where
  "own_step nets used old new s s' \<longleftrightarrow> names_kept nets used s s' \<and>
     (\<forall>j. old \<noteq> Some j \<longrightarrow> nets s j \<noteq> None \<longrightarrow> alike (nets s j) (nets s' j)) \<and>
     (\<forall>j. nets s' j \<noteq> None \<longrightarrow> new = Some j \<or> old \<noteq> Some j \<and> nets s j \<noteq> None) \<and>
     (new = old \<or> (\<exists>i. new = Some i \<and> nets s i = None \<and> nets s' i \<noteq> None))"

lemma own_stepD:
  assumes "own_step nets used old new s s'"
  shows "names_kept nets used s s'"
    and "old \<noteq> Some j \<Longrightarrow> nets s j \<noteq> None \<Longrightarrow> alike (nets s j) (nets s' j)"
    and "nets s' j \<noteq> None \<Longrightarrow> new = Some j \<or> old \<noteq> Some j \<and> nets s j \<noteq> None"
    and "new = old \<or> (\<exists>i. new = Some i \<and> nets s i = None \<and> nets s' i \<noteq> None)"
  using assms by (simp_all add: own_step_def)

lemma own_step_same:
  assumes "names_kept nets used s s'" and "nets s' = nets s"
  shows "own_step nets used old old s s'"
  using assms by (auto simp: own_step_def)

lemma names_objects:
  "names (objects (objs(t \<mapsto> x))) u i \<longleftrightarrow>
     (if u = t then GlobalNetworkID (Status (stored x)) = Some i else names (objects objs) u i)"
  "names (objects (objs(t := None))) u i \<longleftrightarrow> u \<noteq> t \<and> names (objects objs) u i"
  "objs t = Some x \<Longrightarrow> names (objects objs) t i \<longleftrightarrow> GlobalNetworkID (Status (stored x)) = Some i"
  by (auto simp: names_def objects_def)

lemma cluster_invD:
  assumes "cluster_inv nets used rt rm md sys N (objs, w)"
  shows "objs t = Some x \<Longrightarrow> work_ok nets rt rm md sys (svc w) x"
    and "names (objects objs) t i \<Longrightarrow> names (objects objs) u i \<Longrightarrow> t = u"
    and "names (objects objs) t i \<Longrightarrow> i \<in> used (svc w) \<and> N i = None"
    and "N j \<noteq> None \<Longrightarrow> alike (N j) (nets (svc w) j)"
    and "nets (svc w) j = Some n \<Longrightarrow> N j \<noteq> None \<or> (\<exists>t. names (objects objs) t j) \<or> deleting n"
  using assms unfolding cluster_inv_def by blast+

text \<open>Such a step keeps the names apart.\<close>

lemma own_step_names:
  assumes ids: "ids_unique client nets used" and inv: "cluster_inv nets used rt rm md sys N (objs, w)"
    and t: "objs t = Some x" and own: "own_step nets used (GlobalNetworkID (Status (stored x))) new (svc w) s'"
  shows "names (objects objs) u i \<Longrightarrow> new = Some i \<Longrightarrow> u = t"
    and "new = Some i \<Longrightarrow> i \<in> used s' \<and> N i = None"
    and "names (objects objs) u i \<Longrightarrow> u \<noteq> t \<Longrightarrow> alike (nets (svc w) i) (nets s' i)"
proof -
  note I = cluster_invD [OF inv] and O = own_stepD [OF own]
  note mine = names_objects(3) [of objs t, OF t]
  have fresh: "i \<notin> used (svc w)" if "nets (svc w) i = None" "nets s' i \<noteq> None" for i
    using O(1) that by (simp add: names_kept_def)
  have new: "GlobalNetworkID (Status (stored x)) = Some i \<or> i \<notin> used (svc w) \<and> nets (svc w) i = None \<and> nets s' i \<noteq> None"
    if "new = Some i" for i using O(4) that fresh by auto
  show "u = t" if "names (objects objs) u i" "new = Some i"
    using new [OF that(2)] I(2,3) that(1) mine by blast
  show "i \<in> used s' \<and> N i = None" if "new = Some i"
    using new [OF that]
  proof
    assume "GlobalNetworkID (Status (stored x)) = Some i"
    with I(3) mine O(1) show ?thesis by (auto simp: names_kept_def)
  next
    assume i: "i \<notin> used (svc w) \<and> nets (svc w) i = None \<and> nets s' i \<noteq> None"
    then have "i \<in> used s'" using ids by (simp add: ids_unique_def)
    with I(4) [of i] i show ?thesis by (cases "N i") auto
  qed
  show "alike (nets (svc w) i) (nets s' i)" if u: "names (objects objs) u i" "u \<noteq> t"
  proof (cases "nets (svc w) i")
    case None
    then have "nets s' i = None" using fresh [of i] I(3) [OF u(1)] by blast
    with None show ?thesis by simp
  next
    case (Some n)
    have "GlobalNetworkID (Status (stored x)) \<noteq> Some i" using I(2) [OF u(1)] u(2) mine by blast
    with Some O(2) [of i] show ?thesis by simp
  qed
qed

lemma cluster_own:
  assumes ids: "ids_unique client nets used" and inv: "cluster_inv nets used rt rm md sys N (objs, w)"
    and t: "objs t = Some x"
    and own: "own_step nets used (GlobalNetworkID (Status (stored x))) (GlobalNetworkID (Status (stored x'))) (svc w) (svc w')"
    and ok: "work_ok nets rt rm md sys (svc w') x'"
  shows "cluster_inv nets used rt rm md sys N (objs(t \<mapsto> x'), w')"
proof -
  note I = cluster_invD [OF inv] and O = own_stepD [OF own] and names = own_step_names [OF ids inv t own]
  note mine = names_objects(3) [of objs t, OF t]
  have work: "work_ok nets rt rm md sys (svc w') y" if "u \<noteq> t" "objs u = Some y" for u y
    by (rule work_ok_other [OF I(1) [OF that(2)] names(3) [OF _ that(1)]])
      (use that in \<open>simp add: names_def objects_def\<close>)
  have old: "alike (N j) (nets (svc w') j)" if "N j \<noteq> None" for j
  proof -
    have "\<not> names (objects objs) t j" using I(3) [of t j] that by auto
    then have "GlobalNetworkID (Status (stored x)) \<noteq> Some j" using mine by blast
    moreover have "nets (svc w) j \<noteq> None" using I(4) [OF that] that by (cases "nets (svc w) j") auto
    ultimately show ?thesis using O(2) [of j] I(4) [OF that] by (blast intro: alike_trans)
  qed
  have all: "N j \<noteq> None \<or> (\<exists>u. names (objects (objs(t \<mapsto> x'))) u j) \<or> deleting n" if n: "nets (svc w') j = Some n" for j n
  proof (cases "GlobalNetworkID (Status (stored x')) = Some j")
    case True
    then show ?thesis by (auto simp: names_objects)
  next
    case False
    with O(3) [of j] n obtain m where j: "GlobalNetworkID (Status (stored x)) \<noteq> Some j" "nets (svc w) j = Some m" by auto
    with O(2) [of j] n have "deleting m \<longleftrightarrow> deleting n" by (simp add: alike_deleting)
    moreover have "\<exists>u. names (objects (objs(t \<mapsto> x'))) u j" if "names (objects objs) u j" for u
      using that j(1) mine by (cases "u = t") (auto simp: names_objects)
    ultimately show ?thesis using I(5) [OF j(2)] by blast
  qed
  have "u = v" if "names (objects (objs(t \<mapsto> x'))) u i" "names (objects (objs(t \<mapsto> x'))) v i" for u v i
    using that names(1) I(2) by (auto simp: names_objects split: if_splits)
  moreover have "i \<in> used (svc w') \<and> N i = None" if "names (objects (objs(t \<mapsto> x'))) u i" for u i
    using that names(2) I(3) O(1) by (auto simp: names_objects names_kept_def split: if_splits)
  ultimately show ?thesis using work old all ok by (auto simp: cluster_inv_def)
qed

end
