(* ===== verification/Concurrency.thy ===== *)
theory Concurrency
  imports Controller
begin

text \<open>
  The invariant of \<open>Controller\<close> is kept by every step, from the laws of the two stages, of the
  deletion and of the finalizer; and what it gives for the account and for a worker that
  has read and is about to write.
\<close>

section \<open>Networks that are lost\<close>

text \<open>\<open>N'\<close> has the networks \<open>N\<close>; under the condition \<open>P\<close> there are at most \<open>c\<close> more in it.\<close>

definition lost_within :: "bool \<Rightarrow> (string \<rightharpoonup> sdk_global_network) \<Rightarrow> (string \<rightharpoonup> sdk_global_network) \<Rightarrow> nat \<Rightarrow> bool" where
  "lost_within P N N' c \<longleftrightarrow> N \<subseteq>\<^sub>m N' \<and> (P \<longrightarrow> finite (dom N' - dom N) \<and> card (dom N' - dom N) \<le> c)"

abbreviation "spared client nets r \<equiv> lost_within (create_leaves client nets r)"

lemma lost_within_refl [simp]: "lost_within P N N c"
  by (simp add: lost_within_def)

lemma lost_within_trans:
  assumes "lost_within P N M a" and "lost_within P M K b" and "a + b \<le> c"
  shows "lost_within P N K c"
proof -
  have "finite (dom K - dom N) \<and> card (dom K - dom N) \<le> c" if P
  proof -
    have sub: "dom K - dom N \<subseteq> (dom M - dom N) \<union> (dom K - dom M)" by blast
    have fin: "finite (dom M - dom N)" "finite (dom K - dom M)" using assms that by (simp_all add: lost_within_def)
    have "card (dom K - dom N) \<le> card (dom M - dom N) + card (dom K - dom M)"
      using card_mono [OF _ sub] fin card_Un_le [of "dom M - dom N" "dom K - dom M"] by simp
    moreover have "finite (dom K - dom N)" using finite_subset [OF sub] fin by simp
    ultimately show ?thesis using assms that by (auto simp: lost_within_def)
  qed
  then show ?thesis using assms by (auto simp: lost_within_def intro: map_le_trans)
qed

text \<open>The networks that have appeared since \<open>s\<close>, none of which \<open>N\<close> has.\<close>

definition appeared :: "'w networks \<Rightarrow> 'w \<Rightarrow> 'w \<Rightarrow> string \<rightharpoonup> sdk_global_network" where
  "appeared nets s s' j = (if nets s j = None then nets s' j else None)"

lemma lost_appeared:
  assumes "\<And>j. N j \<noteq> None \<Longrightarrow> nets s j \<noteq> None"
    and "P \<Longrightarrow> finite (dom (nets s') - dom (nets s))" and "P \<Longrightarrow> card (dom (nets s') - dom (nets s)) \<le> c"
  shows "lost_within P N (N ++ appeared nets s s') c"
proof -
  have none: "appeared nets s s' j = None" if "j \<in> dom N" for j
    using assms(1) [of j] that by (auto simp: appeared_def)
  have "dom (N ++ appeared nets s s') - dom N = dom (nets s') - dom (nets s)"
    using assms(1) by (auto simp: appeared_def split: if_splits)
  moreover have "N \<subseteq>\<^sub>m N ++ appeared nets s s'"
    using none by (simp add: map_le_def map_add_def)
  ultimately show ?thesis using assms(2,3) by (simp add: lost_within_def)
qed

text \<open>A creation that failed loses at most what it may leave, and is counted.\<close>

lemma create_failed_counts:
  assumes left: "create_leaves (sdkapi rm) nets r" and run: "Create rt rm res w = (Ret (out, Some e), w')"
  shows "finite (dom (nets (svc w')) - dom (nets (svc w)))"
    and "card (dom (nets (svc w')) - dom (nets (svc w))) \<le> r * (failed_creations w' - failed_creations w)"
proof -
  obtain inp resp e' where call: "CreateGlobalNetwork (sdkapi rm) inp (svc w) = ((resp, Some e'), svc w')"
    and rec: "api_calls w' = api_calls w @ [(''CREATE'', ''CreateGlobalNetwork'', Some e')]"
    by (rule create_failed_call [OF run])
  have "failed_creations w' - failed_creations w = 1" by (simp add: failed_creations_def rec)
  then show "finite (dom (nets (svc w')) - dom (nets (svc w)))"
    "card (dom (nets (svc w')) - dom (nets (svc w))) \<le> r * (failed_creations w' - failed_creations w)"
    using left call unfolding create_leaves_def by simp_all
qed

section \<open>The stages as steps of one object\<close>

lemma write_keeps_names:
  assumes "ids_unique (sdkapi rm) nets used"
  shows "names_kept nets used (svc w) (svc (snd (write_stage rt s rm sys r latest err w)))"
  by (rule naming.write_related) (use assms in \<open>simp_all add: ids_unique_def\<close>)

lemma read_own_step:
  assumes loc: "calls_local (sdkapi rm) nets tagging" and ids: "ids_unique (sdkapi rm) nets used"
    and run: "read_stage rt s rm md res w = (m, w')"
  shows "own_step nets used old old (svc w) (svc w')"
proof (rule own_step_same)
  have "names_kept nets used (svc w) (svc (snd (read_stage rt s rm md res w)))"
    by (rule naming.read_related) (use ids in \<open>simp add: ids_unique_def\<close>)
  then show "names_kept nets used (svc w) (svc w')" by (simp add: run)
  show "nets (svc w') = nets (svc w)" using read_stage_keeps_networks [OF loc, of rt s md res w] run by simp
qed

text \<open>After the reading the worker knows what it needs.\<close>

lemma read_phase:
  assumes ok: "service_ok rt (sdkapi rm) nets tagging"
    and lib: "tags_lib_ok rt" "errors_lib_ok rt" "condition_types_ok rt"
    and g: "conds_wf (conds_of g)" "tags_wf (Tags (Spec g))" "managed g"
    and named: "\<And>i n. GlobalNetworkID (Status g) = Some i \<Longrightarrow> nets (svc w) i = Some n \<Longrightarrow> identifies g i n"
    and run: "read_stage rt s rm md (object g) w = (Ret (r, latest, err), w')"
  shows "phase_ok nets rt rm md sys (svc w') g (Observed g r latest err)"
proof (rule read_stage_cases [OF ok lib g(1,2), where s = s and md = md and w = w and sys = sys])
  fix ts out u
  assume "read_stage rt s rm md (object g) w = (Ret (\<lparr>ko = Some (set_tags ts g)\<rparr>, out, Some (NotFound rt)), u)"
    "nets (svc u) = nets (svc w)" "\<And>i. GlobalNetworkID (Status g) = Some i \<Longrightarrow> nets (svc w) i = None"
    "tags_normal ts" "tag_map ts = wanted_tags rt rm md g"
  with run g show ?thesis by (auto simp: phase_ok_def ready_def)
next
  fix r' out e u
  assume "read_stage rt s rm md (object g) w = (Ret (r', out, Some e), u)" "e \<noteq> NotFound rt"
  with run g(3) read_stage_argument [OF run] show ?thesis by (auto simp: phase_ok_def ready_def)
next
  fix i n ts l u
  assume read: "read_stage rt s rm md (object g) w = (Ret (\<lparr>ko = Some (set_tags ts g)\<rparr>, object l, None), u)"
    and i: "nets (svc u) = nets (svc w)" "GlobalNetworkID (Status g) = Some i" "nets (svc w) i = Some n"
    and l: "reflects n l" "conds_wf (conds_of l)"
    and ts: "tags_normal ts" "\<And>k. own_key sys k \<Longrightarrow> tag_map ts k = wanted_tags rt rm md g k"
  have "ready nets rt (svc u) (set_tags ts g) (object l) None"
    using i l ts(1) named [OF i(2,3)] reflects_named [OF ok i(3) l(1)]
    by (auto simp: ready_def tags_normal_wf reflects_seen)
  with run read ts(2) g(3) show ?thesis by (auto simp: phase_ok_def)
qed

lemma update_own_step:
  assumes ok: "service_ok rt (sdkapi rm) nets tagging" and loc: "calls_local (sdkapi rm) nets tagging"
    and i: "GlobalNetworkID (Status d) = Some i" and n: "nets (svc w) i = Some n" "identifies d i n"
    and w': "w' = snd (update_stage rt s rm sys \<lparr>ko = Some d\<rparr> latest w)"
    and kept: "names_kept nets used (svc w) (svc w')"
  shows "own_step nets used (Some i) (Some i) (svc w) (svc w')"
    and "arn_at nets (svc w') = arn_at nets (svc w)"
proof -
  obtain ts where d: "set_tags ts d = d" using set_tags_same [of d] by metis
  have "w' = snd (update_stage rt s rm sys \<lparr>ko = Some (set_tags ts d)\<rparr> latest w)" by (simp add: d w')
  note own = update_stage_own(1) [OF ok loc i n this]
  have "nets (svc w) j \<noteq> None" if "j \<noteq> i" "nets (svc w') j \<noteq> None" for j
    using own [OF that(1)] that(2) by (cases "nets (svc w) j") auto
  with own kept show "own_step nets used (Some i) (Some i) (svc w) (svc w')"
    by (auto simp: own_step_def)
  show "arn_at nets (svc w') = arn_at nets (svc w)"
    using update_stage_keeps_arns [OF ok loc] by (simp add: w')
qed

text \<open>The writing, from what the worker knows: a step of its own, which fails or brings the network about.\<close>

lemma write_own_step:
  assumes ok: "service_ok rt (sdkapi rm) nets tagging" and loc: "calls_local (sdkapi rm) nets tagging"
    and ids: "ids_unique (sdkapi rm) nets used"
    and lib: "tags_lib_ok rt" "compare_lib_ok rt" "errors_lib_ok rt" "condition_types_ok rt"
    and ready: "ready nets rt (svc w) d latest err"
  obtains (failed) e w' where "write_stage rt s rm sys \<lparr>ko = Some d\<rparr> latest err w = (Ret (Inl e), w')"
      and "own_step nets used (GlobalNetworkID (Status d)) (GlobalNetworkID (Status d)) (svc w) (svc w')"
      and "arn_at nets (svc w') = arn_at nets (svc w)"
  | (unmade) g' e w' where "write_stage rt s rm sys \<lparr>ko = Some d\<rparr> latest err w = (Ret (Inl e), w')"
      and "Create rt rm (object d) w = (Ret (object g', Some e), w')"
      and "nets (svc w) \<subseteq>\<^sub>m nets (svc w')"
  | (written) g' i n w' where
      "write_stage rt s rm sys \<lparr>ko = Some d\<rparr> latest err w = (Ret (Inr (object g')), w')"
      and "own_step nets used (GlobalNetworkID (Status d)) (Some i) (svc w) (svc w')"
      and "nets (svc w') i = Some n" and "identifies g' i n"
      and "\<And>k. own_key sys k \<Longrightarrow> net_tags n k = tag_map (Tags (Spec d)) k"
      and "Description (Spec d) \<noteq> None \<Longrightarrow> sdk_Description n = Description (Spec d)"
proof -
  have kept: "names_kept nets used (svc w) (svc w')"
    if "write_stage rt s rm sys \<lparr>ko = Some d\<rparr> latest err w = (m, w')" for m w'
    using write_keeps_names [OF ids, of w rt s sys "\<lparr>ko = Some d\<rparr>" latest err] that by simp
  show ?thesis
  proof (rule write_law [OF ok loc lib ready, of s sys])
    fix e w'
    assume run: "write_stage rt s rm sys \<lparr>ko = Some d\<rparr> latest err w = (Ret (Inl e), w')"
      and same: "nets (svc w') = nets (svc w)"
    from failed [OF run own_step_same [OF kept [OF run] same]] same show ?thesis
      by (simp add: arn_at_def fun_eq_iff)
  next
    fix g' e w'
    assume run: "write_stage rt s rm sys \<lparr>ko = Some d\<rparr> latest err w = (Ret (Inl e), w')"
      and made: "Create rt rm (object d) w = (Ret (object g', Some e), w')"
    show ?thesis
      by (rule unmade [OF run made]) (use create_keeps_networks [OF loc, of w rt "object d"] made in simp)
  next
    fix i n e w'
    assume run: "write_stage rt s rm sys \<lparr>ko = Some d\<rparr> latest err w = (Ret (Inl e), w')"
      and i: "GlobalNetworkID (Status d) = Some i" "nets (svc w) i = Some n" "identifies d i n"
      and w': "w' = snd (update_stage rt s rm sys \<lparr>ko = Some d\<rparr> latest w)"
    from update_own_step [OF ok loc i w' kept [OF run]] run i(1) show ?thesis
      by (intro failed [where e = e and w' = w']) simp_all
  next
    fix i n g' w'
    assume run: "write_stage rt s rm sys \<lparr>ko = Some d\<rparr> latest err w = (Ret (Inr (object g')), w')"
      and new: "\<And>i. GlobalNetworkID (Status d) = Some i \<Longrightarrow> nets (svc w) i = None"
        "nets (svc w) i = None" "nets (svc w') = (nets (svc w))(i \<mapsto> n)" "identifies g' i n"
        "sdk_Description n = Description (Spec d)" "net_tags n = tag_map (Tags (Spec d))"
    have "own_step nets used (GlobalNetworkID (Status d)) (Some i) (svc w) (svc w')"
      using new(1-3) kept [OF run] by (auto simp: own_step_def)
    with run new show ?thesis by (intro written [where g' = g' and i = i and n = n and w' = w']) simp_all
  next
    fix i n n' g' w'
    assume run: "write_stage rt s rm sys \<lparr>ko = Some d\<rparr> latest err w = (Ret (Inr (object g')), w')"
      and i: "GlobalNetworkID (Status d) = Some i" "nets (svc w) i = Some n" "identifies d i n"
      and w': "w' = snd (update_stage rt s rm sys \<lparr>ko = Some d\<rparr> latest w)"
      and n': "nets (svc w') i = Some n'" "identifies g' i n'"
        "\<And>k. own_key sys k \<Longrightarrow> net_tags n' k = tag_map (Tags (Spec d)) k"
        "Description (Spec d) \<noteq> None \<Longrightarrow> sdk_Description n' = Description (Spec d)"
    from update_own_step(1) [OF ok loc i w' kept [OF run]] run i(1) n' show ?thesis
      by (intro written [where g' = g' and i = i and n = n' and w' = w']) simp_all
  qed
qed

section \<open>The deletion and the finalizer\<close>

lemma delete_own_step:
  assumes ok: "service_ok rt (sdkapi rm) nets tagging" and loc: "calls_local (sdkapi rm) nets tagging"
    and ids: "ids_unique (sdkapi rm) nets used"
    and i: "GlobalNetworkID (Status l) = Some i" and run: "Delete rt rm (object l) w = (m, w')"
  shows "own_step nets used (Some i) (Some i) (svc w) (svc w')"
    and "nets (svc w') i = Some n \<Longrightarrow> arn_at nets (svc w) i = Some (sdk_GlobalNetworkArn n)"
proof -
  have w': "svc w' = snd (DeleteGlobalNetwork (sdkapi rm) \<lparr>delete_GlobalNetworkId = Some i\<rparr> (svc w))"
    using run i by (auto simp: Delete_def sdkDelete_def newDeleteRequestPayload_def Let_def case_prod_unfold)
  have "names_kept nets used (svc w) (svc w')"
    using delete_keeps_names [OF ids, of w rt "object l"] run by simp
  moreover have "nets (svc w') j = nets (svc w) j" if "j \<noteq> i" for j
    using delete_keeps_others [OF loc i that, of rt w] run by simp
  ultimately show "own_step nets used (Some i) (Some i) (svc w) (svc w')" by (auto simp: own_step_def)
  show "arn_at nets (svc w) i = Some (sdk_GlobalNetworkArn n)" if "nets (svc w') i = Some n"
    using loc that unfolding calls_local_def w' by (simp add: arn_at_def)
qed

lemma delete_success:
  assumes ok: "service_ok rt (sdkapi rm) nets tagging"
    and lib: "errors_lib_ok rt" "condition_types_ok rt" and l: "conds_wf (conds_of l)"
    and i: "GlobalNetworkID (Status l) = Some i" and run: "Delete rt rm (object l) w = (Ret (out, None), w')"
    and n: "nets (svc w') i = Some n"
  shows "deleting n"
proof -
  obtain err s where call: "DeleteGlobalNetwork (sdkapi rm) \<lparr>delete_GlobalNetworkId = Some i\<rparr> (svc w) = (err, s)"
    by fastforce
  have fin: "finish rt rm \<lparr>ko = Some l\<rparr> (None, err) = Ret (out, None)" and w': "svc w' = s"
    using run sdkDelete_eq [of rm l w, unfolded i, OF call] by (auto simp: Delete_def)
  have "err = None"
  proof (rule ccontr)
    assume "err \<noteq> None"
    then obtain e where "err = Some e" by blast
    with fin have fin: "finish rt rm \<lparr>ko = Some l\<rparr> (None, Some e) = Ret (out, None)" by simp
    show False by (rule finish_failure [OF lib l, of rm e]) (simp add: fin)
  qed
  moreover have "delete_ok (sdkapi rm) nets" using ok by (simp add: service_ok_def)
  ultimately have "nets s i = None \<or> (\<exists>n. nets s i = Some n \<and> sdk_State n = ''DELETING'')"
    using call unfolding delete_ok_def state_string.simps by blast
  with n w' show ?thesis by (simp add: deleting_def)
qed

lemma IsManaged_pointer: "IsManaged (pointer g) = Ret b \<longleftrightarrow> managed g = b"
  by (simp add: IsManaged_eq managed_def)

lemma marks:
  assumes "finalizer_lib_ok rt"
  shows "MarkManaged rt (pointer g) = Ret (GlobalNetworkPtr (Some g')) \<Longrightarrow>
      Spec g' = Spec g \<and> Status g' = Status g \<and> managed g'"
    and "MarkUnmanaged rt (pointer g) = Ret (GlobalNetworkPtr (Some g')) \<Longrightarrow> Spec g' = Spec g \<and> Status g' = Status g"
proof -
  obtain fs where "AddFinalizer rt (ObjectMeta g) FinalizerString = (ObjectMeta g)\<lparr>Finalizers := fs\<rparr>"
    "FinalizerString \<in> set (elems fs)"
    using assms unfolding finalizer_lib_ok_def by blast
  then show "MarkManaged rt (pointer g) = Ret (GlobalNetworkPtr (Some g')) \<Longrightarrow>
      Spec g' = Spec g \<and> Status g' = Status g \<and> managed g'"
    by (auto simp: MarkManaged_def managed_def finalizers_of_def)
qed (auto simp: MarkUnmanaged_def)

lemma status_set: "SetStatus (pointer g) (object d) = Ret \<lparr>ko = Some g'\<rparr> \<longleftrightarrow> g' = g\<lparr>Status := Status d\<rparr>"
  by (auto simp: SetStatus_def concreteResource_def)

section \<open>The invariant is kept\<close>

lemma work_ok_stored:
  assumes "work_ok nets rt rm md sys s x" and "conds_wf (conds_of g)" and "tags_wf (Tags (Spec g))"
    and "GlobalNetworkID (Status g) = GlobalNetworkID (Status (stored x))"
    and "ACKResourceMetadata (Status g) = ACKResourceMetadata (Status (stored x))"
    and "managed (stored x) \<Longrightarrow> managed g"
  shows "work_ok nets rt rm md sys s (x\<lparr>stored := g\<rparr>)"
  using assms by (auto simp: work_ok_def phase_ok_def identifies_def metadata_of_def split: phase.splits)

lemma work_ok_idle: "work_ok nets rt rm md sys s x \<Longrightarrow> work_ok nets rt rm md sys s (x\<lparr>phase := Idle\<rparr>)"
  by (auto simp: work_ok_def phase_ok_def split: phase.splits)

lemma work_ok_arns:
  assumes "work_ok nets rt rm md sys s x" and "managed (stored x)"
    and "\<And>i n. GlobalNetworkID (Status (stored x)) = Some i \<Longrightarrow> nets s' i = Some n \<Longrightarrow>
      arn_at nets s i = Some (sdk_GlobalNetworkArn n)"
  shows "work_ok nets rt rm md sys s' (x\<lparr>phase := Idle\<rparr>)"
  using assms by (fastforce simp: work_ok_def phase_ok_def arn_at_def identifies_def)

lemma conds_wf_types:
  assumes "map (map_option cond_Type) cs = map (map_option cond_Type) cs'"
  shows "conds_wf cs = conds_wf cs'"
proof -
  have "conds_wf cs \<longleftrightarrow> None \<notin> set (map (map_option cond_Type) cs) \<and>
      distinct (map the (map (map_option cond_Type) cs))" for cs
  proof (cases "None \<in> set cs")
    case False
    then have "the (map_option cond_Type c) = cond_Type (the c)" if "c \<in> set cs" for c using that by (cases c) auto
    then have "map the (map (map_option cond_Type) cs) = map (\<lambda>c. cond_Type (the c)) cs" by simp
    moreover have "None \<notin> set (map (map_option cond_Type) cs)" using False by auto
    ultimately show ?thesis using False by (simp only: conds_wf_def)
  qed (force simp: conds_wf_def)
  with assms show ?thesis by metis
qed

lemma work_ok_persist:
  assumes X: "json_ext_ok X" and W: "work_ok nets rt rm md sys s x"
    and g: "j_dec (network_j X) (j_enc (network_j X) (stored x)) = Some g"
  shows "work_ok nets rt rm md sys s (x\<lparr>stored := g\<rparr>)"
    and "GlobalNetworkID (Status g) = GlobalNetworkID (Status (stored x))"
proof -
  have g: "g = stored_form X (stored x)"
    using json_codec.dec_enc [OF network_json [OF X], of "stored x"] g by (simp add: network_norm)
  note kept = stored_metadata [OF X, of "stored x", folded g] conds_wf_types [OF stored_conditions(1) [OF X, of "stored x", folded g]]
  show "GlobalNetworkID (Status g) = GlobalNetworkID (Status (stored x))" by (simp add: g)
  moreover have "tags_wf (Tags (Spec g)) \<longleftrightarrow> tags_wf (Tags (Spec (stored x)))" by (simp add: g)
  ultimately show "work_ok nets rt rm md sys s (x\<lparr>stored := g\<rparr>)"
    using W kept by (intro work_ok_stored [OF W]) (simp_all add: work_ok_def managed_def)
qed

lemma cluster_same:
  assumes ids: "ids_unique client nets used" and inv: "cluster_inv nets used rt rm md sys N (objs, w)"
    and t: "objs t = Some x" and id: "GlobalNetworkID (Status (stored x')) = GlobalNetworkID (Status (stored x))"
    and ok: "work_ok nets rt rm md sys (svc w) x'"
  shows "cluster_inv nets used rt rm md sys N (objs(t \<mapsto> x'), w)"
  by (rule cluster_own [OF ids inv t _ ok]) (simp add: id own_step_same naming.refl)

lemma cluster_appear:
  assumes inv: "cluster_inv nets used rt rm md sys N (objs, w)" and t: "objs t = None"
    and g: "GlobalNetworkID (Status g) = None" "conds_wf (conds_of g)" "tags_wf (Tags (Spec g))"
  shows "cluster_inv nets used rt rm md sys N (objs(t \<mapsto> \<lparr>stored = g, phase = Idle\<rparr>), w)"
proof -
  have "names (objects (objs(t \<mapsto> \<lparr>stored = g, phase = Idle\<rparr>))) u i = names (objects objs) u i" for u i
    using t g(1) by (auto simp: names_def objects_def)
  moreover have "work_ok nets rt rm md sys (svc w) \<lparr>stored = g, phase = Idle\<rparr>"
    using g by (simp add: work_ok_def phase_ok_def)
  ultimately show ?thesis using inv by (simp add: cluster_inv_def)
qed

lemma cluster_go:
  assumes inv: "cluster_inv nets used rt rm md sys N (objs, w)" and t: "objs t = Some x"
    and gone: "\<not> managed (stored x)"
  shows "cluster_inv nets used rt rm md sys N (objs(t := None), w)"
proof -
  note I = cluster_invD [OF inv] and mine = names_objects(3) [of objs t, OF t]
  have mine_deleting: "deleting n" if "names (objects objs) t j" "nets (svc w) j = Some n" for j n
    using I(1) [OF t] gone that mine by (auto simp: work_ok_def phase_ok_def split: phase.splits)
  have "N j \<noteq> None \<or> (\<exists>u. names (objects (objs(t := None))) u j) \<or> deleting n" if "nets (svc w) j = Some n" for j n
    using I(5) [OF that] mine_deleting [OF _ that] unfolding names_objects(2) by metis
  then show ?thesis using inv by (auto simp: cluster_inv_def names_objects(2))
qed

lemma observedE:
  assumes "work_ok nets rt rm md sys s x" and "phase x = Observed g0 r latest err"
  obtains d where "r = \<lparr>ko = Some d\<rparr>" and "GlobalNetworkID (Status d) = GlobalNetworkID (Status (stored x))"
    and "ready nets rt s d latest err" and "Description (Spec d) = Description (Spec g0)"
    and "\<And>k. err = None \<or> err = Some (NotFound rt) \<Longrightarrow> own_key sys k \<Longrightarrow>
      tag_map (Tags (Spec d)) k = wanted_tags rt rm md g0 k"
    and "managed (stored x)"
  using assms by (auto simp: work_ok_def phase_ok_def)

text \<open>
  Networks that a step adds and no object names, those of a creation whose answer was lost or of a writing
  after which the controller was stopped: from then on they are among those no object names.
\<close>

lemma cluster_lost:
  assumes ids: "ids_unique client nets used" and inv: "cluster_inv nets used rt rm md sys N (objs, w)"
    and t: "objs t = Some x" and kept: "names_kept nets used (svc w) (svc w')"
    and more: "nets (svc w) \<subseteq>\<^sub>m nets (svc w')"
  shows "cluster_inv nets used rt rm md sys (N ++ appeared nets (svc w) (svc w')) (objs(t \<mapsto> x\<lparr>phase := Idle\<rparr>), w')"
proof -
  note I = cluster_invD [OF inv]
  let ?N = "N ++ appeared nets (svc w) (svc w')"
  have same: "names (objects (objs(t \<mapsto> x\<lparr>phase := Idle\<rparr>))) u j = names (objects objs) u j" for u j
    using t by (auto simp: names_def objects_def)
  have other: "nets (svc w') j = nets (svc w) j" if "names (objects objs) u j" for u j
    using names_keptD(2) [OF kept, of j] I(3) [OF that] map_le_at [OF more, of j] by (cases "nets (svc w) j") auto
  have all_ok: "work_ok nets rt rm md sys (svc w') y" if "objs u = Some y" for u y
    by (rule work_ok_other [OF I(1) [OF that]]) (simp add: other [of u] names_objects(3) [of objs u, OF that])
  then have work: "work_ok nets rt rm md sys (svc w') y" if "(objs(t \<mapsto> x\<lparr>phase := Idle\<rparr>)) u = Some y" for u y
    using that all_ok work_ok_idle [OF all_ok [OF t]] by (auto split: if_splits)
  have old: "alike (?N j) (nets (svc w') j)" if "?N j \<noteq> None" for j
    using I(4) [of j] that map_le_at [OF more, of j]
    by (cases "nets (svc w) j"; cases "nets (svc w') j") (auto simp: appeared_def map_add_def)
  have apart: "j \<in> used (svc w') \<and> ?N j = None" if "names (objects objs) u j" for u j
    using I(3) [OF that] names_keptD [OF kept, of j] by (simp add: appeared_def map_add_def)
  have all: "?N j \<noteq> None \<or> (\<exists>u. names (objects objs) u j) \<or> deleting m" if "nets (svc w') j = Some m" for j m
    using I(5) [of j m] that map_le_at [OF more, of j] by (cases "nets (svc w) j") (auto simp: appeared_def map_add_def)
  from work I(2) old apart all show ?thesis
    unfolding cluster_inv_def same prod.case by blast
qed

lemma cluster_inv_old:
  assumes "cluster_inv nets used rt rm md sys N (objs, w)" and "N j \<noteq> None"
  shows "nets (svc w) j \<noteq> None"
  using cluster_invD(4) [OF assms] alike_there assms(2) by blast

lemma cluster_write:
  assumes ok: "service_ok rt (sdkapi rm) nets tagging" and loc: "calls_local (sdkapi rm) nets tagging"
    and ids: "ids_unique (sdkapi rm) nets used"
    and lib: "tags_lib_ok rt" "compare_lib_ok rt" "errors_lib_ok rt" "condition_types_ok rt"
    and inv: "cluster_inv nets used rt rm md sys N (objs, w)" and t: "objs t = Some x"
    and x: "phase x = Observed g0 r latest err" and run: "write_stage rt s rm sys r latest err w = (Ret res, w')"
  shows "res = Inl e \<Longrightarrow> \<exists>N'. spared (sdkapi rm) nets lost N N' (lost * (failed_creations w' - failed_creations w)) \<and>
      cluster_inv nets used rt rm md sys N' (objs(t \<mapsto> x\<lparr>phase := Idle\<rparr>), w')"
    and "res = Inr out \<Longrightarrow> SetStatus (pointer (stored x)) out = Ret \<lparr>ko = Some g\<rparr> \<Longrightarrow>
      cluster_inv nets used rt rm md sys N (objs(t \<mapsto> \<lparr>stored = g, phase = Idle\<rparr>), w')"
proof -
  note W = cluster_invD(1) [OF inv t]
  then have stored: "conds_wf (conds_of (stored x))" "tags_wf (Tags (Spec (stored x)))" by (simp_all add: work_ok_def)
  obtain d where d: "r = \<lparr>ko = Some d\<rparr>" "GlobalNetworkID (Status d) = GlobalNetworkID (Status (stored x))"
    "ready nets rt (svc w) d latest err" "managed (stored x)"
    by (rule observedE [OF W x])
  note law = write_own_step [OF ok loc ids lib d(3), of s sys]
  have kept: "names_kept nets used (svc w) (svc w')"
    using write_keeps_names [OF ids, of w rt s sys r latest err] run by simp
  show "\<exists>N'. spared (sdkapi rm) nets lost N N' (lost * (failed_creations w' - failed_creations w)) \<and>
      cluster_inv nets used rt rm md sys N' (objs(t \<mapsto> x\<lparr>phase := Idle\<rparr>), w')" if "res = Inl e"
  proof (rule law)
    fix e' u
    assume "write_stage rt s rm sys \<lparr>ko = Some d\<rparr> latest err w = (Ret (Inl e'), u)"
      and own: "own_step nets used (GlobalNetworkID (Status d)) (GlobalNetworkID (Status d)) (svc w) (svc u)"
      and arns: "arn_at nets (svc u) = arn_at nets (svc w)"
    with run d(1) have u: "u = w'" by simp
    have "work_ok nets rt rm md sys (svc w') (x\<lparr>phase := Idle\<rparr>)"
      by (rule work_ok_arns [OF W d(4)]) (metis arns u arn_at_def option.map(2))
    with own show ?thesis
      unfolding u d(2) by (intro exI [of _ N] conjI lost_within_refl cluster_own [OF ids inv t]) simp_all
  next
    fix g' e' u
    assume "write_stage rt s rm sys \<lparr>ko = Some d\<rparr> latest err w = (Ret (Inl e'), u)"
      and made: "Create rt rm (object d) w = (Ret (object g', Some e'), u)" and more: "nets (svc w) \<subseteq>\<^sub>m nets (svc u)"
    with run d(1) have u: "u = w'" by simp
    have "spared (sdkapi rm) nets lost N (N ++ appeared nets (svc w) (svc w')) (lost * (failed_creations w' - failed_creations w))"
      by (rule lost_appeared [where nets = nets, OF cluster_inv_old [OF inv]])
        (use create_failed_counts [OF _ made [unfolded u]] in blast)+
    with cluster_lost [OF ids inv t kept more [unfolded u]] show ?thesis by blast
  qed (use run d(1) that in simp)
  show "cluster_inv nets used rt rm md sys N (objs(t \<mapsto> \<lparr>stored = g, phase = Idle\<rparr>), w')"
    if res: "res = Inr out" and set: "SetStatus (pointer (stored x)) out = Ret \<lparr>ko = Some g\<rparr>"
  proof (rule law)
    fix g' i n u
    assume "write_stage rt s rm sys \<lparr>ko = Some d\<rparr> latest err w = (Ret (Inr (object g')), u)"
      and own: "own_step nets used (GlobalNetworkID (Status d)) (Some i) (svc w) (svc u)"
      and n: "nets (svc u) i = Some n" "identifies g' i n"
    with run d(1) res have u: "u = w'" and out: "out = object g'" by simp_all
    from set have g: "g = (stored x)\<lparr>Status := Status g'\<rparr>" by (simp add: out status_set)
    have "work_ok nets rt rm md sys (svc w') \<lparr>stored = g, phase = Idle\<rparr>"
      using n d(4) stored(2) by (auto simp: work_ok_def phase_ok_def identifies_def metadata_of_def g u managed_def)
    moreover have "GlobalNetworkID (Status g) = Some i" using n(2) by (simp add: g identifies_def)
    ultimately show ?thesis
      using own unfolding u d(2) by (intro cluster_own [OF ids inv t]) simp_all
  qed (use run d(1) res in simp_all)
qed

lemma cluster_delete:
  assumes ok: "service_ok rt (sdkapi rm) nets tagging" and loc: "calls_local (sdkapi rm) nets tagging"
    and ids: "ids_unique (sdkapi rm) nets used"
    and lib: "errors_lib_ok rt" "condition_types_ok rt" "finalizer_lib_ok rt"
    and inv: "cluster_inv nets used rt rm md sys N (objs, w)" and t: "objs t = Some x"
    and x: "phase x = Observed g0 r latest None" and run: "Delete rt rm latest w = (Ret (out, err), w')"
  shows "cluster_inv nets used rt rm md sys N (objs(t \<mapsto> x\<lparr>phase := Idle\<rparr>), w')"
    and "err = None \<Longrightarrow> MarkUnmanaged rt (pointer (stored x)) = Ret (GlobalNetworkPtr (Some g)) \<Longrightarrow>
      cluster_inv nets used rt rm md sys N (objs(t \<mapsto> \<lparr>stored = g, phase = Idle\<rparr>), w')"
proof -
  note W = cluster_invD(1) [OF inv t]
  obtain d where d: "GlobalNetworkID (Status d) = GlobalNetworkID (Status (stored x))"
    "ready nets rt (svc w) d latest None" "managed (stored x)" by (rule observedE [OF W x])
  then obtain i l where l: "latest = object l" "GlobalNetworkID (Status d) = Some i" "conds_wf (conds_of l)"
    "GlobalNetworkID (Status l) = Some i" by (auto simp: ready_def identifies_def)
  have i: "GlobalNetworkID (Status (stored x)) = Some i" using d(1) l(2) by simp
  note del = delete_own_step [OF ok loc ids l(4) run [unfolded l(1)]]
  have idle: "work_ok nets rt rm md sys (svc w') (x\<lparr>phase := Idle\<rparr>)"
    by (rule work_ok_arns [OF W d(3)]) (use del(2) i in simp)
  then show "cluster_inv nets used rt rm md sys N (objs(t \<mapsto> x\<lparr>phase := Idle\<rparr>), w')"
    using del(1) i by (intro cluster_own [OF ids inv t]) simp_all
  show "cluster_inv nets used rt rm md sys N (objs(t \<mapsto> \<lparr>stored = g, phase = Idle\<rparr>), w')"
    if none: "err = None" and mark: "MarkUnmanaged rt (pointer (stored x)) = Ret (GlobalNetworkPtr (Some g))"
  proof (rule cluster_own [OF ids inv t])
    have g: "Spec g = Spec (stored x)" "Status g = Status (stored x)" using marks(2) [OF lib(3) mark] by simp_all
    show "own_step nets used (GlobalNetworkID (Status (stored x)))
        (GlobalNetworkID (Status (stored \<lparr>stored = g, phase = Idle\<rparr>))) (svc w) (svc w')"
      using del(1) i g(2) by simp
    have "deleting n" if "nets (svc w') i = Some n" for n
      by (rule delete_success [OF ok lib(1,2) l(3,4) _ that]) (use run l(1) none in simp)
    with idle g i show "work_ok nets rt rm md sys (svc w') \<lparr>stored = g, phase = Idle\<rparr>"
      by (auto simp: work_ok_def phase_ok_def identifies_def metadata_of_def)
  qed
qed

lemma cluster_step_inv:
  assumes ok: "service_ok rt (sdkapi rm) nets tagging" and loc: "calls_local (sdkapi rm) nets tagging"
    and ids: "ids_unique (sdkapi rm) nets used"
    and lib: "tags_lib_ok rt" "compare_lib_ok rt" "errors_lib_ok rt" "condition_types_ok rt" "finalizer_lib_ok rt"
    and json: "json_ext_ok X"
    and step: "cluster_step X rt rm md sys cw cw'" and inv: "cluster_inv nets used rt rm md sys N cw"
  shows "cluster_inv nets used rt rm md sys N cw' \<or>
    (\<exists>N'. spared (sdkapi rm) nets lost N N' (lost * (failed_creations (snd cw') - failed_creations (snd cw))) \<and>
      cluster_inv nets used rt rm md sys N' cw')"
  using step inv
proof cases
  case (appear objs t g w)
  with inv show ?thesis by (simp add: cluster_appear)
next
  case (edit objs t x sp w)
  note inv = inv [unfolded edit(1)] and W = cluster_invD(1) [OF inv [unfolded edit(1)] edit(3)]
  have "work_ok nets rt rm md sys (svc w) (x\<lparr>stored := with_spec sp (stored x)\<rparr>)"
    by (rule work_ok_stored [OF W]) (use W edit(4) in \<open>simp_all add: work_ok_def with_spec_def managed_def\<close>)
  then show ?thesis unfolding edit(2) by (intro disjI1 cluster_same [OF ids inv edit(3)]) simp_all
next
  case (touch objs t x m g w)
  note inv = inv [unfolded touch(1)] and W = cluster_invD(1) [OF inv [unfolded touch(1)] touch(3)]
  have g: "g = (stored x)\<lparr>ObjectMeta := m\<rparr>" using touch(4) by (simp add: SetObjectMeta_def)
  have "work_ok nets rt rm md sys (svc w) (x\<lparr>stored := g\<rparr>)"
    by (rule work_ok_stored [OF W]) (use W touch(5) in \<open>simp_all add: work_ok_def g IsManaged_pointer\<close>)
  then show ?thesis unfolding touch(2) by (intro disjI1 cluster_same [OF ids inv touch(3)]) (simp_all add: g)
next
  case (patch objs t x cs g w)
  note inv = inv [unfolded patch(1)] and W = cluster_invD(1) [OF inv [unfolded patch(1)] patch(3)]
  have g: "g = (stored x)\<lparr>Status := (Status (stored x))\<lparr>Conditions := cs\<rparr>\<rparr>"
    using patch(4) by (simp add: ReplaceConditions_def)
  have "work_ok nets rt rm md sys (svc w) (x\<lparr>stored := g\<rparr>)"
    by (rule work_ok_stored [OF W]) (use W patch(5) in \<open>simp_all add: work_ok_def g managed_def\<close>)
  then show ?thesis unfolding patch(2) by (intro disjI1 cluster_same [OF ids inv patch(3)]) (simp_all add: g)
next
  case (persist objs t x g w)
  note inv = inv [unfolded persist(1)]
  from work_ok_persist [OF json cluster_invD(1) [OF inv persist(3)] persist(4)] show ?thesis
    unfolding persist(2) by (intro disjI1 cluster_same [OF ids inv persist(3)]) simp_all
next
  case (mark objs t x g w)
  note inv = inv [unfolded mark(1)] and W = cluster_invD(1) [OF inv [unfolded mark(1)] mark(3)]
  note g = marks(1) [OF lib(5) mark(4)]
  have "work_ok nets rt rm md sys (svc w) (x\<lparr>stored := g\<rparr>)"
    by (rule work_ok_stored [OF W]) (use W g in \<open>simp_all add: work_ok_def\<close>)
  then show ?thesis unfolding mark(2) by (intro disjI1 cluster_same [OF ids inv mark(3)]) (simp_all add: g)
next
  case (observe objs t x s w r latest err w')
  note inv = inv [unfolded observe(1)] and W = cluster_invD(1) [OF inv [unfolded observe(1)] observe(3)]
  note own = read_own_step [OF loc ids observe(6), of "GlobalNetworkID (Status (stored x))"]
  have same: "nets (svc w') = nets (svc w)"
    using read_stage_keeps_networks [OF loc, of rt s md "object (stored x)" w] observe(6) by simp
  have "phase_ok nets rt rm md sys (svc w') (stored x) (Observed (stored x) r latest err)"
    by (rule read_phase [OF ok lib(1,3,4) _ _ _ _ observe(6)])
      (use W observe(5) in \<open>simp_all add: work_ok_def IsManaged_pointer\<close>)
  then have "work_ok nets rt rm md sys (svc w') (x\<lparr>phase := Observed (stored x) r latest err\<rparr>)"
    using W by (simp add: work_ok_def same)
  with own show ?thesis unfolding observe(2) by (intro disjI1 cluster_own [OF ids inv observe(3)]) simp_all
next
  case (give_up objs t x w)
  note inv = inv [unfolded give_up(1)]
  from work_ok_idle [OF cluster_invD(1) [OF inv give_up(3)]] show ?thesis
    unfolding give_up(2) by (intro disjI1 cluster_same [OF ids inv give_up(3)]) simp_all
next
  case (written objs t x g0 r latest err s w out w' g)
  from cluster_write(2) [OF ok loc ids lib(1-4) inv [unfolded written(1)] written(3-5) refl written(6)]
  show ?thesis by (simp add: written(2))
next
  case (write_error objs t x g0 r latest err s w e w')
  from cluster_write(1) [OF ok loc ids lib(1-4) inv [unfolded write_error(1)] write_error(3-5) refl]
  show ?thesis unfolding write_error(1,2) snd_conv by (rule disjI2)
next
  case (delete objs t x g0 r latest w out w' g)
  from cluster_delete(2) [OF ok loc ids lib(3-5) inv [unfolded delete(1)] delete(3-5) refl delete(6)]
  show ?thesis by (simp add: delete(2))
next
  case (delete_end objs t x g0 r latest w out err w')
  from cluster_delete(1) [OF ok loc ids lib(3-5) inv [unfolded delete_end(1)] delete_end(3-5)]
  show ?thesis by (simp add: delete_end(2))
next
  case (release objs t x g0 r latest g w)
  note inv = inv [unfolded release(1)] and W = cluster_invD(1) [OF inv [unfolded release(1)] release(3)]
  have g: "Spec g = Spec (stored x)" "Status g = Status (stored x)" using marks(2) [OF lib(5) release(5)] by simp_all
  have "nets (svc w) i = None" if "GlobalNetworkID (Status (stored x)) = Some i" for i
    using observedE [OF W release(4)] that by (auto simp: ready_def)
  with W g have "work_ok nets rt rm md sys (svc w) \<lparr>stored = g, phase = Idle\<rparr>"
    by (auto simp: work_ok_def phase_ok_def)
  then show ?thesis unfolding release(2) by (intro disjI1 cluster_same [OF ids inv release(3)]) (simp_all add: g)
next
  case (go objs t x w)
  with inv show ?thesis by (simp add: cluster_go IsManaged_pointer)
qed

lemma cluster_stop_inv:
  assumes ok: "service_ok rt (sdkapi rm) nets tagging" and loc: "calls_local (sdkapi rm) nets tagging"
    and ids: "ids_unique (sdkapi rm) nets used"
    and lib: "tags_lib_ok rt" "compare_lib_ok rt" "errors_lib_ok rt" "condition_types_ok rt"
    and step: "cluster_stop rt rm sys cw cw'" and inv: "cluster_inv nets used rt rm md sys N cw"
  shows "\<exists>N'. spared (sdkapi rm) nets lost N N' 1 \<and> cluster_inv nets used rt rm md sys N' cw'"
  using step inv
proof cases
  case (stop objs t x g0 r latest err s w out w')
  note inv = inv [unfolded stop(1)] and W = cluster_invD(1) [OF inv [unfolded stop(1)] stop(3)]
  obtain d where d: "r = \<lparr>ko = Some d\<rparr>" "GlobalNetworkID (Status d) = GlobalNetworkID (Status (stored x))"
    "ready nets rt (svc w) d latest err" "managed (stored x)"
    by (rule observedE [OF W stop(4)])
  have kept: "names_kept nets used (svc w) (svc w')"
    using write_keeps_names [OF ids, of w rt s sys r latest err] stop(5) by simp
  note run = stop(5) [unfolded d(1)]
  from write_law [OF ok loc lib d(3), of s sys] show ?thesis
  proof cases
    case (4 i n g' u)
    then have i: "nets (svc w) i = None" "nets (svc w') = (nets (svc w))(i \<mapsto> n)" using run by simp_all
    then have "dom (nets (svc w')) - dom (nets (svc w)) = {i}" by auto
    then have "spared (sdkapi rm) nets lost N (N ++ appeared nets (svc w) (svc w')) 1"
      by (intro lost_appeared [where nets = nets, OF cluster_inv_old [OF inv]]) simp_all
    moreover have "nets (svc w) \<subseteq>\<^sub>m nets (svc w')" using i by (auto simp: map_le_def)
    ultimately show ?thesis using cluster_lost [OF ids inv stop(3) kept] unfolding stop(2) by blast
  next
    case (5 i n n' g' u)
    have w': "w' = snd (update_stage rt s rm sys \<lparr>ko = Some d\<rparr> latest w)" using 5(1,5) run by simp
    note own = update_own_step [OF ok loc 5(2-4) w' kept]
    have "work_ok nets rt rm md sys (svc w') (x\<lparr>phase := Idle\<rparr>)"
      by (rule work_ok_arns [OF W d(4)]) (metis own(2) arn_at_def option.map(2))
    then have "cluster_inv nets used rt rm md sys N (objs(t \<mapsto> x\<lparr>phase := Idle\<rparr>), w')"
      using own(1) 5(2) d(2) by (intro cluster_own [OF ids inv stop(3)]) simp_all
    then show ?thesis unfolding stop(2) by (intro exI [of _ N] conjI lost_within_refl)
  qed (use run in simp_all)
qed

text \<open>The record of calls only grows.\<close>

lemma write_stage_calls:
  "\<exists>ops. calls_within ops w (snd (write_stage rt s rm sys r latest err w))"
proof (cases err)
  case None
  obtain m u where u: "update_stage rt s rm sys r latest w = (m, u)" by fastforce
  have "calls_within [''TagResource'', ''UntagResource'', ''UpdateGlobalNetwork''] w u"
    using bounded_within [OF update_stage_calls, of w rt s rm sys r latest] by (simp add: u)
  then show ?thesis by (cases m) (auto simp: write_stage_def None u)
next
  case (Some e)
  obtain m u where u: "Create rt rm (ResourcePtr (Some r)) w = (m, u)" by fastforce
  have "calls_within [''CreateGlobalNetwork''] w u"
    using bounded_within [OF Create_calls, of w rt rm "ResourcePtr (Some r)"] by (simp add: u)
  then show ?thesis
    using calls_within_refl [of "[]" w] by (cases m) (auto simp: write_stage_def Some u split: option.splits)
qed

lemma cluster_step_counts:
  assumes "cluster_step X rt rm md sys cw cw'"
  shows "failed_creations (snd cw) \<le> failed_creations (snd cw')"
  using assms
proof cases
  case (observe objs t x s w r latest err w')
  with bounded_within [OF read_stage_calls, of w rt s rm md "object (stored x)"] show ?thesis
    by (auto intro: failed_creations_mono)
next
  case (written objs t x g0 r latest err s w out w' g)
  with write_stage_calls [of w rt s rm sys r latest err] show ?thesis by (auto intro: failed_creations_mono)
next
  case (write_error objs t x g0 r latest err s w e w')
  with write_stage_calls [of w rt s rm sys r latest err] show ?thesis by (auto intro: failed_creations_mono)
next
  case (delete objs t x g0 r latest w out w' g)
  with bounded_within [OF Delete_calls, of w rt rm latest] show ?thesis by (auto intro: failed_creations_mono)
next
  case (delete_end objs t x g0 r latest w out err w')
  with bounded_within [OF Delete_calls, of w rt rm latest] show ?thesis by (auto intro: failed_creations_mono)
qed simp_all

lemma cluster_stop_counts:
  assumes "cluster_stop rt rm sys cw cw'"
  shows "failed_creations (snd cw) \<le> failed_creations (snd cw')"
  using assms
proof cases
  case (stop objs t x g0 r latest err s w out w')
  with write_stage_calls [of w rt s rm sys r latest err] show ?thesis by (auto intro: failed_creations_mono)
qed

lemma cluster_reachable:
  assumes ok: "service_ok rt (sdkapi rm) nets tagging" "calls_local (sdkapi rm) nets tagging"
      "ids_unique (sdkapi rm) nets used"
    and lib: "tags_lib_ok rt" "compare_lib_ok rt" "errors_lib_ok rt" "condition_types_ok rt" "finalizer_lib_ok rt"
    and json: "json_ext_ok X"
    and run: "cluster_run X rt rm md sys w0 k cw"
  shows "\<exists>N. spared (sdkapi rm) nets lost (nets (svc w0)) N (k + lost * (failed_creations (snd cw) - failed_creations w0)) \<and>
    failed_creations w0 \<le> failed_creations (snd cw) \<and> cluster_inv nets used rt rm md sys N cw"
  using run
proof induction
  case run_empty
  show ?case by (rule exI [of _ "nets (svc w0)"]) (simp add: cluster_inv_def names_def objects_def)
next
  case (run_step k cw cw')
  then obtain N where N: "spared (sdkapi rm) nets lost (nets (svc w0)) N (k + lost * (failed_creations (snd cw) - failed_creations w0))"
    "failed_creations w0 \<le> failed_creations (snd cw)" "cluster_inv nets used rt rm md sys N cw" by blast
  note count = cluster_step_counts [OF run_step(2)]
  obtain N' where N': "spared (sdkapi rm) nets lost N N' (lost * (failed_creations (snd cw') - failed_creations (snd cw)))"
    "cluster_inv nets used rt rm md sys N' cw'"
    using cluster_step_inv [OF ok lib json run_step(2) N(3)] lost_within_refl by blast
  have "spared (sdkapi rm) nets lost (nets (svc w0)) N' (k + lost * (failed_creations (snd cw') - failed_creations w0))"
    by (rule lost_within_trans [OF N(1) N'(1)])
      (use N(2) count in \<open>simp add: distrib_left [symmetric]\<close>)
  with N(2) N'(2) count show ?case by (intro exI [of _ N']) simp
next
  case (run_stop k cw cw')
  then obtain N where N: "spared (sdkapi rm) nets lost (nets (svc w0)) N (k + lost * (failed_creations (snd cw) - failed_creations w0))"
    "failed_creations w0 \<le> failed_creations (snd cw)" "cluster_inv nets used rt rm md sys N cw" by blast
  note count = cluster_stop_counts [OF run_stop(2)]
  obtain N' where N': "spared (sdkapi rm) nets lost N N' 1" "cluster_inv nets used rt rm md sys N' cw'"
    using cluster_stop_inv [OF ok lib(1-4) run_stop(2) N(3)] by blast
  have "spared (sdkapi rm) nets lost (nets (svc w0)) N' (Suc k + lost * (failed_creations (snd cw') - failed_creations w0))"
    by (rule lost_within_trans [OF N(1) N'(1)]) (use count in \<open>simp add: diff_le_mono\<close>)
  with N(2) N'(2) count show ?case by (intro exI [of _ N']) simp
qed

text \<open>What the step of one object leaves alone.\<close>

lemma own_step_others:
  assumes ids: "ids_unique client nets used" and inv: "cluster_inv nets used rt rm md sys N (objs, w)"
    and t: "objs t = Some x" and own: "own_step nets used (GlobalNetworkID (Status (stored x))) new (svc w) s'"
  shows "\<forall>u j. u \<noteq> t \<and> names (objects objs) u j \<or> N j \<noteq> None \<longrightarrow> alike (nets (svc w) j) (nets s' j)"
proof (intro allI impI)
  fix u j
  assume j: "u \<noteq> t \<and> names (objects objs) u j \<or> N j \<noteq> None"
  note I = cluster_invD [OF inv]
  show "alike (nets (svc w) j) (nets s' j)"
  proof (cases "N j = None")
    case True
    with j show ?thesis using own_step_names(3) [OF ids inv t own] by blast
  next
    case False
    then have "nets (svc w) j \<noteq> None" using I(4) [OF False] by (cases "nets (svc w) j") auto
    moreover have "GlobalNetworkID (Status (stored x)) \<noteq> Some j"
      using I(3) [of t j] False by (auto simp: names_objects(3) [of objs t, OF t])
    ultimately show ?thesis by (intro own_stepD(2) [OF own])
  qed
qed

lemma grown_others:
  assumes inv: "cluster_inv nets used rt rm md sys N (objs, w)" and kept: "names_kept nets used (svc w) s'"
    and more: "nets (svc w) \<subseteq>\<^sub>m nets s'"
  shows "\<forall>u j. u \<noteq> t \<and> names (objects objs) u j \<or> N j \<noteq> None \<longrightarrow> alike (nets (svc w) j) (nets s' j)"
proof (intro allI impI)
  fix u j
  assume "u \<noteq> t \<and> names (objects objs) u j \<or> N j \<noteq> None"
  then have "j \<in> used (svc w) \<or> nets (svc w) j \<noteq> None"
    using cluster_invD(3) [OF inv] cluster_inv_old [OF inv] by blast
  then have "nets s' j = nets (svc w) j"
    using names_keptD(2) [OF kept, of j] map_le_at [OF more, of j] by (cases "nets (svc w) j") auto
  then show "alike (nets (svc w) j) (nets s' j)" by simp
qed

section \<open>Properties\<close>

text \<open>
  C1: with reconciliations of many objects under way at a time, no network is shared and few are
  lost. Whatever objects appear, are edited, stored as JSON, marked, read, written, given up,
  deleted and go, the stages of their reconciliations in any interleaving: the networks there were
  before are as they were, up to the order of their tags, and no object names one of them; no two
  objects name one network; and every other network that is not being deleted is named by exactly one object,
  which carries the finalizer, except for few networks, which no object names. These are at most one for each of the
  \<open>k\<close> times the controller was stopped after a network was written and before its object could be stored, and \<open>r\<close> for each
  recorded call of CreateGlobalNetwork that answered an error, if such a call leaves at most \<open>r\<close> networks: one if
  the request was carried out and the answer was lost, none if it was refused. The service is assumed to give
  no identifier twice, not to have two networks of one ARN, to make one network by a creation that
  succeeds, and to change by a call nothing of the networks the call does not name.
\<close>

theorem workers_one_to_one:
  assumes "service_ok rt (sdkapi rm) nets tagging" and "calls_local (sdkapi rm) nets tagging"
    and "ids_unique (sdkapi rm) nets used"
    and "tags_lib_ok rt" and "compare_lib_ok rt" and "errors_lib_ok rt" and "condition_types_ok rt"
    and "finalizer_lib_ok rt" and "json_ext_ok X"
    and "cluster_run X rt rm md sys w0 k (objs, w)" and "create_leaves (sdkapi rm) nets r"
  shows "(\<forall>j. nets (svc w0) j \<noteq> None \<longrightarrow>
      alike (nets (svc w0) j) (nets (svc w) j) \<and> \<not> (\<exists>t. names (objects objs) t j)) \<and>
    (\<forall>t u i. names (objects objs) t i \<longrightarrow> names (objects objs) u i \<longrightarrow> t = u) \<and>
    (\<exists>lost. finite lost \<and> card lost \<le> k + r * (failed_creations w - failed_creations w0) \<and>
      (\<forall>j \<in> lost. \<not> (\<exists>t. names (objects objs) t j)) \<and>
      (\<forall>j n. nets (svc w) j = Some n \<longrightarrow> nets (svc w0) j = None \<longrightarrow> j \<notin> lost \<longrightarrow> sdk_State n \<noteq> ''DELETING'' \<longrightarrow>
        (\<exists>!t. names (objects objs) t j) \<and>
        (\<forall>t x. objs t = Some x \<longrightarrow> GlobalNetworkID (Status (stored x)) = Some j \<longrightarrow>
           IsManaged (Some \<lparr>ko = Some (stored x)\<rparr>) = Ret True)))"
proof -
  obtain N where "spared (sdkapi rm) nets r (nets (svc w0)) N (k + r * (failed_creations w - failed_creations w0))"
    and inv: "cluster_inv nets used rt rm md sys N (objs, w)"
    using cluster_reachable [OF assms(1-10), of r] by auto
  then have N: "nets (svc w0) \<subseteq>\<^sub>m N" "finite (dom N - dom (nets (svc w0)))"
    "card (dom N - dom (nets (svc w0))) \<le> k + r * (failed_creations w - failed_creations w0)"
    using assms(11) by (simp_all add: lost_within_def)
  note I = cluster_invD [OF inv]
  have old: "N j = nets (svc w0) j" if "nets (svc w0) j \<noteq> None" for j using map_le_at [OF N(1) that] .
  have "alike (nets (svc w0) j) (nets (svc w) j) \<and> \<not> (\<exists>t. names (objects objs) t j)" if "nets (svc w0) j \<noteq> None" for j
    using I(3) [of _ j] I(4) [of j] old [OF that] that by auto
  moreover have "(\<exists>!t. names (objects objs) t j) \<and>
      (\<forall>t x. objs t = Some x \<longrightarrow> GlobalNetworkID (Status (stored x)) = Some j \<longrightarrow>
         IsManaged (Some \<lparr>ko = Some (stored x)\<rparr>) = Ret True)"
    if n: "nets (svc w) j = Some n" "nets (svc w0) j = None" "j \<notin> dom N - dom (nets (svc w0))" "sdk_State n \<noteq> ''DELETING''"
    for j n
  proof (intro conjI allI impI)
    have "N j = None" using n(2,3) by auto
    then obtain t where "names (objects objs) t j" using I(5) [OF n(1)] n(4) by (auto simp: deleting_def)
    then show "\<exists>!t. names (objects objs) t j" using I(2) by blast
    fix t x
    assume t: "objs t = Some x" and j: "GlobalNetworkID (Status (stored x)) = Some j"
    have "managed (stored x)"
      using I(1) [OF t] n j by (auto simp: work_ok_def phase_ok_def deleting_def split: phase.splits)
    then show "IsManaged (Some \<lparr>ko = Some (stored x)\<rparr>) = Ret True" by (simp add: IsManaged_pointer)
  qed
  moreover have "\<not> (\<exists>t. names (objects objs) t j)" if "j \<in> dom N - dom (nets (svc w0))" for j using I(3) that by fastforce
  ultimately show ?thesis using I(2) N(2,3) by (intro conjI exI [of _ "dom N - dom (nets (svc w0))"]) blast+
qed

text \<open>
  C2: a reconciliation under way ends as it began to. Whatever has been done to other objects and
  to the object itself since its network was read, the writing returns; it answers the error of
  the reading, or a call of the API failed, or the object it returns names a network that has
  the wanted tags under the user's keys and the desired description if there is one, both as they
  were when the network was read; and in every case each network that another object names,
  or that was there before, is as it was.
\<close>

theorem worker_writes:
  assumes "service_ok rt (sdkapi rm) nets tagging" and "calls_local (sdkapi rm) nets tagging"
    and "ids_unique (sdkapi rm) nets used"
    and "tags_lib_ok rt" and "compare_lib_ok rt" and "errors_lib_ok rt" and "condition_types_ok rt"
    and "finalizer_lib_ok rt" and "json_ext_ok X"
    and "cluster_run X rt rm md sys w0 k (objs, w)"
    and "objs t = Some x" and "phase x = Observed g0 r latest err"
  shows "\<exists>res w'. write_stage rt s rm sys r latest err w = (Ret res, w') \<and>
    (case res of Inl e \<Rightarrow> err = Some e \<or> faulted w w'
     | Inr out \<Rightarrow> \<exists>g' i n. out = ResourcePtr (Some \<lparr>ko = Some g'\<rparr>) \<and> GlobalNetworkID (Status g') = Some i \<and>
         nets (svc w') i = Some n \<and>
         (\<forall>k. \<not> prefix ''aws:'' k \<and> k \<notin> set sys \<longrightarrow>
            net_tags n k = (mget (GetDefaultTags rt (cfg rm) g0 md) ++ tag_map (Tags (Spec g0))) k) \<and>
         (Description (Spec g0) \<noteq> None \<longrightarrow> sdk_Description n = Description (Spec g0))) \<and>
    (\<forall>u j. u \<noteq> t \<and> names (objects objs) u j \<or> nets (svc w0) j \<noteq> None \<longrightarrow>
       alike (nets (svc w) j) (nets (svc w') j))"
proof -
  obtain N where N: "nets (svc w0) \<subseteq>\<^sub>m N" and inv: "cluster_inv nets used rt rm md sys N (objs, w)"
    using cluster_reachable [OF assms(1-10)] by (auto simp: lost_within_def)
  obtain d where d: "r = \<lparr>ko = Some d\<rparr>" "GlobalNetworkID (Status d) = GlobalNetworkID (Status (stored x))"
    "ready nets rt (svc w) d latest err" "Description (Spec d) = Description (Spec g0)"
    "\<And>k. err = None \<or> err = Some (NotFound rt) \<Longrightarrow> own_key sys k \<Longrightarrow> tag_map (Tags (Spec d)) k = wanted_tags rt rm md g0 k"
    by (rule observedE [OF cluster_invD(1) [OF inv assms(11)] assms(12)]) blast
  have old: "N j \<noteq> None" if "nets (svc w0) j \<noteq> None" for j using map_le_at [OF N that] that by simp
  note others = own_step_others [OF assms(3) inv assms(11), folded d(2)]
  show ?thesis
  proof (rule write_own_step [OF assms(1-7) d(3), of s sys])
    fix e w'
    assume run: "write_stage rt s rm sys \<lparr>ko = Some d\<rparr> latest err w = (Ret (Inl e), w')"
      and own: "own_step nets used (GlobalNetworkID (Status d)) (GlobalNetworkID (Status d)) (svc w) (svc w')"
    have "err = Some e \<or> faulted w w'" using write_stage_honest [OF run] by blast
    with run d(1) others [OF own] old show ?thesis by auto
  next
    fix g' e w'
    assume run: "write_stage rt s rm sys \<lparr>ko = Some d\<rparr> latest err w = (Ret (Inl e), w')"
      and more: "nets (svc w) \<subseteq>\<^sub>m nets (svc w')"
    have "err = Some e \<or> faulted w w'" using write_stage_honest [OF run] by blast
    moreover have "names_kept nets used (svc w) (svc w')"
      using write_keeps_names [OF assms(3), of w rt s sys "\<lparr>ko = Some d\<rparr>" latest err] run by simp
    ultimately show ?thesis using run d(1) grown_others [OF inv _ more] old by auto
  next
    fix g' i n w'
    assume run: "write_stage rt s rm sys \<lparr>ko = Some d\<rparr> latest err w = (Ret (Inr (object g')), w')"
      and own: "own_step nets used (GlobalNetworkID (Status d)) (Some i) (svc w) (svc w')"
      and n: "nets (svc w') i = Some n" "identifies g' i n"
        "\<And>k. own_key sys k \<Longrightarrow> net_tags n k = tag_map (Tags (Spec d)) k"
        "Description (Spec d) \<noteq> None \<Longrightarrow> sdk_Description n = Description (Spec d)"
    have "err = None \<or> err = Some (NotFound rt)"
      using run by (auto simp: write_stage_def split: option.splits if_splits)
    then have "net_tags n k = (mget (GetDefaultTags rt (cfg rm) g0 md) ++ tag_map (Tags (Spec g0))) k"
      if "\<not> prefix ''aws:'' k \<and> k \<notin> set sys" for k
      using n(3) [of k] d(5) [of k] that by (simp add: own_key_def aws_key_def wanted_tags_def)
    with run d(1) n d(4) others [OF own] old show ?thesis by (auto simp: identifies_def)
  qed
qed

end
