(* ===== verification/Faults.thy ===== *)
theory Faults
  imports Concurrency
begin

text \<open>
  No code: a service whose calls fail in any pattern, before they are carried out or after it. The contracts of the
  properties hold for it if they hold for the service itself, so every property holds whichever calls and answers
  are lost. In particular it holds when from some call on all calls of a stage fail: for the service, and for the stored
  object, that is a controller which is stopped in the middle of the stage, before, during or after a call (the
  step of a writing that failed, in \<open>Controller\<close>).
\<close>

text \<open>
  The state of the service, and the fate of the next calls: carried out and answered, lost, or carried out
  with the answer lost; then calls are answered again.
\<close>

datatype fate = Answered | Lost | Unanswered

definition flaky_call :: "'r \<Rightarrow> ('w \<Rightarrow> 'r \<times> 'w) \<Rightarrow> 'w \<times> fate list \<Rightarrow> 'r \<times> 'w \<times> fate list" where
  "flaky_call r f s =
     (case s of (w, fs) \<Rightarrow>
       (case if fs = [] then Answered else hd fs of
          Answered \<Rightarrow> (fst (f w), snd (f w), tl fs)
        | Lost \<Rightarrow> (r, w, tl fs)
        | Unanswered \<Rightarrow> (r, snd (f w), tl fs)))"

definition flaky :: "'e \<Rightarrow> ('w, 'e) svcsdk_Client \<Rightarrow> ('w \<times> fate list, 'e) svcsdk_Client" where
  "flaky e cl = \<lparr>
     TagResource = (\<lambda>inp. flaky_call (Some e) (TagResource cl inp)),
     UntagResource = (\<lambda>inp. flaky_call (Some e) (UntagResource cl inp)),
     DescribeGlobalNetworks = (\<lambda>inp. flaky_call (None, Some e) (DescribeGlobalNetworks cl inp)),
     CreateGlobalNetwork = (\<lambda>inp. flaky_call (None, Some e) (CreateGlobalNetwork cl inp)),
     UpdateGlobalNetwork = (\<lambda>inp. flaky_call (None, Some e) (UpdateGlobalNetwork cl inp)),
     DeleteGlobalNetwork = (\<lambda>inp. flaky_call (Some e) (DeleteGlobalNetwork cl inp))\<rparr>"

lemma flaky_sel [simp]:
  "TagResource (flaky e cl) ti = flaky_call (Some e) (TagResource cl ti)"
  "UntagResource (flaky e cl) ui = flaky_call (Some e) (UntagResource cl ui)"
  "DescribeGlobalNetworks (flaky e cl) di = flaky_call (None, Some e) (DescribeGlobalNetworks cl di)"
  "CreateGlobalNetwork (flaky e cl) ci = flaky_call (None, Some e) (CreateGlobalNetwork cl ci)"
  "UpdateGlobalNetwork (flaky e cl) pi = flaky_call (None, Some e) (UpdateGlobalNetwork cl pi)"
  "DeleteGlobalNetwork (flaky e cl) xi = flaky_call (Some e) (DeleteGlobalNetwork cl xi)"
  by (simp_all add: flaky_def)

lemma flaky_ret:
  assumes "flaky_call r f s = (x, s')"
  shows "x = r \<and> (fst s' = fst s \<or> fst s' = snd (f (fst s))) \<or> f (fst s) = (x, fst s')"
  using assms by (cases s) (auto simp: flaky_call_def split: fate.splits if_splits)

lemma flaky_cases:
  obtains "fst (snd (flaky_call r f s)) = fst s" | "fst (snd (flaky_call r f s)) = snd (f (fst s))"
proof -
  obtain x s' where "flaky_call r f s = (x, s')" by (metis surj_pair)
  with flaky_ret [OF this] that show ?thesis by auto
qed

lemma flaky_done:
  "flaky_call (Some e) f s = (None, s') \<Longrightarrow> f (fst s) = (None, fst s')"
  "flaky_call (None, Some e) k s = ((resp, None), s') \<Longrightarrow> k (fst s) = ((resp, None), fst s')"
  by (auto dest!: flaky_ret)

lemma flaky_describe:
  assumes ok: "describe_ok rt cl nets tagging" and e: "e \<noteq> NotFound rt" "AsAPIErrorCode rt e \<noteq> Some ''ResourceNotFoundException''"
  shows "describe_ok rt (flaky e cl) (\<lambda>s. nets (fst s)) (\<lambda>s. tagging (fst s))"
  unfolding describe_ok_def flaky_sel
proof (intro allI impI, goal_cases)
  case (1 i s resp err s')
  from flaky_ret [OF 1] show ?case
  proof
    let ?call = "DescribeGlobalNetworks cl \<lparr>GlobalNetworkIds = Some [i]\<rparr> (fst s)"
    obtain a b u where call: "?call = ((a, b), u)" by (metis prod.exhaust)
    assume "(resp, err) = (None, Some e) \<and> (fst s' = fst s \<or> fst s' = snd ?call)"
    then show ?thesis using e ok [unfolded describe_ok_def, rule_format, OF call] by (auto simp: call)
  next
    assume "DescribeGlobalNetworks cl \<lparr>GlobalNetworkIds = Some [i]\<rparr> (fst s) = ((resp, err), fst s')"
    from ok [unfolded describe_ok_def, rule_format, OF this] show ?thesis .
  qed
qed

lemma flaky_service:
  assumes "service_ok rt cl nets tagging" and "e \<noteq> NotFound rt" and "AsAPIErrorCode rt e \<noteq> Some ''ResourceNotFoundException''"
  shows "service_ok rt (flaky e cl) (\<lambda>s. nets (fst s)) (\<lambda>s. tagging (fst s))"
proof -
  have ok: "networks_ok nets tagging" "describe_ok rt cl nets tagging" "create_ok cl nets" "update_ok cl nets tagging"
    "delete_ok cl nets" "tagging_frame cl nets" "tag_service_ok cl tagging"
    using assms(1) by (simp_all add: service_ok_def)
  have "networks_ok (\<lambda>s. nets (fst s)) (\<lambda>s. tagging (fst s))" using ok(1) unfolding networks_ok_def by blast
  moreover have "create_ok (flaky e cl) (\<lambda>s. nets (fst s))"
    using ok(3) unfolding create_ok_def flaky_sel by (blast dest: flaky_done(2))
  moreover have "update_ok (flaky e cl) (\<lambda>s. nets (fst s)) (\<lambda>s. tagging (fst s))"
    using ok(4) unfolding update_ok_def flaky_sel by (blast dest: flaky_done(2))
  moreover have "delete_ok (flaky e cl) (\<lambda>s. nets (fst s))"
    using ok(5) unfolding delete_ok_def flaky_sel by (blast dest: flaky_done(1))
  moreover have "tagging_frame (flaky e cl) (\<lambda>s. nets (fst s))"
  proof -
    have keep: "map_option bare (nets (fst s') i) = map_option bare (nets (fst s) i)"
      if "flaky_call (Some e) f s = (err, s')" "\<And>w err w'. f w = (err, w') \<Longrightarrow> map_option bare (nets w' i) = map_option bare (nets w i)"
      for f err s s' i
      using flaky_ret [OF that(1)] that(2) [of "fst s"] by (metis prod.collapse)
    have frame: "TagResource cl ti w = (err, w') \<Longrightarrow> map_option bare (nets w' i) = map_option bare (nets w i)"
      "UntagResource cl ui w = (err, w') \<Longrightarrow> map_option bare (nets w' i) = map_option bare (nets w i)" for ti ui w err w' i
      using ok(6) unfolding tagging_frame_def by metis+
    show ?thesis unfolding tagging_frame_def flaky_sel by (intro conjI allI impI) (erule keep, erule frame)+
  qed
  moreover have "tag_service_ok (flaky e cl) (\<lambda>s. tagging (fst s))"
    using ok(7) unfolding tag_service_ok_def flaky_sel by (blast dest: flaky_done(1))
  ultimately show ?thesis using flaky_describe [OF ok(2) assms(2,3)] by (simp add: service_ok_def)
qed

lemma flaky_ids:
  assumes "ids_unique cl nets used"
  shows "ids_unique (flaky e cl) (\<lambda>s. nets (fst s)) (\<lambda>s. used (fst s))"
proof -
  have keep: "names_kept (\<lambda>s. nets (fst s)) (\<lambda>s. used (fst s)) s (snd (flaky_call r f s))"
    if "\<And>w. names_kept nets used w (snd (f w))" for r f s
    using that [of "fst s"] by (cases rule: flaky_cases [of r f s]) (auto simp: names_kept_def)
  show ?thesis using assms unfolding ids_unique_def flaky_sel by (intro conjI allI impI keep) auto
qed

lemma flaky_same:
  assumes "F (snd (f (fst s))) = F (fst s)"
  shows "F (fst (snd (flaky_call r f s))) = F (fst s)"
  using assms by (cases rule: flaky_cases [of r f s]) simp_all

lemma flaky_create_local:
  assumes "\<And>w resp err w'. f w = ((resp, err), w') \<Longrightarrow> nets w \<subseteq>\<^sub>m nets w'"
  shows "nets (fst s) \<subseteq>\<^sub>m nets (fst (snd (flaky_call r f s)))"
  using assms by (cases rule: flaky_cases [of r f s]) (simp, metis prod.collapse)

text \<open>A creation whose answer is lost leaves what the service has created.\<close>

lemma flaky_leaves:
  assumes "\<And>inp s. finite (dom (nets (snd (CreateGlobalNetwork cl inp s))) - dom (nets s)) \<and>
    card (dom (nets (snd (CreateGlobalNetwork cl inp s))) - dom (nets s)) \<le> r"
  shows "create_leaves (flaky e cl) (\<lambda>s. nets (fst s)) r"
  unfolding create_leaves_def flaky_sel
proof (intro allI impI, goal_cases)
  case (1 inp s resp e' s')
  then have "fst s' = fst s \<or> fst s' = snd (CreateGlobalNetwork cl inp (fst s))"
    by (cases rule: flaky_cases [of "(None, Some e)" "CreateGlobalNetwork cl inp" s]) auto
  with assms [of inp "fst s"] show ?case by auto
qed

lemma flaky_local:
  assumes "calls_local cl nets tagging"
  shows "calls_local (flaky e cl) (\<lambda>s. nets (fst s)) (\<lambda>s. tagging (fst s))"
proof -
  have l: "nets (snd (DescribeGlobalNetworks cl di w)) = nets w"
    "CreateGlobalNetwork cl ci w = ((resp, err), w') \<Longrightarrow> nets w \<subseteq>\<^sub>m nets w'"
    "update_GlobalNetworkId ui \<noteq> Some j \<Longrightarrow> nets (snd (UpdateGlobalNetwork cl ui w)) j = nets w j"
    "delete_GlobalNetworkId xi \<noteq> Some j \<Longrightarrow> nets (snd (DeleteGlobalNetwork cl xi w)) j = nets w j"
    "map_option sdk_GlobalNetworkArn (nets (snd (UpdateGlobalNetwork cl ui w)) j) = map_option sdk_GlobalNetworkArn (nets w j)"
    "nets (snd (DeleteGlobalNetwork cl xi w)) j = Some n \<Longrightarrow> map_option sdk_GlobalNetworkArn (nets w j) = Some (sdk_GlobalNetworkArn n)"
    "tag_ResourceArn ti \<noteq> Some b \<Longrightarrow> tagging (snd (TagResource cl ti w)) b = tagging w b"
    "untag_ResourceArn vi \<noteq> Some b \<Longrightarrow> tagging (snd (UntagResource cl vi w)) b = tagging w b"
    "nets w i = Some n \<Longrightarrow> nets w j = Some k \<Longrightarrow> sdk_GlobalNetworkArn n = sdk_GlobalNetworkArn k \<Longrightarrow> i = j"
    for di ci resp err w w' ui xi j n ti vi b i k
    using assms unfolding calls_local_def by metis+
  have create: "nets (fst s) \<subseteq>\<^sub>m nets (fst s')"
    if "flaky_call (None, Some e) (CreateGlobalNetwork cl inp) s = ((resp, err), s')" for inp s resp err s'
    using flaky_create_local [where f = "CreateGlobalNetwork cl inp" and nets = nets and s = s and r = "(None, Some e)"] l(2)
    by (simp add: that)
  show ?thesis
    unfolding calls_local_def flaky_sel
  proof (intro conjI allI impI, goal_cases)
    case (1 inp s)
    show ?case by (rule flaky_same) (rule l(1))
  next
    case (2 inp s resp err s')
    show ?case using create [OF 2] by simp
  next
    case (3 inp s j)
    show ?case by (rule flaky_same [where F = "\<lambda>w. nets w j"]) (rule l(3) [OF 3])
  next
    case (4 inp s j)
    show ?case by (rule flaky_same [where F = "\<lambda>w. nets w j"]) (rule l(4) [OF 4])
  next
    case (5 inp s j)
    show ?case by (rule flaky_same [where F = "\<lambda>w. map_option sdk_GlobalNetworkArn (nets w j)"]) (rule l(5))
  next
    case (6 inp s j n)
    then show ?case using l(6) by (cases rule: flaky_cases [of "Some e" "DeleteGlobalNetwork cl inp" s]) simp_all
  next
    case (7 inp s b)
    show ?case by (rule flaky_same [where F = "\<lambda>w. tagging w b"]) (rule l(7) [OF 7])
  next
    case (8 inp s b)
    show ?case by (rule flaky_same [where F = "\<lambda>w. tagging w b"]) (rule l(8) [OF 8])
  next
    case (9 s i j n m)
    then show ?case by (rule l(9))
  qed
qed

end
