(* ===== verification/ExampleJson.thy ===== *)
theory ExampleJson
  imports ResourceJson
begin

text \<open>
  Codecs for the structs of other packages, with the members these structs have in JSON: an instance
  of what \<open>ResourceJson\<close> asks of them, used in the witnesses.
\<close>

section \<open>Further types\<close>

definition time_j :: "gotime jcodec" where
  "time_j = \<lparr>j_enc = JNum, j_dec = (\<lambda>j. case j of JNum t \<Rightarrow> Some t | JNull \<Rightarrow> Some 0 | _ \<Rightarrow> None),
     j_norm = (\<lambda>t. t), j_zero = 0\<rparr>"

definition dec_text :: "json \<Rightarrow> string option" where
  "dec_text j = (case j of JStr s \<Rightarrow> Some s | _ \<Rightarrow> None)"

definition map_j :: "string gomap jcodec" where
  "map_j = \<lparr>j_enc = (\<lambda>m. JObj (map (\<lambda>(k, v). (k, JStr v)) m)),
     j_dec = (\<lambda>j. case j of
        JObj kvs \<Rightarrow> map_option (zip (map fst kvs)) (dec_list dec_text (map snd kvs))
      | JNull \<Rightarrow> Some [] | _ \<Rightarrow> None),
     j_norm = (\<lambda>m. m), j_zero = []\<rparr>"

abbreviation text_member :: "string \<Rightarrow> string jmembers" where
  "text_member name \<equiv> member_j name (\<lambda>s. s = []) string_j"

text \<open>An inlined struct.\<close>

definition inline_j :: "('s \<Rightarrow> 'v) \<Rightarrow> ('v \<Rightarrow> 's) \<Rightarrow> 'v jmembers \<Rightarrow> 's jmembers" where
  "inline_j parts of_parts m = \<lparr>
     m_write = (\<lambda>s. m_write m (parts s)), m_read = (\<lambda>f. map_option of_parts (m_read m f)),
     m_norm = (\<lambda>s. of_parts (m_norm m (parts s))), m_zero = of_parts (m_zero m), m_names = m_names m\<rparr>"

lemma time_json [json_intros]: "json_codec time_j"
  by unfold_locales (simp_all add: time_j_def)

lemma dec_texts: "dec_list dec_text (map (\<lambda>(k, v). JStr v) m) = Some (map snd m)"
  by (induction m) (auto simp: dec_text_def)

lemma map_json [json_intros]: "json_codec map_j"
proof
  fix m :: "string gomap"
  have "map (\<lambda>(k, v). k) m = map fst m" "zip (map fst m) (map snd m) = m"
    by (simp_all add: case_prod_unfold zip_map_fst_snd)
  then show "j_dec map_j (j_enc map_j m) = Some (j_norm map_j m)"
    using dec_texts [of m] by (simp add: map_j_def case_prod_unfold comp_def)
qed (simp_all add: map_j_def)

lemma text_member_json [json_intros]: "json_members (text_member name)"
  by (rule member_json [OF string_json]) (simp_all add: string_j_def)

lemma inline_json:
  assumes m: "json_members m" and "\<And>v. parts (of_parts v) = v"
  shows "json_members (inline_j parts of_parts m)"
proof
  fix f f' :: "string \<rightharpoonup> json"
  assume "\<And>k. k \<in> set (m_names (inline_j parts of_parts m)) \<Longrightarrow> f k = f' k"
  then have "m_read m f = m_read m f'" by (intro json_members.read_local [OF m]) (simp add: inline_j_def)
  then show "m_read (inline_j parts of_parts m) f = m_read (inline_j parts of_parts m) f'" by (simp add: inline_j_def)
qed (simp_all add: inline_j_def json_members.names [OF m] json_members.distinct_names [OF m]
    json_members.read_write [OF m] json_members.members_norm [OF m] assms(2))

lemma text_norm [simp]: "j_norm string_j s = s" "m_norm (text_member name) s = s"
  by (simp_all add: string_j_def member_j_def)

lemma texts_norm [simp]: "map_option (map (j_norm string_j)) xs = xs"
  by (cases xs) (simp_all add: map_idI)

section \<open>The structs\<close>

definition type_meta_j :: "type_meta jmembers" where
  "type_meta_j = inline_j (\<lambda>t. (Kind t, APIVersion t)) (\<lambda>(k, v). \<lparr>Kind = k, APIVersion = v\<rparr>)
     (and_j (text_member ''kind'') (text_member ''apiVersion''))"

definition object_meta_j :: "object_meta jcodec" where
  "object_meta_j =
     struct_j (\<lambda>m. (om_Name m, om_Namespace m, DeletionTimestamp m, Finalizers m, Annotations m, om_rest m))
       (\<lambda>(n, ns, d, f, a, r). \<lparr>om_Name = n, om_Namespace = ns, DeletionTimestamp = d, Finalizers = f,
          Annotations = a, om_rest = r\<rparr>)
       (and_j (text_member ''name'') (and_j (text_member ''namespace'')
       (and_j (ptr_member ''deletionTimestamp'' time_j) (and_j (slice_member ''finalizers'' string_j)
       (and_j (ptr_member ''annotations'' map_j) (text_member ''generateName''))))))"

definition resource_metadata_j :: "resource_metadata jcodec" where
  "resource_metadata_j =
     struct_j (\<lambda>m. (ARN m, OwnerAccountID m, Region m, Partition m))
       (\<lambda>(a, i, r, p). \<lparr>ARN = a, OwnerAccountID = i, Region = r, Partition = p\<rparr>)
       (and_j (ptr_member ''arn'' string_j) (and_j (ptr_member ''ownerAccountID'' string_j)
       (and_j (ptr_member ''region'' string_j) (ptr_member ''partition'' string_j))))"

definition condition_j :: "condition jcodec" where
  "condition_j =
     struct_j (\<lambda>c. (cond_Type c, cond_Status c, cond_LastTransitionTime c, cond_Reason c, cond_Message c))
       (\<lambda>(t, s, l, r, m). \<lparr>cond_Type = t, cond_Status = s, cond_LastTransitionTime = l, cond_Message = m, cond_Reason = r\<rparr>)
       (and_j (member_j ''type'' always string_j) (and_j (member_j ''status'' always string_j)
       (and_j (ptr_member ''lastTransitionTime'' time_j)
       (and_j (ptr_member ''reason'' string_j) (ptr_member ''message'' string_j)))))"

definition example_json :: json_ext where
  "example_json = \<lparr>jx_TypeMeta = type_meta_j, jx_ObjectMeta = object_meta_j, jx_ListMeta = string_j,
     jx_ResourceMetadata = resource_metadata_j, jx_Condition = condition_j, jx_Time = time_j\<rparr>"

lemma type_meta_json: "json_members type_meta_j"
  unfolding type_meta_j_def by (intro inline_json json_intros) auto

lemma object_meta_json: "json_codec object_meta_j"
  unfolding object_meta_j_def by (intro struct_json json_intros) auto

lemma resource_metadata_json: "json_codec resource_metadata_j"
  unfolding resource_metadata_j_def by (intro struct_json json_intros) auto

lemma condition_json: "json_codec condition_j"
  unfolding condition_j_def by (intro struct_json json_intros) auto

lemma example_json_ok: "json_ext_ok example_json"
proof -
  have "om_Name (j_norm object_meta_j m) = om_Name m \<and> om_Namespace (j_norm object_meta_j m) = om_Namespace m \<and>
      finalizers_of (j_norm object_meta_j m) = finalizers_of m" for m
    by (simp add: object_meta_j_def finalizers_of_def slice_norm)
  moreover have "set (m_names type_meta_j) \<inter> {''metadata'', ''spec'', ''status'', ''items''} = {}"
    by (simp add: type_meta_j_def inline_j_def)
  moreover have "j_norm resource_metadata_j m = m \<and> j_enc resource_metadata_j m \<noteq> JNull" for m
    by (simp add: resource_metadata_j_def)
  moreover have "cond_Type (j_norm condition_j c) = cond_Type c \<and> cond_Status (j_norm condition_j c) = cond_Status c \<and>
      j_enc condition_j c \<noteq> JNull" for c
    by (simp add: condition_j_def)
  ultimately show ?thesis
    unfolding json_ext_ok_def example_json_def json_ext.simps
    by (intro conjI allI type_meta_json object_meta_json resource_metadata_json condition_json time_json string_json)
      simp_all
qed

end
