(* ===== verification/ConcurrencyWitnesses.thy ===== *)
theory ConcurrencyWitnesses
  imports LifeWitnesses Concurrency Faults ExampleJson
begin

text \<open>
  Two objects reconciled at a time on the example service: both are read before either is
  written, so each worker has read that there is no network yet when it makes one. In between
  objects are stored as JSON. At last an object retried on a service that loses an answer.
\<close>

declare tag_list_simps [simp del]

abbreviation ex_cluster where "ex_cluster \<equiv> cluster_step example_json example_rt ex_rm ''v1'' []"
abbreviation ex_run where "ex_run \<equiv> cluster_run example_json example_rt ex_rm ''v1'' [] ex_env"

text \<open>The new object with the finalizer, and the two stages on it.\<close>

definition ex_marked :: GlobalNetwork where
  "ex_marked = ex_new_object\<lparr>ObjectMeta := AddFinalizer example_rt (ObjectMeta ex_new_object) FinalizerString\<rparr>"

lemma ex_marked_by: "MarkManaged example_rt (pointer ex_new_object) = Ret (GlobalNetworkPtr (Some ex_marked))"
  by (simp add: MarkManaged_def ex_marked_def)

lemma ex_marked_managed: "IsManaged (pointer ex_marked) = Ret True"
  by code_simp

text \<open>The reading of an object without an identifier calls nothing, so both workers read the same.\<close>

definition ex_r :: resource where
  "ex_r = \<lparr>ko = Some (set_tags (Some (tag_list [(''env'', ''prod''), (''team'', ''net''),
     (''services.k8s.aws/controller-version'', ''v1'')])) ex_marked)\<rparr>"

definition ex_l :: aws_resource where
  "ex_l = (case fst (read_stage example_rt (\<lambda>_. ex_sched) ex_rm ''v1'' (object ex_marked) ex_env) of
     Ret (_, l, _) \<Rightarrow> l | Panic \<Rightarrow> NilInterface)"

abbreviation "ex_e \<equiv> Some (NotFound example_rt)"

lemma ex_reads:
  "read_stage example_rt (\<lambda>_. ex_sched) ex_rm ''v1'' (object ex_marked) ex_env = (Ret (ex_r, ex_l, ex_e), ex_env)"
  by code_simp

text \<open>The object \<open>Create\<close> returns for the identifier \<open>i\<close>, and the world it leaves.\<close>

definition ex_created :: "string \<Rightarrow> GlobalNetwork" where
  "ex_created i = (the (ko ex_r))\<lparr>Status :=
     \<lparr>ACKResourceMetadata = Some \<lparr>ARN = Some (arn_of i), OwnerAccountID = Some ''123456789012'',
        Region = Some ''us-west-2'', Partition = Some ''aws''\<rparr>,
      Conditions = Some [Some (ex_condition\<lparr>cond_Status := ConditionFalse, cond_Message := None\<rparr>)],
      CreatedAt = None, GlobalNetworkID = Some i, State = Some ''PENDING''\<rparr>\<rparr>"

definition ex_add :: "string \<Rightarrow> (world, string) env \<Rightarrow> (world, string) env" where
  "ex_add i w = \<lparr>svc = (svc w)\<lparr>w_nets := (i, Some ''new'', ''PENDING'') # w_nets (svc w),
       w_tags := (arn_of i, [(''env'', ''prod''), (''team'', ''net''),
         (''services.k8s.aws/controller-version'', ''v1'')]) # w_tags (svc w)\<rparr>,
     api_calls = api_calls w @ [(''CREATE'', ''CreateGlobalNetwork'', None)]\<rparr>"

abbreviation "ex_one \<equiv> ex_add ''nn1'' ex_env"
abbreviation "ex_other \<equiv> ex_add ''nnn1n1'' ex_one"

lemma ex_creates:
  "Create example_rt ex_rm (ResourcePtr (Some ex_r)) ex_env = (Ret (object (ex_created ''nn1''), None), ex_one)"
  "Create example_rt ex_rm (ResourcePtr (Some ex_r)) ex_one = (Ret (object (ex_created ''nnn1n1''), None), ex_other)"
  by code_simp+

lemma ex_writes:
  "write_stage example_rt s ex_rm sys ex_r ex_l ex_e ex_env = (Ret (Inr (object (ex_created ''nn1''))), ex_one)"
  "write_stage example_rt s ex_rm sys ex_r ex_l ex_e ex_one = (Ret (Inr (object (ex_created ''nnn1n1''))), ex_other)"
  by (simp_all add: write_stage_def ex_creates)

text \<open>
  The run: both objects are marked and read, the first is edited and then written, at last the
  second is written.
\<close>

definition ex_work :: "GlobalNetwork \<Rightarrow> string work" where
  "ex_work g = \<lparr>stored = g, phase = Observed ex_marked ex_r ex_l ex_e\<rparr>"

definition ex_done :: "GlobalNetwork \<Rightarrow> GlobalNetwork \<Rightarrow> string work" where
  "ex_done g g' = \<lparr>stored = g\<lparr>Status := Status g'\<rparr>, phase = Idle\<rparr>"

definition ex_edited :: GlobalNetwork where
  "ex_edited = with_spec (Spec ex_latest) ex_marked"

abbreviation "ex_half \<equiv> [0 \<mapsto> ex_done ex_edited (ex_created ''nn1''), 1 \<mapsto> ex_work ex_marked]"
abbreviation "ex_both \<equiv> [0 \<mapsto> ex_done ex_edited (ex_created ''nn1''), 1 \<mapsto> ex_done ex_marked (ex_created ''nnn1n1'')]"

lemma ex_begin:
  assumes run: "ex_run k (objs, ex_env)" and t: "objs t = None"
  shows "ex_run k (objs(t \<mapsto> ex_work ex_marked), ex_env)"
proof -
  let ?new = "\<lparr>stored = ex_new_object, phase = Idle\<rparr>" and ?marked = "\<lparr>stored = ex_marked, phase = Idle\<rparr>"
  have "ex_cluster (objs, ex_env) (objs(t \<mapsto> ?new), ex_env)"
    by (rule cluster_step.appear [where t = t and objs = objs, OF t]) (simp_all add: ex_new_object_def)
  with run have "ex_run k (objs(t \<mapsto> ?new), ex_env)" by (rule run_step)
  moreover have "ex_cluster (objs(t \<mapsto> ?new), ex_env) (objs(t \<mapsto> ?marked), ex_env)"
    using cluster_step.mark [of "objs(t \<mapsto> ?new)" t ?new example_rt ex_marked] by (simp add: ex_marked_by)
  ultimately have "ex_run k (objs(t \<mapsto> ?marked), ex_env)" by (rule run_step)
  moreover have "ex_cluster (objs(t \<mapsto> ?marked), ex_env) (objs(t \<mapsto> ex_work ex_marked), ex_env)"
    using cluster_step.observe [where objs = "objs(t \<mapsto> ?marked)" and t = t and x = ?marked and rt = example_rt
        and s = "\<lambda>_. ex_sched" and rm = ex_rm and md = "''v1''" and w = ex_env and r = ex_r and latest = ex_l
        and err = ex_e and w' = ex_env and sys = "[]"]
    by (simp add: ex_marked_managed ex_work_def ex_reads)
  ultimately show ?thesis by (rule run_step)
qed

lemma ex_write_first:
  "ex_cluster ([0 \<mapsto> ex_work ex_edited, 1 \<mapsto> ex_work ex_marked], ex_env) (ex_half, ex_one)"
proof -
  let ?objs = "[0::nat \<mapsto> ex_work ex_edited, 1 \<mapsto> ex_work ex_marked]"
  have "ex_cluster (?objs, ex_env) (?objs(0 \<mapsto> ex_done ex_edited (ex_created ''nn1'')), ex_one)"
    unfolding ex_done_def
    by (rule cluster_step.written [where x = "ex_work ex_edited", OF _ _ ex_writes(1)])
      (simp_all add: ex_work_def status_set)
  then show ?thesis by (simp add: fun_upd_twist)
qed

lemma ex_half_reached: "ex_run 0 (ex_half, ex_one)"
proof -
  let ?objs = "[0::nat \<mapsto> ex_work ex_marked, 1 \<mapsto> ex_work ex_marked]"
  have "ex_run 0 (?objs, ex_env)" by (intro ex_begin run_empty) simp_all
  moreover have "ex_cluster (?objs, ex_env) (?objs(0 \<mapsto> ex_work ex_edited), ex_env)"
  proof -
    have "ex_work ex_edited = (ex_work ex_marked)\<lparr>stored := with_spec (Spec ex_latest) (stored (ex_work ex_marked))\<rparr>"
      by (simp add: ex_work_def ex_edited_def)
    moreover have "tags_wf (Tags (Spec ex_latest))" by (simp add: ex_latest_def)
    ultimately show ?thesis by (simp only:) (rule cluster_step.edit, simp_all)
  qed
  ultimately have "ex_run 0 (?objs(0 \<mapsto> ex_work ex_edited), ex_env)" by (rule run_step)
  moreover have "?objs(0 \<mapsto> ex_work ex_edited) = [0 \<mapsto> ex_work ex_edited, 1 \<mapsto> ex_work ex_marked]"
    by (auto simp: fun_eq_iff)
  ultimately show ?thesis using run_step [OF _ ex_write_first] by simp
qed

lemma ex_both_reached: "ex_run 0 (ex_both, ex_other)"
proof -
  have "ex_cluster (ex_half, ex_one) (ex_half(1 \<mapsto> ex_done ex_marked (ex_created ''nnn1n1'')), ex_other)"
    unfolding ex_done_def [of ex_marked]
    by (rule cluster_step.written [where x = "ex_work ex_marked", OF _ _ ex_writes(2)])
      (simp_all add: ex_work_def status_set)
  then show ?thesis using run_step [OF ex_half_reached] by simp
qed

text \<open>At last the first object is stored and read again.\<close>

definition ex_kept :: "string work" where
  "ex_kept = (ex_done ex_edited (ex_created ''nn1''))
     \<lparr>stored := stored_form example_json (stored (ex_done ex_edited (ex_created ''nn1'')))\<rparr>"

lemma ex_kept_reached: "ex_run 0 (ex_both(0 \<mapsto> ex_kept), ex_other)"
proof -
  have "j_dec (network_j example_json) (j_enc (network_j example_json) g) = Some (stored_form example_json g)" for g
    using json_codec.dec_enc [OF network_json [OF example_json_ok]] by (simp add: network_norm)
  then have "ex_cluster (ex_both, ex_other) (ex_both(0 \<mapsto> ex_kept), ex_other)"
    unfolding ex_kept_def by (intro cluster_step.persist) simp_all
  with ex_both_reached show ?thesis by (rule run_step)
qed

text \<open>
  Had the controller been stopped before the second object could be stored, its network would
  be there and no object would name it: one stop can lose one network.
\<close>

lemma ex_stopped:
  "ex_run 1 (ex_half(1 \<mapsto> (ex_work ex_marked)\<lparr>phase := Idle\<rparr>), ex_other)"
proof -
  have "cluster_stop example_rt ex_rm [] (ex_half, ex_one) (ex_half(1 \<mapsto> (ex_work ex_marked)\<lparr>phase := Idle\<rparr>), ex_other)"
    by (rule cluster_stop.stop [where x = "ex_work ex_marked", OF _ _ ex_writes(2)]) (simp_all add: ex_work_def)
  from run_stop [OF ex_half_reached this] show ?thesis by simp
qed

lemma ex_stop_loses:
  "example_nets (svc ex_other) ''nnn1n1'' \<noteq> None \<and>
   \<not> names (objects (ex_half(1 \<mapsto> (ex_work ex_marked)\<lparr>phase := Idle\<rparr>))) t ''nnn1n1''"
proof -
  have "example_nets (svc ex_other) ''nnn1n1'' \<noteq> None" by code_simp
  moreover have "GlobalNetworkID (Status ex_marked) = None" by (simp add: ex_marked_def ex_new_object_def)
  ultimately show ?thesis by (auto simp: names_def objects_def ex_work_def ex_done_def ex_created_def)
qed

text \<open>The second network and the object that names it.\<close>

lemma ex_other_made:
  "(case example_nets (svc ex_other) ''nnn1n1'' of None \<Rightarrow> False | Some n \<Rightarrow> sdk_State n = ''PENDING'') \<and>
   example_nets (svc ex_env) ''nnn1n1'' = None"
  by code_simp

text \<open>The example service makes no network when it refuses to, so here none can be lost.\<close>

lemma ex_create_leaves: "create_leaves (sdkapi ex_rm) example_nets 0"
  by (simp add: create_leaves_def ex_rm_def example_client_def Let_def)

lemma none_lost: "\<exists>L. finite L \<and> card L \<le> 0 + 0 * n \<and> A L \<and> B L \<Longrightarrow> B {}"
  by auto

theorem workers_one_to_one_witness:
  "alike (example_nets (svc ex_env) ''n1'') (example_nets (svc ex_other) ''n1'') \<and>
   example_nets (svc ex_other) ''nnn1n1'' \<noteq> None \<and> (\<exists>!t. names (objects (ex_both(0 \<mapsto> ex_kept))) t ''nnn1n1'')"
proof -
  note one = workers_one_to_one [OF ex_service ex_calls_local ex_ids_unique ex_libs example_finalizer_lib
      example_json_ok ex_kept_reached ex_create_leaves]
  obtain n where n: "example_nets (svc ex_other) ''nnn1n1'' = Some n" "sdk_State n = ''PENDING''"
    using ex_other_made by (auto split: option.splits)
  have "sdk_State n \<noteq> ''DELETING''" by (simp add: n(2))
  then have "\<exists>!t. names (objects (ex_both(0 \<mapsto> ex_kept))) t ''nnn1n1''"
    using none_lost [OF one [THEN conjunct2, THEN conjunct2]] n(1) ex_other_made by blast
  moreover have "example_nets (svc ex_env) ''n1'' \<noteq> None" using ex_network_found by simp
  ultimately show ?thesis using one [THEN conjunct1] n(1) by blast
qed

theorem worker_writes_witness:
  "\<exists>g' i n. write_stage example_rt (\<lambda>_. ex_sched) ex_rm [] ex_r ex_l ex_e ex_one =
      (Ret (Inr (ex_ptr g')), ex_other) \<and> GlobalNetworkID (Status g') = Some i \<and>
    example_nets (svc ex_other) i = Some n \<and> sdk_Description n = Some ''new''"
proof -
  have x: "ex_half 1 = Some (ex_work ex_marked)" "phase (ex_work ex_marked) = Observed ex_marked ex_r ex_l ex_e"
    by (simp_all add: ex_work_def)
  have "Description (Spec ex_marked) = Some ''new''" by (simp add: ex_marked_def ex_new_object_def)
  with worker_writes [OF ex_service ex_calls_local ex_ids_unique ex_libs example_finalizer_lib example_json_ok ex_half_reached x,
      of "\<lambda>_. ex_sched"] ex_writes(2)
  show ?thesis by (simp add: ex_libs) blast
qed

section \<open>An object stored as JSON\<close>

text \<open>An object with an empty list of tags, its text of the spec, and what is read back.\<close>

definition ex_untagged :: GlobalNetwork where
  "ex_untagged = set_tags (Some []) ex_latest"

lemma ex_spec_text:
  "j_enc spec_j (Spec ex_untagged) = JObj [(''description'', JStr ''old'')]"
  by code_simp

theorem resource_json_roundtrip_witness:
  "\<exists>g'. j_dec (network_j example_json) (j_enc (network_j example_json) ex_untagged) = Some g' \<and>
    Tags (Spec g') = None \<and> Description (Spec g') = Description (Spec ex_untagged)"
proof -
  have "tags_wf (Tags (Spec ex_untagged))" by (simp add: ex_untagged_def tags_wf_def)
  then show ?thesis
    using resource_json_roundtrip [OF example_json_ok example_tags_lib example_compare_lib, of ex_untagged]
    by (simp add: ex_untagged_def) blast
qed

section \<open>Retries\<close>

text \<open>
  The answer to the first creation is lost after it was carried out; the second attempt succeeds. The
  network of the first is lost: one failed creation can lose one network.
\<close>

definition ex_flaky_rm :: "(world \<times> fate list, string) resourceManager" where
  "ex_flaky_rm = \<lparr>cfg = cfg ex_rm, clientcfg = clientcfg ex_rm, awsAccountID = awsAccountID ex_rm,
     awsRegion = awsRegion ex_rm, awsPartition = awsPartition ex_rm, sdkapi = flaky ''timeout'' (sdkapi ex_rm)\<rparr>"

definition ex_flaky_env :: "(world \<times> fate list, string) env" where
  "ex_flaky_env = \<lparr>svc = (svc ex_env, [Unanswered]), api_calls = []\<rparr>"

abbreviation "flaky_nets \<equiv> (\<lambda>s :: world \<times> fate list. example_nets (fst s))"
abbreviation "flaky_tagging \<equiv> (\<lambda>s :: world \<times> fate list. example_tagging (fst s))"
abbreviation "flaky_used \<equiv> (\<lambda>s :: world \<times> fate list. example_used (fst s))"

lemma ex_flaky:
  "service_ok example_rt (sdkapi ex_flaky_rm) flaky_nets flaky_tagging"
  "calls_local (sdkapi ex_flaky_rm) flaky_nets flaky_tagging"
  "ids_unique (sdkapi ex_flaky_rm) flaky_nets flaky_used"
proof -
  have "''timeout'' \<noteq> NotFound example_rt" "AsAPIErrorCode example_rt ''timeout'' \<noteq> Some ''ResourceNotFoundException''"
    by (simp_all add: example_rt_def)
  from flaky_service [OF ex_service this]
  show "service_ok example_rt (sdkapi ex_flaky_rm) flaky_nets flaky_tagging" by (simp add: ex_flaky_rm_def)
  show "calls_local (sdkapi ex_flaky_rm) flaky_nets flaky_tagging"
    using flaky_local [OF ex_calls_local] by (simp add: ex_flaky_rm_def)
  show "ids_unique (sdkapi ex_flaky_rm) flaky_nets flaky_used"
    using flaky_ids [OF ex_ids_unique] by (simp add: ex_flaky_rm_def)
qed

abbreviation ex_retry where
  "ex_retry m \<equiv> retry m example_rt (\<lambda>_ _. ex_sched) ex_flaky_rm ''v1'' [] (object ex_new_object) ex_flaky_env"

fun sync_ok :: "('e + aws_resource) outcome \<Rightarrow> bool" where
  "sync_ok (Ret (Inr out)) \<longleftrightarrow> True"
| "sync_ok _ \<longleftrightarrow> False"

lemma ex_retries:
  "\<not> sync_ok (fst (ex_retry 0)) \<and> failed_creations (snd (ex_retry 0)) = 1 \<and>
     flaky_nets (svc (snd (ex_retry 0))) ''nn1'' \<noteq> None \<and> flaky_nets (svc ex_flaky_env) ''nn1'' = None"
  "sync_ok (fst (ex_retry 1)) \<and> failed_calls (snd (ex_retry 1)) = 1"
  by code_simp+

theorem retries_succeed_witness:
  "\<exists>g' i n w'. ex_retry 1 = (Ret (Inr (ex_ptr g')), w') \<and> GlobalNetworkID (Status g') = Some i \<and>
    flaky_nets (svc w') i = Some n \<and> sdk_Description n = Some ''new'' \<and> failed_calls w' = 1"
proof -
  have g: "conds_wf (conds_of ex_new_object)" "tags_wf (Tags (Spec ex_new_object))"
    "GlobalNetworkID (Status ex_new_object) = None" "Description (Spec ex_new_object) = Some ''new''"
    by (simp_all add: ex_new_object_def)
  obtain out w' where run: "ex_retry 1 = (Ret (Inr out), w')" "failed_calls w' = 1"
    using ex_retries(2) by (cases "ex_retry 1") (auto elim!: sync_ok.elims(2))
  have "\<exists>res w'. ex_retry 1 = (Ret res, w') \<and>
    (case res of Inl e \<Rightarrow> failed_calls ex_flaky_env + 1 < failed_calls w'
     | Inr out \<Rightarrow> \<exists>g' i n. out = ex_ptr g' \<and> GlobalNetworkID (Status g') = Some i \<and>
         flaky_nets (svc w') i = Some n \<and>
         (\<forall>k. \<not> prefix ''aws:'' k \<and> k \<notin> set [] \<longrightarrow>
            net_tags n k = (mget (GetDefaultTags example_rt (cfg ex_flaky_rm) ex_new_object ''v1'') ++
              tag_map (Tags (Spec ex_new_object))) k) \<and>
         (Description (Spec ex_new_object) \<noteq> None \<longrightarrow> sdk_Description n = Description (Spec ex_new_object)))"
    by (rule retries_succeed [OF ex_flaky ex_libs g(1,2)]) (simp_all add: g(3))
  with run g(4) show ?thesis by auto
qed

end
