(* ===== verification/GoHeap.thy ===== *)
theory GoHeap
  imports ApiTypes
begin

text \<open>
  Memory as the generated copies (\<open>apis/v1alpha1/zz_generated.deepcopy.go\<close>) see it: a struct in
  memory is a record of pointers (addresses), a heap maps addresses to cells. The locale
  \<open>deep_copy\<close> is the contract of a copy function: it returns a copy that reads as the same
  value and all of whose cells are new, and it leaves the old cells alone. The contract
  composes: pointers, slices and structs of copyable fields are copyable.
\<close>

section \<open>Heaps\<close>

type_synonym addr = nat

text \<open>\<open>apis/v1alpha1/types.go\<close>, \<open>Tag\<close>, as it lies in memory.\<close>

record tag_mem =
  m_Key :: "addr option"
  m_Value :: "addr option"

text \<open>\<open>GlobalNetworkSpec\<close>, \<open>GlobalNetworkStatus\<close> and \<open>GlobalNetwork\<close>; \<open>'x\<close> is a struct of another package.\<close>

record spec_mem =
  m_Description :: "addr option"
  m_Tags :: "addr option"

record status_mem =
  m_ACKResourceMetadata :: "addr option"
  m_Conditions :: "addr option"
  m_CreatedAt :: "addr option"
  m_GlobalNetworkID :: "addr option"
  m_State :: "addr option"

record 'x network_mem =
  m_TypeMeta :: type_meta
  m_ObjectMeta :: 'x
  m_Spec :: spec_mem
  m_Status :: status_mem

text \<open>\<open>GlobalNetworkList\<close>; its items are structs in an array, not pointers.\<close>

record 'x network_list_mem =
  ml_TypeMeta :: type_meta
  ml_ListMeta :: 'x
  ml_Items :: "addr option"

text \<open>A struct that consists of pointers only can also lie in memory as the list of its words.\<close>

datatype 'x cell =
    StringCell string
  | TagCell tag_mem
  | StructCell "addr option list"
  | ArrayCell "addr option list"
  | SpecCell spec_mem
  | StatusCell status_mem
  | NetworkCell "'x network_mem"
  | NetworksCell "'x network_mem list"
  | NetworkListCell "'x network_list_mem"
  | ExtCell 'x
  | ZeroCell

record 'x heap =
  cells :: "addr \<Rightarrow> 'x cell option"
  next_addr :: addr

definition heap_ok :: "'x heap \<Rightarrow> bool" where
  "heap_ok h \<longleftrightarrow> (\<forall>a. cells h a \<noteq> None \<longrightarrow> a < next_addr h)"

definition alloc :: "'x cell \<Rightarrow> 'x heap \<Rightarrow> addr \<times> 'x heap" where
  "alloc c h = (next_addr h, h\<lparr>cells := (cells h)(next_addr h \<mapsto> c), next_addr := Suc (next_addr h)\<rparr>)"

definition store :: "addr \<Rightarrow> 'x cell \<Rightarrow> 'x heap \<Rightarrow> 'x heap" where
  "store a c h = h\<lparr>cells := (cells h)(a \<mapsto> c)\<rparr>"

text \<open>A heap that has all the cells of another unchanged, and only new ones beside them.\<close>

definition extends :: "'x heap \<Rightarrow> 'x heap \<Rightarrow> bool" where
  "extends h h' \<longleftrightarrow> next_addr h \<le> next_addr h' \<and> (\<forall>a < next_addr h. cells h' a = cells h a)"

lemma extends_refl [simp]: "extends h h"
  by (simp add: extends_def)

lemma extends_trans [trans]: "extends h h' \<Longrightarrow> extends h' h'' \<Longrightarrow> extends h h''"
  by (fastforce simp: extends_def)

lemma heap_simps [simp]:
  "cells (store a c h) = (cells h)(a \<mapsto> c)" "next_addr (store a c h) = next_addr h"
  "fst (alloc c h) = next_addr h" "next_addr (snd (alloc c h)) = Suc (next_addr h)"
  "cells (snd (alloc c h)) = (cells h)(next_addr h \<mapsto> c)"
  by (simp_all add: store_def alloc_def)

lemma alloc_law:
  assumes "heap_ok h"
  shows "extends h (snd (alloc c h))" and "heap_ok (snd (alloc c h))"
  using assms by (auto simp: extends_def heap_ok_def less_Suc_eq split: if_splits)

lemma store_law:
  assumes "heap_ok h'" and "extends h h'" and "next_addr h \<le> a" and "a < next_addr h'"
  shows "extends h (store a c h')" and "heap_ok (store a c h')"
  using assms by (auto simp: extends_def heap_ok_def)

section \<open>The contract\<close>

text \<open>
  \<open>rd h p\<close> is the value \<open>p\<close> has in \<open>h\<close> (none if a pointer dangles), \<open>rc h p\<close> the cells this
  value is made of, \<open>cp\<close> the copy function.
\<close>

locale deep_copy =
  fixes rd :: "'x heap \<Rightarrow> 'p \<Rightarrow> 'v option"
    and rc :: "'x heap \<Rightarrow> 'p \<Rightarrow> addr set"
    and cp :: "'p \<Rightarrow> 'x heap \<Rightarrow> ('p \<times> 'x heap) outcome"
  assumes rc_cells: "rd h p = Some v \<Longrightarrow> a \<in> rc h p \<Longrightarrow> cells h a \<noteq> None"
    and rd_local: "rd h p = Some v \<Longrightarrow> (\<And>a. a \<in> rc h p \<Longrightarrow> cells h' a = cells h a) \<Longrightarrow>
      rd h' p = Some v \<and> rc h' p = rc h p"
    and cp_law: "heap_ok h \<Longrightarrow> rd h p = Some v \<Longrightarrow>
      \<exists>p' h'. cp p h = Ret (p', h') \<and> extends h h' \<and> heap_ok h' \<and> rd h' p' = Some v \<and>
        rc h' p' \<subseteq> {next_addr h..<next_addr h'}"
begin

lemma rc_bound: "heap_ok h \<Longrightarrow> rd h p = Some v \<Longrightarrow> rc h p \<subseteq> {..<next_addr h}"
  using rc_cells by (auto simp: heap_ok_def)

lemma rd_extends:
  assumes "heap_ok h" and "rd h p = Some v" and "extends h h'"
  shows "rd h' p = Some v \<and> rc h' p = rc h p"
  using rc_bound [OF assms(1,2)] assms(3) by (intro rd_local [OF assms(2)]) (auto simp: extends_def)

text \<open>
  Original and copy are independent: whatever is done to the cells of one, the other keeps
  its value.
\<close>

lemma independent:
  assumes ok: "heap_ok h" and v: "rd h p = Some v" and run: "cp p h = Ret (p', h')"
  shows "(\<And>a. a \<notin> rc h' p' \<Longrightarrow> cells h2 a = cells h' a) \<Longrightarrow> rd h2 p = Some v"
    and "(\<And>a. a \<notin> rc h p \<Longrightarrow> cells h2 a = cells h' a) \<Longrightarrow> rd h2 p' = Some v"
proof -
  have h': "extends h h'" "rd h' p' = Some v" "rc h' p' \<subseteq> {next_addr h..<next_addr h'}"
    using cp_law [OF ok v] run by auto
  have p: "rd h' p = Some v" "rc h' p = rc h p" using rd_extends [OF ok v h'(1)] by auto
  have disj: "rc h p \<inter> rc h' p' = {}" using rc_bound [OF ok v] h'(3) by fastforce
  show "rd h2 p = Some v" if "\<And>a. a \<notin> rc h' p' \<Longrightarrow> cells h2 a = cells h' a"
    using rd_local [OF p(1), of h2] that disj p(2) by blast
  show "rd h2 p' = Some v" if "\<And>a. a \<notin> rc h p \<Longrightarrow> cells h2 a = cells h' a"
    using rd_local [OF h'(2), of h2] that disj by blast
qed

end

section \<open>The promise of \<open>DeepCopy\<close>\<close>

text \<open>
  What a function that copies the target of a pointer promises. On every heap in which the
  pointer reads as a value, it returns a pointer that reads as the same value, nil for nil and
  only then; original and copy have no cell in common, and whatever happens to the cells of one
  of them, the other keeps its value.
\<close>

definition copied_deeply ::
  "('x heap \<Rightarrow> addr option \<Rightarrow> 'v option option) \<Rightarrow> ('x heap \<Rightarrow> addr option \<Rightarrow> addr set) \<Rightarrow>
   (addr option \<Rightarrow> 'x heap \<Rightarrow> (addr option \<times> 'x heap) outcome) \<Rightarrow> bool" where
  "copied_deeply rd rc cp \<longleftrightarrow>
     (\<forall>h p v. heap_ok h \<longrightarrow> rd h p = Some v \<longrightarrow>
        (\<exists>p' h'. cp p h = Ret (p', h') \<and> (p' = None \<longleftrightarrow> p = None) \<and>
           rd h' p' = Some v \<and> rd h' p = Some v \<and> rc h' p' \<inter> rc h' p = {} \<and>
           (\<forall>h2. (\<forall>a. a \<notin> rc h' p' \<longrightarrow> cells h2 a = cells h' a) \<longrightarrow> rd h2 p = Some v) \<and>
           (\<forall>h2. (\<forall>a. a \<notin> rc h' p \<longrightarrow> cells h2 a = cells h' a) \<longrightarrow> rd h2 p' = Some v)))"

lemma copied_deeplyI:
  assumes d: "deep_copy rd rc cp" and nil: "\<And>h p v. rd h p = Some v \<Longrightarrow> p = None \<longleftrightarrow> v = None"
  shows "copied_deeply rd rc cp"
  unfolding copied_deeply_def
proof (intro allI impI)
  fix h p v
  assume ok: "heap_ok h" and v: "rd h p = Some v"
  obtain p' h' where run: "cp p h = Ret (p', h')" and h': "extends h h'"
    "rd h' p' = Some v" "rc h' p' \<subseteq> {next_addr h..<next_addr h'}"
    using deep_copy.cp_law [OF d ok v] by blast
  have p: "rd h' p = Some v" "rc h' p = rc h p"
    using deep_copy.rd_extends [OF d ok v h'(1)] by auto
  have "rc h' p' \<inter> rc h' p = {}"
    using deep_copy.rc_bound [OF d ok v] h'(3) p(2) by fastforce
  moreover have "p' = None \<longleftrightarrow> p = None" using nil p(1) h'(2) by metis
  ultimately show "\<exists>p' h'. cp p h = Ret (p', h') \<and> (p' = None \<longleftrightarrow> p = None) \<and>
      rd h' p' = Some v \<and> rd h' p = Some v \<and> rc h' p' \<inter> rc h' p = {} \<and>
      (\<forall>h2. (\<forall>a. a \<notin> rc h' p' \<longrightarrow> cells h2 a = cells h' a) \<longrightarrow> rd h2 p = Some v) \<and>
      (\<forall>h2. (\<forall>a. a \<notin> rc h' p \<longrightarrow> cells h2 a = cells h' a) \<longrightarrow> rd h2 p' = Some v)"
    using run p h'(2) deep_copy.independent [OF d ok v run]
    by (intro exI [of _ p'] exI [of _ h']) simp
qed

lemma copied_deeplyE:
  assumes "copied_deeply rd rc cp" and "heap_ok h" and "rd h p = Some v"
  obtains p' h' where "cp p h = Ret (p', h')" and "p' = None \<longleftrightarrow> p = None"
    and "rd h' p' = Some v" and "rd h' p = Some v" and "rc h' p' \<inter> rc h' p = {}"
    and "\<forall>h2. (\<forall>a. a \<notin> rc h' p' \<longrightarrow> cells h2 a = cells h' a) \<longrightarrow> rd h2 p = Some v"
    and "\<forall>h2. (\<forall>a. a \<notin> rc h' p \<longrightarrow> cells h2 a = cells h' a) \<longrightarrow> rd h2 p' = Some v"
  using assms unfolding copied_deeply_def by metis

section \<open>Composing copies\<close>

text \<open>A value without pointers, like the target of a \<open>*string\<close>.\<close>

definition plain_rd :: "'x heap \<Rightarrow> 'v \<Rightarrow> 'v option" where "plain_rd h v = Some v"

definition plain_rc :: "'x heap \<Rightarrow> 'v \<Rightarrow> addr set" where "plain_rc h v = {}"

definition plain_cp :: "'v \<Rightarrow> 'x heap \<Rightarrow> ('v \<times> 'x heap) outcome" where "plain_cp v h = Ret (v, h)"

lemma deep_copy_plain: "deep_copy plain_rd plain_rc plain_cp"
  by unfold_locales (auto simp: plain_rd_def plain_rc_def plain_cp_def)

text \<open>
  A pointer field: nil stays nil, otherwise a new cell is made and the target copied into it.
  \<open>un\<close> reads the target out of a cell, \<open>mk\<close> makes the cell.
\<close>

definition ptr_rd ::
  "('x cell \<Rightarrow> 'c option) \<Rightarrow> ('x heap \<Rightarrow> 'c \<Rightarrow> 'v option) \<Rightarrow> 'x heap \<Rightarrow> addr option \<Rightarrow> 'v option option" where
  "ptr_rd un rd h p =
     (case p of
        None \<Rightarrow> Some None
      | Some a \<Rightarrow> map_option Some (Option.bind (Option.bind (cells h a) un) (rd h)))"

definition ptr_rc ::
  "('x cell \<Rightarrow> 'c option) \<Rightarrow> ('x heap \<Rightarrow> 'c \<Rightarrow> addr set) \<Rightarrow> 'x heap \<Rightarrow> addr option \<Rightarrow> addr set" where
  "ptr_rc un rc h p =
     (case p of
        None \<Rightarrow> {}
      | Some a \<Rightarrow> (case Option.bind (cells h a) un of None \<Rightarrow> {} | Some c \<Rightarrow> insert a (rc h c)))"

definition ptr_cp ::
  "('x cell \<Rightarrow> 'c option) \<Rightarrow> ('c \<Rightarrow> 'x cell) \<Rightarrow> ('c \<Rightarrow> 'x heap \<Rightarrow> ('c \<times> 'x heap) outcome) \<Rightarrow>
   addr option \<Rightarrow> 'x heap \<Rightarrow> (addr option \<times> 'x heap) outcome" where
  "ptr_cp un mk cp p h =
     (case p of
        None \<Rightarrow> Ret (None, h)
      | Some a \<Rightarrow>
          (let (b, h) = alloc ZeroCell h
           in and_then (deref (Option.bind (cells h a) un)) (\<lambda>c.
              and_then (cp c h) (\<lambda>(c, h). Ret (Some b, store b (mk c) h)))))"

lemma deep_copy_ptr:
  fixes rd :: "'x heap \<Rightarrow> 'c \<Rightarrow> 'v option"
  assumes "deep_copy rd rc cp" and un: "\<And>c. un (mk c) = Some c"
  shows "deep_copy (ptr_rd un rd) (ptr_rc un rc) (ptr_cp un mk cp)"
proof -
  note rules = deep_copy.rc_cells [OF assms(1)] deep_copy.rd_local [OF assms(1)] deep_copy.cp_law [OF assms(1)]
  show ?thesis
  proof
    fix h p v a
    assume "ptr_rd un rd h p = Some v" and "a \<in> ptr_rc un rc h p"
    then show "cells h a \<noteq> None"
      using rules(1) by (auto simp: ptr_rd_def ptr_rc_def bind_eq_Some_conv split: option.splits)
  next
    fix h h' :: "'x heap" and p v
    assume v: "ptr_rd un rd h p = Some v" and eq: "\<And>a. a \<in> ptr_rc un rc h p \<Longrightarrow> cells h' a = cells h a"
    show "ptr_rd un rd h' p = Some v \<and> ptr_rc un rc h' p = ptr_rc un rc h p"
    proof (cases p)
      case None
      with v show ?thesis by (simp add: ptr_rd_def ptr_rc_def)
    next
      case (Some a)
      with v obtain c u where c: "Option.bind (cells h a) un = Some c" "rd h c = Some u" "v = Some u"
        by (auto simp: ptr_rd_def bind_eq_Some_conv)
      have rc: "ptr_rc un rc h p = insert a (rc h c)" by (simp add: ptr_rc_def Some c(1))
      with eq have a: "cells h' a = cells h a" by simp
      have "rd h' c = Some u \<and> rc h' c = rc h c"
        using eq rc by (intro rules(2) [OF c(2)]) simp
      then show ?thesis using Some c a by (simp add: ptr_rd_def ptr_rc_def)
    qed
  next
    fix h :: "'x heap" and p v
    assume ok: "heap_ok h" and v: "ptr_rd un rd h p = Some v"
    show "\<exists>p' h'. ptr_cp un mk cp p h = Ret (p', h') \<and> extends h h' \<and> heap_ok h' \<and>
        ptr_rd un rd h' p' = Some v \<and> ptr_rc un rc h' p' \<subseteq> {next_addr h..<next_addr h'}"
    proof (cases p)
      case None
      with v ok show ?thesis by (simp add: ptr_cp_def ptr_rd_def ptr_rc_def)
    next
      case (Some a)
      with v obtain c u where c: "Option.bind (cells h a) un = Some c" "rd h c = Some u" "v = Some u"
        by (auto simp: ptr_rd_def bind_eq_Some_conv)
      let ?b = "next_addr h" and ?h1 = "snd (alloc ZeroCell h)"
      note h1 = alloc_law [OF ok, of ZeroCell]
      have "cells h a \<noteq> None" using c(1) by (auto simp: bind_eq_Some_conv)
      then have "a < next_addr h" using ok by (simp add: heap_ok_def)
      then have c1: "Option.bind (cells ?h1 a) un = Some c" using c(1) by simp
      have "rd ?h1 c = Some u"
        using deep_copy.rd_extends [OF assms(1) ok c(2) h1(1)] by simp
      then obtain c' h2 where h2: "cp c ?h1 = Ret (c', h2)" "extends ?h1 h2" "heap_ok h2" "rd h2 c' = Some u"
        "rc h2 c' \<subseteq> {next_addr ?h1..<next_addr h2}"
        using rules(3) [OF h1(2)] by blast
      let ?h3 = "store ?b (mk c') h2"
      have b: "?b < next_addr h2" using h2(2) by (simp add: extends_def)
      have e2: "extends h h2" using h1(1) h2(2) by (rule extends_trans)
      have "rd ?h3 c' = Some u \<and> rc ?h3 c' = rc h2 c'"
        using h2(5) by (intro rules(2) [OF h2(4)]) auto
      then have c3: "rd ?h3 c' = Some u" "rc ?h3 c' \<subseteq> {Suc ?b..<next_addr h2}" using h2(5) by simp_all
      have run: "ptr_cp un mk cp p h = Ret (Some ?b, ?h3)"
        using c1 h2(1) by (simp add: ptr_cp_def Some alloc_def)
      have "ptr_rd un rd ?h3 (Some ?b) = Some v"
        using c3(1) by (simp add: ptr_rd_def un c(3))
      moreover have "ptr_rc un rc ?h3 (Some ?b) \<subseteq> {next_addr h..<next_addr ?h3}"
        using c3(2) b by (auto simp: ptr_rc_def un)
      ultimately show ?thesis
        using run store_law [OF h2(3) e2 order_refl b] by blast
    qed
  qed
qed

lemma ptr_deeply:
  assumes "deep_copy rd rc cp" and "\<And>c. un (mk c) = Some c"
  shows "copied_deeply (ptr_rd un rd) (ptr_rc un rc) (ptr_cp un mk cp)"
  by (rule copied_deeplyI [OF deep_copy_ptr [OF assms]]) (auto simp: ptr_rd_def split: option.splits)

text \<open>
  A slice: a new array of zero elements is made, then the elements are copied into their places
  one after the other, except those the loop skips (nil pointers). \<open>un\<close> and \<open>mk\<close> read and make
  the cell of the array.
\<close>

definition array_set ::
  "('x cell \<Rightarrow> 'e list option) \<Rightarrow> ('e list \<Rightarrow> 'x cell) \<Rightarrow> addr \<Rightarrow> nat \<Rightarrow> 'e \<Rightarrow> 'x heap \<Rightarrow> 'x heap" where
  "array_set un mk b i e h =
     (case Option.bind (cells h b) un of
        None \<Rightarrow> h
      | Some es \<Rightarrow> store b (mk (es[i := e])) h)"

fun array_loop ::
  "('x cell \<Rightarrow> 'e list option) \<Rightarrow> ('e list \<Rightarrow> 'x cell) \<Rightarrow> ('e \<Rightarrow> bool) \<Rightarrow>
   ('e \<Rightarrow> 'x heap \<Rightarrow> ('e \<times> 'x heap) outcome) \<Rightarrow> addr \<Rightarrow> nat \<Rightarrow> 'e list \<Rightarrow> 'x heap \<Rightarrow> 'x heap outcome" where
  "array_loop un mk skip cp b i [] h = Ret h"
| "array_loop un mk skip cp b i (e # es) h =
     (if skip e then array_loop un mk skip cp b (Suc i) es h
      else and_then (cp e h) (\<lambda>(e, h). array_loop un mk skip cp b (Suc i) es (array_set un mk b i e h)))"

definition array_cp ::
  "('x cell \<Rightarrow> 'e list option) \<Rightarrow> ('e list \<Rightarrow> 'x cell) \<Rightarrow> ('e \<Rightarrow> bool) \<Rightarrow> 'e \<Rightarrow>
   ('e \<Rightarrow> 'x heap \<Rightarrow> ('e \<times> 'x heap) outcome) \<Rightarrow>
   addr option \<Rightarrow> 'x heap \<Rightarrow> (addr option \<times> 'x heap) outcome" where
  "array_cp un mk skip zero cp p h =
     (case p of
        None \<Rightarrow> Ret (None, h)
      | Some a \<Rightarrow>
          and_then (deref (Option.bind (cells h a) un)) (\<lambda>es.
            let (b, h) = alloc (mk (replicate (length es) zero)) h
            in and_then (array_loop un mk skip cp b 0 es h) (\<lambda>h. Ret (Some b, h))))"

fun list_rd :: "('x heap \<Rightarrow> 'e \<Rightarrow> 'v option) \<Rightarrow> 'x heap \<Rightarrow> 'e list \<Rightarrow> 'v list option" where
  "list_rd rd h [] = Some []"
| "list_rd rd h (e # es) =
     (case rd h e of None \<Rightarrow> None | Some v \<Rightarrow> map_option ((#) v) (list_rd rd h es))"

definition array_rd ::
  "('x cell \<Rightarrow> 'e list option) \<Rightarrow> ('x heap \<Rightarrow> 'e \<Rightarrow> 'v option) \<Rightarrow> 'x heap \<Rightarrow> addr option \<Rightarrow> 'v slice option" where
  "array_rd un rd h p =
     (case p of
        None \<Rightarrow> Some None
      | Some a \<Rightarrow> map_option Some (Option.bind (Option.bind (cells h a) un) (list_rd rd h)))"

definition array_rc ::
  "('x cell \<Rightarrow> 'e list option) \<Rightarrow> ('x heap \<Rightarrow> 'e \<Rightarrow> addr set) \<Rightarrow> 'x heap \<Rightarrow> addr option \<Rightarrow> addr set" where
  "array_rc un rc h p =
     (case p of
        None \<Rightarrow> {}
      | Some a \<Rightarrow> (case Option.bind (cells h a) un of
            None \<Rightarrow> {} | Some es \<Rightarrow> insert a (\<Union>e \<in> set es. rc h e)))"

lemma list_rd_Some:
  "list_rd rd h es = Some vs \<longleftrightarrow> list_all2 (\<lambda>e v. rd h e = Some v) es vs"
  by (induction es arbitrary: vs) (auto simp: list_all2_Cons1 split: option.splits)

lemma array_rd_Some:
  assumes "array_rd un rd h (Some a) = Some v"
  obtains es us where "Option.bind (cells h a) un = Some es" "v = Some us"
    "list_all2 (\<lambda>e v. rd h e = Some v) es us" "array_rc un rc h (Some a) = insert a (\<Union>e \<in> set es. rc h e)"
  using assms that by (auto simp: array_rd_def array_rc_def bind_eq_Some_conv list_rd_Some)

lemma list_all2_member: "list_all2 P xs ys \<Longrightarrow> x \<in> set xs \<Longrightarrow> \<exists>y. P x y"
  by (induction rule: list_all2_induct) auto

text \<open>
  What holds while the loop runs, started in \<open>h0\<close> with the new array at \<open>b\<close>: only new cells
  and the array have changed, and the first elements are copies of their own.
\<close>

definition loop_inv ::
  "('x cell \<Rightarrow> 'e list option) \<Rightarrow> ('x heap \<Rightarrow> 'e \<Rightarrow> 'v option) \<Rightarrow> ('x heap \<Rightarrow> 'e \<Rightarrow> addr set) \<Rightarrow>
   'x heap \<Rightarrow> addr \<Rightarrow> 'e list \<Rightarrow> 'e list \<Rightarrow> 'v list \<Rightarrow> 'x heap \<Rightarrow> bool" where
  "loop_inv un rd rc h0 b pre rest us h \<longleftrightarrow>
     heap_ok h \<and> next_addr h0 \<le> next_addr h \<and> b < next_addr h0 \<and>
     (\<forall>a < next_addr h0. a \<noteq> b \<longrightarrow> cells h a = cells h0 a) \<and>
     Option.bind (cells h b) un = Some (pre @ rest) \<and>
     list_all2 (\<lambda>e v. rd h e = Some v \<and> rc h e \<subseteq> {next_addr h0..<next_addr h}) pre us"

lemma loop_inv_skip:
  assumes "loop_inv un rd rc h0 b pre (e # rest) us h" and "rd h e = Some v" and "rc h e = {}"
  shows "loop_inv un rd rc h0 b (pre @ [e]) rest (us @ [v]) h"
  using assms by (auto simp: loop_inv_def intro: list_all2_appendI)

lemma loop_inv_copy:
  fixes rd :: "'x heap \<Rightarrow> 'e \<Rightarrow> 'v option"
  assumes dc: "deep_copy rd rc cp" and un: "\<And>es. un (mk es) = Some es"
    and inv: "loop_inv un rd rc h0 b pre (z # rest) us h"
    and v: "rd h0 e = Some v" "rc h0 e \<subseteq> {..<b}"
  shows "\<exists>e' h'. cp e h = Ret (e', h') \<and>
    loop_inv un rd rc h0 b (pre @ [e']) rest (us @ [v]) (array_set un mk b (length pre) e' h')"
proof -
  note rules = deep_copy.rd_local [OF dc] deep_copy.cp_law [OF dc]
  from inv have ok: "heap_ok h" and le: "next_addr h0 \<le> next_addr h" and b: "b < next_addr h0"
    and frame: "\<And>a. a < next_addr h0 \<Longrightarrow> a \<noteq> b \<Longrightarrow> cells h a = cells h0 a"
    and arr: "Option.bind (cells h b) un = Some (pre @ z # rest)"
    and copies: "list_all2 (\<lambda>e v. rd h e = Some v \<and> rc h e \<subseteq> {next_addr h0..<next_addr h}) pre us"
    by (simp_all add: loop_inv_def)
  have "rd h e = Some v" using frame v(2) b by (intro rules(1) [OF v(1), THEN conjunct1]) auto
  then obtain e' h1 where h1: "cp e h = Ret (e', h1)" "extends h h1" "heap_ok h1" "rd h1 e' = Some v"
    "rc h1 e' \<subseteq> {next_addr h..<next_addr h1}"
    using rules(2) [OF ok] by blast
  let ?h2 = "store b (mk (pre @ e' # rest)) h1"
  have "cells h1 b = cells h b" and le1: "next_addr h \<le> next_addr h1"
    using h1(2) le b by (simp_all add: extends_def)
  with arr have set: "array_set un mk b (length pre) e' h1 = ?h2" by (simp add: array_set_def)
  have keep: "rd ?h2 x = Some y \<and> rc ?h2 x \<subseteq> {next_addr h0..<next_addr ?h2}"
    if "rd h x = Some y \<and> rc h x \<subseteq> {next_addr h0..<next_addr h}" for x y
  proof -
    have "cells ?h2 a = cells h a" if "a \<in> rc h x" for a
      using that \<open>rd h x = Some y \<and> rc h x \<subseteq> _\<close> h1(2) b by (auto simp: extends_def)
    with rules(1) [of h x y ?h2] that le1 show ?thesis by fastforce
  qed
  have "rd ?h2 e' = Some v \<and> rc ?h2 e' = rc h1 e'"
    using h1(5) le b by (intro rules(1) [OF h1(4)]) auto
  then have new: "rd ?h2 e' = Some v \<and> rc ?h2 e' \<subseteq> {next_addr h0..<next_addr ?h2}"
    using h1(5) le by fastforce
  have "loop_inv un rd rc h0 b (pre @ [e']) rest (us @ [v]) ?h2"
    using store_law(2) [OF h1(3) extends_refl, of b] h1(2,3) le le1 b frame new list_all2_mono [OF copies keep]
    by (auto simp: loop_inv_def un extends_def heap_ok_def intro: list_all2_appendI)
  with h1(1) set show ?thesis by auto
qed

lemma array_loop_law:
  fixes rd :: "'x heap \<Rightarrow> 'e \<Rightarrow> 'v option"
  assumes dc: "deep_copy rd rc cp" and un: "\<And>es. un (mk es) = Some es"
    and skip: "\<And>h h' e v. skip e \<Longrightarrow> rd h e = Some v \<Longrightarrow> rd h' zero = Some v \<and> rc h' zero = {}"
    and "loop_inv un rd rc h0 b pre (replicate (length es) zero) us h"
    and "list_all2 (\<lambda>e v. rd h0 e = Some v \<and> rc h0 e \<subseteq> {..<b}) es vs"
  shows "\<exists>es' h'. array_loop un mk skip cp b (length pre) es h = Ret h' \<and>
    loop_inv un rd rc h0 b (pre @ es') [] (us @ vs) h'"
  using assms(4-)
proof (induction es arbitrary: h pre us vs)
  case Nil
  then show ?case by (auto intro: exI [of _ "[]"])
next
  case (Cons e es)
  from Cons.prems(2) obtain v ws where vs: "vs = v # ws" "rd h0 e = Some v" "rc h0 e \<subseteq> {..<b}"
    "list_all2 (\<lambda>e v. rd h0 e = Some v \<and> rc h0 e \<subseteq> {..<b}) es ws"
    by (auto simp: list_all2_Cons1)
  have inv: "loop_inv un rd rc h0 b pre (zero # replicate (length es) zero) us h" using Cons.prems(1) by simp
  show ?case
  proof (cases "skip e")
    case True
    from Cons.IH [OF loop_inv_skip [OF inv] vs(4)] skip [OF True vs(2)] True vs(1) show ?thesis
      by (auto intro: exI [of _ "zero # _"])
  next
    case False
    obtain e' h' where run: "cp e h = Ret (e', h')" and
      "loop_inv un rd rc h0 b (pre @ [e']) (replicate (length es) zero) (us @ [v])
        (array_set un mk b (length pre) e' h')"
      using loop_inv_copy [OF dc un inv vs(2,3)] by blast
    from Cons.IH [OF this(2) vs(4)] run False vs(1) show ?thesis
      by (auto intro: exI [of _ "e' # _"])
  qed
qed

lemma array_copied:
  fixes rd :: "'x heap \<Rightarrow> 'e \<Rightarrow> 'v option"
  assumes dc: "deep_copy rd rc cp" and un: "\<And>es. un (mk es) = Some es"
    and skip: "\<And>h h' e v. skip e \<Longrightarrow> rd h e = Some v \<Longrightarrow> rd h' zero = Some v \<and> rc h' zero = {}"
    and ok: "heap_ok h" and v: "array_rd un rd h p = Some v"
  shows "\<exists>p' h'. array_cp un mk skip zero cp p h = Ret (p', h') \<and> extends h h' \<and> heap_ok h' \<and>
    array_rd un rd h' p' = Some v \<and> array_rc un rc h' p' \<subseteq> {next_addr h..<next_addr h'}"
proof (cases p)
  case None
  with v ok show ?thesis by (simp add: array_cp_def array_rd_def array_rc_def)
next
  case (Some a)
  from v obtain es us where es: "Option.bind (cells h a) un = Some es" "v = Some us"
    "list_all2 (\<lambda>e v. rd h e = Some v) es us"
    unfolding Some by (rule array_rd_Some)
  let ?b = "next_addr h" and ?c = "mk (replicate (length es) zero)"
  let ?h1 = "snd (alloc ?c h)"
  note h1 = alloc_law [OF ok, of ?c]
  have old: "rd ?h1 e = Some u \<and> rc ?h1 e \<subseteq> {..<?b}" if "rd h e = Some u" for e u
    using deep_copy.rd_extends [OF dc ok that h1(1)] deep_copy.rc_bound [OF dc ok that] by simp
  have start: "loop_inv un rd rc ?h1 ?b [] (replicate (length es) zero) [] ?h1"
    using h1(2) by (simp add: loop_inv_def un)
  have "\<exists>es' h'. array_loop un mk skip cp ?b (length ([] :: 'e list)) es ?h1 = Ret h' \<and>
      loop_inv un rd rc ?h1 ?b ([] @ es') [] ([] @ us) h'"
    by (rule array_loop_law [OF dc un _ start list_all2_mono [OF es(3) old]]) (fact skip)
  then obtain es' h' where h': "array_loop un mk skip cp ?b 0 es ?h1 = Ret h'"
    "loop_inv un rd rc ?h1 ?b es' [] us h'"
    by auto
  then have inv: "heap_ok h'" "Suc ?b \<le> next_addr h'" "\<forall>a < ?b. cells h' a = cells h a"
    "Option.bind (cells h' ?b) un = Some es'"
    "list_all2 (\<lambda>e v. rd h' e = Some v \<and> rc h' e \<subseteq> {Suc ?b..<next_addr h'}) es' us"
    by (auto simp: loop_inv_def)
  have "array_cp un mk skip zero cp p h = Ret (Some ?b, h')"
    using h'(1) es(1) by (simp add: array_cp_def Some alloc_def)
  moreover have "array_rd un rd h' (Some ?b) = Some v"
    using inv(4) es(2) list_all2_mono [OF inv(5)] by (auto simp: array_rd_def list_rd_Some)
  moreover have "array_rc un rc h' (Some ?b) \<subseteq> {next_addr h..<next_addr h'}"
    using inv(2,4) list_all2_member [OF inv(5)] by (fastforce simp: array_rc_def)
  ultimately show ?thesis
    using inv(1-3) by (auto simp: extends_def)
qed

lemma deep_copy_array:
  fixes rd :: "'x heap \<Rightarrow> 'e \<Rightarrow> 'v option"
  assumes dc: "deep_copy rd rc cp" and un: "\<And>es. un (mk es) = Some es"
    and skip: "\<And>h h' e v. skip e \<Longrightarrow> rd h e = Some v \<Longrightarrow> rd h' zero = Some v \<and> rc h' zero = {}"
  shows "deep_copy (array_rd un rd) (array_rc un rc) (array_cp un mk skip zero cp)"
proof
  fix h p v a
  assume v: "array_rd un rd h p = Some v" and a: "a \<in> array_rc un rc h p"
  obtain b where p: "p = Some b" using a by (cases p) (auto simp: array_rc_def)
  from v obtain es us where es: "Option.bind (cells h b) un = Some es" "v = Some us"
    "list_all2 (\<lambda>e v. rd h e = Some v) es us" "array_rc un rc h (Some b) = insert b (\<Union>e \<in> set es. rc h e)"
    unfolding p by (rule array_rd_Some)
  from a p es(4) consider "a = b" | e where "e \<in> set es" "a \<in> rc h e" by auto
  then show "cells h a \<noteq> None"
  proof cases
    case 1
    with es(1) show ?thesis by (auto simp: bind_eq_Some_conv)
  next
    case (2 e)
    then show ?thesis using list_all2_member [OF es(3)] deep_copy.rc_cells [OF dc] by blast
  qed
next
  fix h h' :: "'x heap" and p v
  assume v: "array_rd un rd h p = Some v" and eq: "\<And>a. a \<in> array_rc un rc h p \<Longrightarrow> cells h' a = cells h a"
  show "array_rd un rd h' p = Some v \<and> array_rc un rc h' p = array_rc un rc h p"
  proof (cases p)
    case None
    with v show ?thesis by (simp add: array_rd_def array_rc_def)
  next
    case (Some b)
    from v obtain es us where es: "Option.bind (cells h b) un = Some es" "v = Some us"
      "list_all2 (\<lambda>e v. rd h e = Some v) es us" "array_rc un rc h (Some b) = insert b (\<Union>e \<in> set es. rc h e)"
      unfolding Some by (rule array_rd_Some)
    have e: "rd h' e = Some u \<and> rc h' e = rc h e" if "e \<in> set es" "rd h e = Some u" for e u
      using eq that es(4) Some by (intro deep_copy.rd_local [OF dc]) auto
    have b: "cells h' b = cells h b" using eq es(4) Some by simp
    have "list_all2 (\<lambda>e v. rd h' e = Some v) es us"
      using es(3) e by (auto simp: list_all2_conv_all_nth)
    moreover have "rc h' x = rc h x" if "x \<in> set es" for x
      using list_all2_member [OF es(3) that] e [OF that] by blast
    ultimately show ?thesis
      using Some es b by (simp add: array_rd_def array_rc_def list_rd_Some)
  qed
qed (rule array_copied [OF dc un skip])

text \<open>A slice of pointers: nil pointers are skipped, the new array begins as nil pointers.\<close>

definition un_array :: "'x cell \<Rightarrow> addr option list option" where
  "un_array c = (case c of ArrayCell ps \<Rightarrow> Some ps | _ \<Rightarrow> None)"

lemma un_array_simps [simp]: "un_array (ArrayCell ps) = Some ps"
  by (simp add: un_array_def)

definition slice_cp ::
  "(addr option \<Rightarrow> 'x heap \<Rightarrow> (addr option \<times> 'x heap) outcome) \<Rightarrow>
   addr option \<Rightarrow> 'x heap \<Rightarrow> (addr option \<times> 'x heap) outcome" where
  "slice_cp = array_cp un_array ArrayCell (\<lambda>q. q = None) None"

definition slice_rd ::
  "('x heap \<Rightarrow> addr option \<Rightarrow> 'v option option) \<Rightarrow> 'x heap \<Rightarrow> addr option \<Rightarrow> 'v option slice option" where
  "slice_rd = array_rd un_array"

definition slice_rc ::
  "('x heap \<Rightarrow> addr option \<Rightarrow> addr set) \<Rightarrow> 'x heap \<Rightarrow> addr option \<Rightarrow> addr set" where
  "slice_rc = array_rc un_array"

lemma deep_copy_slice:
  fixes rdp :: "'x heap \<Rightarrow> addr option \<Rightarrow> 'v option option"
  assumes dc: "deep_copy rdp rcp cpp" and nil: "\<And>h. rdp h None = Some None" "\<And>h. rcp h None = {}"
  shows "deep_copy (slice_rd rdp) (slice_rc rcp) (slice_cp cpp)"
  unfolding slice_rd_def slice_rc_def slice_cp_def
  by (rule deep_copy_array [OF dc]) (simp_all add: nil)

text \<open>Two fields, copied one after the other, and a struct that is a tuple of fields.\<close>

definition pair_rd ::
  "('x heap \<Rightarrow> 'p \<Rightarrow> 'v option) \<Rightarrow> ('x heap \<Rightarrow> 'q \<Rightarrow> 'u option) \<Rightarrow> 'x heap \<Rightarrow> 'p \<times> 'q \<Rightarrow> ('v \<times> 'u) option" where
  "pair_rd rd1 rd2 h pq =
     (case rd1 h (fst pq) of None \<Rightarrow> None | Some v \<Rightarrow> map_option (Pair v) (rd2 h (snd pq)))"

definition pair_rc ::
  "('x heap \<Rightarrow> 'p \<Rightarrow> addr set) \<Rightarrow> ('x heap \<Rightarrow> 'q \<Rightarrow> addr set) \<Rightarrow> 'x heap \<Rightarrow> 'p \<times> 'q \<Rightarrow> addr set" where
  "pair_rc rc1 rc2 h pq = rc1 h (fst pq) \<union> rc2 h (snd pq)"

definition pair_cp ::
  "('p \<Rightarrow> 'x heap \<Rightarrow> ('p \<times> 'x heap) outcome) \<Rightarrow> ('q \<Rightarrow> 'x heap \<Rightarrow> ('q \<times> 'x heap) outcome) \<Rightarrow>
   'p \<times> 'q \<Rightarrow> 'x heap \<Rightarrow> (('p \<times> 'q) \<times> 'x heap) outcome" where
  "pair_cp cp1 cp2 pq h =
     and_then (cp1 (fst pq) h) (\<lambda>(p, h). and_then (cp2 (snd pq) h) (\<lambda>(q, h). Ret ((p, q), h)))"

lemma deep_copy_pair:
  fixes rd1 :: "'x heap \<Rightarrow> 'p \<Rightarrow> 'v option"
  assumes d1: "deep_copy rd1 rc1 cp1" and d2: "deep_copy rd2 rc2 cp2"
  shows "deep_copy (pair_rd rd1 rd2) (pair_rc rc1 rc2) (pair_cp cp1 cp2)"
proof
  fix h p v a
  assume "pair_rd rd1 rd2 h p = Some v" and "a \<in> pair_rc rc1 rc2 h p"
  then show "cells h a \<noteq> None"
    using deep_copy.rc_cells [OF d1] deep_copy.rc_cells [OF d2]
    by (auto simp: pair_rd_def pair_rc_def split: option.splits)
next
  fix h h' :: "'x heap" and p v
  assume v: "pair_rd rd1 rd2 h p = Some v" and eq: "\<And>a. a \<in> pair_rc rc1 rc2 h p \<Longrightarrow> cells h' a = cells h a"
  obtain u w where u: "rd1 h (fst p) = Some u" "rd2 h (snd p) = Some w" "v = (u, w)"
    using v by (auto simp: pair_rd_def split: option.splits)
  have "rd1 h' (fst p) = Some u \<and> rc1 h' (fst p) = rc1 h (fst p)"
    using eq by (intro deep_copy.rd_local [OF d1 u(1)]) (simp add: pair_rc_def)
  moreover have "rd2 h' (snd p) = Some w \<and> rc2 h' (snd p) = rc2 h (snd p)"
    using eq by (intro deep_copy.rd_local [OF d2 u(2)]) (simp add: pair_rc_def)
  ultimately show "pair_rd rd1 rd2 h' p = Some v \<and> pair_rc rc1 rc2 h' p = pair_rc rc1 rc2 h p"
    by (simp add: pair_rd_def pair_rc_def u(3))
next
  fix h :: "'x heap" and p v
  assume ok: "heap_ok h" and v: "pair_rd rd1 rd2 h p = Some v"
  obtain u w where u: "rd1 h (fst p) = Some u" "rd2 h (snd p) = Some w" "v = (u, w)"
    using v by (auto simp: pair_rd_def split: option.splits)
  obtain p1 h1 where h1: "cp1 (fst p) h = Ret (p1, h1)" "extends h h1" "heap_ok h1" "rd1 h1 p1 = Some u"
    "rc1 h1 p1 \<subseteq> {next_addr h..<next_addr h1}"
    using deep_copy.cp_law [OF d1 ok u(1)] by blast
  have "rd2 h1 (snd p) = Some w" using deep_copy.rd_extends [OF d2 ok u(2) h1(2)] by simp
  then obtain p2 h2 where h2: "cp2 (snd p) h1 = Ret (p2, h2)" "extends h1 h2" "heap_ok h2" "rd2 h2 p2 = Some w"
    "rc2 h2 p2 \<subseteq> {next_addr h1..<next_addr h2}"
    using deep_copy.cp_law [OF d2 h1(3)] by blast
  have p1: "rd1 h2 p1 = Some u \<and> rc1 h2 p1 = rc1 h1 p1"
    by (rule deep_copy.rd_extends [OF d1 h1(3,4) h2(2)])
  have "next_addr h \<le> next_addr h1" "next_addr h1 \<le> next_addr h2"
    using h1(2) h2(2) by (simp_all add: extends_def)
  then have rc: "pair_rc rc1 rc2 h2 (p1, p2) \<subseteq> {next_addr h..<next_addr h2}"
    using h1(5) h2(5) p1 by (fastforce simp: pair_rc_def)
  have run: "pair_cp cp1 cp2 p h = Ret ((p1, p2), h2)" using h1(1) h2(1) by (simp add: pair_cp_def)
  have rd: "pair_rd rd1 rd2 h2 (p1, p2) = Some v" using p1 h2(4) by (simp add: pair_rd_def u(3))
  show "\<exists>p' h'. pair_cp cp1 cp2 p h = Ret (p', h') \<and> extends h h' \<and> heap_ok h' \<and>
      pair_rd rd1 rd2 h' p' = Some v \<and> pair_rc rc1 rc2 h' p' \<subseteq> {next_addr h..<next_addr h'}"
    using run extends_trans [OF h1(2) h2(2)] h2(3) rd rc by blast
qed

lemma deep_copy_map:
  fixes rd' :: "'x heap \<Rightarrow> 'p \<Rightarrow> 'v option"
  assumes d: "deep_copy rd rc cp" and fg: "\<And>t. f (g t) = t"
    and rd': "\<And>h p. rd' h p = map_option k (rd h (f p))" and rc': "\<And>h p. rc' h p = rc h (f p)"
    and cp': "\<And>p h. cp' p h = and_then (cp (f p) h) (\<lambda>(t, h). Ret (g t, h))"
  shows "deep_copy rd' rc' cp'"
proof
  fix h p v a
  assume "rd' h p = Some v" and "a \<in> rc' h p"
  then show "cells h a \<noteq> None"
    using deep_copy.rc_cells [OF d] by (auto simp: rd' rc')
next
  fix h h' :: "'x heap" and p v
  assume v: "rd' h p = Some v" and eq: "\<And>a. a \<in> rc' h p \<Longrightarrow> cells h' a = cells h a"
  from v obtain u where u: "rd h (f p) = Some u" "v = k u" by (auto simp: rd')
  show "rd' h' p = Some v \<and> rc' h' p = rc' h p"
    using deep_copy.rd_local [OF d u(1), of h'] eq u(2) by (simp add: rd' rc')
next
  fix h :: "'x heap" and p v
  assume ok: "heap_ok h" and v: "rd' h p = Some v"
  from v obtain u where u: "rd h (f p) = Some u" "v = k u" by (auto simp: rd')
  obtain t h' where "cp (f p) h = Ret (t, h')" "extends h h'" "heap_ok h'" "rd h' t = Some u"
    "rc h' t \<subseteq> {next_addr h..<next_addr h'}"
    using deep_copy.cp_law [OF d ok u(1)] by blast
  then show "\<exists>p' h'. cp' p h = Ret (p', h') \<and> extends h h' \<and> heap_ok h' \<and> rd' h' p' = Some v \<and>
      rc' h' p' \<subseteq> {next_addr h..<next_addr h'}"
    by (intro exI [of _ "g t"] exI [of _ h']) (simp add: cp' rd' rc' fg u(2))
qed

end
