(* ===== verification/HeapCopy.thy ===== *)
theory HeapCopy
  imports GoHeap
begin

text \<open>
  The generated deep copies of the resource and of the list of resources
  (\<open>apis/v1alpha1/zz_generated.deepcopy.go\<close>) over the heap of \<open>GoHeap\<close>, each an interpretation of
  the contract or an instance of it. The copies of the Kubernetes and ACK structs embedded in
  the resource are parameters (\<open>ext\<close>), with the same contract as hypothesis.
\<close>

section \<open>The copies of the resource\<close>

text \<open>
  The targets of pointers in the cells, and the copy of a \<open>*string\<close> field:
  \<open>*out = new(string); **out = **in\<close> unless the pointer is nil.
\<close>

definition un_string :: "'x cell \<Rightarrow> string option" where
  "un_string c = (case c of StringCell s \<Rightarrow> Some s | _ \<Rightarrow> None)"

definition un_tag :: "'x cell \<Rightarrow> tag_mem option" where
  "un_tag c = (case c of TagCell t \<Rightarrow> Some t | _ \<Rightarrow> None)"

definition un_ext :: "'x cell \<Rightarrow> 'x option" where
  "un_ext c = (case c of ExtCell x \<Rightarrow> Some x | _ \<Rightarrow> None)"

definition un_spec :: "'x cell \<Rightarrow> spec_mem option" where
  "un_spec c = (case c of SpecCell s \<Rightarrow> Some s | _ \<Rightarrow> None)"

definition un_status :: "'x cell \<Rightarrow> status_mem option" where
  "un_status c = (case c of StatusCell s \<Rightarrow> Some s | _ \<Rightarrow> None)"

definition un_network :: "'x cell \<Rightarrow> 'x network_mem option" where
  "un_network c = (case c of NetworkCell n \<Rightarrow> Some n | _ \<Rightarrow> None)"

definition un_networks :: "'x cell \<Rightarrow> 'x network_mem list option" where
  "un_networks c = (case c of NetworksCell ns \<Rightarrow> Some ns | _ \<Rightarrow> None)"

definition un_network_list :: "'x cell \<Rightarrow> 'x network_list_mem option" where
  "un_network_list c = (case c of NetworkListCell l \<Rightarrow> Some l | _ \<Rightarrow> None)"

lemmas un_defs = un_string_def un_tag_def un_ext_def un_spec_def un_status_def un_network_def
  un_networks_def un_network_list_def

lemma un_simps [simp]:
  "un_string (StringCell s) = Some s" "un_tag (TagCell t) = Some t" "un_ext (ExtCell x) = Some x"
  "un_spec (SpecCell sp) = Some sp" "un_status (StatusCell st) = Some st"
  "un_network (NetworkCell n) = Some n" "un_networks (NetworksCell ns) = Some ns"
  "un_network_list (NetworkListCell l) = Some l"
  by (simp_all add: un_defs)

definition string_rd :: "'x heap \<Rightarrow> addr option \<Rightarrow> string option option" where
  "string_rd = ptr_rd un_string plain_rd"

definition string_rc :: "'x heap \<Rightarrow> addr option \<Rightarrow> addr set" where
  "string_rc = ptr_rc un_string plain_rc"

definition string_cp :: "addr option \<Rightarrow> 'x heap \<Rightarrow> (addr option \<times> 'x heap) outcome" where
  "string_cp = ptr_cp un_string StringCell plain_cp"

interpretation string_copy: deep_copy string_rd string_rc string_cp
  unfolding string_rd_def string_rc_def string_cp_def
  by (intro deep_copy_ptr deep_copy_plain) simp

text \<open>\<open>Tag\<close>.\<close>

definition tag_rd :: "'x heap \<Rightarrow> tag_mem \<Rightarrow> tag option" where
  "tag_rd h t = map_option (\<lambda>(k, v). \<lparr>Key = k, Value = v\<rparr>)
     (pair_rd string_rd string_rd h (m_Key t, m_Value t))"

definition tag_rc :: "'x heap \<Rightarrow> tag_mem \<Rightarrow> addr set" where
  "tag_rc h t = string_rc h (m_Key t) \<union> string_rc h (m_Value t)"

definition Tag_DeepCopyInto :: "tag_mem \<Rightarrow> 'x heap \<Rightarrow> (tag_mem \<times> 'x heap) outcome" where
  "Tag_DeepCopyInto inp h =
     and_then (string_cp (m_Key inp) h) (\<lambda>(key, h).
     and_then (string_cp (m_Value inp) h) (\<lambda>(val, h).
       Ret (inp\<lparr>m_Key := key, m_Value := val\<rparr>, h)))"

definition Tag_DeepCopy :: "addr option \<Rightarrow> 'x heap \<Rightarrow> (addr option \<times> 'x heap) outcome" where
  "Tag_DeepCopy = ptr_cp un_tag TagCell Tag_DeepCopyInto"

lemma update_all [simp]:
  "t\<lparr>m_Key := k, m_Value := v\<rparr> = \<lparr>m_Key = k, m_Value = v\<rparr>"
  "s\<lparr>m_Description := d, m_Tags := ts\<rparr> = \<lparr>m_Description = d, m_Tags = ts\<rparr>"
  "u\<lparr>m_ACKResourceMetadata := md, m_Conditions := cs, m_CreatedAt := c, m_GlobalNetworkID := i, m_State := st\<rparr> =
     \<lparr>m_ACKResourceMetadata = md, m_Conditions = cs, m_CreatedAt = c, m_GlobalNetworkID = i, m_State = st\<rparr>"
  by (cases t, simp, cases s, simp, cases u, simp)

text \<open>The definitions of pairs, in the form the field-by-field copies below have.\<close>

lemmas pair_defs = pair_rc_def pair_cp_def and_then_assoc case_prod_unfold

interpretation tag_copy: deep_copy tag_rd tag_rc Tag_DeepCopyInto
  by (rule deep_copy_map [OF deep_copy_pair [OF string_copy.deep_copy_axioms string_copy.deep_copy_axioms],
        where f = "\<lambda>t. (m_Key t, m_Value t)" and g = "\<lambda>(k, v). \<lparr>m_Key = k, m_Value = v\<rparr>"])
    (auto simp: tag_rd_def tag_rc_def Tag_DeepCopyInto_def pair_defs)

interpretation tag_ptr_copy: deep_copy "ptr_rd un_tag tag_rd" "ptr_rc un_tag tag_rc" Tag_DeepCopy
  unfolding Tag_DeepCopy_def by (intro deep_copy_ptr tag_copy.deep_copy_axioms) simp

text \<open>\<open>GlobalNetworkSpec\<close>: a string and a slice of tags.\<close>

definition tags_rd :: "'x heap \<Rightarrow> addr option \<Rightarrow> tag option slice option" where
  "tags_rd = slice_rd (ptr_rd un_tag tag_rd)"

definition tags_rc :: "'x heap \<Rightarrow> addr option \<Rightarrow> addr set" where
  "tags_rc = slice_rc (ptr_rc un_tag tag_rc)"

definition spec_rd :: "'x heap \<Rightarrow> spec_mem \<Rightarrow> GlobalNetworkSpec option" where
  "spec_rd h s = map_option (\<lambda>(d, ts). \<lparr>Description = d, Tags = ts\<rparr>)
     (pair_rd string_rd tags_rd h (m_Description s, m_Tags s))"

definition spec_rc :: "'x heap \<Rightarrow> spec_mem \<Rightarrow> addr set" where
  "spec_rc h s = string_rc h (m_Description s) \<union> tags_rc h (m_Tags s)"

definition Spec_DeepCopyInto :: "spec_mem \<Rightarrow> 'x heap \<Rightarrow> (spec_mem \<times> 'x heap) outcome" where
  "Spec_DeepCopyInto inp h =
     and_then (string_cp (m_Description inp) h) (\<lambda>(description, h).
     and_then (slice_cp Tag_DeepCopy (m_Tags inp) h) (\<lambda>(tags, h).
       Ret (inp\<lparr>m_Description := description, m_Tags := tags\<rparr>, h)))"

interpretation tags_copy: deep_copy tags_rd tags_rc "slice_cp Tag_DeepCopy"
  unfolding tags_rd_def tags_rc_def
  by (rule deep_copy_slice [OF tag_ptr_copy.deep_copy_axioms]) (simp_all add: ptr_rd_def ptr_rc_def)

interpretation spec_copy: deep_copy spec_rd spec_rc Spec_DeepCopyInto
  by (rule deep_copy_map [OF deep_copy_pair [OF string_copy.deep_copy_axioms tags_copy.deep_copy_axioms],
        where f = "\<lambda>s. (m_Description s, m_Tags s)" and g = "\<lambda>(d, ts). \<lparr>m_Description = d, m_Tags = ts\<rparr>"])
    (auto simp: spec_rd_def spec_rc_def Spec_DeepCopyInto_def pair_defs)

definition Spec_DeepCopy :: "addr option \<Rightarrow> 'x heap \<Rightarrow> (addr option \<times> 'x heap) outcome" where
  "Spec_DeepCopy = ptr_cp un_spec SpecCell Spec_DeepCopyInto"

text \<open>
  The structs of other packages: how they read, what they are made of, how they are copied, and
  the zero value of \<open>ObjectMeta\<close>.
\<close>

record ('x, 'p, 'v) copier =
  c_rd :: "'x heap \<Rightarrow> 'p \<Rightarrow> 'v option"
  c_rc :: "'x heap \<Rightarrow> 'p \<Rightarrow> addr set"
  c_cp :: "'p \<Rightarrow> 'x heap \<Rightarrow> ('p \<times> 'x heap) outcome"

record 'x ext =
  ext_time :: "('x, addr option, gotime option) copier"
  ext_metadata :: "('x, 'x, resource_metadata) copier"
  ext_condition :: "('x, 'x, condition) copier"
  ext_ObjectMeta :: "('x, 'x, object_meta) copier"
  ext_ListMeta :: "('x, 'x, list_meta) copier"
  ext_zero :: 'x

definition copier_ok :: "('x, 'p, 'v) copier \<Rightarrow> bool" where
  "copier_ok c \<longleftrightarrow> deep_copy (c_rd c) (c_rc c) (c_cp c)"

definition ext_ok :: "'x ext \<Rightarrow> bool" where
  "ext_ok E \<longleftrightarrow> copier_ok (ext_time E) \<and> copier_ok (ext_metadata E) \<and> copier_ok (ext_condition E) \<and>
     copier_ok (ext_ObjectMeta E) \<and> copier_ok (ext_ListMeta E) \<and>
     (\<forall>h. c_rd (ext_time E) h None = Some None \<and> c_rc (ext_time E) h None = {})"

text \<open>A \<open>*metav1.Time\<close> field: nil stays nil, otherwise \<open>DeepCopy\<close> of the time is called.\<close>

definition time_cp :: "'x ext \<Rightarrow> addr option \<Rightarrow> 'x heap \<Rightarrow> (addr option \<times> 'x heap) outcome" where
  "time_cp E p h = (if p = None then Ret (None, h) else c_cp (ext_time E) p h)"

lemma time_copy: "ext_ok E \<Longrightarrow> deep_copy (c_rd (ext_time E)) (c_rc (ext_time E)) (time_cp E)"
proof -
  assume E: "ext_ok E"
  then have d: "deep_copy (c_rd (ext_time E)) (c_rc (ext_time E)) (c_cp (ext_time E))"
    and nil: "c_rd (ext_time E) h None = Some None" "c_rc (ext_time E) h None = {}" for h
    by (simp_all add: ext_ok_def copier_ok_def)
  show ?thesis
  proof
    fix h :: "'a heap" and p v
    assume "heap_ok h" and "c_rd (ext_time E) h p = Some v"
    then show "\<exists>p' h'. time_cp E p h = Ret (p', h') \<and> extends h h' \<and> heap_ok h' \<and>
        c_rd (ext_time E) h' p' = Some v \<and> c_rc (ext_time E) h' p' \<subseteq> {next_addr h..<next_addr h'}"
      using deep_copy.cp_law [OF d] nil by (cases p) (auto simp: time_cp_def)
  qed (use deep_copy.rc_cells [OF d] deep_copy.rd_local [OF d] in blast)+
qed

text \<open>\<open>GlobalNetworkStatus\<close>.\<close>

abbreviation metadata_rd where "metadata_rd E \<equiv> ptr_rd un_ext (c_rd (ext_metadata E))"
abbreviation metadata_rc where "metadata_rc E \<equiv> ptr_rc un_ext (c_rc (ext_metadata E))"
abbreviation metadata_cp where "metadata_cp E \<equiv> ptr_cp un_ext ExtCell (c_cp (ext_metadata E))"
abbreviation conditions_rd where "conditions_rd E \<equiv> slice_rd (ptr_rd un_ext (c_rd (ext_condition E)))"
abbreviation conditions_rc where "conditions_rc E \<equiv> slice_rc (ptr_rc un_ext (c_rc (ext_condition E)))"
abbreviation conditions_cp where "conditions_cp E \<equiv> slice_cp (ptr_cp un_ext ExtCell (c_cp (ext_condition E)))"

definition status_rd :: "'x ext \<Rightarrow> 'x heap \<Rightarrow> status_mem \<Rightarrow> GlobalNetworkStatus option" where
  "status_rd E h s = map_option (\<lambda>(md, cs, t, i, st). \<lparr>ACKResourceMetadata = md, Conditions = cs,
       CreatedAt = t, GlobalNetworkID = i, State = st\<rparr>)
     (pair_rd (metadata_rd E) (pair_rd (conditions_rd E) (pair_rd (c_rd (ext_time E)) (pair_rd string_rd string_rd))) h
       (m_ACKResourceMetadata s, m_Conditions s, m_CreatedAt s, m_GlobalNetworkID s, m_State s))"

definition status_rc :: "'x ext \<Rightarrow> 'x heap \<Rightarrow> status_mem \<Rightarrow> addr set" where
  "status_rc E h s = metadata_rc E h (m_ACKResourceMetadata s) \<union> (conditions_rc E h (m_Conditions s) \<union>
     (c_rc (ext_time E) h (m_CreatedAt s) \<union> (string_rc h (m_GlobalNetworkID s) \<union> string_rc h (m_State s))))"

definition Status_DeepCopyInto :: "'x ext \<Rightarrow> status_mem \<Rightarrow> 'x heap \<Rightarrow> (status_mem \<times> 'x heap) outcome" where
  "Status_DeepCopyInto E inp h =
     and_then (metadata_cp E (m_ACKResourceMetadata inp) h) (\<lambda>(md, h).
     and_then (conditions_cp E (m_Conditions inp) h) (\<lambda>(cs, h).
     and_then (time_cp E (m_CreatedAt inp) h) (\<lambda>(t, h).
     and_then (string_cp (m_GlobalNetworkID inp) h) (\<lambda>(i, h).
     and_then (string_cp (m_State inp) h) (\<lambda>(st, h).
       Ret (inp\<lparr>m_ACKResourceMetadata := md, m_Conditions := cs, m_CreatedAt := t,
              m_GlobalNetworkID := i, m_State := st\<rparr>, h))))))"

lemma status_copy: "ext_ok E \<Longrightarrow> deep_copy (status_rd E) (status_rc E) (Status_DeepCopyInto E)"
proof -
  assume E: "ext_ok E"
  have md: "deep_copy (metadata_rd E) (metadata_rc E) (metadata_cp E)"
    using E by (intro deep_copy_ptr) (simp_all add: ext_ok_def copier_ok_def)
  have c: "deep_copy (ptr_rd un_ext (c_rd (ext_condition E))) (ptr_rc un_ext (c_rc (ext_condition E)))
      (ptr_cp un_ext ExtCell (c_cp (ext_condition E)))"
    using E by (intro deep_copy_ptr) (simp_all add: ext_ok_def copier_ok_def)
  have cs: "deep_copy (conditions_rd E) (conditions_rc E) (conditions_cp E)"
    by (rule deep_copy_slice [OF c]) (simp_all add: ptr_rd_def ptr_rc_def)
  note t = time_copy [OF E]
  note s = string_copy.deep_copy_axioms
  show ?thesis
    by (rule deep_copy_map [OF deep_copy_pair [OF md deep_copy_pair [OF cs deep_copy_pair [OF t deep_copy_pair [OF s s]]]],
          where f = "\<lambda>s. (m_ACKResourceMetadata s, m_Conditions s, m_CreatedAt s, m_GlobalNetworkID s, m_State s)"
          and g = "\<lambda>(md, cs, t, i, st). \<lparr>m_ACKResourceMetadata = md, m_Conditions = cs, m_CreatedAt = t,
            m_GlobalNetworkID = i, m_State = st\<rparr>"])
      (auto simp: status_rd_def status_rc_def Status_DeepCopyInto_def pair_defs)
qed

definition Status_DeepCopy :: "'x ext \<Rightarrow> addr option \<Rightarrow> 'x heap \<Rightarrow> (addr option \<times> 'x heap) outcome" where
  "Status_DeepCopy E = ptr_cp un_status StatusCell (Status_DeepCopyInto E)"

text \<open>\<open>GlobalNetwork\<close>: the metadata, the spec and the status are in the struct itself.\<close>

definition network_rd :: "'x ext \<Rightarrow> 'x heap \<Rightarrow> 'x network_mem \<Rightarrow> GlobalNetwork option" where
  "network_rd E h n = map_option (\<lambda>(tm, om, sp, st). \<lparr>TypeMeta = tm, ObjectMeta = om, Spec = sp, Status = st\<rparr>)
     (pair_rd plain_rd (pair_rd (c_rd (ext_ObjectMeta E)) (pair_rd spec_rd (status_rd E))) h
       (m_TypeMeta n, m_ObjectMeta n, m_Spec n, m_Status n))"

definition network_rc :: "'x ext \<Rightarrow> 'x heap \<Rightarrow> 'x network_mem \<Rightarrow> addr set" where
  "network_rc E h n = plain_rc h (m_TypeMeta n) \<union> (c_rc (ext_ObjectMeta E) h (m_ObjectMeta n) \<union>
     (spec_rc h (m_Spec n) \<union> status_rc E h (m_Status n)))"

definition GlobalNetwork_DeepCopyInto :: "'x ext \<Rightarrow> 'x network_mem \<Rightarrow> 'x heap \<Rightarrow> ('x network_mem \<times> 'x heap) outcome" where
  "GlobalNetwork_DeepCopyInto E inp h =
     and_then (plain_cp (m_TypeMeta inp) h) (\<lambda>(tm, h).
     and_then (c_cp (ext_ObjectMeta E) (m_ObjectMeta inp) h) (\<lambda>(om, h).
     and_then (Spec_DeepCopyInto (m_Spec inp) h) (\<lambda>(sp, h).
     and_then (Status_DeepCopyInto E (m_Status inp) h) (\<lambda>(st, h).
       Ret (inp\<lparr>m_TypeMeta := tm, m_ObjectMeta := om, m_Spec := sp, m_Status := st\<rparr>, h)))))"

definition GlobalNetwork_DeepCopy_mem :: "'x ext \<Rightarrow> addr option \<Rightarrow> 'x heap \<Rightarrow> (addr option \<times> 'x heap) outcome" where
  "GlobalNetwork_DeepCopy_mem E = ptr_cp un_network NetworkCell (GlobalNetwork_DeepCopyInto E)"

abbreviation read_network where "read_network E \<equiv> ptr_rd un_network (network_rd E)"
abbreviation network_cells where "network_cells E \<equiv> ptr_rc un_network (network_rc E)"

lemma update_network [simp]:
  "n\<lparr>m_TypeMeta := tm, m_ObjectMeta := om, m_Spec := sp, m_Status := st\<rparr> =
     \<lparr>m_TypeMeta = tm, m_ObjectMeta = om, m_Spec = sp, m_Status = st\<rparr>"
  by (cases n, simp)

lemma network_copy: "ext_ok E \<Longrightarrow> deep_copy (network_rd E) (network_rc E) (GlobalNetwork_DeepCopyInto E)"
proof -
  assume E: "ext_ok E"
  have om: "deep_copy (c_rd (ext_ObjectMeta E)) (c_rc (ext_ObjectMeta E)) (c_cp (ext_ObjectMeta E))"
    using E by (simp add: ext_ok_def copier_ok_def)
  show ?thesis
    by (rule deep_copy_map [OF deep_copy_pair [OF deep_copy_plain deep_copy_pair [OF om
            deep_copy_pair [OF spec_copy.deep_copy_axioms status_copy [OF E]]]],
          where f = "\<lambda>n. (m_TypeMeta n, m_ObjectMeta n, m_Spec n, m_Status n)"
          and g = "\<lambda>(tm, om, sp, st). \<lparr>m_TypeMeta = tm, m_ObjectMeta = om, m_Spec = sp, m_Status = st\<rparr>"])
      (auto simp: network_rd_def network_rc_def GlobalNetwork_DeepCopyInto_def pair_defs)
qed

lemma network_ptr_copy:
  "ext_ok E \<Longrightarrow> deep_copy (read_network E) (network_cells E) (GlobalNetwork_DeepCopy_mem E)"
  unfolding GlobalNetwork_DeepCopy_mem_def by (intro deep_copy_ptr network_copy) simp_all

text \<open>\<open>GlobalNetworkList\<close>: the items are structs in an array, each copied in its place.\<close>

definition zero_network :: "'x ext \<Rightarrow> 'x network_mem" where
  "zero_network E = \<lparr>m_TypeMeta = \<lparr>Kind = [], APIVersion = []\<rparr>, m_ObjectMeta = ext_zero E,
     m_Spec = \<lparr>m_Description = None, m_Tags = None\<rparr>,
     m_Status = \<lparr>m_ACKResourceMetadata = None, m_Conditions = None, m_CreatedAt = None,
       m_GlobalNetworkID = None, m_State = None\<rparr>\<rparr>"

definition items_cp :: "'x ext \<Rightarrow> addr option \<Rightarrow> 'x heap \<Rightarrow> (addr option \<times> 'x heap) outcome" where
  "items_cp E = array_cp un_networks NetworksCell (\<lambda>n. False) (zero_network E) (GlobalNetwork_DeepCopyInto E)"

abbreviation items_rd where "items_rd E \<equiv> array_rd un_networks (network_rd E)"
abbreviation items_rc where "items_rc E \<equiv> array_rc un_networks (network_rc E)"

lemma items_copy: "ext_ok E \<Longrightarrow> deep_copy (items_rd E) (items_rc E) (items_cp E)"
  unfolding items_cp_def by (rule deep_copy_array [OF network_copy]) simp_all

definition network_list_rd :: "'x ext \<Rightarrow> 'x heap \<Rightarrow> 'x network_list_mem \<Rightarrow> GlobalNetworkList option" where
  "network_list_rd E h l = map_option (\<lambda>(tm, lm, is). \<lparr>list_TypeMeta = tm, list_ListMeta = lm, list_Items = is\<rparr>)
     (pair_rd plain_rd (pair_rd (c_rd (ext_ListMeta E)) (items_rd E)) h
       (ml_TypeMeta l, ml_ListMeta l, ml_Items l))"

definition network_list_rc :: "'x ext \<Rightarrow> 'x heap \<Rightarrow> 'x network_list_mem \<Rightarrow> addr set" where
  "network_list_rc E h l = plain_rc h (ml_TypeMeta l) \<union>
     (c_rc (ext_ListMeta E) h (ml_ListMeta l) \<union> items_rc E h (ml_Items l))"

definition GlobalNetworkList_DeepCopyInto ::
  "'x ext \<Rightarrow> 'x network_list_mem \<Rightarrow> 'x heap \<Rightarrow> ('x network_list_mem \<times> 'x heap) outcome" where
  "GlobalNetworkList_DeepCopyInto E inp h =
     and_then (plain_cp (ml_TypeMeta inp) h) (\<lambda>(tm, h).
     and_then (c_cp (ext_ListMeta E) (ml_ListMeta inp) h) (\<lambda>(lm, h).
     and_then (items_cp E (ml_Items inp) h) (\<lambda>(is, h).
       Ret (inp\<lparr>ml_TypeMeta := tm, ml_ListMeta := lm, ml_Items := is\<rparr>, h))))"

definition GlobalNetworkList_DeepCopy :: "'x ext \<Rightarrow> addr option \<Rightarrow> 'x heap \<Rightarrow> (addr option \<times> 'x heap) outcome" where
  "GlobalNetworkList_DeepCopy E = ptr_cp un_network_list NetworkListCell (GlobalNetworkList_DeepCopyInto E)"

abbreviation read_list where "read_list E \<equiv> ptr_rd un_network_list (network_list_rd E)"
abbreviation list_cells where "list_cells E \<equiv> ptr_rc un_network_list (network_list_rc E)"

lemma update_network_list [simp]:
  "l\<lparr>ml_TypeMeta := tm, ml_ListMeta := lm, ml_Items := is\<rparr> =
     \<lparr>ml_TypeMeta = tm, ml_ListMeta = lm, ml_Items = is\<rparr>"
  by (cases l, simp)

lemma network_list_copy:
  "ext_ok E \<Longrightarrow> deep_copy (network_list_rd E) (network_list_rc E) (GlobalNetworkList_DeepCopyInto E)"
proof -
  assume E: "ext_ok E"
  have lm: "deep_copy (c_rd (ext_ListMeta E)) (c_rc (ext_ListMeta E)) (c_cp (ext_ListMeta E))"
    using E by (simp add: ext_ok_def copier_ok_def)
  show ?thesis
    by (rule deep_copy_map [OF deep_copy_pair [OF deep_copy_plain deep_copy_pair [OF lm items_copy [OF E]]],
          where f = "\<lambda>l. (ml_TypeMeta l, ml_ListMeta l, ml_Items l)"
          and g = "\<lambda>(tm, lm, is). \<lparr>ml_TypeMeta = tm, ml_ListMeta = lm, ml_Items = is\<rparr>"])
      (auto simp: network_list_rd_def network_list_rc_def GlobalNetworkList_DeepCopyInto_def pair_defs)
qed

text \<open>
  \<open>DeepCopyObject\<close>: the copy as a \<open>runtime.Object\<close>. A nil pointer becomes the nil interface, not
  an interface that holds a nil pointer.
\<close>

datatype runtime_object = NilRuntimeObject | NetworkObject "addr option" | NetworkListObject "addr option"

definition GlobalNetwork_DeepCopyObject ::
  "'x ext \<Rightarrow> addr option \<Rightarrow> 'x heap \<Rightarrow> (runtime_object \<times> 'x heap) outcome" where
  "GlobalNetwork_DeepCopyObject E inp h =
     and_then (GlobalNetwork_DeepCopy_mem E inp h) (\<lambda>(c, h).
       Ret (if c \<noteq> None then NetworkObject c else NilRuntimeObject, h))"

definition GlobalNetworkList_DeepCopyObject ::
  "'x ext \<Rightarrow> addr option \<Rightarrow> 'x heap \<Rightarrow> (runtime_object \<times> 'x heap) outcome" where
  "GlobalNetworkList_DeepCopyObject E inp h =
     and_then (GlobalNetworkList_DeepCopy E inp h) (\<lambda>(c, h).
       Ret (if c \<noteq> None then NetworkListObject c else NilRuntimeObject, h))"

text \<open>Every copy function of the resource keeps the promise.\<close>

lemma resource_copies:
  assumes "ext_ok E"
  shows "copied_deeply (read_network E) (network_cells E) (GlobalNetwork_DeepCopy_mem E)"
    and "copied_deeply (read_list E) (list_cells E) (GlobalNetworkList_DeepCopy E)"
    and "copied_deeply (ptr_rd un_spec spec_rd) (ptr_rc un_spec spec_rc) Spec_DeepCopy"
    and "copied_deeply (ptr_rd un_status (status_rd E)) (ptr_rc un_status (status_rc E)) (Status_DeepCopy E)"
    and "copied_deeply (ptr_rd un_tag tag_rd) (ptr_rc un_tag tag_rc) Tag_DeepCopy"
  using ptr_deeply [OF network_copy [OF assms], of un_network NetworkCell]
    ptr_deeply [OF network_list_copy [OF assms], of un_network_list NetworkListCell]
    ptr_deeply [OF spec_copy.deep_copy_axioms, of un_spec SpecCell]
    ptr_deeply [OF status_copy [OF assms], of un_status StatusCell]
    ptr_deeply [OF tag_copy.deep_copy_axioms, of un_tag TagCell]
  by (simp_all add: GlobalNetwork_DeepCopy_mem_def GlobalNetworkList_DeepCopy_def Spec_DeepCopy_def
      Status_DeepCopy_def Tag_DeepCopy_def)

section \<open>Properties\<close>

text \<open>
  C17: \<open>DeepCopy\<close> of the resource makes an equal and independent object. It returns, the copy
  reads as the value of the original (what \<open>GlobalNetwork_DeepCopy\<close> says of values), no
  cell of the copy is one of the original, the original still has its value, and after that the cells of
  either can be changed at will without the other changing its value.
\<close>

theorem deep_copy_independent:
  assumes "ext_ok E" and "heap_ok h" and "read_network E h p = Some v"
  shows "\<exists>p' h'. GlobalNetwork_DeepCopy_mem E p h = Ret (p', h') \<and>
    read_network E h' p' = Some (GlobalNetwork_DeepCopy v) \<and> read_network E h' p = Some v \<and>
    (p' = None \<longleftrightarrow> p = None) \<and> network_cells E h' p' \<inter> network_cells E h' p = {} \<and>
    (\<forall>h2. (\<forall>a. a \<notin> network_cells E h' p' \<longrightarrow> cells h2 a = cells h' a) \<longrightarrow> read_network E h2 p = Some v) \<and>
    (\<forall>h2. (\<forall>a. a \<notin> network_cells E h' p \<longrightarrow> cells h2 a = cells h' a) \<longrightarrow> read_network E h2 p' = Some v)"
proof -
  obtain p' h' where c: "GlobalNetwork_DeepCopy_mem E p h = Ret (p', h')" "p' = None \<longleftrightarrow> p = None"
    "read_network E h' p' = Some v" "read_network E h' p = Some v" "network_cells E h' p' \<inter> network_cells E h' p = {}"
    "\<forall>h2. (\<forall>a. a \<notin> network_cells E h' p' \<longrightarrow> cells h2 a = cells h' a) \<longrightarrow> read_network E h2 p = Some v"
    "\<forall>h2. (\<forall>a. a \<notin> network_cells E h' p \<longrightarrow> cells h2 a = cells h' a) \<longrightarrow> read_network E h2 p' = Some v"
    using resource_copies(1) [OF assms(1)] assms(2,3) by (rule copied_deeplyE)
  show ?thesis unfolding GlobalNetwork_DeepCopy_id by (intro exI conjI) (rule c)+
qed

text \<open>
  \<open>DeepCopyObject\<close>, of a resource and of a list of resources, returns the nil interface for a
  nil pointer and otherwise an object of the kind it was called on, never an interface around a
  nil pointer; the object reads as the value of the original, the items of a list element by
  element, and shares no cell with it.
\<close>

lemma deep_copy_object:
  assumes "ext_ok E" and "heap_ok h"
  shows "(\<forall>v. read_network E h p = Some v \<longrightarrow> (\<exists>h' o'. GlobalNetwork_DeepCopyObject E p h = Ret (o', h') \<and>
      (case o' of NilRuntimeObject \<Rightarrow> p = None | NetworkListObject q \<Rightarrow> False
       | NetworkObject q \<Rightarrow> p \<noteq> None \<and> q \<noteq> None \<and> read_network E h' q = Some v \<and> read_network E h' p = Some v \<and>
           network_cells E h' q \<inter> network_cells E h' p = {}))) \<and>
    (\<forall>l. read_list E h p = Some l \<longrightarrow> (\<exists>h' o'. GlobalNetworkList_DeepCopyObject E p h = Ret (o', h') \<and>
      (case o' of NilRuntimeObject \<Rightarrow> p = None | NetworkObject q \<Rightarrow> False
       | NetworkListObject q \<Rightarrow> p \<noteq> None \<and> q \<noteq> None \<and> read_list E h' q = Some l \<and> read_list E h' p = Some l \<and>
           list_cells E h' q \<inter> list_cells E h' p = {})))"
proof (intro conjI allI impI)
  fix v
  assume "read_network E h p = Some v"
  with resource_copies(1) [OF assms(1)] assms(2)
  show "\<exists>h' o'. GlobalNetwork_DeepCopyObject E p h = Ret (o', h') \<and>
      (case o' of NilRuntimeObject \<Rightarrow> p = None | NetworkListObject q \<Rightarrow> False
       | NetworkObject q \<Rightarrow> p \<noteq> None \<and> q \<noteq> None \<and> read_network E h' q = Some v \<and> read_network E h' p = Some v \<and>
           network_cells E h' q \<inter> network_cells E h' p = {})"
    by (rule copied_deeplyE, cases p) (simp_all add: GlobalNetwork_DeepCopyObject_def)
next
  fix l
  assume "read_list E h p = Some l"
  with resource_copies(2) [OF assms(1)] assms(2)
  show "\<exists>h' o'. GlobalNetworkList_DeepCopyObject E p h = Ret (o', h') \<and>
      (case o' of NilRuntimeObject \<Rightarrow> p = None | NetworkObject q \<Rightarrow> False
       | NetworkListObject q \<Rightarrow> p \<noteq> None \<and> q \<noteq> None \<and> read_list E h' q = Some l \<and> read_list E h' p = Some l \<and>
           list_cells E h' q \<inter> list_cells E h' p = {})"
    by (rule copied_deeplyE, cases p) (simp_all add: GlobalNetworkList_DeepCopyObject_def)
qed

end
