(* ===== verification/StructCopies.thy ===== *)
theory StructCopies
  imports HeapCopy
begin

text \<open>
  What the generated copies of the other API structs (\<open>apis/v1alpha1/types.go\<close>,
  \<open>zz_generated.deepcopy.go\<close>) share. Such a struct has only three kinds of fields, \<open>*string\<close>,
  \<open>*metav1.Time\<close> and \<open>[]*Tag\<close>, so it is one record type with a type parameter for each kind it
  has: in memory the fields are addresses, as a value they are optional texts, optional times
  and slices of tags. Every struct \<open>X\<close> has its fields as a tuple (\<open>X_fields\<close>, \<open>X_of\<close>), the two
  copy functions (\<open>X_DeepCopyInto\<close>, \<open>X_DeepCopy\<close>) and a \<open>copier\<close> that says how it reads
  (\<open>X_copier\<close>). \<open>copied_deeply\<close> is what a \<open>DeepCopy\<close> promises.
\<close>

type_synonym ('x, 'p) copy_fn = "'p \<Rightarrow> 'x heap \<Rightarrow> ('p \<times> 'x heap) outcome"

section \<open>Kinds of fields\<close>

definition string_c :: "('x, addr option, string option) copier" where
  "string_c = \<lparr>c_rd = string_rd, c_rc = string_rc, c_cp = string_cp\<rparr>"

definition time_c :: "'x ext \<Rightarrow> ('x, addr option, gotime option) copier" where
  "time_c E = \<lparr>c_rd = c_rd (ext_time E), c_rc = c_rc (ext_time E), c_cp = time_cp E\<rparr>"

definition tags_c :: "('x, addr option, tag option slice) copier" where
  "tags_c = \<lparr>c_rd = tags_rd, c_rc = tags_rc, c_cp = slice_cp Tag_DeepCopy\<rparr>"

definition pair_c :: "('x, 'p, 'v) copier \<Rightarrow> ('x, 'q, 'u) copier \<Rightarrow> ('x, 'p \<times> 'q, 'v \<times> 'u) copier" where
  "pair_c c d = \<lparr>c_rd = pair_rd (c_rd c) (c_rd d), c_rc = pair_rc (c_rc c) (c_rc d),
     c_cp = pair_cp (c_cp c) (c_cp d)\<rparr>"

definition struct_c ::
  "('m \<Rightarrow> 'p) \<Rightarrow> ('v \<Rightarrow> 'u) \<Rightarrow> ('x, 'p, 'v) copier \<Rightarrow> ('m \<Rightarrow> 'x heap \<Rightarrow> ('m \<times> 'x heap) outcome) \<Rightarrow>
   ('x, 'm, 'u) copier" where
  "struct_c flds build c into =
     \<lparr>c_rd = (\<lambda>h m. map_option build (c_rd c h (flds m))), c_rc = (\<lambda>h m. c_rc c h (flds m)), c_cp = into\<rparr>"

named_theorems generated_copies \<open>the promise of the generated copies\<close>

named_theorems copier_intros \<open>copiers that keep the contract\<close>

lemma field_copiers [copier_intros]:
  "copier_ok string_c" "copier_ok tags_c" "ext_ok E \<Longrightarrow> copier_ok (time_c E)"
  using string_copy.deep_copy_axioms tags_copy.deep_copy_axioms time_copy [of E]
  by (simp_all add: copier_ok_def string_c_def tags_c_def time_c_def)

lemma pair_copier [copier_intros]: "copier_ok c \<Longrightarrow> copier_ok d \<Longrightarrow> copier_ok (pair_c c d)"
  by (simp add: copier_ok_def pair_c_def deep_copy_pair)

text \<open>The copies of the fields one after the other, as the code writes them.\<close>

lemma field_copies:
  "c_cp string_c = string_cp" "c_cp (time_c E) = time_cp E" "c_cp tags_c = slice_cp Tag_DeepCopy"
  "c_cp (pair_c c d) = pair_cp (c_cp c) (c_cp d)"
  by (simp_all add: string_c_def time_c_def tags_c_def pair_c_def)

lemmas into_defs = field_copies pair_cp_def and_then_assoc case_prod_unfold

lemma struct_copier:
  assumes "copier_ok c" and "\<And>t. flds (build' t) = t"
    and "\<And>m h. into m h = and_then (c_cp c (flds m) h) (\<lambda>(t, h). Ret (build' t, h))"
  shows "copier_ok (struct_c flds build c into)"
  unfolding copier_ok_def struct_c_def copier.simps
  by (rule deep_copy_map [OF assms(1) [unfolded copier_ok_def], where f = flds and g = build' and k = build])
    (simp_all add: assms(2,3))

section \<open>Structs in memory\<close>

text \<open>A struct of pointers as its words; \<open>pack\<close> and \<open>unpack\<close> turn the tuple of its fields into words and back.\<close>

definition struct_mk :: "('t \<Rightarrow> addr option list) \<Rightarrow> ('m \<Rightarrow> 't) \<Rightarrow> 'm \<Rightarrow> 'x cell" where
  "struct_mk pack flds m = StructCell (pack (flds m))"

definition struct_un :: "(addr option list \<Rightarrow> 't option) \<Rightarrow> ('t \<Rightarrow> 'm) \<Rightarrow> 'x cell \<Rightarrow> 'm option" where
  "struct_un unpack build c = (case c of StructCell ws \<Rightarrow> map_option build (unpack ws) | _ \<Rightarrow> None)"

lemma struct_un_mk:
  "(\<And>t. unpack (pack t) = Some t) \<Longrightarrow> (\<And>m. build (flds m) = m) \<Longrightarrow>
    struct_un unpack build (struct_mk pack flds m) = Some m"
  by (simp add: struct_un_def struct_mk_def)

definition pack1 :: "'a \<Rightarrow> 'a list" where "pack1 a = [a]"
definition pack2 :: "'a \<times> 'a \<Rightarrow> 'a list" where "pack2 = (\<lambda>(a, b). [a, b])"
definition pack3 :: "'a \<times> 'a \<times> 'a \<Rightarrow> 'a list" where "pack3 = (\<lambda>(a, b, c). [a, b, c])"
definition pack4 :: "'a \<times> 'a \<times> 'a \<times> 'a \<Rightarrow> 'a list" where "pack4 = (\<lambda>(a, b, c, d). [a, b, c, d])"
definition pack5 :: "'a \<times> 'a \<times> 'a \<times> 'a \<times> 'a \<Rightarrow> 'a list" where
  "pack5 = (\<lambda>(a, b, c, d, e). [a, b, c, d, e])"
definition pack6 :: "'a \<times> 'a \<times> 'a \<times> 'a \<times> 'a \<times> 'a \<Rightarrow> 'a list" where
  "pack6 = (\<lambda>(a, b, c, d, e, f). [a, b, c, d, e, f])"
definition pack8 :: "'a \<times> 'a \<times> 'a \<times> 'a \<times> 'a \<times> 'a \<times> 'a \<times> 'a \<Rightarrow> 'a list" where
  "pack8 = (\<lambda>(a, b, c, d, e, f, g, i). [a, b, c, d, e, f, g, i])"

fun unpack1 :: "'a list \<Rightarrow> 'a option" where "unpack1 [a] = Some a" | "unpack1 _ = None"
fun unpack2 :: "'a list \<Rightarrow> ('a \<times> 'a) option" where "unpack2 [a, b] = Some (a, b)" | "unpack2 _ = None"
fun unpack3 :: "'a list \<Rightarrow> ('a \<times> 'a \<times> 'a) option" where
  "unpack3 [a, b, c] = Some (a, b, c)" | "unpack3 _ = None"
fun unpack4 :: "'a list \<Rightarrow> ('a \<times> 'a \<times> 'a \<times> 'a) option" where
  "unpack4 [a, b, c, d] = Some (a, b, c, d)" | "unpack4 _ = None"
fun unpack5 :: "'a list \<Rightarrow> ('a \<times> 'a \<times> 'a \<times> 'a \<times> 'a) option" where
  "unpack5 [a, b, c, d, e] = Some (a, b, c, d, e)" | "unpack5 _ = None"
fun unpack6 :: "'a list \<Rightarrow> ('a \<times> 'a \<times> 'a \<times> 'a \<times> 'a \<times> 'a) option" where
  "unpack6 [a, b, c, d, e, f] = Some (a, b, c, d, e, f)" | "unpack6 _ = None"
fun unpack8 :: "'a list \<Rightarrow> ('a \<times> 'a \<times> 'a \<times> 'a \<times> 'a \<times> 'a \<times> 'a \<times> 'a) option" where
  "unpack8 [a, b, c, d, e, f, g, i] = Some (a, b, c, d, e, f, g, i)" | "unpack8 _ = None"

lemma unpack_pack [simp]:
  "unpack1 (pack1 a) = Some a" "unpack2 (pack2 b) = Some b" "unpack3 (pack3 c) = Some c"
  "unpack4 (pack4 d) = Some d" "unpack5 (pack5 e) = Some e" "unpack6 (pack6 f) = Some f"
  "unpack8 (pack8 g) = Some g"
  by (simp_all add: pack1_def pack2_def pack3_def pack4_def pack5_def pack6_def pack8_def
      split: prod.split)

section \<open>\<open>DeepCopy\<close>\<close>

definition deeply ::
  "('x, 'm, 'v) copier \<Rightarrow> ('x cell \<Rightarrow> 'm option) \<Rightarrow>
   (addr option \<Rightarrow> 'x heap \<Rightarrow> (addr option \<times> 'x heap) outcome) \<Rightarrow> bool" where
  "deeply c un cp \<longleftrightarrow> copied_deeply (ptr_rd un (c_rd c)) (ptr_rc un (c_rc c)) cp"

text \<open>
  A struct with its layout: the allocation and copy that \<open>DeepCopy\<close> is, and its promise from the
  one of \<open>DeepCopyInto\<close>.
\<close>

definition struct_DeepCopy ::
  "('t \<Rightarrow> addr option list) \<Rightarrow> (addr option list \<Rightarrow> 't option) \<Rightarrow> ('m \<Rightarrow> 't) \<Rightarrow> ('t \<Rightarrow> 'm) \<Rightarrow>
   ('m \<Rightarrow> 'x heap \<Rightarrow> ('m \<times> 'x heap) outcome) \<Rightarrow> addr option \<Rightarrow> 'x heap \<Rightarrow> (addr option \<times> 'x heap) outcome" where
  "struct_DeepCopy pack unpack flds build into = ptr_cp (struct_un unpack build) (struct_mk pack flds) into"

lemma struct_deeply:
  assumes c: "copier_ok c"
    and laws: "\<And>t. flds (build' t) = t" "\<And>m. build' (flds m) = m" "\<And>t. unpack (pack t) = Some t"
    and into: "\<And>m h. into m h = and_then (c_cp c (flds m) h) (\<lambda>(t, h). Ret (build' t, h))"
  shows "deeply (struct_c flds build c into) (struct_un unpack build') (struct_DeepCopy pack unpack flds build' into)"
proof -
  have ok: "copier_ok (struct_c flds build c into)"
    by (rule struct_copier [OF c, where build' = build']) (rule laws(1), rule into)
  have un: "struct_un unpack build' (struct_mk pack flds m) = Some m" for m
    by (rule struct_un_mk) (rule laws)+
  show ?thesis
    using ptr_deeply [OF ok [unfolded copier_ok_def], of "struct_un unpack build'" "struct_mk pack flds", OF un]
    by (simp add: deeply_def struct_DeepCopy_def struct_c_def)
qed

end
