(* ===== verification/CoreNetworkCopies.thy ===== *)
theory CoreNetworkCopies
  imports StructCopies
begin

text \<open>
  The structs of \<open>apis/v1alpha1/types.go\<close> that describe core networks, their changes, policies and
  segments, the attachments to them and their peers, with their generated copies
  (\<open>zz_generated.deepcopy.go\<close>). Each struct \<open>X\<close> is a record with its tuple of fields, the two copy
  functions, the copier that reads it, and the lemma that \<open>DeepCopy\<close> keeps its promise.
\<close>

section \<open>\<open>Attachment\<close>\<close>

record ('s, 't, 'g) Attachment =
  Attachment_CreatedAt :: 't
  Attachment_SegmentName :: 's
  Attachment_Tags :: 'g
  Attachment_UpdatedAt :: 't

definition Attachment_fields :: "('s, 't, 'g) Attachment \<Rightarrow> 't \<times> 's \<times> 'g \<times> 't" where
  "Attachment_fields m = (Attachment_CreatedAt m, Attachment_SegmentName m, Attachment_Tags m,
     Attachment_UpdatedAt m)"

definition Attachment_of :: "'t \<times> 's \<times> 'g \<times> 't \<Rightarrow> ('s, 't, 'g) Attachment" where
  "Attachment_of = (\<lambda>(c1, c2, c3, c4).
     \<lparr>Attachment_CreatedAt = c1, Attachment_SegmentName = c2, Attachment_Tags = c3,
     Attachment_UpdatedAt = c4\<rparr>)"

definition Attachment_DeepCopyInto :: "'x ext \<Rightarrow> ('x, (addr option, addr option, addr option) Attachment) copy_fn" where
  "Attachment_DeepCopyInto E inp h =
     and_then (time_cp E (Attachment_CreatedAt inp) h) (\<lambda>(c1, h).
     and_then (string_cp (Attachment_SegmentName inp) h) (\<lambda>(c2, h).
     and_then (slice_cp Tag_DeepCopy (Attachment_Tags inp) h) (\<lambda>(c3, h).
     and_then (time_cp E (Attachment_UpdatedAt inp) h) (\<lambda>(c4, h).
       Ret (inp\<lparr>Attachment_CreatedAt := c1, Attachment_SegmentName := c2, Attachment_Tags := c3,
              Attachment_UpdatedAt := c4\<rparr>, h)))))"

definition Attachment_DeepCopy :: "'x ext \<Rightarrow> ('x, addr option) copy_fn" where
  "Attachment_DeepCopy E =
     struct_DeepCopy pack4 unpack4 Attachment_fields Attachment_of (Attachment_DeepCopyInto E)"

definition Attachment_copier where
  "Attachment_copier E = struct_c Attachment_fields Attachment_of
     (pair_c (time_c E) (pair_c string_c (pair_c tags_c (time_c E))))
     (Attachment_DeepCopyInto E)"

lemma Attachment_written:
  "m\<lparr>Attachment_CreatedAt := c1, Attachment_SegmentName := c2, Attachment_Tags := c3,
      Attachment_UpdatedAt := c4\<rparr> = Attachment_of (c1, c2, c3, c4)"
  by (cases m) (simp add: Attachment_of_def)

lemma Attachment_copied [generated_copies]:
  "ext_ok E \<Longrightarrow> deeply (Attachment_copier E) (struct_un unpack4 Attachment_of) (Attachment_DeepCopy E)"
  unfolding Attachment_copier_def Attachment_DeepCopy_def
  by (rule struct_deeply, intro copier_intros)
    (auto simp: Attachment_DeepCopyInto_def Attachment_written Attachment_fields_def Attachment_of_def into_defs)

section \<open>\<open>AttachmentRoutingPolicyAssociationSummary\<close>\<close>

record 's AttachmentRoutingPolicyAssociationSummary =
  AttachmentRoutingPolicyAssociationSummary_RoutingPolicyLabel :: 's

definition AttachmentRoutingPolicyAssociationSummary_fields :: "'s AttachmentRoutingPolicyAssociationSummary \<Rightarrow> 's" where
  "AttachmentRoutingPolicyAssociationSummary_fields m =
     AttachmentRoutingPolicyAssociationSummary_RoutingPolicyLabel m"

definition AttachmentRoutingPolicyAssociationSummary_of :: "'s \<Rightarrow> 's AttachmentRoutingPolicyAssociationSummary" where
  "AttachmentRoutingPolicyAssociationSummary_of c1 = \<lparr>AttachmentRoutingPolicyAssociationSummary_RoutingPolicyLabel = c1\<rparr>"

definition AttachmentRoutingPolicyAssociationSummary_DeepCopyInto :: "('x, addr option AttachmentRoutingPolicyAssociationSummary) copy_fn" where
  "AttachmentRoutingPolicyAssociationSummary_DeepCopyInto inp h =
     and_then (string_cp (AttachmentRoutingPolicyAssociationSummary_RoutingPolicyLabel inp) h) (\<lambda>(c1, h).
       Ret (inp\<lparr>AttachmentRoutingPolicyAssociationSummary_RoutingPolicyLabel := c1\<rparr>, h))"

definition AttachmentRoutingPolicyAssociationSummary_DeepCopy :: "('x, addr option) copy_fn" where
  "AttachmentRoutingPolicyAssociationSummary_DeepCopy =
     struct_DeepCopy pack1 unpack1 AttachmentRoutingPolicyAssociationSummary_fields AttachmentRoutingPolicyAssociationSummary_of AttachmentRoutingPolicyAssociationSummary_DeepCopyInto"

definition AttachmentRoutingPolicyAssociationSummary_copier where
  "AttachmentRoutingPolicyAssociationSummary_copier = struct_c AttachmentRoutingPolicyAssociationSummary_fields AttachmentRoutingPolicyAssociationSummary_of
     string_c
     AttachmentRoutingPolicyAssociationSummary_DeepCopyInto"

lemma AttachmentRoutingPolicyAssociationSummary_written:
  "m\<lparr>AttachmentRoutingPolicyAssociationSummary_RoutingPolicyLabel := c1\<rparr> = AttachmentRoutingPolicyAssociationSummary_of c1"
  by (cases m) (simp add: AttachmentRoutingPolicyAssociationSummary_of_def)

lemma AttachmentRoutingPolicyAssociationSummary_copied [generated_copies]:
  "deeply AttachmentRoutingPolicyAssociationSummary_copier (struct_un unpack1 AttachmentRoutingPolicyAssociationSummary_of) AttachmentRoutingPolicyAssociationSummary_DeepCopy"
  unfolding AttachmentRoutingPolicyAssociationSummary_copier_def AttachmentRoutingPolicyAssociationSummary_DeepCopy_def
  by (rule struct_deeply, intro copier_intros)
    (auto simp: AttachmentRoutingPolicyAssociationSummary_DeepCopyInto_def AttachmentRoutingPolicyAssociationSummary_written AttachmentRoutingPolicyAssociationSummary_fields_def AttachmentRoutingPolicyAssociationSummary_of_def into_defs)

section \<open>\<open>ConnectPeer\<close>\<close>

record ('t, 'g) ConnectPeer =
  ConnectPeer_CreatedAt :: 't
  ConnectPeer_Tags :: 'g

definition ConnectPeer_fields :: "('t, 'g) ConnectPeer \<Rightarrow> 't \<times> 'g" where
  "ConnectPeer_fields m = (ConnectPeer_CreatedAt m, ConnectPeer_Tags m)"

definition ConnectPeer_of :: "'t \<times> 'g \<Rightarrow> ('t, 'g) ConnectPeer" where
  "ConnectPeer_of = (\<lambda>(c1, c2).
     \<lparr>ConnectPeer_CreatedAt = c1, ConnectPeer_Tags = c2\<rparr>)"

definition ConnectPeer_DeepCopyInto :: "'x ext \<Rightarrow> ('x, (addr option, addr option) ConnectPeer) copy_fn" where
  "ConnectPeer_DeepCopyInto E inp h =
     and_then (time_cp E (ConnectPeer_CreatedAt inp) h) (\<lambda>(c1, h).
     and_then (slice_cp Tag_DeepCopy (ConnectPeer_Tags inp) h) (\<lambda>(c2, h).
       Ret (inp\<lparr>ConnectPeer_CreatedAt := c1, ConnectPeer_Tags := c2\<rparr>, h)))"

definition ConnectPeer_DeepCopy :: "'x ext \<Rightarrow> ('x, addr option) copy_fn" where
  "ConnectPeer_DeepCopy E =
     struct_DeepCopy pack2 unpack2 ConnectPeer_fields ConnectPeer_of (ConnectPeer_DeepCopyInto E)"

definition ConnectPeer_copier where
  "ConnectPeer_copier E = struct_c ConnectPeer_fields ConnectPeer_of
     (pair_c (time_c E) tags_c)
     (ConnectPeer_DeepCopyInto E)"

lemma ConnectPeer_written:
  "m\<lparr>ConnectPeer_CreatedAt := c1, ConnectPeer_Tags := c2\<rparr> = ConnectPeer_of (c1, c2)"
  by (cases m) (simp add: ConnectPeer_of_def)

lemma ConnectPeer_copied [generated_copies]:
  "ext_ok E \<Longrightarrow> deeply (ConnectPeer_copier E) (struct_un unpack2 ConnectPeer_of) (ConnectPeer_DeepCopy E)"
  unfolding ConnectPeer_copier_def ConnectPeer_DeepCopy_def
  by (rule struct_deeply, intro copier_intros)
    (auto simp: ConnectPeer_DeepCopyInto_def ConnectPeer_written ConnectPeer_fields_def ConnectPeer_of_def into_defs)

section \<open>\<open>ConnectPeerAssociation\<close>\<close>

record 's ConnectPeerAssociation =
  ConnectPeerAssociation_GlobalNetworkID :: 's

definition ConnectPeerAssociation_fields :: "'s ConnectPeerAssociation \<Rightarrow> 's" where
  "ConnectPeerAssociation_fields m = ConnectPeerAssociation_GlobalNetworkID m"

definition ConnectPeerAssociation_of :: "'s \<Rightarrow> 's ConnectPeerAssociation" where
  "ConnectPeerAssociation_of c1 = \<lparr>ConnectPeerAssociation_GlobalNetworkID = c1\<rparr>"

definition ConnectPeerAssociation_DeepCopyInto :: "('x, addr option ConnectPeerAssociation) copy_fn" where
  "ConnectPeerAssociation_DeepCopyInto inp h =
     and_then (string_cp (ConnectPeerAssociation_GlobalNetworkID inp) h) (\<lambda>(c1, h).
       Ret (inp\<lparr>ConnectPeerAssociation_GlobalNetworkID := c1\<rparr>, h))"

definition ConnectPeerAssociation_DeepCopy :: "('x, addr option) copy_fn" where
  "ConnectPeerAssociation_DeepCopy =
     struct_DeepCopy pack1 unpack1 ConnectPeerAssociation_fields ConnectPeerAssociation_of ConnectPeerAssociation_DeepCopyInto"

definition ConnectPeerAssociation_copier where
  "ConnectPeerAssociation_copier = struct_c ConnectPeerAssociation_fields ConnectPeerAssociation_of
     string_c
     ConnectPeerAssociation_DeepCopyInto"

lemma ConnectPeerAssociation_written:
  "m\<lparr>ConnectPeerAssociation_GlobalNetworkID := c1\<rparr> = ConnectPeerAssociation_of c1"
  by (cases m) (simp add: ConnectPeerAssociation_of_def)

lemma ConnectPeerAssociation_copied [generated_copies]:
  "deeply ConnectPeerAssociation_copier (struct_un unpack1 ConnectPeerAssociation_of) ConnectPeerAssociation_DeepCopy"
  unfolding ConnectPeerAssociation_copier_def ConnectPeerAssociation_DeepCopy_def
  by (rule struct_deeply, intro copier_intros)
    (auto simp: ConnectPeerAssociation_DeepCopyInto_def ConnectPeerAssociation_written ConnectPeerAssociation_fields_def ConnectPeerAssociation_of_def into_defs)

section \<open>\<open>ConnectPeerSummary\<close>\<close>

record ('t, 'g) ConnectPeerSummary =
  ConnectPeerSummary_CreatedAt :: 't
  ConnectPeerSummary_Tags :: 'g

definition ConnectPeerSummary_fields :: "('t, 'g) ConnectPeerSummary \<Rightarrow> 't \<times> 'g" where
  "ConnectPeerSummary_fields m = (ConnectPeerSummary_CreatedAt m, ConnectPeerSummary_Tags m)"

definition ConnectPeerSummary_of :: "'t \<times> 'g \<Rightarrow> ('t, 'g) ConnectPeerSummary" where
  "ConnectPeerSummary_of = (\<lambda>(c1, c2).
     \<lparr>ConnectPeerSummary_CreatedAt = c1, ConnectPeerSummary_Tags = c2\<rparr>)"

definition ConnectPeerSummary_DeepCopyInto :: "'x ext \<Rightarrow> ('x, (addr option, addr option) ConnectPeerSummary) copy_fn" where
  "ConnectPeerSummary_DeepCopyInto E inp h =
     and_then (time_cp E (ConnectPeerSummary_CreatedAt inp) h) (\<lambda>(c1, h).
     and_then (slice_cp Tag_DeepCopy (ConnectPeerSummary_Tags inp) h) (\<lambda>(c2, h).
       Ret (inp\<lparr>ConnectPeerSummary_CreatedAt := c1, ConnectPeerSummary_Tags := c2\<rparr>, h)))"

definition ConnectPeerSummary_DeepCopy :: "'x ext \<Rightarrow> ('x, addr option) copy_fn" where
  "ConnectPeerSummary_DeepCopy E =
     struct_DeepCopy pack2 unpack2 ConnectPeerSummary_fields ConnectPeerSummary_of (ConnectPeerSummary_DeepCopyInto E)"

definition ConnectPeerSummary_copier where
  "ConnectPeerSummary_copier E = struct_c ConnectPeerSummary_fields ConnectPeerSummary_of
     (pair_c (time_c E) tags_c)
     (ConnectPeerSummary_DeepCopyInto E)"

lemma ConnectPeerSummary_written:
  "m\<lparr>ConnectPeerSummary_CreatedAt := c1, ConnectPeerSummary_Tags := c2\<rparr> = ConnectPeerSummary_of (c1, c2)"
  by (cases m) (simp add: ConnectPeerSummary_of_def)

lemma ConnectPeerSummary_copied [generated_copies]:
  "ext_ok E \<Longrightarrow> deeply (ConnectPeerSummary_copier E) (struct_un unpack2 ConnectPeerSummary_of) (ConnectPeerSummary_DeepCopy E)"
  unfolding ConnectPeerSummary_copier_def ConnectPeerSummary_DeepCopy_def
  by (rule struct_deeply, intro copier_intros)
    (auto simp: ConnectPeerSummary_DeepCopyInto_def ConnectPeerSummary_written ConnectPeerSummary_fields_def ConnectPeerSummary_of_def into_defs)

section \<open>\<open>CoreNetwork\<close>\<close>

record ('s, 't, 'g) CoreNetwork =
  CoreNetwork_CreatedAt :: 't
  CoreNetwork_Description :: 's
  CoreNetwork_GlobalNetworkID :: 's
  CoreNetwork_Tags :: 'g

definition CoreNetwork_fields :: "('s, 't, 'g) CoreNetwork \<Rightarrow> 't \<times> 's \<times> 's \<times> 'g" where
  "CoreNetwork_fields m = (CoreNetwork_CreatedAt m, CoreNetwork_Description m,
     CoreNetwork_GlobalNetworkID m, CoreNetwork_Tags m)"

definition CoreNetwork_of :: "'t \<times> 's \<times> 's \<times> 'g \<Rightarrow> ('s, 't, 'g) CoreNetwork" where
  "CoreNetwork_of = (\<lambda>(c1, c2, c3, c4).
     \<lparr>CoreNetwork_CreatedAt = c1, CoreNetwork_Description = c2, CoreNetwork_GlobalNetworkID = c3,
     CoreNetwork_Tags = c4\<rparr>)"

definition CoreNetwork_DeepCopyInto :: "'x ext \<Rightarrow> ('x, (addr option, addr option, addr option) CoreNetwork) copy_fn" where
  "CoreNetwork_DeepCopyInto E inp h =
     and_then (time_cp E (CoreNetwork_CreatedAt inp) h) (\<lambda>(c1, h).
     and_then (string_cp (CoreNetwork_Description inp) h) (\<lambda>(c2, h).
     and_then (string_cp (CoreNetwork_GlobalNetworkID inp) h) (\<lambda>(c3, h).
     and_then (slice_cp Tag_DeepCopy (CoreNetwork_Tags inp) h) (\<lambda>(c4, h).
       Ret (inp\<lparr>CoreNetwork_CreatedAt := c1, CoreNetwork_Description := c2,
              CoreNetwork_GlobalNetworkID := c3, CoreNetwork_Tags := c4\<rparr>, h)))))"

definition CoreNetwork_DeepCopy :: "'x ext \<Rightarrow> ('x, addr option) copy_fn" where
  "CoreNetwork_DeepCopy E =
     struct_DeepCopy pack4 unpack4 CoreNetwork_fields CoreNetwork_of (CoreNetwork_DeepCopyInto E)"

definition CoreNetwork_copier where
  "CoreNetwork_copier E = struct_c CoreNetwork_fields CoreNetwork_of
     (pair_c (time_c E) (pair_c string_c (pair_c string_c tags_c)))
     (CoreNetwork_DeepCopyInto E)"

lemma CoreNetwork_written:
  "m\<lparr>CoreNetwork_CreatedAt := c1, CoreNetwork_Description := c2, CoreNetwork_GlobalNetworkID := c3,
      CoreNetwork_Tags := c4\<rparr> = CoreNetwork_of (c1, c2, c3, c4)"
  by (cases m) (simp add: CoreNetwork_of_def)

lemma CoreNetwork_copied [generated_copies]:
  "ext_ok E \<Longrightarrow> deeply (CoreNetwork_copier E) (struct_un unpack4 CoreNetwork_of) (CoreNetwork_DeepCopy E)"
  unfolding CoreNetwork_copier_def CoreNetwork_DeepCopy_def
  by (rule struct_deeply, intro copier_intros)
    (auto simp: CoreNetwork_DeepCopyInto_def CoreNetwork_written CoreNetwork_fields_def CoreNetwork_of_def into_defs)

section \<open>\<open>CoreNetworkChange\<close>\<close>

record 's CoreNetworkChange =
  CoreNetworkChange_Identifier :: 's
  CoreNetworkChange_IdentifierPath :: 's

definition CoreNetworkChange_fields :: "'s CoreNetworkChange \<Rightarrow> 's \<times> 's" where
  "CoreNetworkChange_fields m = (CoreNetworkChange_Identifier m, CoreNetworkChange_IdentifierPath m)"

definition CoreNetworkChange_of :: "'s \<times> 's \<Rightarrow> 's CoreNetworkChange" where
  "CoreNetworkChange_of = (\<lambda>(c1, c2).
     \<lparr>CoreNetworkChange_Identifier = c1, CoreNetworkChange_IdentifierPath = c2\<rparr>)"

definition CoreNetworkChange_DeepCopyInto :: "('x, addr option CoreNetworkChange) copy_fn" where
  "CoreNetworkChange_DeepCopyInto inp h =
     and_then (string_cp (CoreNetworkChange_Identifier inp) h) (\<lambda>(c1, h).
     and_then (string_cp (CoreNetworkChange_IdentifierPath inp) h) (\<lambda>(c2, h).
       Ret (inp\<lparr>CoreNetworkChange_Identifier := c1, CoreNetworkChange_IdentifierPath := c2\<rparr>, h)))"

definition CoreNetworkChange_DeepCopy :: "('x, addr option) copy_fn" where
  "CoreNetworkChange_DeepCopy =
     struct_DeepCopy pack2 unpack2 CoreNetworkChange_fields CoreNetworkChange_of CoreNetworkChange_DeepCopyInto"

definition CoreNetworkChange_copier where
  "CoreNetworkChange_copier = struct_c CoreNetworkChange_fields CoreNetworkChange_of
     (pair_c string_c string_c)
     CoreNetworkChange_DeepCopyInto"

lemma CoreNetworkChange_written:
  "m\<lparr>CoreNetworkChange_Identifier := c1, CoreNetworkChange_IdentifierPath := c2\<rparr> = CoreNetworkChange_of (c1, c2)"
  by (cases m) (simp add: CoreNetworkChange_of_def)

lemma CoreNetworkChange_copied [generated_copies]:
  "deeply CoreNetworkChange_copier (struct_un unpack2 CoreNetworkChange_of) CoreNetworkChange_DeepCopy"
  unfolding CoreNetworkChange_copier_def CoreNetworkChange_DeepCopy_def
  by (rule struct_deeply, intro copier_intros)
    (auto simp: CoreNetworkChange_DeepCopyInto_def CoreNetworkChange_written CoreNetworkChange_fields_def CoreNetworkChange_of_def into_defs)

section \<open>\<open>CoreNetworkChangeEvent\<close>\<close>

record ('s, 't) CoreNetworkChangeEvent =
  CoreNetworkChangeEvent_EventTime :: 't
  CoreNetworkChangeEvent_IdentifierPath :: 's

definition CoreNetworkChangeEvent_fields :: "('s, 't) CoreNetworkChangeEvent \<Rightarrow> 't \<times> 's" where
  "CoreNetworkChangeEvent_fields m = (CoreNetworkChangeEvent_EventTime m,
     CoreNetworkChangeEvent_IdentifierPath m)"

definition CoreNetworkChangeEvent_of :: "'t \<times> 's \<Rightarrow> ('s, 't) CoreNetworkChangeEvent" where
  "CoreNetworkChangeEvent_of = (\<lambda>(c1, c2).
     \<lparr>CoreNetworkChangeEvent_EventTime = c1, CoreNetworkChangeEvent_IdentifierPath = c2\<rparr>)"

definition CoreNetworkChangeEvent_DeepCopyInto :: "'x ext \<Rightarrow> ('x, (addr option, addr option) CoreNetworkChangeEvent) copy_fn" where
  "CoreNetworkChangeEvent_DeepCopyInto E inp h =
     and_then (time_cp E (CoreNetworkChangeEvent_EventTime inp) h) (\<lambda>(c1, h).
     and_then (string_cp (CoreNetworkChangeEvent_IdentifierPath inp) h) (\<lambda>(c2, h).
       Ret (inp\<lparr>CoreNetworkChangeEvent_EventTime := c1, CoreNetworkChangeEvent_IdentifierPath := c2\<rparr>, h)))"

definition CoreNetworkChangeEvent_DeepCopy :: "'x ext \<Rightarrow> ('x, addr option) copy_fn" where
  "CoreNetworkChangeEvent_DeepCopy E =
     struct_DeepCopy pack2 unpack2 CoreNetworkChangeEvent_fields CoreNetworkChangeEvent_of (CoreNetworkChangeEvent_DeepCopyInto E)"

definition CoreNetworkChangeEvent_copier where
  "CoreNetworkChangeEvent_copier E = struct_c CoreNetworkChangeEvent_fields CoreNetworkChangeEvent_of
     (pair_c (time_c E) string_c)
     (CoreNetworkChangeEvent_DeepCopyInto E)"

lemma CoreNetworkChangeEvent_written:
  "m\<lparr>CoreNetworkChangeEvent_EventTime := c1, CoreNetworkChangeEvent_IdentifierPath := c2\<rparr> = CoreNetworkChangeEvent_of (c1, c2)"
  by (cases m) (simp add: CoreNetworkChangeEvent_of_def)

lemma CoreNetworkChangeEvent_copied [generated_copies]:
  "ext_ok E \<Longrightarrow> deeply (CoreNetworkChangeEvent_copier E) (struct_un unpack2 CoreNetworkChangeEvent_of) (CoreNetworkChangeEvent_DeepCopy E)"
  unfolding CoreNetworkChangeEvent_copier_def CoreNetworkChangeEvent_DeepCopy_def
  by (rule struct_deeply, intro copier_intros)
    (auto simp: CoreNetworkChangeEvent_DeepCopyInto_def CoreNetworkChangeEvent_written CoreNetworkChangeEvent_fields_def CoreNetworkChangeEvent_of_def into_defs)

section \<open>\<open>CoreNetworkChangeEventValues\<close>\<close>

record 's CoreNetworkChangeEventValues =
  CoreNetworkChangeEventValues_CIDR :: 's
  CoreNetworkChangeEventValues_NetworkFunctionGroupName :: 's
  CoreNetworkChangeEventValues_SegmentName :: 's

definition CoreNetworkChangeEventValues_fields :: "'s CoreNetworkChangeEventValues \<Rightarrow> 's \<times> 's \<times> 's" where
  "CoreNetworkChangeEventValues_fields m = (CoreNetworkChangeEventValues_CIDR m,
     CoreNetworkChangeEventValues_NetworkFunctionGroupName m,
     CoreNetworkChangeEventValues_SegmentName m)"

definition CoreNetworkChangeEventValues_of :: "'s \<times> 's \<times> 's \<Rightarrow> 's CoreNetworkChangeEventValues" where
  "CoreNetworkChangeEventValues_of = (\<lambda>(c1, c2, c3).
     \<lparr>CoreNetworkChangeEventValues_CIDR = c1, CoreNetworkChangeEventValues_NetworkFunctionGroupName = c2,
     CoreNetworkChangeEventValues_SegmentName = c3\<rparr>)"

definition CoreNetworkChangeEventValues_DeepCopyInto :: "('x, addr option CoreNetworkChangeEventValues) copy_fn" where
  "CoreNetworkChangeEventValues_DeepCopyInto inp h =
     and_then (string_cp (CoreNetworkChangeEventValues_CIDR inp) h) (\<lambda>(c1, h).
     and_then (string_cp (CoreNetworkChangeEventValues_NetworkFunctionGroupName inp) h) (\<lambda>(c2, h).
     and_then (string_cp (CoreNetworkChangeEventValues_SegmentName inp) h) (\<lambda>(c3, h).
       Ret (inp\<lparr>CoreNetworkChangeEventValues_CIDR := c1,
              CoreNetworkChangeEventValues_NetworkFunctionGroupName := c2,
              CoreNetworkChangeEventValues_SegmentName := c3\<rparr>, h))))"

definition CoreNetworkChangeEventValues_DeepCopy :: "('x, addr option) copy_fn" where
  "CoreNetworkChangeEventValues_DeepCopy =
     struct_DeepCopy pack3 unpack3 CoreNetworkChangeEventValues_fields CoreNetworkChangeEventValues_of CoreNetworkChangeEventValues_DeepCopyInto"

definition CoreNetworkChangeEventValues_copier where
  "CoreNetworkChangeEventValues_copier = struct_c CoreNetworkChangeEventValues_fields CoreNetworkChangeEventValues_of
     (pair_c string_c (pair_c string_c string_c))
     CoreNetworkChangeEventValues_DeepCopyInto"

lemma CoreNetworkChangeEventValues_written:
  "m\<lparr>CoreNetworkChangeEventValues_CIDR := c1,
      CoreNetworkChangeEventValues_NetworkFunctionGroupName := c2,
      CoreNetworkChangeEventValues_SegmentName := c3\<rparr> = CoreNetworkChangeEventValues_of (c1, c2, c3)"
  by (cases m) (simp add: CoreNetworkChangeEventValues_of_def)

lemma CoreNetworkChangeEventValues_copied [generated_copies]:
  "deeply CoreNetworkChangeEventValues_copier (struct_un unpack3 CoreNetworkChangeEventValues_of) CoreNetworkChangeEventValues_DeepCopy"
  unfolding CoreNetworkChangeEventValues_copier_def CoreNetworkChangeEventValues_DeepCopy_def
  by (rule struct_deeply, intro copier_intros)
    (auto simp: CoreNetworkChangeEventValues_DeepCopyInto_def CoreNetworkChangeEventValues_written CoreNetworkChangeEventValues_fields_def CoreNetworkChangeEventValues_of_def into_defs)

section \<open>\<open>CoreNetworkChangeValues\<close>\<close>

record 's CoreNetworkChangeValues =
  CoreNetworkChangeValues_AttachmentID :: 's
  CoreNetworkChangeValues_CIDR :: 's
  CoreNetworkChangeValues_DestinationIdentifier :: 's
  CoreNetworkChangeValues_NetworkFunctionGroupName :: 's
  CoreNetworkChangeValues_SegmentName :: 's

definition CoreNetworkChangeValues_fields :: "'s CoreNetworkChangeValues \<Rightarrow> 's \<times> 's \<times> 's \<times> 's \<times> 's" where
  "CoreNetworkChangeValues_fields m = (CoreNetworkChangeValues_AttachmentID m,
     CoreNetworkChangeValues_CIDR m, CoreNetworkChangeValues_DestinationIdentifier m,
     CoreNetworkChangeValues_NetworkFunctionGroupName m, CoreNetworkChangeValues_SegmentName m)"

definition CoreNetworkChangeValues_of :: "'s \<times> 's \<times> 's \<times> 's \<times> 's \<Rightarrow> 's CoreNetworkChangeValues" where
  "CoreNetworkChangeValues_of = (\<lambda>(c1, c2, c3, c4, c5).
     \<lparr>CoreNetworkChangeValues_AttachmentID = c1, CoreNetworkChangeValues_CIDR = c2,
     CoreNetworkChangeValues_DestinationIdentifier = c3,
     CoreNetworkChangeValues_NetworkFunctionGroupName = c4, CoreNetworkChangeValues_SegmentName = c5\<rparr>)"

definition CoreNetworkChangeValues_DeepCopyInto :: "('x, addr option CoreNetworkChangeValues) copy_fn" where
  "CoreNetworkChangeValues_DeepCopyInto inp h =
     and_then (string_cp (CoreNetworkChangeValues_AttachmentID inp) h) (\<lambda>(c1, h).
     and_then (string_cp (CoreNetworkChangeValues_CIDR inp) h) (\<lambda>(c2, h).
     and_then (string_cp (CoreNetworkChangeValues_DestinationIdentifier inp) h) (\<lambda>(c3, h).
     and_then (string_cp (CoreNetworkChangeValues_NetworkFunctionGroupName inp) h) (\<lambda>(c4, h).
     and_then (string_cp (CoreNetworkChangeValues_SegmentName inp) h) (\<lambda>(c5, h).
       Ret (inp\<lparr>CoreNetworkChangeValues_AttachmentID := c1, CoreNetworkChangeValues_CIDR := c2,
              CoreNetworkChangeValues_DestinationIdentifier := c3,
              CoreNetworkChangeValues_NetworkFunctionGroupName := c4,
              CoreNetworkChangeValues_SegmentName := c5\<rparr>, h))))))"

definition CoreNetworkChangeValues_DeepCopy :: "('x, addr option) copy_fn" where
  "CoreNetworkChangeValues_DeepCopy =
     struct_DeepCopy pack5 unpack5 CoreNetworkChangeValues_fields CoreNetworkChangeValues_of CoreNetworkChangeValues_DeepCopyInto"

definition CoreNetworkChangeValues_copier where
  "CoreNetworkChangeValues_copier = struct_c CoreNetworkChangeValues_fields CoreNetworkChangeValues_of
     (pair_c string_c (pair_c string_c (pair_c string_c (pair_c string_c string_c))))
     CoreNetworkChangeValues_DeepCopyInto"

lemma CoreNetworkChangeValues_written:
  "m\<lparr>CoreNetworkChangeValues_AttachmentID := c1, CoreNetworkChangeValues_CIDR := c2,
      CoreNetworkChangeValues_DestinationIdentifier := c3,
      CoreNetworkChangeValues_NetworkFunctionGroupName := c4,
      CoreNetworkChangeValues_SegmentName := c5\<rparr> = CoreNetworkChangeValues_of (c1, c2, c3, c4, c5)"
  by (cases m) (simp add: CoreNetworkChangeValues_of_def)

lemma CoreNetworkChangeValues_copied [generated_copies]:
  "deeply CoreNetworkChangeValues_copier (struct_un unpack5 CoreNetworkChangeValues_of) CoreNetworkChangeValues_DeepCopy"
  unfolding CoreNetworkChangeValues_copier_def CoreNetworkChangeValues_DeepCopy_def
  by (rule struct_deeply, intro copier_intros)
    (auto simp: CoreNetworkChangeValues_DeepCopyInto_def CoreNetworkChangeValues_written CoreNetworkChangeValues_fields_def CoreNetworkChangeValues_of_def into_defs)

section \<open>\<open>CoreNetworkNetworkFunctionGroup\<close>\<close>

record 's CoreNetworkNetworkFunctionGroup =
  CoreNetworkNetworkFunctionGroup_Name :: 's

definition CoreNetworkNetworkFunctionGroup_fields :: "'s CoreNetworkNetworkFunctionGroup \<Rightarrow> 's" where
  "CoreNetworkNetworkFunctionGroup_fields m = CoreNetworkNetworkFunctionGroup_Name m"

definition CoreNetworkNetworkFunctionGroup_of :: "'s \<Rightarrow> 's CoreNetworkNetworkFunctionGroup" where
  "CoreNetworkNetworkFunctionGroup_of c1 = \<lparr>CoreNetworkNetworkFunctionGroup_Name = c1\<rparr>"

definition CoreNetworkNetworkFunctionGroup_DeepCopyInto :: "('x, addr option CoreNetworkNetworkFunctionGroup) copy_fn" where
  "CoreNetworkNetworkFunctionGroup_DeepCopyInto inp h =
     and_then (string_cp (CoreNetworkNetworkFunctionGroup_Name inp) h) (\<lambda>(c1, h).
       Ret (inp\<lparr>CoreNetworkNetworkFunctionGroup_Name := c1\<rparr>, h))"

definition CoreNetworkNetworkFunctionGroup_DeepCopy :: "('x, addr option) copy_fn" where
  "CoreNetworkNetworkFunctionGroup_DeepCopy =
     struct_DeepCopy pack1 unpack1 CoreNetworkNetworkFunctionGroup_fields CoreNetworkNetworkFunctionGroup_of CoreNetworkNetworkFunctionGroup_DeepCopyInto"

definition CoreNetworkNetworkFunctionGroup_copier where
  "CoreNetworkNetworkFunctionGroup_copier = struct_c CoreNetworkNetworkFunctionGroup_fields CoreNetworkNetworkFunctionGroup_of
     string_c
     CoreNetworkNetworkFunctionGroup_DeepCopyInto"

lemma CoreNetworkNetworkFunctionGroup_written:
  "m\<lparr>CoreNetworkNetworkFunctionGroup_Name := c1\<rparr> = CoreNetworkNetworkFunctionGroup_of c1"
  by (cases m) (simp add: CoreNetworkNetworkFunctionGroup_of_def)

lemma CoreNetworkNetworkFunctionGroup_copied [generated_copies]:
  "deeply CoreNetworkNetworkFunctionGroup_copier (struct_un unpack1 CoreNetworkNetworkFunctionGroup_of) CoreNetworkNetworkFunctionGroup_DeepCopy"
  unfolding CoreNetworkNetworkFunctionGroup_copier_def CoreNetworkNetworkFunctionGroup_DeepCopy_def
  by (rule struct_deeply, intro copier_intros)
    (auto simp: CoreNetworkNetworkFunctionGroup_DeepCopyInto_def CoreNetworkNetworkFunctionGroup_written CoreNetworkNetworkFunctionGroup_fields_def CoreNetworkNetworkFunctionGroup_of_def into_defs)

section \<open>\<open>CoreNetworkNetworkFunctionGroupIdentifier\<close>\<close>

record 's CoreNetworkNetworkFunctionGroupIdentifier =
  CoreNetworkNetworkFunctionGroupIdentifier_NetworkFunctionGroupName :: 's

definition CoreNetworkNetworkFunctionGroupIdentifier_fields :: "'s CoreNetworkNetworkFunctionGroupIdentifier \<Rightarrow> 's" where
  "CoreNetworkNetworkFunctionGroupIdentifier_fields m =
     CoreNetworkNetworkFunctionGroupIdentifier_NetworkFunctionGroupName m"

definition CoreNetworkNetworkFunctionGroupIdentifier_of :: "'s \<Rightarrow> 's CoreNetworkNetworkFunctionGroupIdentifier" where
  "CoreNetworkNetworkFunctionGroupIdentifier_of c1 = \<lparr>CoreNetworkNetworkFunctionGroupIdentifier_NetworkFunctionGroupName = c1\<rparr>"

definition CoreNetworkNetworkFunctionGroupIdentifier_DeepCopyInto :: "('x, addr option CoreNetworkNetworkFunctionGroupIdentifier) copy_fn" where
  "CoreNetworkNetworkFunctionGroupIdentifier_DeepCopyInto inp h =
     and_then (string_cp (CoreNetworkNetworkFunctionGroupIdentifier_NetworkFunctionGroupName inp) h) (\<lambda>(c1, h).
       Ret (inp\<lparr>CoreNetworkNetworkFunctionGroupIdentifier_NetworkFunctionGroupName := c1\<rparr>, h))"

definition CoreNetworkNetworkFunctionGroupIdentifier_DeepCopy :: "('x, addr option) copy_fn" where
  "CoreNetworkNetworkFunctionGroupIdentifier_DeepCopy =
     struct_DeepCopy pack1 unpack1 CoreNetworkNetworkFunctionGroupIdentifier_fields CoreNetworkNetworkFunctionGroupIdentifier_of CoreNetworkNetworkFunctionGroupIdentifier_DeepCopyInto"

definition CoreNetworkNetworkFunctionGroupIdentifier_copier where
  "CoreNetworkNetworkFunctionGroupIdentifier_copier = struct_c CoreNetworkNetworkFunctionGroupIdentifier_fields CoreNetworkNetworkFunctionGroupIdentifier_of
     string_c
     CoreNetworkNetworkFunctionGroupIdentifier_DeepCopyInto"

lemma CoreNetworkNetworkFunctionGroupIdentifier_written:
  "m\<lparr>CoreNetworkNetworkFunctionGroupIdentifier_NetworkFunctionGroupName := c1\<rparr> = CoreNetworkNetworkFunctionGroupIdentifier_of c1"
  by (cases m) (simp add: CoreNetworkNetworkFunctionGroupIdentifier_of_def)

lemma CoreNetworkNetworkFunctionGroupIdentifier_copied [generated_copies]:
  "deeply CoreNetworkNetworkFunctionGroupIdentifier_copier (struct_un unpack1 CoreNetworkNetworkFunctionGroupIdentifier_of) CoreNetworkNetworkFunctionGroupIdentifier_DeepCopy"
  unfolding CoreNetworkNetworkFunctionGroupIdentifier_copier_def CoreNetworkNetworkFunctionGroupIdentifier_DeepCopy_def
  by (rule struct_deeply, intro copier_intros)
    (auto simp: CoreNetworkNetworkFunctionGroupIdentifier_DeepCopyInto_def CoreNetworkNetworkFunctionGroupIdentifier_written CoreNetworkNetworkFunctionGroupIdentifier_fields_def CoreNetworkNetworkFunctionGroupIdentifier_of_def into_defs)

section \<open>\<open>CoreNetworkPolicy\<close>\<close>

record ('s, 't) CoreNetworkPolicy =
  CoreNetworkPolicy_CreatedAt :: 't
  CoreNetworkPolicy_Description :: 's

definition CoreNetworkPolicy_fields :: "('s, 't) CoreNetworkPolicy \<Rightarrow> 't \<times> 's" where
  "CoreNetworkPolicy_fields m = (CoreNetworkPolicy_CreatedAt m, CoreNetworkPolicy_Description m)"

definition CoreNetworkPolicy_of :: "'t \<times> 's \<Rightarrow> ('s, 't) CoreNetworkPolicy" where
  "CoreNetworkPolicy_of = (\<lambda>(c1, c2).
     \<lparr>CoreNetworkPolicy_CreatedAt = c1, CoreNetworkPolicy_Description = c2\<rparr>)"

definition CoreNetworkPolicy_DeepCopyInto :: "'x ext \<Rightarrow> ('x, (addr option, addr option) CoreNetworkPolicy) copy_fn" where
  "CoreNetworkPolicy_DeepCopyInto E inp h =
     and_then (time_cp E (CoreNetworkPolicy_CreatedAt inp) h) (\<lambda>(c1, h).
     and_then (string_cp (CoreNetworkPolicy_Description inp) h) (\<lambda>(c2, h).
       Ret (inp\<lparr>CoreNetworkPolicy_CreatedAt := c1, CoreNetworkPolicy_Description := c2\<rparr>, h)))"

definition CoreNetworkPolicy_DeepCopy :: "'x ext \<Rightarrow> ('x, addr option) copy_fn" where
  "CoreNetworkPolicy_DeepCopy E =
     struct_DeepCopy pack2 unpack2 CoreNetworkPolicy_fields CoreNetworkPolicy_of (CoreNetworkPolicy_DeepCopyInto E)"

definition CoreNetworkPolicy_copier where
  "CoreNetworkPolicy_copier E = struct_c CoreNetworkPolicy_fields CoreNetworkPolicy_of
     (pair_c (time_c E) string_c)
     (CoreNetworkPolicy_DeepCopyInto E)"

lemma CoreNetworkPolicy_written:
  "m\<lparr>CoreNetworkPolicy_CreatedAt := c1, CoreNetworkPolicy_Description := c2\<rparr> = CoreNetworkPolicy_of (c1, c2)"
  by (cases m) (simp add: CoreNetworkPolicy_of_def)

lemma CoreNetworkPolicy_copied [generated_copies]:
  "ext_ok E \<Longrightarrow> deeply (CoreNetworkPolicy_copier E) (struct_un unpack2 CoreNetworkPolicy_of) (CoreNetworkPolicy_DeepCopy E)"
  unfolding CoreNetworkPolicy_copier_def CoreNetworkPolicy_DeepCopy_def
  by (rule struct_deeply, intro copier_intros)
    (auto simp: CoreNetworkPolicy_DeepCopyInto_def CoreNetworkPolicy_written CoreNetworkPolicy_fields_def CoreNetworkPolicy_of_def into_defs)

section \<open>\<open>CoreNetworkPolicyVersion\<close>\<close>

record ('s, 't) CoreNetworkPolicyVersion =
  CoreNetworkPolicyVersion_CreatedAt :: 't
  CoreNetworkPolicyVersion_Description :: 's

definition CoreNetworkPolicyVersion_fields :: "('s, 't) CoreNetworkPolicyVersion \<Rightarrow> 't \<times> 's" where
  "CoreNetworkPolicyVersion_fields m = (CoreNetworkPolicyVersion_CreatedAt m,
     CoreNetworkPolicyVersion_Description m)"

definition CoreNetworkPolicyVersion_of :: "'t \<times> 's \<Rightarrow> ('s, 't) CoreNetworkPolicyVersion" where
  "CoreNetworkPolicyVersion_of = (\<lambda>(c1, c2).
     \<lparr>CoreNetworkPolicyVersion_CreatedAt = c1, CoreNetworkPolicyVersion_Description = c2\<rparr>)"

definition CoreNetworkPolicyVersion_DeepCopyInto :: "'x ext \<Rightarrow> ('x, (addr option, addr option) CoreNetworkPolicyVersion) copy_fn" where
  "CoreNetworkPolicyVersion_DeepCopyInto E inp h =
     and_then (time_cp E (CoreNetworkPolicyVersion_CreatedAt inp) h) (\<lambda>(c1, h).
     and_then (string_cp (CoreNetworkPolicyVersion_Description inp) h) (\<lambda>(c2, h).
       Ret (inp\<lparr>CoreNetworkPolicyVersion_CreatedAt := c1, CoreNetworkPolicyVersion_Description := c2\<rparr>, h)))"

definition CoreNetworkPolicyVersion_DeepCopy :: "'x ext \<Rightarrow> ('x, addr option) copy_fn" where
  "CoreNetworkPolicyVersion_DeepCopy E =
     struct_DeepCopy pack2 unpack2 CoreNetworkPolicyVersion_fields CoreNetworkPolicyVersion_of (CoreNetworkPolicyVersion_DeepCopyInto E)"

definition CoreNetworkPolicyVersion_copier where
  "CoreNetworkPolicyVersion_copier E = struct_c CoreNetworkPolicyVersion_fields CoreNetworkPolicyVersion_of
     (pair_c (time_c E) string_c)
     (CoreNetworkPolicyVersion_DeepCopyInto E)"

lemma CoreNetworkPolicyVersion_written:
  "m\<lparr>CoreNetworkPolicyVersion_CreatedAt := c1, CoreNetworkPolicyVersion_Description := c2\<rparr> = CoreNetworkPolicyVersion_of (c1, c2)"
  by (cases m) (simp add: CoreNetworkPolicyVersion_of_def)

lemma CoreNetworkPolicyVersion_copied [generated_copies]:
  "ext_ok E \<Longrightarrow> deeply (CoreNetworkPolicyVersion_copier E) (struct_un unpack2 CoreNetworkPolicyVersion_of) (CoreNetworkPolicyVersion_DeepCopy E)"
  unfolding CoreNetworkPolicyVersion_copier_def CoreNetworkPolicyVersion_DeepCopy_def
  by (rule struct_deeply, intro copier_intros)
    (auto simp: CoreNetworkPolicyVersion_DeepCopyInto_def CoreNetworkPolicyVersion_written CoreNetworkPolicyVersion_fields_def CoreNetworkPolicyVersion_of_def into_defs)

section \<open>\<open>CoreNetworkRoutingInformation\<close>\<close>

record 's CoreNetworkRoutingInformation =
  CoreNetworkRoutingInformation_LocalPreference :: 's
  CoreNetworkRoutingInformation_Med :: 's
  CoreNetworkRoutingInformation_Prefix :: 's

definition CoreNetworkRoutingInformation_fields :: "'s CoreNetworkRoutingInformation \<Rightarrow> 's \<times> 's \<times> 's" where
  "CoreNetworkRoutingInformation_fields m = (CoreNetworkRoutingInformation_LocalPreference m,
     CoreNetworkRoutingInformation_Med m, CoreNetworkRoutingInformation_Prefix m)"

definition CoreNetworkRoutingInformation_of :: "'s \<times> 's \<times> 's \<Rightarrow> 's CoreNetworkRoutingInformation" where
  "CoreNetworkRoutingInformation_of = (\<lambda>(c1, c2, c3).
     \<lparr>CoreNetworkRoutingInformation_LocalPreference = c1, CoreNetworkRoutingInformation_Med = c2,
     CoreNetworkRoutingInformation_Prefix = c3\<rparr>)"

definition CoreNetworkRoutingInformation_DeepCopyInto :: "('x, addr option CoreNetworkRoutingInformation) copy_fn" where
  "CoreNetworkRoutingInformation_DeepCopyInto inp h =
     and_then (string_cp (CoreNetworkRoutingInformation_LocalPreference inp) h) (\<lambda>(c1, h).
     and_then (string_cp (CoreNetworkRoutingInformation_Med inp) h) (\<lambda>(c2, h).
     and_then (string_cp (CoreNetworkRoutingInformation_Prefix inp) h) (\<lambda>(c3, h).
       Ret (inp\<lparr>CoreNetworkRoutingInformation_LocalPreference := c1,
              CoreNetworkRoutingInformation_Med := c2, CoreNetworkRoutingInformation_Prefix := c3\<rparr>, h))))"

definition CoreNetworkRoutingInformation_DeepCopy :: "('x, addr option) copy_fn" where
  "CoreNetworkRoutingInformation_DeepCopy =
     struct_DeepCopy pack3 unpack3 CoreNetworkRoutingInformation_fields CoreNetworkRoutingInformation_of CoreNetworkRoutingInformation_DeepCopyInto"

definition CoreNetworkRoutingInformation_copier where
  "CoreNetworkRoutingInformation_copier = struct_c CoreNetworkRoutingInformation_fields CoreNetworkRoutingInformation_of
     (pair_c string_c (pair_c string_c string_c))
     CoreNetworkRoutingInformation_DeepCopyInto"

lemma CoreNetworkRoutingInformation_written:
  "m\<lparr>CoreNetworkRoutingInformation_LocalPreference := c1, CoreNetworkRoutingInformation_Med := c2,
      CoreNetworkRoutingInformation_Prefix := c3\<rparr> = CoreNetworkRoutingInformation_of (c1, c2, c3)"
  by (cases m) (simp add: CoreNetworkRoutingInformation_of_def)

lemma CoreNetworkRoutingInformation_copied [generated_copies]:
  "deeply CoreNetworkRoutingInformation_copier (struct_un unpack3 CoreNetworkRoutingInformation_of) CoreNetworkRoutingInformation_DeepCopy"
  unfolding CoreNetworkRoutingInformation_copier_def CoreNetworkRoutingInformation_DeepCopy_def
  by (rule struct_deeply, intro copier_intros)
    (auto simp: CoreNetworkRoutingInformation_DeepCopyInto_def CoreNetworkRoutingInformation_written CoreNetworkRoutingInformation_fields_def CoreNetworkRoutingInformation_of_def into_defs)

section \<open>\<open>CoreNetworkSegment\<close>\<close>

record 's CoreNetworkSegment =
  CoreNetworkSegment_Name :: 's

definition CoreNetworkSegment_fields :: "'s CoreNetworkSegment \<Rightarrow> 's" where
  "CoreNetworkSegment_fields m = CoreNetworkSegment_Name m"

definition CoreNetworkSegment_of :: "'s \<Rightarrow> 's CoreNetworkSegment" where
  "CoreNetworkSegment_of c1 = \<lparr>CoreNetworkSegment_Name = c1\<rparr>"

definition CoreNetworkSegment_DeepCopyInto :: "('x, addr option CoreNetworkSegment) copy_fn" where
  "CoreNetworkSegment_DeepCopyInto inp h =
     and_then (string_cp (CoreNetworkSegment_Name inp) h) (\<lambda>(c1, h).
       Ret (inp\<lparr>CoreNetworkSegment_Name := c1\<rparr>, h))"

definition CoreNetworkSegment_DeepCopy :: "('x, addr option) copy_fn" where
  "CoreNetworkSegment_DeepCopy =
     struct_DeepCopy pack1 unpack1 CoreNetworkSegment_fields CoreNetworkSegment_of CoreNetworkSegment_DeepCopyInto"

definition CoreNetworkSegment_copier where
  "CoreNetworkSegment_copier = struct_c CoreNetworkSegment_fields CoreNetworkSegment_of
     string_c
     CoreNetworkSegment_DeepCopyInto"

lemma CoreNetworkSegment_written:
  "m\<lparr>CoreNetworkSegment_Name := c1\<rparr> = CoreNetworkSegment_of c1"
  by (cases m) (simp add: CoreNetworkSegment_of_def)

lemma CoreNetworkSegment_copied [generated_copies]:
  "deeply CoreNetworkSegment_copier (struct_un unpack1 CoreNetworkSegment_of) CoreNetworkSegment_DeepCopy"
  unfolding CoreNetworkSegment_copier_def CoreNetworkSegment_DeepCopy_def
  by (rule struct_deeply, intro copier_intros)
    (auto simp: CoreNetworkSegment_DeepCopyInto_def CoreNetworkSegment_written CoreNetworkSegment_fields_def CoreNetworkSegment_of_def into_defs)

section \<open>\<open>CoreNetworkSegmentEdgeIdentifier\<close>\<close>

record 's CoreNetworkSegmentEdgeIdentifier =
  CoreNetworkSegmentEdgeIdentifier_SegmentName :: 's

definition CoreNetworkSegmentEdgeIdentifier_fields :: "'s CoreNetworkSegmentEdgeIdentifier \<Rightarrow> 's" where
  "CoreNetworkSegmentEdgeIdentifier_fields m = CoreNetworkSegmentEdgeIdentifier_SegmentName m"

definition CoreNetworkSegmentEdgeIdentifier_of :: "'s \<Rightarrow> 's CoreNetworkSegmentEdgeIdentifier" where
  "CoreNetworkSegmentEdgeIdentifier_of c1 = \<lparr>CoreNetworkSegmentEdgeIdentifier_SegmentName = c1\<rparr>"

definition CoreNetworkSegmentEdgeIdentifier_DeepCopyInto :: "('x, addr option CoreNetworkSegmentEdgeIdentifier) copy_fn" where
  "CoreNetworkSegmentEdgeIdentifier_DeepCopyInto inp h =
     and_then (string_cp (CoreNetworkSegmentEdgeIdentifier_SegmentName inp) h) (\<lambda>(c1, h).
       Ret (inp\<lparr>CoreNetworkSegmentEdgeIdentifier_SegmentName := c1\<rparr>, h))"

definition CoreNetworkSegmentEdgeIdentifier_DeepCopy :: "('x, addr option) copy_fn" where
  "CoreNetworkSegmentEdgeIdentifier_DeepCopy =
     struct_DeepCopy pack1 unpack1 CoreNetworkSegmentEdgeIdentifier_fields CoreNetworkSegmentEdgeIdentifier_of CoreNetworkSegmentEdgeIdentifier_DeepCopyInto"

definition CoreNetworkSegmentEdgeIdentifier_copier where
  "CoreNetworkSegmentEdgeIdentifier_copier = struct_c CoreNetworkSegmentEdgeIdentifier_fields CoreNetworkSegmentEdgeIdentifier_of
     string_c
     CoreNetworkSegmentEdgeIdentifier_DeepCopyInto"

lemma CoreNetworkSegmentEdgeIdentifier_written:
  "m\<lparr>CoreNetworkSegmentEdgeIdentifier_SegmentName := c1\<rparr> = CoreNetworkSegmentEdgeIdentifier_of c1"
  by (cases m) (simp add: CoreNetworkSegmentEdgeIdentifier_of_def)

lemma CoreNetworkSegmentEdgeIdentifier_copied [generated_copies]:
  "deeply CoreNetworkSegmentEdgeIdentifier_copier (struct_un unpack1 CoreNetworkSegmentEdgeIdentifier_of) CoreNetworkSegmentEdgeIdentifier_DeepCopy"
  unfolding CoreNetworkSegmentEdgeIdentifier_copier_def CoreNetworkSegmentEdgeIdentifier_DeepCopy_def
  by (rule struct_deeply, intro copier_intros)
    (auto simp: CoreNetworkSegmentEdgeIdentifier_DeepCopyInto_def CoreNetworkSegmentEdgeIdentifier_written CoreNetworkSegmentEdgeIdentifier_fields_def CoreNetworkSegmentEdgeIdentifier_of_def into_defs)

section \<open>\<open>CoreNetworkSummary\<close>\<close>

record ('s, 'g) CoreNetworkSummary =
  CoreNetworkSummary_Description :: 's
  CoreNetworkSummary_GlobalNetworkID :: 's
  CoreNetworkSummary_Tags :: 'g

definition CoreNetworkSummary_fields :: "('s, 'g) CoreNetworkSummary \<Rightarrow> 's \<times> 's \<times> 'g" where
  "CoreNetworkSummary_fields m = (CoreNetworkSummary_Description m,
     CoreNetworkSummary_GlobalNetworkID m, CoreNetworkSummary_Tags m)"

definition CoreNetworkSummary_of :: "'s \<times> 's \<times> 'g \<Rightarrow> ('s, 'g) CoreNetworkSummary" where
  "CoreNetworkSummary_of = (\<lambda>(c1, c2, c3).
     \<lparr>CoreNetworkSummary_Description = c1, CoreNetworkSummary_GlobalNetworkID = c2,
     CoreNetworkSummary_Tags = c3\<rparr>)"

definition CoreNetworkSummary_DeepCopyInto :: "('x, (addr option, addr option) CoreNetworkSummary) copy_fn" where
  "CoreNetworkSummary_DeepCopyInto inp h =
     and_then (string_cp (CoreNetworkSummary_Description inp) h) (\<lambda>(c1, h).
     and_then (string_cp (CoreNetworkSummary_GlobalNetworkID inp) h) (\<lambda>(c2, h).
     and_then (slice_cp Tag_DeepCopy (CoreNetworkSummary_Tags inp) h) (\<lambda>(c3, h).
       Ret (inp\<lparr>CoreNetworkSummary_Description := c1, CoreNetworkSummary_GlobalNetworkID := c2,
              CoreNetworkSummary_Tags := c3\<rparr>, h))))"

definition CoreNetworkSummary_DeepCopy :: "('x, addr option) copy_fn" where
  "CoreNetworkSummary_DeepCopy =
     struct_DeepCopy pack3 unpack3 CoreNetworkSummary_fields CoreNetworkSummary_of CoreNetworkSummary_DeepCopyInto"

definition CoreNetworkSummary_copier where
  "CoreNetworkSummary_copier = struct_c CoreNetworkSummary_fields CoreNetworkSummary_of
     (pair_c string_c (pair_c string_c tags_c))
     CoreNetworkSummary_DeepCopyInto"

lemma CoreNetworkSummary_written:
  "m\<lparr>CoreNetworkSummary_Description := c1, CoreNetworkSummary_GlobalNetworkID := c2,
      CoreNetworkSummary_Tags := c3\<rparr> = CoreNetworkSummary_of (c1, c2, c3)"
  by (cases m) (simp add: CoreNetworkSummary_of_def)

lemma CoreNetworkSummary_copied [generated_copies]:
  "deeply CoreNetworkSummary_copier (struct_un unpack3 CoreNetworkSummary_of) CoreNetworkSummary_DeepCopy"
  unfolding CoreNetworkSummary_copier_def CoreNetworkSummary_DeepCopy_def
  by (rule struct_deeply, intro copier_intros)
    (auto simp: CoreNetworkSummary_DeepCopyInto_def CoreNetworkSummary_written CoreNetworkSummary_fields_def CoreNetworkSummary_of_def into_defs)

section \<open>\<open>EdgeOverride\<close>\<close>

record 's EdgeOverride =
  EdgeOverride_UseEdge :: 's

definition EdgeOverride_fields :: "'s EdgeOverride \<Rightarrow> 's" where
  "EdgeOverride_fields m = EdgeOverride_UseEdge m"

definition EdgeOverride_of :: "'s \<Rightarrow> 's EdgeOverride" where
  "EdgeOverride_of c1 = \<lparr>EdgeOverride_UseEdge = c1\<rparr>"

definition EdgeOverride_DeepCopyInto :: "('x, addr option EdgeOverride) copy_fn" where
  "EdgeOverride_DeepCopyInto inp h =
     and_then (string_cp (EdgeOverride_UseEdge inp) h) (\<lambda>(c1, h).
       Ret (inp\<lparr>EdgeOverride_UseEdge := c1\<rparr>, h))"

definition EdgeOverride_DeepCopy :: "('x, addr option) copy_fn" where
  "EdgeOverride_DeepCopy =
     struct_DeepCopy pack1 unpack1 EdgeOverride_fields EdgeOverride_of EdgeOverride_DeepCopyInto"

definition EdgeOverride_copier where
  "EdgeOverride_copier = struct_c EdgeOverride_fields EdgeOverride_of
     string_c
     EdgeOverride_DeepCopyInto"

lemma EdgeOverride_written:
  "m\<lparr>EdgeOverride_UseEdge := c1\<rparr> = EdgeOverride_of c1"
  by (cases m) (simp add: EdgeOverride_of_def)

lemma EdgeOverride_copied [generated_copies]:
  "deeply EdgeOverride_copier (struct_un unpack1 EdgeOverride_of) EdgeOverride_DeepCopy"
  unfolding EdgeOverride_copier_def EdgeOverride_DeepCopy_def
  by (rule struct_deeply, intro copier_intros)
    (auto simp: EdgeOverride_DeepCopyInto_def EdgeOverride_written EdgeOverride_fields_def EdgeOverride_of_def into_defs)

section \<open>\<open>Peering\<close>\<close>

record ('t, 'g) Peering =
  Peering_CreatedAt :: 't
  Peering_Tags :: 'g

definition Peering_fields :: "('t, 'g) Peering \<Rightarrow> 't \<times> 'g" where
  "Peering_fields m = (Peering_CreatedAt m, Peering_Tags m)"

definition Peering_of :: "'t \<times> 'g \<Rightarrow> ('t, 'g) Peering" where
  "Peering_of = (\<lambda>(c1, c2).
     \<lparr>Peering_CreatedAt = c1, Peering_Tags = c2\<rparr>)"

definition Peering_DeepCopyInto :: "'x ext \<Rightarrow> ('x, (addr option, addr option) Peering) copy_fn" where
  "Peering_DeepCopyInto E inp h =
     and_then (time_cp E (Peering_CreatedAt inp) h) (\<lambda>(c1, h).
     and_then (slice_cp Tag_DeepCopy (Peering_Tags inp) h) (\<lambda>(c2, h).
       Ret (inp\<lparr>Peering_CreatedAt := c1, Peering_Tags := c2\<rparr>, h)))"

definition Peering_DeepCopy :: "'x ext \<Rightarrow> ('x, addr option) copy_fn" where
  "Peering_DeepCopy E =
     struct_DeepCopy pack2 unpack2 Peering_fields Peering_of (Peering_DeepCopyInto E)"

definition Peering_copier where
  "Peering_copier E = struct_c Peering_fields Peering_of
     (pair_c (time_c E) tags_c)
     (Peering_DeepCopyInto E)"

lemma Peering_written:
  "m\<lparr>Peering_CreatedAt := c1, Peering_Tags := c2\<rparr> = Peering_of (c1, c2)"
  by (cases m) (simp add: Peering_of_def)

lemma Peering_copied [generated_copies]:
  "ext_ok E \<Longrightarrow> deeply (Peering_copier E) (struct_un unpack2 Peering_of) (Peering_DeepCopy E)"
  unfolding Peering_copier_def Peering_DeepCopy_def
  by (rule struct_deeply, intro copier_intros)
    (auto simp: Peering_DeepCopyInto_def Peering_written Peering_fields_def Peering_of_def into_defs)

section \<open>\<open>PrefixListAssociation\<close>\<close>

record 's PrefixListAssociation =
  PrefixListAssociation_PrefixListAlias :: 's

definition PrefixListAssociation_fields :: "'s PrefixListAssociation \<Rightarrow> 's" where
  "PrefixListAssociation_fields m = PrefixListAssociation_PrefixListAlias m"

definition PrefixListAssociation_of :: "'s \<Rightarrow> 's PrefixListAssociation" where
  "PrefixListAssociation_of c1 = \<lparr>PrefixListAssociation_PrefixListAlias = c1\<rparr>"

definition PrefixListAssociation_DeepCopyInto :: "('x, addr option PrefixListAssociation) copy_fn" where
  "PrefixListAssociation_DeepCopyInto inp h =
     and_then (string_cp (PrefixListAssociation_PrefixListAlias inp) h) (\<lambda>(c1, h).
       Ret (inp\<lparr>PrefixListAssociation_PrefixListAlias := c1\<rparr>, h))"

definition PrefixListAssociation_DeepCopy :: "('x, addr option) copy_fn" where
  "PrefixListAssociation_DeepCopy =
     struct_DeepCopy pack1 unpack1 PrefixListAssociation_fields PrefixListAssociation_of PrefixListAssociation_DeepCopyInto"

definition PrefixListAssociation_copier where
  "PrefixListAssociation_copier = struct_c PrefixListAssociation_fields PrefixListAssociation_of
     string_c
     PrefixListAssociation_DeepCopyInto"

lemma PrefixListAssociation_written:
  "m\<lparr>PrefixListAssociation_PrefixListAlias := c1\<rparr> = PrefixListAssociation_of c1"
  by (cases m) (simp add: PrefixListAssociation_of_def)

lemma PrefixListAssociation_copied [generated_copies]:
  "deeply PrefixListAssociation_copier (struct_un unpack1 PrefixListAssociation_of) PrefixListAssociation_DeepCopy"
  unfolding PrefixListAssociation_copier_def PrefixListAssociation_DeepCopy_def
  by (rule struct_deeply, intro copier_intros)
    (auto simp: PrefixListAssociation_DeepCopyInto_def PrefixListAssociation_written PrefixListAssociation_fields_def PrefixListAssociation_of_def into_defs)

section \<open>\<open>ProposedNetworkFunctionGroupChange\<close>\<close>

record ('s, 'g) ProposedNetworkFunctionGroupChange =
  ProposedNetworkFunctionGroupChange_NetworkFunctionGroupName :: 's
  ProposedNetworkFunctionGroupChange_Tags :: 'g

definition ProposedNetworkFunctionGroupChange_fields :: "('s, 'g) ProposedNetworkFunctionGroupChange \<Rightarrow> 's \<times> 'g" where
  "ProposedNetworkFunctionGroupChange_fields m = (
     ProposedNetworkFunctionGroupChange_NetworkFunctionGroupName m,
     ProposedNetworkFunctionGroupChange_Tags m)"

definition ProposedNetworkFunctionGroupChange_of :: "'s \<times> 'g \<Rightarrow> ('s, 'g) ProposedNetworkFunctionGroupChange" where
  "ProposedNetworkFunctionGroupChange_of = (\<lambda>(c1, c2).
     \<lparr>ProposedNetworkFunctionGroupChange_NetworkFunctionGroupName = c1,
     ProposedNetworkFunctionGroupChange_Tags = c2\<rparr>)"

definition ProposedNetworkFunctionGroupChange_DeepCopyInto :: "('x, (addr option, addr option) ProposedNetworkFunctionGroupChange) copy_fn" where
  "ProposedNetworkFunctionGroupChange_DeepCopyInto inp h =
     and_then (string_cp (ProposedNetworkFunctionGroupChange_NetworkFunctionGroupName inp) h) (\<lambda>(c1, h).
     and_then (slice_cp Tag_DeepCopy (ProposedNetworkFunctionGroupChange_Tags inp) h) (\<lambda>(c2, h).
       Ret (inp\<lparr>ProposedNetworkFunctionGroupChange_NetworkFunctionGroupName := c1,
              ProposedNetworkFunctionGroupChange_Tags := c2\<rparr>, h)))"

definition ProposedNetworkFunctionGroupChange_DeepCopy :: "('x, addr option) copy_fn" where
  "ProposedNetworkFunctionGroupChange_DeepCopy =
     struct_DeepCopy pack2 unpack2 ProposedNetworkFunctionGroupChange_fields ProposedNetworkFunctionGroupChange_of ProposedNetworkFunctionGroupChange_DeepCopyInto"

definition ProposedNetworkFunctionGroupChange_copier where
  "ProposedNetworkFunctionGroupChange_copier = struct_c ProposedNetworkFunctionGroupChange_fields ProposedNetworkFunctionGroupChange_of
     (pair_c string_c tags_c)
     ProposedNetworkFunctionGroupChange_DeepCopyInto"

lemma ProposedNetworkFunctionGroupChange_written:
  "m\<lparr>ProposedNetworkFunctionGroupChange_NetworkFunctionGroupName := c1,
      ProposedNetworkFunctionGroupChange_Tags := c2\<rparr> = ProposedNetworkFunctionGroupChange_of (c1, c2)"
  by (cases m) (simp add: ProposedNetworkFunctionGroupChange_of_def)

lemma ProposedNetworkFunctionGroupChange_copied [generated_copies]:
  "deeply ProposedNetworkFunctionGroupChange_copier (struct_un unpack2 ProposedNetworkFunctionGroupChange_of) ProposedNetworkFunctionGroupChange_DeepCopy"
  unfolding ProposedNetworkFunctionGroupChange_copier_def ProposedNetworkFunctionGroupChange_DeepCopy_def
  by (rule struct_deeply, intro copier_intros)
    (auto simp: ProposedNetworkFunctionGroupChange_DeepCopyInto_def ProposedNetworkFunctionGroupChange_written ProposedNetworkFunctionGroupChange_fields_def ProposedNetworkFunctionGroupChange_of_def into_defs)

section \<open>\<open>ProposedSegmentChange\<close>\<close>

record ('s, 'g) ProposedSegmentChange =
  ProposedSegmentChange_SegmentName :: 's
  ProposedSegmentChange_Tags :: 'g

definition ProposedSegmentChange_fields :: "('s, 'g) ProposedSegmentChange \<Rightarrow> 's \<times> 'g" where
  "ProposedSegmentChange_fields m = (ProposedSegmentChange_SegmentName m,
     ProposedSegmentChange_Tags m)"

definition ProposedSegmentChange_of :: "'s \<times> 'g \<Rightarrow> ('s, 'g) ProposedSegmentChange" where
  "ProposedSegmentChange_of = (\<lambda>(c1, c2).
     \<lparr>ProposedSegmentChange_SegmentName = c1, ProposedSegmentChange_Tags = c2\<rparr>)"

definition ProposedSegmentChange_DeepCopyInto :: "('x, (addr option, addr option) ProposedSegmentChange) copy_fn" where
  "ProposedSegmentChange_DeepCopyInto inp h =
     and_then (string_cp (ProposedSegmentChange_SegmentName inp) h) (\<lambda>(c1, h).
     and_then (slice_cp Tag_DeepCopy (ProposedSegmentChange_Tags inp) h) (\<lambda>(c2, h).
       Ret (inp\<lparr>ProposedSegmentChange_SegmentName := c1, ProposedSegmentChange_Tags := c2\<rparr>, h)))"

definition ProposedSegmentChange_DeepCopy :: "('x, addr option) copy_fn" where
  "ProposedSegmentChange_DeepCopy =
     struct_DeepCopy pack2 unpack2 ProposedSegmentChange_fields ProposedSegmentChange_of ProposedSegmentChange_DeepCopyInto"

definition ProposedSegmentChange_copier where
  "ProposedSegmentChange_copier = struct_c ProposedSegmentChange_fields ProposedSegmentChange_of
     (pair_c string_c tags_c)
     ProposedSegmentChange_DeepCopyInto"

lemma ProposedSegmentChange_written:
  "m\<lparr>ProposedSegmentChange_SegmentName := c1, ProposedSegmentChange_Tags := c2\<rparr> = ProposedSegmentChange_of (c1, c2)"
  by (cases m) (simp add: ProposedSegmentChange_of_def)

lemma ProposedSegmentChange_copied [generated_copies]:
  "deeply ProposedSegmentChange_copier (struct_un unpack2 ProposedSegmentChange_of) ProposedSegmentChange_DeepCopy"
  unfolding ProposedSegmentChange_copier_def ProposedSegmentChange_DeepCopy_def
  by (rule struct_deeply, intro copier_intros)
    (auto simp: ProposedSegmentChange_DeepCopyInto_def ProposedSegmentChange_written ProposedSegmentChange_fields_def ProposedSegmentChange_of_def into_defs)

end
