(* ===== verification/SiteCopies.thy ===== *)
theory SiteCopies
  imports StructCopies
begin

text \<open>
  The structs of \<open>apis/v1alpha1/types.go\<close> that describe sites and what connects them (locations,
  devices, links, connections, gateways) and the global network as the API returns it, with
  their generated copies (\<open>zz_generated.deepcopy.go\<close>), in the form of \<open>CoreNetworkCopies\<close>.
\<close>

section \<open>\<open>AWSLocation\<close>\<close>

record 's AWSLocation =
  AWSLocation_Zone :: 's

definition AWSLocation_fields :: "'s AWSLocation \<Rightarrow> 's" where
  "AWSLocation_fields m = AWSLocation_Zone m"

definition AWSLocation_of :: "'s \<Rightarrow> 's AWSLocation" where
  "AWSLocation_of c1 = \<lparr>AWSLocation_Zone = c1\<rparr>"

definition AWSLocation_DeepCopyInto :: "('x, addr option AWSLocation) copy_fn" where
  "AWSLocation_DeepCopyInto inp h =
     and_then (string_cp (AWSLocation_Zone inp) h) (\<lambda>(c1, h).
       Ret (inp\<lparr>AWSLocation_Zone := c1\<rparr>, h))"

definition AWSLocation_DeepCopy :: "('x, addr option) copy_fn" where
  "AWSLocation_DeepCopy =
     struct_DeepCopy pack1 unpack1 AWSLocation_fields AWSLocation_of AWSLocation_DeepCopyInto"

definition AWSLocation_copier where
  "AWSLocation_copier = struct_c AWSLocation_fields AWSLocation_of
     string_c
     AWSLocation_DeepCopyInto"

lemma AWSLocation_written:
  "m\<lparr>AWSLocation_Zone := c1\<rparr> = AWSLocation_of c1"
  by (cases m) (simp add: AWSLocation_of_def)

lemma AWSLocation_copied [generated_copies]:
  "deeply AWSLocation_copier (struct_un unpack1 AWSLocation_of) AWSLocation_DeepCopy"
  unfolding AWSLocation_copier_def AWSLocation_DeepCopy_def
  by (rule struct_deeply, intro copier_intros)
    (auto simp: AWSLocation_DeepCopyInto_def AWSLocation_written AWSLocation_fields_def AWSLocation_of_def into_defs)

section \<open>\<open>Connection\<close>\<close>

record ('s, 't, 'g) Connection =
  Connection_CreatedAt :: 't
  Connection_Description :: 's
  Connection_GlobalNetworkID :: 's
  Connection_Tags :: 'g

definition Connection_fields :: "('s, 't, 'g) Connection \<Rightarrow> 't \<times> 's \<times> 's \<times> 'g" where
  "Connection_fields m = (Connection_CreatedAt m, Connection_Description m,
     Connection_GlobalNetworkID m, Connection_Tags m)"

definition Connection_of :: "'t \<times> 's \<times> 's \<times> 'g \<Rightarrow> ('s, 't, 'g) Connection" where
  "Connection_of = (\<lambda>(c1, c2, c3, c4).
     \<lparr>Connection_CreatedAt = c1, Connection_Description = c2, Connection_GlobalNetworkID = c3,
     Connection_Tags = c4\<rparr>)"

definition Connection_DeepCopyInto :: "'x ext \<Rightarrow> ('x, (addr option, addr option, addr option) Connection) copy_fn" where
  "Connection_DeepCopyInto E inp h =
     and_then (time_cp E (Connection_CreatedAt inp) h) (\<lambda>(c1, h).
     and_then (string_cp (Connection_Description inp) h) (\<lambda>(c2, h).
     and_then (string_cp (Connection_GlobalNetworkID inp) h) (\<lambda>(c3, h).
     and_then (slice_cp Tag_DeepCopy (Connection_Tags inp) h) (\<lambda>(c4, h).
       Ret (inp\<lparr>Connection_CreatedAt := c1, Connection_Description := c2,
              Connection_GlobalNetworkID := c3, Connection_Tags := c4\<rparr>, h)))))"

definition Connection_DeepCopy :: "'x ext \<Rightarrow> ('x, addr option) copy_fn" where
  "Connection_DeepCopy E =
     struct_DeepCopy pack4 unpack4 Connection_fields Connection_of (Connection_DeepCopyInto E)"

definition Connection_copier where
  "Connection_copier E = struct_c Connection_fields Connection_of
     (pair_c (time_c E) (pair_c string_c (pair_c string_c tags_c)))
     (Connection_DeepCopyInto E)"

lemma Connection_written:
  "m\<lparr>Connection_CreatedAt := c1, Connection_Description := c2, Connection_GlobalNetworkID := c3,
      Connection_Tags := c4\<rparr> = Connection_of (c1, c2, c3, c4)"
  by (cases m) (simp add: Connection_of_def)

lemma Connection_copied [generated_copies]:
  "ext_ok E \<Longrightarrow> deeply (Connection_copier E) (struct_un unpack4 Connection_of) (Connection_DeepCopy E)"
  unfolding Connection_copier_def Connection_DeepCopy_def
  by (rule struct_deeply, intro copier_intros)
    (auto simp: Connection_DeepCopyInto_def Connection_written Connection_fields_def Connection_of_def into_defs)

section \<open>\<open>ConnectionHealth\<close>\<close>

record 't ConnectionHealth =
  ConnectionHealth_Timestamp :: 't

definition ConnectionHealth_fields :: "'t ConnectionHealth \<Rightarrow> 't" where
  "ConnectionHealth_fields m = ConnectionHealth_Timestamp m"

definition ConnectionHealth_of :: "'t \<Rightarrow> 't ConnectionHealth" where
  "ConnectionHealth_of c1 = \<lparr>ConnectionHealth_Timestamp = c1\<rparr>"

definition ConnectionHealth_DeepCopyInto :: "'x ext \<Rightarrow> ('x, addr option ConnectionHealth) copy_fn" where
  "ConnectionHealth_DeepCopyInto E inp h =
     and_then (time_cp E (ConnectionHealth_Timestamp inp) h) (\<lambda>(c1, h).
       Ret (inp\<lparr>ConnectionHealth_Timestamp := c1\<rparr>, h))"

definition ConnectionHealth_DeepCopy :: "'x ext \<Rightarrow> ('x, addr option) copy_fn" where
  "ConnectionHealth_DeepCopy E =
     struct_DeepCopy pack1 unpack1 ConnectionHealth_fields ConnectionHealth_of (ConnectionHealth_DeepCopyInto E)"

definition ConnectionHealth_copier where
  "ConnectionHealth_copier E = struct_c ConnectionHealth_fields ConnectionHealth_of
     (time_c E)
     (ConnectionHealth_DeepCopyInto E)"

lemma ConnectionHealth_written:
  "m\<lparr>ConnectionHealth_Timestamp := c1\<rparr> = ConnectionHealth_of c1"
  by (cases m) (simp add: ConnectionHealth_of_def)

lemma ConnectionHealth_copied [generated_copies]:
  "ext_ok E \<Longrightarrow> deeply (ConnectionHealth_copier E) (struct_un unpack1 ConnectionHealth_of) (ConnectionHealth_DeepCopy E)"
  unfolding ConnectionHealth_copier_def ConnectionHealth_DeepCopy_def
  by (rule struct_deeply, intro copier_intros)
    (auto simp: ConnectionHealth_DeepCopyInto_def ConnectionHealth_written ConnectionHealth_fields_def ConnectionHealth_of_def into_defs)

section \<open>\<open>CustomerGatewayAssociation\<close>\<close>

record 's CustomerGatewayAssociation =
  CustomerGatewayAssociation_GlobalNetworkID :: 's

definition CustomerGatewayAssociation_fields :: "'s CustomerGatewayAssociation \<Rightarrow> 's" where
  "CustomerGatewayAssociation_fields m = CustomerGatewayAssociation_GlobalNetworkID m"

definition CustomerGatewayAssociation_of :: "'s \<Rightarrow> 's CustomerGatewayAssociation" where
  "CustomerGatewayAssociation_of c1 = \<lparr>CustomerGatewayAssociation_GlobalNetworkID = c1\<rparr>"

definition CustomerGatewayAssociation_DeepCopyInto :: "('x, addr option CustomerGatewayAssociation) copy_fn" where
  "CustomerGatewayAssociation_DeepCopyInto inp h =
     and_then (string_cp (CustomerGatewayAssociation_GlobalNetworkID inp) h) (\<lambda>(c1, h).
       Ret (inp\<lparr>CustomerGatewayAssociation_GlobalNetworkID := c1\<rparr>, h))"

definition CustomerGatewayAssociation_DeepCopy :: "('x, addr option) copy_fn" where
  "CustomerGatewayAssociation_DeepCopy =
     struct_DeepCopy pack1 unpack1 CustomerGatewayAssociation_fields CustomerGatewayAssociation_of CustomerGatewayAssociation_DeepCopyInto"

definition CustomerGatewayAssociation_copier where
  "CustomerGatewayAssociation_copier = struct_c CustomerGatewayAssociation_fields CustomerGatewayAssociation_of
     string_c
     CustomerGatewayAssociation_DeepCopyInto"

lemma CustomerGatewayAssociation_written:
  "m\<lparr>CustomerGatewayAssociation_GlobalNetworkID := c1\<rparr> = CustomerGatewayAssociation_of c1"
  by (cases m) (simp add: CustomerGatewayAssociation_of_def)

lemma CustomerGatewayAssociation_copied [generated_copies]:
  "deeply CustomerGatewayAssociation_copier (struct_un unpack1 CustomerGatewayAssociation_of) CustomerGatewayAssociation_DeepCopy"
  unfolding CustomerGatewayAssociation_copier_def CustomerGatewayAssociation_DeepCopy_def
  by (rule struct_deeply, intro copier_intros)
    (auto simp: CustomerGatewayAssociation_DeepCopyInto_def CustomerGatewayAssociation_written CustomerGatewayAssociation_fields_def CustomerGatewayAssociation_of_def into_defs)

section \<open>\<open>Device\<close>\<close>

record ('s, 't, 'g) Device =
  Device_CreatedAt :: 't
  Device_Description :: 's
  Device_GlobalNetworkID :: 's
  Device_Model :: 's
  Device_SerialNumber :: 's
  Device_Tags :: 'g
  Device_Type :: 's
  Device_Vendor :: 's

definition Device_fields :: "('s, 't, 'g) Device \<Rightarrow> 't \<times> 's \<times> 's \<times> 's \<times> 's \<times> 'g \<times> 's \<times> 's" where
  "Device_fields m = (Device_CreatedAt m, Device_Description m, Device_GlobalNetworkID m,
     Device_Model m, Device_SerialNumber m, Device_Tags m, Device_Type m, Device_Vendor m)"

definition Device_of :: "'t \<times> 's \<times> 's \<times> 's \<times> 's \<times> 'g \<times> 's \<times> 's \<Rightarrow> ('s, 't, 'g) Device" where
  "Device_of = (\<lambda>(c1, c2, c3, c4, c5, c6, c7, c8).
     \<lparr>Device_CreatedAt = c1, Device_Description = c2, Device_GlobalNetworkID = c3, Device_Model = c4,
     Device_SerialNumber = c5, Device_Tags = c6, Device_Type = c7, Device_Vendor = c8\<rparr>)"

definition Device_DeepCopyInto :: "'x ext \<Rightarrow> ('x, (addr option, addr option, addr option) Device) copy_fn" where
  "Device_DeepCopyInto E inp h =
     and_then (time_cp E (Device_CreatedAt inp) h) (\<lambda>(c1, h).
     and_then (string_cp (Device_Description inp) h) (\<lambda>(c2, h).
     and_then (string_cp (Device_GlobalNetworkID inp) h) (\<lambda>(c3, h).
     and_then (string_cp (Device_Model inp) h) (\<lambda>(c4, h).
     and_then (string_cp (Device_SerialNumber inp) h) (\<lambda>(c5, h).
     and_then (slice_cp Tag_DeepCopy (Device_Tags inp) h) (\<lambda>(c6, h).
     and_then (string_cp (Device_Type inp) h) (\<lambda>(c7, h).
     and_then (string_cp (Device_Vendor inp) h) (\<lambda>(c8, h).
       Ret (inp\<lparr>Device_CreatedAt := c1, Device_Description := c2, Device_GlobalNetworkID := c3,
              Device_Model := c4, Device_SerialNumber := c5, Device_Tags := c6, Device_Type := c7,
              Device_Vendor := c8\<rparr>, h)))))))))"

definition Device_DeepCopy :: "'x ext \<Rightarrow> ('x, addr option) copy_fn" where
  "Device_DeepCopy E =
     struct_DeepCopy pack8 unpack8 Device_fields Device_of (Device_DeepCopyInto E)"

definition Device_copier where
  "Device_copier E = struct_c Device_fields Device_of
     (pair_c (time_c E) (pair_c string_c (pair_c string_c (pair_c string_c (pair_c string_c (pair_c
       tags_c (pair_c string_c string_c)))))))
     (Device_DeepCopyInto E)"

lemma Device_written:
  "m\<lparr>Device_CreatedAt := c1, Device_Description := c2, Device_GlobalNetworkID := c3,
      Device_Model := c4, Device_SerialNumber := c5, Device_Tags := c6, Device_Type := c7,
      Device_Vendor := c8\<rparr> = Device_of (c1, c2, c3, c4, c5, c6, c7, c8)"
  by (cases m) (simp add: Device_of_def)

lemma Device_copied [generated_copies]:
  "ext_ok E \<Longrightarrow> deeply (Device_copier E) (struct_un unpack8 Device_of) (Device_DeepCopy E)"
  unfolding Device_copier_def Device_DeepCopy_def
  by (rule struct_deeply, intro copier_intros)
    (auto simp: Device_DeepCopyInto_def Device_written Device_fields_def Device_of_def into_defs)

section \<open>\<open>GlobalNetwork_SDK\<close>\<close>

record ('s, 't, 'g) GlobalNetwork_SDK =
  GlobalNetwork_SDK_CreatedAt :: 't
  GlobalNetwork_SDK_Description :: 's
  GlobalNetwork_SDK_GlobalNetworkARN :: 's
  GlobalNetwork_SDK_GlobalNetworkID :: 's
  GlobalNetwork_SDK_State :: 's
  GlobalNetwork_SDK_Tags :: 'g

definition GlobalNetwork_SDK_fields :: "('s, 't, 'g) GlobalNetwork_SDK \<Rightarrow> 't \<times> 's \<times> 's \<times> 's \<times> 's \<times> 'g" where
  "GlobalNetwork_SDK_fields m = (GlobalNetwork_SDK_CreatedAt m, GlobalNetwork_SDK_Description m,
     GlobalNetwork_SDK_GlobalNetworkARN m, GlobalNetwork_SDK_GlobalNetworkID m,
     GlobalNetwork_SDK_State m, GlobalNetwork_SDK_Tags m)"

definition GlobalNetwork_SDK_of :: "'t \<times> 's \<times> 's \<times> 's \<times> 's \<times> 'g \<Rightarrow> ('s, 't, 'g) GlobalNetwork_SDK" where
  "GlobalNetwork_SDK_of = (\<lambda>(c1, c2, c3, c4, c5, c6).
     \<lparr>GlobalNetwork_SDK_CreatedAt = c1, GlobalNetwork_SDK_Description = c2,
     GlobalNetwork_SDK_GlobalNetworkARN = c3, GlobalNetwork_SDK_GlobalNetworkID = c4,
     GlobalNetwork_SDK_State = c5, GlobalNetwork_SDK_Tags = c6\<rparr>)"

definition GlobalNetwork_SDK_DeepCopyInto :: "'x ext \<Rightarrow> ('x, (addr option, addr option, addr option) GlobalNetwork_SDK) copy_fn" where
  "GlobalNetwork_SDK_DeepCopyInto E inp h =
     and_then (time_cp E (GlobalNetwork_SDK_CreatedAt inp) h) (\<lambda>(c1, h).
     and_then (string_cp (GlobalNetwork_SDK_Description inp) h) (\<lambda>(c2, h).
     and_then (string_cp (GlobalNetwork_SDK_GlobalNetworkARN inp) h) (\<lambda>(c3, h).
     and_then (string_cp (GlobalNetwork_SDK_GlobalNetworkID inp) h) (\<lambda>(c4, h).
     and_then (string_cp (GlobalNetwork_SDK_State inp) h) (\<lambda>(c5, h).
     and_then (slice_cp Tag_DeepCopy (GlobalNetwork_SDK_Tags inp) h) (\<lambda>(c6, h).
       Ret (inp\<lparr>GlobalNetwork_SDK_CreatedAt := c1, GlobalNetwork_SDK_Description := c2,
              GlobalNetwork_SDK_GlobalNetworkARN := c3, GlobalNetwork_SDK_GlobalNetworkID := c4,
              GlobalNetwork_SDK_State := c5, GlobalNetwork_SDK_Tags := c6\<rparr>, h)))))))"

definition GlobalNetwork_SDK_DeepCopy :: "'x ext \<Rightarrow> ('x, addr option) copy_fn" where
  "GlobalNetwork_SDK_DeepCopy E =
     struct_DeepCopy pack6 unpack6 GlobalNetwork_SDK_fields GlobalNetwork_SDK_of (GlobalNetwork_SDK_DeepCopyInto E)"

definition GlobalNetwork_SDK_copier where
  "GlobalNetwork_SDK_copier E = struct_c GlobalNetwork_SDK_fields GlobalNetwork_SDK_of
     (pair_c (time_c E) (pair_c string_c (pair_c string_c (pair_c string_c (pair_c string_c
       tags_c)))))
     (GlobalNetwork_SDK_DeepCopyInto E)"

lemma GlobalNetwork_SDK_written:
  "m\<lparr>GlobalNetwork_SDK_CreatedAt := c1, GlobalNetwork_SDK_Description := c2,
      GlobalNetwork_SDK_GlobalNetworkARN := c3, GlobalNetwork_SDK_GlobalNetworkID := c4,
      GlobalNetwork_SDK_State := c5, GlobalNetwork_SDK_Tags := c6\<rparr> = GlobalNetwork_SDK_of (c1, c2, c3, c4, c5, c6)"
  by (cases m) (simp add: GlobalNetwork_SDK_of_def)

lemma GlobalNetwork_SDK_copied [generated_copies]:
  "ext_ok E \<Longrightarrow> deeply (GlobalNetwork_SDK_copier E) (struct_un unpack6 GlobalNetwork_SDK_of) (GlobalNetwork_SDK_DeepCopy E)"
  unfolding GlobalNetwork_SDK_copier_def GlobalNetwork_SDK_DeepCopy_def
  by (rule struct_deeply, intro copier_intros)
    (auto simp: GlobalNetwork_SDK_DeepCopyInto_def GlobalNetwork_SDK_written GlobalNetwork_SDK_fields_def GlobalNetwork_SDK_of_def into_defs)

section \<open>\<open>Link\<close>\<close>

record ('s, 't, 'g) Link =
  Link_CreatedAt :: 't
  Link_Description :: 's
  Link_GlobalNetworkID :: 's
  Link_Provider :: 's
  Link_Tags :: 'g
  Link_Type :: 's

definition Link_fields :: "('s, 't, 'g) Link \<Rightarrow> 't \<times> 's \<times> 's \<times> 's \<times> 'g \<times> 's" where
  "Link_fields m = (Link_CreatedAt m, Link_Description m, Link_GlobalNetworkID m, Link_Provider m,
     Link_Tags m, Link_Type m)"

definition Link_of :: "'t \<times> 's \<times> 's \<times> 's \<times> 'g \<times> 's \<Rightarrow> ('s, 't, 'g) Link" where
  "Link_of = (\<lambda>(c1, c2, c3, c4, c5, c6).
     \<lparr>Link_CreatedAt = c1, Link_Description = c2, Link_GlobalNetworkID = c3, Link_Provider = c4,
     Link_Tags = c5, Link_Type = c6\<rparr>)"

definition Link_DeepCopyInto :: "'x ext \<Rightarrow> ('x, (addr option, addr option, addr option) Link) copy_fn" where
  "Link_DeepCopyInto E inp h =
     and_then (time_cp E (Link_CreatedAt inp) h) (\<lambda>(c1, h).
     and_then (string_cp (Link_Description inp) h) (\<lambda>(c2, h).
     and_then (string_cp (Link_GlobalNetworkID inp) h) (\<lambda>(c3, h).
     and_then (string_cp (Link_Provider inp) h) (\<lambda>(c4, h).
     and_then (slice_cp Tag_DeepCopy (Link_Tags inp) h) (\<lambda>(c5, h).
     and_then (string_cp (Link_Type inp) h) (\<lambda>(c6, h).
       Ret (inp\<lparr>Link_CreatedAt := c1, Link_Description := c2, Link_GlobalNetworkID := c3,
              Link_Provider := c4, Link_Tags := c5, Link_Type := c6\<rparr>, h)))))))"

definition Link_DeepCopy :: "'x ext \<Rightarrow> ('x, addr option) copy_fn" where
  "Link_DeepCopy E =
     struct_DeepCopy pack6 unpack6 Link_fields Link_of (Link_DeepCopyInto E)"

definition Link_copier where
  "Link_copier E = struct_c Link_fields Link_of
     (pair_c (time_c E) (pair_c string_c (pair_c string_c (pair_c string_c (pair_c tags_c
       string_c)))))
     (Link_DeepCopyInto E)"

lemma Link_written:
  "m\<lparr>Link_CreatedAt := c1, Link_Description := c2, Link_GlobalNetworkID := c3, Link_Provider := c4,
      Link_Tags := c5, Link_Type := c6\<rparr> = Link_of (c1, c2, c3, c4, c5, c6)"
  by (cases m) (simp add: Link_of_def)

lemma Link_copied [generated_copies]:
  "ext_ok E \<Longrightarrow> deeply (Link_copier E) (struct_un unpack6 Link_of) (Link_DeepCopy E)"
  unfolding Link_copier_def Link_DeepCopy_def
  by (rule struct_deeply, intro copier_intros)
    (auto simp: Link_DeepCopyInto_def Link_written Link_fields_def Link_of_def into_defs)

section \<open>\<open>LinkAssociation\<close>\<close>

record 's LinkAssociation =
  LinkAssociation_GlobalNetworkID :: 's

definition LinkAssociation_fields :: "'s LinkAssociation \<Rightarrow> 's" where
  "LinkAssociation_fields m = LinkAssociation_GlobalNetworkID m"

definition LinkAssociation_of :: "'s \<Rightarrow> 's LinkAssociation" where
  "LinkAssociation_of c1 = \<lparr>LinkAssociation_GlobalNetworkID = c1\<rparr>"

definition LinkAssociation_DeepCopyInto :: "('x, addr option LinkAssociation) copy_fn" where
  "LinkAssociation_DeepCopyInto inp h =
     and_then (string_cp (LinkAssociation_GlobalNetworkID inp) h) (\<lambda>(c1, h).
       Ret (inp\<lparr>LinkAssociation_GlobalNetworkID := c1\<rparr>, h))"

definition LinkAssociation_DeepCopy :: "('x, addr option) copy_fn" where
  "LinkAssociation_DeepCopy =
     struct_DeepCopy pack1 unpack1 LinkAssociation_fields LinkAssociation_of LinkAssociation_DeepCopyInto"

definition LinkAssociation_copier where
  "LinkAssociation_copier = struct_c LinkAssociation_fields LinkAssociation_of
     string_c
     LinkAssociation_DeepCopyInto"

lemma LinkAssociation_written:
  "m\<lparr>LinkAssociation_GlobalNetworkID := c1\<rparr> = LinkAssociation_of c1"
  by (cases m) (simp add: LinkAssociation_of_def)

lemma LinkAssociation_copied [generated_copies]:
  "deeply LinkAssociation_copier (struct_un unpack1 LinkAssociation_of) LinkAssociation_DeepCopy"
  unfolding LinkAssociation_copier_def LinkAssociation_DeepCopy_def
  by (rule struct_deeply, intro copier_intros)
    (auto simp: LinkAssociation_DeepCopyInto_def LinkAssociation_written LinkAssociation_fields_def LinkAssociation_of_def into_defs)

section \<open>\<open>Location\<close>\<close>

record 's Location =
  Location_Address :: 's
  Location_Latitude :: 's
  Location_Longitude :: 's

definition Location_fields :: "'s Location \<Rightarrow> 's \<times> 's \<times> 's" where
  "Location_fields m = (Location_Address m, Location_Latitude m, Location_Longitude m)"

definition Location_of :: "'s \<times> 's \<times> 's \<Rightarrow> 's Location" where
  "Location_of = (\<lambda>(c1, c2, c3).
     \<lparr>Location_Address = c1, Location_Latitude = c2, Location_Longitude = c3\<rparr>)"

definition Location_DeepCopyInto :: "('x, addr option Location) copy_fn" where
  "Location_DeepCopyInto inp h =
     and_then (string_cp (Location_Address inp) h) (\<lambda>(c1, h).
     and_then (string_cp (Location_Latitude inp) h) (\<lambda>(c2, h).
     and_then (string_cp (Location_Longitude inp) h) (\<lambda>(c3, h).
       Ret (inp\<lparr>Location_Address := c1, Location_Latitude := c2, Location_Longitude := c3\<rparr>, h))))"

definition Location_DeepCopy :: "('x, addr option) copy_fn" where
  "Location_DeepCopy =
     struct_DeepCopy pack3 unpack3 Location_fields Location_of Location_DeepCopyInto"

definition Location_copier where
  "Location_copier = struct_c Location_fields Location_of
     (pair_c string_c (pair_c string_c string_c))
     Location_DeepCopyInto"

lemma Location_written:
  "m\<lparr>Location_Address := c1, Location_Latitude := c2, Location_Longitude := c3\<rparr> = Location_of (c1, c2, c3)"
  by (cases m) (simp add: Location_of_def)

lemma Location_copied [generated_copies]:
  "deeply Location_copier (struct_un unpack3 Location_of) Location_DeepCopy"
  unfolding Location_copier_def Location_DeepCopy_def
  by (rule struct_deeply, intro copier_intros)
    (auto simp: Location_DeepCopyInto_def Location_written Location_fields_def Location_of_def into_defs)

section \<open>\<open>Site\<close>\<close>

record ('s, 't, 'g) Site =
  Site_CreatedAt :: 't
  Site_Description :: 's
  Site_GlobalNetworkID :: 's
  Site_Tags :: 'g

definition Site_fields :: "('s, 't, 'g) Site \<Rightarrow> 't \<times> 's \<times> 's \<times> 'g" where
  "Site_fields m = (Site_CreatedAt m, Site_Description m, Site_GlobalNetworkID m, Site_Tags m)"

definition Site_of :: "'t \<times> 's \<times> 's \<times> 'g \<Rightarrow> ('s, 't, 'g) Site" where
  "Site_of = (\<lambda>(c1, c2, c3, c4).
     \<lparr>Site_CreatedAt = c1, Site_Description = c2, Site_GlobalNetworkID = c3, Site_Tags = c4\<rparr>)"

definition Site_DeepCopyInto :: "'x ext \<Rightarrow> ('x, (addr option, addr option, addr option) Site) copy_fn" where
  "Site_DeepCopyInto E inp h =
     and_then (time_cp E (Site_CreatedAt inp) h) (\<lambda>(c1, h).
     and_then (string_cp (Site_Description inp) h) (\<lambda>(c2, h).
     and_then (string_cp (Site_GlobalNetworkID inp) h) (\<lambda>(c3, h).
     and_then (slice_cp Tag_DeepCopy (Site_Tags inp) h) (\<lambda>(c4, h).
       Ret (inp\<lparr>Site_CreatedAt := c1, Site_Description := c2, Site_GlobalNetworkID := c3,
              Site_Tags := c4\<rparr>, h)))))"

definition Site_DeepCopy :: "'x ext \<Rightarrow> ('x, addr option) copy_fn" where
  "Site_DeepCopy E =
     struct_DeepCopy pack4 unpack4 Site_fields Site_of (Site_DeepCopyInto E)"

definition Site_copier where
  "Site_copier E = struct_c Site_fields Site_of
     (pair_c (time_c E) (pair_c string_c (pair_c string_c tags_c)))
     (Site_DeepCopyInto E)"

lemma Site_written:
  "m\<lparr>Site_CreatedAt := c1, Site_Description := c2, Site_GlobalNetworkID := c3, Site_Tags := c4\<rparr> = Site_of (c1, c2, c3, c4)"
  by (cases m) (simp add: Site_of_def)

lemma Site_copied [generated_copies]:
  "ext_ok E \<Longrightarrow> deeply (Site_copier E) (struct_un unpack4 Site_of) (Site_DeepCopy E)"
  unfolding Site_copier_def Site_DeepCopy_def
  by (rule struct_deeply, intro copier_intros)
    (auto simp: Site_DeepCopyInto_def Site_written Site_fields_def Site_of_def into_defs)

section \<open>\<open>TransitGatewayConnectPeerAssociation\<close>\<close>

record 's TransitGatewayConnectPeerAssociation =
  TransitGatewayConnectPeerAssociation_GlobalNetworkID :: 's

definition TransitGatewayConnectPeerAssociation_fields :: "'s TransitGatewayConnectPeerAssociation \<Rightarrow> 's" where
  "TransitGatewayConnectPeerAssociation_fields m =
     TransitGatewayConnectPeerAssociation_GlobalNetworkID m"

definition TransitGatewayConnectPeerAssociation_of :: "'s \<Rightarrow> 's TransitGatewayConnectPeerAssociation" where
  "TransitGatewayConnectPeerAssociation_of c1 = \<lparr>TransitGatewayConnectPeerAssociation_GlobalNetworkID = c1\<rparr>"

definition TransitGatewayConnectPeerAssociation_DeepCopyInto :: "('x, addr option TransitGatewayConnectPeerAssociation) copy_fn" where
  "TransitGatewayConnectPeerAssociation_DeepCopyInto inp h =
     and_then (string_cp (TransitGatewayConnectPeerAssociation_GlobalNetworkID inp) h) (\<lambda>(c1, h).
       Ret (inp\<lparr>TransitGatewayConnectPeerAssociation_GlobalNetworkID := c1\<rparr>, h))"

definition TransitGatewayConnectPeerAssociation_DeepCopy :: "('x, addr option) copy_fn" where
  "TransitGatewayConnectPeerAssociation_DeepCopy =
     struct_DeepCopy pack1 unpack1 TransitGatewayConnectPeerAssociation_fields TransitGatewayConnectPeerAssociation_of TransitGatewayConnectPeerAssociation_DeepCopyInto"

definition TransitGatewayConnectPeerAssociation_copier where
  "TransitGatewayConnectPeerAssociation_copier = struct_c TransitGatewayConnectPeerAssociation_fields TransitGatewayConnectPeerAssociation_of
     string_c
     TransitGatewayConnectPeerAssociation_DeepCopyInto"

lemma TransitGatewayConnectPeerAssociation_written:
  "m\<lparr>TransitGatewayConnectPeerAssociation_GlobalNetworkID := c1\<rparr> = TransitGatewayConnectPeerAssociation_of c1"
  by (cases m) (simp add: TransitGatewayConnectPeerAssociation_of_def)

lemma TransitGatewayConnectPeerAssociation_copied [generated_copies]:
  "deeply TransitGatewayConnectPeerAssociation_copier (struct_un unpack1 TransitGatewayConnectPeerAssociation_of) TransitGatewayConnectPeerAssociation_DeepCopy"
  unfolding TransitGatewayConnectPeerAssociation_copier_def TransitGatewayConnectPeerAssociation_DeepCopy_def
  by (rule struct_deeply, intro copier_intros)
    (auto simp: TransitGatewayConnectPeerAssociation_DeepCopyInto_def TransitGatewayConnectPeerAssociation_written TransitGatewayConnectPeerAssociation_fields_def TransitGatewayConnectPeerAssociation_of_def into_defs)

section \<open>\<open>TransitGatewayRegistration\<close>\<close>

record 's TransitGatewayRegistration =
  TransitGatewayRegistration_GlobalNetworkID :: 's

definition TransitGatewayRegistration_fields :: "'s TransitGatewayRegistration \<Rightarrow> 's" where
  "TransitGatewayRegistration_fields m = TransitGatewayRegistration_GlobalNetworkID m"

definition TransitGatewayRegistration_of :: "'s \<Rightarrow> 's TransitGatewayRegistration" where
  "TransitGatewayRegistration_of c1 = \<lparr>TransitGatewayRegistration_GlobalNetworkID = c1\<rparr>"

definition TransitGatewayRegistration_DeepCopyInto :: "('x, addr option TransitGatewayRegistration) copy_fn" where
  "TransitGatewayRegistration_DeepCopyInto inp h =
     and_then (string_cp (TransitGatewayRegistration_GlobalNetworkID inp) h) (\<lambda>(c1, h).
       Ret (inp\<lparr>TransitGatewayRegistration_GlobalNetworkID := c1\<rparr>, h))"

definition TransitGatewayRegistration_DeepCopy :: "('x, addr option) copy_fn" where
  "TransitGatewayRegistration_DeepCopy =
     struct_DeepCopy pack1 unpack1 TransitGatewayRegistration_fields TransitGatewayRegistration_of TransitGatewayRegistration_DeepCopyInto"

definition TransitGatewayRegistration_copier where
  "TransitGatewayRegistration_copier = struct_c TransitGatewayRegistration_fields TransitGatewayRegistration_of
     string_c
     TransitGatewayRegistration_DeepCopyInto"

lemma TransitGatewayRegistration_written:
  "m\<lparr>TransitGatewayRegistration_GlobalNetworkID := c1\<rparr> = TransitGatewayRegistration_of c1"
  by (cases m) (simp add: TransitGatewayRegistration_of_def)

lemma TransitGatewayRegistration_copied [generated_copies]:
  "deeply TransitGatewayRegistration_copier (struct_un unpack1 TransitGatewayRegistration_of) TransitGatewayRegistration_DeepCopy"
  unfolding TransitGatewayRegistration_copier_def TransitGatewayRegistration_DeepCopy_def
  by (rule struct_deeply, intro copier_intros)
    (auto simp: TransitGatewayRegistration_DeepCopyInto_def TransitGatewayRegistration_written TransitGatewayRegistration_fields_def TransitGatewayRegistration_of_def into_defs)

section \<open>\<open>TransitGatewayRegistrationStateReason\<close>\<close>

record 's TransitGatewayRegistrationStateReason =
  TransitGatewayRegistrationStateReason_Message :: 's

definition TransitGatewayRegistrationStateReason_fields :: "'s TransitGatewayRegistrationStateReason \<Rightarrow> 's" where
  "TransitGatewayRegistrationStateReason_fields m = TransitGatewayRegistrationStateReason_Message m"

definition TransitGatewayRegistrationStateReason_of :: "'s \<Rightarrow> 's TransitGatewayRegistrationStateReason" where
  "TransitGatewayRegistrationStateReason_of c1 = \<lparr>TransitGatewayRegistrationStateReason_Message = c1\<rparr>"

definition TransitGatewayRegistrationStateReason_DeepCopyInto :: "('x, addr option TransitGatewayRegistrationStateReason) copy_fn" where
  "TransitGatewayRegistrationStateReason_DeepCopyInto inp h =
     and_then (string_cp (TransitGatewayRegistrationStateReason_Message inp) h) (\<lambda>(c1, h).
       Ret (inp\<lparr>TransitGatewayRegistrationStateReason_Message := c1\<rparr>, h))"

definition TransitGatewayRegistrationStateReason_DeepCopy :: "('x, addr option) copy_fn" where
  "TransitGatewayRegistrationStateReason_DeepCopy =
     struct_DeepCopy pack1 unpack1 TransitGatewayRegistrationStateReason_fields TransitGatewayRegistrationStateReason_of TransitGatewayRegistrationStateReason_DeepCopyInto"

definition TransitGatewayRegistrationStateReason_copier where
  "TransitGatewayRegistrationStateReason_copier = struct_c TransitGatewayRegistrationStateReason_fields TransitGatewayRegistrationStateReason_of
     string_c
     TransitGatewayRegistrationStateReason_DeepCopyInto"

lemma TransitGatewayRegistrationStateReason_written:
  "m\<lparr>TransitGatewayRegistrationStateReason_Message := c1\<rparr> = TransitGatewayRegistrationStateReason_of c1"
  by (cases m) (simp add: TransitGatewayRegistrationStateReason_of_def)

lemma TransitGatewayRegistrationStateReason_copied [generated_copies]:
  "deeply TransitGatewayRegistrationStateReason_copier (struct_un unpack1 TransitGatewayRegistrationStateReason_of) TransitGatewayRegistrationStateReason_DeepCopy"
  unfolding TransitGatewayRegistrationStateReason_copier_def TransitGatewayRegistrationStateReason_DeepCopy_def
  by (rule struct_deeply, intro copier_intros)
    (auto simp: TransitGatewayRegistrationStateReason_DeepCopyInto_def TransitGatewayRegistrationStateReason_written TransitGatewayRegistrationStateReason_fields_def TransitGatewayRegistrationStateReason_of_def into_defs)

end
