(* ===== verification/RouteCopies.thy ===== *)
theory RouteCopies
  imports StructCopies
begin

text \<open>
  The structs of \<open>apis/v1alpha1/types.go\<close> that describe network resources, routes and their analysis
  and telemetry, with their generated copies (\<open>zz_generated.deepcopy.go\<close>), in the form of
  \<open>CoreNetworkCopies\<close>.
\<close>

section \<open>\<open>NetworkFunctionGroup\<close>\<close>

record 's NetworkFunctionGroup =
  NetworkFunctionGroup_Name :: 's

definition NetworkFunctionGroup_fields :: "'s NetworkFunctionGroup \<Rightarrow> 's" where
  "NetworkFunctionGroup_fields m = NetworkFunctionGroup_Name m"

definition NetworkFunctionGroup_of :: "'s \<Rightarrow> 's NetworkFunctionGroup" where
  "NetworkFunctionGroup_of c1 = \<lparr>NetworkFunctionGroup_Name = c1\<rparr>"

definition NetworkFunctionGroup_DeepCopyInto :: "('x, addr option NetworkFunctionGroup) copy_fn" where
  "NetworkFunctionGroup_DeepCopyInto inp h =
     and_then (string_cp (NetworkFunctionGroup_Name inp) h) (\<lambda>(c1, h).
       Ret (inp\<lparr>NetworkFunctionGroup_Name := c1\<rparr>, h))"

definition NetworkFunctionGroup_DeepCopy :: "('x, addr option) copy_fn" where
  "NetworkFunctionGroup_DeepCopy =
     struct_DeepCopy pack1 unpack1 NetworkFunctionGroup_fields NetworkFunctionGroup_of NetworkFunctionGroup_DeepCopyInto"

definition NetworkFunctionGroup_copier where
  "NetworkFunctionGroup_copier = struct_c NetworkFunctionGroup_fields NetworkFunctionGroup_of
     string_c
     NetworkFunctionGroup_DeepCopyInto"

lemma NetworkFunctionGroup_written:
  "m\<lparr>NetworkFunctionGroup_Name := c1\<rparr> = NetworkFunctionGroup_of c1"
  by (cases m) (simp add: NetworkFunctionGroup_of_def)

lemma NetworkFunctionGroup_copied [generated_copies]:
  "deeply NetworkFunctionGroup_copier (struct_un unpack1 NetworkFunctionGroup_of) NetworkFunctionGroup_DeepCopy"
  unfolding NetworkFunctionGroup_copier_def NetworkFunctionGroup_DeepCopy_def
  by (rule struct_deeply, intro copier_intros)
    (auto simp: NetworkFunctionGroup_DeepCopyInto_def NetworkFunctionGroup_written NetworkFunctionGroup_fields_def NetworkFunctionGroup_of_def into_defs)

section \<open>\<open>NetworkResource\<close>\<close>

record ('s, 't, 'g) NetworkResource =
  NetworkResource_Definition :: 's
  NetworkResource_DefinitionTimestamp :: 't
  NetworkResource_ResourceID :: 's
  NetworkResource_ResourceType :: 's
  NetworkResource_Tags :: 'g

definition NetworkResource_fields :: "('s, 't, 'g) NetworkResource \<Rightarrow> 's \<times> 't \<times> 's \<times> 's \<times> 'g" where
  "NetworkResource_fields m = (NetworkResource_Definition m, NetworkResource_DefinitionTimestamp m,
     NetworkResource_ResourceID m, NetworkResource_ResourceType m, NetworkResource_Tags m)"

definition NetworkResource_of :: "'s \<times> 't \<times> 's \<times> 's \<times> 'g \<Rightarrow> ('s, 't, 'g) NetworkResource" where
  "NetworkResource_of = (\<lambda>(c1, c2, c3, c4, c5).
     \<lparr>NetworkResource_Definition = c1, NetworkResource_DefinitionTimestamp = c2,
     NetworkResource_ResourceID = c3, NetworkResource_ResourceType = c4, NetworkResource_Tags = c5\<rparr>)"

definition NetworkResource_DeepCopyInto :: "'x ext \<Rightarrow> ('x, (addr option, addr option, addr option) NetworkResource) copy_fn" where
  "NetworkResource_DeepCopyInto E inp h =
     and_then (string_cp (NetworkResource_Definition inp) h) (\<lambda>(c1, h).
     and_then (time_cp E (NetworkResource_DefinitionTimestamp inp) h) (\<lambda>(c2, h).
     and_then (string_cp (NetworkResource_ResourceID inp) h) (\<lambda>(c3, h).
     and_then (string_cp (NetworkResource_ResourceType inp) h) (\<lambda>(c4, h).
     and_then (slice_cp Tag_DeepCopy (NetworkResource_Tags inp) h) (\<lambda>(c5, h).
       Ret (inp\<lparr>NetworkResource_Definition := c1, NetworkResource_DefinitionTimestamp := c2,
              NetworkResource_ResourceID := c3, NetworkResource_ResourceType := c4,
              NetworkResource_Tags := c5\<rparr>, h))))))"

definition NetworkResource_DeepCopy :: "'x ext \<Rightarrow> ('x, addr option) copy_fn" where
  "NetworkResource_DeepCopy E =
     struct_DeepCopy pack5 unpack5 NetworkResource_fields NetworkResource_of (NetworkResource_DeepCopyInto E)"

definition NetworkResource_copier where
  "NetworkResource_copier E = struct_c NetworkResource_fields NetworkResource_of
     (pair_c string_c (pair_c (time_c E) (pair_c string_c (pair_c string_c tags_c))))
     (NetworkResource_DeepCopyInto E)"

lemma NetworkResource_written:
  "m\<lparr>NetworkResource_Definition := c1, NetworkResource_DefinitionTimestamp := c2,
      NetworkResource_ResourceID := c3, NetworkResource_ResourceType := c4,
      NetworkResource_Tags := c5\<rparr> = NetworkResource_of (c1, c2, c3, c4, c5)"
  by (cases m) (simp add: NetworkResource_of_def)

lemma NetworkResource_copied [generated_copies]:
  "ext_ok E \<Longrightarrow> deeply (NetworkResource_copier E) (struct_un unpack5 NetworkResource_of) (NetworkResource_DeepCopy E)"
  unfolding NetworkResource_copier_def NetworkResource_DeepCopy_def
  by (rule struct_deeply, intro copier_intros)
    (auto simp: NetworkResource_DeepCopyInto_def NetworkResource_written NetworkResource_fields_def NetworkResource_of_def into_defs)

section \<open>\<open>NetworkResourceCount\<close>\<close>

record 's NetworkResourceCount =
  NetworkResourceCount_ResourceType :: 's

definition NetworkResourceCount_fields :: "'s NetworkResourceCount \<Rightarrow> 's" where
  "NetworkResourceCount_fields m = NetworkResourceCount_ResourceType m"

definition NetworkResourceCount_of :: "'s \<Rightarrow> 's NetworkResourceCount" where
  "NetworkResourceCount_of c1 = \<lparr>NetworkResourceCount_ResourceType = c1\<rparr>"

definition NetworkResourceCount_DeepCopyInto :: "('x, addr option NetworkResourceCount) copy_fn" where
  "NetworkResourceCount_DeepCopyInto inp h =
     and_then (string_cp (NetworkResourceCount_ResourceType inp) h) (\<lambda>(c1, h).
       Ret (inp\<lparr>NetworkResourceCount_ResourceType := c1\<rparr>, h))"

definition NetworkResourceCount_DeepCopy :: "('x, addr option) copy_fn" where
  "NetworkResourceCount_DeepCopy =
     struct_DeepCopy pack1 unpack1 NetworkResourceCount_fields NetworkResourceCount_of NetworkResourceCount_DeepCopyInto"

definition NetworkResourceCount_copier where
  "NetworkResourceCount_copier = struct_c NetworkResourceCount_fields NetworkResourceCount_of
     string_c
     NetworkResourceCount_DeepCopyInto"

lemma NetworkResourceCount_written:
  "m\<lparr>NetworkResourceCount_ResourceType := c1\<rparr> = NetworkResourceCount_of c1"
  by (cases m) (simp add: NetworkResourceCount_of_def)

lemma NetworkResourceCount_copied [generated_copies]:
  "deeply NetworkResourceCount_copier (struct_un unpack1 NetworkResourceCount_of) NetworkResourceCount_DeepCopy"
  unfolding NetworkResourceCount_copier_def NetworkResourceCount_DeepCopy_def
  by (rule struct_deeply, intro copier_intros)
    (auto simp: NetworkResourceCount_DeepCopyInto_def NetworkResourceCount_written NetworkResourceCount_fields_def NetworkResourceCount_of_def into_defs)

section \<open>\<open>NetworkResourceSummary\<close>\<close>

record 's NetworkResourceSummary =
  NetworkResourceSummary_Definition :: 's
  NetworkResourceSummary_NameTag :: 's
  NetworkResourceSummary_ResourceType :: 's

definition NetworkResourceSummary_fields :: "'s NetworkResourceSummary \<Rightarrow> 's \<times> 's \<times> 's" where
  "NetworkResourceSummary_fields m = (NetworkResourceSummary_Definition m,
     NetworkResourceSummary_NameTag m, NetworkResourceSummary_ResourceType m)"

definition NetworkResourceSummary_of :: "'s \<times> 's \<times> 's \<Rightarrow> 's NetworkResourceSummary" where
  "NetworkResourceSummary_of = (\<lambda>(c1, c2, c3).
     \<lparr>NetworkResourceSummary_Definition = c1, NetworkResourceSummary_NameTag = c2,
     NetworkResourceSummary_ResourceType = c3\<rparr>)"

definition NetworkResourceSummary_DeepCopyInto :: "('x, addr option NetworkResourceSummary) copy_fn" where
  "NetworkResourceSummary_DeepCopyInto inp h =
     and_then (string_cp (NetworkResourceSummary_Definition inp) h) (\<lambda>(c1, h).
     and_then (string_cp (NetworkResourceSummary_NameTag inp) h) (\<lambda>(c2, h).
     and_then (string_cp (NetworkResourceSummary_ResourceType inp) h) (\<lambda>(c3, h).
       Ret (inp\<lparr>NetworkResourceSummary_Definition := c1, NetworkResourceSummary_NameTag := c2,
              NetworkResourceSummary_ResourceType := c3\<rparr>, h))))"

definition NetworkResourceSummary_DeepCopy :: "('x, addr option) copy_fn" where
  "NetworkResourceSummary_DeepCopy =
     struct_DeepCopy pack3 unpack3 NetworkResourceSummary_fields NetworkResourceSummary_of NetworkResourceSummary_DeepCopyInto"

definition NetworkResourceSummary_copier where
  "NetworkResourceSummary_copier = struct_c NetworkResourceSummary_fields NetworkResourceSummary_of
     (pair_c string_c (pair_c string_c string_c))
     NetworkResourceSummary_DeepCopyInto"

lemma NetworkResourceSummary_written:
  "m\<lparr>NetworkResourceSummary_Definition := c1, NetworkResourceSummary_NameTag := c2,
      NetworkResourceSummary_ResourceType := c3\<rparr> = NetworkResourceSummary_of (c1, c2, c3)"
  by (cases m) (simp add: NetworkResourceSummary_of_def)

lemma NetworkResourceSummary_copied [generated_copies]:
  "deeply NetworkResourceSummary_copier (struct_un unpack3 NetworkResourceSummary_of) NetworkResourceSummary_DeepCopy"
  unfolding NetworkResourceSummary_copier_def NetworkResourceSummary_DeepCopy_def
  by (rule struct_deeply, intro copier_intros)
    (auto simp: NetworkResourceSummary_DeepCopyInto_def NetworkResourceSummary_written NetworkResourceSummary_fields_def NetworkResourceSummary_of_def into_defs)

section \<open>\<open>NetworkRoute\<close>\<close>

record 's NetworkRoute =
  NetworkRoute_DestinationCIDRBlock :: 's
  NetworkRoute_PrefixListID :: 's

definition NetworkRoute_fields :: "'s NetworkRoute \<Rightarrow> 's \<times> 's" where
  "NetworkRoute_fields m = (NetworkRoute_DestinationCIDRBlock m, NetworkRoute_PrefixListID m)"

definition NetworkRoute_of :: "'s \<times> 's \<Rightarrow> 's NetworkRoute" where
  "NetworkRoute_of = (\<lambda>(c1, c2).
     \<lparr>NetworkRoute_DestinationCIDRBlock = c1, NetworkRoute_PrefixListID = c2\<rparr>)"

definition NetworkRoute_DeepCopyInto :: "('x, addr option NetworkRoute) copy_fn" where
  "NetworkRoute_DeepCopyInto inp h =
     and_then (string_cp (NetworkRoute_DestinationCIDRBlock inp) h) (\<lambda>(c1, h).
     and_then (string_cp (NetworkRoute_PrefixListID inp) h) (\<lambda>(c2, h).
       Ret (inp\<lparr>NetworkRoute_DestinationCIDRBlock := c1, NetworkRoute_PrefixListID := c2\<rparr>, h)))"

definition NetworkRoute_DeepCopy :: "('x, addr option) copy_fn" where
  "NetworkRoute_DeepCopy =
     struct_DeepCopy pack2 unpack2 NetworkRoute_fields NetworkRoute_of NetworkRoute_DeepCopyInto"

definition NetworkRoute_copier where
  "NetworkRoute_copier = struct_c NetworkRoute_fields NetworkRoute_of
     (pair_c string_c string_c)
     NetworkRoute_DeepCopyInto"

lemma NetworkRoute_written:
  "m\<lparr>NetworkRoute_DestinationCIDRBlock := c1, NetworkRoute_PrefixListID := c2\<rparr> = NetworkRoute_of (c1, c2)"
  by (cases m) (simp add: NetworkRoute_of_def)

lemma NetworkRoute_copied [generated_copies]:
  "deeply NetworkRoute_copier (struct_un unpack2 NetworkRoute_of) NetworkRoute_DeepCopy"
  unfolding NetworkRoute_copier_def NetworkRoute_DeepCopy_def
  by (rule struct_deeply, intro copier_intros)
    (auto simp: NetworkRoute_DeepCopyInto_def NetworkRoute_written NetworkRoute_fields_def NetworkRoute_of_def into_defs)

section \<open>\<open>NetworkRouteDestination\<close>\<close>

record 's NetworkRouteDestination =
  NetworkRouteDestination_NetworkFunctionGroupName :: 's
  NetworkRouteDestination_ResourceID :: 's
  NetworkRouteDestination_ResourceType :: 's
  NetworkRouteDestination_SegmentName :: 's

definition NetworkRouteDestination_fields :: "'s NetworkRouteDestination \<Rightarrow> 's \<times> 's \<times> 's \<times> 's" where
  "NetworkRouteDestination_fields m = (NetworkRouteDestination_NetworkFunctionGroupName m,
     NetworkRouteDestination_ResourceID m, NetworkRouteDestination_ResourceType m,
     NetworkRouteDestination_SegmentName m)"

definition NetworkRouteDestination_of :: "'s \<times> 's \<times> 's \<times> 's \<Rightarrow> 's NetworkRouteDestination" where
  "NetworkRouteDestination_of = (\<lambda>(c1, c2, c3, c4).
     \<lparr>NetworkRouteDestination_NetworkFunctionGroupName = c1, NetworkRouteDestination_ResourceID = c2,
     NetworkRouteDestination_ResourceType = c3, NetworkRouteDestination_SegmentName = c4\<rparr>)"

definition NetworkRouteDestination_DeepCopyInto :: "('x, addr option NetworkRouteDestination) copy_fn" where
  "NetworkRouteDestination_DeepCopyInto inp h =
     and_then (string_cp (NetworkRouteDestination_NetworkFunctionGroupName inp) h) (\<lambda>(c1, h).
     and_then (string_cp (NetworkRouteDestination_ResourceID inp) h) (\<lambda>(c2, h).
     and_then (string_cp (NetworkRouteDestination_ResourceType inp) h) (\<lambda>(c3, h).
     and_then (string_cp (NetworkRouteDestination_SegmentName inp) h) (\<lambda>(c4, h).
       Ret (inp\<lparr>NetworkRouteDestination_NetworkFunctionGroupName := c1,
              NetworkRouteDestination_ResourceID := c2, NetworkRouteDestination_ResourceType := c3,
              NetworkRouteDestination_SegmentName := c4\<rparr>, h)))))"

definition NetworkRouteDestination_DeepCopy :: "('x, addr option) copy_fn" where
  "NetworkRouteDestination_DeepCopy =
     struct_DeepCopy pack4 unpack4 NetworkRouteDestination_fields NetworkRouteDestination_of NetworkRouteDestination_DeepCopyInto"

definition NetworkRouteDestination_copier where
  "NetworkRouteDestination_copier = struct_c NetworkRouteDestination_fields NetworkRouteDestination_of
     (pair_c string_c (pair_c string_c (pair_c string_c string_c)))
     NetworkRouteDestination_DeepCopyInto"

lemma NetworkRouteDestination_written:
  "m\<lparr>NetworkRouteDestination_NetworkFunctionGroupName := c1,
      NetworkRouteDestination_ResourceID := c2, NetworkRouteDestination_ResourceType := c3,
      NetworkRouteDestination_SegmentName := c4\<rparr> = NetworkRouteDestination_of (c1, c2, c3, c4)"
  by (cases m) (simp add: NetworkRouteDestination_of_def)

lemma NetworkRouteDestination_copied [generated_copies]:
  "deeply NetworkRouteDestination_copier (struct_un unpack4 NetworkRouteDestination_of) NetworkRouteDestination_DeepCopy"
  unfolding NetworkRouteDestination_copier_def NetworkRouteDestination_DeepCopy_def
  by (rule struct_deeply, intro copier_intros)
    (auto simp: NetworkRouteDestination_DeepCopyInto_def NetworkRouteDestination_written NetworkRouteDestination_fields_def NetworkRouteDestination_of_def into_defs)

section \<open>\<open>NetworkTelemetry\<close>\<close>

record 's NetworkTelemetry =
  NetworkTelemetry_Address :: 's
  NetworkTelemetry_ResourceID :: 's
  NetworkTelemetry_ResourceType :: 's

definition NetworkTelemetry_fields :: "'s NetworkTelemetry \<Rightarrow> 's \<times> 's \<times> 's" where
  "NetworkTelemetry_fields m = (NetworkTelemetry_Address m, NetworkTelemetry_ResourceID m,
     NetworkTelemetry_ResourceType m)"

definition NetworkTelemetry_of :: "'s \<times> 's \<times> 's \<Rightarrow> 's NetworkTelemetry" where
  "NetworkTelemetry_of = (\<lambda>(c1, c2, c3).
     \<lparr>NetworkTelemetry_Address = c1, NetworkTelemetry_ResourceID = c2, NetworkTelemetry_ResourceType = c3\<rparr>)"

definition NetworkTelemetry_DeepCopyInto :: "('x, addr option NetworkTelemetry) copy_fn" where
  "NetworkTelemetry_DeepCopyInto inp h =
     and_then (string_cp (NetworkTelemetry_Address inp) h) (\<lambda>(c1, h).
     and_then (string_cp (NetworkTelemetry_ResourceID inp) h) (\<lambda>(c2, h).
     and_then (string_cp (NetworkTelemetry_ResourceType inp) h) (\<lambda>(c3, h).
       Ret (inp\<lparr>NetworkTelemetry_Address := c1, NetworkTelemetry_ResourceID := c2,
              NetworkTelemetry_ResourceType := c3\<rparr>, h))))"

definition NetworkTelemetry_DeepCopy :: "('x, addr option) copy_fn" where
  "NetworkTelemetry_DeepCopy =
     struct_DeepCopy pack3 unpack3 NetworkTelemetry_fields NetworkTelemetry_of NetworkTelemetry_DeepCopyInto"

definition NetworkTelemetry_copier where
  "NetworkTelemetry_copier = struct_c NetworkTelemetry_fields NetworkTelemetry_of
     (pair_c string_c (pair_c string_c string_c))
     NetworkTelemetry_DeepCopyInto"

lemma NetworkTelemetry_written:
  "m\<lparr>NetworkTelemetry_Address := c1, NetworkTelemetry_ResourceID := c2,
      NetworkTelemetry_ResourceType := c3\<rparr> = NetworkTelemetry_of (c1, c2, c3)"
  by (cases m) (simp add: NetworkTelemetry_of_def)

lemma NetworkTelemetry_copied [generated_copies]:
  "deeply NetworkTelemetry_copier (struct_un unpack3 NetworkTelemetry_of) NetworkTelemetry_DeepCopy"
  unfolding NetworkTelemetry_copier_def NetworkTelemetry_DeepCopy_def
  by (rule struct_deeply, intro copier_intros)
    (auto simp: NetworkTelemetry_DeepCopyInto_def NetworkTelemetry_written NetworkTelemetry_fields_def NetworkTelemetry_of_def into_defs)

section \<open>\<open>PathComponent\<close>\<close>

record 's PathComponent =
  PathComponent_DestinationCIDRBlock :: 's

definition PathComponent_fields :: "'s PathComponent \<Rightarrow> 's" where
  "PathComponent_fields m = PathComponent_DestinationCIDRBlock m"

definition PathComponent_of :: "'s \<Rightarrow> 's PathComponent" where
  "PathComponent_of c1 = \<lparr>PathComponent_DestinationCIDRBlock = c1\<rparr>"

definition PathComponent_DeepCopyInto :: "('x, addr option PathComponent) copy_fn" where
  "PathComponent_DeepCopyInto inp h =
     and_then (string_cp (PathComponent_DestinationCIDRBlock inp) h) (\<lambda>(c1, h).
       Ret (inp\<lparr>PathComponent_DestinationCIDRBlock := c1\<rparr>, h))"

definition PathComponent_DeepCopy :: "('x, addr option) copy_fn" where
  "PathComponent_DeepCopy =
     struct_DeepCopy pack1 unpack1 PathComponent_fields PathComponent_of PathComponent_DeepCopyInto"

definition PathComponent_copier where
  "PathComponent_copier = struct_c PathComponent_fields PathComponent_of
     string_c
     PathComponent_DeepCopyInto"

lemma PathComponent_written:
  "m\<lparr>PathComponent_DestinationCIDRBlock := c1\<rparr> = PathComponent_of c1"
  by (cases m) (simp add: PathComponent_of_def)

lemma PathComponent_copied [generated_copies]:
  "deeply PathComponent_copier (struct_un unpack1 PathComponent_of) PathComponent_DeepCopy"
  unfolding PathComponent_copier_def PathComponent_DeepCopy_def
  by (rule struct_deeply, intro copier_intros)
    (auto simp: PathComponent_DeepCopyInto_def PathComponent_written PathComponent_fields_def PathComponent_of_def into_defs)

section \<open>\<open>Relationship\<close>\<close>

record 's Relationship =
  Relationship_From :: 's
  Relationship_To :: 's

definition Relationship_fields :: "'s Relationship \<Rightarrow> 's \<times> 's" where
  "Relationship_fields m = (Relationship_From m, Relationship_To m)"

definition Relationship_of :: "'s \<times> 's \<Rightarrow> 's Relationship" where
  "Relationship_of = (\<lambda>(c1, c2).
     \<lparr>Relationship_From = c1, Relationship_To = c2\<rparr>)"

definition Relationship_DeepCopyInto :: "('x, addr option Relationship) copy_fn" where
  "Relationship_DeepCopyInto inp h =
     and_then (string_cp (Relationship_From inp) h) (\<lambda>(c1, h).
     and_then (string_cp (Relationship_To inp) h) (\<lambda>(c2, h).
       Ret (inp\<lparr>Relationship_From := c1, Relationship_To := c2\<rparr>, h)))"

definition Relationship_DeepCopy :: "('x, addr option) copy_fn" where
  "Relationship_DeepCopy =
     struct_DeepCopy pack2 unpack2 Relationship_fields Relationship_of Relationship_DeepCopyInto"

definition Relationship_copier where
  "Relationship_copier = struct_c Relationship_fields Relationship_of
     (pair_c string_c string_c)
     Relationship_DeepCopyInto"

lemma Relationship_written:
  "m\<lparr>Relationship_From := c1, Relationship_To := c2\<rparr> = Relationship_of (c1, c2)"
  by (cases m) (simp add: Relationship_of_def)

lemma Relationship_copied [generated_copies]:
  "deeply Relationship_copier (struct_un unpack2 Relationship_of) Relationship_DeepCopy"
  unfolding Relationship_copier_def Relationship_DeepCopy_def
  by (rule struct_deeply, intro copier_intros)
    (auto simp: Relationship_DeepCopyInto_def Relationship_written Relationship_fields_def Relationship_of_def into_defs)

section \<open>\<open>RouteAnalysis\<close>\<close>

record ('s, 't) RouteAnalysis =
  RouteAnalysis_GlobalNetworkID :: 's
  RouteAnalysis_RouteAnalysisID :: 's
  RouteAnalysis_StartTimestamp :: 't

definition RouteAnalysis_fields :: "('s, 't) RouteAnalysis \<Rightarrow> 's \<times> 's \<times> 't" where
  "RouteAnalysis_fields m = (RouteAnalysis_GlobalNetworkID m, RouteAnalysis_RouteAnalysisID m,
     RouteAnalysis_StartTimestamp m)"

definition RouteAnalysis_of :: "'s \<times> 's \<times> 't \<Rightarrow> ('s, 't) RouteAnalysis" where
  "RouteAnalysis_of = (\<lambda>(c1, c2, c3).
     \<lparr>RouteAnalysis_GlobalNetworkID = c1, RouteAnalysis_RouteAnalysisID = c2,
     RouteAnalysis_StartTimestamp = c3\<rparr>)"

definition RouteAnalysis_DeepCopyInto :: "'x ext \<Rightarrow> ('x, (addr option, addr option) RouteAnalysis) copy_fn" where
  "RouteAnalysis_DeepCopyInto E inp h =
     and_then (string_cp (RouteAnalysis_GlobalNetworkID inp) h) (\<lambda>(c1, h).
     and_then (string_cp (RouteAnalysis_RouteAnalysisID inp) h) (\<lambda>(c2, h).
     and_then (time_cp E (RouteAnalysis_StartTimestamp inp) h) (\<lambda>(c3, h).
       Ret (inp\<lparr>RouteAnalysis_GlobalNetworkID := c1, RouteAnalysis_RouteAnalysisID := c2,
              RouteAnalysis_StartTimestamp := c3\<rparr>, h))))"

definition RouteAnalysis_DeepCopy :: "'x ext \<Rightarrow> ('x, addr option) copy_fn" where
  "RouteAnalysis_DeepCopy E =
     struct_DeepCopy pack3 unpack3 RouteAnalysis_fields RouteAnalysis_of (RouteAnalysis_DeepCopyInto E)"

definition RouteAnalysis_copier where
  "RouteAnalysis_copier E = struct_c RouteAnalysis_fields RouteAnalysis_of
     (pair_c string_c (pair_c string_c (time_c E)))
     (RouteAnalysis_DeepCopyInto E)"

lemma RouteAnalysis_written:
  "m\<lparr>RouteAnalysis_GlobalNetworkID := c1, RouteAnalysis_RouteAnalysisID := c2,
      RouteAnalysis_StartTimestamp := c3\<rparr> = RouteAnalysis_of (c1, c2, c3)"
  by (cases m) (simp add: RouteAnalysis_of_def)

lemma RouteAnalysis_copied [generated_copies]:
  "ext_ok E \<Longrightarrow> deeply (RouteAnalysis_copier E) (struct_un unpack3 RouteAnalysis_of) (RouteAnalysis_DeepCopy E)"
  unfolding RouteAnalysis_copier_def RouteAnalysis_DeepCopy_def
  by (rule struct_deeply, intro copier_intros)
    (auto simp: RouteAnalysis_DeepCopyInto_def RouteAnalysis_written RouteAnalysis_fields_def RouteAnalysis_of_def into_defs)

section \<open>\<open>RoutingInformationNextHop\<close>\<close>

record 's RoutingInformationNextHop =
  RoutingInformationNextHop_CoreNetworkAttachmentID :: 's
  RoutingInformationNextHop_ResourceID :: 's
  RoutingInformationNextHop_ResourceType :: 's
  RoutingInformationNextHop_SegmentName :: 's

definition RoutingInformationNextHop_fields :: "'s RoutingInformationNextHop \<Rightarrow> 's \<times> 's \<times> 's \<times> 's" where
  "RoutingInformationNextHop_fields m = (RoutingInformationNextHop_CoreNetworkAttachmentID m,
     RoutingInformationNextHop_ResourceID m, RoutingInformationNextHop_ResourceType m,
     RoutingInformationNextHop_SegmentName m)"

definition RoutingInformationNextHop_of :: "'s \<times> 's \<times> 's \<times> 's \<Rightarrow> 's RoutingInformationNextHop" where
  "RoutingInformationNextHop_of = (\<lambda>(c1, c2, c3, c4).
     \<lparr>RoutingInformationNextHop_CoreNetworkAttachmentID = c1, RoutingInformationNextHop_ResourceID = c2,
     RoutingInformationNextHop_ResourceType = c3, RoutingInformationNextHop_SegmentName = c4\<rparr>)"

definition RoutingInformationNextHop_DeepCopyInto :: "('x, addr option RoutingInformationNextHop) copy_fn" where
  "RoutingInformationNextHop_DeepCopyInto inp h =
     and_then (string_cp (RoutingInformationNextHop_CoreNetworkAttachmentID inp) h) (\<lambda>(c1, h).
     and_then (string_cp (RoutingInformationNextHop_ResourceID inp) h) (\<lambda>(c2, h).
     and_then (string_cp (RoutingInformationNextHop_ResourceType inp) h) (\<lambda>(c3, h).
     and_then (string_cp (RoutingInformationNextHop_SegmentName inp) h) (\<lambda>(c4, h).
       Ret (inp\<lparr>RoutingInformationNextHop_CoreNetworkAttachmentID := c1,
              RoutingInformationNextHop_ResourceID := c2,
              RoutingInformationNextHop_ResourceType := c3,
              RoutingInformationNextHop_SegmentName := c4\<rparr>, h)))))"

definition RoutingInformationNextHop_DeepCopy :: "('x, addr option) copy_fn" where
  "RoutingInformationNextHop_DeepCopy =
     struct_DeepCopy pack4 unpack4 RoutingInformationNextHop_fields RoutingInformationNextHop_of RoutingInformationNextHop_DeepCopyInto"

definition RoutingInformationNextHop_copier where
  "RoutingInformationNextHop_copier = struct_c RoutingInformationNextHop_fields RoutingInformationNextHop_of
     (pair_c string_c (pair_c string_c (pair_c string_c string_c)))
     RoutingInformationNextHop_DeepCopyInto"

lemma RoutingInformationNextHop_written:
  "m\<lparr>RoutingInformationNextHop_CoreNetworkAttachmentID := c1,
      RoutingInformationNextHop_ResourceID := c2, RoutingInformationNextHop_ResourceType := c3,
      RoutingInformationNextHop_SegmentName := c4\<rparr> = RoutingInformationNextHop_of (c1, c2, c3, c4)"
  by (cases m) (simp add: RoutingInformationNextHop_of_def)

lemma RoutingInformationNextHop_copied [generated_copies]:
  "deeply RoutingInformationNextHop_copier (struct_un unpack4 RoutingInformationNextHop_of) RoutingInformationNextHop_DeepCopy"
  unfolding RoutingInformationNextHop_copier_def RoutingInformationNextHop_DeepCopy_def
  by (rule struct_deeply, intro copier_intros)
    (auto simp: RoutingInformationNextHop_DeepCopyInto_def RoutingInformationNextHop_written RoutingInformationNextHop_fields_def RoutingInformationNextHop_of_def into_defs)

end
