(* ===== verification/GeneratedCopies.thy ===== *)
theory GeneratedCopies
  imports HeapCopy CoreNetworkCopies SiteCopies RouteCopies
begin

text \<open>
  The generated copies of all structs of the package together.
\<close>

section \<open>Properties\<close>

text \<open>
  C18: Every generated \<open>DeepCopy\<close> of the package copies deeply. For each of the 47 structs beside
  \<open>Tag\<close>, on every heap in which the pointer reads as a struct with its texts, times and slice of
  tags, it returns a new struct that reads the same (nil for nil), has no cell in common with
  the original, and neither changes its value when the cells of the other do.
\<close>

theorem generated_copies_deep:
  assumes "ext_ok E"
  shows "deeply AWSLocation_copier (struct_un unpack1 AWSLocation_of) AWSLocation_DeepCopy \<and>
    deeply (Attachment_copier E) (struct_un unpack4 Attachment_of) (Attachment_DeepCopy E) \<and>
    deeply AttachmentRoutingPolicyAssociationSummary_copier (struct_un unpack1 AttachmentRoutingPolicyAssociationSummary_of) AttachmentRoutingPolicyAssociationSummary_DeepCopy \<and>
    deeply (ConnectPeer_copier E) (struct_un unpack2 ConnectPeer_of) (ConnectPeer_DeepCopy E) \<and>
    deeply ConnectPeerAssociation_copier (struct_un unpack1 ConnectPeerAssociation_of) ConnectPeerAssociation_DeepCopy \<and>
    deeply (ConnectPeerSummary_copier E) (struct_un unpack2 ConnectPeerSummary_of) (ConnectPeerSummary_DeepCopy E) \<and>
    deeply (Connection_copier E) (struct_un unpack4 Connection_of) (Connection_DeepCopy E) \<and>
    deeply (ConnectionHealth_copier E) (struct_un unpack1 ConnectionHealth_of) (ConnectionHealth_DeepCopy E) \<and>
    deeply (CoreNetwork_copier E) (struct_un unpack4 CoreNetwork_of) (CoreNetwork_DeepCopy E) \<and>
    deeply CoreNetworkChange_copier (struct_un unpack2 CoreNetworkChange_of) CoreNetworkChange_DeepCopy \<and>
    deeply (CoreNetworkChangeEvent_copier E) (struct_un unpack2 CoreNetworkChangeEvent_of) (CoreNetworkChangeEvent_DeepCopy E) \<and>
    deeply CoreNetworkChangeEventValues_copier (struct_un unpack3 CoreNetworkChangeEventValues_of) CoreNetworkChangeEventValues_DeepCopy \<and>
    deeply CoreNetworkChangeValues_copier (struct_un unpack5 CoreNetworkChangeValues_of) CoreNetworkChangeValues_DeepCopy \<and>
    deeply CoreNetworkNetworkFunctionGroup_copier (struct_un unpack1 CoreNetworkNetworkFunctionGroup_of) CoreNetworkNetworkFunctionGroup_DeepCopy \<and>
    deeply CoreNetworkNetworkFunctionGroupIdentifier_copier (struct_un unpack1 CoreNetworkNetworkFunctionGroupIdentifier_of) CoreNetworkNetworkFunctionGroupIdentifier_DeepCopy \<and>
    deeply (CoreNetworkPolicy_copier E) (struct_un unpack2 CoreNetworkPolicy_of) (CoreNetworkPolicy_DeepCopy E) \<and>
    deeply (CoreNetworkPolicyVersion_copier E) (struct_un unpack2 CoreNetworkPolicyVersion_of) (CoreNetworkPolicyVersion_DeepCopy E) \<and>
    deeply CoreNetworkRoutingInformation_copier (struct_un unpack3 CoreNetworkRoutingInformation_of) CoreNetworkRoutingInformation_DeepCopy \<and>
    deeply CoreNetworkSegment_copier (struct_un unpack1 CoreNetworkSegment_of) CoreNetworkSegment_DeepCopy \<and>
    deeply CoreNetworkSegmentEdgeIdentifier_copier (struct_un unpack1 CoreNetworkSegmentEdgeIdentifier_of) CoreNetworkSegmentEdgeIdentifier_DeepCopy \<and>
    deeply CoreNetworkSummary_copier (struct_un unpack3 CoreNetworkSummary_of) CoreNetworkSummary_DeepCopy \<and>
    deeply CustomerGatewayAssociation_copier (struct_un unpack1 CustomerGatewayAssociation_of) CustomerGatewayAssociation_DeepCopy \<and>
    deeply (Device_copier E) (struct_un unpack8 Device_of) (Device_DeepCopy E) \<and>
    deeply EdgeOverride_copier (struct_un unpack1 EdgeOverride_of) EdgeOverride_DeepCopy \<and>
    deeply (GlobalNetwork_SDK_copier E) (struct_un unpack6 GlobalNetwork_SDK_of) (GlobalNetwork_SDK_DeepCopy E) \<and>
    deeply (Link_copier E) (struct_un unpack6 Link_of) (Link_DeepCopy E) \<and>
    deeply LinkAssociation_copier (struct_un unpack1 LinkAssociation_of) LinkAssociation_DeepCopy \<and>
    deeply Location_copier (struct_un unpack3 Location_of) Location_DeepCopy \<and>
    deeply NetworkFunctionGroup_copier (struct_un unpack1 NetworkFunctionGroup_of) NetworkFunctionGroup_DeepCopy \<and>
    deeply (NetworkResource_copier E) (struct_un unpack5 NetworkResource_of) (NetworkResource_DeepCopy E) \<and>
    deeply NetworkResourceCount_copier (struct_un unpack1 NetworkResourceCount_of) NetworkResourceCount_DeepCopy \<and>
    deeply NetworkResourceSummary_copier (struct_un unpack3 NetworkResourceSummary_of) NetworkResourceSummary_DeepCopy \<and>
    deeply NetworkRoute_copier (struct_un unpack2 NetworkRoute_of) NetworkRoute_DeepCopy \<and>
    deeply NetworkRouteDestination_copier (struct_un unpack4 NetworkRouteDestination_of) NetworkRouteDestination_DeepCopy \<and>
    deeply NetworkTelemetry_copier (struct_un unpack3 NetworkTelemetry_of) NetworkTelemetry_DeepCopy \<and>
    deeply PathComponent_copier (struct_un unpack1 PathComponent_of) PathComponent_DeepCopy \<and>
    deeply (Peering_copier E) (struct_un unpack2 Peering_of) (Peering_DeepCopy E) \<and>
    deeply PrefixListAssociation_copier (struct_un unpack1 PrefixListAssociation_of) PrefixListAssociation_DeepCopy \<and>
    deeply ProposedNetworkFunctionGroupChange_copier (struct_un unpack2 ProposedNetworkFunctionGroupChange_of) ProposedNetworkFunctionGroupChange_DeepCopy \<and>
    deeply ProposedSegmentChange_copier (struct_un unpack2 ProposedSegmentChange_of) ProposedSegmentChange_DeepCopy \<and>
    deeply Relationship_copier (struct_un unpack2 Relationship_of) Relationship_DeepCopy \<and>
    deeply (RouteAnalysis_copier E) (struct_un unpack3 RouteAnalysis_of) (RouteAnalysis_DeepCopy E) \<and>
    deeply RoutingInformationNextHop_copier (struct_un unpack4 RoutingInformationNextHop_of) RoutingInformationNextHop_DeepCopy \<and>
    deeply (Site_copier E) (struct_un unpack4 Site_of) (Site_DeepCopy E) \<and>
    deeply TransitGatewayConnectPeerAssociation_copier (struct_un unpack1 TransitGatewayConnectPeerAssociation_of) TransitGatewayConnectPeerAssociation_DeepCopy \<and>
    deeply TransitGatewayRegistration_copier (struct_un unpack1 TransitGatewayRegistration_of) TransitGatewayRegistration_DeepCopy \<and>
    deeply TransitGatewayRegistrationStateReason_copier (struct_un unpack1 TransitGatewayRegistrationStateReason_of) TransitGatewayRegistrationStateReason_DeepCopy"
  by (intro conjI generated_copies assms)

end
