(* ===== verification/SeparateCopy.thy ===== *)
theory SeparateCopy
  imports HeapCopy
begin

text \<open>
  A generated copy is a tree: whatever the original shares (one tag twice in a list, one string
  in two fields), no cell of the copy is reached in two ways. \<open>HeapCopy\<close> says that a copy has
  no cell of the original; this theory says it of the parts of the copy among each other. The locale
  \<open>separate_copy\<close> extends \<open>deep_copy\<close> by the promise, and pointers, arrays, pairs and structs keep it.
\<close>

section \<open>The contract\<close>

locale separate_copy = deep_copy rd rc cp
  for rd :: "'x heap \<Rightarrow> 'p \<Rightarrow> 'v option" and rc cp +
  fixes apart :: "'x heap \<Rightarrow> 'p \<Rightarrow> bool"
  assumes apart_local: "rd h p = Some v \<Longrightarrow> (\<And>a. a \<in> rc h p \<Longrightarrow> cells h' a = cells h a) \<Longrightarrow>
      apart h p \<Longrightarrow> apart h' p"
    and cp_apart: "heap_ok h \<Longrightarrow> rd h p = Some v \<Longrightarrow> cp p h = Ret (p', h') \<Longrightarrow> apart h' p'"
begin

lemma apart_extends:
  assumes "heap_ok h" and "rd h p = Some v" and "extends h h'" and "apart h p"
  shows "apart h' p"
  using rc_bound [OF assms(1,2)] assms(3) by (intro apart_local [OF assms(2) _ assms(4)]) (auto simp: extends_def)

end

text \<open>A part whose inside does not matter.\<close>

definition whole :: "'x heap \<Rightarrow> 'p \<Rightarrow> bool" where "whole h p = True"

lemma separate_whole: "deep_copy rd rc cp \<Longrightarrow> separate_copy rd rc cp whole"
  by (simp add: separate_copy_def separate_copy_axioms_def whole_def)

section \<open>They keep it\<close>

definition ptr_apart ::
  "('x cell \<Rightarrow> 'c option) \<Rightarrow> ('x heap \<Rightarrow> 'c \<Rightarrow> addr set) \<Rightarrow> ('x heap \<Rightarrow> 'c \<Rightarrow> bool) \<Rightarrow> 'x heap \<Rightarrow> addr option \<Rightarrow> bool" where
  "ptr_apart un rc apart h p \<longleftrightarrow>
     (\<forall>a c. p = Some a \<longrightarrow> Option.bind (cells h a) un = Some c \<longrightarrow> a \<notin> rc h c \<and> apart h c)"

lemma separate_ptr:
  fixes rd :: "'x heap \<Rightarrow> 'c \<Rightarrow> 'v option"
  assumes s: "separate_copy rd rc cp apart" and un: "\<And>c. un (mk c) = Some c"
  shows "separate_copy (ptr_rd un rd) (ptr_rc un rc) (ptr_cp un mk cp) (ptr_apart un rc apart)"
proof -
  have d: "deep_copy rd rc cp" using s by (rule separate_copy.axioms)
  show ?thesis
  proof (intro separate_copy.intro deep_copy_ptr [OF d un] separate_copy_axioms.intro)
    fix h h' :: "'x heap" and p v
    assume v: "ptr_rd un rd h p = Some v" and same: "\<And>a. a \<in> ptr_rc un rc h p \<Longrightarrow> cells h' a = cells h a"
      and apart: "ptr_apart un rc apart h p"
    show "ptr_apart un rc apart h' p"
      unfolding ptr_apart_def
    proof (intro allI impI)
      fix a c
      assume p: "p = Some a" and c: "Option.bind (cells h' a) un = Some c"
      obtain c0 u where c0: "Option.bind (cells h a) un = Some c0" "rd h c0 = Some u"
        using v p by (auto simp: ptr_rd_def bind_eq_Some_conv)
      have rc: "ptr_rc un rc h p = insert a (rc h c0)" by (simp add: ptr_rc_def p c0(1))
      with same have "cells h' a = cells h a" by simp
      with c c0(1) have [simp]: "c0 = c" by simp
      have old: "a \<notin> rc h c" "apart h c" using apart p c0(1) by (simp_all add: ptr_apart_def)
      have inner: "cells h' x = cells h x" if "x \<in> rc h c" for x using same rc that by simp
      have "rc h' c = rc h c" using deep_copy.rd_local [OF d c0(2) [simplified], of h'] inner by simp
      moreover have "apart h' c" by (rule separate_copy.apart_local [OF s c0(2) [simplified] inner old(2)])
      ultimately show "a \<notin> rc h' c \<and> apart h' c" using old by simp
    qed
  next
    fix h h' :: "'x heap" and p v p'
    assume ok: "heap_ok h" and v: "ptr_rd un rd h p = Some v" and run: "ptr_cp un mk cp p h = Ret (p', h')"
    show "ptr_apart un rc apart h' p'"
    proof (cases p)
      case None
      with run show ?thesis by (simp add: ptr_cp_def ptr_apart_def)
    next
      case (Some a)
      with v obtain c u where c: "Option.bind (cells h a) un = Some c" "rd h c = Some u"
        by (auto simp: ptr_rd_def bind_eq_Some_conv)
      let ?b = "next_addr h" and ?h1 = "snd (alloc ZeroCell h)"
      note h1 = alloc_law [OF ok, of ZeroCell]
      have "cells h a \<noteq> None" using c(1) by (auto simp: bind_eq_Some_conv)
      then have "a < next_addr h" using ok by (simp add: heap_ok_def)
      then have c1: "Option.bind (cells ?h1 a) un = Some c" using c(1) by simp
      have "rd ?h1 c = Some u" using deep_copy.rd_extends [OF d ok c(2) h1(1)] by simp
      then obtain c' h2 where h2: "cp c ?h1 = Ret (c', h2)" "extends ?h1 h2" "heap_ok h2" "rd h2 c' = Some u"
        "rc h2 c' \<subseteq> {next_addr ?h1..<next_addr h2}"
        using deep_copy.cp_law [OF d h1(2)] by blast
      have p': "p' = Some ?b" and h': "h' = store ?b (mk c') h2"
        using run c1 h2(1) by (simp_all add: ptr_cp_def Some alloc_def)
      have same: "cells h' x = cells h2 x" if "x \<in> rc h2 c'" for x using that h2(5) h' by auto
      have "rc h' c' = rc h2 c'" using deep_copy.rd_local [OF d h2(4), of h'] same by simp
      moreover have "apart h2 c'" by (rule separate_copy.cp_apart [OF s h1(2) \<open>rd ?h1 c = Some u\<close> h2(1)])
      then have "apart h' c'" using separate_copy.apart_local [OF s h2(4), of h'] same by blast
      ultimately show ?thesis using h2(5) by (auto simp: ptr_apart_def p' h' un)
    qed
  qed
qed

definition pair_apart ::
  "('x heap \<Rightarrow> 'p \<Rightarrow> addr set) \<Rightarrow> ('x heap \<Rightarrow> 'p \<Rightarrow> bool) \<Rightarrow> ('x heap \<Rightarrow> 'q \<Rightarrow> addr set) \<Rightarrow> ('x heap \<Rightarrow> 'q \<Rightarrow> bool) \<Rightarrow>
   'x heap \<Rightarrow> 'p \<times> 'q \<Rightarrow> bool" where
  "pair_apart rc1 apart1 rc2 apart2 h pq \<longleftrightarrow>
     rc1 h (fst pq) \<inter> rc2 h (snd pq) = {} \<and> apart1 h (fst pq) \<and> apart2 h (snd pq)"

lemma separate_pair:
  fixes rd1 :: "'x heap \<Rightarrow> 'p \<Rightarrow> 'v option"
  assumes s1: "separate_copy rd1 rc1 cp1 apart1" and s2: "separate_copy rd2 rc2 cp2 apart2"
  shows "separate_copy (pair_rd rd1 rd2) (pair_rc rc1 rc2) (pair_cp cp1 cp2) (pair_apart rc1 apart1 rc2 apart2)"
proof -
  have d1: "deep_copy rd1 rc1 cp1" and d2: "deep_copy rd2 rc2 cp2" using s1 s2 by (simp_all add: separate_copy.axioms)
  show ?thesis
  proof (intro separate_copy.intro deep_copy_pair [OF d1 d2] separate_copy_axioms.intro)
    fix h h' :: "'x heap" and p v
    assume v: "pair_rd rd1 rd2 h p = Some v" and same: "\<And>a. a \<in> pair_rc rc1 rc2 h p \<Longrightarrow> cells h' a = cells h a"
      and apart: "pair_apart rc1 apart1 rc2 apart2 h p"
    obtain u w where u: "rd1 h (fst p) = Some u" "rd2 h (snd p) = Some w"
      using v by (auto simp: pair_rd_def split: option.splits)
    have same1: "\<And>a. a \<in> rc1 h (fst p) \<Longrightarrow> cells h' a = cells h a" and same2: "\<And>a. a \<in> rc2 h (snd p) \<Longrightarrow> cells h' a = cells h a"
      using same by (simp_all add: pair_rc_def)
    from apart deep_copy.rd_local [OF d1 u(1) same1] deep_copy.rd_local [OF d2 u(2) same2]
      separate_copy.apart_local [OF s1 u(1) same1] separate_copy.apart_local [OF s2 u(2) same2]
    show "pair_apart rc1 apart1 rc2 apart2 h' p" by (simp add: pair_apart_def)
  next
    fix h h' :: "'x heap" and p v p'
    assume ok: "heap_ok h" and v: "pair_rd rd1 rd2 h p = Some v" and run: "pair_cp cp1 cp2 p h = Ret (p', h')"
    obtain u w where u: "rd1 h (fst p) = Some u" "rd2 h (snd p) = Some w"
      using v by (auto simp: pair_rd_def split: option.splits)
    obtain p1 h1 where h1: "cp1 (fst p) h = Ret (p1, h1)" "extends h h1" "heap_ok h1" "rd1 h1 p1 = Some u"
      "rc1 h1 p1 \<subseteq> {next_addr h..<next_addr h1}"
      using deep_copy.cp_law [OF d1 ok u(1)] by blast
    have w: "rd2 h1 (snd p) = Some w" using deep_copy.rd_extends [OF d2 ok u(2) h1(2)] by simp
    then obtain p2 h2 where h2: "cp2 (snd p) h1 = Ret (p2, h2)" "extends h1 h2" "rc2 h2 p2 \<subseteq> {next_addr h1..<next_addr h2}"
      using deep_copy.cp_law [OF d2 h1(3)] by blast
    have p': "p' = (p1, p2)" "h' = h2" using run h1(1) h2(1) by (simp_all add: pair_cp_def)
    have "rc1 h2 p1 = rc1 h1 p1" using deep_copy.rd_extends [OF d1 h1(3,4) h2(2)] by simp
    then have "rc1 h2 p1 \<inter> rc2 h2 p2 = {}" using h1(5) h2(3) by fastforce
    moreover have "apart1 h2 p1"
      by (rule separate_copy.apart_extends [OF s1 h1(3,4) h2(2) separate_copy.cp_apart [OF s1 ok u(1) h1(1)]])
    moreover have "apart2 h2 p2" by (rule separate_copy.cp_apart [OF s2 h1(3) w h2(1)])
    ultimately show "pair_apart rc1 apart1 rc2 apart2 h' p'" by (simp add: pair_apart_def p')
  qed
qed

lemma separate_map:
  fixes rd' :: "'x heap \<Rightarrow> 'p \<Rightarrow> 'v option"
  assumes s: "separate_copy rd rc cp apart" and fg: "\<And>t. f (g t) = t"
    and rd': "\<And>h p. rd' h p = map_option k (rd h (f p))" and rc': "\<And>h p. rc' h p = rc h (f p)"
    and cp': "\<And>p h. cp' p h = and_then (cp (f p) h) (\<lambda>(t, h). Ret (g t, h))"
  shows "separate_copy rd' rc' cp' (\<lambda>h p. apart h (f p))"
proof (intro separate_copy.intro deep_copy_map [OF separate_copy.axioms(1) [OF s] fg rd' rc' cp'] separate_copy_axioms.intro)
  fix h h' :: "'x heap" and p v
  assume "rd' h p = Some v" and "\<And>a. a \<in> rc' h p \<Longrightarrow> cells h' a = cells h a" and "apart h (f p)"
  then show "apart h' (f p)" using separate_copy.apart_local [OF s, of h "f p" _ h'] by (auto simp: rd' rc')
next
  fix h h' :: "'x heap" and p v p'
  assume "heap_ok h" and "rd' h p = Some v" and "cp' p h = Ret (p', h')"
  then show "apart h' (f p')" using separate_copy.cp_apart [OF s, of h "f p"] by (auto simp: rd' cp' fg outcome_simps)
qed

section \<open>Arrays\<close>

definition elems_apart ::
  "('x heap \<Rightarrow> 'e \<Rightarrow> addr set) \<Rightarrow> ('x heap \<Rightarrow> 'e \<Rightarrow> bool) \<Rightarrow> 'x heap \<Rightarrow> 'e list \<Rightarrow> bool" where
  "elems_apart rc apart h es \<longleftrightarrow> (\<forall>e \<in> set es. apart h e) \<and>
     (\<forall>i j. i < j \<longrightarrow> j < length es \<longrightarrow> rc h (es ! i) \<inter> rc h (es ! j) = {})"

definition array_apart ::
  "('x cell \<Rightarrow> 'e list option) \<Rightarrow> ('x heap \<Rightarrow> 'e \<Rightarrow> addr set) \<Rightarrow> ('x heap \<Rightarrow> 'e \<Rightarrow> bool) \<Rightarrow>
   'x heap \<Rightarrow> addr option \<Rightarrow> bool" where
  "array_apart un rc apart h p \<longleftrightarrow>
     (\<forall>b es. p = Some b \<longrightarrow> Option.bind (cells h b) un = Some es \<longrightarrow>
        (\<forall>e \<in> set es. b \<notin> rc h e) \<and> elems_apart rc apart h es)"

lemma elems_apart_kept:
  assumes s: "separate_copy rd rc cp apart" and es: "\<forall>e \<in> set es. rd h e \<noteq> None"
    and same: "\<forall>e \<in> set es. \<forall>a \<in> rc h e. cells h' a = cells h a" and apart: "elems_apart rc apart h es"
  shows "elems_apart rc apart h' es" and "\<And>e. e \<in> set es \<Longrightarrow> rc h' e = rc h e"
proof -
  show kept: "rc h' e = rc h e" if "e \<in> set es" for e
    using deep_copy.rd_local [OF separate_copy.axioms(1) [OF s], of h e _ h'] es same that by blast
  have "apart h' e" if e: "e \<in> set es" for e
  proof -
    obtain v where "rd h e = Some v" using es e by blast
    then show ?thesis
      by (rule separate_copy.apart_local [OF s]) (use same apart e in \<open>simp_all add: elems_apart_def\<close>)
  qed
  with kept apart show "elems_apart rc apart h' es" by (simp add: elems_apart_def)
qed

lemma elems_apart_skip:
  "elems_apart rc apart h es \<Longrightarrow> apart h e \<Longrightarrow> rc h e = {} \<Longrightarrow> elems_apart rc apart h (es @ [e])"
  by (auto simp: elems_apart_def nth_append less_Suc_eq)

lemma elems_apart_copy:
  fixes rd :: "'x heap \<Rightarrow> 'e \<Rightarrow> 'v option"
  assumes s: "separate_copy rd rc cp apart" and inv: "loop_inv un rd rc h0 b pre (z # rest) us h"
    and pre: "elems_apart rc apart h pre" and v: "rd h e = Some v" and run: "cp e h = Ret (e', h1)"
  shows "elems_apart rc apart (array_set un mk b i e' h1) (pre @ [e'])"
proof -
  have d: "deep_copy rd rc cp" using s by (rule separate_copy.axioms)
  have ok: "heap_ok h" and b: "b < next_addr h0" "next_addr h0 \<le> next_addr h"
    and old: "list_all2 (\<lambda>e v. rd h e = Some v \<and> rc h e \<subseteq> {next_addr h0..<next_addr h}) pre us"
    using inv by (simp_all add: loop_inv_def)
  have e': "extends h h1" "rd h1 e' = Some v" "rc h1 e' \<subseteq> {next_addr h..<next_addr h1}"
    using deep_copy.cp_law [OF d ok v] run by auto
  let ?h2 = "array_set un mk b i e' h1"
  have h2: "cells ?h2 a = cells h1 a" if "a \<noteq> b" for a using that by (simp add: array_set_def split: option.split)
  have elem: "rd h x \<noteq> None" "rc h x \<subseteq> {next_addr h0..<next_addr h}" if "x \<in> set pre" for x
    using list_all2_member [OF old that] by auto
  have "cells ?h2 a = cells h a" if "x \<in> set pre" "a \<in> rc h x" for a x
  proof -
    have "next_addr h0 \<le> a" "a < next_addr h" using elem(2) [OF that(1)] that(2) by auto
    then show ?thesis using h2 [of a] b e'(1) by (simp add: extends_def)
  qed
  then have kept: "elems_apart rc apart ?h2 pre" "\<And>x. x \<in> set pre \<Longrightarrow> rc ?h2 x = rc h x"
    using elems_apart_kept [OF s, of pre h ?h2] elem(1) pre by blast+
  have new: "cells ?h2 a = cells h1 a" if "a \<in> rc h1 e'" for a using h2 that e'(3) b by fastforce
  have rc': "rc ?h2 e' = rc h1 e'" using deep_copy.rd_local [OF d e'(2), of ?h2] new by blast
  have "apart ?h2 e'"
    using separate_copy.apart_local [OF s e'(2), of ?h2] new separate_copy.cp_apart [OF s ok v run] by blast
  moreover have "rc ?h2 x \<inter> rc ?h2 e' = {}" if "x \<in> set pre" for x
    unfolding kept(2) [OF that] rc' using elem(2) [OF that] e'(3) by fastforce
  ultimately show ?thesis using kept(1)
    by (auto simp: elems_apart_def nth_append less_Suc_eq)
qed

lemma array_loop_apart:
  fixes rd :: "'x heap \<Rightarrow> 'e \<Rightarrow> 'v option"
  assumes s: "separate_copy rd rc cp apart" and un: "\<And>es. un (mk es) = Some es"
    and skip: "\<And>h h' e v. skip e \<Longrightarrow> rd h e = Some v \<Longrightarrow> rd h' zero = Some v \<and> rc h' zero = {}"
    and zero: "\<And>h. apart h zero"
    and "loop_inv un rd rc h0 b pre (replicate (length es) zero) us h" and "elems_apart rc apart h pre"
    and "list_all2 (\<lambda>e v. rd h0 e = Some v \<and> rc h0 e \<subseteq> {..<b}) es vs"
    and "array_loop un mk skip cp b (length pre) es h = Ret h'"
  shows "\<exists>es'. loop_inv un rd rc h0 b (pre @ es') [] (us @ vs) h' \<and> elems_apart rc apart h' (pre @ es')"
  using assms(5-)
proof (induction es arbitrary: h pre us vs)
  case Nil
  then show ?case by (intro exI [of _ "[]"]) simp
next
  case (Cons e es)
  have d: "deep_copy rd rc cp" using s by (rule separate_copy.axioms)
  from Cons.prems(3) obtain v ws where vs: "vs = v # ws" "rd h0 e = Some v" "rc h0 e \<subseteq> {..<b}"
    "list_all2 (\<lambda>e v. rd h0 e = Some v \<and> rc h0 e \<subseteq> {..<b}) es ws"
    by (auto simp: list_all2_Cons1)
  have inv: "loop_inv un rd rc h0 b pre (zero # replicate (length es) zero) us h" using Cons.prems(1) by simp
  show ?case
  proof (cases "skip e")
    case True
    note z = skip [OF True vs(2)]
    have "array_loop un mk skip cp b (length (pre @ [zero])) es h = Ret h'" using Cons.prems(4) True by simp
    from Cons.IH [OF loop_inv_skip [OF inv z [THEN conjunct1] z [THEN conjunct2]]
        elems_apart_skip [OF Cons.prems(2) zero z [THEN conjunct2]] vs(4) this]
    show ?thesis using vs(1) by (auto intro: exI [of _ "zero # _"])
  next
    case False
    obtain e' h1 where run: "cp e h = Ret (e', h1)" and
      step: "loop_inv un rd rc h0 b (pre @ [e']) (replicate (length es) zero) (us @ [v])
        (array_set un mk b (length pre) e' h1)"
      using loop_inv_copy [OF d un inv vs(2,3)] by blast
    have "rd h e = Some v"
      using inv vs(3) by (intro deep_copy.rd_local [OF d vs(2), THEN conjunct1]) (auto simp: loop_inv_def)
    note apart = elems_apart_copy [OF s inv Cons.prems(2) this run, of mk "length pre"]
    have "array_loop un mk skip cp b (length (pre @ [e'])) es (array_set un mk b (length pre) e' h1) = Ret h'"
      using Cons.prems(4) False run by simp
    from Cons.IH [OF step apart vs(4) this] show ?thesis using vs(1) by (auto intro: exI [of _ "e' # _"])
  qed
qed

lemma separate_array:
  fixes rd :: "'x heap \<Rightarrow> 'e \<Rightarrow> 'v option"
  assumes s: "separate_copy rd rc cp apart" and un: "\<And>es. un (mk es) = Some es"
    and skip: "\<And>h h' e v. skip e \<Longrightarrow> rd h e = Some v \<Longrightarrow> rd h' zero = Some v \<and> rc h' zero = {}"
    and zero: "\<And>h. apart h zero"
  shows "separate_copy (array_rd un rd) (array_rc un rc) (array_cp un mk skip zero cp) (array_apart un rc apart)"
proof -
  have d: "deep_copy rd rc cp" using s by (rule separate_copy.axioms)
  show ?thesis
  proof (intro separate_copy.intro separate_copy_axioms.intro)
    show "deep_copy (array_rd un rd) (array_rc un rc) (array_cp un mk skip zero cp)"
      by (rule deep_copy_array [OF d un]) (fact skip)
  next
    fix h h' :: "'x heap" and p v
    assume v: "array_rd un rd h p = Some v" and same: "\<And>a. a \<in> array_rc un rc h p \<Longrightarrow> cells h' a = cells h a"
      and apart: "array_apart un rc apart h p"
    show "array_apart un rc apart h' p"
      unfolding array_apart_def
    proof (intro allI impI)
      fix b es'
      assume p: "p = Some b" and es': "Option.bind (cells h' b) un = Some es'"
      obtain es us where es: "Option.bind (cells h b) un = Some es" "list_all2 (\<lambda>e v. rd h e = Some v) es us"
        "array_rc un rc h (Some b) = insert b (\<Union>e \<in> set es. rc h e)"
        using v unfolding p by (rule array_rd_Some)
      have "es' = es" using same [of b] es es' by (simp add: p)
      moreover have "rd h e \<noteq> None" if "e \<in> set es" for e using list_all2_member [OF es(2) that] by blast
      moreover have "cells h' a = cells h a" if "e \<in> set es" "a \<in> rc h e" for a e
        using same es(3) that by (auto simp: p)
      moreover have "(\<forall>e \<in> set es. b \<notin> rc h e) \<and> elems_apart rc apart h es"
        using apart es(1) by (simp add: array_apart_def p)
      ultimately show "(\<forall>e \<in> set es'. b \<notin> rc h' e) \<and> elems_apart rc apart h' es'"
        using elems_apart_kept [OF s, of es h h'] by simp
    qed
  next
    fix h h' :: "'x heap" and p v p'
    assume ok: "heap_ok h" and v: "array_rd un rd h p = Some v" and run: "array_cp un mk skip zero cp p h = Ret (p', h')"
    show "array_apart un rc apart h' p'"
    proof (cases p)
      case None
      with run show ?thesis by (simp add: array_cp_def array_apart_def)
    next
      case (Some a)
      obtain es us where es: "Option.bind (cells h a) un = Some es" "list_all2 (\<lambda>e v. rd h e = Some v) es us"
        using v unfolding Some by (rule array_rd_Some)
      let ?b = "next_addr h" and ?c = "mk (replicate (length es) zero)"
      let ?h1 = "snd (alloc ?c h)"
      note h1 = alloc_law [OF ok, of ?c]
      have loop: "array_loop un mk skip cp ?b 0 es ?h1 = Ret h'" and p': "p' = Some ?b"
        using run es(1) by (auto simp: array_cp_def Some alloc_def outcome_simps)
      have start: "loop_inv un rd rc ?h1 ?b [] (replicate (length es) zero) [] ?h1"
        using h1 by (simp add: loop_inv_def un)
      have old: "rd ?h1 e = Some u \<and> rc ?h1 e \<subseteq> {..<?b}" if "rd h e = Some u" for e u
        using deep_copy.rd_extends [OF d ok that h1(1)] deep_copy.rc_bound [OF d ok that] by simp
      have "\<exists>es'. loop_inv un rd rc ?h1 ?b ([] @ es') [] ([] @ us) h' \<and> elems_apart rc apart h' ([] @ es')"
        by (rule array_loop_apart [OF s un _ zero start _ list_all2_mono [OF es(2) old]])
          (use skip loop in \<open>auto simp: elems_apart_def\<close>)
      then obtain es' where es': "loop_inv un rd rc ?h1 ?b es' [] us h'" "elems_apart rc apart h' es'" by auto
      then have arr: "Option.bind (cells h' ?b) un = Some es'"
        and fresh: "list_all2 (\<lambda>e v. rd h' e = Some v \<and> rc h' e \<subseteq> {Suc ?b..<next_addr h'}) es' us"
        by (simp_all add: loop_inv_def)
      have "?b \<notin> rc h' e" if "e \<in> set es'" for e using list_all2_member [OF fresh that] by auto
      with es'(2) arr show ?thesis by (simp add: array_apart_def p')
    qed
  qed
qed

section \<open>The copy of the resource\<close>

definition string_apart :: "'x heap \<Rightarrow> addr option \<Rightarrow> bool" where
  "string_apart = ptr_apart un_string plain_rc whole"

definition tag_apart :: "'x heap \<Rightarrow> tag_mem \<Rightarrow> bool" where
  "tag_apart h t = pair_apart string_rc string_apart string_rc string_apart h (m_Key t, m_Value t)"

definition spec_apart :: "'x heap \<Rightarrow> spec_mem \<Rightarrow> bool" where
  "spec_apart h s =
     pair_apart string_rc string_apart tags_rc (array_apart un_array (ptr_rc un_tag tag_rc) (ptr_apart un_tag tag_rc tag_apart))
       h (m_Description s, m_Tags s)"

abbreviation condition_rc where "condition_rc E \<equiv> ptr_rc un_ext (c_rc (ext_condition E))"
abbreviation condition_rd where "condition_rd E \<equiv> ptr_rd un_ext (c_rd (ext_condition E))"

text \<open>What the status is made of beside the metadata and the conditions.\<close>

definition others_rc :: "'x ext \<Rightarrow> 'x heap \<Rightarrow> addr option \<times> addr option \<times> addr option \<Rightarrow> addr set" where
  "others_rc E = pair_rc (c_rc (ext_time E)) (pair_rc string_rc string_rc)"

definition status_apart :: "'x ext \<Rightarrow> 'x heap \<Rightarrow> status_mem \<Rightarrow> bool" where
  "status_apart E h s =
     pair_apart (metadata_rc E) (ptr_apart un_ext (c_rc (ext_metadata E)) whole)
       (pair_rc (conditions_rc E) (others_rc E))
       (pair_apart (conditions_rc E) (array_apart un_array (condition_rc E) (ptr_apart un_ext (c_rc (ext_condition E)) whole))
          (others_rc E) (pair_apart (c_rc (ext_time E)) whole (pair_rc string_rc string_rc)
             (pair_apart string_rc string_apart string_rc string_apart)))
       h (m_ACKResourceMetadata s, m_Conditions s, m_CreatedAt s, m_GlobalNetworkID s, m_State s)"

definition network_apart :: "'x ext \<Rightarrow> 'x heap \<Rightarrow> 'x network_mem \<Rightarrow> bool" where
  "network_apart E h n =
     pair_apart plain_rc whole (pair_rc (c_rc (ext_ObjectMeta E)) (pair_rc spec_rc (status_rc E)))
       (pair_apart (c_rc (ext_ObjectMeta E)) whole (pair_rc spec_rc (status_rc E))
          (pair_apart spec_rc spec_apart (status_rc E) (status_apart E)))
       h (m_TypeMeta n, m_ObjectMeta n, m_Spec n, m_Status n)"

interpretation string_tree: separate_copy string_rd string_rc string_cp string_apart
  unfolding string_rd_def string_rc_def string_cp_def string_apart_def
  by (intro separate_ptr separate_whole deep_copy_plain) simp

interpretation tag_tree: separate_copy tag_rd tag_rc Tag_DeepCopyInto tag_apart
  unfolding tag_apart_def
  by (rule separate_map [OF separate_pair [OF string_tree.separate_copy_axioms string_tree.separate_copy_axioms],
        where f = "\<lambda>t. (m_Key t, m_Value t)" and g = "\<lambda>(k, v). \<lparr>m_Key = k, m_Value = v\<rparr>"])
    (auto simp: tag_rd_def tag_rc_def Tag_DeepCopyInto_def pair_defs)

interpretation tags_tree: separate_copy tags_rd tags_rc "slice_cp Tag_DeepCopy"
    "array_apart un_array (ptr_rc un_tag tag_rc) (ptr_apart un_tag tag_rc tag_apart)"
  unfolding tags_rd_def tags_rc_def slice_rd_def slice_rc_def slice_cp_def Tag_DeepCopy_def
  by (rule separate_array [OF separate_ptr [OF tag_tree.separate_copy_axioms]])
    (simp_all add: ptr_rd_def ptr_rc_def ptr_apart_def)

interpretation spec_tree: separate_copy spec_rd spec_rc Spec_DeepCopyInto spec_apart
  unfolding spec_apart_def
  by (rule separate_map [OF separate_pair [OF string_tree.separate_copy_axioms tags_tree.separate_copy_axioms],
        where f = "\<lambda>s. (m_Description s, m_Tags s)" and g = "\<lambda>(d, ts). \<lparr>m_Description = d, m_Tags = ts\<rparr>"])
    (auto simp: spec_rd_def spec_rc_def Spec_DeepCopyInto_def pair_defs)

lemma status_tree: "ext_ok E \<Longrightarrow> separate_copy (status_rd E) (status_rc E) (Status_DeepCopyInto E) (status_apart E)"
proof -
  assume E: "ext_ok E"
  have md: "separate_copy (metadata_rd E) (metadata_rc E) (metadata_cp E) (ptr_apart un_ext (c_rc (ext_metadata E)) whole)"
    using E by (intro separate_ptr separate_whole) (simp_all add: ext_ok_def copier_ok_def)
  have c: "separate_copy (condition_rd E) (condition_rc E) (ptr_cp un_ext ExtCell (c_cp (ext_condition E)))
      (ptr_apart un_ext (c_rc (ext_condition E)) whole)"
    using E by (intro separate_ptr separate_whole) (simp_all add: ext_ok_def copier_ok_def)
  have cs: "separate_copy (conditions_rd E) (conditions_rc E) (conditions_cp E)
      (array_apart un_array (condition_rc E) (ptr_apart un_ext (c_rc (ext_condition E)) whole))"
    unfolding slice_rd_def slice_rc_def slice_cp_def
    by (rule separate_array [OF c]) (simp_all add: ptr_rd_def ptr_rc_def ptr_apart_def)
  note t = separate_whole [OF time_copy [OF E]]
  note s = string_tree.separate_copy_axioms
  show ?thesis
    unfolding status_apart_def others_rc_def
    by (rule separate_map [OF separate_pair [OF md separate_pair [OF cs separate_pair [OF t separate_pair [OF s s]]]],
          where f = "\<lambda>s. (m_ACKResourceMetadata s, m_Conditions s, m_CreatedAt s, m_GlobalNetworkID s, m_State s)"
          and g = "\<lambda>(md, cs, t, i, st). \<lparr>m_ACKResourceMetadata = md, m_Conditions = cs, m_CreatedAt = t,
            m_GlobalNetworkID = i, m_State = st\<rparr>"])
      (auto simp: status_rd_def status_rc_def Status_DeepCopyInto_def pair_defs)
qed

lemma network_tree: "ext_ok E \<Longrightarrow> separate_copy (network_rd E) (network_rc E) (GlobalNetwork_DeepCopyInto E) (network_apart E)"
proof -
  assume E: "ext_ok E"
  have om: "separate_copy (c_rd (ext_ObjectMeta E)) (c_rc (ext_ObjectMeta E)) (c_cp (ext_ObjectMeta E)) whole"
    using E by (intro separate_whole) (simp add: ext_ok_def copier_ok_def)
  show ?thesis
    unfolding network_apart_def
    by (rule separate_map [OF separate_pair [OF separate_whole [OF deep_copy_plain] separate_pair [OF om
            separate_pair [OF spec_tree.separate_copy_axioms status_tree [OF E]]]],
          where f = "\<lambda>n. (m_TypeMeta n, m_ObjectMeta n, m_Spec n, m_Status n)"
          and g = "\<lambda>(tm, om, sp, st). \<lparr>m_TypeMeta = tm, m_ObjectMeta = om, m_Spec = sp, m_Status = st\<rparr>"])
      (auto simp: network_rd_def network_rc_def GlobalNetwork_DeepCopyInto_def pair_defs)
qed

text \<open>\<open>DeepCopy\<close> returns a tree.\<close>

lemma network_ptr_tree:
  "ext_ok E \<Longrightarrow> separate_copy (read_network E) (network_cells E) (GlobalNetwork_DeepCopy_mem E)
     (ptr_apart un_network (network_rc E) (network_apart E))"
  unfolding GlobalNetwork_DeepCopy_mem_def by (intro separate_ptr network_tree) simp_all

end
