(* ===== verification/MemoryTags.thy ===== *)
theory MemoryTags
  imports Manager HeapCopy
begin

text \<open>
  The tag functions in memory: \<open>gn/tags.go\<close> and the three methods on tags of \<open>gn/manager.go\<close> once
  more, over the heap of \<open>GoHeap\<close>, with the pointers they read through and the cells they make
  and change. Two things hold here that values cannot say: \<open>fromACKTags\<close> takes the addresses of
  loop variables and yet no two of its tags share a string, and a method that changes the object
  it is given changes the cell of that object and no other.
\<close>

section \<open>The list made of a map\<close>

text \<open>
  \<open>tag := svcapitypes.Tag{Key: &k, Value: &v}\<close>, with \<open>&tag\<close> appended. The variables \<open>k\<close>, \<open>v\<close> and \<open>tag\<close>
  are new in every iteration, so they have cells of their own.
\<close>

definition make_tag :: "string \<Rightarrow> string \<Rightarrow> 'x heap \<Rightarrow> addr \<times> 'x heap" where
  "make_tag k v h =
     (let (kp, h) = alloc (StringCell k) h; (vp, h) = alloc (StringCell v) h
      in alloc (TagCell \<lparr>m_Key = Some kp, m_Value = Some vp\<rparr>) h)"

text \<open>
  The two loops. The slice \<open>result\<close> is local to the function: its elements are a list here, and
  the array gets its cell when the slice is returned.
\<close>

fun from_order_mem ::
  "string list \<Rightarrow> string gomap \<Rightarrow> addr option list \<Rightarrow> 'x heap \<Rightarrow> string gomap \<times> addr option list \<times> 'x heap" where
  "from_order_mem [] tags result h = (tags, result, h)"
| "from_order_mem (k # ks) tags result h =
     (case mget tags k of
        Some v \<Rightarrow> (let (t, h) = make_tag k v h in from_order_mem ks (mdel k tags) (result @ [Some t]) h)
      | None \<Rightarrow> from_order_mem ks tags result h)"

fun from_rest_mem :: "(string \<times> string) list \<Rightarrow> addr option list \<Rightarrow> 'x heap \<Rightarrow> addr option list \<times> 'x heap" where
  "from_rest_mem [] result h = (result, h)"
| "from_rest_mem ((k, v) # kvs) result h =
     (let (t, h) = make_tag k v h in from_rest_mem kvs (result @ [Some t]) h)"

definition fromACKTags_mem ::
  "order \<Rightarrow> string gomap \<Rightarrow> string list \<Rightarrow> 'x heap \<Rightarrow> addr option \<times> string gomap \<times> 'x heap" where
  "fromACKTags_mem ord tags keyOrder h =
     (let (rest, result, h) = from_order_mem keyOrder tags [] h;
          (result, h) = from_rest_mem (entries ord rest) result h;
          (b, h) = alloc (ArrayCell result) h
      in (Some b, rest, h))"

abbreviation "tag_ptr_rd \<equiv> ptr_rd un_tag tag_rd"
abbreviation "tag_ptr_rc \<equiv> ptr_rc un_tag tag_rc"

lemma make_tag_law:
  assumes "heap_ok h" and "make_tag k v h = (t, h')"
  shows "extends h h'" and "heap_ok h'" and "tag_ptr_rd h' (Some t) = Some (new_tag k v)"
    and "tag_ptr_rc h' (Some t) = {next_addr h..<next_addr h'}"
proof -
  let ?h1 = "snd (alloc (StringCell k) h)"
  let ?h2 = "snd (alloc (StringCell v) ?h1)"
  let ?c = "TagCell \<lparr>m_Key = Some (next_addr h), m_Value = Some (next_addr ?h1)\<rparr>"
  have h': "h' = snd (alloc ?c ?h2)" and t: "t = next_addr ?h2"
    using assms(2) by (auto simp: make_tag_def alloc_def)
  note a1 = alloc_law [OF assms(1), of "StringCell k"]
  note a2 = alloc_law [OF a1(2), of "StringCell v"]
  note a3 = alloc_law [OF a2(2), of ?c]
  show "extends h h'" unfolding h' using a1(1) a2(1) a3(1) by (blast intro: extends_trans)
  show "heap_ok h'" unfolding h' by (rule a3(2))
  show "tag_ptr_rd h' (Some t) = Some (new_tag k v)"
    by (simp add: h' t ptr_rd_def tag_rd_def pair_rd_def string_rd_def plain_rd_def new_tag_def)
  show "tag_ptr_rc h' (Some t) = {next_addr h..<next_addr h'}"
    by (auto simp: h' t ptr_rc_def tag_rc_def string_rc_def plain_rc_def)
qed

text \<open>What holds in the loops, begun in \<open>h0\<close>: the tags are new and have no cell in common.\<close>

definition tags_made :: "'x heap \<Rightarrow> addr option list \<Rightarrow> tag option list \<Rightarrow> 'x heap \<Rightarrow> bool" where
  "tags_made h0 ps ts h \<longleftrightarrow> heap_ok h \<and> extends h0 h \<and>
     list_all2 (\<lambda>p t. tag_ptr_rd h p = Some t \<and> tag_ptr_rc h p \<subseteq> {next_addr h0..<next_addr h}) ps ts \<and>
     (\<forall>i j. i < j \<longrightarrow> j < length ps \<longrightarrow> tag_ptr_rc h (ps ! i) \<inter> tag_ptr_rc h (ps ! j) = {})"

lemma tags_made_empty: "heap_ok h \<Longrightarrow> tags_made h [] [] h"
  by (simp add: tags_made_def)

lemma tags_made_extends:
  assumes "tags_made h0 ps ts h" and "extends h h'" and "heap_ok h'"
  shows "tags_made h0 ps ts h'"
proof -
  have le: "next_addr h \<le> next_addr h'" using assms(2) by (simp add: extends_def)
  have keep: "tag_ptr_rd h' p = Some t \<and> tag_ptr_rc h' p = tag_ptr_rc h p" if "tag_ptr_rd h p = Some t" for p t
    using assms(1) by (intro tag_ptr_copy.rd_extends [OF _ that assms(2)]) (simp add: tags_made_def)
  have "list_all2 (\<lambda>p t. tag_ptr_rd h' p = Some t \<and> tag_ptr_rc h' p \<subseteq> {next_addr h0..<next_addr h'}) ps ts"
    by (rule list_all2_mono [of "\<lambda>p t. tag_ptr_rd h p = Some t \<and> tag_ptr_rc h p \<subseteq> {next_addr h0..<next_addr h}"])
      (use assms(1) keep le in \<open>fastforce simp: tags_made_def\<close>)+
  moreover have "tag_ptr_rc h' (ps ! i) = tag_ptr_rc h (ps ! i)" if "i < length ps" for i
    using assms(1) keep that by (auto simp: tags_made_def list_all2_conv_all_nth)
  ultimately show ?thesis
    using assms extends_trans [of h0 h h'] by (simp add: tags_made_def)
qed

lemma tags_made_add:
  assumes made: "tags_made h0 ps ts h" and run: "make_tag k v h = (t, h')"
  shows "tags_made h0 (ps @ [Some t]) (ts @ [new_tag k v]) h'"
proof -
  have ok: "heap_ok h" and e0: "next_addr h0 \<le> next_addr h" using made by (simp_all add: tags_made_def extends_def)
  note new = make_tag_law [OF ok run]
  have made': "tags_made h0 ps ts h'" by (rule tags_made_extends [OF made new(1,2)])
  have old: "tag_ptr_rc h' (ps ! i) \<subseteq> {..<next_addr h}" if i: "i < length ps" for i
  proof -
    obtain u where "tag_ptr_rd h (ps ! i) = Some u" "tag_ptr_rc h (ps ! i) \<subseteq> {next_addr h0..<next_addr h}"
      using made i by (auto simp: tags_made_def list_all2_conv_all_nth)
    with tag_ptr_copy.rd_extends [OF ok _ new(1)] show ?thesis by fastforce
  qed
  have "tag_ptr_rc h' ((ps @ [Some t]) ! i) \<inter> tag_ptr_rc h' ((ps @ [Some t]) ! j) = {}"
    if ij: "i < j" "j < length (ps @ [Some t])" for i j
  proof (cases "j = length ps")
    case True
    with old [of i] ij new(4) show ?thesis by (fastforce simp: nth_append)
  next
    case False
    with made' ij show ?thesis by (simp add: tags_made_def nth_append)
  qed
  moreover have "list_all2 (\<lambda>p t. tag_ptr_rd h' p = Some t \<and> tag_ptr_rc h' p \<subseteq> {next_addr h0..<next_addr h'})
      (ps @ [Some t]) (ts @ [new_tag k v])"
    using made' new(3,4) e0 by (intro list_all2_appendI) (auto simp: tags_made_def)
  ultimately show ?thesis using made' by (simp add: tags_made_def)
qed

lemma from_order_mem_law:
  assumes "tags_made h0 ps ts h"
  shows "\<exists>ps' h'. from_order_mem ks m ps h = (fst (from_order_loop ks m ts), ps', h') \<and>
    tags_made h0 ps' (snd (from_order_loop ks m ts)) h'"
  using assms
proof (induction ks m ps h arbitrary: ts rule: from_order_mem.induct)
  case (2 k ks tags result h)
  show ?case
  proof (cases "mget tags k")
    case None
    with 2 show ?thesis by simp
  next
    case (Some v)
    obtain t h' where run: "make_tag k v h = (t, h')" by fastforce
    from 2(2) [OF Some run [symmetric] refl tags_made_add [OF 2(3) run]] Some run show ?thesis by simp
  qed
qed simp

lemma from_rest_mem_law:
  assumes "tags_made h0 ps ts h"
  shows "\<exists>ps' h'. from_rest_mem kvs ps h = (ps', h') \<and> tags_made h0 ps' (ts @ tag_list kvs) h'"
  using assms
proof (induction kvs ps h arbitrary: ts rule: from_rest_mem.induct)
  case (2 k v kvs result h)
  obtain t h' where run: "make_tag k v h = (t, h')" by fastforce
  from 2(1) [OF run [symmetric] refl tags_made_add [OF 2(2) run]] run show ?case by simp
qed simp

text \<open>No two tags of a list share a cell.\<close>

definition tags_apart :: "'x heap \<Rightarrow> addr option \<Rightarrow> bool" where
  "tags_apart h p \<longleftrightarrow> (\<exists>ps. Option.bind p (cells h) = Some (ArrayCell ps) \<and>
     (\<forall>i j. i < j \<longrightarrow> j < length ps \<longrightarrow> tag_ptr_rc h (ps ! i) \<inter> tag_ptr_rc h (ps ! j) = {}))"

lemma tags_apart_kept:
  assumes "tags_apart h p" and ts: "tags_rd h p = Some ts"
    and same: "\<And>a. a \<in> tags_rc h p \<Longrightarrow> cells h' a = cells h a"
  shows "tags_apart h' p"
proof -
  from assms(1) obtain b ps where b: "p = Some b" "cells h b = Some (ArrayCell ps)"
    and apart: "\<And>i j. i < j \<Longrightarrow> j < length ps \<Longrightarrow> tag_ptr_rc h (ps ! i) \<inter> tag_ptr_rc h (ps ! j) = {}"
    by (auto simp: tags_apart_def bind_eq_Some_conv)
  from ts obtain us where us: "list_all2 (\<lambda>p t. tag_ptr_rd h p = Some t) ps us"
    and rc: "tags_rc h p = insert b (\<Union>q \<in> set ps. tag_ptr_rc h q)"
    unfolding tags_rd_def slice_rd_def tags_rc_def slice_rc_def b(1) by (auto elim!: array_rd_Some simp: b(2))
  have "tag_ptr_rc h' q = tag_ptr_rc h q" if q: "q \<in> set ps" for q
  proof -
    obtain t where "tag_ptr_rd h q = Some t" using list_all2_member [OF us q] by blast
    then show ?thesis using tag_ptr_copy.rd_local [of h q t h'] same rc q by blast
  qed
  moreover have "cells h' b = Some (ArrayCell ps)" using same rc b by simp
  ultimately show ?thesis using apart b(1) by (auto simp: tags_apart_def)
qed

lemma fromACKTags_mem_law:
  assumes ok: "heap_ok h"
  obtains b h' where "fromACKTags_mem ord tags keyOrder h = (Some b, snd (fromACKTags ord tags keyOrder), h')"
    and "extends h h'" and "heap_ok h'" and "tags_apart h' (Some b)"
    and "tags_rd h' (Some b) = Some (fst (fromACKTags ord tags keyOrder))"
    and "tags_rc h' (Some b) \<subseteq> {next_addr h..<next_addr h'}"
proof -
  obtain rest ts1 where loop: "from_order_loop keyOrder tags [] = (rest, ts1)" by fastforce
  obtain ps1 h1 where m1: "from_order_mem keyOrder tags [] h = (rest, ps1, h1)" "tags_made h ps1 ts1 h1"
    using from_order_mem_law [OF tags_made_empty [OF ok], of keyOrder tags] loop by auto
  obtain ps2 h2 where m2: "from_rest_mem (entries ord rest) ps1 h1 = (ps2, h2)"
    "tags_made h ps2 (ts1 @ tag_list (entries ord rest)) h2"
    using from_rest_mem_law [OF m1(2), of "entries ord rest"] by auto
  let ?b = "next_addr h2" and ?h3 = "snd (alloc (ArrayCell ps2) h2)"
  have ok2: "heap_ok h2" and e2: "extends h h2" using m2(2) by (simp_all add: tags_made_def)
  note a = alloc_law [OF ok2, of "ArrayCell ps2"]
  have made: "tags_made h ps2 (ts1 @ tag_list (entries ord rest)) ?h3"
    by (rule tags_made_extends [OF m2(2) a])
  have val: "fromACKTags ord tags keyOrder = (Some (ts1 @ tag_list (entries ord rest)), rest)"
    by (simp add: fromACKTags_def loop append_loop)
  show ?thesis
  proof (rule that)
    show "fromACKTags_mem ord tags keyOrder h = (Some ?b, snd (fromACKTags ord tags keyOrder), ?h3)"
      by (simp add: fromACKTags_mem_def m1(1) m2(1) val) (simp add: alloc_def)
    show "extends h ?h3" "heap_ok ?h3" using e2 a by (blast intro: extends_trans)+
    show "tags_apart ?h3 (Some ?b)" using made by (simp add: tags_apart_def tags_made_def)
    have all: "list_all2 (\<lambda>p t. tag_ptr_rd ?h3 p = Some t \<and> tag_ptr_rc ?h3 p \<subseteq> {next_addr h..<next_addr ?h3})
        ps2 (ts1 @ tag_list (entries ord rest))" using made by (simp add: tags_made_def)
    show "tags_rd ?h3 (Some ?b) = Some (fst (fromACKTags ord tags keyOrder))"
      using list_all2_mono [OF all, of "\<lambda>p t. tag_ptr_rd ?h3 p = Some t"]
      by (simp add: tags_rd_def slice_rd_def array_rd_def val list_rd_Some)
    show "tags_rc ?h3 (Some ?b) \<subseteq> {next_addr h..<next_addr ?h3}"
      using list_all2_member [OF all] e2 by (auto simp: tags_rc_def slice_rc_def array_rc_def extends_def)
  qed
qed

section \<open>The map made of a list\<close>

text \<open>\<open>t.Key\<close> of a nil \<open>t\<close> panics; the strings are copied out of their cells.\<close>

fun convert_loop_mem ::
  "addr option list \<Rightarrow> 'x heap \<Rightarrow> string gomap \<times> string list \<Rightarrow> (string gomap \<times> string list) outcome" where
  "convert_loop_mem [] h (result, keyOrder) = Ret (result, keyOrder)"
| "convert_loop_mem (p # ps) h (result, keyOrder) =
     and_then (deref p) (\<lambda>a. and_then (deref (Option.bind (cells h a) un_tag)) (\<lambda>t.
       case m_Key t of
         None \<Rightarrow> convert_loop_mem ps h (result, keyOrder)
       | Some ka \<Rightarrow>
           and_then (deref (Option.bind (cells h ka) un_string)) (\<lambda>k.
           and_then (case m_Value t of
               Some va \<Rightarrow> deref (Option.bind (cells h va) un_string)
             | None \<Rightarrow> Ret [])
             (\<lambda>v. convert_loop_mem ps h (mput k v result, keyOrder @ [k])))))"

definition convertToOrderedACKTags_mem ::
  "('e, 'd) ack_runtime \<Rightarrow> addr option \<Rightarrow> 'x heap \<Rightarrow> (string gomap \<times> string list) outcome" where
  "convertToOrderedACKTags_mem rt tags h =
     (case tags of
        None \<Rightarrow> Ret (NewTags rt, [])
      | Some b \<Rightarrow>
          and_then (deref (Option.bind (cells h b) un_array)) (\<lambda>ps.
            if length ps = 0 then Ret (NewTags rt, []) else convert_loop_mem ps h (NewTags rt, [])))"

lemma string_rd_Some:
  "string_rd h p = Some s \<longleftrightarrow>
     (case p of None \<Rightarrow> s = None | Some a \<Rightarrow> \<exists>x. Option.bind (cells h a) un_string = Some x \<and> s = Some x)"
  by (auto simp: string_rd_def ptr_rd_def plain_rd_def bind_eq_Some_conv split: option.splits)

lemma tag_ptr_rd_Some:
  "tag_ptr_rd h p = Some t \<longleftrightarrow>
     (case p of
        None \<Rightarrow> t = None
      | Some a \<Rightarrow> \<exists>m u. Option.bind (cells h a) un_tag = Some m \<and> t = Some u \<and>
          string_rd h (m_Key m) = Some (Key u) \<and> string_rd h (m_Value m) = Some (Value u))"
  by (fastforce simp: ptr_rd_def tag_rd_def pair_rd_def bind_eq_Some_conv split: option.splits)

lemma convert_loop_mem_eq:
  assumes "list_all2 (\<lambda>p t. tag_ptr_rd h p = Some t) ps ts"
  shows "convert_loop_mem ps h (m, ks) = convert_loop ts (m, ks)"
  using assms
proof (induction arbitrary: m ks rule: list_all2_induct)
  case (Cons p ps t ts)
  then show ?case
    by (cases p) (auto simp: tag_ptr_rd_Some string_rd_Some outcome_simps split: option.splits)
qed simp

lemma convert_mem_eq:
  assumes "tags_rd h p = Some ts"
  shows "convertToOrderedACKTags_mem rt p h = convertToOrderedACKTags rt ts"
proof (cases p)
  case None
  with assms show ?thesis
    by (auto simp: tags_rd_def slice_rd_def array_rd_def convertToOrderedACKTags_mem_def convertToOrderedACKTags_def)
next
  case (Some b)
  with assms obtain ps us where ps: "Option.bind (cells h b) un_array = Some ps" "ts = Some us"
    "list_all2 (\<lambda>p t. tag_ptr_rd h p = Some t) ps us"
    unfolding tags_rd_def slice_rd_def by (auto elim: array_rd_Some)
  from ps(3) have "ps = [] \<longleftrightarrow> us = []" by (auto simp: list_all2_conv_all_nth)
  with ps convert_loop_mem_eq [OF ps(3), of "NewTags rt" "[]"] show ?thesis
    by (simp add: Some convertToOrderedACKTags_mem_def convertToOrderedACKTags_def)
qed

section \<open>The three methods\<close>

text \<open>
  \<open>r.ko.Spec.Tags = ...\<close>: the cell of the object changes. Of a resource the methods see the
  pointer \<open>concreteResource\<close> returned: nil, or a struct with the pointer \<open>ko\<close>. They return the
  memory as they leave it. \<open>GetDefaultTags\<close> reads the object.
\<close>

definition network_at :: "'x heap \<Rightarrow> addr \<Rightarrow> 'x network_mem outcome" where
  "network_at h a = deref (Option.bind (cells h a) un_network)"

definition assign_tags :: "addr \<Rightarrow> addr option \<Rightarrow> 'x heap \<Rightarrow> 'x heap outcome" where
  "assign_tags a tags h =
     and_then (network_at h a) (\<lambda>n. Ret (store a (NetworkCell (n\<lparr>m_Spec := (m_Spec n)\<lparr>m_Tags := tags\<rparr>\<rparr>)) h))"

definition EnsureTags_mem ::
  "'x ext \<Rightarrow> ('e, 'd) ack_runtime \<Rightarrow> sched \<Rightarrow> ('w, 'e) resourceManager \<Rightarrow> addr option option \<Rightarrow> service_metadata \<Rightarrow>
   'x heap \<Rightarrow> ('e option \<times> 'x heap) outcome" where
  "EnsureTags_mem E rt s rm r md h =
     and_then (deref r) (\<lambda>ko. and_then (deref ko) (\<lambda>a. and_then (network_at h a) (\<lambda>n.
     and_then (deref (network_rd E h n)) (\<lambda>g.
       let defaultTags = GetDefaultTags rt (cfg rm) g md
       in and_then (convertToOrderedACKTags_mem rt (m_Tags (m_Spec n)) h) (\<lambda>(resourceTags, keyOrder).
            let tags = MergeTags rt resourceTags defaultTags;
                (slice, tags, h) = fromACKTags_mem (s 1) tags keyOrder h
            in and_then (assign_tags a slice h) (\<lambda>h. Ret (None, h)))))))"

definition FilterSystemTags_mem ::
  "('e, 'd) ack_runtime \<Rightarrow> sched \<Rightarrow> addr option option \<Rightarrow> string list \<Rightarrow> 'x heap \<Rightarrow> 'x heap outcome" where
  "FilterSystemTags_mem rt s r systemTags h =
     (case r of
        Some (Some a) \<Rightarrow>
          and_then (network_at h a) (\<lambda>n.
          and_then (convertToOrderedACKTags_mem rt (m_Tags (m_Spec n)) h) (\<lambda>(resourceTags, tagKeyOrder).
            let resourceTags = ignoreSystemTags (s 0) systemTags resourceTags;
                (slice, tags, h) = fromACKTags_mem (s 1) resourceTags tagKeyOrder h
            in assign_tags a slice h))
      | _ \<Rightarrow> Ret h)"

definition mirrorAWSTags_mem ::
  "('e, 'd) ack_runtime \<Rightarrow> sched \<Rightarrow> addr option option \<Rightarrow> addr option option \<Rightarrow> 'x heap \<Rightarrow> 'x heap outcome" where
  "mirrorAWSTags_mem rt s ra rb h =
     (case (ra, rb) of
        (Some (Some a), Some (Some b)) \<Rightarrow>
          and_then (network_at h a) (\<lambda>na. and_then (network_at h b) (\<lambda>nb.
          and_then (convertToOrderedACKTags_mem rt (m_Tags (m_Spec na)) h) (\<lambda>(desiredTags, desiredTagKeyOrder).
          and_then (convertToOrderedACKTags_mem rt (m_Tags (m_Spec nb)) h) (\<lambda>(latestTags, _).
            let desiredTags = syncAWSTags (s 0) desiredTags latestTags;
                (slice, tags, h) = fromACKTags_mem (s 1) desiredTags desiredTagKeyOrder h
            in assign_tags a slice h))))
      | _ \<Rightarrow> Ret h)"

text \<open>
  What a method does to the memory: the cell of one object changes, new cells appear beside the
  old ones, the object reads as \<open>g\<close> and no two of its tags share a cell. Any value that is not
  made of the cell \<open>a\<close> is kept.
\<close>

definition one_cell_changed :: "addr \<Rightarrow> 'x heap \<Rightarrow> 'x heap \<Rightarrow> bool" where
  "one_cell_changed a h h' \<longleftrightarrow>
     next_addr h \<le> next_addr h' \<and> (\<forall>b < next_addr h. b \<noteq> a \<longrightarrow> cells h' b = cells h b)"

definition rewritten :: "'x ext \<Rightarrow> addr \<Rightarrow> GlobalNetwork option \<Rightarrow> 'x heap \<Rightarrow> 'x heap \<Rightarrow> bool" where
  "rewritten E a g h h' \<longleftrightarrow> heap_ok h' \<and> one_cell_changed a h h' \<and> read_network E h' (Some a) = Some g \<and>
     (\<exists>n. network_at h' a = Ret n \<and> tags_apart h' (m_Tags (m_Spec n)))"

text \<open>The object at \<open>a\<close>; no pointer in it leads back to its own cell, as no type of the resource contains itself.\<close>

definition lies_at :: "'x ext \<Rightarrow> 'x heap \<Rightarrow> addr \<Rightarrow> GlobalNetwork \<Rightarrow> bool" where
  "lies_at E h a g \<longleftrightarrow>
     (\<exists>n. cells h a = Some (NetworkCell n) \<and> network_rd E h n = Some g \<and> a \<notin> network_rc E h n)"

lemma one_cell_kept:
  assumes "deep_copy rd rc cp" and "heap_ok h" and "rd h p = Some v" and "a \<notin> rc h p" and "one_cell_changed a h h'"
  shows "rd h' p = Some v"
proof -
  have "cells h' c = cells h c" if c: "c \<in> rc h p" for c
    using deep_copy.rc_bound [OF assms(1-3)] c assms(4,5) by (auto simp: one_cell_changed_def)
  then show ?thesis using deep_copy.rd_local [OF assms(1,3)] by blast
qed

lemma network_rd_Some:
  "network_rd E h n = Some g \<longleftrightarrow>
     m_TypeMeta n = TypeMeta g \<and> c_rd (ext_ObjectMeta E) h (m_ObjectMeta n) = Some (ObjectMeta g) \<and>
     string_rd h (m_Description (m_Spec n)) = Some (Description (Spec g)) \<and>
     tags_rd h (m_Tags (m_Spec n)) = Some (Tags (Spec g)) \<and> status_rd E h (m_Status n) = Some (Status g)"
  by (cases g; cases "Spec g")
    (fastforce simp: network_rd_def spec_rd_def pair_rd_def plain_rd_def split: option.splits)

lemma assign_tags_law:
  assumes E: "ext_ok E" and ok: "heap_ok h" and at: "lies_at E h a g"
    and e: "extends h h1" and ok1: "heap_ok h1"
    and ts: "tags_rd h1 b = Some ts" "tags_rc h1 b \<subseteq> {next_addr h..<next_addr h1}" "tags_apart h1 b"
  shows "\<exists>h'. assign_tags a b h1 = Ret h' \<and> rewritten E a (Some (set_tags ts g)) h h'"
proof -
  obtain n where n: "cells h a = Some (NetworkCell n)" "network_rd E h n = Some g" "a \<notin> network_rc E h n"
    using at by (auto simp: lies_at_def)
  have a: "a < next_addr h" using ok n(1) by (simp add: heap_ok_def)
  then have n1: "network_at h1 a = Ret n" using e n(1) by (simp add: extends_def network_at_def)
  let ?n = "n\<lparr>m_Spec := (m_Spec n)\<lparr>m_Tags := b\<rparr>\<rparr>"
  let ?h' = "store a (NetworkCell ?n) h1"
  have changed: "one_cell_changed a h ?h'" using e by (simp add: one_cell_changed_def extends_def)
  have old: "a \<notin> c_rc (ext_ObjectMeta E) h (m_ObjectMeta n)" "a \<notin> string_rc h (m_Description (m_Spec n))"
    "a \<notin> status_rc E h (m_Status n)"
    using n(3) by (simp_all add: network_rc_def spec_rc_def)
  have om: "deep_copy (c_rd (ext_ObjectMeta E)) (c_rc (ext_ObjectMeta E)) (c_cp (ext_ObjectMeta E))"
    using E by (simp add: ext_ok_def copier_ok_def)
  note g = n(2) [unfolded network_rd_Some]
  note kept = one_cell_kept [OF om ok _ old(1) changed] one_cell_kept [OF string_copy.deep_copy_axioms ok _ old(2) changed]
    one_cell_kept [OF status_copy [OF E] ok _ old(3) changed]
  have same: "cells ?h' c = cells h1 c" if "c \<in> tags_rc h1 b" for c using a ts(2) that by auto
  then have "tags_rd ?h' b = Some ts" using tags_copy.rd_local [OF ts(1)] by blast
  then have "network_rd E ?h' ?n = Some (set_tags ts g)" using g kept by (simp add: network_rd_Some)
  then have "read_network E ?h' (Some a) = Some (Some (set_tags ts g))" by (simp add: ptr_rd_def)
  moreover have "heap_ok ?h'" using ok1 a e by (auto simp: heap_ok_def extends_def)
  moreover have "tags_apart ?h' b" using ts(3,1) same by (rule tags_apart_kept)
  ultimately show ?thesis using n1 changed by (simp add: assign_tags_def rewritten_def network_at_def)
qed

text \<open>The end the three methods share: the list of a tag map is made in memory and put in the object.\<close>

lemma made_and_assigned:
  assumes E: "ext_ok E" and ok: "heap_ok h" and at: "lies_at E h a g"
  shows "\<exists>h'. (let (slice, tags, h) = fromACKTags_mem ord m ks h in assign_tags a slice h) = Ret h' \<and>
    rewritten E a (Some (set_tags (fst (fromACKTags ord m ks)) g)) h h'"
proof -
  obtain b h1 where m: "fromACKTags_mem ord m ks h = (Some b, snd (fromACKTags ord m ks), h1)"
    "extends h h1" "heap_ok h1" "tags_apart h1 (Some b)" "tags_rd h1 (Some b) = Some (fst (fromACKTags ord m ks))"
    "tags_rc h1 (Some b) \<subseteq> {next_addr h..<next_addr h1}"
    by (rule fromACKTags_mem_law [OF ok])
  from assign_tags_law [OF E ok at m(2,3,5,6,4)] show ?thesis by (simp add: m(1))
qed

lemma lies_at_reads:
  assumes "lies_at E h a g"
  obtains n where "network_at h a = Ret n" and "network_rd E h n = Some g"
    and "convertToOrderedACKTags_mem rt (m_Tags (m_Spec n)) h = convertToOrderedACKTags rt (Tags (Spec g))"
  using assms convert_mem_eq by (fastforce simp: lies_at_def network_at_def network_rd_Some)

lemma rewritten_others:
  assumes "ext_ok E" and "heap_ok h" and "rewritten E a g h h'"
    and "read_network E h p = Some v" and "a \<notin> network_cells E h p"
  shows "read_network E h' p = Some v"
  using one_cell_kept [OF network_ptr_copy [OF assms(1)] assms(2,4,5)] assms(3) by (simp add: rewritten_def)

section \<open>The methods in memory and on values\<close>

lemma EnsureTags_in_place:
  assumes "ext_ok E" and "heap_ok h" and at: "lies_at E h a g"
  shows "case EnsureTags rt s rm (ResourcePtr (Some \<lparr>ko = Some g\<rparr>)) md of
      Panic \<Rightarrow> EnsureTags_mem E rt s rm (Some (Some a)) md h = Panic
    | Ret (r, err) \<Rightarrow> \<exists>h'. EnsureTags_mem E rt s rm (Some (Some a)) md h = Ret (err, h') \<and> rewritten E a (ko r) h h'"
proof -
  obtain n where n: "network_at h a = Ret n" "network_rd E h n = Some g"
    "convertToOrderedACKTags_mem rt (m_Tags (m_Spec n)) h = convertToOrderedACKTags rt (Tags (Spec g))"
    using lies_at_reads [OF at] by blast
  show ?thesis
  proof (cases "convertToOrderedACKTags rt (Tags (Spec g))")
    case Panic
    with n show ?thesis by (simp add: EnsureTags_mem_def EnsureTags_def)
  next
    case (Ret c)
    obtain m ks where c: "c = (m, ks)" by fastforce
    obtain h' where "(let (slice, tags, h) = fromACKTags_mem (s 1) (MergeTags rt m (GetDefaultTags rt (cfg rm) g md)) ks h
        in assign_tags a slice h) = Ret h'"
      "rewritten E a (Some (set_tags (fst (fromACKTags (s 1) (MergeTags rt m (GetDefaultTags rt (cfg rm) g md)) ks)) g)) h h'"
      using made_and_assigned [OF assms] by blast
    with n Ret c show ?thesis by (simp add: EnsureTags_mem_def EnsureTags_def split: prod.splits)
  qed
qed

lemma FilterSystemTags_in_place:
  assumes "ext_ok E" and "heap_ok h" and at: "lies_at E h a g"
  shows "case FilterSystemTags rt s (ResourcePtr (Some \<lparr>ko = Some g\<rparr>)) systemTags of
      Panic \<Rightarrow> FilterSystemTags_mem rt s (Some (Some a)) systemTags h = Panic
    | Ret r \<Rightarrow> \<exists>h'. FilterSystemTags_mem rt s (Some (Some a)) systemTags h = Ret h' \<and> rewritten E a (Option.bind r ko) h h'"
proof -
  obtain n where n: "network_at h a = Ret n"
    "convertToOrderedACKTags_mem rt (m_Tags (m_Spec n)) h = convertToOrderedACKTags rt (Tags (Spec g))"
    using lies_at_reads [OF at] by blast
  show ?thesis
  proof (cases "convertToOrderedACKTags rt (Tags (Spec g))")
    case Panic
    with n show ?thesis by (simp add: FilterSystemTags_mem_def FilterSystemTags_def concreteResource_def)
  next
    case (Ret c)
    obtain m ks where c: "c = (m, ks)" by fastforce
    from made_and_assigned [OF assms, of "s 1" "ignoreSystemTags (s 0) systemTags m" ks] n Ret c show ?thesis
      by (simp add: FilterSystemTags_mem_def FilterSystemTags_def concreteResource_def)
  qed
qed

lemma mirrorAWSTags_in_place:
  assumes "ext_ok E" and "heap_ok h" and at: "lies_at E h a ga" and bt: "lies_at E h b gb"
  shows "case mirrorAWSTags rt s (Some \<lparr>ko = Some ga\<rparr>) (Some \<lparr>ko = Some gb\<rparr>) of
      Panic \<Rightarrow> mirrorAWSTags_mem rt s (Some (Some a)) (Some (Some b)) h = Panic
    | Ret r \<Rightarrow> \<exists>h'. mirrorAWSTags_mem rt s (Some (Some a)) (Some (Some b)) h = Ret h' \<and> rewritten E a (Option.bind r ko) h h'"
proof -
  obtain na where na: "network_at h a = Ret na"
    "convertToOrderedACKTags_mem rt (m_Tags (m_Spec na)) h = convertToOrderedACKTags rt (Tags (Spec ga))"
    using lies_at_reads [OF at] by blast
  obtain nb where nb: "network_at h b = Ret nb"
    "convertToOrderedACKTags_mem rt (m_Tags (m_Spec nb)) h = convertToOrderedACKTags rt (Tags (Spec gb))"
    using lies_at_reads [OF bt] by blast
  note defs = mirrorAWSTags_mem_def mirrorAWSTags_def
  show ?thesis
  proof (cases "convertToOrderedACKTags rt (Tags (Spec ga))")
    case Panic
    with na nb show ?thesis by (simp add: defs)
  next
    case (Ret c)
    note ca = Ret
    show ?thesis
    proof (cases "convertToOrderedACKTags rt (Tags (Spec gb))")
      case Panic
      with na nb ca show ?thesis by (simp add: defs case_prod_unfold)
    next
      case (Ret d)
      from made_and_assigned [OF assms(1-3), of "s 1" "syncAWSTags (s 0) (fst c) (fst d)" "snd c"] na nb ca Ret
      show ?thesis by (simp add: defs case_prod_unfold)
    qed
  qed
qed

section \<open>Properties\<close>

text \<open>
  C20: the three methods on tags work in place, and in memory they do what they do on values: each
  panics or returns as it does there, the object it was given then reads as the object it makes
  there, no two tags of that object share a string (the addresses taken are those of variables
  new in every iteration), and no other cell is changed, so that any other object that is not
  made of that cell reads as before. \<open>mirrorAWSTags\<close> may be given one object twice.
\<close>

theorem tag_methods_in_place:
  assumes "ext_ok E" and "heap_ok h" and "lies_at E h a g" and "lies_at E h b gb"
  shows "(case EnsureTags rt s rm (ResourcePtr (Some \<lparr>ko = Some g\<rparr>)) md of
      Panic \<Rightarrow> EnsureTags_mem E rt s rm (Some (Some a)) md h = Panic
    | Ret (r, err) \<Rightarrow> \<exists>h'. EnsureTags_mem E rt s rm (Some (Some a)) md h = Ret (err, h') \<and> rewritten E a (ko r) h h') \<and>
    (case FilterSystemTags rt s (ResourcePtr (Some \<lparr>ko = Some g\<rparr>)) systemTags of
      Panic \<Rightarrow> FilterSystemTags_mem rt s (Some (Some a)) systemTags h = Panic
    | Ret r \<Rightarrow> \<exists>h'. FilterSystemTags_mem rt s (Some (Some a)) systemTags h = Ret h' \<and> rewritten E a (Option.bind r ko) h h') \<and>
    (case mirrorAWSTags rt s (Some \<lparr>ko = Some g\<rparr>) (Some \<lparr>ko = Some gb\<rparr>) of
      Panic \<Rightarrow> mirrorAWSTags_mem rt s (Some (Some a)) (Some (Some b)) h = Panic
    | Ret r \<Rightarrow> \<exists>h'. mirrorAWSTags_mem rt s (Some (Some a)) (Some (Some b)) h = Ret h' \<and> rewritten E a (Option.bind r ko) h h') \<and>
    (\<forall>g' h' p v. rewritten E a g' h h' \<longrightarrow> read_network E h p = Some v \<longrightarrow> a \<notin> network_cells E h p \<longrightarrow>
      read_network E h' p = Some v)"
  using EnsureTags_in_place [OF assms(1-3)] FilterSystemTags_in_place [OF assms(1-3)]
    mirrorAWSTags_in_place [OF assms] rewritten_others [OF assms(1,2)] by blast

end
