(* ===== verification/MemoryConditions.thy ===== *)
theory MemoryConditions
  imports SeparateCopy MemoryTags
begin

text \<open>
  \<open>setStatusDefaults\<close> and \<open>updateConditions\<close> of \<open>gn/sdk.go\<close> in memory: the copy that is made first,
  the pointers to conditions the scan keeps, the assignments through them, and the pointers to the
  fields of the manager that go into the metadata. On values a pointer into the slice of
  conditions is an index; that this is right rests on the copy being a tree (\<open>SeparateCopy\<close>).
\<close>

section \<open>The structs of the ACK runtime\<close>

text \<open>
  The composite literals \<open>&ackv1alpha1.ResourceMetadata{}\<close> and \<open>&ackv1alpha1.Condition{Type: t}\<close>, and
  assignments to fields of these structs; what a field is assigned it is then read as.
\<close>

record 'x ack_fields =
  new_metadata :: 'x
  put_ARN :: "addr option \<Rightarrow> 'x \<Rightarrow> 'x"
  put_Region :: "addr option \<Rightarrow> 'x \<Rightarrow> 'x"
  put_Partition :: "addr option \<Rightarrow> 'x \<Rightarrow> 'x"
  put_OwnerAccountID :: "addr option \<Rightarrow> 'x \<Rightarrow> 'x"
  make_condition :: "string \<Rightarrow> 'x"
  put_Status :: "string \<Rightarrow> 'x \<Rightarrow> 'x"
  put_Message :: "addr option \<Rightarrow> 'x \<Rightarrow> 'x"

text \<open>An assignment of a pointer to a string: the other fields keep their values and their cells.\<close>

definition puts_pointer ::
  "('x, 'x, 'v) copier \<Rightarrow> (addr option \<Rightarrow> 'x \<Rightarrow> 'x) \<Rightarrow> (string option \<Rightarrow> 'v \<Rightarrow> 'v) \<Rightarrow> bool" where
  "puts_pointer c put upd \<longleftrightarrow> (\<forall>h x v p s. c_rd c h x = Some v \<longrightarrow> string_rd h p = Some s \<longrightarrow>
     c_rd c h (put p x) = Some (upd s v) \<and> c_rc c h (put p x) \<subseteq> c_rc c h x \<union> string_rc h p)"

definition ack_fields_ok :: "'x ext \<Rightarrow> 'x ack_fields \<Rightarrow> bool" where
  "ack_fields_ok E A \<longleftrightarrow>
     (\<forall>h. c_rd (ext_metadata E) h (new_metadata A) = Some empty_metadata \<and> c_rc (ext_metadata E) h (new_metadata A) = {}) \<and>
     puts_pointer (ext_metadata E) (put_ARN A) (\<lambda>s m. m\<lparr>ARN := s\<rparr>) \<and>
     puts_pointer (ext_metadata E) (put_Region A) (\<lambda>s m. m\<lparr>Region := s\<rparr>) \<and>
     puts_pointer (ext_metadata E) (put_Partition A) (\<lambda>s m. m\<lparr>Partition := s\<rparr>) \<and>
     puts_pointer (ext_metadata E) (put_OwnerAccountID A) (\<lambda>s m. m\<lparr>OwnerAccountID := s\<rparr>) \<and>
     (\<forall>h t. c_rd (ext_condition E) h (make_condition A t) = Some (new_condition t) \<and>
        c_rc (ext_condition E) h (make_condition A t) = {}) \<and>
     (\<forall>h x c s. c_rd (ext_condition E) h x = Some c \<longrightarrow>
        c_rd (ext_condition E) h (put_Status A s x) = Some (c\<lparr>cond_Status := s\<rparr>) \<and>
        c_rc (ext_condition E) h (put_Status A s x) \<subseteq> c_rc (ext_condition E) h x) \<and>
     puts_pointer (ext_condition E) (put_Message A) (\<lambda>s c. c\<lparr>cond_Message := s\<rparr>)"

text \<open>The addresses of the three fields of the manager.\<close>

record manager_mem =
  at_Region :: addr
  at_Partition :: addr
  at_AccountID :: addr

definition manager_lies :: "'x heap \<Rightarrow> manager_mem \<Rightarrow> ('w, 'e) resourceManager \<Rightarrow> bool" where
  "manager_lies h M rm \<longleftrightarrow> cells h (at_Region M) = Some (StringCell (awsRegion rm)) \<and>
     cells h (at_Partition M) = Some (StringCell (awsPartition rm)) \<and>
     cells h (at_AccountID M) = Some (StringCell (awsAccountID rm))"

section \<open>The functions\<close>

abbreviation md_ptr :: "'x network_mem \<Rightarrow> addr option" where
  "md_ptr n \<equiv> m_ACKResourceMetadata (m_Status n)"

abbreviation cs_ptr :: "'x network_mem \<Rightarrow> addr option" where
  "cs_ptr n \<equiv> m_Conditions (m_Status n)"

definition with_md :: "addr option \<Rightarrow> 'x network_mem \<Rightarrow> 'x network_mem" where
  "with_md p n = n\<lparr>m_Status := (m_Status n)\<lparr>m_ACKResourceMetadata := p\<rparr>\<rparr>"

definition with_cs :: "addr option \<Rightarrow> 'x network_mem \<Rightarrow> 'x network_mem" where
  "with_cs p n = n\<lparr>m_Status := (m_Status n)\<lparr>m_Conditions := p\<rparr>\<rparr>"

text \<open>\<open>if md.F == nil { md.F = &rm.f }\<close>, and the elements of a slice of conditions.\<close>

definition default_field ::
  "'x ext \<Rightarrow> (resource_metadata \<Rightarrow> string option) \<Rightarrow> (addr option \<Rightarrow> 'x \<Rightarrow> 'x) \<Rightarrow> addr \<Rightarrow> addr \<Rightarrow>
   'x heap \<Rightarrow> 'x heap outcome" where
  "default_field E get put f q h =
     and_then (network_at h q) (\<lambda>n. and_then (deref (md_ptr n)) (\<lambda>a.
     and_then (deref (Option.bind (cells h a) un_ext)) (\<lambda>x.
     and_then (deref (c_rd (ext_metadata E) h x)) (\<lambda>m.
       Ret (if get m = None then store a (ExtCell (put (Some f) x)) h else h)))))"

definition conditions_at :: "'x heap \<Rightarrow> addr option \<Rightarrow> addr option list outcome" where
  "conditions_at h p = (case p of None \<Rightarrow> Ret [] | Some b \<Rightarrow> deref (Option.bind (cells h b) un_array))"

definition setStatusDefaults_mem ::
  "'x ext \<Rightarrow> 'x ack_fields \<Rightarrow> manager_mem \<Rightarrow> addr \<Rightarrow> 'x heap \<Rightarrow> 'x heap outcome" where
  "setStatusDefaults_mem E A M q h =
     and_then (network_at h q) (\<lambda>n.
     let h = (if md_ptr n = None
              then let (a, h) = alloc (ExtCell (new_metadata A)) h in store q (NetworkCell (with_md (Some a) n)) h
              else h)
     in and_then (default_field E Region (put_Region A) (at_Region M) q h) (\<lambda>h.
        and_then (default_field E Partition (put_Partition A) (at_Partition M) q h) (\<lambda>h.
        and_then (default_field E OwnerAccountID (put_OwnerAccountID A) (at_AccountID M) q h) (\<lambda>h.
        and_then (network_at h q) (\<lambda>n.
          Ret (if cs_ptr n = None
               then let (b, h) = alloc (ArrayCell []) h in store q (NetworkCell (with_cs (Some b) n)) h
               else h))))))"

fun scan_conditions_mem ::
  "'x ext \<Rightarrow> ('e, 'd) ack_runtime \<Rightarrow> addr option list \<Rightarrow> 'x heap \<Rightarrow>
   addr option \<times> addr option \<times> addr option \<Rightarrow> (addr option \<times> addr option \<times> addr option) outcome" where
  "scan_conditions_mem E rt [] h s = Ret s"
| "scan_conditions_mem E rt (p # ps) h (t, r, y) =
     and_then (deref p) (\<lambda>a. and_then (deref (Option.bind (cells h a) un_ext)) (\<lambda>x.
     and_then (deref (c_rd (ext_condition E) h x)) (\<lambda>c.
       scan_conditions_mem E rt ps h
         (if cond_Type c = ConditionTypeTerminal rt then Some a else t,
          if cond_Type c = ConditionTypeRecoverable rt then Some a else r,
          if cond_Type c = ConditionTypeResourceSynced rt then Some a else y))))"

definition set_condition_mem ::
  "'x ack_fields \<Rightarrow> addr \<Rightarrow> string \<Rightarrow> addr option \<Rightarrow> 'x heap \<Rightarrow> 'x heap outcome" where
  "set_condition_mem A a status msg h =
     and_then (deref (Option.bind (cells h a) un_ext)) (\<lambda>x.
       Ret (store a (ExtCell (put_Message A msg (put_Status A status x))) h))"

text \<open>A slice that \<open>append\<close> makes longer gets a new array: the one it has is full.\<close>

definition ensure_condition_mem ::
  "'x ack_fields \<Rightarrow> addr \<Rightarrow> addr option \<Rightarrow> string \<Rightarrow> 'x heap \<Rightarrow> (addr \<times> 'x heap) outcome" where
  "ensure_condition_mem A q p ty h =
     (case p of
        Some a \<Rightarrow> Ret (a, h)
      | None \<Rightarrow>
          (let (a, h) = alloc (ExtCell (make_condition A ty)) h
           in and_then (network_at h q) (\<lambda>n. and_then (conditions_at h (cs_ptr n)) (\<lambda>ps.
                let (b, h) = alloc (ArrayCell (ps @ [Some a])) h
                in Ret (a, store q (NetworkCell (with_cs (Some b) n)) h)))))"

definition mark_conditions_mem ::
  "'x ack_fields \<Rightarrow> ('e, 'd) ack_runtime \<Rightarrow> 'e option \<Rightarrow> addr \<Rightarrow> addr option \<Rightarrow> addr option \<Rightarrow> 'x heap \<Rightarrow>
   (addr option \<times> addr option \<times> 'x heap) outcome" where
  "mark_conditions_mem A rt err q terminalCondition recoverableCondition h =
     (if is_terminal rt err
      then
        and_then (ensure_condition_mem A q terminalCondition (ConditionTypeTerminal rt) h) (\<lambda>(a, h).
        and_then (terminal_message rt (the err)) (\<lambda>errorMessage.
          let (m, h) = alloc (StringCell errorMessage) h
          in and_then (set_condition_mem A a ConditionTrue (Some m) h) (\<lambda>h.
               Ret (Some a, recoverableCondition, h))))
      else
        and_then (case terminalCondition of
                    None \<Rightarrow> Ret h
                  | Some a \<Rightarrow> set_condition_mem A a ConditionFalse None h) (\<lambda>h.
          case err of
            Some e \<Rightarrow>
              and_then (ensure_condition_mem A q recoverableCondition (ConditionTypeRecoverable rt) h) (\<lambda>(a, h).
                let (m, h) = alloc (StringCell (recoverable_message rt e)) h
                in and_then (set_condition_mem A a ConditionTrue (Some m) h) (\<lambda>h.
                     Ret (terminalCondition, Some a, h)))
          | None \<Rightarrow>
              and_then (case recoverableCondition of
                          None \<Rightarrow> Ret h
                        | Some a \<Rightarrow> set_condition_mem A a ConditionFalse None h) (\<lambda>h.
                Ret (terminalCondition, recoverableCondition, h))))"

definition updateConditions_mem ::
  "'x ext \<Rightarrow> 'x ack_fields \<Rightarrow> manager_mem \<Rightarrow> ('e, 'd) ack_runtime \<Rightarrow> addr option \<Rightarrow> bool \<Rightarrow> 'e option \<Rightarrow> 'x heap \<Rightarrow>
   (addr option \<times> bool \<times> 'x heap) outcome" where
  "updateConditions_mem E A M rt p success err h =
     and_then (GlobalNetwork_DeepCopy_mem E p h) (\<lambda>(p', h). and_then (deref p') (\<lambda>q.
     and_then (setStatusDefaults_mem E A M q h) (\<lambda>h. and_then (network_at h q) (\<lambda>n.
     and_then (conditions_at h (cs_ptr n)) (\<lambda>ps.
     and_then (scan_conditions_mem E rt ps h (None, None, None))
       (\<lambda>(terminalCondition, recoverableCondition, syncCondition).
     and_then (mark_conditions_mem A rt err q terminalCondition recoverableCondition h)
       (\<lambda>(terminalCondition, recoverableCondition, h).
       Ret (if terminalCondition \<noteq> None \<or> recoverableCondition \<noteq> None \<or> syncCondition \<noteq> None
            then (Some q, True, h) else (None, False, h)))))))))"

section \<open>The object being changed\<close>

text \<open>What an object is made of beside its metadata and its conditions.\<close>

definition rest_of ::
  "'x network_mem \<Rightarrow> 'x \<times> spec_mem \<times> addr option \<times> addr option \<times> addr option" where
  "rest_of n = (m_ObjectMeta n, m_Spec n, m_CreatedAt (m_Status n), m_GlobalNetworkID (m_Status n), m_State (m_Status n))"

definition rest_rd where
  "rest_rd E = pair_rd (c_rd (ext_ObjectMeta E)) (pair_rd spec_rd (pair_rd (c_rd (ext_time E)) (pair_rd string_rd string_rd)))"

definition rest_rc where
  "rest_rc E = pair_rc (c_rc (ext_ObjectMeta E)) (pair_rc spec_rc (others_rc E))"

lemma rest_of_with [simp]:
  "rest_of (with_md p n) = rest_of n" "rest_of (with_cs p n) = rest_of n"
  "md_ptr (with_md p n) = p" "cs_ptr (with_md p n) = cs_ptr n" "md_ptr (with_cs p n) = md_ptr n" "cs_ptr (with_cs p n) = p"
  "m_TypeMeta (with_md p n) = m_TypeMeta n" "m_TypeMeta (with_cs p n) = m_TypeMeta n"
  by (simp_all add: rest_of_def with_md_def with_cs_def)

lemma parts_copy:
  assumes "ext_ok E"
  shows "deep_copy (rest_rd E) (rest_rc E)
      (pair_cp (c_cp (ext_ObjectMeta E)) (pair_cp Spec_DeepCopyInto (pair_cp (time_cp E) (pair_cp string_cp string_cp))))"
    and "deep_copy (metadata_rd E) (metadata_rc E) (metadata_cp E)"
    and "deep_copy (condition_rd E) (condition_rc E) (ptr_cp un_ext ExtCell (c_cp (ext_condition E)))"
    and "deep_copy (conditions_rd E) (conditions_rc E) (conditions_cp E)"
proof -
  show "deep_copy (rest_rd E) (rest_rc E)
      (pair_cp (c_cp (ext_ObjectMeta E)) (pair_cp Spec_DeepCopyInto (pair_cp (time_cp E) (pair_cp string_cp string_cp))))"
    unfolding rest_rd_def rest_rc_def others_rc_def
    using assms time_copy [OF assms] string_copy.deep_copy_axioms spec_copy.deep_copy_axioms
    by (intro deep_copy_pair) (simp_all add: ext_ok_def copier_ok_def)
  show "deep_copy (metadata_rd E) (metadata_rc E) (metadata_cp E)"
    and c: "deep_copy (condition_rd E) (condition_rc E) (ptr_cp un_ext ExtCell (c_cp (ext_condition E)))"
    using assms by (intro deep_copy_ptr; simp add: ext_ok_def copier_ok_def)+
  show "deep_copy (conditions_rd E) (conditions_rc E) (conditions_cp E)"
    by (rule deep_copy_slice [OF c]) (simp_all add: ptr_rd_def ptr_rc_def)
qed

lemma network_rd_parts:
  "network_rd E h n = Some g \<longleftrightarrow> m_TypeMeta n = TypeMeta g \<and>
     rest_rd E h (rest_of n) = Some (ObjectMeta g, Spec g, CreatedAt (Status g), GlobalNetworkID (Status g), State (Status g)) \<and>
     metadata_rd E h (md_ptr n) = Some (ACKResourceMetadata (Status g)) \<and>
     conditions_rd E h (cs_ptr n) = Some (Conditions (Status g))"
  by (cases g; cases "Status g")
    (fastforce simp: network_rd_def status_rd_def rest_rd_def rest_of_def pair_rd_def plain_rd_def split: option.splits)

lemma network_rc_parts:
  "network_rc E h n = rest_rc E h (rest_of n) \<union> metadata_rc E h (md_ptr n) \<union> conditions_rc E h (cs_ptr n)"
  by (auto simp: network_rc_def status_rc_def rest_rc_def others_rc_def rest_of_def pair_rc_def plain_rc_def)

abbreviation md_apart where "md_apart E \<equiv> ptr_apart un_ext (c_rc (ext_metadata E)) whole"
abbreviation c_apart where "c_apart E \<equiv> ptr_apart un_ext (c_rc (ext_condition E)) whole"
abbreviation cs_apart where "cs_apart E \<equiv> array_apart un_array (condition_rc E) (c_apart E)"

lemma parts_tree:
  assumes "ext_ok E"
  shows "separate_copy (metadata_rd E) (metadata_rc E) (metadata_cp E) (md_apart E)"
    and "separate_copy (condition_rd E) (condition_rc E) (ptr_cp un_ext ExtCell (c_cp (ext_condition E))) (c_apart E)"
    and "separate_copy (conditions_rd E) (conditions_rc E) (conditions_cp E) (cs_apart E)"
proof -
  show "separate_copy (metadata_rd E) (metadata_rc E) (metadata_cp E) (md_apart E)"
    and c: "separate_copy (condition_rd E) (condition_rc E) (ptr_cp un_ext ExtCell (c_cp (ext_condition E))) (c_apart E)"
    using assms by (intro separate_ptr separate_whole; simp add: ext_ok_def copier_ok_def)+
  show "separate_copy (conditions_rd E) (conditions_rc E) (conditions_cp E) (cs_apart E)"
    unfolding slice_rd_def slice_rc_def slice_cp_def
    by (rule separate_array [OF c]) (simp_all add: ptr_rd_def ptr_rc_def ptr_apart_def)
qed

text \<open>
  The object at \<open>q\<close>, made since \<open>h0\<close>, while it is changed: nothing old has changed, its parts have no cell in
  common, and all of it is new except cells in \<open>F\<close> (the fields of the manager) its metadata points to.
\<close>

definition owned ::
  "'x ext \<Rightarrow> 'x heap \<Rightarrow> addr set \<Rightarrow> addr \<Rightarrow> 'x heap \<Rightarrow> 'x network_mem \<Rightarrow> GlobalNetwork \<Rightarrow> bool" where
  "owned E h0 F q h n g \<longleftrightarrow> heap_ok h \<and> extends h0 h \<and> next_addr h0 \<le> q \<and>
     cells h q = Some (NetworkCell n) \<and> network_rd E h n = Some g \<and> q \<notin> network_rc E h n \<and>
     rest_rc E h (rest_of n) \<inter> metadata_rc E h (md_ptr n) = {} \<and>
     rest_rc E h (rest_of n) \<inter> conditions_rc E h (cs_ptr n) = {} \<and>
     metadata_rc E h (md_ptr n) \<inter> conditions_rc E h (cs_ptr n) = {} \<and>
     rest_rc E h (rest_of n) \<union> conditions_rc E h (cs_ptr n) \<subseteq> {next_addr h0..} \<and>
     metadata_rc E h (md_ptr n) \<subseteq> {next_addr h0..} \<union> F \<and>
     (\<forall>a. md_ptr n = Some a \<longrightarrow> next_addr h0 \<le> a) \<and> md_apart E h (md_ptr n) \<and> cs_apart E h (cs_ptr n)"

lemma ownedD:
  assumes "owned E h0 F q h n g"
  shows "heap_ok h" and "extends h0 h" and "next_addr h0 \<le> q" and "cells h q = Some (NetworkCell n)"
    and "network_rd E h n = Some g" and "q \<notin> rest_rc E h (rest_of n)" and "q \<notin> metadata_rc E h (md_ptr n)"
    and "q \<notin> conditions_rc E h (cs_ptr n)"
    and "rest_rc E h (rest_of n) \<inter> metadata_rc E h (md_ptr n) = {}"
    and "rest_rc E h (rest_of n) \<inter> conditions_rc E h (cs_ptr n) = {}"
    and "metadata_rc E h (md_ptr n) \<inter> conditions_rc E h (cs_ptr n) = {}"
    and "rest_rc E h (rest_of n) \<subseteq> {next_addr h0..}" and "conditions_rc E h (cs_ptr n) \<subseteq> {next_addr h0..}"
    and "md_ptr n = Some a \<Longrightarrow> next_addr h0 \<le> a" and "md_apart E h (md_ptr n)" and "cs_apart E h (cs_ptr n)"
    and "metadata_rc E h (md_ptr n) \<subseteq> {next_addr h0..} \<union> F"
  using assms by (simp_all add: owned_def network_rc_parts)

lemma un_Some:
  "un_network c = Some n \<longleftrightarrow> c = NetworkCell n" "un_ext c = Some x \<longleftrightarrow> c = ExtCell x"
  "un_array c = Some ps \<longleftrightarrow> c = ArrayCell ps" "un_string c = Some s \<longleftrightarrow> c = StringCell s"
  by (cases c; auto simp: un_network_def un_ext_def un_array_def un_string_def)+

text \<open>The copy \<open>DeepCopy\<close> makes is owned.\<close>

lemma owned_copy:
  assumes E: "ext_ok E" and ok: "heap_ok h" and v: "read_network E h (Some a) = Some (Some g)"
  obtains q n h' where "GlobalNetwork_DeepCopy_mem E (Some a) h = Ret (Some q, h')" and "owned E h F q h' n g"
proof -
  note t = network_ptr_tree [OF E]
  obtain p' h' where c: "GlobalNetwork_DeepCopy_mem E (Some a) h = Ret (p', h')" "extends h h'" "heap_ok h'"
    "read_network E h' p' = Some (Some g)" "network_cells E h' p' \<subseteq> {next_addr h..<next_addr h'}"
    using deep_copy.cp_law [OF separate_copy.axioms(1) [OF t] ok v] by blast
  have apart: "ptr_apart un_network (network_rc E) (network_apart E) h' p'" by (rule separate_copy.cp_apart [OF t ok v c(1)])
  obtain q n where q: "p' = Some q" "Option.bind (cells h' q) un_network = Some n" "network_rd E h' n = Some g"
    using c(4) by (auto simp: ptr_rd_def bind_eq_Some_conv split: option.splits)
  have cell: "cells h' q = Some (NetworkCell n)"
    using q(2) by (auto simp: bind_eq_Some_conv un_Some)
  have range: "insert q (network_rc E h' n) \<subseteq> {next_addr h..<next_addr h'}" using c(5) by (simp add: q ptr_rc_def)
  have tree: "q \<notin> network_rc E h' n" "network_apart E h' n" using apart q(1,2) by (simp_all add: ptr_apart_def)
  have st: "status_apart E h' (m_Status n)" and
    rest: "c_rc (ext_ObjectMeta E) h' (m_ObjectMeta n) \<inter> (spec_rc h' (m_Spec n) \<union> status_rc E h' (m_Status n)) = {}"
      "spec_rc h' (m_Spec n) \<inter> status_rc E h' (m_Status n) = {}"
    using tree(2) by (simp_all add: network_apart_def pair_apart_def pair_rc_def)
  have "md_ptr n = Some b \<Longrightarrow> b \<in> metadata_rc E h' (md_ptr n)" for b
    using q(3) by (auto simp: network_rd_parts ptr_rd_def ptr_rc_def bind_eq_Some_conv split: option.splits)
  then have head: "md_ptr n = Some b \<Longrightarrow> next_addr h \<le> b" for b using range by (fastforce simp: network_rc_parts)
  have "owned E h F q h' n g"
    unfolding owned_def
    using c(2,3) cell q(3) tree(1) range st rest head
    by (auto simp: network_rc_parts status_apart_def pair_apart_def rest_rc_def rest_of_def pair_rc_def status_rc_def others_rc_def)
  with c(1) q(1) show ?thesis using that by blast
qed

section \<open>Changing it\<close>

definition with_parts :: "resource_metadata option \<Rightarrow> condition option slice \<Rightarrow> GlobalNetwork \<Rightarrow> GlobalNetwork" where
  "with_parts md cs g = g\<lparr>Status := (Status g)\<lparr>ACKResourceMetadata := md, Conditions := cs\<rparr>\<rparr>"

lemma with_parts_sel [simp]:
  "TypeMeta (with_parts md cs g) = TypeMeta g" "ObjectMeta (with_parts md cs g) = ObjectMeta g"
  "Spec (with_parts md cs g) = Spec g" "CreatedAt (Status (with_parts md cs g)) = CreatedAt (Status g)"
  "GlobalNetworkID (Status (with_parts md cs g)) = GlobalNetworkID (Status g)"
  "State (Status (with_parts md cs g)) = State (Status g)"
  "ACKResourceMetadata (Status (with_parts md cs g)) = md" "Conditions (Status (with_parts md cs g)) = cs"
  by (simp_all add: with_parts_def)

text \<open>The parts of a owned object, as they read, and below the next free address.\<close>

lemma owned_parts:
  assumes "ext_ok E" and "owned E h0 F q h n g"
  shows "rest_rd E h (rest_of n) = Some (ObjectMeta g, Spec g, CreatedAt (Status g), GlobalNetworkID (Status g), State (Status g))"
    and "metadata_rd E h (md_ptr n) = Some (ACKResourceMetadata (Status g))"
    and "conditions_rd E h (cs_ptr n) = Some (Conditions (Status g))"
    and "rest_rc E h (rest_of n) \<subseteq> {..<next_addr h}" and "metadata_rc E h (md_ptr n) \<subseteq> {..<next_addr h}"
    and "conditions_rc E h (cs_ptr n) \<subseteq> {..<next_addr h}" and "q < next_addr h"
proof -
  note d = ownedD [OF assms(2)]
  show r: "rest_rd E h (rest_of n) = Some (ObjectMeta g, Spec g, CreatedAt (Status g), GlobalNetworkID (Status g), State (Status g))"
    and m: "metadata_rd E h (md_ptr n) = Some (ACKResourceMetadata (Status g))"
    and c: "conditions_rd E h (cs_ptr n) = Some (Conditions (Status g))"
    using d(5) by (simp_all add: network_rd_parts)
  show "rest_rc E h (rest_of n) \<subseteq> {..<next_addr h}" "metadata_rc E h (md_ptr n) \<subseteq> {..<next_addr h}"
    "conditions_rc E h (cs_ptr n) \<subseteq> {..<next_addr h}"
    by (rule deep_copy.rc_bound [OF parts_copy(1) [OF assms(1)] d(1) r]
        deep_copy.rc_bound [OF parts_copy(2) [OF assms(1)] d(1) m] deep_copy.rc_bound [OF parts_copy(4) [OF assms(1)] d(1) c])+
  show "q < next_addr h" using d(1,4) by (simp add: heap_ok_def)
qed

text \<open>The metadata changes: its cells, the cell of the object and new ones.\<close>

lemma owned_md:
  assumes E: "ext_ok E" and H: "owned E h0 F q h n g" and h': "heap_ok h'" "extends h0 h'"
    and cell: "cells h' q = Some (NetworkCell (with_md p n))"
    and same: "\<And>a. a < next_addr h \<Longrightarrow> a \<noteq> q \<Longrightarrow> a \<notin> metadata_rc E h (md_ptr n) \<Longrightarrow> cells h' a = cells h a"
    and rd: "metadata_rd E h' p = Some md" and rc: "metadata_rc E h' p \<subseteq> metadata_rc E h (md_ptr n) \<union> P"
    and P: "P \<inter> insert q (rest_rc E h (rest_of n) \<union> conditions_rc E h (cs_ptr n)) = {}" "P \<subseteq> {next_addr h0..} \<union> F"
    and apart: "md_apart E h' p" and head: "\<And>a. p = Some a \<Longrightarrow> next_addr h0 \<le> a"
  shows "owned E h0 F q h' (with_md p n) (with_parts md (Conditions (Status g)) g)"
proof -
  note d = ownedD [OF H] and v = owned_parts [OF E H]
  have r: "cells h' a = cells h a" if "a \<in> rest_rc E h (rest_of n)" for a using same [of a] that d(6,9) v(4) by blast
  have c: "cells h' a = cells h a" if "a \<in> conditions_rc E h (cs_ptr n)" for a using same [of a] that d(8,11) v(6) by blast
  note r' = deep_copy.rd_local [OF parts_copy(1) [OF E] v(1) r] and c' = deep_copy.rd_local [OF parts_copy(4) [OF E] v(3) c]
  have "cs_apart E h' (cs_ptr n)"
    using separate_copy.apart_local [OF parts_tree(3) [OF E] v(3), of h'] c d(16) by blast
  moreover have "network_rd E h' (with_md p n) = Some (with_parts md (Conditions (Status g)) g)"
    using d(5) rd r' c' by (simp add: network_rd_parts)
  moreover have "q \<notin> network_rc E h' (with_md p n)" using d(6-8) r' c' rc P by (auto simp: network_rc_parts)
  moreover have "rest_rc E h' (rest_of n) \<inter> metadata_rc E h' p = {}" using r' rc P d(9) by blast
  moreover have "metadata_rc E h' p \<inter> conditions_rc E h' (cs_ptr n) = {}" using c' rc P d(11) by blast
  moreover have "metadata_rc E h' p \<subseteq> {next_addr h0..} \<union> F" using rc P(2) d(17) by blast
  ultimately show ?thesis using h' d(3,10,12,13) cell apart head r' c' by (simp add: owned_def)
qed

text \<open>The conditions change.\<close>

lemma owned_cs:
  assumes E: "ext_ok E" and H: "owned E h0 F q h n g" and h': "heap_ok h'" "extends h0 h'"
    and cell: "cells h' q = Some (NetworkCell (with_cs p n))"
    and same: "\<And>a. a < next_addr h \<Longrightarrow> a \<noteq> q \<Longrightarrow> a \<notin> conditions_rc E h (cs_ptr n) \<Longrightarrow> cells h' a = cells h a"
    and rd: "conditions_rd E h' p = Some cs" and rc: "conditions_rc E h' p \<subseteq> conditions_rc E h (cs_ptr n) \<union> P"
    and P: "P \<inter> insert q (rest_rc E h (rest_of n) \<union> metadata_rc E h (md_ptr n)) = {}" "P \<subseteq> {next_addr h0..}"
    and apart: "cs_apart E h' p"
  shows "owned E h0 F q h' (with_cs p n) (with_parts (ACKResourceMetadata (Status g)) cs g)"
proof -
  note d = ownedD [OF H] and v = owned_parts [OF E H]
  have r: "cells h' a = cells h a" if "a \<in> rest_rc E h (rest_of n)" for a using same [of a] that d(6,10) v(4) by blast
  have m: "cells h' a = cells h a" if "a \<in> metadata_rc E h (md_ptr n)" for a using same [of a] that d(7,11) v(5) by blast
  note r' = deep_copy.rd_local [OF parts_copy(1) [OF E] v(1) r] and m' = deep_copy.rd_local [OF parts_copy(2) [OF E] v(2) m]
  have "md_apart E h' (md_ptr n)"
    using separate_copy.apart_local [OF parts_tree(1) [OF E] v(2), of h'] m d(15) by blast
  moreover have "network_rd E h' (with_cs p n) = Some (with_parts (ACKResourceMetadata (Status g)) cs g)"
    using d(5) rd r' m' by (simp add: network_rd_parts)
  moreover have "q \<notin> network_rc E h' (with_cs p n)" using d(6-8) r' m' rc P by (auto simp: network_rc_parts)
  moreover have "rest_rc E h' (rest_of n) \<inter> conditions_rc E h' p = {}" using r' rc P d(10) by blast
  moreover have "metadata_rc E h' (md_ptr n) \<inter> conditions_rc E h' p = {}" using m' rc P d(11) by blast
  moreover have "conditions_rc E h' p \<subseteq> {next_addr h0..}" using rc P(2) d(13) by blast
  ultimately show ?thesis using h' d(3,9,12,14,17) cell apart r' m' by (simp add: owned_def)
qed

text \<open>Something unrelated is made.\<close>

lemma owned_alloc:
  assumes E: "ext_ok E" and H: "owned E h0 F q h n g"
  shows "owned E h0 F q (snd (alloc c h)) n g"
proof -
  note d = ownedD [OF H] and v = owned_parts [OF E H] and a = alloc_law [OF ownedD(1) [OF H], of c]
  have id: "with_md (md_ptr n) n = n" "with_parts (ACKResourceMetadata (Status g)) (Conditions (Status g)) g = g"
    by (simp_all add: with_md_def with_parts_def)
  note m = deep_copy.rd_extends [OF parts_copy(2) [OF E] d(1) v(2) a(1)]
  have "owned E h0 F q (snd (alloc c h)) (with_md (md_ptr n) n) (with_parts (ACKResourceMetadata (Status g)) (Conditions (Status g)) g)"
    by (rule owned_md [OF E H a(2) _ _ _ _ _ _ _ separate_copy.apart_extends [OF parts_tree(1) [OF E] d(1) v(2) a(1) d(15)],
          where P = "{}"])
      (use m d v a(1) in \<open>auto simp: with_md_def intro: extends_trans\<close>)
  then show ?thesis unfolding id .
qed

end
