(* ===== verification/ConditionsRefined.thy ===== *)
theory ConditionsRefined
  imports MemoryConditions
begin

text \<open>
  \<open>setStatusDefaults\<close> and \<open>updateConditions\<close> do in memory what they do on values: every step of the
  functions of \<open>MemoryConditions\<close> keeps the object owned and changes the value it reads as in the way
  the functions of \<open>StatusConditions\<close> do.
\<close>

section \<open>The defaults\<close>

lemma network_at_owned: "owned E h0 F q h n g \<Longrightarrow> network_at h q = Ret n"
  by (simp add: network_at_def ownedD)

lemma with_own_md [simp]: "with_md (md_ptr n) n = n" and with_own_cs [simp]: "with_cs (cs_ptr n) n = n"
  by (simp_all add: with_md_def with_cs_def)

lemma with_own_parts [simp]:
  "with_parts (ACKResourceMetadata (Status g)) (Conditions (Status g)) g = g"
  "with_parts md cs (with_parts md' cs' g) = with_parts md cs g"
  by (simp_all add: with_parts_def)

lemma alloc_pair: "(case alloc c h of (a, h') \<Rightarrow> f a h') = f (next_addr h) (snd (alloc c h))"
  by (simp add: case_prod_unfold)

lemma with_read_parts:
  "ACKResourceMetadata (Status g) = md \<Longrightarrow> with_parts md (Conditions (Status g)) g = g"
  "Conditions (Status g) = cs \<Longrightarrow> with_parts (ACKResourceMetadata (Status g)) cs g = g"
  by auto

lemma owned_metadata:
  assumes "owned E h0 F q h n g" and "ACKResourceMetadata (Status g) = Some md"
  obtains a x where "md_ptr n = Some a" and "cells h a = Some (ExtCell x)" and "c_rd (ext_metadata E) h x = Some md"
    and "metadata_rc E h (md_ptr n) = insert a (c_rc (ext_metadata E) h x)" and "a \<notin> c_rc (ext_metadata E) h x"
    and "next_addr h0 \<le> a"
proof -
  have rd: "metadata_rd E h (md_ptr n) = Some (Some md)" using ownedD(5) [OF assms(1)] assms(2) by (simp add: network_rd_parts)
  then obtain a x where a: "md_ptr n = Some a" "cells h a = Some (ExtCell x)" "c_rd (ext_metadata E) h x = Some md"
    by (auto simp: ptr_rd_def bind_eq_Some_conv un_Some split: option.splits)
  show ?thesis
    by (rule that [OF a]) (use a ownedD(14,15) [OF assms(1)] in \<open>simp_all add: ptr_rc_def ptr_apart_def\<close>)
qed

lemma put_metadata_owned:
  assumes E: "ext_ok E" and put: "puts_pointer (ext_metadata E) put upd" and H: "owned E h0 F q h n g"
    and a: "md_ptr n = Some a" "cells h a = Some (ExtCell x)" "c_rd (ext_metadata E) h x = Some md"
    and f: "cells h f = Some (StringCell s)" "f \<in> {next_addr h0..} \<union> F" "f \<noteq> a"
    and free: "f \<notin> insert q (rest_rc E h (rest_of n) \<union> conditions_rc E h (cs_ptr n))"
  shows "owned E h0 F q (store a (ExtCell (put (Some f) x)) h) n (with_parts (Some (upd (Some s) md)) (Conditions (Status g)) g)"
    and "metadata_rc E (store a (ExtCell (put (Some f) x)) h) (md_ptr n) \<subseteq> insert f (metadata_rc E h (md_ptr n))"
proof -
  note d = ownedD [OF H] and v = owned_parts [OF E H]
  let ?x = "put (Some f) x" and ?h' = "store a (ExtCell (put (Some f) x)) h"
  have m: "metadata_rc E h (md_ptr n) = insert a (c_rc (ext_metadata E) h x)" "a \<notin> c_rc (ext_metadata E) h x" "next_addr h0 \<le> a"
    using a d(14,15) by (simp_all add: ptr_rc_def ptr_apart_def)
  have string: "string_rd h (Some f) = Some (Some s)" "string_rc h (Some f) = {f}"
    using f(1) by (simp_all add: string_rd_def string_rc_def ptr_rd_def ptr_rc_def plain_rd_def plain_rc_def)
  have x: "c_rd (ext_metadata E) h ?x = Some (upd (Some s) md)" "c_rc (ext_metadata E) h ?x \<subseteq> c_rc (ext_metadata E) h x \<union> {f}"
    using put a(3) string unfolding puts_pointer_def by blast+
  have mc: "deep_copy (c_rd (ext_metadata E)) (c_rc (ext_metadata E)) (c_cp (ext_metadata E))"
    using E by (simp add: ext_ok_def copier_ok_def)
  have "cells ?h' c = cells h c" if "c \<in> c_rc (ext_metadata E) h ?x" for c using that x(2) m(2) f(3) by auto
  note x' = deep_copy.rd_local [OF mc x(1) this]
  show rc: "metadata_rc E ?h' (md_ptr n) \<subseteq> insert f (metadata_rc E h (md_ptr n))"
    using a(1) m(1) x' x(2) by (auto simp: ptr_rc_def)
  have "owned E h0 F q ?h' (with_md (md_ptr n) n) (with_parts (Some (upd (Some s) md)) (Conditions (Status g)) g)"
  proof (rule owned_md [OF E H, where P = "{f}"])
    have "a < next_addr h" using a(2) d(1) by (simp add: heap_ok_def)
    then show "heap_ok ?h'" "extends h0 ?h'" using store_law [OF d(1,2) m(3)] by blast+
    show "cells ?h' q = Some (NetworkCell (with_md (md_ptr n) n))" using d(4,7) m(1) by auto
    show "cells ?h' c = cells h c" if "c \<notin> metadata_rc E h (md_ptr n)" for c using that m(1) by auto
    show "metadata_rd E ?h' (md_ptr n) = Some (Some (upd (Some s) md))" using a(1) x' by (simp add: ptr_rd_def)
    show "md_apart E ?h' (md_ptr n)" using a(1) m(2) x' x(2) f(3) by (auto simp: ptr_apart_def whole_def)
  qed (use d(14) f(2) free rc in auto)
  then show "owned E h0 F q ?h' n (with_parts (Some (upd (Some s) md)) (Conditions (Status g)) g)" by simp
qed

lemma default_field_owned:
  assumes E: "ext_ok E" and put: "puts_pointer (ext_metadata E) put upd" and H: "owned E h0 F q h n g"
    and ok: "heap_ok h0" and f: "cells h0 f = Some (StringCell s)" "f \<in> F" and md: "ACKResourceMetadata (Status g) = Some md"
  shows "\<exists>h'. default_field E get put f q h = Ret h' \<and>
    owned E h0 F q h' n (with_parts (Some (if get md = None then upd (Some s) md else md)) (Conditions (Status g)) g)"
proof -
  note d = ownedD [OF H]
  obtain a x where a: "md_ptr n = Some a" "cells h a = Some (ExtCell x)" "c_rd (ext_metadata E) h x = Some md" "next_addr h0 \<le> a"
    by (rule owned_metadata [OF H md])
  have run: "default_field E get put f q h = Ret (if get md = None then store a (ExtCell (put (Some f) x)) h else h)"
    using a network_at_owned [OF H] by (simp add: default_field_def)
  have fh: "f < next_addr h0" "cells h f = Some (StringCell s)" using ok d(2) f(1) by (auto simp: heap_ok_def extends_def)
  have "f \<notin> insert q (rest_rc E h (rest_of n) \<union> conditions_rc E h (cs_ptr n))" using fh(1) d(3,12,13) by auto
  from put_metadata_owned(1) [OF E put H a(1-3) fh(2) _ _ this] run H md f(2) fh(1) a(4)
  show ?thesis by (cases "get md") (auto simp: with_read_parts)
qed

lemma default_step:
  assumes "ext_ok E" and "owned E h0 F q h n (with_parts (Some md) cs g)" and "heap_ok h0"
    and "puts_pointer (ext_metadata E) put upd" and "cells h0 f = Some (StringCell s)" and "f \<in> F"
  shows "\<exists>h'. default_field E get put f q h = Ret h' \<and>
    owned E h0 F q h' n (with_parts (Some (if get md = None then upd (Some s) md else md)) cs g)"
  using default_field_owned [OF assms(1,4,2,3,5,6), of md get] by simp

lemma new_metadata_owned:
  assumes E: "ext_ok E" and A: "ack_fields_ok E A" and H: "owned E h0 F q h n g"
  shows "owned E h0 F q (store q (NetworkCell (with_md (Some (next_addr h)) n)) (snd (alloc (ExtCell (new_metadata A)) h)))
    (with_md (Some (next_addr h)) n) (with_parts (Some empty_metadata) (Conditions (Status g)) g)"
    (is "owned E h0 F q ?h' _ _")
proof (rule owned_md [OF E H, where P = "{next_addr h}"])
  note d = ownedD [OF H] and v = owned_parts [OF E H] and al = alloc_law [OF ownedD(1) [OF H], of "ExtCell (new_metadata A)"]
  have le: "next_addr h0 \<le> next_addr h" using d(2) by (simp add: extends_def)
  have x: "c_rd (ext_metadata E) k (new_metadata A) = Some empty_metadata" "c_rc (ext_metadata E) k (new_metadata A) = {}" for k
    using A by (simp_all add: ack_fields_ok_def)
  show "heap_ok ?h'" "extends h0 ?h'"
    using store_law [OF al(2) extends_trans [OF d(2) al(1)] d(3)] v(7) by simp_all
  show "metadata_rd E ?h' (Some (next_addr h)) = Some (Some empty_metadata)" using v(7) x by (simp add: ptr_rd_def)
  show "metadata_rc E ?h' (Some (next_addr h)) \<subseteq> metadata_rc E h (md_ptr n) \<union> {next_addr h}"
    using v(7) x by (simp add: ptr_rc_def)
  show "{next_addr h} \<inter> insert q (rest_rc E h (rest_of n) \<union> conditions_rc E h (cs_ptr n)) = {}" using v(4,6,7) by auto
  show "md_apart E ?h' (Some (next_addr h))" using v(7) x by (simp add: ptr_apart_def whole_def)
  show "next_addr h0 \<le> a" if "Some (next_addr h) = Some a" for a using that le by simp
  show "{next_addr h} \<subseteq> {next_addr h0..} \<union> F" using le by simp
qed simp_all

lemma new_conditions_owned:
  assumes E: "ext_ok E" and H: "owned E h0 F q h n g" and nil: "cs_ptr n = None"
  shows "owned E h0 F q (store q (NetworkCell (with_cs (Some (next_addr h)) n)) (snd (alloc (ArrayCell []) h)))
    (with_cs (Some (next_addr h)) n) (with_parts (ACKResourceMetadata (Status g)) (Some []) g)"
    (is "owned E h0 F q ?h' _ _")
proof (rule owned_cs [OF E H, where P = "{next_addr h}"])
  note d = ownedD [OF H] and v = owned_parts [OF E H] and al = alloc_law [OF ownedD(1) [OF H], of "ArrayCell []"]
  show "heap_ok ?h'" "extends h0 ?h'"
    using store_law [OF al(2) extends_trans [OF d(2) al(1)] d(3)] v(7) by simp_all
  show "conditions_rd E ?h' (Some (next_addr h)) = Some (Some [])" using v(7) by (simp add: slice_rd_def array_rd_def)
  show "conditions_rc E ?h' (Some (next_addr h)) \<subseteq> conditions_rc E h (cs_ptr n) \<union> {next_addr h}"
    using v(7) by (simp add: slice_rc_def array_rc_def)
  show "{next_addr h} \<inter> insert q (rest_rc E h (rest_of n) \<union> metadata_rc E h (md_ptr n)) = {}" using v(4,5,7) by auto
  show "{next_addr h} \<subseteq> {next_addr h0..}" using d(2) by (simp add: extends_def)
  show "cs_apart E ?h' (Some (next_addr h))" using v(7) by (simp add: array_apart_def elems_apart_def)
qed simp_all

lemma setStatusDefaults_owned:
  assumes E: "ext_ok E" and A: "ack_fields_ok E A" and H: "owned E h0 F q h n g"
    and ok: "heap_ok h0" and M: "manager_lies h0 M rm" and F: "{at_Region M, at_Partition M, at_AccountID M} \<subseteq> F"
  shows "\<exists>h' n'. setStatusDefaults_mem E A M q h = Ret h' \<and> owned E h0 F q h' n' (setStatusDefaults rm g) \<and> cs_ptr n' \<noteq> None"
proof -
  let ?cs = "Conditions (Status g)" and ?md = "case ACKResourceMetadata (Status g) of None \<Rightarrow> empty_metadata | Some md \<Rightarrow> md"
  let ?alloc = "alloc (ExtCell (new_metadata A)) h"
  define h1 where "h1 = (if md_ptr n = None then store q (NetworkCell (with_md (Some (next_addr h)) n)) (snd ?alloc) else h)"
  define n1 where "n1 = (if md_ptr n = None then with_md (Some (next_addr h)) n else n)"
  have "md_ptr n = None \<longleftrightarrow> ACKResourceMetadata (Status g) = None"
    using owned_parts(2) [OF E H] by (cases "md_ptr n"; cases "ACKResourceMetadata (Status g)") (simp_all add: ptr_rd_def)
  then have H1: "owned E h0 F q h1 n1 (with_parts (Some ?md) ?cs g)"
    using new_metadata_owned [OF E A H] H by (auto simp: h1_def n1_def with_read_parts split: option.split)
  let ?m1 = "if Region ?md = None then ?md\<lparr>Region := Some (awsRegion rm)\<rparr> else ?md"
  let ?m2 = "if Partition ?m1 = None then ?m1\<lparr>Partition := Some (awsPartition rm)\<rparr> else ?m1"
  let ?m3 = "if OwnerAccountID ?m2 = None then ?m2\<lparr>OwnerAccountID := Some (awsAccountID rm)\<rparr> else ?m2"
  have put: "puts_pointer (ext_metadata E) (put_Region A) (\<lambda>s m. m\<lparr>Region := s\<rparr>)"
    "puts_pointer (ext_metadata E) (put_Partition A) (\<lambda>s m. m\<lparr>Partition := s\<rparr>)"
    "puts_pointer (ext_metadata E) (put_OwnerAccountID A) (\<lambda>s m. m\<lparr>OwnerAccountID := s\<rparr>)"
    using A by (simp_all add: ack_fields_ok_def)
  have field: "cells h0 (at_Region M) = Some (StringCell (awsRegion rm))"
    "cells h0 (at_Partition M) = Some (StringCell (awsPartition rm))"
    "cells h0 (at_AccountID M) = Some (StringCell (awsAccountID rm))"
    using M by (simp_all add: manager_lies_def)
  obtain h2 where h2: "default_field E Region (put_Region A) (at_Region M) q h1 = Ret h2" "owned E h0 F q h2 n1 (with_parts (Some ?m1) ?cs g)"
    using default_step [OF E H1 ok put(1) field(1), of Region] F by blast
  obtain h3 where h3: "default_field E Partition (put_Partition A) (at_Partition M) q h2 = Ret h3"
    "owned E h0 F q h3 n1 (with_parts (Some ?m2) ?cs g)"
    using default_step [OF E h2(2) ok put(2) field(2), of Partition] F by blast
  obtain h4 where h4: "default_field E OwnerAccountID (put_OwnerAccountID A) (at_AccountID M) q h3 = Ret h4"
    "owned E h0 F q h4 n1 (with_parts (Some ?m3) ?cs g)"
    using default_step [OF E h3(2) ok put(3) field(3), of OwnerAccountID] F by blast
  have val: "setStatusDefaults rm g = with_parts (Some ?m3) (Some (elems ?cs)) g"
    by (simp add: setStatusDefaults_def with_parts_def Let_def split: option.split)
  have run: "setStatusDefaults_mem E A M q h = Ret (if cs_ptr n1 = None
      then store q (NetworkCell (with_cs (Some (next_addr h4)) n1)) (snd (alloc (ArrayCell []) h4)) else h4)"
    using network_at_owned [OF H] network_at_owned [OF h4(2)] h2(1) h3(1) h4(1)
    by (cases "md_ptr n"; cases "cs_ptr n1") (simp_all add: setStatusDefaults_mem_def alloc_pair Let_def h1_def)
  have "cs_ptr n1 = None \<longleftrightarrow> ?cs = None"
    using owned_parts(3) [OF E h4(2)] by (cases "cs_ptr n1"; cases ?cs) (simp_all add: slice_rd_def array_rd_def)
  then show ?thesis
    unfolding run val using new_conditions_owned [OF E h4(2)] h4(2)
    by (cases ?cs; cases "cs_ptr n1") (simp_all split del: if_split, use rest_of_with(6) in \<open>blast+\<close>)
qed

section \<open>The list of conditions\<close>

text \<open>The owned object has the conditions \<open>cs\<close>, and the elements of their slice are \<open>ps\<close>.\<close>

definition listed ::
  "'x ext \<Rightarrow> 'x heap \<Rightarrow> addr set \<Rightarrow> addr \<Rightarrow> 'x heap \<Rightarrow> 'x network_mem \<Rightarrow> GlobalNetwork \<Rightarrow> addr option list \<Rightarrow> condition option list \<Rightarrow> bool" where
  "listed E h0 F q h n g ps cs \<longleftrightarrow> owned E h0 F q h n (with_conditions cs g) \<and> conditions_at h (cs_ptr n) = Ret ps \<and> cs_ptr n \<noteq> None"

lemma listedD:
  assumes "listed E h0 F q h n g ps cs"
  obtains b where "cs_ptr n = Some b" and "cells h b = Some (ArrayCell ps)"
    and "list_all2 (\<lambda>p c. condition_rd E h p = Some c) ps cs"
    and "conditions_rc E h (cs_ptr n) = insert b (\<Union>p \<in> set ps. condition_rc E h p)"
    and "\<forall>p \<in> set ps. b \<notin> condition_rc E h p" and "elems_apart (condition_rc E) (c_apart E) h ps"
proof -
  have H: "owned E h0 F q h n (with_conditions cs g)" using assms by (simp add: listed_def)
  obtain b where b: "cs_ptr n = Some b" "cells h b = Some (ArrayCell ps)"
    using assms by (auto simp: listed_def conditions_at_def bind_eq_Some_conv un_Some outcome_simps split: option.splits)
  have rd: "array_rd un_array (condition_rd E) h (Some b) = Some (Some cs)"
    using ownedD(5) [OF H] b by (simp add: network_rd_parts slice_rd_def)
  obtain es us where es: "Option.bind (cells h b) un_array = Some es" "Some cs = Some us"
    "list_all2 (\<lambda>p c. condition_rd E h p = Some c) es us"
    "array_rc un_array (condition_rc E) h (Some b) = insert b (\<Union>p \<in> set es. condition_rc E h p)"
    using rd by (rule array_rd_Some)
  have [simp]: "es = ps" "us = cs" using es(1,2) b(2) by simp_all
  show ?thesis
    by (rule that [OF b]) (use es(3,4) ownedD(16) [OF H] b in \<open>simp_all add: array_apart_def slice_rc_def\<close>)
qed

lemma with_parts_conditions:
  "with_parts (ACKResourceMetadata (Status g)) (Some cs') (with_conditions cs g) = with_conditions cs' g"
  by (simp add: with_parts_def with_conditions_def)

lemma condition_copier: "ext_ok E \<Longrightarrow> deep_copy (c_rd (ext_condition E)) (c_rc (ext_condition E)) (c_cp (ext_condition E))"
  by (simp add: ext_ok_def copier_ok_def)

text \<open>Elements whose cells are unchanged.\<close>

lemma elements_kept:
  assumes E: "ext_ok E" and L: "listed E h0 F q h n g ps cs" and i: "i < length ps"
    and same: "\<And>a. a \<in> condition_rc E h (ps ! i) \<Longrightarrow> cells h' a = cells h a"
  shows "condition_rd E h' (ps ! i) = Some (cs ! i)" and "condition_rc E h' (ps ! i) = condition_rc E h (ps ! i)"
    and "c_apart E h' (ps ! i)"
proof -
  obtain b where b: "list_all2 (\<lambda>p c. condition_rd E h p = Some c) ps cs" "elems_apart (condition_rc E) (c_apart E) h ps"
    by (rule listedD [OF L])
  have rd: "condition_rd E h (ps ! i) = Some (cs ! i)" using b(1) i by (simp add: list_all2_conv_all_nth)
  from deep_copy.rd_local [OF parts_copy(3) [OF E] rd same]
  show "condition_rd E h' (ps ! i) = Some (cs ! i)" "condition_rc E h' (ps ! i) = condition_rc E h (ps ! i)" by simp_all
  show "c_apart E h' (ps ! i)"
    using separate_copy.apart_local [OF parts_tree(2) [OF E] rd, of h'] same b(2) i by (simp add: elems_apart_def)
qed

text \<open>\<open>append\<close> of a new condition.\<close>

lemma append_listed:
  fixes ty :: string
  assumes E: "ext_ok E" and A: "ack_fields_ok E A" and L: "listed E h0 F q h n g ps cs"
  defines "a \<equiv> next_addr h"
  defines "h' \<equiv> store q (NetworkCell (with_cs (Some (Suc a)) n))
    (snd (alloc (ArrayCell (ps @ [Some a])) (snd (alloc (ExtCell (make_condition A ty)) h))))"
  shows "listed E h0 F q h' (with_cs (Some (Suc a)) n) g (ps @ [Some a]) (cs @ [Some (new_condition ty)])"
proof -
  have H: "owned E h0 F q h n (with_conditions cs g)" using L by (simp add: listed_def)
  note d = ownedD [OF H] and v = owned_parts [OF E H]
  obtain b where b: "conditions_rc E h (cs_ptr n) = insert b (\<Union>p \<in> set ps. condition_rc E h p)"
    "list_all2 (\<lambda>p c. condition_rd E h p = Some c) ps cs" "elems_apart (condition_rc E) (c_apart E) h ps"
    by (rule listedD [OF L])
  have le: "next_addr h0 \<le> a" using d(2) by (simp add: extends_def a_def)
  have qa: "q < a" using v(7) by (simp add: a_def)
  have cell: "cells h' a = Some (ExtCell (make_condition A ty))" "cells h' (Suc a) = Some (ArrayCell (ps @ [Some a]))"
    "cells h' q = Some (NetworkCell (with_cs (Some (Suc a)) n))" "\<And>c. c < a \<Longrightarrow> c \<noteq> q \<Longrightarrow> cells h' c = cells h c"
    using qa by (simp_all add: h'_def a_def)
  have old: "condition_rc E h p \<subseteq> {..<a}" "q \<notin> condition_rc E h p" if "p \<in> set ps" for p
    using that v(6) d(8) b(1) by (auto simp: a_def)
  have x: "condition_rd E h' (Some a) = Some (Some (new_condition ty))" "condition_rc E h' (Some a) = {a}" "c_apart E h' (Some a)"
    using A cell(1) by (simp_all add: ack_fields_ok_def ptr_rd_def ptr_rc_def ptr_apart_def whole_def)
  have kept: "condition_rd E h' (ps ! i) = Some (cs ! i)" "condition_rc E h' (ps ! i) = condition_rc E h (ps ! i)"
    "c_apart E h' (ps ! i)" if "i < length ps" for i
    using elements_kept [OF E L that, of h'] cell(4) old [OF nth_mem [OF that]] by blast+
  have len: "length ps = length cs" using b(2) by (rule list_all2_lengthD)
  have all: "list_all2 (\<lambda>p c. condition_rd E h' p = Some c) (ps @ [Some a]) (cs @ [Some (new_condition ty)])"
    using kept(1) x(1) len by (auto simp: list_all2_conv_all_nth nth_append)
  have rcs: "condition_rc E h' p = condition_rc E h p" if "p \<in> set ps" for p using that kept(2) by (auto simp: in_set_conv_nth)
  have "owned E h0 F q h' (with_cs (Some (Suc a)) n) (with_parts (ACKResourceMetadata (Status (with_conditions cs g)))
      (Some (cs @ [Some (new_condition ty)])) (with_conditions cs g))"
  proof (rule owned_cs [OF E H, where P = "{a, Suc a}"])
    note a1 = alloc_law [OF d(1), of "ExtCell (make_condition A ty)"]
    note a2 = alloc_law [OF a1(2), of "ArrayCell (ps @ [Some a])"]
    show "heap_ok h'" "extends h0 h'"
      using store_law [OF a2(2) extends_trans [OF extends_trans [OF d(2) a1(1)] a2(1)] d(3)] v(7) by (simp_all add: h'_def)
    show "conditions_rd E h' (Some (Suc a)) = Some (Some (cs @ [Some (new_condition ty)]))"
      using all cell(2) by (simp add: slice_rd_def array_rd_def list_rd_Some)
    show "conditions_rc E h' (Some (Suc a)) \<subseteq> conditions_rc E h (cs_ptr n) \<union> {a, Suc a}"
      using cell(2) x(2) rcs b(1) by (auto simp: slice_rc_def array_rc_def)
    show "{a, Suc a} \<inter> insert q (rest_rc E h (rest_of n) \<union> metadata_rc E h (md_ptr n)) = {}"
      using v(4,5) qa by (auto simp: a_def)
    have "elems_apart (condition_rc E) (c_apart E) h' (ps @ [Some a])"
      using kept x b(3) old by (fastforce simp: elems_apart_def nth_append less_Suc_eq in_set_conv_nth)
    moreover have "Suc a \<notin> condition_rc E h p" if "p \<in> set ps" for p using old [OF that] by auto
    ultimately show "cs_apart E h' (Some (Suc a))" using cell(2) x(2) rcs by (simp add: array_apart_def)
  qed (use le cell qa in \<open>auto simp: a_def\<close>)
  then show ?thesis using cell(2) by (simp add: listed_def with_parts_conditions conditions_at_def)
qed

text \<open>The assignments through a pointer to a condition.\<close>

lemma put_condition:
  assumes E: "ext_ok E" and A: "ack_fields_ok E A" and x: "c_rd (ext_condition E) h x = Some c"
    and p: "string_rd h p = Some s"
  shows "c_rd (ext_condition E) h (put_Message A p (put_Status A st x)) = Some (c\<lparr>cond_Status := st, cond_Message := s\<rparr>)"
    and "c_rc (ext_condition E) h (put_Message A p (put_Status A st x)) \<subseteq> c_rc (ext_condition E) h x \<union> string_rc h p"
proof -
  have st: "c_rd (ext_condition E) h (put_Status A st x) = Some (c\<lparr>cond_Status := st\<rparr>)"
    "c_rc (ext_condition E) h (put_Status A st x) \<subseteq> c_rc (ext_condition E) h x"
    using A x by (simp_all add: ack_fields_ok_def)
  have "puts_pointer (ext_condition E) (put_Message A) (\<lambda>s c. c\<lparr>cond_Message := s\<rparr>)"
    using A by (simp add: ack_fields_ok_def)
  then have "c_rd (ext_condition E) h (put_Message A p (put_Status A st x)) = Some ((c\<lparr>cond_Status := st\<rparr>)\<lparr>cond_Message := s\<rparr>) \<and>
      c_rc (ext_condition E) h (put_Message A p (put_Status A st x)) \<subseteq> c_rc (ext_condition E) h (put_Status A st x) \<union> string_rc h p"
    using st(1) p unfolding puts_pointer_def by blast
  with st(2) show "c_rd (ext_condition E) h (put_Message A p (put_Status A st x)) = Some (c\<lparr>cond_Status := st, cond_Message := s\<rparr>)"
    "c_rc (ext_condition E) h (put_Message A p (put_Status A st x)) \<subseteq> c_rc (ext_condition E) h x \<union> string_rc h p"
    by auto
qed

lemma listed_at:
  assumes "listed E h0 F q h n g ps cs" and "k < length ps" and "ps ! k = Some a"
  obtains x c where "cells h a = Some (ExtCell x)" and "c_rd (ext_condition E) h x = Some c" and "cs ! k = Some c"
    and "condition_rc E h (Some a) = insert a (c_rc (ext_condition E) h x)" and "a \<notin> c_rc (ext_condition E) h x"
proof -
  obtain b where b: "list_all2 (\<lambda>p c. condition_rd E h p = Some c) ps cs" "elems_apart (condition_rc E) (c_apart E) h ps"
    by (rule listedD [OF assms(1)])
  have ka: "Some a \<in> set ps" using assms(2,3) nth_mem by metis
  have "condition_rd E h (Some a) = Some (cs ! k)" using b(1) assms(2,3) by (auto simp: list_all2_conv_all_nth)
  then obtain x c where x: "cells h a = Some (ExtCell x)" "c_rd (ext_condition E) h x = Some c" "Some c = cs ! k"
    by (auto simp: ptr_rd_def bind_eq_Some_conv un_Some)
  show ?thesis
    by (rule that [OF x(1,2) x(3) [symmetric]]) (use x(1) b(2) ka in \<open>auto simp: ptr_rc_def elems_apart_def ptr_apart_def\<close>)
qed

text \<open>The cell of one condition changes: the other elements keep theirs.\<close>

lemma elements_changed:
  assumes E: "ext_ok E" and L: "listed E h0 F q h n g ps cs" and k: "k < length ps" "ps ! k = Some a"
    and same: "\<forall>e. e \<noteq> a \<longrightarrow> cells h' e = cells h e"
    and rd: "condition_rd E h' (ps ! k) = Some (Some c)" and apart: "c_apart E h' (ps ! k)"
    and rc: "condition_rc E h' (ps ! k) \<subseteq> condition_rc E h (ps ! k) \<union> P"
    and P: "\<forall>e \<in> set ps. P \<inter> condition_rc E h e = {}"
  shows "list_all2 (\<lambda>p c. condition_rd E h' p = Some c) ps (cs[k := Some c])"
    and "\<And>e. e \<in> set ps \<Longrightarrow> condition_rc E h' e \<subseteq> condition_rc E h e \<union> P"
    and "elems_apart (condition_rc E) (c_apart E) h' ps"
proof -
  obtain b where b: "list_all2 (\<lambda>p c. condition_rd E h p = Some c) ps cs" "elems_apart (condition_rc E) (c_apart E) h ps"
    by (rule listedD [OF L])
  have other: "condition_rc E h (ps ! i) \<inter> condition_rc E h (ps ! j) = {}" if "i < length ps" "j < length ps" "i \<noteq> j" for i j
  proof -
    have "condition_rc E h (ps ! l) \<inter> condition_rc E h (ps ! m) = {}" if "l < m" "m < length ps" for l m
      using that b(2) by (simp add: elems_apart_def)
    from this [of i j] this [of j i] that show ?thesis by (cases i j rule: linorder_cases) auto
  qed
  have a: "a \<in> condition_rc E h (ps ! k)" using listed_at [OF L k] k(2) by (metis insertI1)
  have kept: "condition_rd E h' (ps ! i) = Some (cs ! i)" "condition_rc E h' (ps ! i) = condition_rc E h (ps ! i)"
    "c_apart E h' (ps ! i)" if i: "i < length ps" "i \<noteq> k" for i
  proof -
    have "a \<notin> condition_rc E h (ps ! i)" using other [OF i(1) k(1) i(2)] a by auto
    then have "cells h' e = cells h e" if "e \<in> condition_rc E h (ps ! i)" for e using that same by metis
    from elements_kept [OF E L i(1) this] show "condition_rd E h' (ps ! i) = Some (cs ! i)"
      "condition_rc E h' (ps ! i) = condition_rc E h (ps ! i)" "c_apart E h' (ps ! i)" by blast+
  qed
  show "list_all2 (\<lambda>p c. condition_rd E h' p = Some c) ps (cs[k := Some c])"
    using b(1) kept(1) rd k(1) by (auto simp: list_all2_conv_all_nth nth_list_update)
  show "condition_rc E h' e \<subseteq> condition_rc E h e \<union> P" if "e \<in> set ps" for e
    using that rc kept(2) by (metis Un_upper1 in_set_conv_nth)
  have free: "P \<inter> condition_rc E h (ps ! i) = {}" if "i < length ps" for i using P that by simp
  have "condition_rc E h' (ps ! i) \<inter> condition_rc E h' (ps ! j) = {}" if ij: "i < j" "j < length ps" for i j
  proof -
    have d: "condition_rc E h (ps ! i) \<inter> condition_rc E h (ps ! j) = {}" using other ij by simp
    consider "i = k" | "j = k" | "i \<noteq> k" "j \<noteq> k" by blast
    then show ?thesis
    proof cases
      case 1 then show ?thesis using d rc free [of j] kept(2) [of j] ij by auto
    next
      case 2 then show ?thesis using d rc free [of i] kept(2) [of i] ij by auto
    next
      case 3 then show ?thesis using d kept(2) [of i] kept(2) [of j] ij by auto
    qed
  qed
  moreover have "c_apart E h' e" if "e \<in> set ps" for e using that apart kept(3) by (metis in_set_conv_nth)
  ultimately show "elems_apart (condition_rc E) (c_apart E) h' ps" by (simp add: elems_apart_def)
qed

lemma set_listed:
  assumes E: "ext_ok E" and A: "ack_fields_ok E A" and L: "listed E h0 F q h n g ps cs"
    and k: "k < length ps" "ps ! k = Some a" and p: "string_rd h p = Some s"
    and fresh: "string_rc h p \<inter> network_cells E h (Some q) = {}" and new: "string_rc h p \<subseteq> {next_addr h0..}"
  shows "\<exists>h'. set_condition_mem A a st p h = Ret h' \<and> listed E h0 F q h' n g ps (set_condition k st s cs)"
proof -
  have H: "owned E h0 F q h n (with_conditions cs g)" using L by (simp add: listed_def)
  note d = ownedD [OF H] and v = owned_parts [OF E H]
  obtain b where b: "cs_ptr n = Some b" "cells h b = Some (ArrayCell ps)" "\<forall>p \<in> set ps. b \<notin> condition_rc E h p"
    "conditions_rc E h (cs_ptr n) = insert b (\<Union>p \<in> set ps. condition_rc E h p)"
    by (rule listedD [OF L])
  obtain x c where x: "cells h a = Some (ExtCell x)" "c_rd (ext_condition E) h x = Some c" "cs ! k = Some c"
    "condition_rc E h (Some a) = insert a (c_rc (ext_condition E) h x)" "a \<notin> c_rc (ext_condition E) h x"
    by (rule listed_at [OF L k])
  have cells: "network_cells E h (Some q) = insert q (rest_rc E h (rest_of n) \<union> metadata_rc E h (md_ptr n) \<union> conditions_rc E h (cs_ptr n))"
    using d(4) by (simp add: ptr_rc_def network_rc_parts)
  have conds: "condition_rc E h e \<subseteq> conditions_rc E h (cs_ptr n)" if "e \<in> set ps" for e using that b(4) by blast
  have ka: "Some a \<in> set ps" using k nth_mem by metis
  have ac: "a \<in> conditions_rc E h (cs_ptr n)" "a \<notin> string_rc h p" "a \<noteq> b" using conds [OF ka] x(4) fresh cells b(3) ka by auto
  let ?x = "put_Message A p (put_Status A st x)" and ?c = "c\<lparr>cond_Status := st, cond_Message := s\<rparr>"
  let ?h' = "store a (ExtCell (put_Message A p (put_Status A st x))) h" and ?cs = "set_condition k st s cs"
  note put = put_condition [OF E A x(2) p, of st]
  have "cells ?h' e = cells h e" if "e \<in> c_rc (ext_condition E) h ?x" for e using that put(2) x(5) ac(2) by auto
  note x' = deep_copy.rd_local [OF condition_copier [OF E] put(1) this]
  have new_k: "condition_rd E ?h' (ps ! k) = Some (Some ?c)" "c_apart E ?h' (ps ! k)"
    "condition_rc E ?h' (ps ! k) \<subseteq> condition_rc E h (ps ! k) \<union> string_rc h p"
    using x' put(2) x(4,5) ac(2) k(2) by (auto simp: ptr_rd_def ptr_rc_def ptr_apart_def whole_def)
  have free: "\<forall>e \<in> set ps. string_rc h p \<inter> condition_rc E h e = {}" using fresh cells conds by blast
  have same: "\<forall>e. e \<noteq> a \<longrightarrow> cells ?h' e = cells h e" by simp
  note el = elements_changed [OF E L k same new_k free]
  have cs: "?cs = cs[k := Some ?c]" using x(3) by (simp add: set_condition_def)
  have "owned E h0 F q ?h' (with_cs (cs_ptr n) n)
      (with_parts (ACKResourceMetadata (Status (with_conditions cs g))) (Some ?cs) (with_conditions cs g))"
  proof (rule owned_cs [OF E H, where P = "string_rc h p"])
    show "heap_ok ?h'" "extends h0 ?h'" using store_law [OF d(1,2), of a] ac(1) d(13) v(6) by auto
    show "cells ?h' q = Some (NetworkCell (with_cs (cs_ptr n) n))" using d(4,8) ac(1) by auto
    show "cells ?h' e = cells h e" if "e \<notin> conditions_rc E h (cs_ptr n)" for e using that ac(1) by auto
    show "conditions_rd E ?h' (cs_ptr n) = Some (Some ?cs)"
      using b(1,2) ac(3) el(1) by (simp add: slice_rd_def array_rd_def list_rd_Some cs)
    have "conditions_rc E ?h' (cs_ptr n) = insert b (\<Union>e \<in> set ps. condition_rc E ?h' e)"
      using b(1,2) ac(3) by (simp add: slice_rc_def array_rc_def)
    then show "conditions_rc E ?h' (cs_ptr n) \<subseteq> conditions_rc E h (cs_ptr n) \<union> string_rc h p"
      unfolding b(4) using el(2) by blast
    show "string_rc h p \<inter> insert q (rest_rc E h (rest_of n) \<union> metadata_rc E h (md_ptr n)) = {}" using fresh cells by auto
    have "b \<notin> condition_rc E ?h' e" if "e \<in> set ps" for e using el(2) [OF that] b(3,4) cells fresh that by blast
    then show "cs_apart E ?h' (cs_ptr n)" using b(1,2) ac(3) el(3) by (simp add: array_apart_def)
  qed (use new in simp)
  then have "listed E h0 F q ?h' n g ps ?cs"
    unfolding with_own_cs using b(1,2) ac(3) by (simp add: listed_def with_parts_conditions conditions_at_def)
  then show ?thesis using x(1) by (simp add: set_condition_mem_def)
qed

lemma listed_alloc:
  assumes E: "ext_ok E" and L: "listed E h0 F q h n g ps cs"
  shows "listed E h0 F q (snd (alloc c h)) n g ps cs"
proof -
  have H: "owned E h0 F q h n (with_conditions cs g)" using L by (simp add: listed_def)
  obtain b where b: "cs_ptr n = Some b" "cells h b = Some (ArrayCell ps)" by (rule listedD [OF L])
  then have "b < next_addr h" using ownedD(1) [OF H] by (simp add: heap_ok_def)
  with b owned_alloc [OF E H, of c] show ?thesis by (simp add: listed_def conditions_at_def)
qed

lemma clear_listed:
  assumes "ext_ok E" and "ack_fields_ok E A" and "listed E h0 F q h n g ps cs" and "k < length ps" and "ps ! k = Some a"
  shows "\<exists>h'. set_condition_mem A a st None h = Ret h' \<and> listed E h0 F q h' n g ps (set_condition k st None cs)"
  by (rule set_listed [OF assms]) (simp_all add: string_rd_def string_rc_def ptr_rd_def ptr_rc_def)

lemma message_listed:
  assumes E: "ext_ok E" and A: "ack_fields_ok E A" and L: "listed E h0 F q h n g ps cs"
    and k: "k < length ps" "ps ! k = Some a"
  shows "\<exists>h'. set_condition_mem A a st (Some (next_addr h)) (snd (alloc (StringCell msg) h)) = Ret h' \<and>
    listed E h0 F q h' n g ps (set_condition k st (Some msg) cs)"
proof (rule set_listed [OF E A listed_alloc [OF E L] k])
  have H: "owned E h0 F q h n (with_conditions cs g)" using L by (simp add: listed_def)
  note d = ownedD [OF H] and a = alloc_law [OF ownedD(1) [OF H], of "StringCell msg"]
  have rd: "read_network E h (Some q) = Some (Some (with_conditions cs g))" using d(4,5) by (simp add: ptr_rd_def)
  have m: "string_rc (snd (alloc (StringCell msg) h)) (Some (next_addr h)) = {next_addr h}"
    by (simp add: string_rc_def ptr_rc_def plain_rc_def)
  have "network_cells E (snd (alloc (StringCell msg) h)) (Some q) \<subseteq> {..<next_addr h}"
    using deep_copy.rd_extends [OF network_ptr_copy [OF E] d(1) rd a(1)] deep_copy.rc_bound [OF network_ptr_copy [OF E] d(1) rd]
    by simp
  then show "string_rc (snd (alloc (StringCell msg) h)) (Some (next_addr h)) \<inter> network_cells E (snd (alloc (StringCell msg) h)) (Some q) = {}"
    unfolding m by auto
  show "string_rc (snd (alloc (StringCell msg) h)) (Some (next_addr h)) \<subseteq> {next_addr h0..}"
    using d(2) by (simp add: string_rc_def ptr_rc_def plain_rc_def extends_def)
qed (simp add: string_rd_def ptr_rd_def plain_rd_def)

section \<open>The update\<close>

text \<open>A pointer to a condition, and the index that stands for it in the functions on values.\<close>

definition points :: "addr option list \<Rightarrow> nat option \<Rightarrow> addr option \<Rightarrow> bool" where
  "points ps k p \<longleftrightarrow> (case k of None \<Rightarrow> p = None | Some i \<Rightarrow> i < length ps \<and> p = ps ! i \<and> p \<noteq> None)"

lemma scan_conditions_points:
  assumes "list_all2 (\<lambda>p c. condition_rd E h p = Some c) qs cs"
    and "points (pre @ qs) t t'" and "points (pre @ qs) r r'" and "points (pre @ qs) y y'"
  shows "case scan_conditions rt (length pre) cs (t, r, y) of
      Panic \<Rightarrow> scan_conditions_mem E rt qs h (t', r', y') = Panic
    | Ret (t1, r1, y1) \<Rightarrow> \<exists>t2 r2 y2. scan_conditions_mem E rt qs h (t', r', y') = Ret (t2, r2, y2) \<and>
        points (pre @ qs) t1 t2 \<and> points (pre @ qs) r1 r2 \<and> points (pre @ qs) y1 y2"
  using assms
proof (induction qs cs arbitrary: pre t r y t' r' y' rule: list_all2_induct)
  case Nil
  then show ?case by simp
next
  case (Cons p qs c cs)
  show ?case
  proof (cases c)
    case None
    with Cons.hyps show ?thesis by (cases p) (simp_all add: ptr_rd_def)
  next
    case (Some d)
    with Cons.hyps obtain a x where a: "p = Some a" "cells h a = Some (ExtCell x)" "c_rd (ext_condition E) h x = Some d"
      by (cases p) (auto simp: ptr_rd_def bind_eq_Some_conv un_Some)
    have at: "points (pre @ p # qs) (if b then Some (length pre) else k) (if b then Some a else k')"
      if "points (pre @ p # qs) k k'" for b k k'
      using that a(1) by (simp add: points_def)
    have step: "pre @ p # qs = (pre @ [p]) @ qs" by simp
    have run: "scan_conditions_mem E rt (p # qs) h (t', r', y') = scan_conditions_mem E rt qs h
        (if cond_Type d = ConditionTypeTerminal rt then Some a else t',
         if cond_Type d = ConditionTypeRecoverable rt then Some a else r',
         if cond_Type d = ConditionTypeResourceSynced rt then Some a else y')"
      by (simp add: a)
    show ?thesis
      unfolding run
      using Cons.IH [of "pre @ [p]", folded step, OF at [OF Cons.prems(1), of "cond_Type d = ConditionTypeTerminal rt"]
          at [OF Cons.prems(2), of "cond_Type d = ConditionTypeRecoverable rt"]
          at [OF Cons.prems(3), of "cond_Type d = ConditionTypeResourceSynced rt"]]
      by (simp add: Some split del: if_split)
  qed
qed

lemma ensure_listed:
  assumes E: "ext_ok E" and A: "ack_fields_ok E A" and L: "listed E h0 F q h n g ps cs" and p: "points ps k p"
  shows "\<exists>a h' n' ps'. ensure_condition_mem A q p ty h = Ret (a, h') \<and>
    listed E h0 F q h' n' g ps' (snd (ensure_condition k ty cs)) \<and>
    fst (ensure_condition k ty cs) < length ps' \<and> ps' ! fst (ensure_condition k ty cs) = Some a \<and> prefix ps ps'"
proof (cases k)
  case None
  have H: "owned E h0 F q h n (with_conditions cs g)" using L by (simp add: listed_def)
  obtain b where b: "cs_ptr n = Some b" "cells h b = Some (ArrayCell ps)" "list_all2 (\<lambda>p c. condition_rd E h p = Some c) ps cs"
    by (rule listedD [OF L])
  note at = ownedD(4) [OF listed_alloc [OF E L, unfolded listed_def, THEN conjunct1]]
  have "b < next_addr h" using b(2) ownedD(1) [OF H] by (simp add: heap_ok_def)
  then have cell: "cells (snd (alloc c h)) b = Some (ArrayCell ps)" for c using b(2) by simp
  let ?a = "next_addr h"
  have "length ps = length cs" using b(3) by (rule list_all2_lengthD)
  moreover have "p = None" using None p by (simp add: points_def)
  then have "ensure_condition_mem A q p ty h = Ret (?a, store q (NetworkCell (with_cs (Some (Suc ?a)) n))
      (snd (alloc (ArrayCell (ps @ [Some ?a])) (snd (alloc (ExtCell (make_condition A ty)) h)))))"
    using b(1) at cell
    by (simp add: ensure_condition_mem_def alloc_pair Let_def network_at_def conditions_at_def del: heap_simps(5))
  ultimately show ?thesis
    using None append_listed [OF E A L, of ty]
    by (intro exI [of _ ?a] exI [of _ "ps @ [Some ?a]"] exI conjI)
      (simp_all add: ensure_condition_def nth_append del: heap_simps(5))
next
  case (Some i)
  with p obtain a where "p = Some a" "i < length ps" "ps ! i = Some a" by (auto simp: points_def)
  with Some L show ?thesis
    by (auto simp: ensure_condition_mem_def ensure_condition_def intro!: exI [of _ ps] exI [of _ n])
qed

lemma points_prefix: "points ps k p \<Longrightarrow> prefix ps ps' \<Longrightarrow> points ps' k p"
  by (auto simp: points_def prefix_def nth_append split: option.splits)

lemma points_at: "k < length ps \<Longrightarrow> ps ! k = Some a \<Longrightarrow> points ps (Some k) (Some a)"
  by (simp add: points_def)

text \<open>The steps the branches share: clear a condition if it is there, raise one.\<close>

lemma clear_if_listed:
  assumes E: "ext_ok E" and A: "ack_fields_ok E A" and L: "listed E h0 F q h n g ps cs" and p: "points ps k p"
  shows "\<exists>h'. (case p of None \<Rightarrow> Ret h | Some a \<Rightarrow> set_condition_mem A a st None h) = Ret h' \<and>
    listed E h0 F q h' n g ps (case k of None \<Rightarrow> cs | Some i \<Rightarrow> set_condition i st None cs)"
  using p L clear_listed [OF E A L] by (cases k; cases p) (auto simp: points_def)

lemma raise_listed:
  assumes E: "ext_ok E" and A: "ack_fields_ok E A" and L: "listed E h0 F q h n g ps cs" and p: "points ps k p"
  shows "\<exists>a h1. ensure_condition_mem A q p ty h = Ret (a, h1) \<and>
    (\<forall>st msg. \<exists>h' n' ps'. set_condition_mem A a st (Some (next_addr h1)) (snd (alloc (StringCell msg) h1)) = Ret h' \<and>
      listed E h0 F q h' n' g ps' (set_condition (fst (ensure_condition k ty cs)) st (Some msg) (snd (ensure_condition k ty cs))) \<and>
      points ps' (Some (fst (ensure_condition k ty cs))) (Some a) \<and> prefix ps ps')"
proof -
  obtain a h1 n1 ps1 where e: "ensure_condition_mem A q p ty h = Ret (a, h1)"
    "listed E h0 F q h1 n1 g ps1 (snd (ensure_condition k ty cs))"
    "fst (ensure_condition k ty cs) < length ps1" "ps1 ! fst (ensure_condition k ty cs) = Some a" "prefix ps ps1"
    using ensure_listed [OF E A L p] by blast
  from e(1,5) points_at [OF e(3,4)] message_listed [OF E A e(2,3,4)] show ?thesis by blast
qed

lemma mark_conditions_listed:
  assumes E: "ext_ok E" and A: "ack_fields_ok E A" and L: "listed E h0 F q h n g ps cs"
    and t: "points ps t tp" and r: "points ps r rp"
  shows "case mark_conditions rt err cs t r of
      Panic \<Rightarrow> mark_conditions_mem A rt err q tp rp h = Panic
    | Ret (cs', t', r') \<Rightarrow> \<exists>tp' rp' h' n' ps'. mark_conditions_mem A rt err q tp rp h = Ret (tp', rp', h') \<and>
        listed E h0 F q h' n' g ps' cs' \<and> points ps' t' tp' \<and> points ps' r' rp'"
proof (cases "is_terminal rt err")
  case True
  obtain a h1 where e: "ensure_condition_mem A q tp (ConditionTypeTerminal rt) h = Ret (a, h1)"
    and up: "\<And>st msg. \<exists>h' n' ps'. set_condition_mem A a st (Some (next_addr h1)) (snd (alloc (StringCell msg) h1)) = Ret h' \<and>
      listed E h0 F q h' n' g ps' (set_condition (fst (ensure_condition t (ConditionTypeTerminal rt) cs)) st (Some msg)
        (snd (ensure_condition t (ConditionTypeTerminal rt) cs))) \<and>
      points ps' (Some (fst (ensure_condition t (ConditionTypeTerminal rt) cs))) (Some a) \<and> prefix ps ps'"
    using raise_listed [OF E A L t, of "ConditionTypeTerminal rt"] by blast
  show ?thesis
  proof (cases "terminal_message rt (the err)")
    case Panic
    with True e show ?thesis by (simp add: mark_conditions_def mark_conditions_mem_def case_prod_unfold Let_def)
  next
    case (Ret msg)
    with True e up [of ConditionTrue msg] points_prefix [OF r] show ?thesis
      by (fastforce simp: mark_conditions_def mark_conditions_mem_def case_prod_unfold Let_def simp del: heap_simps(5))
  qed
next
  case False
  obtain h1 where c: "(case tp of None \<Rightarrow> Ret h | Some a \<Rightarrow> set_condition_mem A a ConditionFalse None h) = Ret h1"
    "listed E h0 F q h1 n g ps (case t of None \<Rightarrow> cs | Some i \<Rightarrow> set_condition i ConditionFalse None cs)"
    using clear_if_listed [OF E A L t] by blast
  show ?thesis
  proof (cases err)
    case None
    with False c(1) clear_if_listed [OF E A c(2) r, of ConditionFalse] t r show ?thesis
      by (fastforce simp: mark_conditions_def mark_conditions_mem_def Let_def)
  next
    case (Some e)
    let ?cs = "case t of None \<Rightarrow> cs | Some i \<Rightarrow> set_condition i ConditionFalse None cs"
    let ?ens = "ensure_condition r (ConditionTypeRecoverable rt) ?cs"
    obtain a h2 h' n' ps' where u: "ensure_condition_mem A q rp (ConditionTypeRecoverable rt) h1 = Ret (a, h2)"
      "set_condition_mem A a ConditionTrue (Some (next_addr h2)) (snd (alloc (StringCell (recoverable_message rt e)) h2)) = Ret h'"
      "listed E h0 F q h' n' g ps' (set_condition (fst ?ens) ConditionTrue (Some (recoverable_message rt e)) (snd ?ens))"
      "points ps' (Some (fst ?ens)) (Some a)" "prefix ps ps'"
      using raise_listed [OF E A c(2) r, of "ConditionTypeRecoverable rt"] by blast
    have "mark_conditions_mem A rt err q tp rp h = Ret (tp, Some a, h')"
      using Some False c(1) u(1,2) by (simp add: mark_conditions_mem_def case_prod_unfold Let_def del: heap_simps(5))
    with Some False u(3,4) points_prefix [OF t u(5)] show ?thesis
      by (auto simp: mark_conditions_def case_prod_unfold Let_def)
  qed
qed

text \<open>The steps before the error is looked at: the copy, the defaults, the scan.\<close>

lemma prepared:
  assumes E: "ext_ok E" and A: "ack_fields_ok E A" and ok: "heap_ok h" and M: "manager_lies h M rm"
    and v: "read_network E h (Some a) = Some (Some g)"
  obtains q h1 h2 n ps where "GlobalNetwork_DeepCopy_mem E (Some a) h = Ret (Some q, h1)"
    and "setStatusDefaults_mem E A M q h1 = Ret h2" and "network_at h2 q = Ret n" and "conditions_at h2 (cs_ptr n) = Ret ps"
    and "listed E h {at_Region M, at_Partition M, at_AccountID M} q h2 n (setStatusDefaults rm g) ps (conds_of g)"
    and "case scan_conditions rt 0 (conds_of g) (None, None, None) of
        Panic \<Rightarrow> scan_conditions_mem E rt ps h2 (None, None, None) = Panic
      | Ret (t, r, y) \<Rightarrow> \<exists>tp rp yp. scan_conditions_mem E rt ps h2 (None, None, None) = Ret (tp, rp, yp) \<and>
          points ps t tp \<and> points ps r rp \<and> points ps y yp"
proof -
  let ?F = "{at_Region M, at_Partition M, at_AccountID M}" and ?g = "setStatusDefaults rm g"
  obtain q n h1 where c: "GlobalNetwork_DeepCopy_mem E (Some a) h = Ret (Some q, h1)" "owned E h ?F q h1 n g"
    by (rule owned_copy [OF E ok v])
  obtain h2 n2 where d: "setStatusDefaults_mem E A M q h1 = Ret h2" "owned E h ?F q h2 n2 ?g" "cs_ptr n2 \<noteq> None"
    using setStatusDefaults_owned [OF E A c(2) ok M] by blast
  have id: "with_conditions (conds_of g) ?g = ?g" by (simp add: with_conditions_def flip: setStatusDefaults_Conditions)
  obtain ps where ps: "conditions_at h2 (cs_ptr n2) = Ret ps"
    using owned_parts(3) [OF E d(2)] d(3)
    by (auto simp: conditions_at_def slice_rd_def array_rd_def bind_eq_Some_conv setStatusDefaults_Conditions)
  have L: "listed E h ?F q h2 n2 ?g ps (conds_of g)" unfolding listed_def id using d(2,3) ps by blast
  obtain b where b: "list_all2 (\<lambda>p c. condition_rd E h2 p = Some c) ps (conds_of g)" by (rule listedD [OF L])
  have none: "points ([] @ ps) None None" by (simp add: points_def)
  show ?thesis
    by (rule that [OF c(1) d(1) network_at_owned [OF d(2)] ps L])
      (use scan_conditions_points [OF b none none none, of rt, unfolded append_Nil list.size] in simp)
qed

lemma updateConditions_mem_law:
  assumes "ext_ok E" and "ack_fields_ok E A" and "heap_ok h" and "manager_lies h M rm"
    and "read_network E h (Some a) = Some (Some g)"
  shows "case updateConditions rt rm \<lparr>ko = Some g\<rparr> success err of
      Panic \<Rightarrow> updateConditions_mem E A M rt (Some a) success err h = Panic
    | Ret (r, updated) \<Rightarrow> \<exists>p h'. updateConditions_mem E A M rt (Some a) success err h = Ret (p, updated, h') \<and>
        heap_ok h' \<and> extends h h' \<and> (r = None \<longleftrightarrow> p = None) \<and>
        (\<forall>r'. r = Some r' \<longrightarrow> read_network E h' p = Some (ko r') \<and>
          network_cells E h' p \<subseteq> {next_addr h..} \<union> {at_Region M, at_Partition M, at_AccountID M})"
proof -
  let ?F = "{at_Region M, at_Partition M, at_AccountID M}" and ?g = "setStatusDefaults rm g"
  obtain q h1 h2 n ps where c: "GlobalNetwork_DeepCopy_mem E (Some a) h = Ret (Some q, h1)"
    "setStatusDefaults_mem E A M q h1 = Ret h2" "network_at h2 q = Ret n" "conditions_at h2 (cs_ptr n) = Ret ps"
    and L: "listed E h ?F q h2 n ?g ps (conds_of g)"
    and scan: "case scan_conditions rt 0 (conds_of g) (None, None, None) of
        Panic \<Rightarrow> scan_conditions_mem E rt ps h2 (None, None, None) = Panic
      | Ret (t, r, y) \<Rightarrow> \<exists>tp rp yp. scan_conditions_mem E rt ps h2 (None, None, None) = Ret (tp, rp, yp) \<and>
          points ps t tp \<and> points ps r rp \<and> points ps y yp"
    by (rule prepared [OF assms])
  note run = updateConditions_mem_def c and val = updateConditions_def Let_def
  show ?thesis
  proof (cases "scan_conditions rt 0 (conds_of g) (None, None, None)")
    case Panic
    with scan show ?thesis by (simp add: run val)
  next
    case (Ret k)
    note scanned = Ret
    obtain t r y where k: "k = (t, r, y)" by (cases k)
    obtain tp rp yp where s: "scan_conditions_mem E rt ps h2 (None, None, None) = Ret (tp, rp, yp)"
      "points ps t tp" "points ps r rp" "points ps y yp"
      using scan Ret k by auto
    have nil: "t = None \<longleftrightarrow> tp = None" if "points us t tp" for us t tp
      using that by (auto simp: points_def split: option.splits)
    note m = mark_conditions_listed [OF assms(1,2) L s(2,3), of rt err]
    show ?thesis
    proof (cases "mark_conditions rt err (conds_of g) t r")
      case Panic
      with m scanned k s(1) show ?thesis by (simp add: run val)
    next
      case (Ret j)
      obtain cs' t' r' where j: "j = (cs', t', r')" by (cases j)
      obtain tp' rp' h3 n3 ps' where u: "mark_conditions_mem A rt err q tp rp h2 = Ret (tp', rp', h3)"
        "listed E h ?F q h3 n3 ?g ps' cs'" "points ps' t' tp'" "points ps' r' rp'"
        using m Ret j by auto
      have H: "owned E h ?F q h3 n3 (with_conditions cs' ?g)" using u(2) by (simp add: listed_def)
      have "read_network E h3 (Some q) = Some (Some (with_conditions cs' ?g))" "network_cells E h3 (Some q) \<subseteq> {next_addr h..} \<union> ?F"
        using ownedD(3,4,5,12,13,17) [OF H] by (auto simp: ptr_rd_def ptr_rc_def network_rc_parts)
      with scanned k Ret j s(1) u(1) ownedD(1,2) [OF H] nil [OF s(4)] nil [OF u(3)] nil [OF u(4)]
      show ?thesis by (auto simp: run val with_conditions_def)
    qed
  qed
qed

section \<open>Properties\<close>

text \<open>
  C14: \<open>updateConditions\<close> does in memory what it does on values, although it changes conditions through
  pointers into the copy and hangs pointers to fields of the manager into it. For every object
  that lies in memory, whatever cells its parts share, it panics exactly if it does on values, and
  says \<open>updated\<close> exactly if it does there; then the object it returns is new, reads as the object made on
  values, and has no cell that was there before except the three fields of the manager. Every cell that was
  there keeps its content: the object that was given, and the manager, are not changed.
\<close>

theorem update_conditions_in_memory:
  assumes "ext_ok E" and "ack_fields_ok E A" and "heap_ok h" and "manager_lies h M rm"
    and "read_network E h (Some a) = Some (Some g)"
  shows "case updateConditions rt rm \<lparr>ko = Some g\<rparr> success err of
      Panic \<Rightarrow> updateConditions_mem E A M rt (Some a) success err h = Panic
    | Ret (r, updated) \<Rightarrow> \<exists>p h'. updateConditions_mem E A M rt (Some a) success err h = Ret (p, updated, h') \<and>
        extends h h' \<and> (r = None \<longleftrightarrow> p = None) \<and>
        (\<forall>r'. r = Some r' \<longrightarrow> read_network E h' p = Some (ko r') \<and>
          network_cells E h' p \<subseteq> {next_addr h..} \<union> {at_Region M, at_Partition M, at_AccountID M})"
  using updateConditions_mem_law [OF assms, of rt success err] by (fastforce split: outcome.splits)

end
