(* ===== verification/ExampleMemory.thy ===== *)
theory ExampleMemory
  imports Witnesses GeneratedCopies ConditionsRefined
begin

text \<open>
  A small memory for the properties about the heap. The structs of other packages are one type: a plain
  part and four words, which are pointers to strings and times.
\<close>

section \<open>The structs of other packages\<close>

datatype ex_plain =
    NoPlain
  | MetaPlain object_meta
  | CondPlain string string
  | TimePlain gotime
  | ListPlain list_meta

record ex_ext =
  x_plain :: ex_plain
  x_1 :: "addr option"
  x_2 :: "addr option"
  x_3 :: "addr option"
  x_4 :: "addr option"

definition plain_struct :: "ex_plain \<Rightarrow> ex_ext" where
  "plain_struct x = \<lparr>x_plain = x, x_1 = None, x_2 = None, x_3 = None, x_4 = None\<rparr>"

definition un_time :: "ex_ext cell \<Rightarrow> gotime option" where
  "un_time c = (case c of ExtCell x \<Rightarrow> (case x_plain x of TimePlain t \<Rightarrow> Some t | _ \<Rightarrow> None) | _ \<Rightarrow> None)"

definition ex_time_c :: "(ex_ext, addr option, gotime option) copier" where
  "ex_time_c = \<lparr>c_rd = ptr_rd un_time plain_rd, c_rc = ptr_rc un_time plain_rc,
     c_cp = ptr_cp un_time (\<lambda>t. ExtCell (plain_struct (TimePlain t))) plain_cp\<rparr>"

definition plain_c :: "('x, 'p, 'p) copier" where
  "plain_c = \<lparr>c_rd = plain_rd, c_rc = plain_rc, c_cp = plain_cp\<rparr>"

definition value_copier :: "(ex_plain \<Rightarrow> 'v option) \<Rightarrow> (ex_ext, ex_ext, 'v) copier" where
  "value_copier f = \<lparr>c_rd = \<lambda>_ x. f (x_plain x), c_rc = plain_rc, c_cp = plain_cp\<rparr>"

definition metadata_fields :: "(ex_ext, addr option \<times> addr option \<times> addr option \<times> addr option,
    string option \<times> string option \<times> string option \<times> string option) copier" where
  "metadata_fields = pair_c string_c (pair_c string_c (pair_c string_c string_c))"

definition metadata_words :: "ex_ext \<Rightarrow> addr option \<times> addr option \<times> addr option \<times> addr option" where
  "metadata_words x = (x_1 x, x_2 x, x_3 x, x_4 x)"

definition ex_metadata_c :: "(ex_ext, ex_ext, resource_metadata) copier" where
  "ex_metadata_c = struct_c metadata_words (\<lambda>(a, o', r, p). \<lparr>ARN = a, OwnerAccountID = o', Region = r, Partition = p\<rparr>)
     metadata_fields (\<lambda>x h. and_then (c_cp metadata_fields (metadata_words x) h) (\<lambda>((a, o', r, p), h).
       Ret (\<lparr>x_plain = NoPlain, x_1 = a, x_2 = o', x_3 = r, x_4 = p\<rparr>, h)))"

definition condition_fields :: "(ex_ext, ex_plain \<times> addr option \<times> addr option \<times> addr option,
    ex_plain \<times> gotime option \<times> string option \<times> string option) copier" where
  "condition_fields = pair_c plain_c (pair_c ex_time_c (pair_c string_c string_c))"

definition condition_words :: "ex_ext \<Rightarrow> ex_plain \<times> addr option \<times> addr option \<times> addr option" where
  "condition_words x = (x_plain x, x_1 x, x_2 x, x_3 x)"

definition type_and_status :: "ex_plain \<Rightarrow> string \<times> string" where
  "type_and_status x = (case x of CondPlain ty st \<Rightarrow> (ty, st) | _ \<Rightarrow> ([], []))"

definition ex_condition_c :: "(ex_ext, ex_ext, condition) copier" where
  "ex_condition_c = struct_c condition_words (\<lambda>(x, t, m, r). \<lparr>cond_Type = fst (type_and_status x),
       cond_Status = snd (type_and_status x), cond_LastTransitionTime = t, cond_Message = m, cond_Reason = r\<rparr>)
     condition_fields (\<lambda>x h. and_then (c_cp condition_fields (condition_words x) h) (\<lambda>((x, t, m, r), h).
       Ret (\<lparr>x_plain = x, x_1 = t, x_2 = m, x_3 = r, x_4 = None\<rparr>, h)))"

definition ex_copiers :: "ex_ext ext" where
  "ex_copiers = \<lparr>ext_time = ex_time_c, ext_metadata = ex_metadata_c, ext_condition = ex_condition_c,
     ext_ObjectMeta = value_copier (\<lambda>x. case x of MetaPlain m \<Rightarrow> Some m | _ \<Rightarrow> None),
     ext_ListMeta = value_copier (\<lambda>x. case x of ListPlain m \<Rightarrow> Some m | _ \<Rightarrow> None),
     ext_zero = plain_struct (MetaPlain (ObjectMeta ex_desired))\<rparr>"

lemma value_copier_ok: "copier_ok (value_copier f)"
  unfolding copier_ok_def value_copier_def
  by (simp, unfold_locales) (auto simp: plain_rc_def plain_cp_def)

lemma ex_fields_ok [copier_intros]: "copier_ok plain_c" "copier_ok ex_time_c"
  unfolding copier_ok_def plain_c_def ex_time_c_def copier.simps
  by (intro deep_copy_plain deep_copy_ptr; simp add: un_time_def plain_struct_def)+

lemma ex_structs_ok: "copier_ok ex_metadata_c" "copier_ok ex_condition_c"
proof -
  show "copier_ok ex_metadata_c"
    unfolding ex_metadata_c_def
    by (rule struct_copier [where build' = "\<lambda>(a, o', r, p). \<lparr>x_plain = NoPlain, x_1 = a, x_2 = o', x_3 = r, x_4 = p\<rparr>"])
      (auto simp: metadata_fields_def metadata_words_def case_prod_unfold intro!: copier_intros)
  show "copier_ok ex_condition_c"
    unfolding ex_condition_c_def
    by (rule struct_copier [where build' = "\<lambda>(x, t, m, r). \<lparr>x_plain = x, x_1 = t, x_2 = m, x_3 = r, x_4 = None\<rparr>"])
      (auto simp: condition_fields_def condition_words_def case_prod_unfold intro!: copier_intros)
qed

lemma ex_copiers_ok: "ext_ok ex_copiers"
  using ex_fields_ok(2) ex_structs_ok
  by (simp add: ext_ok_def ex_copiers_def value_copier_ok) (simp add: ex_time_c_def ptr_rd_def ptr_rc_def)

text \<open>Assignments to the fields.\<close>

definition ex_ack :: "ex_ext ack_fields" where
  "ex_ack = \<lparr>new_metadata = plain_struct NoPlain, put_ARN = (\<lambda>p x. x\<lparr>x_1 := p\<rparr>), put_Region = (\<lambda>p x. x\<lparr>x_3 := p\<rparr>), put_Partition = (\<lambda>p x. x\<lparr>x_4 := p\<rparr>),
     put_OwnerAccountID = (\<lambda>p x. x\<lparr>x_2 := p\<rparr>), make_condition = (\<lambda>ty. plain_struct (CondPlain ty [])),
     put_Status = (\<lambda>s x. x\<lparr>x_plain := CondPlain (fst (type_and_status (x_plain x))) s\<rparr>),
     put_Message = (\<lambda>p x. x\<lparr>x_2 := p\<rparr>)\<rparr>"

lemmas struct_defs = ex_metadata_c_def metadata_words_def metadata_fields_def ex_condition_c_def condition_words_def
  condition_fields_def struct_c_def pair_c_def plain_c_def string_c_def

lemma ex_metadata_rd:
  "c_rd ex_metadata_c h x = Some m \<longleftrightarrow> string_rd h (x_1 x) = Some (ARN m) \<and> string_rd h (x_2 x) = Some (OwnerAccountID m) \<and>
     string_rd h (x_3 x) = Some (Region m) \<and> string_rd h (x_4 x) = Some (Partition m)"
  by (cases m) (auto simp: struct_defs pair_rd_def split: option.splits)

lemma ex_metadata_rc:
  "c_rc ex_metadata_c h x = string_rc h (x_1 x) \<union> (string_rc h (x_2 x) \<union> (string_rc h (x_3 x) \<union> string_rc h (x_4 x)))"
  by (simp add: struct_defs pair_rc_def)

lemma ex_condition_rd:
  "c_rd ex_condition_c h x = Some c \<longleftrightarrow> type_and_status (x_plain x) = (cond_Type c, cond_Status c) \<and>
     c_rd ex_time_c h (x_1 x) = Some (cond_LastTransitionTime c) \<and>
     string_rd h (x_2 x) = Some (cond_Message c) \<and> string_rd h (x_3 x) = Some (cond_Reason c)"
  by (cases c; cases "type_and_status (x_plain x)") (auto simp: struct_defs pair_rd_def plain_rd_def split: option.splits)

lemma ex_condition_rc:
  "c_rc ex_condition_c h x = c_rc ex_time_c h (x_1 x) \<union> (string_rc h (x_2 x) \<union> string_rc h (x_3 x))"
  by (simp add: struct_defs pair_rc_def plain_rc_def)

lemma no_string [simp]: "string_rd h None = Some None" "string_rc h None = {}"
  by (simp_all add: string_rd_def string_rc_def ptr_rd_def ptr_rc_def)

lemma no_time [simp]: "c_rd ex_time_c h None = Some None" "c_rc ex_time_c h None = {}"
  by (simp_all add: ex_time_c_def ptr_rd_def ptr_rc_def)

lemma ex_ack_ok: "ack_fields_ok ex_copiers ex_ack"
  unfolding ack_fields_ok_def puts_pointer_def
  by (auto simp: ex_copiers_def ex_ack_def ex_metadata_rd ex_metadata_rc ex_condition_rd ex_condition_rc
      plain_struct_def type_and_status_def new_condition_def)

end
