(* ===== verification/CopyWitnesses.thy ===== *)
theory CopyWitnesses
  imports ExampleMemory MemoryTags
begin

text \<open>
  The properties of the generated copies at work, on a small memory.
\<close>

text \<open>
  A network in memory, a list with a second one, and an attachment; the two pointers of the tag
  lead to the same string, and the structs share strings, tags and times.
\<close>

definition ex_network_mem :: "ex_ext network_mem" where
  "ex_network_mem = \<lparr>m_TypeMeta = TypeMeta ex_desired, m_ObjectMeta = plain_struct (MetaPlain (ObjectMeta ex_desired)),
     m_Spec = \<lparr>m_Description = Some 1, m_Tags = Some 2\<rparr>,
     m_Status = \<lparr>m_ACKResourceMetadata = Some 5, m_Conditions = Some 6, m_CreatedAt = Some 8,
       m_GlobalNetworkID = Some 1, m_State = None\<rparr>\<rparr>"

definition ex_cells :: "ex_ext cell list" where
  "ex_cells =
    [NetworkCell ex_network_mem,
     StringCell ''n1'', ArrayCell [Some 3, None], TagCell \<lparr>m_Key = Some 4, m_Value = Some 4\<rparr>,
     StringCell ''env'', ExtCell (plain_struct NoPlain), ArrayCell [Some 7],
     ExtCell ((plain_struct (CondPlain ''ACK.Terminal'' ''True''))\<lparr>x_2 := Some 12\<rparr>),
     ExtCell (plain_struct (TimePlain 7)),
     NetworkListCell \<lparr>ml_TypeMeta = TypeMeta ex_desired, ml_ListMeta = plain_struct (ListPlain ''7''), ml_Items = Some 10\<rparr>,
     NetworksCell [ex_network_mem], StructCell [Some 8, Some 1, Some 2, None], StringCell ''old'']"

definition ex_heap :: "ex_ext heap" where
  "ex_heap = \<lparr>cells = (\<lambda>a. if a < 13 then Some (ex_cells ! a) else None), next_addr = 13\<rparr>"

definition ex_value :: GlobalNetwork where
  "ex_value = \<lparr>TypeMeta = TypeMeta ex_desired, ObjectMeta = ObjectMeta ex_desired,
     Spec = \<lparr>Description = Some ''n1'', Tags = Some [Some \<lparr>Key = Some ''env'', Value = Some ''env''\<rparr>, None]\<rparr>,
     Status = \<lparr>ACKResourceMetadata = Some empty_metadata, Conditions = Some [Some ex_condition],
       CreatedAt = Some 7, GlobalNetworkID = Some ''n1'', State = None\<rparr>\<rparr>"

lemma ex_heap_ok: "heap_ok ex_heap"
  by (simp add: heap_ok_def ex_heap_def)

lemmas ex_memory_defs = ex_heap_def ex_cells_def ex_network_mem_def ex_value_def ex_copiers_def ex_condition_def
  empty_metadata_def value_copier_def plain_struct_def ex_time_c_def un_time_def struct_defs type_and_status_def

lemmas reading_defs = network_rd_def status_rd_def spec_rd_def tags_rd_def tag_rd_def string_rd_def
  slice_rd_def array_rd_def ptr_rd_def pair_rd_def plain_rd_def

lemma ex_heap_reads: "read_network ex_copiers ex_heap (Some 0) = Some (Some ex_value)"
  by (simp add: ex_memory_defs reading_defs)

theorem deep_copy_independent_witness:
  "\<exists>q h'. GlobalNetwork_DeepCopy_mem ex_copiers (Some 0) ex_heap = Ret (Some q, h') \<and>
    read_network ex_copiers h' (Some q) = Some (Some ex_value) \<and>
    read_network ex_copiers (h'\<lparr>cells := cells h' |` (- network_cells ex_copiers h' (Some 0))\<rparr>) (Some q) =
      Some (Some ex_value)"
proof -
  obtain p' h' where run: "GlobalNetwork_DeepCopy_mem ex_copiers (Some 0) ex_heap = Ret (p', h')"
      "read_network ex_copiers h' p' = Some (Some ex_value)" "p' = None \<longleftrightarrow> Some (0 :: addr) = None"
    and freed: "\<forall>h2. (\<forall>a. a \<notin> network_cells ex_copiers h' (Some 0) \<longrightarrow> cells h2 a = cells h' a) \<longrightarrow>
      read_network ex_copiers h2 p' = Some (Some ex_value)"
    using deep_copy_independent [OF ex_copiers_ok ex_heap_ok ex_heap_reads] by auto
  obtain q where q: "p' = Some q" using run(3) by blast
  from freed [rule_format, of "h'\<lparr>cells := cells h' |` (- network_cells ex_copiers h' (Some 0))\<rparr>"]
  show ?thesis using run(1,2) q by (intro exI [of _ q] exI [of _ h']) simp
qed

text \<open>
  A second network, which shares the string of its name and a tag with the first. Without its
  only tag it has an empty list; the first network, the owner of the shared tag, still has its
  tags. To mirror the tags of the first network panics at its nil tag.
\<close>

definition ex_shared_heap :: "ex_ext heap" where
  "ex_shared_heap = \<lparr>cells = (cells ex_heap)
     (13 \<mapsto> NetworkCell (ex_network_mem\<lparr>m_Spec := \<lparr>m_Description = Some 1, m_Tags = Some 14\<rparr>\<rparr>),
      14 \<mapsto> ArrayCell [Some 3]), next_addr = 15\<rparr>"

definition ex_sharing :: GlobalNetwork where
  "ex_sharing = set_tags (Some [Some \<lparr>Key = Some ''env'', Value = Some ''env''\<rparr>]) ex_value"

lemmas cells_defs = network_rc_def status_rc_def spec_rc_def tags_rc_def tag_rc_def string_rc_def
  slice_rc_def array_rc_def ptr_rc_def pair_rc_def plain_rc_def

lemma ex_shared_heap_ok: "heap_ok ex_shared_heap"
  by (simp add: heap_ok_def ex_shared_heap_def ex_heap_def)

lemma ex_sharing_lies: "lies_at ex_copiers ex_shared_heap 13 ex_sharing"
  by (simp add: lies_at_def ex_shared_heap_def ex_sharing_def set_tags_def ex_memory_defs reading_defs cells_defs)

lemma ex_value_lies: "lies_at ex_copiers ex_shared_heap 0 ex_value"
  by (simp add: lies_at_def ex_shared_heap_def ex_memory_defs reading_defs cells_defs)

theorem tag_methods_in_place_witness:
  "\<exists>h'. FilterSystemTags_mem example_rt ex_sched (Some (Some 13)) [''env''] ex_shared_heap = Ret h' \<and>
    read_network ex_copiers h' (Some 13) = Some (Some (set_tags (Some []) ex_value)) \<and>
    read_network ex_copiers h' (Some 0) = Some (Some ex_value) \<and>
    mirrorAWSTags_mem example_rt ex_sched (Some (Some 13)) (Some (Some 0)) ex_shared_heap = Panic"
proof -
  let ?h = "ex_shared_heap"
  note use = tag_methods_in_place [OF ex_copiers_ok ex_shared_heap_ok ex_sharing_lies ex_value_lies,
      of example_rt ex_sched ex_rm "''v1''" "[''env'']"]
  have filter: "FilterSystemTags example_rt ex_sched (ResourcePtr (Some \<lparr>ko = Some ex_sharing\<rparr>)) [''env''] =
      Ret (Some \<lparr>ko = Some (set_tags (Some []) ex_value)\<rparr>)"
    by code_simp
  have mirror: "mirrorAWSTags example_rt ex_sched (Some \<lparr>ko = Some ex_sharing\<rparr>) (Some \<lparr>ko = Some ex_value\<rparr>) = Panic"
    by code_simp
  obtain h' where h': "FilterSystemTags_mem example_rt ex_sched (Some (Some 13)) [''env''] ?h = Ret h'"
    "rewritten ex_copiers 13 (Some (set_tags (Some []) ex_value)) ?h h'"
    using use filter by auto
  have "read_network ex_copiers ?h (Some 0) = Some (Some ex_value)" "13 \<notin> network_cells ex_copiers ?h (Some 0)"
    by (simp_all add: ex_shared_heap_def ex_memory_defs reading_defs cells_defs)
  then have "read_network ex_copiers h' (Some 0) = Some (Some ex_value)" using use h'(2) by blast
  moreover have "read_network ex_copiers h' (Some 13) = Some (Some (set_tags (Some []) ex_value))"
    using h'(2) by (simp add: rewritten_def)
  moreover have "mirrorAWSTags_mem example_rt ex_sched (Some (Some 13)) (Some (Some 0)) ?h = Panic"
    using use mirror by simp
  ultimately show ?thesis using h'(1) by blast
qed

text \<open>
  An error of the network's reconciliation is recorded: the terminal condition is cleared, a recoverable one
  added, and region, partition and account are those of the manager, whose fields the new object points to.
\<close>

definition ex_manager :: manager_mem where
  "ex_manager = \<lparr>at_Region = 13, at_Partition = 14, at_AccountID = 15\<rparr>"

definition ex_manager_heap :: "ex_ext heap" where
  "ex_manager_heap = \<lparr>cells = (cells ex_heap)(13 \<mapsto> StringCell ''us-west-2'', 14 \<mapsto> StringCell ''aws'',
     15 \<mapsto> StringCell ''123456789012''), next_addr = 16\<rparr>"

definition ex_marked :: GlobalNetwork where
  "ex_marked = ex_value\<lparr>Status := (Status ex_value)\<lparr>
     ACKResourceMetadata := Some \<lparr>ARN = None, OwnerAccountID = Some ''123456789012'', Region = Some ''us-west-2'',
       Partition = Some ''aws''\<rparr>,
     Conditions := Some [Some (ex_condition\<lparr>cond_Status := ''False'', cond_Message := None\<rparr>),
       Some ((new_condition ''ACK.Recoverable'')\<lparr>cond_Status := ''True'', cond_Message := Some ''timeout''\<rparr>)]\<rparr>\<rparr>"

lemma ex_manager_heap_ok: "heap_ok ex_manager_heap" "manager_lies ex_manager_heap ex_manager ex_rm"
  by (simp_all add: heap_ok_def manager_lies_def ex_manager_heap_def ex_manager_def ex_heap_def ex_rm_def)

lemma ex_manager_heap_reads: "read_network ex_copiers ex_manager_heap (Some 0) = Some (Some ex_value)"
  by (simp add: ex_manager_heap_def ex_memory_defs reading_defs)

theorem update_conditions_in_memory_witness:
  "\<exists>q h'. updateConditions_mem ex_copiers ex_ack ex_manager example_rt (Some 0) False (Some ''timeout'') ex_manager_heap =
      Ret (Some q, True, h') \<and>
    read_network ex_copiers h' (Some q) = Some (Some ex_marked) \<and>
    read_network ex_copiers h' (Some 0) = Some (Some ex_value) \<and> cells h' 13 = Some (StringCell ''us-west-2'')"
proof -
  have val: "updateConditions example_rt ex_rm \<lparr>ko = Some ex_value\<rparr> False (Some ''timeout'') =
      Ret (Some \<lparr>ko = Some ex_marked\<rparr>, True)"
    by code_simp
  obtain p h' where run: "updateConditions_mem ex_copiers ex_ack ex_manager example_rt (Some 0) False (Some ''timeout'')
      ex_manager_heap = Ret (p, True, h')" "extends ex_manager_heap h'" "p \<noteq> None"
    "read_network ex_copiers h' p = Some (Some ex_marked)"
    using update_conditions_in_memory [OF ex_copiers_ok ex_ack_ok ex_manager_heap_ok ex_manager_heap_reads,
        of example_rt False "Some ''timeout''"] val by auto
  have "read_network ex_copiers h' (Some 0) = Some (Some ex_value)"
    using deep_copy.rd_extends [OF network_ptr_copy [OF ex_copiers_ok] ex_manager_heap_ok(1) ex_manager_heap_reads run(2)] by simp
  moreover have "cells h' 13 = Some (StringCell ''us-west-2'')"
    using run(2) by (simp add: extends_def ex_manager_heap_def)
  ultimately show ?thesis using run by auto
qed

text \<open>An attachment, the struct with fields of all three kinds.\<close>

abbreviation read_attachment where
  "read_attachment \<equiv> ptr_rd (struct_un unpack4 Attachment_of) (c_rd (Attachment_copier ex_copiers))"

definition ex_attachment :: "(string option, gotime option, tag option slice) Attachment" where
  "ex_attachment = \<lparr>Attachment_CreatedAt = Some 7, Attachment_SegmentName = Some ''n1'',
     Attachment_Tags = Some [Some \<lparr>Key = Some ''env'', Value = Some ''env''\<rparr>, None], Attachment_UpdatedAt = None\<rparr>"

lemma ex_attachment_reads: "read_attachment ex_heap (Some 11) = Some (Some ex_attachment)"
  by (simp add: ex_attachment_def Attachment_copier_def Attachment_fields_def Attachment_of_def struct_c_def
      struct_un_def pair_c_def time_c_def string_c_def tags_c_def ex_memory_defs reading_defs)

theorem generated_copies_deep_witness:
  "\<exists>q h'. Attachment_DeepCopy ex_copiers (Some 11) ex_heap = Ret (Some q, h') \<and>
    read_attachment h' (Some q) = Some (Some ex_attachment) \<and>
    read_attachment (h'\<lparr>cells := (cells h')(q := None)\<rparr>) (Some 11) = Some (Some ex_attachment)"
proof -
  have "deeply (Attachment_copier ex_copiers) (struct_un unpack4 Attachment_of) (Attachment_DeepCopy ex_copiers)"
    using generated_copies_deep [OF ex_copiers_ok] by (elim conjE) assumption
  from copied_deeplyE [OF this [unfolded deeply_def] ex_heap_ok ex_attachment_reads]
  obtain p' h' where c: "Attachment_DeepCopy ex_copiers (Some 11) ex_heap = Ret (p', h')"
    "p' = None \<longleftrightarrow> Some (11 :: addr) = None" "read_attachment h' p' = Some (Some ex_attachment)"
    "\<forall>h2. (\<forall>a. a \<notin> ptr_rc (struct_un unpack4 Attachment_of) (c_rc (Attachment_copier ex_copiers)) h' p' \<longrightarrow>
        cells h2 a = cells h' a) \<longrightarrow> read_attachment h2 (Some 11) = Some (Some ex_attachment)"
    by metis
  then obtain q where q: "p' = Some q" by auto
  have "q \<in> ptr_rc (struct_un unpack4 Attachment_of) (c_rc (Attachment_copier ex_copiers)) h' p'"
    using c(3) by (auto simp: q ptr_rd_def ptr_rc_def bind_eq_Some_conv)
  then have "read_attachment (h'\<lparr>cells := (cells h')(q := None)\<rparr>) (Some 11) = Some (Some ex_attachment)"
    by (intro c(4) [rule_format]) auto
  with c(1,3) q show ?thesis by auto
qed

end
