(* ===== verification/MemorySdk.thy ===== *)
theory MemorySdk
  imports ConditionsRefined
begin

text \<open>
  The merge of an output of the AWS SDK into a resource (\<open>sdkFind\<close>, \<open>sdkCreate\<close>, \<open>sdkUpdate\<close> of \<open>gn/sdk.go\<close>)
  in memory. The outputs are structs of pointers: the strings of a network an output describes are not
  copied into the resource, the resource points to them; only the time, the state and the ARN are copied. Every
  step keeps what \<open>merging\<close> says, and changes the value the object reads as in the way \<open>SdkOps\<close> does.
\<close>

section \<open>Messages of the SDK in memory\<close>

text \<open>The lists of a message are read element by element and never kept, so they have no cells here.\<close>

record sdk_tag_mem =
  ms_Key :: "addr option"
  ms_Value :: "addr option"

record sdk_network_mem =
  ms_CreatedAt :: "addr option"
  ms_Description :: "addr option"
  ms_GlobalNetworkArn :: "addr option"
  ms_GlobalNetworkId :: "addr option"
  ms_State :: string
  ms_Tags :: "sdk_tag_mem slice"

record create_input_mem =
  in_Description :: "addr option"
  in_Tags :: "sdk_tag_mem slice"

record update_input_mem =
  in_GlobalNetworkId :: "addr option"
  in_NewDescription :: "addr option"

text \<open>\<open>time.Time\<close> and \<open>&metav1.Time{*p}\<close>: a time of the SDK and the copy of it a resource gets.\<close>

record 'x sdk_time =
  time_rd :: "'x heap \<Rightarrow> addr option \<Rightarrow> gotime option option"
  time_rc :: "'x heap \<Rightarrow> addr option \<Rightarrow> addr set"
  new_time :: "addr \<Rightarrow> 'x heap \<Rightarrow> (addr \<times> 'x heap) outcome"

definition sdk_time_ok :: "'x ext \<Rightarrow> 'x sdk_time \<Rightarrow> bool" where
  "sdk_time_ok E T \<longleftrightarrow>
     (\<forall>h. time_rd T h None = Some None \<and> time_rc T h None = {}) \<and>
     (\<forall>h h' p v. time_rd T h p = Some v \<longrightarrow> (\<forall>a \<in> time_rc T h p. cells h' a = cells h a) \<longrightarrow>
        time_rd T h' p = Some v \<and> time_rc T h' p = time_rc T h p) \<and>
     (\<forall>h a v. heap_ok h \<longrightarrow> time_rd T h (Some a) = Some v \<longrightarrow>
        (\<exists>b h'. v \<noteq> None \<and> new_time T a h = Ret (b, h') \<and> extends h h' \<and> heap_ok h' \<and>
           c_rd (ext_time E) h' (Some b) = Some v \<and> c_rc (ext_time E) h' (Some b) \<subseteq> {next_addr h..}))"

definition sdk_tag_rd :: "'x heap \<Rightarrow> sdk_tag_mem \<Rightarrow> sdk_tag option" where
  "sdk_tag_rd h t = map_option (\<lambda>(k, v). \<lparr>sdk_Key = k, sdk_Value = v\<rparr>)
     (pair_rd string_rd string_rd h (ms_Key t, ms_Value t))"

definition sdk_tags_rd :: "'x heap \<Rightarrow> sdk_tag_mem slice \<Rightarrow> sdk_tag slice option" where
  "sdk_tags_rd h ts = (case ts of None \<Rightarrow> Some None | Some ts \<Rightarrow> map_option Some (list_rd sdk_tag_rd h ts))"

definition sdk_tag_rc :: "'x heap \<Rightarrow> sdk_tag_mem \<Rightarrow> addr set" where
  "sdk_tag_rc h t = string_rc h (ms_Key t) \<union> string_rc h (ms_Value t)"

definition sdk_tags_rc :: "'x heap \<Rightarrow> sdk_tag_mem slice \<Rightarrow> addr set" where
  "sdk_tags_rc h ts = (\<Union>t \<in> set (elems ts). sdk_tag_rc h t)"

text \<open>What a message is made of, and the values it reads as.\<close>

definition network_shows :: "'x sdk_time \<Rightarrow> 'x heap \<Rightarrow> sdk_network_mem \<Rightarrow> sdk_global_network \<Rightarrow> bool" where
  "network_shows T h m n \<longleftrightarrow>
     time_rd T h (ms_CreatedAt m) = Some (sdk_CreatedAt n) \<and> string_rd h (ms_Description m) = Some (sdk_Description n) \<and>
     string_rd h (ms_GlobalNetworkArn m) = Some (sdk_GlobalNetworkArn n) \<and>
     string_rd h (ms_GlobalNetworkId m) = Some (sdk_GlobalNetworkId n) \<and> ms_State m = sdk_State n \<and>
     sdk_tags_rd h (ms_Tags m) = Some (sdk_Tags n)"

definition message_rc :: "'x sdk_time \<Rightarrow> 'x heap \<Rightarrow> sdk_network_mem \<Rightarrow> addr set" where
  "message_rc T h m = time_rc T h (ms_CreatedAt m) \<union> string_rc h (ms_Description m) \<union>
     string_rc h (ms_GlobalNetworkArn m) \<union> string_rc h (ms_GlobalNetworkId m) \<union> sdk_tags_rc h (ms_Tags m)"

section \<open>The merge\<close>

text \<open>An assignment to a field of the object at \<open>q\<close>.\<close>

definition assign :: "('x network_mem \<Rightarrow> 'x network_mem) \<Rightarrow> addr \<Rightarrow> 'x heap \<Rightarrow> 'x heap outcome" where
  "assign f q h = and_then (network_at h q) (\<lambda>n. Ret (store q (NetworkCell (f n)) h))"

definition at_created :: "addr option \<Rightarrow> 'x network_mem \<Rightarrow> 'x network_mem" where
  "at_created p n = n\<lparr>m_Status := (m_Status n)\<lparr>m_CreatedAt := p\<rparr>\<rparr>"

definition at_id :: "addr option \<Rightarrow> 'x network_mem \<Rightarrow> 'x network_mem" where
  "at_id p n = n\<lparr>m_Status := (m_Status n)\<lparr>m_GlobalNetworkID := p\<rparr>\<rparr>"

definition at_state :: "addr option \<Rightarrow> 'x network_mem \<Rightarrow> 'x network_mem" where
  "at_state p n = n\<lparr>m_Status := (m_Status n)\<lparr>m_State := p\<rparr>\<rparr>"

definition at_description :: "addr option \<Rightarrow> 'x network_mem \<Rightarrow> 'x network_mem" where
  "at_description p n = n\<lparr>m_Spec := (m_Spec n)\<lparr>m_Description := p\<rparr>\<rparr>"

definition at_tags :: "addr option \<Rightarrow> 'x network_mem \<Rightarrow> 'x network_mem" where
  "at_tags p n = n\<lparr>m_Spec := (m_Spec n)\<lparr>m_Tags := p\<rparr>\<rparr>"

definition merge_created :: "'x sdk_time \<Rightarrow> sdk_network_mem \<Rightarrow> addr \<Rightarrow> 'x heap \<Rightarrow> 'x heap outcome" where
  "merge_created T elem q h =
     (case ms_CreatedAt elem of
        Some p \<Rightarrow> and_then (new_time T p h) (\<lambda>(t, h). assign (at_created (Some t)) q h)
      | None \<Rightarrow> assign (at_created None) q h)"

definition merge_description :: "sdk_network_mem \<Rightarrow> addr \<Rightarrow> 'x heap \<Rightarrow> 'x heap outcome" where
  "merge_description elem q h = assign (at_description (ms_Description elem)) q h"

definition merge_id :: "sdk_network_mem \<Rightarrow> addr \<Rightarrow> 'x heap \<Rightarrow> 'x heap outcome" where
  "merge_id elem q h = assign (at_id (ms_GlobalNetworkId elem)) q h"

definition merge_state :: "sdk_network_mem \<Rightarrow> addr \<Rightarrow> 'x heap \<Rightarrow> 'x heap outcome" where
  "merge_state elem q h =
     (if ms_State elem \<noteq> ''''
      then let (p, h) = alloc (StringCell (ms_State elem)) h in assign (at_state (Some p)) q h
      else assign (at_state None) q h)"

text \<open>The tags are new; their strings are those of the message.\<close>

fun merge_tags_loop :: "sdk_tag_mem list \<Rightarrow> addr option list \<Rightarrow> 'x heap \<Rightarrow> addr option list \<times> 'x heap" where
  "merge_tags_loop [] f5 h = (f5, h)"
| "merge_tags_loop (t # ts) f5 h =
     (let (p, h) = alloc (TagCell \<lparr>m_Key = ms_Key t, m_Value = ms_Value t\<rparr>) h
      in merge_tags_loop ts (f5 @ [Some p]) h)"

definition merge_tags :: "sdk_network_mem \<Rightarrow> addr \<Rightarrow> 'x heap \<Rightarrow> 'x heap outcome" where
  "merge_tags elem q h =
     (case ms_Tags elem of
        Some ts \<Rightarrow>
          (let (f5, h) = merge_tags_loop ts [] h; (b, h) = alloc (ArrayCell f5) h in assign (at_tags (Some b)) q h)
      | None \<Rightarrow> assign (at_tags None) q h)"

definition ensure_metadata :: "'x ack_fields \<Rightarrow> addr \<Rightarrow> 'x heap \<Rightarrow> 'x heap outcome" where
  "ensure_metadata A q h =
     and_then (network_at h q) (\<lambda>n.
       Ret (if md_ptr n = None
            then let (a, h) = alloc (ExtCell (new_metadata A)) h in store q (NetworkCell (with_md (Some a) n)) h
            else h))"

definition merge_arn :: "'x ack_fields \<Rightarrow> addr \<Rightarrow> addr \<Rightarrow> 'x heap \<Rightarrow> 'x heap outcome" where
  "merge_arn A p q h =
     and_then (deref (Option.bind (cells h p) un_string)) (\<lambda>s.
     let (arn, h) = alloc (StringCell s) h
     in and_then (network_at h q) (\<lambda>n. and_then (deref (md_ptr n)) (\<lambda>a.
        and_then (deref (Option.bind (cells h a) un_ext)) (\<lambda>x.
          Ret (store a (ExtCell (put_ARN A (Some arn) x)) h)))))"

definition merge_found_mem ::
  "'x ack_fields \<Rightarrow> 'x sdk_time \<Rightarrow> sdk_network_mem \<Rightarrow> addr \<Rightarrow> 'x heap \<Rightarrow> 'x heap outcome" where
  "merge_found_mem A T elem q h =
     and_then (merge_created T elem q h) (\<lambda>h.
     and_then (merge_description elem q h) (\<lambda>h.
     and_then (case ms_GlobalNetworkArn elem of
                 Some p \<Rightarrow> and_then (ensure_metadata A q h) (merge_arn A p q)
               | None \<Rightarrow> Ret h) (\<lambda>h.
     and_then (merge_id elem q h) (\<lambda>h.
     and_then (merge_state elem q h) (\<lambda>h.
       merge_tags elem q h)))))"

definition merge_output_mem ::
  "'x ack_fields \<Rightarrow> 'x sdk_time \<Rightarrow> sdk_network_mem \<Rightarrow> addr \<Rightarrow> 'x heap \<Rightarrow> 'x heap outcome" where
  "merge_output_mem A T n q h =
     and_then (merge_created T n q h) (\<lambda>h.
     and_then (merge_description n q h) (\<lambda>h.
     and_then (ensure_metadata A q h) (\<lambda>h.
     and_then (case ms_GlobalNetworkArn n of
                 Some p \<Rightarrow> merge_arn A p q h
               | None \<Rightarrow> Ret h) (\<lambda>h.
     and_then (merge_id n q h) (\<lambda>h.
     and_then (merge_state n q h) (\<lambda>h.
       merge_tags n q h))))))"

section \<open>The message stays\<close>

lemma sdk_tags_local:
  assumes "sdk_tags_rd h ts = Some v" and "\<And>a. a \<in> sdk_tags_rc h ts \<Longrightarrow> cells h' a = cells h a"
  shows "sdk_tags_rd h' ts = Some v \<and> sdk_tags_rc h' ts = sdk_tags_rc h ts"
proof (cases ts)
  case None
  with assms(1) show ?thesis by (simp add: sdk_tags_rd_def sdk_tags_rc_def)
next
  case (Some us)
  obtain vs where vs: "v = Some vs" "list_all2 (\<lambda>t v. sdk_tag_rd h t = Some v) us vs"
    using assms(1) by (auto simp: Some sdk_tags_rd_def list_rd_Some)
  have one: "sdk_tag_rd h' t = Some x \<and> sdk_tag_rc h' t = sdk_tag_rc h t" if t: "t \<in> set us" "sdk_tag_rd h t = Some x" for t x
  proof -
    obtain k y where r: "string_rd h (ms_Key t) = Some k" "string_rd h (ms_Value t) = Some y" "x = \<lparr>sdk_Key = k, sdk_Value = y\<rparr>"
      using t(2) by (auto simp: sdk_tag_rd_def pair_rd_def split: option.splits)
    have same: "cells h' a = cells h a" if "a \<in> string_rc h (ms_Key t) \<union> string_rc h (ms_Value t)" for a
      using assms(2) that t(1) unfolding Some sdk_tags_rc_def sdk_tag_rc_def elems_simps by blast
    from string_copy.rd_local [OF r(1), of h'] string_copy.rd_local [OF r(2), of h'] same r(3)
    show ?thesis by (simp add: sdk_tag_rd_def sdk_tag_rc_def pair_rd_def)
  qed
  have "list_all2 (\<lambda>t v. sdk_tag_rd h' t = Some v) us vs"
    using vs(2) one by (auto simp: list_all2_conv_all_nth)
  moreover have "sdk_tag_rc h' t = sdk_tag_rc h t" if "t \<in> set us" for t
    using list_all2_member [OF vs(2) that] one [OF that] by blast
  ultimately show ?thesis using vs(1) by (simp add: Some sdk_tags_rd_def sdk_tags_rc_def list_rd_Some)
qed

lemma message_local:
  assumes T: "sdk_time_ok E T" and m: "network_shows T h m n" and same: "\<And>a. a \<in> message_rc T h m \<Longrightarrow> cells h' a = cells h a"
  shows "network_shows T h' m n" and "message_rc T h' m = message_rc T h m"
proof -
  have str: "string_rd h' p = Some v \<and> string_rc h' p = string_rc h p"
    if "string_rd h p = Some v" "string_rc h p \<subseteq> message_rc T h m" for p v
    using string_copy.rd_local [OF that(1), of h'] that(2) same by blast
  have t: "time_rd T h' (ms_CreatedAt m) = Some (sdk_CreatedAt n) \<and> time_rc T h' (ms_CreatedAt m) = time_rc T h (ms_CreatedAt m)"
  proof -
    have "time_rd T h (ms_CreatedAt m) = Some (sdk_CreatedAt n)" "\<forall>a \<in> time_rc T h (ms_CreatedAt m). cells h' a = cells h a"
      using m same by (simp_all add: network_shows_def message_rc_def)
    with T show ?thesis unfolding sdk_time_ok_def by blast
  qed
  have ts: "sdk_tags_rd h' (ms_Tags m) = Some (sdk_Tags n) \<and> sdk_tags_rc h' (ms_Tags m) = sdk_tags_rc h (ms_Tags m)"
    using m same by (intro sdk_tags_local) (simp_all add: network_shows_def message_rc_def)
  have sub: "string_rc h (ms_Description m) \<subseteq> message_rc T h m" "string_rc h (ms_GlobalNetworkArn m) \<subseteq> message_rc T h m"
    "string_rc h (ms_GlobalNetworkId m) \<subseteq> message_rc T h m"
    by (auto simp: message_rc_def)
  note s = str [OF _ sub(1)] str [OF _ sub(2)] str [OF _ sub(3)]
  show "network_shows T h' m n" using m t ts s by (simp add: network_shows_def)
  show "message_rc T h' m = message_rc T h m" using m t ts s by (simp add: network_shows_def message_rc_def)
qed

section \<open>A field changes\<close>

text \<open>
  While a message is merged into an object: the object is owned, the message is newer than \<open>h0\<close>, and only
  spec, times and identifiers of the object may have cells of the message.
\<close>

definition merging ::
  "'x ext \<Rightarrow> 'x sdk_time \<Rightarrow> 'x heap \<Rightarrow> addr set \<Rightarrow> addr \<Rightarrow> sdk_network_mem \<Rightarrow> sdk_global_network \<Rightarrow>
   'x heap \<Rightarrow> 'x network_mem \<Rightarrow> GlobalNetwork \<Rightarrow> bool" where
  "merging E T h0 F q m v h n g \<longleftrightarrow> owned E h0 F q h n g \<and> network_shows T h m v \<and>
     message_rc T h m \<subseteq> {next_addr h0..<next_addr h} \<and>
     message_rc T h m \<inter> insert q (metadata_rc E h (md_ptr n) \<union> conditions_rc E h (cs_ptr n)) = {}"

text \<open>What the rest of an object is made of.\<close>

lemma rest_rd_Some:
  "rest_rd E h (rest_of n) = Some (om, sp, t, i, st) \<longleftrightarrow>
     c_rd (ext_ObjectMeta E) h (m_ObjectMeta n) = Some om \<and>
     string_rd h (m_Description (m_Spec n)) = Some (Description sp) \<and> tags_rd h (m_Tags (m_Spec n)) = Some (Tags sp) \<and>
     c_rd (ext_time E) h (m_CreatedAt (m_Status n)) = Some t \<and> string_rd h (m_GlobalNetworkID (m_Status n)) = Some i \<and>
     string_rd h (m_State (m_Status n)) = Some st"
  by (cases sp) (fastforce simp: rest_rd_def rest_of_def pair_rd_def spec_rd_def split: option.splits)

lemma rest_rc_eq:
  "rest_rc E h (rest_of n) = c_rc (ext_ObjectMeta E) h (m_ObjectMeta n) \<union>
     (string_rc h (m_Description (m_Spec n)) \<union> tags_rc h (m_Tags (m_Spec n)) \<union>
     (c_rc (ext_time E) h (m_CreatedAt (m_Status n)) \<union> (string_rc h (m_GlobalNetworkID (m_Status n)) \<union>
      string_rc h (m_State (m_Status n)))))"
  by (simp add: rest_rc_def rest_of_def pair_rc_def spec_rc_def others_rc_def)

lemma merging_rest:
  assumes E: "ext_ok E" and T: "sdk_time_ok E T" and m: "merging E T h0 F q m v h n g"
    and h': "heap_ok h'" "next_addr h \<le> next_addr h'" "\<And>a. a < next_addr h \<Longrightarrow> a \<noteq> q \<Longrightarrow> cells h' a = cells h a"
    and n': "cells h' q = Some (NetworkCell n')" "m_TypeMeta n' = m_TypeMeta n" "md_ptr n' = md_ptr n" "cs_ptr n' = cs_ptr n"
    and rd: "rest_rd E h' (rest_of n') = Some (ObjectMeta g', Spec g', CreatedAt (Status g'), GlobalNetworkID (Status g'), State (Status g'))"
    and rc: "rest_rc E h' (rest_of n') \<subseteq> rest_rc E h (rest_of n) \<union> message_rc T h m \<union> {next_addr h..}"
    and g': "TypeMeta g' = TypeMeta g" "ACKResourceMetadata (Status g') = ACKResourceMetadata (Status g)"
      "Conditions (Status g') = Conditions (Status g)"
  shows "merging E T h0 F q m v h' n' g'"
proof -
  have H: "owned E h0 F q h n g" and R: "network_shows T h m v" "message_rc T h m \<subseteq> {next_addr h0..<next_addr h}"
    "message_rc T h m \<inter> insert q (metadata_rc E h (md_ptr n) \<union> conditions_rc E h (cs_ptr n)) = {}"
    using m by (simp_all add: merging_def)
  note d = ownedD [OF H] and p = owned_parts [OF E H]
  have md: "cells h' a = cells h a" if "a \<in> metadata_rc E h (md_ptr n)" for a using h'(3) [of a] that d(7) p(5) by blast
  have cs: "cells h' a = cells h a" if "a \<in> conditions_rc E h (cs_ptr n)" for a using h'(3) [of a] that d(8) p(6) by blast
  note md' = deep_copy.rd_local [OF parts_copy(2) [OF E] p(2) md] and cs' = deep_copy.rd_local [OF parts_copy(4) [OF E] p(3) cs]
  have "md_apart E h' (md_ptr n)" "cs_apart E h' (cs_ptr n)"
    using separate_copy.apart_local [OF parts_tree(1) [OF E] p(2), of h'] separate_copy.apart_local [OF parts_tree(3) [OF E] p(3), of h']
      md cs d(15,16) by blast+
  moreover have "cells h' a = cells h a" if "a < next_addr h0" for a
    using h'(3) [of a] that d(2,3) by (simp add: extends_def)
  then have "extends h0 h'" using d(2) h'(2) by (simp add: extends_def)
  moreover have "network_rd E h' n' = Some g'"
    using d(5) rd md' cs' n'(2-4) g' by (simp add: network_rd_parts)
  moreover have rest: "rest_rc E h' (rest_of n') \<inter> insert q (metadata_rc E h (md_ptr n) \<union> conditions_rc E h (cs_ptr n)) = {}"
    using rc d(6,9,10) R(3) p(5-7) by fastforce
  moreover have "rest_rc E h' (rest_of n') \<subseteq> {next_addr h0..}"
    using rc d(2,12) R(2) by (fastforce simp: extends_def)
  ultimately have "owned E h0 F q h' n' g'"
    using h'(1) n' d(3,7,8,11,13,14,17) md' cs' by (auto simp: owned_def network_rc_parts)
  moreover have "cells h' a = cells h a" if "a \<in> message_rc T h m" for a
    using that R(2,3) by (intro h'(3)) auto
  note ms = message_local [OF T R(1) this]
  ultimately show ?thesis using R h'(2) n'(3,4) md' cs' ms by (auto simp: merging_def)
qed

lemma stored_local:
  assumes "deep_copy rd rc cp" and "rd h p = Some v" and "q \<notin> rc h p"
  shows "rd (store q c h) p = Some v" and "rc (store q c h) p = rc h p"
proof -
  have "cells (store q c h) a = cells h a" if "a \<in> rc h p" for a using that assms(3) by auto
  from deep_copy.rd_local [OF assms(1,2) this] show "rd (store q c h) p = Some v" "rc (store q c h) p = rc h p" by blast+
qed

lemma om_copy: "ext_ok E \<Longrightarrow> deep_copy (c_rd (ext_ObjectMeta E)) (c_rc (ext_ObjectMeta E)) (c_cp (ext_ObjectMeta E))"
  by (simp add: ext_ok_def copier_ok_def)

lemma rest_within:
  "rest_rc E h (rest_of n) \<subseteq> X \<longleftrightarrow> c_rc (ext_ObjectMeta E) h (m_ObjectMeta n) \<subseteq> X \<and>
     string_rc h (m_Description (m_Spec n)) \<subseteq> X \<and> tags_rc h (m_Tags (m_Spec n)) \<subseteq> X \<and>
     c_rc (ext_time E) h (m_CreatedAt (m_Status n)) \<subseteq> X \<and> string_rc h (m_GlobalNetworkID (m_Status n)) \<subseteq> X \<and>
     string_rc h (m_State (m_Status n)) \<subseteq> X"
  by (auto simp: rest_rc_eq)

text \<open>The parts of the rest that are not assigned to, after new cells were made and the object stored.\<close>

lemma rest_kept:
  assumes E: "ext_ok E" and H: "owned E h0 F q h n g" and e: "extends h h1" and X: "rest_rc E h (rest_of n) \<subseteq> X"
  defines "h' \<equiv> (\<lambda>c. store q c h1)"
  shows "c_rd (ext_ObjectMeta E) (h' c) (m_ObjectMeta n) = Some (ObjectMeta g)"
    and "string_rd (h' c) (m_Description (m_Spec n)) = Some (Description (Spec g))"
    and "tags_rd (h' c) (m_Tags (m_Spec n)) = Some (Tags (Spec g))"
    and "c_rd (ext_time E) (h' c) (m_CreatedAt (m_Status n)) = Some (CreatedAt (Status g))"
    and "string_rd (h' c) (m_GlobalNetworkID (m_Status n)) = Some (GlobalNetworkID (Status g))"
    and "string_rd (h' c) (m_State (m_Status n)) = Some (State (Status g))"
    and "c_rc (ext_ObjectMeta E) (h' c) (m_ObjectMeta n) \<subseteq> X"
    and "string_rc (h' c) (m_Description (m_Spec n)) \<subseteq> X"
    and "tags_rc (h' c) (m_Tags (m_Spec n)) \<subseteq> X"
    and "c_rc (ext_time E) (h' c) (m_CreatedAt (m_Status n)) \<subseteq> X"
    and "string_rc (h' c) (m_GlobalNetworkID (m_Status n)) \<subseteq> X"
    and "string_rc (h' c) (m_State (m_Status n)) \<subseteq> X"
proof -
  note p = owned_parts [OF E H]
  note parts = p(1) [unfolded rest_rd_Some]
  have *: "rd (h' c) x = Some v \<and> rc (h' c) x \<subseteq> X"
    if d: "deep_copy rd rc cp" "rd h x = Some v" and sub: "rc h x \<subseteq> rest_rc E h (rest_of n)" for rd rc cp x v
  proof -
    have "q \<notin> rc h x" using sub ownedD(6) [OF H] by blast
    moreover note k = deep_copy.rd_extends [OF d(1) ownedD(1) [OF H] d(2) e]
    ultimately show ?thesis
      using stored_local [OF d(1), of h1 x v q c] sub k X by (auto simp: h'_def)
  qed
  note r = rest_rc_eq [of E h n]
  note ks = * [OF om_copy [OF E], of "m_ObjectMeta n"] * [OF string_copy.deep_copy_axioms, of "m_Description (m_Spec n)"]
    * [OF tags_copy.deep_copy_axioms, of "m_Tags (m_Spec n)"] * [OF time_copy [OF E], of "m_CreatedAt (m_Status n)"]
    * [OF string_copy.deep_copy_axioms, of "m_GlobalNetworkID (m_Status n)"] * [OF string_copy.deep_copy_axioms, of "m_State (m_Status n)"]
  show "c_rd (ext_ObjectMeta E) (h' c) (m_ObjectMeta n) = Some (ObjectMeta g)"
    "c_rc (ext_ObjectMeta E) (h' c) (m_ObjectMeta n) \<subseteq> X" using ks(1) parts r by blast+
  show "string_rd (h' c) (m_Description (m_Spec n)) = Some (Description (Spec g))"
    "string_rc (h' c) (m_Description (m_Spec n)) \<subseteq> X" using ks(2) parts r by blast+
  show "tags_rd (h' c) (m_Tags (m_Spec n)) = Some (Tags (Spec g))"
    "tags_rc (h' c) (m_Tags (m_Spec n)) \<subseteq> X" using ks(3) parts r by blast+
  show "c_rd (ext_time E) (h' c) (m_CreatedAt (m_Status n)) = Some (CreatedAt (Status g))"
    "c_rc (ext_time E) (h' c) (m_CreatedAt (m_Status n)) \<subseteq> X" using ks(4) parts r by blast+
  show "string_rd (h' c) (m_GlobalNetworkID (m_Status n)) = Some (GlobalNetworkID (Status g))"
    "string_rc (h' c) (m_GlobalNetworkID (m_Status n)) \<subseteq> X" using ks(5) parts r by blast+
  show "string_rd (h' c) (m_State (m_Status n)) = Some (State (Status g))"
    "string_rc (h' c) (m_State (m_Status n)) \<subseteq> X" using ks(6) parts r by blast+
qed

text \<open>
  An assignment after new cells were made: the part assigned to reads as \<open>v\<close> and has cells of the message
  and new ones only.
\<close>

lemma assign_merging:
  assumes E: "ext_ok E" and T: "sdk_time_ok E T" and m: "merging E T h0 F q m v h n g"
    and h1: "heap_ok h1" "extends h h1"
    and f: "m_TypeMeta (f n) = m_TypeMeta n" "md_ptr (f n) = md_ptr n" "cs_ptr (f n) = cs_ptr n"
    and rd: "rest_rd E (store q (NetworkCell (f n)) h1) (rest_of (f n)) =
      Some (ObjectMeta g', Spec g', CreatedAt (Status g'), GlobalNetworkID (Status g'), State (Status g'))"
    and rc: "rest_rc E (store q (NetworkCell (f n)) h1) (rest_of (f n)) \<subseteq> rest_rc E h (rest_of n) \<union> message_rc T h m \<union> {next_addr h..}"
    and g': "TypeMeta g' = TypeMeta g" "ACKResourceMetadata (Status g') = ACKResourceMetadata (Status g)"
      "Conditions (Status g') = Conditions (Status g)"
  shows "\<exists>h' n'. assign f q h1 = Ret h' \<and> merging E T h0 F q m v h' n' g'"
proof -
  have H: "owned E h0 F q h n g" using m by (simp add: merging_def)
  note d = ownedD [OF H] and q = owned_parts(7) [OF E H]
  let ?h' = "store q (NetworkCell (f n)) h1"
  have "cells h1 q = Some (NetworkCell n)" using d(4) q h1(2) by (simp add: extends_def)
  then have "assign f q h1 = Ret ?h'" by (simp add: assign_def network_at_def)
  moreover have "merging E T h0 F q m v ?h' (f n) g'"
  proof (rule merging_rest [OF E T m _ _ _ _ f rd rc g'])
    show "heap_ok ?h'" using h1 q by (auto simp: heap_ok_def extends_def)
  qed (use h1(2) in \<open>simp_all add: extends_def\<close>)
  ultimately show ?thesis by blast
qed

text \<open>A part that reads in the heap before the assignment.\<close>

lemma part_stored:
  assumes d: "deep_copy rd rc cp" and m: "merging E T h0 F q m v h n g" and E: "ext_ok E"
    and rd: "rd h1 p = Some x" and rc: "rc h1 p \<subseteq> message_rc T h m \<union> {next_addr h..}"
  shows "rd (store q c h1) p = Some x"
    and "rc (store q c h1) p \<subseteq> rest_rc E h (rest_of n) \<union> message_rc T h m \<union> {next_addr h..}"
proof -
  have H: "owned E h0 F q h n g" using m by (simp add: merging_def)
  have "q \<notin> rc h1 p" using m rc owned_parts(7) [OF E H] by (auto simp: merging_def)
  note stored_local [OF d rd this, of c]
  then show "rd (store q c h1) p = Some x"
    "rc (store q c h1) p \<subseteq> rest_rc E h (rest_of n) \<union> message_rc T h m \<union> {next_addr h..}" using rc by auto
qed

section \<open>The steps of the merge\<close>

lemma at_simps [simp]:
  "m_TypeMeta (at_created p n) = m_TypeMeta n" "md_ptr (at_created p n) = md_ptr n" "cs_ptr (at_created p n) = cs_ptr n"
  "m_TypeMeta (at_id p n) = m_TypeMeta n" "md_ptr (at_id p n) = md_ptr n" "cs_ptr (at_id p n) = cs_ptr n"
  "m_TypeMeta (at_state p n) = m_TypeMeta n" "md_ptr (at_state p n) = md_ptr n" "cs_ptr (at_state p n) = cs_ptr n"
  "m_TypeMeta (at_description p n) = m_TypeMeta n" "md_ptr (at_description p n) = md_ptr n" "cs_ptr (at_description p n) = cs_ptr n"
  "m_TypeMeta (at_tags p n) = m_TypeMeta n" "md_ptr (at_tags p n) = md_ptr n" "cs_ptr (at_tags p n) = cs_ptr n"
  by (simp_all add: at_created_def at_id_def at_state_def at_description_def at_tags_def)

lemma inside: "X \<subseteq> X \<union> Y \<union> Z" by blast

lemma created_merging:
  assumes E: "ext_ok E" and T: "sdk_time_ok E T" and m: "merging E T h0 F q m v h n g"
    and h1: "heap_ok h1" "extends h h1" and p: "c_rd (ext_time E) h1 p = Some x" "c_rc (ext_time E) h1 p \<subseteq> message_rc T h m \<union> {next_addr h..}"
  shows "\<exists>h' n'. assign (at_created p) q h1 = Ret h' \<and> merging E T h0 F q m v h' n' (g\<lparr>Status := (Status g)\<lparr>CreatedAt := x\<rparr>\<rparr>)"
proof -
  have "owned E h0 F q h n g" using m by (simp add: merging_def)
  note k = rest_kept [OF E this h1(2) inside] and s = part_stored [OF time_copy [OF E] m E p]
  show ?thesis
    by (rule assign_merging [OF E T m h1]) (use k s in \<open>simp_all add: rest_rd_Some rest_within at_created_def\<close>)
qed

lemma id_merging:
  assumes E: "ext_ok E" and T: "sdk_time_ok E T" and m: "merging E T h0 F q m v h n g"
    and h1: "heap_ok h1" "extends h h1" and p: "string_rd h1 p = Some x" "string_rc h1 p \<subseteq> message_rc T h m \<union> {next_addr h..}"
  shows "\<exists>h' n'. assign (at_id p) q h1 = Ret h' \<and> merging E T h0 F q m v h' n' (g\<lparr>Status := (Status g)\<lparr>GlobalNetworkID := x\<rparr>\<rparr>)"
proof -
  have "owned E h0 F q h n g" using m by (simp add: merging_def)
  note k = rest_kept [OF E this h1(2) inside] and s = part_stored [OF string_copy.deep_copy_axioms m E p]
  show ?thesis
    by (rule assign_merging [OF E T m h1]) (use k s in \<open>simp_all add: rest_rd_Some rest_within at_id_def\<close>)
qed

lemma state_merging:
  assumes E: "ext_ok E" and T: "sdk_time_ok E T" and m: "merging E T h0 F q m v h n g"
    and h1: "heap_ok h1" "extends h h1" and p: "string_rd h1 p = Some x" "string_rc h1 p \<subseteq> message_rc T h m \<union> {next_addr h..}"
  shows "\<exists>h' n'. assign (at_state p) q h1 = Ret h' \<and> merging E T h0 F q m v h' n' (g\<lparr>Status := (Status g)\<lparr>State := x\<rparr>\<rparr>)"
proof -
  have "owned E h0 F q h n g" using m by (simp add: merging_def)
  note k = rest_kept [OF E this h1(2) inside] and s = part_stored [OF string_copy.deep_copy_axioms m E p]
  show ?thesis
    by (rule assign_merging [OF E T m h1]) (use k s in \<open>simp_all add: rest_rd_Some rest_within at_state_def\<close>)
qed

lemma description_merging:
  assumes E: "ext_ok E" and T: "sdk_time_ok E T" and m: "merging E T h0 F q m v h n g"
    and h1: "heap_ok h1" "extends h h1" and p: "string_rd h1 p = Some x" "string_rc h1 p \<subseteq> message_rc T h m \<union> {next_addr h..}"
  shows "\<exists>h' n'. assign (at_description p) q h1 = Ret h' \<and> merging E T h0 F q m v h' n' (g\<lparr>Spec := (Spec g)\<lparr>Description := x\<rparr>\<rparr>)"
proof -
  have "owned E h0 F q h n g" using m by (simp add: merging_def)
  note k = rest_kept [OF E this h1(2) inside] and s = part_stored [OF string_copy.deep_copy_axioms m E p]
  show ?thesis
    by (rule assign_merging [OF E T m h1]) (use k s in \<open>simp_all add: rest_rd_Some rest_within at_description_def\<close>)
qed

lemma tags_merging:
  assumes E: "ext_ok E" and T: "sdk_time_ok E T" and m: "merging E T h0 F q m v h n g"
    and h1: "heap_ok h1" "extends h h1" and p: "tags_rd h1 p = Some x" "tags_rc h1 p \<subseteq> message_rc T h m \<union> {next_addr h..}"
  shows "\<exists>h' n'. assign (at_tags p) q h1 = Ret h' \<and> merging E T h0 F q m v h' n' (g\<lparr>Spec := (Spec g)\<lparr>Tags := x\<rparr>\<rparr>)"
proof -
  have "owned E h0 F q h n g" using m by (simp add: merging_def)
  note k = rest_kept [OF E this h1(2) inside] and s = part_stored [OF tags_copy.deep_copy_axioms m E p]
  show ?thesis
    by (rule assign_merging [OF E T m h1]) (use k s in \<open>simp_all add: rest_rd_Some rest_within at_tags_def\<close>)
qed

text \<open>The metadata changes: nothing of the message gets into it.\<close>

lemma merging_owned:
  assumes T: "sdk_time_ok E T" and m: "merging E T h0 F q m v h n g" and H: "owned E h0 F q h' n' g'"
    and le: "next_addr h \<le> next_addr h'" and same: "\<And>a. a \<in> message_rc T h m \<Longrightarrow> cells h' a = cells h a"
    and sub: "metadata_rc E h' (md_ptr n') \<union> conditions_rc E h' (cs_ptr n') \<subseteq>
      metadata_rc E h (md_ptr n) \<union> conditions_rc E h (cs_ptr n) \<union> {next_addr h..}"
  shows "merging E T h0 F q m v h' n' g'"
proof -
  have v: "network_shows T h m v" and bound: "message_rc T h m \<subseteq> {next_addr h0..<next_addr h}" using m by (simp_all add: merging_def)
  note ms = message_local [OF T v same]
  have "message_rc T h m \<inter> insert q (metadata_rc E h' (md_ptr n') \<union> conditions_rc E h' (cs_ptr n')) = {}"
    using m sub bound by (fastforce simp: merging_def)
  with m H ms le show ?thesis by (auto simp: merging_def)
qed

lemma merge_created_step:
  assumes E: "ext_ok E" and T: "sdk_time_ok E T" and m: "merging E T h0 F q m v h n g"
  shows "\<exists>h' n'. merge_created T m q h = Ret h' \<and>
    merging E T h0 F q m v h' n' (g\<lparr>Status := (Status g)\<lparr>CreatedAt := sdk_CreatedAt v\<rparr>\<rparr>)"
proof -
  have t: "time_rd T h (ms_CreatedAt m) = Some (sdk_CreatedAt v)" and ok: "heap_ok h"
    using m by (auto simp: merging_def network_shows_def dest: ownedD(1))
  show ?thesis
  proof (cases "ms_CreatedAt m")
    case None
    have "time_rd T h None = Some None" using T by (simp add: sdk_time_ok_def)
    with t None have "sdk_CreatedAt v = None" by simp
    with created_merging [OF E T m ok extends_refl, of None None] E None show ?thesis
      by (simp add: merge_created_def ext_ok_def)
  next
    case (Some p)
    obtain b h1 where "new_time T p h = Ret (b, h1)" "extends h h1" "heap_ok h1"
      "c_rd (ext_time E) h1 (Some b) = Some (sdk_CreatedAt v)" "c_rc (ext_time E) h1 (Some b) \<subseteq> {next_addr h..}"
      using T t ok Some unfolding sdk_time_ok_def by metis
    with created_merging [OF E T m, of h1 "Some b" "sdk_CreatedAt v"] Some show ?thesis
      by (auto simp: merge_created_def)
  qed
qed

lemma merge_description_step:
  assumes "ext_ok E" and "sdk_time_ok E T" and m: "merging E T h0 F q m v h n g"
  shows "\<exists>h' n'. merge_description m q h = Ret h' \<and>
    merging E T h0 F q m v h' n' (g\<lparr>Spec := (Spec g)\<lparr>Description := sdk_Description v\<rparr>\<rparr>)"
  unfolding merge_description_def
  by (rule description_merging [OF assms _ extends_refl])
    (use m in \<open>auto simp: merging_def network_shows_def message_rc_def dest: ownedD(1)\<close>)

lemma merge_id_step:
  assumes "ext_ok E" and "sdk_time_ok E T" and m: "merging E T h0 F q m v h n g"
  shows "\<exists>h' n'. merge_id m q h = Ret h' \<and>
    merging E T h0 F q m v h' n' (g\<lparr>Status := (Status g)\<lparr>GlobalNetworkID := sdk_GlobalNetworkId v\<rparr>\<rparr>)"
  unfolding merge_id_def
  by (rule id_merging [OF assms _ extends_refl])
    (use m in \<open>auto simp: merging_def network_shows_def message_rc_def dest: ownedD(1)\<close>)

lemma new_string:
  "string_rd (snd (alloc (StringCell s) h)) (Some (next_addr h)) = Some (Some s)"
  "string_rc (snd (alloc (StringCell s) h)) (Some (next_addr h)) = {next_addr h}"
  by (simp_all add: string_rd_def string_rc_def ptr_rd_def ptr_rc_def plain_rd_def plain_rc_def)

lemma merge_state_step:
  assumes E: "ext_ok E" and T: "sdk_time_ok E T" and m: "merging E T h0 F q m v h n g"
  shows "\<exists>h' n'. merge_state m q h = Ret h' \<and>
    merging E T h0 F q m v h' n' (g\<lparr>Status := (Status g)\<lparr>State := if sdk_State v \<noteq> '''' then Some (sdk_State v) else None\<rparr>\<rparr>)"
proof -
  have ok: "heap_ok h" and st: "ms_State m = sdk_State v" using m by (auto simp: merging_def network_shows_def dest: ownedD(1))
  show ?thesis
  proof (cases "sdk_State v = ''''")
    case True
    with state_merging [OF E T m ok extends_refl, of None None] st show ?thesis
      by (simp add: merge_state_def string_rd_def string_rc_def ptr_rd_def ptr_rc_def)
  next
    case False
    note a = alloc_law [OF ok, of "StringCell (sdk_State v)"]
    from state_merging [OF E T m a(2,1) new_string(1)] new_string(2) [of "sdk_State v" h] False st show ?thesis
      by (auto simp: merge_state_def alloc_pair Let_def simp del: heap_simps(4,5))
  qed
qed

lemma merge_tags_loop_law:
  assumes ok: "heap_ok h" and all: "list_all2 (\<lambda>t u. sdk_tag_rd h t = Some u) ts us"
    and pre: "list_all2 (\<lambda>p t. tag_ptr_rd h p = Some t \<and> tag_ptr_rc h p \<subseteq> X) ps vs"
    and sub: "\<forall>t \<in> set ts. sdk_tag_rc h t \<subseteq> X" and new: "{next_addr h..} \<subseteq> X"
  shows "\<exists>ps' h'. merge_tags_loop ts ps h = (ps', h') \<and> heap_ok h' \<and> extends h h' \<and>
    list_all2 (\<lambda>p t. tag_ptr_rd h' p = Some t \<and> tag_ptr_rc h' p \<subseteq> X) ps' (vs @ map (\<lambda>u. Some \<lparr>Key = sdk_Key u, Value = sdk_Value u\<rparr>) us)"
  using assms
proof (induction ts arbitrary: us ps vs h)
  case Nil
  then show ?case by simp
next
  case (Cons t ts)
  obtain u ws where us: "us = u # ws" "sdk_tag_rd h t = Some u" "list_all2 (\<lambda>t u. sdk_tag_rd h t = Some u) ts ws"
    using Cons.prems(2) by (auto simp: list_all2_Cons1)
  let ?c = "TagCell \<lparr>m_Key = ms_Key t, m_Value = ms_Value t\<rparr>"
  let ?h = "snd (alloc ?c h)"
  note a = alloc_law [OF Cons.prems(1), of ?c]
  have keep: "sdk_tag_rd ?h s = Some w \<and> sdk_tag_rc ?h s = sdk_tag_rc h s" if s: "sdk_tag_rd h s = Some w" for s w
  proof -
    obtain k y where "string_rd h (ms_Key s) = Some k" "string_rd h (ms_Value s) = Some y" "w = \<lparr>sdk_Key = k, sdk_Value = y\<rparr>"
      using s by (auto simp: sdk_tag_rd_def pair_rd_def split: option.splits)
    with string_copy.rd_extends [OF Cons.prems(1) _ a(1)] show ?thesis by (simp add: sdk_tag_rd_def sdk_tag_rc_def pair_rd_def)
  qed
  have ts: "list_all2 (\<lambda>t u. sdk_tag_rd ?h t = Some u) ts ws"
    using us(3) keep by (auto simp: list_all2_conv_all_nth)
  have cell: "cells ?h (next_addr h) = Some ?c" by simp
  have tag: "tag_ptr_rd ?h (Some (next_addr h)) = Some (Some \<lparr>Key = sdk_Key u, Value = sdk_Value u\<rparr>)"
    "tag_ptr_rc ?h (Some (next_addr h)) = insert (next_addr h) (sdk_tag_rc h t)"
    using keep [OF us(2)] cell
    by (auto simp: sdk_tag_rd_def sdk_tag_rc_def ptr_rd_def ptr_rc_def tag_rd_def tag_rc_def pair_rd_def
        simp del: heap_simps(5) split: option.splits)
  have "list_all2 (\<lambda>p t. tag_ptr_rd ?h p = Some t \<and> tag_ptr_rc ?h p \<subseteq> X) ps vs"
    using Cons.prems(3) tag_ptr_copy.rd_extends [OF Cons.prems(1) _ a(1)] by (auto simp: list_all2_conv_all_nth)
  then have pre: "list_all2 (\<lambda>p t. tag_ptr_rd ?h p = Some t \<and> tag_ptr_rc ?h p \<subseteq> X) (ps @ [Some (next_addr h)])
      (vs @ [Some \<lparr>Key = sdk_Key u, Value = sdk_Value u\<rparr>])"
    using tag Cons.prems(4,5) by (intro list_all2_appendI) auto
  have "sdk_tag_rc ?h s \<subseteq> X" if s: "s \<in> set ts" for s
  proof -
    obtain w where "sdk_tag_rd h s = Some w" using list_all2_member [OF us(3) s] by blast
    from keep [OF this] show ?thesis using Cons.prems(4) s by simp
  qed
  moreover have "{next_addr ?h..} \<subseteq> X" using Cons.prems(5) by auto
  ultimately obtain ps' h' where "merge_tags_loop ts (ps @ [Some (next_addr h)]) ?h = (ps', h')" "heap_ok h'" "extends ?h h'"
    "list_all2 (\<lambda>p t. tag_ptr_rd h' p = Some t \<and> tag_ptr_rc h' p \<subseteq> X) ps'
      ((vs @ [Some \<lparr>Key = sdk_Key u, Value = sdk_Value u\<rparr>]) @ map (\<lambda>u. Some \<lparr>Key = sdk_Key u, Value = sdk_Value u\<rparr>) ws)"
    using Cons.IH [OF a(2) ts pre] by blast
  then show ?case using extends_trans [OF a(1)] us(1) by (simp add: alloc_pair Let_def del: heap_simps(4,5))
qed

lemma merge_tags_step:
  assumes E: "ext_ok E" and T: "sdk_time_ok E T" and m: "merging E T h0 F q m v h n g"
  shows "\<exists>h' n'. merge_tags m q h = Ret h' \<and>
    merging E T h0 F q m v h' n' (g\<lparr>Spec := (Spec g)\<lparr>Tags := tags_of_sdk (sdk_Tags v)\<rparr>\<rparr>)"
proof -
  have ok: "heap_ok h" and ts: "sdk_tags_rd h (ms_Tags m) = Some (sdk_Tags v)"
    using m by (auto simp: merging_def network_shows_def dest: ownedD(1))
  show ?thesis
  proof (cases "ms_Tags m")
    case None
    with ts have "sdk_Tags v = None" by (simp add: sdk_tags_rd_def)
    with tags_merging [OF E T m ok extends_refl, of None None] None show ?thesis
      by (simp add: merge_tags_def tags_of_sdk_def tags_rd_def tags_rc_def slice_rd_def slice_rc_def array_rd_def array_rc_def)
  next
    case (Some ss)
    let ?X = "message_rc T h m \<union> {next_addr h..}"
    obtain us where us: "sdk_Tags v = Some us" "list_all2 (\<lambda>t u. sdk_tag_rd h t = Some u) ss us"
      using ts by (cases "sdk_Tags v") (auto simp: Some sdk_tags_rd_def list_rd_Some)
    have sub: "\<forall>t \<in> set ss. sdk_tag_rc h t \<subseteq> ?X" by (auto simp: message_rc_def sdk_tags_rc_def Some)
    obtain ps h1 where l: "merge_tags_loop ss [] h = (ps, h1)" "heap_ok h1" "extends h h1"
      "list_all2 (\<lambda>p t. tag_ptr_rd h1 p = Some t \<and> tag_ptr_rc h1 p \<subseteq> ?X) ps (map (\<lambda>u. Some \<lparr>Key = sdk_Key u, Value = sdk_Value u\<rparr>) us)"
      using merge_tags_loop_law [OF ok us(2) _ sub, of "[]" "[]"] by auto
    let ?h = "snd (alloc (ArrayCell ps) h1)"
    note a = alloc_law [OF l(2), of "ArrayCell ps"]
    have all: "list_all2 (\<lambda>p t. tag_ptr_rd ?h p = Some t \<and> tag_ptr_rc ?h p \<subseteq> ?X) ps
        (map (\<lambda>u. Some \<lparr>Key = sdk_Key u, Value = sdk_Value u\<rparr>) us)"
      using l(4) tag_ptr_copy.rd_extends [OF l(2) _ a(1)] by (auto simp: list_all2_conv_all_nth)
    have rd: "tags_rd ?h (Some (next_addr h1)) = Some (tags_of_sdk (sdk_Tags v))"
      using list_all2_mono [OF all, of "\<lambda>p t. tag_ptr_rd ?h p = Some t"]
      by (simp add: tags_rd_def slice_rd_def array_rd_def list_rd_Some us(1) tags_of_sdk_def)
    have rc: "tags_rc ?h (Some (next_addr h1)) \<subseteq> ?X"
      using list_all2_member [OF all] l(3) by (auto simp: tags_rc_def slice_rc_def array_rc_def extends_def)
    show ?thesis
      using tags_merging [OF E T m a(2) extends_trans [OF l(3) a(1)] rd rc] Some l(1)
      by (simp add: merge_tags_def alloc_pair Let_def del: heap_simps(4,5))
  qed
qed

lemma ensure_metadata_step:
  assumes E: "ext_ok E" and A: "ack_fields_ok E A" and T: "sdk_time_ok E T" and m: "merging E T h0 F q m v h n g"
  shows "\<exists>h' n'. ensure_metadata A q h = Ret h' \<and> merging E T h0 F q m v h' n' (with_parts (Some (metadata_of g)) (Conditions (Status g)) g)"
proof -
  have H: "owned E h0 F q h n g" using m by (simp add: merging_def)
  note d = ownedD [OF H] and p = owned_parts [OF E H]
  show ?thesis
  proof (cases "md_ptr n")
    case (Some a)
    then obtain md where "ACKResourceMetadata (Status g) = Some md"
      using p(2) by (cases "ACKResourceMetadata (Status g)") (auto simp: ptr_rd_def split: option.splits)
    then show ?thesis
      using m Some by (auto simp: ensure_metadata_def network_at_owned [OF H] metadata_of_def with_read_parts)
  next
    case None
    then have md: "ACKResourceMetadata (Status g) = None" using p(2) by (simp add: ptr_rd_def)
    let ?n = "with_md (Some (next_addr h)) n"
    let ?h = "store q (NetworkCell ?n) (snd (alloc (ExtCell (new_metadata A)) h))"
    note O = new_metadata_owned [OF E A H]
    have "merging E T h0 F q m v ?h ?n (with_parts (Some empty_metadata) (Conditions (Status g)) g)"
    proof (rule merging_owned [OF T m O])
      show "cells ?h a = cells h a" if "a \<in> message_rc T h m" for a
        using that m by (fastforce simp: merging_def)
      have "cells ?h a = cells h a" if "a \<in> conditions_rc E h (cs_ptr n)" for a using that d(8) p(6) by fastforce
      note cs = deep_copy.rd_local [OF parts_copy(4) [OF E] p(3) this]
      show "metadata_rc E ?h (md_ptr ?n) \<union> conditions_rc E ?h (cs_ptr ?n) \<subseteq>
          metadata_rc E h (md_ptr n) \<union> conditions_rc E h (cs_ptr n) \<union> {next_addr h..}"
        using cs A p(7) by (auto simp: ptr_rc_def ack_fields_ok_def)
    qed simp
    then show ?thesis
      using None md by (auto simp: ensure_metadata_def network_at_owned [OF H] metadata_of_def alloc_pair Let_def simp del: heap_simps(4,5))
  qed
qed

lemma merging_alloc:
  assumes E: "ext_ok E" and T: "sdk_time_ok E T" and m: "merging E T h0 F q m v h n g"
  shows "merging E T h0 F q m v (snd (alloc c h)) n g"
    and "metadata_rc E (snd (alloc c h)) (md_ptr n) = metadata_rc E h (md_ptr n)"
    and "conditions_rc E (snd (alloc c h)) (cs_ptr n) = conditions_rc E h (cs_ptr n)"
    and "rest_rc E (snd (alloc c h)) (rest_of n) = rest_rc E h (rest_of n)"
proof -
  have H: "owned E h0 F q h n g" using m by (simp add: merging_def)
  note d = ownedD [OF H] and p = owned_parts [OF E H] and a = alloc_law [OF ownedD(1) [OF H], of c]
  show rc: "metadata_rc E (snd (alloc c h)) (md_ptr n) = metadata_rc E h (md_ptr n)"
    "conditions_rc E (snd (alloc c h)) (cs_ptr n) = conditions_rc E h (cs_ptr n)"
    "rest_rc E (snd (alloc c h)) (rest_of n) = rest_rc E h (rest_of n)"
    using deep_copy.rd_extends [OF parts_copy(1) [OF E] d(1) p(1) a(1)]
      deep_copy.rd_extends [OF parts_copy(2) [OF E] d(1) p(2) a(1)] deep_copy.rd_extends [OF parts_copy(4) [OF E] d(1) p(3) a(1)]
    by simp_all
  show "merging E T h0 F q m v (snd (alloc c h)) n g"
    by (rule merging_owned [OF T m owned_alloc [OF E H]]) (use m rc in \<open>auto simp: merging_def\<close>)
qed

lemma merge_arn_step:
  assumes E: "ext_ok E" and A: "ack_fields_ok E A" and T: "sdk_time_ok E T" and m: "merging E T h0 F q m v h n g"
    and p: "ms_GlobalNetworkArn m = Some p" and md: "ACKResourceMetadata (Status g) = Some md"
  shows "\<exists>h' n'. merge_arn A p q h = Ret h' \<and> merging E T h0 F q m v h' n'
    (with_parts (Some (md\<lparr>ARN := sdk_GlobalNetworkArn v\<rparr>)) (Conditions (Status g)) g)"
proof -
  have ok: "heap_ok h" using m by (auto simp: merging_def dest: ownedD(1))
  have rd: "string_rd h (Some p) = Some (sdk_GlobalNetworkArn v)" using m p by (simp add: merging_def network_shows_def)
  obtain s where s: "sdk_GlobalNetworkArn v = Some s" "cells h p = Some (StringCell s)"
    using rd by (cases "sdk_GlobalNetworkArn v") (auto simp: string_rd_def ptr_rd_def plain_rd_def bind_eq_Some_conv un_Some)
  let ?c = "StringCell s" and ?f = "next_addr h"
  let ?h = "snd (alloc ?c h)"
  note al = merging_alloc [OF E T m, of ?c]
  have H: "owned E h0 F q ?h n g" using al(1) by (simp add: merging_def)
  note d = ownedD [OF H] and k = owned_parts [OF E H]
  have old: "owned E h0 F q h n g" using m by (simp add: merging_def)
  note b = owned_parts(4-7) [OF E old]
  obtain a x where a: "md_ptr n = Some a" "cells ?h a = Some (ExtCell x)" "c_rd (ext_metadata E) ?h x = Some md"
    "metadata_rc E ?h (md_ptr n) = insert a (c_rc (ext_metadata E) ?h x)"
    by (rule owned_metadata [OF H md])
  have put: "puts_pointer (ext_metadata E) (put_ARN A) (\<lambda>s m. m\<lparr>ARN := s\<rparr>)" using A by (simp add: ack_fields_ok_def)
  have f: "cells ?h ?f = Some (StringCell s)" "?f \<in> {next_addr h0..} \<union> F" "?f \<noteq> a"
    using ownedD(2) [OF old] a(4) al(2) b(2) by (auto simp: extends_def)
  have free: "?f \<notin> insert q (rest_rc E ?h (rest_of n) \<union> conditions_rc E ?h (cs_ptr n))"
    unfolding al(3,4) using b by auto
  let ?h' = "store a (ExtCell (put_ARN A (Some ?f) x)) ?h"
  note O = put_metadata_owned [OF E put H a(1-3) f free]
  have "cells ?h' b = cells ?h b" if "b \<in> conditions_rc E ?h (cs_ptr n)" for b using that d(11) a(4) by auto
  note cs = deep_copy.rd_local [OF parts_copy(4) [OF E] k(3) this]
  have "merging E T h0 F q m v ?h' n (with_parts (Some (md\<lparr>ARN := Some s\<rparr>)) (Conditions (Status g)) g)"
  proof (rule merging_owned [OF T m O(1)])
    show "cells ?h' b = cells h b" if b: "b \<in> message_rc T h m" for b
    proof -
      have "b < next_addr h" "b \<noteq> a" using m b a(4) al(2) by (auto simp: merging_def)
      then show ?thesis by simp
    qed
    show "metadata_rc E ?h' (md_ptr n) \<union> conditions_rc E ?h' (cs_ptr n) \<subseteq>
        metadata_rc E h (md_ptr n) \<union> conditions_rc E h (cs_ptr n) \<union> {next_addr h..}"
      using O(2) cs unfolding al(2,3) by auto
  qed simp
  moreover have "merge_arn A p q h = Ret ?h'"
    using s(2) a(1,2) network_at_owned [OF H]
    by (simp add: merge_arn_def un_string_def un_ext_def alloc_pair Let_def del: heap_simps(4,5))
  ultimately show ?thesis using s(1) by auto
qed

section \<open>The whole merge\<close>

lemma merge_head:
  assumes E: "ext_ok E" and T: "sdk_time_ok E T" and m: "merging E T h0 F q m v h n g"
  shows "\<exists>h' n'. and_then (merge_created T m q h) (merge_description m q) = Ret h' \<and>
    merging E T h0 F q m v h' n' (g\<lparr>Status := (Status g)\<lparr>CreatedAt := sdk_CreatedAt v\<rparr>,
      Spec := (Spec g)\<lparr>Description := sdk_Description v\<rparr>\<rparr>)"
proof -
  obtain h1 n1 where h1: "merge_created T m q h = Ret h1"
    "merging E T h0 F q m v h1 n1 (g\<lparr>Status := (Status g)\<lparr>CreatedAt := sdk_CreatedAt v\<rparr>\<rparr>)"
    using merge_created_step [OF E T m] by blast
  from merge_description_step [OF E T h1(2)] h1(1) show ?thesis by simp
qed

lemma merge_tail:
  assumes E: "ext_ok E" and T: "sdk_time_ok E T" and m: "merging E T h0 F q m v h n g"
  shows "\<exists>h' n'. and_then (merge_id m q h) (\<lambda>h. and_then (merge_state m q h) (merge_tags m q)) = Ret h' \<and>
    merging E T h0 F q m v h' n' (g\<lparr>Status := (Status g)\<lparr>GlobalNetworkID := sdk_GlobalNetworkId v,
        State := if sdk_State v \<noteq> '''' then Some (sdk_State v) else None\<rparr>,
      Spec := (Spec g)\<lparr>Tags := tags_of_sdk (sdk_Tags v)\<rparr>\<rparr>)"
proof -
  obtain h1 n1 where h1: "merge_id m q h = Ret h1"
    "merging E T h0 F q m v h1 n1 (g\<lparr>Status := (Status g)\<lparr>GlobalNetworkID := sdk_GlobalNetworkId v\<rparr>\<rparr>)"
    using merge_id_step [OF E T m] by blast
  obtain h2 n2 where h2: "merge_state m q h1 = Ret h2" and m2: "merging E T h0 F q m v h2 n2
      (g\<lparr>Status := (Status g)\<lparr>GlobalNetworkID := sdk_GlobalNetworkId v,
        State := if sdk_State v \<noteq> '''' then Some (sdk_State v) else None\<rparr>\<rparr>)"
    using merge_state_step [OF E T h1(2)] by auto
  from merge_tags_step [OF E T m2] h1(1) h2 show ?thesis by (simp split del: if_split)
qed

lemma arn_pointer:
  assumes "merging E T h0 F q m v h n g"
  shows "ms_GlobalNetworkArn m = None \<longleftrightarrow> sdk_GlobalNetworkArn v = None"
  using assms by (cases "sdk_GlobalNetworkArn v"; cases "ms_GlobalNetworkArn m")
    (auto simp: merging_def network_shows_def string_rd_def ptr_rd_def bind_eq_Some_conv)

text \<open>Once there is metadata, the ARN is put into it if there is one.\<close>

lemma merge_arn_optional:
  assumes E: "ext_ok E" and A: "ack_fields_ok E A" and T: "sdk_time_ok E T"
    and m: "merging E T h0 F q m v h n (with_parts (Some md) cs g)"
  shows "\<exists>h' n'. (case ms_GlobalNetworkArn m of Some p \<Rightarrow> merge_arn A p q h | None \<Rightarrow> Ret h) = Ret h' \<and>
    merging E T h0 F q m v h' n' (with_parts (Some (case sdk_GlobalNetworkArn v of None \<Rightarrow> md | Some arn \<Rightarrow> md\<lparr>ARN := Some arn\<rparr>)) cs g)"
proof (cases "ms_GlobalNetworkArn m")
  case None
  then show ?thesis using m arn_pointer [OF m] by auto
next
  case (Some p)
  then obtain arn where "sdk_GlobalNetworkArn v = Some arn" using arn_pointer [OF m] by auto
  with merge_arn_step [OF E A T m Some with_parts_sel(7)] Some show ?thesis by simp
qed

lemma merge_found_merging:
  assumes E: "ext_ok E" and A: "ack_fields_ok E A" and T: "sdk_time_ok E T" and m: "merging E T h0 F q m v h n g"
  shows "\<exists>h' n'. merge_found_mem A T m q h = Ret h' \<and> merging E T h0 F q m v h' n' (merge_found v g)"
proof -
  let ?g = "g\<lparr>Status := (Status g)\<lparr>CreatedAt := sdk_CreatedAt v\<rparr>, Spec := (Spec g)\<lparr>Description := sdk_Description v\<rparr>\<rparr>"
  obtain h1 n1 where h1: "and_then (merge_created T m q h) (merge_description m q) = Ret h1" "merging E T h0 F q m v h1 n1 ?g"
    using merge_head [OF E T m] by blast
  let ?md = "case sdk_GlobalNetworkArn v of None \<Rightarrow> ACKResourceMetadata (Status g) | Some arn \<Rightarrow> Some ((metadata_of g)\<lparr>ARN := Some arn\<rparr>)"
  let ?p = "with_parts ?md (Conditions (Status ?g)) ?g"
  have "\<exists>h2 n2. (case ms_GlobalNetworkArn m of Some p \<Rightarrow> and_then (ensure_metadata A q h1) (merge_arn A p q) | None \<Rightarrow> Ret h1) = Ret h2 \<and>
      merging E T h0 F q m v h2 n2 ?p"
  proof (cases "ms_GlobalNetworkArn m")
    case None
    have "with_parts (ACKResourceMetadata (Status g)) (Conditions (Status ?g)) ?g = ?g" by (rule with_read_parts(1)) simp
    with None show ?thesis using h1(2) arn_pointer [OF h1(2)] by (metis option.simps(4))
  next
    case (Some p)
    have md: "metadata_of ?g = metadata_of g" by (simp add: metadata_of_def)
    obtain h' n' where e: "ensure_metadata A q h1 = Ret h'"
      "merging E T h0 F q m v h' n' (with_parts (Some (metadata_of g)) (Conditions (Status ?g)) ?g)"
      using ensure_metadata_step [OF E A T h1(2)] unfolding md by blast
    obtain arn where "sdk_GlobalNetworkArn v = Some arn" using arn_pointer [OF m] Some by auto
    with merge_arn_optional [OF E A T e(2)] e(1) Some show ?thesis by simp
  qed
  then obtain h2 n2 where h2: "(case ms_GlobalNetworkArn m of Some p \<Rightarrow> and_then (ensure_metadata A q h1) (merge_arn A p q)
      | None \<Rightarrow> Ret h1) = Ret h2" and m2: "merging E T h0 F q m v h2 n2 ?p" by blast
  have "?p\<lparr>Status := (Status ?p)\<lparr>GlobalNetworkID := sdk_GlobalNetworkId v,
      State := if sdk_State v \<noteq> '''' then Some (sdk_State v) else None\<rparr>, Spec := (Spec ?p)\<lparr>Tags := tags_of_sdk (sdk_Tags v)\<rparr>\<rparr> = merge_found v g"
    unfolding merge_found_def merge_fields_def with_parts_def metadata_of_def by (cases g) (simp split: option.split)
  with merge_tail [OF E T m2] h1(1) h2 show ?thesis by (auto simp: merge_found_mem_def outcome_simps)
qed

lemma merge_output_merging:
  assumes E: "ext_ok E" and A: "ack_fields_ok E A" and T: "sdk_time_ok E T" and m: "merging E T h0 F q m v h n g"
  shows "\<exists>h' n'. merge_output_mem A T m q h = Ret h' \<and> merging E T h0 F q m v h' n' (merge_output v g)"
proof -
  let ?g = "g\<lparr>Status := (Status g)\<lparr>CreatedAt := sdk_CreatedAt v\<rparr>, Spec := (Spec g)\<lparr>Description := sdk_Description v\<rparr>\<rparr>"
  obtain h1 n1 where h1: "and_then (merge_created T m q h) (merge_description m q) = Ret h1" "merging E T h0 F q m v h1 n1 ?g"
    using merge_head [OF E T m] by blast
  have md: "metadata_of ?g = metadata_of g" by (simp add: metadata_of_def)
  let ?md = "case sdk_GlobalNetworkArn v of None \<Rightarrow> metadata_of g | Some arn \<Rightarrow> (metadata_of g)\<lparr>ARN := Some arn\<rparr>"
  let ?p = "with_parts (Some ?md) (Conditions (Status ?g)) ?g"
  obtain h2 n2 where h2: "ensure_metadata A q h1 = Ret h2"
    and m2: "merging E T h0 F q m v h2 n2 (with_parts (Some (metadata_of g)) (Conditions (Status ?g)) ?g)"
    using ensure_metadata_step [OF E A T h1(2)] unfolding md by blast
  obtain h3 n3 where h3: "(case ms_GlobalNetworkArn m of Some p \<Rightarrow> merge_arn A p q h2 | None \<Rightarrow> Ret h2) = Ret h3"
    and m3: "merging E T h0 F q m v h3 n3 ?p"
    using merge_arn_optional [OF E A T m2] by blast
  have "?p\<lparr>Status := (Status ?p)\<lparr>GlobalNetworkID := sdk_GlobalNetworkId v,
      State := if sdk_State v \<noteq> '''' then Some (sdk_State v) else None\<rparr>, Spec := (Spec ?p)\<lparr>Tags := tags_of_sdk (sdk_Tags v)\<rparr>\<rparr> = merge_output v g"
    unfolding merge_output_def merge_fields_def with_parts_def metadata_of_def Let_def by (cases g) simp
  with merge_tail [OF E T m3] h1(1) h2 h3 show ?thesis by (auto simp: merge_output_mem_def outcome_simps)
qed

end
