(* ===== verification/MemoryOps.thy ===== *)
theory MemoryOps
  imports MemorySdk
begin

text \<open>
  \<open>ReadOne\<close>, \<open>Create\<close>, \<open>Update\<close> and \<open>Delete\<close> of \<open>gn/manager.go\<close> in memory, with the SDK operations of
  \<open>gn/sdk.go\<close> they call, and that they do there what they do on values. The requests hold pointers to strings
  of the resource, the resource then holds pointers to strings of the output.
\<close>

section \<open>The client in memory\<close>

text \<open>
  The client of \<open>SdkOps\<close> takes and gives values; here a request is what the code makes it of, and an output
  lies in memory. \<open>SyncTags\<close> makes its requests of the strings of two maps, so it calls the client on values.
\<close>

record ('w, 'e, 'x) client_mem =
  Describe_mem :: "DescribeGlobalNetworksInput \<Rightarrow> 'w \<Rightarrow> 'x heap \<Rightarrow> (sdk_network_mem slice option \<times> 'e option) \<times> 'w \<times> 'x heap"
  CreateCall_mem :: "create_input_mem \<Rightarrow> 'w \<Rightarrow> 'x heap \<Rightarrow> (sdk_network_mem option option \<times> 'e option) \<times> 'w \<times> 'x heap"
  UpdateCall_mem :: "update_input_mem \<Rightarrow> 'w \<Rightarrow> 'x heap \<Rightarrow> (sdk_network_mem option option \<times> 'e option) \<times> 'w \<times> 'x heap"
  DeleteCall_mem :: "addr option \<Rightarrow> 'w \<Rightarrow> 'x heap \<Rightarrow> 'e option \<times> 'w \<times> 'x heap"

text \<open>A call answers as it does on values: it changes no cell, and the networks of its output are new.\<close>

definition fresh_message :: "'x sdk_time \<Rightarrow> 'x heap \<Rightarrow> 'x heap \<Rightarrow> sdk_global_network \<Rightarrow> sdk_network_mem \<Rightarrow> bool" where
  "fresh_message T h h' n m \<longleftrightarrow> network_shows T h' m n \<and> message_rc T h' m \<subseteq> {next_addr h..<next_addr h'}"

definition answers ::
  "('x heap \<Rightarrow> 'o \<Rightarrow> 'm \<Rightarrow> bool) \<Rightarrow> 'x heap \<Rightarrow> ('o option \<times> 'e option) \<times> 'w \<Rightarrow>
   ('m option \<times> 'e option) \<times> 'w \<times> 'x heap \<Rightarrow> bool" where
  "answers show h a b = (case (a, b) of (((resp, err), s), ((resp', err'), s', h')) \<Rightarrow>
     err' = err \<and> s' = s \<and> heap_ok h' \<and> extends h h' \<and> rel_option (show h') resp resp')"

definition client_in_memory :: "'x sdk_time \<Rightarrow> ('w, 'e) svcsdk_Client \<Rightarrow> ('w, 'e, 'x) client_mem \<Rightarrow> bool" where
  "client_in_memory T cl C \<longleftrightarrow> (\<forall>h s. heap_ok h \<longrightarrow>
     (\<forall>i. answers (\<lambda>h' out ms. list_all2 (fresh_message T h h') (elems (GlobalNetworks out)) (elems ms)) h
        (DescribeGlobalNetworks cl i s) (Describe_mem C i s h)) \<and>
     (\<forall>p i. string_rd h (in_Description p) = Some (create_Description i) \<longrightarrow> sdk_tags_rd h (in_Tags p) = Some (create_Tags i) \<longrightarrow>
        answers (\<lambda>h' out. rel_option (fresh_message T h h') (created_GlobalNetwork out)) h
          (CreateGlobalNetwork cl i s) (CreateCall_mem C p s h)) \<and>
     (\<forall>p i. string_rd h (in_GlobalNetworkId p) = Some (update_GlobalNetworkId i) \<longrightarrow>
        string_rd h (in_NewDescription p) = Some (update_Description i) \<longrightarrow>
        answers (\<lambda>h' out. rel_option (fresh_message T h h') (updated_GlobalNetwork out)) h
          (UpdateGlobalNetwork cl i s) (UpdateCall_mem C p s h)) \<and>
     (\<forall>p i. string_rd h p = Some (delete_GlobalNetworkId i) \<longrightarrow>
        (case DeleteCall_mem C p s h of (err, s', h') \<Rightarrow>
          DeleteGlobalNetwork cl i s = (err, s') \<and> heap_ok h' \<and> extends h h')))"

section \<open>The operations of the SDK\<close>

text \<open>
  An object is the address of a \<open>GlobalNetwork\<close>; a \<open>*resource\<close> an operation returns is nil or the
  address of the object its \<open>ko\<close> points to.
\<close>

definition field_at :: "('x network_mem \<Rightarrow> 'p) \<Rightarrow> addr \<Rightarrow> 'x heap \<Rightarrow> 'p outcome" where
  "field_at f a h = and_then (network_at h a) (\<lambda>n. Ret (f n))"

definition string_at :: "addr option \<Rightarrow> 'x heap \<Rightarrow> string outcome" where
  "string_at p h = and_then (deref p) (\<lambda>b. deref (Option.bind (cells h b) un_string))"

definition newListRequestPayload_mem :: "addr \<Rightarrow> 'x heap \<Rightarrow> DescribeGlobalNetworksInput outcome" where
  "newListRequestPayload_mem a h =
     and_then (field_at (\<lambda>n. m_GlobalNetworkID (m_Status n)) a h) (\<lambda>p.
       if p \<noteq> None then and_then (string_at p h) (\<lambda>i. Ret \<lparr>GlobalNetworkIds = Some ([] @ [i])\<rparr>)
       else Ret \<lparr>GlobalNetworkIds = None\<rparr>)"

text \<open>What is made of an output, after the object was copied.\<close>

definition merged_copy ::
  "'x ext \<Rightarrow> 'x ack_fields \<Rightarrow> manager_mem \<Rightarrow> (sdk_network_mem \<Rightarrow> addr \<Rightarrow> 'x heap \<Rightarrow> 'x heap outcome) \<Rightarrow>
   sdk_network_mem \<Rightarrow> addr \<Rightarrow> 'x heap \<Rightarrow> 'x heap outcome" where
  "merged_copy E A M mg elem q h = and_then (mg elem q h) (setStatusDefaults_mem E A M q)"

definition sdkFind_mem ::
  "'x ext \<Rightarrow> 'x ack_fields \<Rightarrow> manager_mem \<Rightarrow> 'x sdk_time \<Rightarrow> ('w, 'e, 'x) client_mem \<Rightarrow> ('e, 'd) ack_runtime \<Rightarrow>
   addr \<Rightarrow> ('w, 'e) env \<Rightarrow> 'x heap \<Rightarrow> (addr option \<times> 'e option \<times> 'x heap) outcome \<times> ('w, 'e) env" where
  "sdkFind_mem E A M T C rt a w h =
     op_then (field_at (\<lambda>n. m_GlobalNetworkID (m_Status n)) a h, w) (\<lambda>p w.
     if p = None then (Ret (None, Some (NotFound rt), h), w)
     else op_then (newListRequestPayload_mem a h, w) (\<lambda>inp w.
       (let ((resp, err), s, h) = Describe_mem C inp (svc w) h;
            w = RecordAPICall ''READ_MANY'' ''DescribeGlobalNetworks'' err (w\<lparr>svc := s\<rparr>)
        in case err of
             Some e \<Rightarrow>
               (Ret (None, Some (if AsAPIErrorCode rt e = Some ''ResourceNotFoundException'' then NotFound rt else e), h), w)
           | None \<Rightarrow>
               (and_then (GlobalNetwork_DeepCopy_mem E (Some a) h) (\<lambda>(p, h).
                and_then (deref resp) (\<lambda>nets.
                  case elems nets of
                    [] \<Rightarrow> Ret (None, Some (NotFound rt), h)
                  | elem # _ \<Rightarrow> and_then (deref p) (\<lambda>q.
                      and_then (merged_copy E A M (merge_found_mem A T) elem q h) (\<lambda>h.
                        Ret (Some q, None, h))))), w))))"

fun sdk_of_tags_loop_mem :: "addr option list \<Rightarrow> 'x heap \<Rightarrow> sdk_tag_mem list \<Rightarrow> sdk_tag_mem list outcome" where
  "sdk_of_tags_loop_mem [] h f1 = Ret f1"
| "sdk_of_tags_loop_mem (p # ps) h f1 =
     and_then (deref p) (\<lambda>a. and_then (deref (Option.bind (cells h a) un_tag)) (\<lambda>t.
       sdk_of_tags_loop_mem ps h (f1 @ [\<lparr>ms_Key = m_Key t, ms_Value = m_Value t\<rparr>])))"

definition newCreateRequestPayload_mem :: "addr \<Rightarrow> 'x heap \<Rightarrow> create_input_mem outcome" where
  "newCreateRequestPayload_mem a h =
     and_then (network_at h a) (\<lambda>n.
       case m_Tags (m_Spec n) of
         None \<Rightarrow> Ret \<lparr>in_Description = m_Description (m_Spec n), in_Tags = None\<rparr>
       | Some b \<Rightarrow>
           and_then (deref (Option.bind (cells h b) un_array)) (\<lambda>ps.
           and_then (sdk_of_tags_loop_mem ps h []) (\<lambda>f1.
             Ret \<lparr>in_Description = m_Description (m_Spec n), in_Tags = Some f1\<rparr>)))"

text \<open>The end of \<open>sdkCreate\<close> and \<open>sdkUpdate\<close> once the call returned no error.\<close>

definition copy_output ::
  "'x ext \<Rightarrow> 'x ack_fields \<Rightarrow> manager_mem \<Rightarrow> 'x sdk_time \<Rightarrow> addr \<Rightarrow> sdk_network_mem option option \<Rightarrow> 'x heap \<Rightarrow>
   (addr \<times> 'x heap) outcome" where
  "copy_output E A M T a resp h =
     and_then (GlobalNetwork_DeepCopy_mem E (Some a) h) (\<lambda>(p, h).
     and_then (deref resp) (\<lambda>out. and_then (deref out) (\<lambda>n. and_then (deref p) (\<lambda>q.
     and_then (merged_copy E A M (merge_output_mem A T) n q h) (\<lambda>h. Ret (q, h))))))"

definition post_create_defer_mem ::
  "('e, 'd) ack_runtime \<Rightarrow> addr \<Rightarrow> addr option \<times> 'e option \<Rightarrow> addr option \<times> 'e option" where
  "post_create_defer_mem rt q res =
     (case res of (created, err) \<Rightarrow>
       (case err of
          None \<Rightarrow> (created, err)
        | Some e \<Rightarrow> (if created = None then Some q else created, Some (WrapPostCreateError rt e))))"

definition sdkCreate_mem ::
  "'x ext \<Rightarrow> 'x ack_fields \<Rightarrow> manager_mem \<Rightarrow> 'x sdk_time \<Rightarrow> ('w, 'e, 'x) client_mem \<Rightarrow> ('e, 'd) ack_runtime \<Rightarrow>
   addr \<Rightarrow> ('w, 'e) env \<Rightarrow> 'x heap \<Rightarrow> (addr option \<times> 'e option \<times> 'x heap) outcome \<times> ('w, 'e) env" where
  "sdkCreate_mem E A M T C rt a w h =
     op_then (newCreateRequestPayload_mem a h, w) (\<lambda>inp w.
       (let ((resp, err), s, h) = CreateCall_mem C inp (svc w) h;
            w = RecordAPICall ''CREATE'' ''CreateGlobalNetwork'' err (w\<lparr>svc := s\<rparr>)
        in case err of
             Some e \<Rightarrow> (Ret (None, Some e, h), w)
           | None \<Rightarrow>
               (and_then (copy_output E A M T a resp h) (\<lambda>(q, h).
                  let (created, err) = post_create_defer_mem rt q (Some q, None) in Ret (created, err, h)), w)))"

definition update_tags_mem ::
  "'x ext \<Rightarrow> ('e, 'd) ack_runtime \<Rightarrow> sched \<Rightarrow> ('w, 'e) svcsdk_Client \<Rightarrow> addr \<Rightarrow> addr \<Rightarrow> 'd \<Rightarrow>
   ('w, 'e) env \<Rightarrow> 'x heap \<Rightarrow> 'e option outcome \<times> ('w, 'e) env" where
  "update_tags_mem E rt s cl a b delta w h =
     (if DifferentAt rt delta ''Spec.Tags''
      then op_then (network_at h a, w) (\<lambda>n w.
           op_then (deref (md_ptr n), w) (\<lambda>d w.
           op_then (deref (Option.bind (cells h d) un_ext), w) (\<lambda>x w.
           op_then (deref (c_rd (ext_metadata E) h x), w) (\<lambda>md w.
           op_then (deref (ARN md), w) (\<lambda>arn w.
           op_then (deref (tags_rd h (m_Tags (m_Spec n))), w) (\<lambda>ts w.
           op_then (field_at (\<lambda>n. m_Tags (m_Spec n)) b h, w) (\<lambda>l w.
           op_then (deref (tags_rd h l), w) (\<lambda>ls w.
             syncTags s cl arn ts ls w))))))))
      else (Ret None, w))"

definition newUpdateRequestPayload_mem :: "addr \<Rightarrow> 'x heap \<Rightarrow> update_input_mem outcome" where
  "newUpdateRequestPayload_mem a h = and_then (network_at h a) (\<lambda>n.
     Ret \<lparr>in_GlobalNetworkId = m_GlobalNetworkID (m_Status n), in_NewDescription = m_Description (m_Spec n)\<rparr>)"

definition sdkUpdate_mem ::
  "'x ext \<Rightarrow> 'x ack_fields \<Rightarrow> manager_mem \<Rightarrow> 'x sdk_time \<Rightarrow> ('w, 'e, 'x) client_mem \<Rightarrow> ('e, 'd) ack_runtime \<Rightarrow> sched \<Rightarrow>
   ('w, 'e) svcsdk_Client \<Rightarrow> addr \<Rightarrow> addr \<Rightarrow> 'd \<Rightarrow>
   ('w, 'e) env \<Rightarrow> 'x heap \<Rightarrow> (addr option \<times> 'e option \<times> 'x heap) outcome \<times> ('w, 'e) env" where
  "sdkUpdate_mem E A M T C rt s cl a b delta w h =
     op_then (update_tags_mem E rt s cl a b delta w h) (\<lambda>err w.
       case err of
         Some e \<Rightarrow> (Ret (None, Some e, h), w)
       | None \<Rightarrow>
           if \<not> DifferentExcept rt delta [''Spec.Tags''] then (Ret (Some a, None, h), w)
           else op_then (newUpdateRequestPayload_mem a h, w) (\<lambda>inp w.
             (let ((resp, err), s, h) = UpdateCall_mem C inp (svc w) h;
                  w = RecordAPICall ''UPDATE'' ''UpdateGlobalNetwork'' err (w\<lparr>svc := s\<rparr>)
              in case err of
                   Some e \<Rightarrow> (Ret (None, Some e, h), w)
                 | None \<Rightarrow> (and_then (copy_output E A M T a resp h) (\<lambda>(q, h). Ret (Some q, None, h)), w))))"

definition sdkDelete_mem ::
  "('w, 'e, 'x) client_mem \<Rightarrow> addr \<Rightarrow>
   ('w, 'e) env \<Rightarrow> 'x heap \<Rightarrow> (addr option \<times> 'e option \<times> 'x heap) outcome \<times> ('w, 'e) env" where
  "sdkDelete_mem C a w h =
     op_then (field_at (\<lambda>n. m_GlobalNetworkID (m_Status n)) a h, w) (\<lambda>p w.
       (let (err, s, h) = DeleteCall_mem C p (svc w) h;
            w = RecordAPICall ''DELETE'' ''DeleteGlobalNetwork'' err (w\<lparr>svc := s\<rparr>)
        in (Ret (None, err, h), w)))"

section \<open>The methods of the manager\<close>

text \<open>
  Of a resource a method sees the pointer: nil, or a struct with the pointer \<open>ko\<close>. It returns
  the nil interface, or a \<open>*resource\<close>.
\<close>

definition checked_mem :: "addr option option \<Rightarrow> addr outcome" where
  "checked_mem r = and_then (deref r) deref"

fun terminal_loop_mem :: "'x ext \<Rightarrow> ('e, 'd) ack_runtime \<Rightarrow> addr option list \<Rightarrow> 'x heap \<Rightarrow> bool outcome" where
  "terminal_loop_mem E rt [] h = Ret False"
| "terminal_loop_mem E rt (p # ps) h =
     and_then (deref p) (\<lambda>a. and_then (deref (Option.bind (cells h a) un_ext)) (\<lambda>x.
     and_then (deref (c_rd (ext_condition E) h x)) (\<lambda>c.
       if cond_Type c = ConditionTypeTerminal rt \<and> cond_Status c = ConditionTrue
       then Ret True else terminal_loop_mem E rt ps h)))"

definition onError_mem ::
  "'x ext \<Rightarrow> 'x ack_fields \<Rightarrow> manager_mem \<Rightarrow> ('e, 'd) ack_runtime \<Rightarrow> addr option \<Rightarrow> 'e option \<Rightarrow> 'x heap \<Rightarrow>
   (addr option option \<times> 'e option \<times> 'x heap) outcome" where
  "onError_mem E A M rt p err h =
     (if p = None then Ret (None, err, h)
      else and_then (updateConditions_mem E A M rt p False err h) (\<lambda>(p1, updated, h).
        if \<not> updated then Ret (Some p, err, h)
        else and_then (deref p1) (\<lambda>q. and_then (field_at cs_ptr q h) (\<lambda>cs.
             and_then (conditions_at h cs) (\<lambda>ps. and_then (terminal_loop_mem E rt ps h) (\<lambda>found.
               Ret (Some p1, if found then Some (Terminal rt) else err, h)))))))"

definition onSuccess_mem ::
  "'x ext \<Rightarrow> 'x ack_fields \<Rightarrow> manager_mem \<Rightarrow> ('e, 'd) ack_runtime \<Rightarrow> addr option \<Rightarrow> 'x heap \<Rightarrow>
   (addr option option \<times> 'e option \<times> 'x heap) outcome" where
  "onSuccess_mem E A M rt p h =
     (if p = None then Ret (None, None, h)
      else and_then (updateConditions_mem E A M rt p True None h) (\<lambda>(p1, updated, h).
        if \<not> updated then Ret (Some p, None, h) else Ret (Some p1, None, h)))"

definition finish_mem ::
  "'x ext \<Rightarrow> 'x ack_fields \<Rightarrow> manager_mem \<Rightarrow> ('e, 'd) ack_runtime \<Rightarrow> addr \<Rightarrow> addr option \<times> 'e option \<times> 'x heap \<Rightarrow>
   (addr option option \<times> 'e option \<times> 'x heap) outcome" where
  "finish_mem E A M rt a res =
     (case res of (observed, err, h) \<Rightarrow>
        if err \<noteq> None
        then (if observed \<noteq> None then onError_mem E A M rt observed err h else onError_mem E A M rt (Some a) err h)
        else onSuccess_mem E A M rt observed h)"

definition ReadOne_mem ::
  "'x ext \<Rightarrow> 'x ack_fields \<Rightarrow> manager_mem \<Rightarrow> 'x sdk_time \<Rightarrow> ('w, 'e, 'x) client_mem \<Rightarrow> ('e, 'd) ack_runtime \<Rightarrow> sched \<Rightarrow>
   addr option option \<Rightarrow> ('w, 'e) env \<Rightarrow> 'x heap \<Rightarrow> (addr option option \<times> 'e option \<times> 'x heap) outcome \<times> ('w, 'e) env" where
  "ReadOne_mem E A M T C rt s r w h =
     op_then (checked_mem r, w) (\<lambda>a w.
     op_then (sdkFind_mem E A M T C rt a w h) (\<lambda>(observed, err, h) w.
     op_then (mirrorAWSTags_mem rt s (Some (Some a)) (map_option Some observed) h, w) (\<lambda>h w.
       (finish_mem E A M rt a (observed, err, h), w))))"

definition Create_mem ::
  "'x ext \<Rightarrow> 'x ack_fields \<Rightarrow> manager_mem \<Rightarrow> 'x sdk_time \<Rightarrow> ('w, 'e, 'x) client_mem \<Rightarrow> ('e, 'd) ack_runtime \<Rightarrow>
   addr option option \<Rightarrow> ('w, 'e) env \<Rightarrow> 'x heap \<Rightarrow> (addr option option \<times> 'e option \<times> 'x heap) outcome \<times> ('w, 'e) env" where
  "Create_mem E A M T C rt r w h =
     op_then (checked_mem r, w) (\<lambda>a w.
     op_then (sdkCreate_mem E A M T C rt a w h) (\<lambda>created w. (finish_mem E A M rt a created, w)))"

definition Update_mem ::
  "'x ext \<Rightarrow> 'x ack_fields \<Rightarrow> manager_mem \<Rightarrow> 'x sdk_time \<Rightarrow> ('w, 'e, 'x) client_mem \<Rightarrow> ('e, 'd) ack_runtime \<Rightarrow> sched \<Rightarrow>
   ('w, 'e) svcsdk_Client \<Rightarrow> addr option option \<Rightarrow> addr option option \<Rightarrow> 'd \<Rightarrow>
   ('w, 'e) env \<Rightarrow> 'x heap \<Rightarrow> (addr option option \<times> 'e option \<times> 'x heap) outcome \<times> ('w, 'e) env" where
  "Update_mem E A M T C rt s cl r l delta w h =
     op_then (checked_mem r, w) (\<lambda>a w.
     op_then (checked_mem l, w) (\<lambda>b w.
     op_then (sdkUpdate_mem E A M T C rt s cl a b delta w h) (\<lambda>updated w. (finish_mem E A M rt b updated, w))))"

definition Delete_mem ::
  "'x ext \<Rightarrow> 'x ack_fields \<Rightarrow> manager_mem \<Rightarrow> ('w, 'e, 'x) client_mem \<Rightarrow> ('e, 'd) ack_runtime \<Rightarrow>
   addr option option \<Rightarrow> ('w, 'e) env \<Rightarrow> 'x heap \<Rightarrow> (addr option option \<times> 'e option \<times> 'x heap) outcome \<times> ('w, 'e) env" where
  "Delete_mem E A M C rt r w h =
     op_then (checked_mem r, w) (\<lambda>a w.
     op_then (sdkDelete_mem C a w h) (\<lambda>observed w. (finish_mem E A M rt a observed, w)))"

section \<open>What they rest on\<close>

abbreviation rm_cells :: "manager_mem \<Rightarrow> addr set" where
  "rm_cells M \<equiv> {at_Region M, at_Partition M, at_AccountID M}"

definition setting ::
  "'x ext \<Rightarrow> 'x ack_fields \<Rightarrow> manager_mem \<Rightarrow> 'x sdk_time \<Rightarrow> ('w, 'e, 'x) client_mem \<Rightarrow> ('w, 'e) resourceManager \<Rightarrow>
   'x heap \<Rightarrow> bool" where
  "setting E A M T C rm h \<longleftrightarrow> ext_ok E \<and> ack_fields_ok E A \<and> sdk_time_ok E T \<and> client_in_memory T (sdkapi rm) C \<and>
     heap_ok h \<and> manager_lies h M rm"

lemma settingD:
  assumes "setting E A M T C rm h"
  shows "ext_ok E" and "ack_fields_ok E A" and "sdk_time_ok E T" and "client_in_memory T (sdkapi rm) C"
    and "heap_ok h" and "manager_lies h M rm"
  using assms by (simp_all add: setting_def)

text \<open>Where resources of the model on values lie.\<close>

definition resource_lies :: "'x ext \<Rightarrow> 'x heap \<Rightarrow> resource option \<Rightarrow> addr option \<Rightarrow> bool" where
  "resource_lies E h = rel_option (\<lambda>r q. read_network E h (Some q) = Some (ko r))"

definition result_lies :: "'x ext \<Rightarrow> 'x heap \<Rightarrow> aws_resource \<Rightarrow> addr option option \<Rightarrow> bool" where
  "result_lies E h out res =
     (case out of NilInterface \<Rightarrow> res = None
      | ResourcePtr r \<Rightarrow> (case res of None \<Rightarrow> False | Some p \<Rightarrow> resource_lies E h r p)
      | OtherDynamicType \<Rightarrow> False)"

lemma object_reads:
  assumes "read_network E h (Some a) = Some (Some g)"
  obtains n where "network_at h a = Ret n" and "network_rd E h n = Some g"
  using assms by (auto simp: ptr_rd_def network_at_def bind_eq_Some_conv)

lemma resource_at:
  assumes "read_network E h (Some a) = Some (ko r)"
  obtains g where "r = \<lparr>ko = Some g\<rparr>" and "read_network E h (Some a) = Some (Some g)"
  using assms by (cases r) (auto simp: ptr_rd_def bind_eq_Some_conv)

lemma object_extends:
  assumes "ext_ok E" and "heap_ok h" and "read_network E h (Some a) = Some (Some g)" and "extends h h'"
  shows "read_network E h' (Some a) = Some (Some g)"
  using deep_copy.rd_extends [OF network_ptr_copy [OF assms(1)] assms(2-4)] by blast

lemma string_at_reads: "string_rd h p = Some s \<Longrightarrow> string_at p h = (case s of None \<Rightarrow> Panic | Some s \<Rightarrow> Ret s)"
  by (cases p) (auto simp: string_at_def string_rd_Some bind_eq_Some_conv)

lemma status_reads:
  assumes "network_rd E h n = Some g"
  shows "string_rd h (m_GlobalNetworkID (m_Status n)) = Some (GlobalNetworkID (Status g))"
    and "string_rd h (m_Description (m_Spec n)) = Some (Description (Spec g))"
    and "tags_rd h (m_Tags (m_Spec n)) = Some (Tags (Spec g))"
    and "metadata_rd E h (md_ptr n) = Some (ACKResourceMetadata (Status g))"
    and "conditions_rd E h (cs_ptr n) = Some (Conditions (Status g))"
  using assms by (simp_all add: network_rd_parts rest_rd_Some)

lemma string_nil: "string_rd h p = Some s \<Longrightarrow> p = None \<longleftrightarrow> s = None"
  by (cases p) (auto simp: string_rd_Some)

section \<open>The end of a method\<close>

lemma terminal_loop_mem_eq:
  "list_all2 (\<lambda>p c. condition_rd E h p = Some c) ps cs \<Longrightarrow> terminal_loop_mem E rt ps h = terminal_loop rt cs"
proof (induction rule: list_all2_induct)
  case (Cons p ps c cs)
  then show ?case by (cases p) (auto simp: ptr_rd_def bind_eq_Some_conv)
qed simp

lemma conditions_at_reads:
  assumes "network_rd E h n = Some g"
  obtains ps where "conditions_at h (cs_ptr n) = Ret ps"
    and "list_all2 (\<lambda>p c. condition_rd E h p = Some c) ps (elems (Conditions (Status g)))"
proof (cases "cs_ptr n")
  case None
  then have "Conditions (Status g) = None"
    using status_reads(5) [OF assms] by (simp add: slice_rd_def array_rd_def)
  with None show ?thesis by (intro that [of "[]"]) (simp_all add: conditions_at_def)
next
  case (Some b)
  have "array_rd un_array (condition_rd E) h (Some b) = Some (Conditions (Status g))"
    using status_reads(5) [OF assms] Some by (simp add: slice_rd_def)
  then obtain ps us where "Option.bind (cells h b) un_array = Some ps" "Conditions (Status g) = Some us"
    "list_all2 (\<lambda>p c. condition_rd E h p = Some c) ps us"
    by (rule array_rd_Some)
  with Some show ?thesis by (intro that [of ps]) (simp_all add: conditions_at_def)
qed

lemma onError_mem_law:
  assumes S: "ext_ok E" "ack_fields_ok E A" "heap_ok h" "manager_lies h M rm" and r: "resource_lies E h r p"
  shows "case onError rt rm r err of
      Panic \<Rightarrow> onError_mem E A M rt p err h = Panic
    | Ret (out, err') \<Rightarrow> \<exists>res h'. onError_mem E A M rt p err h = Ret (res, err', h') \<and> extends h h' \<and> result_lies E h' out res"
proof (cases r)
  case None
  with r show ?thesis by (simp add: resource_lies_def onError_def onError_mem_def result_lies_def)
next
  case (Some r0)
  obtain a where a: "p = Some a" "read_network E h (Some a) = Some (ko r0)" using r Some by (auto simp: resource_lies_def option_rel_Some1)
  obtain g where g: "r0 = \<lparr>ko = Some g\<rparr>" "read_network E h (Some a) = Some (Some g)" using resource_at [OF a(2)] by blast
  note law = updateConditions_mem_law [OF S g(2), of rt False err]
  show ?thesis
  proof (cases "updateConditions rt rm \<lparr>ko = Some g\<rparr> False err")
    case Panic
    with law show ?thesis by (simp add: Some a(1) g(1) onError_def onError_mem_def)
  next
    case (Ret u)
    obtain r1 updated where u: "u = (r1, updated)" by (cases u)
    obtain p1 h1 where m: "updateConditions_mem E A M rt (Some a) False err h = Ret (p1, updated, h1)" "heap_ok h1" "extends h h1"
      "r1 = None \<longleftrightarrow> p1 = None" "\<forall>r'. r1 = Some r' \<longrightarrow> read_network E h1 p1 = Some (ko r')"
      using law Ret u by auto
    have old: "read_network E h1 (Some a) = Some (Some g)" by (rule object_extends [OF S(1,3) g(2) m(3)])
    show ?thesis
    proof (cases "updated \<and> r1 \<noteq> None")
      case False
      then show ?thesis using Ret u m old
        by (auto simp: Some a(1) g(1) onError_def onError_mem_def result_lies_def resource_lies_def)
    next
      case True
      then obtain r2 q where q: "r1 = Some r2" "p1 = Some q" using m(4) by auto
      then obtain g2 where g2: "r2 = \<lparr>ko = Some g2\<rparr>" "read_network E h1 (Some q) = Some (Some g2)"
        using resource_at m(5) by blast
      obtain n where n: "network_at h1 q = Ret n" "network_rd E h1 n = Some g2" using object_reads [OF g2(2)] by blast
      obtain ps where ps: "conditions_at h1 (cs_ptr n) = Ret ps"
        "list_all2 (\<lambda>p c. condition_rd E h1 p = Some c) ps (elems (Conditions (Status g2)))"
        using conditions_at_reads [OF n(2)] by blast
      have "terminal_loop_mem E rt ps h1 = terminal_loop rt (elems (Conditions (Status g2)))"
        by (rule terminal_loop_mem_eq [OF ps(2)])
      with True Ret u m(1,3) q g2 n(1) ps(1) show ?thesis
        by (cases "terminal_loop rt (elems (Conditions (Status g2)))")
          (auto simp: Some a(1) g(1) onError_def onError_mem_def field_at_def resource_Conditions_def result_lies_def resource_lies_def)
    qed
  qed
qed

lemma onSuccess_mem_law:
  assumes S: "ext_ok E" "ack_fields_ok E A" "heap_ok h" "manager_lies h M rm" and r: "resource_lies E h r p"
  shows "case onSuccess rt rm r of
      Panic \<Rightarrow> onSuccess_mem E A M rt p h = Panic
    | Ret (out, err') \<Rightarrow> \<exists>res h'. onSuccess_mem E A M rt p h = Ret (res, err', h') \<and> extends h h' \<and> result_lies E h' out res"
proof (cases r)
  case None
  with r show ?thesis by (simp add: resource_lies_def onSuccess_def onSuccess_mem_def result_lies_def)
next
  case (Some r0)
  obtain a where a: "p = Some a" "read_network E h (Some a) = Some (ko r0)" using r Some by (auto simp: resource_lies_def option_rel_Some1)
  obtain g where g: "r0 = \<lparr>ko = Some g\<rparr>" "read_network E h (Some a) = Some (Some g)" using resource_at [OF a(2)] by blast
  note law = updateConditions_mem_law [OF S g(2), of rt True None]
  show ?thesis
  proof (cases "updateConditions rt rm \<lparr>ko = Some g\<rparr> True None")
    case Panic
    with law show ?thesis by (simp add: Some a(1) g(1) onSuccess_def onSuccess_mem_def)
  next
    case (Ret u)
    obtain r1 updated where u: "u = (r1, updated)" by (cases u)
    obtain p1 h1 where m: "updateConditions_mem E A M rt (Some a) True None h = Ret (p1, updated, h1)" "heap_ok h1" "extends h h1"
      "r1 = None \<longleftrightarrow> p1 = None" "\<forall>r'. r1 = Some r' \<longrightarrow> read_network E h1 p1 = Some (ko r')"
      using law Ret u by auto
    have "read_network E h1 (Some a) = Some (Some g)" by (rule object_extends [OF S(1,3) g(2) m(3)])
    moreover have "resource_lies E h1 r1 p1" using m(4,5) by (cases r1; cases p1) (auto simp: resource_lies_def)
    ultimately show ?thesis using Ret u m(1,3)
      by (auto simp: Some a(1) g(1) onSuccess_def onSuccess_mem_def result_lies_def resource_lies_def)
  qed
qed

lemma finish_mem_law:
  assumes S: "ext_ok E" "ack_fields_ok E A" "heap_ok h" "manager_lies h M rm"
    and a: "read_network E h (Some a) = Some (ko r)" and obs: "resource_lies E h observed p"
  shows "case finish rt rm r (observed, err) of
      Panic \<Rightarrow> finish_mem E A M rt a (p, err, h) = Panic
    | Ret (out, err') \<Rightarrow> \<exists>res h'. finish_mem E A M rt a (p, err, h) = Ret (res, err', h') \<and> extends h h' \<and> result_lies E h' out res"
proof -
  have "resource_lies E h (Some r) (Some a)" using a by (simp add: resource_lies_def)
  note laws = onError_mem_law [OF S this, of rt err] onError_mem_law [OF S obs, of rt err] onSuccess_mem_law [OF S obs, of rt]
  have nil: "observed = None \<longleftrightarrow> p = None" using obs by (cases observed; cases p) (simp_all add: resource_lies_def)
  have ends: "finish rt rm r (observed, err) =
      (if err = None then onSuccess rt rm observed
       else if observed = None then onError rt rm (Some r) err else onError rt rm observed err)"
    "finish_mem E A M rt a (p, err, h) =
      (if err = None then onSuccess_mem E A M rt p h
       else if observed = None then onError_mem E A M rt (Some a) err h else onError_mem E A M rt p err h)"
    using nil by (auto simp: finish_def finish_mem_def)
  show ?thesis
    using laws unfolding ends by (cases "err = None"; cases "observed = None") (simp_all only: if_True if_False simp_thms)
qed

section \<open>Reading\<close>

text \<open>The object is copied after the call; the copy is then merged with the output.\<close>

lemma copied_merging:
  assumes S: "setting E A M T C rm h" and e: "extends h h1" "heap_ok h1"
    and g: "read_network E h (Some a) = Some (Some g)" and m: "fresh_message T h h1 v m"
  obtains q h2 n where "GlobalNetwork_DeepCopy_mem E (Some a) h1 = Ret (Some q, h2)"
    and "merging E T h (rm_cells M) q m v h2 n g"
proof -
  note s = settingD [OF S]
  have g1: "read_network E h1 (Some a) = Some (Some g)" by (rule object_extends [OF s(1,5) g e(1)])
  obtain q n h2 where c: "GlobalNetwork_DeepCopy_mem E (Some a) h1 = Ret (Some q, h2)" "owned E h1 {} q h2 n g"
    by (rule owned_copy [OF s(1) e(2) g1])
  note d = ownedD [OF c(2)]
  have le: "next_addr h \<le> next_addr h1" using e(1) by (simp add: extends_def)
  have "owned E h (rm_cells M) q h2 n g"
    using c(2) extends_trans [OF e(1) d(2)] le unfolding owned_def by fastforce
  moreover have v: "network_shows T h1 m v" "message_rc T h1 m \<subseteq> {next_addr h..<next_addr h1}"
    using m by (simp_all add: fresh_message_def)
  have same: "cells h2 b = cells h1 b" if "b \<in> message_rc T h1 m" for b using that v(2) d(2) by (auto simp: extends_def)
  note ms = message_local [OF s(3) v(1) same]
  moreover have "message_rc T h2 m \<subseteq> {next_addr h..<next_addr h2}"
    using v(2) d(2) by (auto simp: extends_def ms(2))
  moreover have "message_rc T h2 m \<inter> insert q (metadata_rc E h2 (md_ptr n) \<union> conditions_rc E h2 (cs_ptr n)) = {}"
    using v(2) d(3,13,17) by (fastforce simp: ms(2))
  ultimately have "merging E T h (rm_cells M) q m v h2 n g" unfolding merging_def by blast
  with c(1) show ?thesis by (rule that)
qed

lemma merged_copy_law:
  assumes S: "setting E A M T C rm h" and m: "merging E T h (rm_cells M) q m v h1 n g"
    and mg: "\<exists>h' n'. mg m q h1 = Ret h' \<and> merging E T h (rm_cells M) q m v h' n' g'"
  shows "\<exists>h' n'. merged_copy E A M mg m q h1 = Ret h' \<and> owned E h (rm_cells M) q h' n' (setStatusDefaults rm g')"
proof -
  note s = settingD [OF S]
  obtain h2 n2 where h2: "mg m q h1 = Ret h2" "owned E h (rm_cells M) q h2 n2 g'" using mg by (auto simp: merging_def)
  from setStatusDefaults_owned [OF s(1,2) h2(2) s(5,6)] h2(1) show ?thesis by (auto simp: merged_copy_def)
qed

text \<open>A resource an operation made: its object is owned.\<close>

definition made :: "'x ext \<Rightarrow> manager_mem \<Rightarrow> 'x heap \<Rightarrow> 'x heap \<Rightarrow> resource option \<Rightarrow> addr option \<Rightarrow> bool" where
  "made E M h h' r p \<longleftrightarrow> heap_ok h' \<and> extends h h' \<and>
     rel_option (\<lambda>r q. \<exists>n g. ko r = Some g \<and> owned E h (rm_cells M) q h' n g) r p"

lemma owned_reads: "owned E h0 F q h n g \<Longrightarrow> read_network E h (Some q) = Some (Some g)"
  using ownedD(4,5) by (fastforce simp: ptr_rd_def)

lemma made_lies: "made E M h h' r p \<Longrightarrow> resource_lies E h' r p"
  unfolding made_def resource_lies_def by (auto elim!: option.rel_mono_strong dest: owned_reads)

text \<open>Both panic, or both return something related, and they leave the same world.\<close>

definition agrees :: "('a \<Rightarrow> 'b \<Rightarrow> bool) \<Rightarrow> 'a outcome \<times> 'v \<Rightarrow> 'b outcome \<times> 'v \<Rightarrow> bool" where
  "agrees P m m' \<longleftrightarrow> rel_outcome P (fst m) (fst m') \<and> snd m = snd m'"

lemma agrees_simps [simp]:
  "agrees P (Ret x, w) (Ret y, v) \<longleftrightarrow> P x y \<and> w = v" "agrees P (Panic, w) (Panic, v) \<longleftrightarrow> w = v"
  "\<not> agrees P (Ret x, w) (Panic, v)" "\<not> agrees P (Panic, w) (Ret y, v)"
  by (simp_all add: agrees_def)

lemma agrees_RetE:
  assumes "agrees P (Ret x, w) m"
  obtains y where "m = (Ret y, w)" and "P x y"
  using assms by (cases m; cases "fst m") auto

lemma agrees_then:
  assumes "agrees P m m'" and "\<And>x y w. P x y \<Longrightarrow> agrees Q (f x w) (f' y w)"
  shows "agrees Q (op_then m f) (op_then m' f')"
  using assms by (cases "(m, f)" rule: op_then.cases; cases "(m', f')" rule: op_then.cases) auto

lemma copied_extends:
  assumes S: "setting E A M T C rm h" and e: "extends h h1" "heap_ok h1" and g: "read_network E h (Some a) = Some (Some g)"
  obtains q h2 where "GlobalNetwork_DeepCopy_mem E (Some a) h1 = Ret (Some q, h2)" and "heap_ok h2" and "extends h h2"
proof -
  note s = settingD [OF S]
  obtain q n h2 where c: "GlobalNetwork_DeepCopy_mem E (Some a) h1 = Ret (Some q, h2)" "owned E h1 {} q h2 n g"
    by (rule owned_copy [OF s(1) e(2) object_extends [OF s(1,5) g e(1)]])
  from that [OF c(1) ownedD(1) [OF c(2)] extends_trans [OF e(1) ownedD(2) [OF c(2)]]] show ?thesis .
qed

lemma answers_call:
  assumes "answers show h ((resp, err), s) m"
  obtains resp' h1 where "m = ((resp', err), s, h1)" and "heap_ok h1" and "extends h h1" and "rel_option (show h1) resp resp'"
  using assms by (cases m) (auto simp: answers_def)

lemma client_calls:
  assumes "client_in_memory T cl C" and "heap_ok h"
  shows "answers (\<lambda>h' out ms. list_all2 (fresh_message T h h') (elems (GlobalNetworks out)) (elems ms)) h
      (DescribeGlobalNetworks cl i s) (Describe_mem C i s h)"
    and "string_rd h (in_Description p) = Some (create_Description ci) \<Longrightarrow> sdk_tags_rd h (in_Tags p) = Some (create_Tags ci) \<Longrightarrow>
      answers (\<lambda>h' out. rel_option (fresh_message T h h') (created_GlobalNetwork out)) h
        (CreateGlobalNetwork cl ci s) (CreateCall_mem C p s h)"
    and "string_rd h (in_GlobalNetworkId u) = Some (update_GlobalNetworkId ui) \<Longrightarrow>
      string_rd h (in_NewDescription u) = Some (update_Description ui) \<Longrightarrow>
      answers (\<lambda>h' out. rel_option (fresh_message T h h') (updated_GlobalNetwork out)) h
        (UpdateGlobalNetwork cl ui s) (UpdateCall_mem C u s h)"
    and "string_rd h d = Some (delete_GlobalNetworkId di) \<Longrightarrow>
      (case DeleteCall_mem C d s h of (err, s', h') \<Rightarrow> DeleteGlobalNetwork cl di s = (err, s') \<and> heap_ok h' \<and> extends h h')"
  using assms unfolding client_in_memory_def by (blast, blast, blast, auto)

lemma rel_then:
  assumes "rel_outcome P m m'" and "\<And>x y. P x y \<Longrightarrow> rel_outcome Q (f x) (f' y)"
  shows "rel_outcome Q (and_then m f) (and_then m' f')"
  using assms by (cases rule: outcome.rel_cases) auto

text \<open>What \<open>sdkFind\<close> makes of the networks it was told of: of none \<open>NotFound\<close>, else of the first.\<close>

lemma found_copy:
  assumes S: "setting E A M T C rm h" and e: "extends h h1" "heap_ok h1" and g: "read_network E h (Some a) = Some (Some g)"
    and resp: "rel_option (\<lambda>out ms. list_all2 (fresh_message T h h1) (elems (GlobalNetworks out)) (elems ms)) resp resp'"
  shows "rel_outcome (\<lambda>(r, err) (p, err', h'). err' = err \<and> made E M h h' r p)
    (and_then (deref resp) (\<lambda>resp. case elems (GlobalNetworks resp) of
        [] \<Rightarrow> Ret (None, Some (NotFound rt))
      | v # _ \<Rightarrow> and_then (deref (GlobalNetwork_DeepCopy (ko \<lparr>ko = Some g\<rparr>))) (\<lambda>g.
          Ret (Some \<lparr>ko = Some (setStatusDefaults rm (merge_found v g))\<rparr>, None))))
    (and_then (GlobalNetwork_DeepCopy_mem E (Some a) h1) (\<lambda>(p, h). and_then (deref resp') (\<lambda>nets. case elems nets of
        [] \<Rightarrow> Ret (None, Some (NotFound rt), h)
      | m # _ \<Rightarrow> and_then (deref p) (\<lambda>q. and_then (merged_copy E A M (merge_found_mem A T) m q h) (\<lambda>h.
          Ret (Some q, None, h))))))"
proof -
  note s = settingD [OF S]
  obtain q0 h0 where c: "GlobalNetwork_DeepCopy_mem E (Some a) h1 = Ret (Some q0, h0)" "heap_ok h0" "extends h h0"
    by (rule copied_extends [OF S e g])
  consider "resp = None" | out where "resp = Some out" "elems (GlobalNetworks out) = []"
    | out v vs where "resp = Some out" "elems (GlobalNetworks out) = v # vs"
    by (cases resp; cases "elems (GlobalNetworks (the resp))") auto
  then show ?thesis
  proof cases
    case 1
    then show ?thesis using resp c by simp
  next
    case 2
    then show ?thesis using resp c by (auto simp: option_rel_Some1 made_def)
  next
    case 3
    then obtain ms m ms' where m: "resp' = Some ms" "elems ms = m # ms'" "fresh_message T h h1 v m"
      using resp by (auto simp: option_rel_Some1 list_all2_Cons1)
    obtain q h2 n2 where d: "GlobalNetwork_DeepCopy_mem E (Some a) h1 = Ret (Some q, h2)" "merging E T h (rm_cells M) q m v h2 n2 g"
      by (rule copied_merging [OF S e g m(3)])
    obtain h3 n3 where "merged_copy E A M (merge_found_mem A T) m q h2 = Ret h3"
      "owned E h (rm_cells M) q h3 n3 (setStatusDefaults rm (merge_found v g))"
      using merged_copy_law [OF S d(2), of "merge_found_mem A T" "merge_found v g"] merge_found_merging [OF s(1-3) d(2)] by blast
    then show ?thesis using 3 m(1,2) d(1) ownedD(1,2) by (fastforce simp: made_def)
  qed
qed

lemma sdkFind_mem_law:
  assumes S: "setting E A M T C rm h" and g: "read_network E h (Some a) = Some (Some g)"
  shows "agrees (\<lambda>(r, err) (p, err', h'). err' = err \<and> made E M h h' r p)
    (sdkFind rt rm \<lparr>ko = Some g\<rparr> w) (sdkFind_mem E A M T C rt a w h)"
proof -
  note s = settingD [OF S]
  obtain n where n: "network_at h a = Ret n" "network_rd E h n = Some g" by (rule object_reads [OF g])
  note id = status_reads(1) [OF n(2)]
  note defs = sdkFind_def sdkFind_mem_def requiredFieldsMissingFromReadManyInput_def newListRequestPayload_def
    newListRequestPayload_mem_def field_at_def n(1) string_at_reads [OF id] string_nil [OF id]
  show ?thesis
  proof (cases "GlobalNetworkID (Status g)")
    case None
    then show ?thesis using s(5) by (simp add: defs made_def)
  next
    case (Some i)
    let ?i = "\<lparr>GlobalNetworkIds = Some [i]\<rparr>"
    obtain resp err s' where call: "DescribeGlobalNetworks (sdkapi rm) ?i (svc w) = ((resp, err), s')" by (metis surj_pair)
    obtain resp' h1 where mem: "Describe_mem C ?i (svc w) h = ((resp', err), s', h1)" "heap_ok h1" "extends h h1"
      "rel_option (\<lambda>out ms. list_all2 (fresh_message T h h1) (elems (GlobalNetworks out)) (elems ms)) resp resp'"
      by (rule answers_call [OF client_calls(1) [OF s(4,5), of ?i "svc w", unfolded call]])
    show ?thesis
    proof (cases err)
      case (Some e)
      then show ?thesis using mem(2,3) \<open>GlobalNetworkID (Status g) = Some i\<close> by (simp add: defs call mem(1) made_def)
    next
      case None
      with found_copy [OF S mem(3,2) g mem(4), of rt] Some show ?thesis by (simp add: defs call mem(1) agrees_def)
    qed
  qed
qed

section \<open>Creating\<close>

lemma sdk_of_tags_loop_mem_eq:
  assumes "list_all2 (\<lambda>p t. tag_ptr_rd h p = Some t) ps ts" and "list_all2 (\<lambda>m u. sdk_tag_rd h m = Some u) ms us"
  shows "rel_outcome (\<lambda>us ms. list_all2 (\<lambda>m u. sdk_tag_rd h m = Some u) ms us)
    (sdk_of_tags_loop ts us) (sdk_of_tags_loop_mem ps h ms)"
  using assms
proof (induction arbitrary: us ms rule: list_all2_induct)
  case (Cons p ps t ts)
  show ?case
  proof (cases p)
    case None
    then show ?thesis using Cons.hyps(1) by (simp add: tag_ptr_rd_Some)
  next
    case (Some a)
    obtain m k v where m: "Option.bind (cells h a) un_tag = Some m" "string_rd h (m_Key m) = Some k" "string_rd h (m_Value m) = Some v"
      "t = Some \<lparr>Key = k, Value = v\<rparr>"
      using Cons.hyps(1) Some by (auto simp: tag_ptr_rd_Some)
    have "list_all2 (\<lambda>m u. sdk_tag_rd h m = Some u) (ms @ [\<lparr>ms_Key = m_Key m, ms_Value = m_Value m\<rparr>])
        (us @ [\<lparr>sdk_Key = k, sdk_Value = v\<rparr>])"
      using Cons.prems m by (intro list_all2_appendI) (simp_all add: sdk_tag_rd_def pair_rd_def)
    from Cons.IH [OF this] show ?thesis using Some m by simp
  qed
qed simp

lemma create_payload_mem:
  assumes "network_at h a = Ret n" and "network_rd E h n = Some g"
  shows "rel_outcome (\<lambda>(i, err) p. err = None \<and> string_rd h (in_Description p) = Some (create_Description i) \<and>
      sdk_tags_rd h (in_Tags p) = Some (create_Tags i))
    (newCreateRequestPayload \<lparr>ko = Some g\<rparr>) (newCreateRequestPayload_mem a h)"
proof -
  note r = status_reads(2,3) [OF assms(2)]
  note defs = newCreateRequestPayload_def newCreateRequestPayload_mem_def assms(1)
  show ?thesis
  proof (cases "m_Tags (m_Spec n)")
    case None
    then have "Tags (Spec g) = None" using r(2) by (simp add: tags_rd_def slice_rd_def array_rd_def)
    with None r(1) show ?thesis by (simp add: defs sdk_tags_rd_def)
  next
    case (Some b)
    have "array_rd un_array tag_ptr_rd h (Some b) = Some (Tags (Spec g))"
      using r(2) Some by (simp add: tags_rd_def slice_rd_def)
    then obtain ps ts where ts: "Option.bind (cells h b) un_array = Some ps" "Tags (Spec g) = Some ts"
      "list_all2 (\<lambda>p t. tag_ptr_rd h p = Some t) ps ts"
      by (rule array_rd_Some)
    have "rel_outcome (\<lambda>us ms. list_all2 (\<lambda>m u. sdk_tag_rd h m = Some u) ms us)
        (sdk_of_tags_loop ts []) (sdk_of_tags_loop_mem ps h [])"
      by (rule sdk_of_tags_loop_mem_eq [OF ts(3)]) simp
    then show ?thesis
      using Some ts r(1) by (cases rule: outcome.rel_cases) (simp_all add: defs sdk_tags_rd_def list_rd_Some)
  qed
qed

lemma copy_output_law:
  assumes S: "setting E A M T C rm h" and e: "extends h h1" "heap_ok h1" and g: "read_network E h (Some a) = Some (Some g)"
    and resp: "rel_option (\<lambda>out. rel_option (fresh_message T h h1) (net out)) resp resp'"
  shows "rel_outcome (\<lambda>v (q, h'). \<exists>n. owned E h (rm_cells M) q h' n (setStatusDefaults rm (merge_output v g)))
    (and_then (deref resp) (\<lambda>out. deref (net out))) (copy_output E A M T a resp' h1)"
proof -
  note s = settingD [OF S]
  obtain q0 h0 where c: "GlobalNetwork_DeepCopy_mem E (Some a) h1 = Ret (Some q0, h0)"
    by (rule copied_extends [OF S e g])
  show ?thesis
  proof (cases "Option.bind resp net")
    case None
    then have "Option.bind resp' (\<lambda>x. x) = None"
      using resp by (cases resp; cases resp') auto
    with None c show ?thesis by (cases resp; cases resp') (auto simp: copy_output_def)
  next
    case (Some v)
    then obtain out where out: "resp = Some out" "net out = Some v" by (auto simp: bind_eq_Some_conv)
    then obtain m where m: "resp' = Some (Some m)" "fresh_message T h h1 v m"
      using resp by (auto simp: option_rel_Some1)
    obtain q h2 n2 where d: "GlobalNetwork_DeepCopy_mem E (Some a) h1 = Ret (Some q, h2)" "merging E T h (rm_cells M) q m v h2 n2 g"
      by (rule copied_merging [OF S e g m(2)])
    obtain h3 n3 where "merged_copy E A M (merge_output_mem A T) m q h2 = Ret h3"
      "owned E h (rm_cells M) q h3 n3 (setStatusDefaults rm (merge_output v g))"
      using merged_copy_law [OF S d(2), of "merge_output_mem A T" "merge_output v g"] merge_output_merging [OF s(1-3) d(2)] by blast
    with out m d(1) show ?thesis by (auto simp: copy_output_def)
  qed
qed

lemma output_agrees:
  assumes "rel_outcome R (and_then (deref resp) (\<lambda>out. deref (net out))) (copy_output E A M T a resp' h1)"
    and "\<And>v qh. R v qh \<Longrightarrow> rel_outcome Q (f g v) (f' qh)"
  shows "rel_outcome Q (and_then (deref (GlobalNetwork_DeepCopy (ko \<lparr>ko = Some g\<rparr>))) (\<lambda>g. and_then (deref resp) (\<lambda>out. and_then (deref (net out)) (f g))))
    (and_then (copy_output E A M T a resp' h1) f')"
proof -
  have "and_then (deref (GlobalNetwork_DeepCopy (ko \<lparr>ko = Some g\<rparr>))) (\<lambda>g. and_then (deref resp) (\<lambda>out. and_then (deref (net out)) (f g))) =
      and_then (and_then (deref resp) (\<lambda>out. deref (net out))) (f g)"
    by (cases resp) simp_all
  then show ?thesis using rel_then [OF assms] by simp
qed

lemma sdkCreate_mem_law:
  assumes S: "setting E A M T C rm h" and g: "read_network E h (Some a) = Some (Some g)"
  shows "agrees (\<lambda>(r, err) (p, err', h'). err' = err \<and> made E M h h' r p)
    (sdkCreate rt rm \<lparr>ko = Some g\<rparr> w) (sdkCreate_mem E A M T C rt a w h)"
proof -
  note s = settingD [OF S]
  obtain n where n: "network_at h a = Ret n" "network_rd E h n = Some g" by (rule object_reads [OF g])
  note p = create_payload_mem [OF n]
  show ?thesis
    unfolding sdkCreate_def sdkCreate_mem_def
  proof (rule agrees_then [where P = "\<lambda>(i, err) p. err = None \<and> string_rd h (in_Description p) = Some (create_Description i) \<and>
      sdk_tags_rd h (in_Tags p) = Some (create_Tags i)"], goal_cases)
    case 1
    then show ?case using p by (simp add: agrees_def)
  next
    case (2 x p w)
    then obtain i where i: "x = (i, None)" "string_rd h (in_Description p) = Some (create_Description i)"
      "sdk_tags_rd h (in_Tags p) = Some (create_Tags i)" by auto
    obtain resp err s' where call: "CreateGlobalNetwork (sdkapi rm) i (svc w) = ((resp, err), s')" by (metis surj_pair)
    obtain resp' h1 where mem: "CreateCall_mem C p (svc w) h = ((resp', err), s', h1)" "heap_ok h1" "extends h h1"
      "rel_option (\<lambda>out. rel_option (fresh_message T h h1) (created_GlobalNetwork out)) resp resp'"
      by (rule answers_call [OF client_calls(2) [OF s(4,5) i(2,3), of "svc w", unfolded call]])
    note c = copy_output_law [OF S mem(3,2) g mem(4)]
    show ?case
    proof (cases err)
      case (Some e)
      then show ?thesis using mem(2,3) by (simp add: i(1) call mem(1) made_def)
    next
      case None
      have "rel_outcome (\<lambda>(r, err) (p, err', h'). err' = err \<and> made E M h h' r p)
          (and_then (deref (GlobalNetwork_DeepCopy (ko \<lparr>ko = Some g\<rparr>))) (\<lambda>g. and_then (deref resp) (\<lambda>out.
            and_then (deref (created_GlobalNetwork out)) (\<lambda>n. let g = setStatusDefaults rm (merge_output n g)
              in Ret (post_create_defer rt g (Some \<lparr>ko = Some g\<rparr>, None))))))
          (and_then (copy_output E A M T a resp' h1) (\<lambda>(q, h).
            let (created, err) = post_create_defer_mem rt q (Some q, None) in Ret (created, err, h)))"
        by (rule output_agrees [OF c])
          (auto simp: post_create_defer_def post_create_defer_mem_def made_def Let_def dest: ownedD(1,2))
      with None show ?thesis by (simp add: i(1) call mem(1) agrees_def)
    qed
  qed
qed

section \<open>Updating and deleting\<close>

lemma update_tags_mem_eq:
  assumes "network_at h a = Ret n" "network_rd E h n = Some g" and "network_at h b = Ret n'" "network_rd E h n' = Some l"
  shows "update_tags_mem E rt s (sdkapi rm) a b delta w h = update_tags rt s rm \<lparr>ko = Some g\<rparr> \<lparr>ko = Some l\<rparr> delta w"
proof (cases "md_ptr n")
  case None
  then have "ACKResourceMetadata (Status g) = None" using status_reads(4) [OF assms(2)] by (simp add: ptr_rd_def)
  with None assms(1) show ?thesis by (simp add: update_tags_def update_tags_mem_def)
next
  case (Some d)
  obtain x md where "Option.bind (cells h d) un_ext = Some x" "c_rd (ext_metadata E) h x = Some md"
    "ACKResourceMetadata (Status g) = Some md"
    using status_reads(4) [OF assms(2)] Some by (fastforce simp: ptr_rd_def bind_eq_Some_conv)
  with Some assms status_reads(3) [OF assms(2)] status_reads(3) [OF assms(4)] show ?thesis
    by (cases "ARN md") (simp_all add: update_tags_def update_tags_mem_def field_at_def)
qed

lemma sdkUpdate_mem_law:
  assumes S: "setting E A M T C rm h" and g: "read_network E h (Some a) = Some (Some g)"
    and l: "read_network E h (Some b) = Some (Some l)"
  shows "agrees (\<lambda>(r, err) (p, err', h'). err' = err \<and> heap_ok h' \<and> extends h h' \<and> resource_lies E h' r p)
    (sdkUpdate rt s rm \<lparr>ko = Some g\<rparr> \<lparr>ko = Some l\<rparr> delta w) (sdkUpdate_mem E A M T C rt s (sdkapi rm) a b delta w h)"
proof -
  note s = settingD [OF S]
  obtain n where n: "network_at h a = Ret n" "network_rd E h n = Some g" by (rule object_reads [OF g])
  obtain n' where n': "network_at h b = Ret n'" "network_rd E h n' = Some l" by (rule object_reads [OF l])
  have none: "resource_lies E k None None" for k :: "'a heap" by (simp add: resource_lies_def)
  show ?thesis
    unfolding sdkUpdate_def sdkUpdate_mem_def update_tags_mem_eq [OF n n']
  proof (rule agrees_then [where P = "(=)"], goal_cases)
    case 1
    show ?case by (simp add: agrees_def outcome.rel_eq)
  next
    case (2 terr terr' w)
    let ?i = "\<lparr>update_GlobalNetworkId = GlobalNetworkID (Status g), update_Description = Description (Spec g)\<rparr>"
    let ?p = "\<lparr>in_GlobalNetworkId = m_GlobalNetworkID (m_Status n), in_NewDescription = m_Description (m_Spec n)\<rparr>"
    obtain resp err s' where call: "UpdateGlobalNetwork (sdkapi rm) ?i (svc w) = ((resp, err), s')" by (metis surj_pair)
    obtain resp' h1 where mem: "UpdateCall_mem C ?p (svc w) h = ((resp', err), s', h1)" "heap_ok h1" "extends h h1"
      "rel_option (\<lambda>out. rel_option (fresh_message T h h1) (updated_GlobalNetwork out)) resp resp'"
      by (rule answers_call [OF client_calls(3) [OF s(4,5), of ?p ?i "svc w", unfolded call]])
        (simp_all add: status_reads [OF n(2)])
    note c = copy_output_law [OF S mem(3,2) g mem(4)]
    note run = newUpdateRequestPayload_def newUpdateRequestPayload_mem_def n(1) call mem(1)
    show ?case
    proof (cases "terr = None \<and> DifferentExcept rt delta [''Spec.Tags''] \<and> err = None")
      case False
      then show ?thesis using 2 s(5) g mem(2,3) none
        by (cases terr; cases err) (auto simp: run resource_lies_def)
    next
      case True
      have "rel_outcome (\<lambda>(r, err) (p, err', h'). err' = err \<and> heap_ok h' \<and> extends h h' \<and> resource_lies E h' r p)
          (and_then (deref (GlobalNetwork_DeepCopy (ko \<lparr>ko = Some g\<rparr>))) (\<lambda>g. and_then (deref resp) (\<lambda>out.
            and_then (deref (updated_GlobalNetwork out)) (\<lambda>n.
              Ret (Some \<lparr>ko = Some (setStatusDefaults rm (merge_output n g))\<rparr>, None)))))
          (and_then (copy_output E A M T a resp' h1) (\<lambda>(q, h). Ret (Some q, None, h)))"
        by (rule output_agrees [OF c]) (auto simp: resource_lies_def dest: ownedD(1,2) owned_reads)
      with True 2 show ?thesis by (simp add: run agrees_def)
    qed
  qed
qed

lemma sdkDelete_mem_law:
  assumes S: "setting E A M T C rm h" and g: "read_network E h (Some a) = Some (Some g)"
  shows "agrees (\<lambda>(r, err) (p, err', h'). err' = err \<and> made E M h h' r p)
    (sdkDelete rm \<lparr>ko = Some g\<rparr> w) (sdkDelete_mem C a w h)"
proof -
  note s = settingD [OF S]
  obtain n where n: "network_at h a = Ret n" "network_rd E h n = Some g" by (rule object_reads [OF g])
  let ?i = "\<lparr>delete_GlobalNetworkId = GlobalNetworkID (Status g)\<rparr>" and ?p = "m_GlobalNetworkID (m_Status n)"
  obtain err s' h1 where mem: "DeleteCall_mem C ?p (svc w) h = (err, s', h1)" by (metis surj_pair)
  with client_calls(4) [OF s(4,5), of ?p ?i "svc w"] status_reads(1) [OF n(2)] show ?thesis
    by (simp add: sdkDelete_def sdkDelete_mem_def newDeleteRequestPayload_def field_at_def n(1) made_def)
qed

section \<open>The methods\<close>

lemma finish_agrees:
  assumes S: "setting E A M T C rm h" and h1: "heap_ok h1" "extends h h1"
    and a: "read_network E h1 (Some a) = Some (ko r)" and obs: "resource_lies E h1 observed p"
  shows "rel_outcome (\<lambda>(out, err) (res, err', h'). err' = err \<and> extends h h' \<and> result_lies E h' out res)
    (finish rt rm r (observed, err)) (finish_mem E A M rt a (p, err, h1))"
proof -
  note s = settingD [OF S]
  have F: "c < next_addr h" if "c \<in> rm_cells M" for c using s(5,6) that by (auto simp: heap_ok_def manager_lies_def)
  then have "manager_lies h1 M rm" using s(6) h1(2) by (simp add: manager_lies_def extends_def)
  note law = finish_mem_law [OF s(1,2) h1(1) this a obs, of rt err]
  show ?thesis
    using law extends_trans [OF h1(2)] by (cases "finish rt rm r (observed, err)") fastforce+
qed

lemma one_cell_between:
  assumes "extends h h1" and "one_cell_changed a h1 h2" and "extends h2 h3"
  shows "one_cell_changed a h h3"
  using assms by (fastforce simp: one_cell_changed_def extends_def)

lemma extends_one_cell: "extends h h' \<Longrightarrow> one_cell_changed a h h'"
  by (simp add: one_cell_changed_def extends_def)

lemma lies_at_read: "lies_at E h a g \<Longrightarrow> read_network E h (Some a) = Some (Some g)"
  by (auto simp: lies_at_def ptr_rd_def)

lemma lies_at_extends:
  assumes "ext_ok E" and "heap_ok h" and "lies_at E h a g" and "extends h h'"
  shows "lies_at E h' a g"
proof -
  obtain n where n: "cells h a = Some (NetworkCell n)" "network_rd E h n = Some g" "a \<notin> network_rc E h n"
    using assms(3) by (auto simp: lies_at_def)
  have "a < next_addr h" using assms(2) n(1) by (simp add: heap_ok_def)
  with n deep_copy.rd_extends [OF network_copy [OF assms(1)] assms(2) n(2) assms(4)] assms(4) show ?thesis
    by (auto simp: lies_at_def extends_def)
qed

text \<open>The end of \<open>ReadOne\<close> when a network was found: the tags of the argument change.\<close>

lemma read_tags_agree:
  assumes S: "setting E A M T C rm h" and at: "lies_at E h a g" and h1: "heap_ok h1" "extends h h1"
    and q: "owned E h (rm_cells M) q h1 n g0" and aq: "lies_at E h1 a g" "lies_at E h1 q g0"
  shows "agrees (\<lambda>(r, out, err) (res, err', h'). err' = err \<and> one_cell_changed a h h' \<and>
      read_network E h' (Some a) = Some (ko r) \<and> result_lies E h' out res)
    (op_then (and_then (mirrorAWSTags rt s (Some \<lparr>ko = Some g\<rparr>) (Some \<lparr>ko = Some g0\<rparr>)) deref, w)
      (\<lambda>r w. (and_then (finish rt rm r (Some \<lparr>ko = Some g0\<rparr>, err)) (\<lambda>(out, err). Ret (r, out, err)), w)))
    (op_then (mirrorAWSTags_mem rt s (Some (Some a)) (Some (Some q)) h1, w)
      (\<lambda>h w. (finish_mem E A M rt a (Some q, err, h), w)))"
proof -
  note sd = settingD [OF S] and law = mirrorAWSTags_in_place [OF settingD(1) [OF S] h1(1) aq, of rt s]
  show ?thesis
  proof (cases "mirrorAWSTags rt s (Some \<lparr>ko = Some g\<rparr>) (Some \<lparr>ko = Some g0\<rparr>)")
    case Panic
    with law show ?thesis by simp
  next
    case (Ret r1)
    then obtain h2 where h2: "mirrorAWSTags_mem rt s (Some (Some a)) (Some (Some q)) h1 = Ret h2"
      and w: "rewritten E a (Option.bind r1 ko) h1 h2" using law by auto
    have rd: "read_network E h2 (Some a) = Some (Option.bind r1 ko)" "heap_ok h2" "one_cell_changed a h1 h2"
      using w by (simp_all add: rewritten_def)
    obtain r where r: "r1 = Some r" "read_network E h2 (Some a) = Some (ko r)"
      using rd(1) by (cases r1) (auto simp: ptr_rd_def bind_eq_Some_conv)
    have old: "a < next_addr h" "a \<notin> rm_cells M" and F: "rm_cells M \<subseteq> {..<next_addr h}"
      using at sd(5,6) by (auto simp: lies_at_def heap_ok_def manager_lies_def)
    have "insert q (network_rc E h1 n) \<subseteq> {next_addr h..} \<union> rm_cells M"
      using ownedD(3,12,13,17) [OF q] by (auto simp: network_rc_parts)
    then have "a \<notin> network_cells E h1 (Some q)"
      using old ownedD(4) [OF q] by (auto simp: ptr_rc_def)
    then have "read_network E h2 (Some q) = Some (Some g0)"
      by (rule rewritten_others [OF sd(1) h1(1) w owned_reads [OF q]])
    then have obs: "resource_lies E h2 (Some \<lparr>ko = Some g0\<rparr>) (Some q)" by (simp add: resource_lies_def)
    have "cells h2 c = cells h c" if c: "c \<in> rm_cells M" for c
    proof -
      have "c < next_addr h" "c < next_addr h1" "c \<noteq> a" using c F old(2) h1(2) by (auto simp: extends_def)
      then show ?thesis using rd(3) h1(2) by (simp add: one_cell_changed_def extends_def)
    qed
    then have "manager_lies h2 M rm" using sd(6) by (simp add: manager_lies_def)
    note f = finish_mem_law [OF sd(1,2) rd(2) this r(2) obs, of rt err]
    obtain g1 where "ko r = Some g1" using resource_at [OF r(2)] by (metis resource.select_convs(1))
    then have "read_network E h' (Some a) = Some (ko r)" if "extends h2 h'" for h'
      using object_extends [OF sd(1) rd(2) _ that] r(2) by simp
    with f one_cell_between [OF h1(2) rd(3)] show ?thesis
      unfolding Ret h2 r(1) by (cases "finish rt rm r (Some \<lparr>ko = Some g0\<rparr>, err)") fastforce+
  qed
qed

lemma ReadOne_mem_law:
  assumes S: "setting E A M T C rm h" and at: "lies_at E h a g"
  shows "agrees (\<lambda>(r, out, err) (res, err', h'). err' = err \<and> one_cell_changed a h h' \<and>
      read_network E h' (Some a) = Some (ko r) \<and> result_lies E h' out res)
    (ReadOne rt s rm (ResourcePtr (Some \<lparr>ko = Some g\<rparr>)) w) (ReadOne_mem E A M T C rt s (Some (Some a)) w h)"
proof -
  note sd = settingD [OF S] and g = lies_at_read [OF at]
  show ?thesis
    unfolding ReadOne_def ReadOne_mem_def checked_simps checked_mem_def deref.simps and_then.simps op_then.simps
  proof (rule agrees_then [OF sdkFind_mem_law [OF S g]], goal_cases)
    case (1 x y w)
    obtain obs err where x: "x = (obs, err)" by (cases x)
    obtain p h1 where y: "y = (p, err, h1)" and m: "made E M h h1 obs p" using 1 x by (cases y) auto
    have h1: "heap_ok h1" "extends h h1" using m by (simp_all add: made_def)
    show ?case
    proof (cases obs)
      case None
      then have p: "p = None" using m by (simp add: made_def)
      have a1: "read_network E h1 (Some a) = Some (ko \<lparr>ko = Some g\<rparr>)" using object_extends [OF sd(1,5) g h1(2)] by simp
      have "resource_lies E h1 None None" by (simp add: resource_lies_def)
      note f = finish_agrees [OF S h1 a1 this, of rt err]
      show ?thesis
        using f object_extends [OF sd(1,5) g]
        by (cases rule: outcome.rel_cases)
          (auto simp: x y None p mirrorAWSTags_mem_def extends_one_cell)
    next
      case (Some r0)
      then obtain q n g0 where q: "p = Some q" "r0 = \<lparr>ko = Some g0\<rparr>" "owned E h (rm_cells M) q h1 n g0"
        using m by (cases r0) (auto simp: made_def option_rel_Some1)
      have aq: "lies_at E h1 a g" "lies_at E h1 q g0"
        using lies_at_extends [OF sd(1,5) at h1(2)] ownedD(4,5) [OF q(3)] q(3) by (auto simp: lies_at_def owned_def)
      show ?thesis
        using read_tags_agree [OF S at h1 q(3) aq, of rt s w err] by (simp add: x y Some q(1,2) case_prod_unfold)
    qed
  qed
qed

lemma created_agrees:
  assumes S: "setting E A M T C rm h" and a: "read_network E h (Some a) = Some (ko r)"
    and op: "agrees (\<lambda>(r, err) (p, err', h'). err' = err \<and> heap_ok h' \<and> extends h h' \<and> resource_lies E h' r p) x y"
  shows "agrees (\<lambda>(out, err) (res, err', h'). err' = err \<and> extends h h' \<and> result_lies E h' out res)
    (op_then x (\<lambda>created w. (finish rt rm r created, w))) (op_then y (\<lambda>created w. (finish_mem E A M rt a created, w)))"
proof (rule agrees_then [OF op], goal_cases)
  case (1 c d w)
  obtain obs err p h1 where c: "c = (obs, err)" "d = (p, err, h1)" and h1: "heap_ok h1" "extends h h1"
    and obs: "resource_lies E h1 obs p" using 1 by (cases c; cases d) auto
  note sd = settingD [OF S]
  obtain g where g: "r = \<lparr>ko = Some g\<rparr>" "read_network E h (Some a) = Some (Some g)" by (rule resource_at [OF a])
  have "read_network E h1 (Some a) = Some (ko r)" using object_extends [OF sd(1,5) g(2) h1(2)] g(1) by simp
  from finish_agrees [OF S h1 this obs, of rt err] show ?case by (simp add: c agrees_def)
qed

lemma madeD: "made E M h h' r p \<Longrightarrow> heap_ok h' \<and> extends h h' \<and> resource_lies E h' r p"
  using made_lies [of E M h h' r p] by (auto simp: made_def)

lemma made_agrees:
  "agrees (\<lambda>(r, err) (p, err', h'). err' = err \<and> made E M h h' r p) x y \<Longrightarrow>
   agrees (\<lambda>(r, err) (p, err', h'). err' = err \<and> heap_ok h' \<and> extends h h' \<and> resource_lies E h' r p) x y"
  unfolding agrees_def by (auto elim!: outcome.rel_mono_strong dest!: madeD)

section \<open>Properties\<close>

text \<open>
  C15: \<open>ReadOne\<close>, \<open>Create\<close>, \<open>Update\<close> and \<open>Delete\<close> do in memory what they do on values, although requests
  and resources share strings, the output is merged into a copy pointer by pointer, and the metadata points to
  fields of the manager. For all objects that lie in memory, each method panics exactly if it does on values,
  leaves the same service and the same record of calls, returns the same error, and what it returns reads as
  what it returns there. \<open>Create\<close>, \<open>Update\<close> and \<open>Delete\<close> change no cell that was there, so neither the
  desired nor the latest resource; \<open>ReadOne\<close> changes the cell of the object it was given and no other, and
  that object then reads as the argument the method leaves on values, with the AWS tags mirrored.
\<close>

theorem operations_in_memory:
  assumes "setting E A M T C rm h" and "lies_at E h a g" and "lies_at E h b l"
  shows "agrees (\<lambda>(r, out, err) (res, err', h'). err' = err \<and> one_cell_changed a h h' \<and>
        read_network E h' (Some a) = Some (ko r) \<and> result_lies E h' out res)
      (ReadOne rt s rm (ResourcePtr (Some \<lparr>ko = Some g\<rparr>)) w) (ReadOne_mem E A M T C rt s (Some (Some a)) w h) \<and>
    agrees (\<lambda>(out, err) (res, err', h'). err' = err \<and> extends h h' \<and> result_lies E h' out res)
      (Create rt rm (ResourcePtr (Some \<lparr>ko = Some g\<rparr>)) w) (Create_mem E A M T C rt (Some (Some a)) w h) \<and>
    agrees (\<lambda>(out, err) (res, err', h'). err' = err \<and> extends h h' \<and> result_lies E h' out res)
      (Update rt s rm (ResourcePtr (Some \<lparr>ko = Some g\<rparr>)) (ResourcePtr (Some \<lparr>ko = Some l\<rparr>)) delta w)
      (Update_mem E A M T C rt s (sdkapi rm) (Some (Some a)) (Some (Some b)) delta w h) \<and>
    agrees (\<lambda>(out, err) (res, err', h'). err' = err \<and> extends h h' \<and> result_lies E h' out res)
      (Delete rt rm (ResourcePtr (Some \<lparr>ko = Some g\<rparr>)) w) (Delete_mem E A M C rt (Some (Some a)) w h)"
proof -
  note S = assms(1) and a = lies_at_read [OF assms(2)] and b = lies_at_read [OF assms(3)]
  have r: "read_network E h (Some a) = Some (ko \<lparr>ko = Some g\<rparr>)" "read_network E h (Some b) = Some (ko \<lparr>ko = Some l\<rparr>)"
    using a b by simp_all
  note run = checked_simps checked_mem_def deref.simps and_then.simps op_then.simps
  show ?thesis
    unfolding Create_def Create_mem_def Update_def Update_mem_def Delete_def Delete_mem_def concreteResource_def
      aws_resource.case run
    by (intro conjI ReadOne_mem_law [OF S assms(2)] created_agrees [OF S r(1)] created_agrees [OF S r(2)]
        made_agrees [OF sdkCreate_mem_law [OF S a]] made_agrees [OF sdkDelete_mem_law [OF S a]] sdkUpdate_mem_law [OF S a b])
qed

end
