(* ===== verification/MemoryWitnesses.thy ===== *)
theory MemoryWitnesses
  imports CopyWitnesses MemoryOps
begin

text \<open>
  The methods of the manager at work in a small memory. Any client on values gives one in memory: it reads the
  request and lays its output out in new cells.
\<close>

section \<open>Times\<close>

definition ex_sdk_time :: "ex_ext sdk_time" where
  "ex_sdk_time = \<lparr>time_rd = ptr_rd un_time plain_rd, time_rc = ptr_rc un_time plain_rc,
     new_time = (\<lambda>a h. and_then (deref (Option.bind (cells h a) un_time)) (\<lambda>t.
       Ret (alloc (ExtCell (plain_struct (TimePlain t))) h)))\<rparr>"

interpretation ex_time: deep_copy "ptr_rd un_time plain_rd" "ptr_rc un_time plain_rc"
  "ptr_cp un_time (\<lambda>t. ExtCell (plain_struct (TimePlain t))) plain_cp"
  by (intro deep_copy_plain deep_copy_ptr) (simp add: un_time_def plain_struct_def)

lemma ex_sdk_time_ok: "sdk_time_ok ex_copiers ex_sdk_time"
  unfolding sdk_time_ok_def
proof (intro conjI allI impI)
  fix h h' :: "ex_ext heap" and p v a
  show "time_rd ex_sdk_time h None = Some None" "time_rc ex_sdk_time h None = {}"
    by (simp_all add: ex_sdk_time_def ptr_rd_def ptr_rc_def)
  assume rd: "time_rd ex_sdk_time h p = Some v" and same: "\<forall>a \<in> time_rc ex_sdk_time h p. cells h' a = cells h a"
  show "time_rd ex_sdk_time h' p = Some v" "time_rc ex_sdk_time h' p = time_rc ex_sdk_time h p"
    using ex_time.rd_local [of h p v h'] rd same by (simp_all add: ex_sdk_time_def)
next
  fix h :: "ex_ext heap" and a v
  assume ok: "heap_ok h" and v: "time_rd ex_sdk_time h (Some a) = Some v"
  obtain t where t: "Option.bind (cells h a) un_time = Some t" "v = Some t"
    using v by (auto simp: ex_sdk_time_def ptr_rd_def plain_rd_def bind_eq_Some_conv)
  let ?c = "ExtCell (plain_struct (TimePlain t))"
  have new: "new_time ex_sdk_time a h = Ret (next_addr h, snd (alloc ?c h))"
    using t(1) by (simp add: ex_sdk_time_def alloc_def)
  have "c_rd (ext_time ex_copiers) (snd (alloc ?c h)) (Some (next_addr h)) = Some v"
    "c_rc (ext_time ex_copiers) (snd (alloc ?c h)) (Some (next_addr h)) = {next_addr h}"
    using t(2) by (simp_all add: ex_copiers_def ex_time_c_def ptr_rd_def ptr_rc_def plain_rd_def plain_rc_def un_time_def plain_struct_def)
  with new alloc_law [OF ok, of ?c] t(2)
  show "\<exists>b h'. v \<noteq> None \<and> new_time ex_sdk_time a h = Ret (b, h') \<and> extends h h' \<and> heap_ok h' \<and>
      c_rd (ext_time ex_copiers) h' (Some b) = Some v \<and> c_rc (ext_time ex_copiers) h' (Some b) \<subseteq> {next_addr h..}"
    by (intro exI [of _ "next_addr h"] exI [of _ "snd (alloc ?c h)"]) (simp del: heap_simps(4,5))
qed

section \<open>An output in memory\<close>

definition put_string :: "string option \<Rightarrow> ex_ext heap \<Rightarrow> addr option \<times> ex_ext heap" where
  "put_string s h = (case s of None \<Rightarrow> (None, h) | Some s \<Rightarrow> let (a, h) = alloc (StringCell s) h in (Some a, h))"

definition put_time :: "gotime option \<Rightarrow> ex_ext heap \<Rightarrow> addr option \<times> ex_ext heap" where
  "put_time t h = (case t of None \<Rightarrow> (None, h)
     | Some t \<Rightarrow> let (a, h) = alloc (ExtCell (plain_struct (TimePlain t))) h in (Some a, h))"

fun put_tags :: "sdk_tag list \<Rightarrow> ex_ext heap \<Rightarrow> sdk_tag_mem list \<times> ex_ext heap" where
  "put_tags [] h = ([], h)"
| "put_tags (t # ts) h =
     (let (k, h) = put_string (sdk_Key t) h; (v, h) = put_string (sdk_Value t) h; (ms, h) = put_tags ts h
      in (\<lparr>ms_Key = k, ms_Value = v\<rparr> # ms, h))"

definition put_network :: "sdk_global_network \<Rightarrow> ex_ext heap \<Rightarrow> sdk_network_mem \<times> ex_ext heap" where
  "put_network n h =
     (let (t, h) = put_time (sdk_CreatedAt n) h; (d, h) = put_string (sdk_Description n) h;
          (arn, h) = put_string (sdk_GlobalNetworkArn n) h; (i, h) = put_string (sdk_GlobalNetworkId n) h;
          (ts, h) = put_tags (elems (sdk_Tags n)) h
      in (\<lparr>ms_CreatedAt = t, ms_Description = d, ms_GlobalNetworkArn = arn, ms_GlobalNetworkId = i,
            ms_State = sdk_State n, ms_Tags = map_option (\<lambda>_. ts) (sdk_Tags n)\<rparr>, h))"

fun put_networks :: "sdk_global_network list \<Rightarrow> ex_ext heap \<Rightarrow> sdk_network_mem list \<times> ex_ext heap" where
  "put_networks [] h = ([], h)"
| "put_networks (n # ns) h = (let (m, h) = put_network n h; (ms, h) = put_networks ns h in (m # ms, h))"

text \<open>Every one of them makes new cells only, which read as its value, also after more cells were made.\<close>

definition puts :: "(ex_ext heap \<Rightarrow> 'p \<Rightarrow> 'v \<Rightarrow> bool) \<Rightarrow> (ex_ext heap \<Rightarrow> 'p \<Rightarrow> addr set) \<Rightarrow> 'v \<Rightarrow> ex_ext heap \<Rightarrow>
    'p \<times> ex_ext heap \<Rightarrow> bool" where
  "puts shows rc v h r \<longleftrightarrow> heap_ok (snd r) \<and> extends h (snd r) \<and>
     (\<forall>h2. heap_ok h2 \<longrightarrow> extends (snd r) h2 \<longrightarrow>
        shows h2 (fst r) v \<and> rc h2 (fst r) \<subseteq> {next_addr h..<next_addr (snd r)})"

abbreviation "reads_as rd \<equiv> \<lambda>h p v. rd h p = Some v"

lemma puts_then:
  assumes "puts s r v h (p, h1)" and "puts s' r' v' h1 (q, h2)"
  shows "puts (\<lambda>h x y. s h (fst x) (fst y) \<and> s' h (snd x) (snd y)) (\<lambda>h x. r h (fst x) \<union> r' h (snd x)) (v, v') h ((p, q), h2)"
proof -
  have e: "heap_ok h2" "extends h h1" "extends h1 h2" using assms by (simp_all add: puts_def)
  have le: "next_addr h \<le> next_addr h1" "next_addr h1 \<le> next_addr h2" using e by (simp_all add: extends_def)
  have "s k p v \<and> s' k q v' \<and> r k p \<union> r' k q \<subseteq> {next_addr h..<next_addr h2}" if k: "heap_ok k" "extends h2 k" for k
  proof -
    have "s k p v" "r k p \<subseteq> {next_addr h..<next_addr h1}" "s' k q v'" "r' k q \<subseteq> {next_addr h1..<next_addr h2}"
      using assms k extends_trans [OF e(3) k(2)] by (simp_all add: puts_def)
    with le show ?thesis by fastforce
  qed
  with e extends_trans show ?thesis by (auto simp: puts_def)
qed

lemma puts_pointer:
  assumes ok: "heap_ok h" and d: "deep_copy rd rc cp" and nil: "\<And>h. rd h None = Some None" "\<And>h. rc h None = {}"
    and new: "\<And>x. rd (snd (alloc (mk x) h)) (Some (next_addr h)) = Some (Some x)"
      "\<And>x. rc (snd (alloc (mk x) h)) (Some (next_addr h)) = {next_addr h}"
  shows "puts (reads_as rd) rc v h (case v of None \<Rightarrow> (None, h) | Some x \<Rightarrow> let (a, h) = alloc (mk x) h in (Some a, h))"
proof (cases v)
  case None
  then show ?thesis using ok nil by (simp add: puts_def)
next
  case (Some x)
  note a = alloc_law [OF ok, of "mk x"]
  have "rd k (Some (next_addr h)) = Some v \<and> rc k (Some (next_addr h)) = {next_addr h}"
    if "extends (snd (alloc (mk x) h)) k" for k
    using deep_copy.rd_extends [OF d a(2) new(1) that] new(2) Some by simp
  moreover have "(case v of None \<Rightarrow> (None, h) | Some x \<Rightarrow> let (a, h) = alloc (mk x) h in (Some a, h)) =
      (Some (next_addr h), snd (alloc (mk x) h))"
    using Some by (simp add: alloc_def)
  ultimately show ?thesis using a by (simp add: puts_def)
qed

lemma puts_string: "heap_ok h \<Longrightarrow> puts (reads_as string_rd) string_rc s h (put_string s h)"
  unfolding put_string_def
  by (rule puts_pointer [OF _ string_copy.deep_copy_axioms]) (simp_all only: no_string new_string)

lemma puts_time: "heap_ok h \<Longrightarrow> puts (reads_as (time_rd ex_sdk_time)) (time_rc ex_sdk_time) t h (put_time t h)"
  unfolding put_time_def ex_sdk_time_def sdk_time.simps
  by (rule puts_pointer [OF _ ex_time.deep_copy_axioms])
    (simp_all add: ptr_rd_def ptr_rc_def plain_rd_def plain_rc_def un_time_def plain_struct_def)

lemma puts_ok: "puts s r v h (p, h1) \<Longrightarrow> heap_ok h1"
  by (simp add: puts_def)

lemma puts_tags:
  "heap_ok h \<Longrightarrow> puts (\<lambda>h ms ts. list_all2 (\<lambda>m u. sdk_tag_rd h m = Some u) ms ts) (\<lambda>h ms. \<Union>m \<in> set ms. sdk_tag_rc h m) ts h (put_tags ts h)"
proof (induction ts arbitrary: h)
  case Nil
  then show ?case by (simp add: puts_def)
next
  case (Cons t ts)
  obtain k h1 where k: "put_string (sdk_Key t) h = (k, h1)" by fastforce
  obtain v h2 where v: "put_string (sdk_Value t) h1 = (v, h2)" by fastforce
  obtain ms h3 where ms: "put_tags ts h2 = (ms, h3)" by fastforce
  note p = puts_string [OF Cons.prems, of "sdk_Key t", unfolded k]
  note q = puts_string [OF puts_ok [OF p], of "sdk_Value t", unfolded v]
  note all = puts_then [OF p puts_then [OF q Cons.IH [OF puts_ok [OF q], unfolded ms]]]
  then show ?case
    by (simp add: k v ms puts_def sdk_tag_rd_def sdk_tag_rc_def pair_rd_def Un_assoc)
qed

lemma puts_network:
  assumes "heap_ok h"
  shows "puts (network_shows ex_sdk_time) (message_rc ex_sdk_time) n h (put_network n h)"
proof -
  obtain t h1 where t: "put_time (sdk_CreatedAt n) h = (t, h1)" by fastforce
  obtain d h2 where d: "put_string (sdk_Description n) h1 = (d, h2)" by fastforce
  obtain a h3 where a: "put_string (sdk_GlobalNetworkArn n) h2 = (a, h3)" by fastforce
  obtain i h4 where i: "put_string (sdk_GlobalNetworkId n) h3 = (i, h4)" by fastforce
  obtain ts h5 where ts: "put_tags (elems (sdk_Tags n)) h4 = (ts, h5)" by fastforce
  note pt = puts_time [OF assms, of "sdk_CreatedAt n", unfolded t]
  note pd = puts_string [OF puts_ok [OF pt], of "sdk_Description n", unfolded d]
  note pa = puts_string [OF puts_ok [OF pd], of "sdk_GlobalNetworkArn n", unfolded a]
  note pi = puts_string [OF puts_ok [OF pa], of "sdk_GlobalNetworkId n", unfolded i]
  note all = puts_then [OF pt puts_then [OF pd puts_then [OF pa puts_then [OF pi
      puts_tags [OF puts_ok [OF pi], of "elems (sdk_Tags n)", unfolded ts]]]]]
  have run: "put_network n h = (\<lparr>ms_CreatedAt = t, ms_Description = d, ms_GlobalNetworkArn = a, ms_GlobalNetworkId = i,
      ms_State = sdk_State n, ms_Tags = map_option (\<lambda>_. ts) (sdk_Tags n)\<rparr>, h5)"
    by (simp add: put_network_def t d a i ts)
  show ?thesis
    unfolding run using all
    by (cases "sdk_Tags n")
      (simp_all add: puts_def network_shows_def message_rc_def sdk_tags_rd_def sdk_tags_rc_def list_rd_Some Un_assoc)
qed

lemma puts_networks:
  "heap_ok h \<Longrightarrow> puts (\<lambda>h ms ns. list_all2 (network_shows ex_sdk_time h) ms ns) (\<lambda>h ms. \<Union>m \<in> set ms. message_rc ex_sdk_time h m)
     ns h (put_networks ns h)"
proof (induction ns arbitrary: h)
  case Nil
  then show ?case by (simp add: puts_def)
next
  case (Cons n ns)
  obtain m h1 where m: "put_network n h = (m, h1)" by fastforce
  obtain ms h2 where ms: "put_networks ns h1 = (ms, h2)" by fastforce
  note p = puts_network [OF Cons.prems, of n, unfolded m]
  note all = puts_then [OF p Cons.IH [OF puts_ok [OF p], unfolded ms]]
  then show ?case by (simp add: m ms puts_def)
qed

section \<open>The client\<close>

definition answer_mem ::
  "('o \<Rightarrow> sdk_global_network option) \<Rightarrow> ('o option \<times> 'e option) \<times> 'w \<Rightarrow> ex_ext heap \<Rightarrow>
   (sdk_network_mem option option \<times> 'e option) \<times> 'w \<times> ex_ext heap" where
  "answer_mem net r h =
     (case r of ((resp, err), s) \<Rightarrow>
       (case resp of
          None \<Rightarrow> ((None, err), s, h)
        | Some out \<Rightarrow>
            (case net out of
               None \<Rightarrow> ((Some None, err), s, h)
             | Some n \<Rightarrow> let (m, h) = put_network n h in ((Some (Some m), err), s, h))))"

definition memory_client :: "('w, 'e) svcsdk_Client \<Rightarrow> ('w, 'e, ex_ext) client_mem" where
  "memory_client cl = \<lparr>
     Describe_mem = (\<lambda>i s h. case DescribeGlobalNetworks cl i s of ((resp, err), s) \<Rightarrow>
       (case resp of None \<Rightarrow> ((None, err), s, h)
        | Some out \<Rightarrow> let (ms, h) = put_networks (elems (GlobalNetworks out)) h in ((Some (Some ms), err), s, h))),
     CreateCall_mem = (\<lambda>p s h. answer_mem created_GlobalNetwork (CreateGlobalNetwork cl
       \<lparr>create_Description = the (string_rd h (in_Description p)), create_Tags = the (sdk_tags_rd h (in_Tags p))\<rparr> s) h),
     UpdateCall_mem = (\<lambda>p s h. answer_mem updated_GlobalNetwork (UpdateGlobalNetwork cl
       \<lparr>update_GlobalNetworkId = the (string_rd h (in_GlobalNetworkId p)),
        update_Description = the (string_rd h (in_NewDescription p))\<rparr> s) h),
     DeleteCall_mem = (\<lambda>p s h. case DeleteGlobalNetwork cl \<lparr>delete_GlobalNetworkId = the (string_rd h p)\<rparr> s of
       (err, s) \<Rightarrow> (err, s, h))\<rparr>"

lemma inputs [simp]:
  "\<lparr>create_Description = create_Description ci, create_Tags = create_Tags ci\<rparr> = ci"
  "\<lparr>update_GlobalNetworkId = update_GlobalNetworkId ui, update_Description = update_Description ui\<rparr> = ui"
  "\<lparr>delete_GlobalNetworkId = delete_GlobalNetworkId di\<rparr> = di"
  by (cases ci; cases ui; cases di; simp)+

lemma puts_fresh: "puts (network_shows T) (message_rc T) n h (m, h1) \<Longrightarrow> fresh_message T h h1 n m"
  by (simp add: puts_def fresh_message_def)

lemma answer_mem_answers:
  assumes "heap_ok h"
  shows "answers (\<lambda>h' out. rel_option (fresh_message ex_sdk_time h h') (net out)) h r (answer_mem net r h)"
proof -
  obtain resp err s where r: "r = ((resp, err), s)" by (metis surj_pair)
  show ?thesis
  proof (cases "Option.bind resp net")
    case None
    then show ?thesis using assms by (cases resp) (auto simp: r answers_def answer_mem_def)
  next
    case (Some n)
    obtain m h1 where m: "put_network n h = (m, h1)" by fastforce
    note p = puts_network [OF assms, of n, unfolded m]
    from puts_fresh [OF p] p Some show ?thesis
      by (cases resp) (auto simp: r answers_def answer_mem_def m puts_def)
  qed
qed

lemma memory_client_ok: "client_in_memory ex_sdk_time cl (memory_client cl)"
  unfolding client_in_memory_def
proof (intro allI impI conjI)
  fix h :: "ex_ext heap" and s
  assume ok: "heap_ok h"
  show "answers (\<lambda>h' out ms. list_all2 (fresh_message ex_sdk_time h h') (elems (GlobalNetworks out)) (elems ms)) h
      (DescribeGlobalNetworks cl i s) (Describe_mem (memory_client cl) i s h)" for i
  proof -
    obtain resp err s' where r: "DescribeGlobalNetworks cl i s = ((resp, err), s')" by (metis surj_pair)
    show ?thesis
    proof (cases resp)
      case None
      then show ?thesis using ok by (simp add: answers_def memory_client_def r)
    next
      case (Some out)
      obtain ms h1 where ms: "put_networks (elems (GlobalNetworks out)) h = (ms, h1)" by fastforce
      note p = puts_networks [OF ok, of "elems (GlobalNetworks out)", unfolded ms]
      then have "list_all2 (network_shows ex_sdk_time h1) ms (elems (GlobalNetworks out))"
        "(\<Union>m \<in> set ms. message_rc ex_sdk_time h1 m) \<subseteq> {next_addr h..<next_addr h1}"
        using extends_refl [of h1] by (simp_all add: puts_def)
      then have "list_all2 (fresh_message ex_sdk_time h h1) (elems (GlobalNetworks out)) ms"
        by (simp add: fresh_message_def list_all2_conv_all_nth UN_subset_iff)
      with p Some show ?thesis by (simp add: answers_def memory_client_def r ms puts_def)
    qed
  qed
qed (auto simp: memory_client_def answer_mem_answers split: prod.splits)

section \<open>The methods at work\<close>

text \<open>
  The network of \<open>ex_manager_heap\<close> without its nil tag. The service holds \<open>n1\<close>, whose tags are
  \<open>env\<close>, \<open>aws:stack\<close> and \<open>tmp\<close>: a read mirrors the second into the object, in place.
\<close>

definition ex_ops_heap :: "ex_ext heap" where
  "ex_ops_heap = \<lparr>cells = (cells ex_manager_heap)
     (0 \<mapsto> NetworkCell (ex_network_mem\<lparr>m_Spec := \<lparr>m_Description = Some 1, m_Tags = Some 16\<rparr>\<rparr>),
      16 \<mapsto> ArrayCell [Some 3]), next_addr = 17\<rparr>"

lemma ex_ops_lies: "lies_at ex_copiers ex_ops_heap 0 ex_sharing"
  by (simp add: lies_at_def ex_ops_heap_def ex_manager_heap_def ex_sharing_def set_tags_def ex_memory_defs reading_defs cells_defs)

lemma ex_ops_setting:
  "setting ex_copiers ex_ack ex_manager ex_sdk_time (memory_client (sdkapi ex_rm)) ex_rm ex_ops_heap"
proof -
  have "heap_ok ex_ops_heap" "manager_lies ex_ops_heap ex_manager ex_rm"
    by (simp_all add: ex_ops_heap_def heap_ok_def manager_lies_def ex_manager_heap_def ex_manager_def ex_heap_def ex_rm_def)
  then show ?thesis by (simp add: setting_def ex_copiers_ok ex_ack_ok ex_sdk_time_ok memory_client_ok)
qed

definition ex_mirrored :: GlobalNetwork where
  "ex_mirrored = set_tags (Some (tag_list [(''env'', ''env''), (''aws:stack'', ''s1'')])) ex_value"

lemma returned_resource:
  assumes "case x of (Ret (r, ResourcePtr (Some r'), err), w') \<Rightarrow> P r r' err | _ \<Rightarrow> False"
  obtains r r' err w' where "x = (Ret (r, ResourcePtr (Some r'), err), w')" and "P r r' err"
proof -
  obtain v w' where x: "x = (v, w')" by (cases x)
  then obtain r out err where v: "v = Ret (r, out, err)" using assms by (cases v) auto
  then obtain p where p: "out = ResourcePtr p" using assms x by (cases out) auto
  then obtain r' where "p = Some r'" using assms x v by (cases p) auto
  with that assms x v p show ?thesis by simp
qed

lemma ex_ops_read:
  obtains r g' w' where "ReadOne example_rt ex_sched ex_rm (ex_ptr ex_sharing) ex_env = (Ret (r, ex_ptr g', None), w')"
    and "ko r = Some ex_mirrored" and "Description (Spec g') = Some ''old''"
proof -
  have "case ReadOne example_rt ex_sched ex_rm (ex_ptr ex_sharing) ex_env of
      (Ret (r, ResourcePtr (Some r'), err), w') \<Rightarrow> ko r = Some ex_mirrored \<and> err = None \<and>
        map_option (\<lambda>g. Description (Spec g)) (ko r') = Some (Some ''old'')
    | _ \<Rightarrow> False"
    by code_simp
  then obtain r r' err w' where "ReadOne example_rt ex_sched ex_rm (ex_ptr ex_sharing) ex_env = (Ret (r, ResourcePtr (Some r'), err), w')"
    "ko r = Some ex_mirrored \<and> err = None \<and> map_option (\<lambda>g. Description (Spec g)) (ko r') = Some (Some ''old'')"
    by (rule returned_resource)
  then show ?thesis by (cases r') (auto intro: that)
qed

lemma ex_ops_delete:
  "Delete example_rt ex_rm (ex_ptr ex_sharing) ex_env =
     (Ret (NilInterface, None), \<lparr>svc = ex_world\<lparr>w_nets := [], w_gone := [''n1'']\<rparr>, api_calls = [(''DELETE'', ''DeleteGlobalNetwork'', None)]\<rparr>)"
  by code_simp

theorem operations_in_memory_witness:
  "(\<exists>q h' w' g'. ReadOne_mem ex_copiers ex_ack ex_manager ex_sdk_time (memory_client example_client) example_rt ex_sched
        (Some (Some 0)) ex_env ex_ops_heap = (Ret (Some (Some q), None, h'), w') \<and>
      read_network ex_copiers h' (Some 0) = Some (Some ex_mirrored) \<and>
      read_network ex_copiers h' (Some q) = Some (Some g') \<and> Description (Spec g') = Some ''old'') \<and>
   (\<exists>h' w'. Delete_mem ex_copiers ex_ack ex_manager (memory_client example_client) example_rt (Some (Some 0)) ex_env ex_ops_heap =
        (Ret (None, None, h'), w') \<and> w_nets (svc w') = [] \<and>
      read_network ex_copiers h' (Some 0) = Some (Some ex_sharing))"
proof -
  have cl: "sdkapi ex_rm = example_client" by (simp add: ex_rm_def)
  note use = operations_in_memory [OF ex_ops_setting ex_ops_lies ex_ops_lies, of example_rt ex_sched ex_env ex_delta, unfolded cl]
  obtain r g' w' where run: "ReadOne example_rt ex_sched ex_rm (ex_ptr ex_sharing) ex_env = (Ret (r, ex_ptr g', None), w')"
    "ko r = Some ex_mirrored" "Description (Spec g') = Some ''old''"
    by (rule ex_ops_read)
  obtain q h' where "ReadOne_mem ex_copiers ex_ack ex_manager ex_sdk_time (memory_client example_client) example_rt ex_sched
      (Some (Some 0)) ex_env ex_ops_heap = (Ret (Some (Some q), None, h'), w')"
    "read_network ex_copiers h' (Some 0) = Some (Some ex_mirrored)" "read_network ex_copiers h' (Some q) = Some (Some g')"
    using use [THEN conjunct1] run(2) unfolding run(1)
    by (auto elim!: agrees_RetE simp: result_lies_def resource_lies_def option_rel_Some1 split: option.splits)
  moreover obtain h2 where d: "Delete_mem ex_copiers ex_ack ex_manager (memory_client example_client) example_rt (Some (Some 0)) ex_env
      ex_ops_heap = (Ret (None, None, h2), \<lparr>svc = ex_world\<lparr>w_nets := [], w_gone := [''n1'']\<rparr>,
        api_calls = [(''DELETE'', ''DeleteGlobalNetwork'', None)]\<rparr>)" "extends ex_ops_heap h2"
    using use [THEN conjunct2, THEN conjunct2, THEN conjunct2] unfolding ex_ops_delete
    by (auto elim!: agrees_RetE simp: result_lies_def)
  moreover have "read_network ex_copiers h2 (Some 0) = Some (Some ex_sharing)"
    using object_extends [OF ex_copiers_ok _ lies_at_read [OF ex_ops_lies] d(2)] ex_ops_setting by (simp add: setting_def)
  ultimately show ?thesis using run(3) by (intro conjI) (blast, fastforce)
qed

end
