(* ===== verification/ApiEnums.thy ===== *)
theory ApiEnums
  imports ApiTypes
begin

text \<open>
  The enumerations of the package (\<open>apis/v1alpha1/enums.go\<close>): for each string type a datatype of
  its constants, and the text of each constant. \<open>GlobalNetworkState\<close>, the one the controller
  reads, is in \<open>ApiTypes\<close>.
\<close>

section \<open>\<open>AttachmentErrorCode\<close>\<close>

datatype AttachmentErrorCode =
    AttachmentErrorCode_DIRECT_CONNECT_GATEWAY_EXISTING_ATTACHMENTS
  | AttachmentErrorCode_DIRECT_CONNECT_GATEWAY_NOT_FOUND
  | AttachmentErrorCode_DIRECT_CONNECT_GATEWAY_NO_PRIVATE_VIF
  | AttachmentErrorCode_MAXIMUM_NO_ENCAP_LIMIT_EXCEEDED
  | AttachmentErrorCode_SUBNET_DUPLICATED_IN_AVAILABILITY_ZONE
  | AttachmentErrorCode_SUBNET_NOT_FOUND
  | AttachmentErrorCode_SUBNET_NO_FREE_ADDRESSES
  | AttachmentErrorCode_SUBNET_NO_IPV6_CIDRS
  | AttachmentErrorCode_SUBNET_UNSUPPORTED_AVAILABILITY_ZONE
  | AttachmentErrorCode_VPC_NOT_FOUND
  | AttachmentErrorCode_VPC_UNSUPPORTED_FEATURES
  | AttachmentErrorCode_VPN_CONNECTION_NOT_FOUND
  | AttachmentErrorCode_VPN_EXISTING_ASSOCIATIONS

fun AttachmentErrorCode_text :: "AttachmentErrorCode \<Rightarrow> string" where
  "AttachmentErrorCode_text AttachmentErrorCode_DIRECT_CONNECT_GATEWAY_EXISTING_ATTACHMENTS = ''DIRECT_CONNECT_GATEWAY_EXISTING_ATTACHMENTS''"
| "AttachmentErrorCode_text AttachmentErrorCode_DIRECT_CONNECT_GATEWAY_NOT_FOUND = ''DIRECT_CONNECT_GATEWAY_NOT_FOUND''"
| "AttachmentErrorCode_text AttachmentErrorCode_DIRECT_CONNECT_GATEWAY_NO_PRIVATE_VIF = ''DIRECT_CONNECT_GATEWAY_NO_PRIVATE_VIF''"
| "AttachmentErrorCode_text AttachmentErrorCode_MAXIMUM_NO_ENCAP_LIMIT_EXCEEDED = ''MAXIMUM_NO_ENCAP_LIMIT_EXCEEDED''"
| "AttachmentErrorCode_text AttachmentErrorCode_SUBNET_DUPLICATED_IN_AVAILABILITY_ZONE = ''SUBNET_DUPLICATED_IN_AVAILABILITY_ZONE''"
| "AttachmentErrorCode_text AttachmentErrorCode_SUBNET_NOT_FOUND = ''SUBNET_NOT_FOUND''"
| "AttachmentErrorCode_text AttachmentErrorCode_SUBNET_NO_FREE_ADDRESSES = ''SUBNET_NO_FREE_ADDRESSES''"
| "AttachmentErrorCode_text AttachmentErrorCode_SUBNET_NO_IPV6_CIDRS = ''SUBNET_NO_IPV6_CIDRS''"
| "AttachmentErrorCode_text AttachmentErrorCode_SUBNET_UNSUPPORTED_AVAILABILITY_ZONE = ''SUBNET_UNSUPPORTED_AVAILABILITY_ZONE''"
| "AttachmentErrorCode_text AttachmentErrorCode_VPC_NOT_FOUND = ''VPC_NOT_FOUND''"
| "AttachmentErrorCode_text AttachmentErrorCode_VPC_UNSUPPORTED_FEATURES = ''VPC_UNSUPPORTED_FEATURES''"
| "AttachmentErrorCode_text AttachmentErrorCode_VPN_CONNECTION_NOT_FOUND = ''VPN_CONNECTION_NOT_FOUND''"
| "AttachmentErrorCode_text AttachmentErrorCode_VPN_EXISTING_ASSOCIATIONS = ''VPN_EXISTING_ASSOCIATIONS''"

lemma AttachmentErrorCode_text_inject [simp]: "AttachmentErrorCode_text a = AttachmentErrorCode_text b \<longleftrightarrow> a = b"
  by (cases a; cases b) simp_all

section \<open>\<open>AttachmentState\<close>\<close>

datatype AttachmentState =
    AttachmentState_AVAILABLE
  | AttachmentState_CREATING
  | AttachmentState_DELETING
  | AttachmentState_FAILED
  | AttachmentState_PENDING_ATTACHMENT_ACCEPTANCE
  | AttachmentState_PENDING_NETWORK_UPDATE
  | AttachmentState_PENDING_TAG_ACCEPTANCE
  | AttachmentState_REJECTED
  | AttachmentState_UPDATING

fun AttachmentState_text :: "AttachmentState \<Rightarrow> string" where
  "AttachmentState_text AttachmentState_AVAILABLE = ''AVAILABLE''"
| "AttachmentState_text AttachmentState_CREATING = ''CREATING''"
| "AttachmentState_text AttachmentState_DELETING = ''DELETING''"
| "AttachmentState_text AttachmentState_FAILED = ''FAILED''"
| "AttachmentState_text AttachmentState_PENDING_ATTACHMENT_ACCEPTANCE = ''PENDING_ATTACHMENT_ACCEPTANCE''"
| "AttachmentState_text AttachmentState_PENDING_NETWORK_UPDATE = ''PENDING_NETWORK_UPDATE''"
| "AttachmentState_text AttachmentState_PENDING_TAG_ACCEPTANCE = ''PENDING_TAG_ACCEPTANCE''"
| "AttachmentState_text AttachmentState_REJECTED = ''REJECTED''"
| "AttachmentState_text AttachmentState_UPDATING = ''UPDATING''"

lemma AttachmentState_text_inject [simp]: "AttachmentState_text a = AttachmentState_text b \<longleftrightarrow> a = b"
  by (cases a; cases b) simp_all

section \<open>\<open>AttachmentType\<close>\<close>

datatype AttachmentType =
    AttachmentType_CONNECT
  | AttachmentType_DIRECT_CONNECT_GATEWAY
  | AttachmentType_SITE_TO_SITE_VPN
  | AttachmentType_TRANSIT_GATEWAY_ROUTE_TABLE
  | AttachmentType_VPC

fun AttachmentType_text :: "AttachmentType \<Rightarrow> string" where
  "AttachmentType_text AttachmentType_CONNECT = ''CONNECT''"
| "AttachmentType_text AttachmentType_DIRECT_CONNECT_GATEWAY = ''DIRECT_CONNECT_GATEWAY''"
| "AttachmentType_text AttachmentType_SITE_TO_SITE_VPN = ''SITE_TO_SITE_VPN''"
| "AttachmentType_text AttachmentType_TRANSIT_GATEWAY_ROUTE_TABLE = ''TRANSIT_GATEWAY_ROUTE_TABLE''"
| "AttachmentType_text AttachmentType_VPC = ''VPC''"

lemma AttachmentType_text_inject [simp]: "AttachmentType_text a = AttachmentType_text b \<longleftrightarrow> a = b"
  by (cases a; cases b) simp_all

section \<open>\<open>ChangeAction\<close>\<close>

datatype ChangeAction =
    ChangeAction_ADD
  | ChangeAction_MODIFY
  | ChangeAction_REMOVE

fun ChangeAction_text :: "ChangeAction \<Rightarrow> string" where
  "ChangeAction_text ChangeAction_ADD = ''ADD''"
| "ChangeAction_text ChangeAction_MODIFY = ''MODIFY''"
| "ChangeAction_text ChangeAction_REMOVE = ''REMOVE''"

lemma ChangeAction_text_inject [simp]: "ChangeAction_text a = ChangeAction_text b \<longleftrightarrow> a = b"
  by (cases a; cases b) simp_all

section \<open>\<open>ChangeSetState\<close>\<close>

datatype ChangeSetState =
    ChangeSetState_EXECUTING
  | ChangeSetState_EXECUTION_SUCCEEDED
  | ChangeSetState_FAILED_GENERATION
  | ChangeSetState_OUT_OF_DATE
  | ChangeSetState_PENDING_GENERATION
  | ChangeSetState_READY_TO_EXECUTE

fun ChangeSetState_text :: "ChangeSetState \<Rightarrow> string" where
  "ChangeSetState_text ChangeSetState_EXECUTING = ''EXECUTING''"
| "ChangeSetState_text ChangeSetState_EXECUTION_SUCCEEDED = ''EXECUTION_SUCCEEDED''"
| "ChangeSetState_text ChangeSetState_FAILED_GENERATION = ''FAILED_GENERATION''"
| "ChangeSetState_text ChangeSetState_OUT_OF_DATE = ''OUT_OF_DATE''"
| "ChangeSetState_text ChangeSetState_PENDING_GENERATION = ''PENDING_GENERATION''"
| "ChangeSetState_text ChangeSetState_READY_TO_EXECUTE = ''READY_TO_EXECUTE''"

lemma ChangeSetState_text_inject [simp]: "ChangeSetState_text a = ChangeSetState_text b \<longleftrightarrow> a = b"
  by (cases a; cases b) simp_all

section \<open>\<open>ChangeStatus\<close>\<close>

datatype ChangeStatus =
    ChangeStatus_COMPLETE
  | ChangeStatus_FAILED
  | ChangeStatus_IN_PROGRESS
  | ChangeStatus_NOT_STARTED

fun ChangeStatus_text :: "ChangeStatus \<Rightarrow> string" where
  "ChangeStatus_text ChangeStatus_COMPLETE = ''COMPLETE''"
| "ChangeStatus_text ChangeStatus_FAILED = ''FAILED''"
| "ChangeStatus_text ChangeStatus_IN_PROGRESS = ''IN_PROGRESS''"
| "ChangeStatus_text ChangeStatus_NOT_STARTED = ''NOT_STARTED''"

lemma ChangeStatus_text_inject [simp]: "ChangeStatus_text a = ChangeStatus_text b \<longleftrightarrow> a = b"
  by (cases a; cases b) simp_all

section \<open>\<open>ChangeType\<close>\<close>

datatype ChangeType =
    ChangeType_ATTACHMENT_MAPPING
  | ChangeType_ATTACHMENT_POLICIES_CONFIGURATION
  | ChangeType_ATTACHMENT_ROUTE_PROPAGATION
  | ChangeType_ATTACHMENT_ROUTE_STATIC
  | ChangeType_CORE_NETWORK_CONFIGURATION
  | ChangeType_CORE_NETWORK_EDGE
  | ChangeType_CORE_NETWORK_SEGMENT
  | ChangeType_NETWORK_FUNCTION_GROUP
  | ChangeType_ROUTING_POLICY
  | ChangeType_ROUTING_POLICY_ATTACHMENT_ASSOCIATION
  | ChangeType_ROUTING_POLICY_EDGE_ASSOCIATION
  | ChangeType_ROUTING_POLICY_SEGMENT_ASSOCIATION
  | ChangeType_SEGMENTS_CONFIGURATION
  | ChangeType_SEGMENT_ACTIONS_CONFIGURATION

fun ChangeType_text :: "ChangeType \<Rightarrow> string" where
  "ChangeType_text ChangeType_ATTACHMENT_MAPPING = ''ATTACHMENT_MAPPING''"
| "ChangeType_text ChangeType_ATTACHMENT_POLICIES_CONFIGURATION = ''ATTACHMENT_POLICIES_CONFIGURATION''"
| "ChangeType_text ChangeType_ATTACHMENT_ROUTE_PROPAGATION = ''ATTACHMENT_ROUTE_PROPAGATION''"
| "ChangeType_text ChangeType_ATTACHMENT_ROUTE_STATIC = ''ATTACHMENT_ROUTE_STATIC''"
| "ChangeType_text ChangeType_CORE_NETWORK_CONFIGURATION = ''CORE_NETWORK_CONFIGURATION''"
| "ChangeType_text ChangeType_CORE_NETWORK_EDGE = ''CORE_NETWORK_EDGE''"
| "ChangeType_text ChangeType_CORE_NETWORK_SEGMENT = ''CORE_NETWORK_SEGMENT''"
| "ChangeType_text ChangeType_NETWORK_FUNCTION_GROUP = ''NETWORK_FUNCTION_GROUP''"
| "ChangeType_text ChangeType_ROUTING_POLICY = ''ROUTING_POLICY''"
| "ChangeType_text ChangeType_ROUTING_POLICY_ATTACHMENT_ASSOCIATION = ''ROUTING_POLICY_ATTACHMENT_ASSOCIATION''"
| "ChangeType_text ChangeType_ROUTING_POLICY_EDGE_ASSOCIATION = ''ROUTING_POLICY_EDGE_ASSOCIATION''"
| "ChangeType_text ChangeType_ROUTING_POLICY_SEGMENT_ASSOCIATION = ''ROUTING_POLICY_SEGMENT_ASSOCIATION''"
| "ChangeType_text ChangeType_SEGMENTS_CONFIGURATION = ''SEGMENTS_CONFIGURATION''"
| "ChangeType_text ChangeType_SEGMENT_ACTIONS_CONFIGURATION = ''SEGMENT_ACTIONS_CONFIGURATION''"

lemma ChangeType_text_inject [simp]: "ChangeType_text a = ChangeType_text b \<longleftrightarrow> a = b"
  by (cases a; cases b) simp_all

section \<open>\<open>ConnectPeerAssociationState\<close>\<close>

datatype ConnectPeerAssociationState =
    ConnectPeerAssociationState_AVAILABLE
  | ConnectPeerAssociationState_DELETED
  | ConnectPeerAssociationState_DELETING
  | ConnectPeerAssociationState_PENDING

fun ConnectPeerAssociationState_text :: "ConnectPeerAssociationState \<Rightarrow> string" where
  "ConnectPeerAssociationState_text ConnectPeerAssociationState_AVAILABLE = ''AVAILABLE''"
| "ConnectPeerAssociationState_text ConnectPeerAssociationState_DELETED = ''DELETED''"
| "ConnectPeerAssociationState_text ConnectPeerAssociationState_DELETING = ''DELETING''"
| "ConnectPeerAssociationState_text ConnectPeerAssociationState_PENDING = ''PENDING''"

lemma ConnectPeerAssociationState_text_inject [simp]: "ConnectPeerAssociationState_text a = ConnectPeerAssociationState_text b \<longleftrightarrow> a = b"
  by (cases a; cases b) simp_all

section \<open>\<open>ConnectPeerErrorCode\<close>\<close>

datatype ConnectPeerErrorCode =
    ConnectPeerErrorCode_EDGE_LOCATION_NO_FREE_IPS
  | ConnectPeerErrorCode_EDGE_LOCATION_PEER_DUPLICATE
  | ConnectPeerErrorCode_INVALID_INSIDE_CIDR_BLOCK
  | ConnectPeerErrorCode_IP_OUTSIDE_SUBNET_CIDR_RANGE
  | ConnectPeerErrorCode_NO_ASSOCIATED_CIDR_BLOCK
  | ConnectPeerErrorCode_SUBNET_NOT_FOUND

fun ConnectPeerErrorCode_text :: "ConnectPeerErrorCode \<Rightarrow> string" where
  "ConnectPeerErrorCode_text ConnectPeerErrorCode_EDGE_LOCATION_NO_FREE_IPS = ''EDGE_LOCATION_NO_FREE_IPS''"
| "ConnectPeerErrorCode_text ConnectPeerErrorCode_EDGE_LOCATION_PEER_DUPLICATE = ''EDGE_LOCATION_PEER_DUPLICATE''"
| "ConnectPeerErrorCode_text ConnectPeerErrorCode_INVALID_INSIDE_CIDR_BLOCK = ''INVALID_INSIDE_CIDR_BLOCK''"
| "ConnectPeerErrorCode_text ConnectPeerErrorCode_IP_OUTSIDE_SUBNET_CIDR_RANGE = ''IP_OUTSIDE_SUBNET_CIDR_RANGE''"
| "ConnectPeerErrorCode_text ConnectPeerErrorCode_NO_ASSOCIATED_CIDR_BLOCK = ''NO_ASSOCIATED_CIDR_BLOCK''"
| "ConnectPeerErrorCode_text ConnectPeerErrorCode_SUBNET_NOT_FOUND = ''SUBNET_NOT_FOUND''"

lemma ConnectPeerErrorCode_text_inject [simp]: "ConnectPeerErrorCode_text a = ConnectPeerErrorCode_text b \<longleftrightarrow> a = b"
  by (cases a; cases b) simp_all

section \<open>\<open>ConnectPeerState\<close>\<close>

datatype ConnectPeerState =
    ConnectPeerState_AVAILABLE
  | ConnectPeerState_CREATING
  | ConnectPeerState_DELETING
  | ConnectPeerState_FAILED

fun ConnectPeerState_text :: "ConnectPeerState \<Rightarrow> string" where
  "ConnectPeerState_text ConnectPeerState_AVAILABLE = ''AVAILABLE''"
| "ConnectPeerState_text ConnectPeerState_CREATING = ''CREATING''"
| "ConnectPeerState_text ConnectPeerState_DELETING = ''DELETING''"
| "ConnectPeerState_text ConnectPeerState_FAILED = ''FAILED''"

lemma ConnectPeerState_text_inject [simp]: "ConnectPeerState_text a = ConnectPeerState_text b \<longleftrightarrow> a = b"
  by (cases a; cases b) simp_all

section \<open>\<open>ConnectionState\<close>\<close>

datatype ConnectionState =
    ConnectionState_AVAILABLE
  | ConnectionState_DELETING
  | ConnectionState_PENDING
  | ConnectionState_UPDATING

fun ConnectionState_text :: "ConnectionState \<Rightarrow> string" where
  "ConnectionState_text ConnectionState_AVAILABLE = ''AVAILABLE''"
| "ConnectionState_text ConnectionState_DELETING = ''DELETING''"
| "ConnectionState_text ConnectionState_PENDING = ''PENDING''"
| "ConnectionState_text ConnectionState_UPDATING = ''UPDATING''"

lemma ConnectionState_text_inject [simp]: "ConnectionState_text a = ConnectionState_text b \<longleftrightarrow> a = b"
  by (cases a; cases b) simp_all

section \<open>\<open>ConnectionStatus\<close>\<close>

datatype ConnectionStatus =
    ConnectionStatus_DOWN
  | ConnectionStatus_UP

fun ConnectionStatus_text :: "ConnectionStatus \<Rightarrow> string" where
  "ConnectionStatus_text ConnectionStatus_DOWN = ''DOWN''"
| "ConnectionStatus_text ConnectionStatus_UP = ''UP''"

lemma ConnectionStatus_text_inject [simp]: "ConnectionStatus_text a = ConnectionStatus_text b \<longleftrightarrow> a = b"
  by (cases a; cases b) simp_all

section \<open>\<open>ConnectionType\<close>\<close>

datatype ConnectionType =
    ConnectionType_BGP
  | ConnectionType_IPSEC

fun ConnectionType_text :: "ConnectionType \<Rightarrow> string" where
  "ConnectionType_text ConnectionType_BGP = ''BGP''"
| "ConnectionType_text ConnectionType_IPSEC = ''IPSEC''"

lemma ConnectionType_text_inject [simp]: "ConnectionType_text a = ConnectionType_text b \<longleftrightarrow> a = b"
  by (cases a; cases b) simp_all

section \<open>\<open>CoreNetworkPolicyAlias\<close>\<close>

datatype CoreNetworkPolicyAlias =
    CoreNetworkPolicyAlias_LATEST
  | CoreNetworkPolicyAlias_LIVE

fun CoreNetworkPolicyAlias_text :: "CoreNetworkPolicyAlias \<Rightarrow> string" where
  "CoreNetworkPolicyAlias_text CoreNetworkPolicyAlias_LATEST = ''LATEST''"
| "CoreNetworkPolicyAlias_text CoreNetworkPolicyAlias_LIVE = ''LIVE''"

lemma CoreNetworkPolicyAlias_text_inject [simp]: "CoreNetworkPolicyAlias_text a = CoreNetworkPolicyAlias_text b \<longleftrightarrow> a = b"
  by (cases a; cases b) simp_all

section \<open>\<open>CoreNetworkState\<close>\<close>

datatype CoreNetworkState =
    CoreNetworkState_AVAILABLE
  | CoreNetworkState_CREATING
  | CoreNetworkState_DELETING
  | CoreNetworkState_UPDATING

fun CoreNetworkState_text :: "CoreNetworkState \<Rightarrow> string" where
  "CoreNetworkState_text CoreNetworkState_AVAILABLE = ''AVAILABLE''"
| "CoreNetworkState_text CoreNetworkState_CREATING = ''CREATING''"
| "CoreNetworkState_text CoreNetworkState_DELETING = ''DELETING''"
| "CoreNetworkState_text CoreNetworkState_UPDATING = ''UPDATING''"

lemma CoreNetworkState_text_inject [simp]: "CoreNetworkState_text a = CoreNetworkState_text b \<longleftrightarrow> a = b"
  by (cases a; cases b) simp_all

section \<open>\<open>CustomerGatewayAssociationState\<close>\<close>

datatype CustomerGatewayAssociationState =
    CustomerGatewayAssociationState_AVAILABLE
  | CustomerGatewayAssociationState_DELETED
  | CustomerGatewayAssociationState_DELETING
  | CustomerGatewayAssociationState_PENDING

fun CustomerGatewayAssociationState_text :: "CustomerGatewayAssociationState \<Rightarrow> string" where
  "CustomerGatewayAssociationState_text CustomerGatewayAssociationState_AVAILABLE = ''AVAILABLE''"
| "CustomerGatewayAssociationState_text CustomerGatewayAssociationState_DELETED = ''DELETED''"
| "CustomerGatewayAssociationState_text CustomerGatewayAssociationState_DELETING = ''DELETING''"
| "CustomerGatewayAssociationState_text CustomerGatewayAssociationState_PENDING = ''PENDING''"

lemma CustomerGatewayAssociationState_text_inject [simp]: "CustomerGatewayAssociationState_text a = CustomerGatewayAssociationState_text b \<longleftrightarrow> a = b"
  by (cases a; cases b) simp_all

section \<open>\<open>DeviceState\<close>\<close>

datatype DeviceState =
    DeviceState_AVAILABLE
  | DeviceState_DELETING
  | DeviceState_PENDING
  | DeviceState_UPDATING

fun DeviceState_text :: "DeviceState \<Rightarrow> string" where
  "DeviceState_text DeviceState_AVAILABLE = ''AVAILABLE''"
| "DeviceState_text DeviceState_DELETING = ''DELETING''"
| "DeviceState_text DeviceState_PENDING = ''PENDING''"
| "DeviceState_text DeviceState_UPDATING = ''UPDATING''"

lemma DeviceState_text_inject [simp]: "DeviceState_text a = DeviceState_text b \<longleftrightarrow> a = b"
  by (cases a; cases b) simp_all

section \<open>\<open>LinkAssociationState\<close>\<close>

datatype LinkAssociationState =
    LinkAssociationState_AVAILABLE
  | LinkAssociationState_DELETED
  | LinkAssociationState_DELETING
  | LinkAssociationState_PENDING

fun LinkAssociationState_text :: "LinkAssociationState \<Rightarrow> string" where
  "LinkAssociationState_text LinkAssociationState_AVAILABLE = ''AVAILABLE''"
| "LinkAssociationState_text LinkAssociationState_DELETED = ''DELETED''"
| "LinkAssociationState_text LinkAssociationState_DELETING = ''DELETING''"
| "LinkAssociationState_text LinkAssociationState_PENDING = ''PENDING''"

lemma LinkAssociationState_text_inject [simp]: "LinkAssociationState_text a = LinkAssociationState_text b \<longleftrightarrow> a = b"
  by (cases a; cases b) simp_all

section \<open>\<open>LinkState\<close>\<close>

datatype LinkState =
    LinkState_AVAILABLE
  | LinkState_DELETING
  | LinkState_PENDING
  | LinkState_UPDATING

fun LinkState_text :: "LinkState \<Rightarrow> string" where
  "LinkState_text LinkState_AVAILABLE = ''AVAILABLE''"
| "LinkState_text LinkState_DELETING = ''DELETING''"
| "LinkState_text LinkState_PENDING = ''PENDING''"
| "LinkState_text LinkState_UPDATING = ''UPDATING''"

lemma LinkState_text_inject [simp]: "LinkState_text a = LinkState_text b \<longleftrightarrow> a = b"
  by (cases a; cases b) simp_all

section \<open>\<open>PeeringErrorCode\<close>\<close>

datatype PeeringErrorCode =
    PeeringErrorCode_EDGE_LOCATION_PEER_DUPLICATE
  | PeeringErrorCode_INTERNAL_ERROR
  | PeeringErrorCode_INVALID_TRANSIT_GATEWAY_STATE
  | PeeringErrorCode_MISSING_PERMISSIONS
  | PeeringErrorCode_TRANSIT_GATEWAY_NOT_FOUND
  | PeeringErrorCode_TRANSIT_GATEWAY_PEERS_LIMIT_EXCEEDED

fun PeeringErrorCode_text :: "PeeringErrorCode \<Rightarrow> string" where
  "PeeringErrorCode_text PeeringErrorCode_EDGE_LOCATION_PEER_DUPLICATE = ''EDGE_LOCATION_PEER_DUPLICATE''"
| "PeeringErrorCode_text PeeringErrorCode_INTERNAL_ERROR = ''INTERNAL_ERROR''"
| "PeeringErrorCode_text PeeringErrorCode_INVALID_TRANSIT_GATEWAY_STATE = ''INVALID_TRANSIT_GATEWAY_STATE''"
| "PeeringErrorCode_text PeeringErrorCode_MISSING_PERMISSIONS = ''MISSING_PERMISSIONS''"
| "PeeringErrorCode_text PeeringErrorCode_TRANSIT_GATEWAY_NOT_FOUND = ''TRANSIT_GATEWAY_NOT_FOUND''"
| "PeeringErrorCode_text PeeringErrorCode_TRANSIT_GATEWAY_PEERS_LIMIT_EXCEEDED = ''TRANSIT_GATEWAY_PEERS_LIMIT_EXCEEDED''"

lemma PeeringErrorCode_text_inject [simp]: "PeeringErrorCode_text a = PeeringErrorCode_text b \<longleftrightarrow> a = b"
  by (cases a; cases b) simp_all

section \<open>\<open>PeeringState\<close>\<close>

datatype PeeringState =
    PeeringState_AVAILABLE
  | PeeringState_CREATING
  | PeeringState_DELETING
  | PeeringState_FAILED

fun PeeringState_text :: "PeeringState \<Rightarrow> string" where
  "PeeringState_text PeeringState_AVAILABLE = ''AVAILABLE''"
| "PeeringState_text PeeringState_CREATING = ''CREATING''"
| "PeeringState_text PeeringState_DELETING = ''DELETING''"
| "PeeringState_text PeeringState_FAILED = ''FAILED''"

lemma PeeringState_text_inject [simp]: "PeeringState_text a = PeeringState_text b \<longleftrightarrow> a = b"
  by (cases a; cases b) simp_all

section \<open>\<open>PeeringType\<close>\<close>

datatype PeeringType =
    PeeringType_TRANSIT_GATEWAY

fun PeeringType_text :: "PeeringType \<Rightarrow> string" where
  "PeeringType_text PeeringType_TRANSIT_GATEWAY = ''TRANSIT_GATEWAY''"

lemma PeeringType_text_inject [simp]: "PeeringType_text a = PeeringType_text b \<longleftrightarrow> a = b"
  by (cases a; cases b) simp_all

section \<open>\<open>RouteAnalysisCompletionReasonCode\<close>\<close>

datatype RouteAnalysisCompletionReasonCode =
    RouteAnalysisCompletionReasonCode_BLACKHOLE_ROUTE_FOR_DESTINATION_FOUND
  | RouteAnalysisCompletionReasonCode_CYCLIC_PATH_DETECTED
  | RouteAnalysisCompletionReasonCode_INACTIVE_ROUTE_FOR_DESTINATION_FOUND
  | RouteAnalysisCompletionReasonCode_MAX_HOPS_EXCEEDED
  | RouteAnalysisCompletionReasonCode_NO_DESTINATION_ARN_PROVIDED
  | RouteAnalysisCompletionReasonCode_POSSIBLE_MIDDLEBOX
  | RouteAnalysisCompletionReasonCode_ROUTE_NOT_FOUND
  | RouteAnalysisCompletionReasonCode_TRANSIT_GATEWAY_ATTACHMENT_ATTACH_ARN_NO_MATCH
  | RouteAnalysisCompletionReasonCode_TRANSIT_GATEWAY_ATTACHMENT_NOT_FOUND
  | RouteAnalysisCompletionReasonCode_TRANSIT_GATEWAY_ATTACHMENT_NOT_IN_TRANSIT_GATEWAY
  | RouteAnalysisCompletionReasonCode_TRANSIT_GATEWAY_ATTACHMENT_STABLE_ROUTE_TABLE_NOT_FOUND

fun RouteAnalysisCompletionReasonCode_text :: "RouteAnalysisCompletionReasonCode \<Rightarrow> string" where
  "RouteAnalysisCompletionReasonCode_text RouteAnalysisCompletionReasonCode_BLACKHOLE_ROUTE_FOR_DESTINATION_FOUND = ''BLACKHOLE_ROUTE_FOR_DESTINATION_FOUND''"
| "RouteAnalysisCompletionReasonCode_text RouteAnalysisCompletionReasonCode_CYCLIC_PATH_DETECTED = ''CYCLIC_PATH_DETECTED''"
| "RouteAnalysisCompletionReasonCode_text RouteAnalysisCompletionReasonCode_INACTIVE_ROUTE_FOR_DESTINATION_FOUND = ''INACTIVE_ROUTE_FOR_DESTINATION_FOUND''"
| "RouteAnalysisCompletionReasonCode_text RouteAnalysisCompletionReasonCode_MAX_HOPS_EXCEEDED = ''MAX_HOPS_EXCEEDED''"
| "RouteAnalysisCompletionReasonCode_text RouteAnalysisCompletionReasonCode_NO_DESTINATION_ARN_PROVIDED = ''NO_DESTINATION_ARN_PROVIDED''"
| "RouteAnalysisCompletionReasonCode_text RouteAnalysisCompletionReasonCode_POSSIBLE_MIDDLEBOX = ''POSSIBLE_MIDDLEBOX''"
| "RouteAnalysisCompletionReasonCode_text RouteAnalysisCompletionReasonCode_ROUTE_NOT_FOUND = ''ROUTE_NOT_FOUND''"
| "RouteAnalysisCompletionReasonCode_text RouteAnalysisCompletionReasonCode_TRANSIT_GATEWAY_ATTACHMENT_ATTACH_ARN_NO_MATCH = ''TRANSIT_GATEWAY_ATTACHMENT_ATTACH_ARN_NO_MATCH''"
| "RouteAnalysisCompletionReasonCode_text RouteAnalysisCompletionReasonCode_TRANSIT_GATEWAY_ATTACHMENT_NOT_FOUND = ''TRANSIT_GATEWAY_ATTACHMENT_NOT_FOUND''"
| "RouteAnalysisCompletionReasonCode_text RouteAnalysisCompletionReasonCode_TRANSIT_GATEWAY_ATTACHMENT_NOT_IN_TRANSIT_GATEWAY = ''TRANSIT_GATEWAY_ATTACHMENT_NOT_IN_TRANSIT_GATEWAY''"
| "RouteAnalysisCompletionReasonCode_text RouteAnalysisCompletionReasonCode_TRANSIT_GATEWAY_ATTACHMENT_STABLE_ROUTE_TABLE_NOT_FOUND = ''TRANSIT_GATEWAY_ATTACHMENT_STABLE_ROUTE_TABLE_NOT_FOUND''"

lemma RouteAnalysisCompletionReasonCode_text_inject [simp]: "RouteAnalysisCompletionReasonCode_text a = RouteAnalysisCompletionReasonCode_text b \<longleftrightarrow> a = b"
  by (cases a; cases b) simp_all

section \<open>\<open>RouteAnalysisCompletionResultCode\<close>\<close>

datatype RouteAnalysisCompletionResultCode =
    RouteAnalysisCompletionResultCode_CONNECTED
  | RouteAnalysisCompletionResultCode_NOT_CONNECTED

fun RouteAnalysisCompletionResultCode_text :: "RouteAnalysisCompletionResultCode \<Rightarrow> string" where
  "RouteAnalysisCompletionResultCode_text RouteAnalysisCompletionResultCode_CONNECTED = ''CONNECTED''"
| "RouteAnalysisCompletionResultCode_text RouteAnalysisCompletionResultCode_NOT_CONNECTED = ''NOT_CONNECTED''"

lemma RouteAnalysisCompletionResultCode_text_inject [simp]: "RouteAnalysisCompletionResultCode_text a = RouteAnalysisCompletionResultCode_text b \<longleftrightarrow> a = b"
  by (cases a; cases b) simp_all

section \<open>\<open>RouteAnalysisStatus\<close>\<close>

datatype RouteAnalysisStatus =
    RouteAnalysisStatus_COMPLETED
  | RouteAnalysisStatus_FAILED
  | RouteAnalysisStatus_RUNNING

fun RouteAnalysisStatus_text :: "RouteAnalysisStatus \<Rightarrow> string" where
  "RouteAnalysisStatus_text RouteAnalysisStatus_COMPLETED = ''COMPLETED''"
| "RouteAnalysisStatus_text RouteAnalysisStatus_FAILED = ''FAILED''"
| "RouteAnalysisStatus_text RouteAnalysisStatus_RUNNING = ''RUNNING''"

lemma RouteAnalysisStatus_text_inject [simp]: "RouteAnalysisStatus_text a = RouteAnalysisStatus_text b \<longleftrightarrow> a = b"
  by (cases a; cases b) simp_all

section \<open>\<open>RouteState\<close>\<close>

datatype RouteState =
    RouteState_ACTIVE
  | RouteState_BLACKHOLE

fun RouteState_text :: "RouteState \<Rightarrow> string" where
  "RouteState_text RouteState_ACTIVE = ''ACTIVE''"
| "RouteState_text RouteState_BLACKHOLE = ''BLACKHOLE''"

lemma RouteState_text_inject [simp]: "RouteState_text a = RouteState_text b \<longleftrightarrow> a = b"
  by (cases a; cases b) simp_all

section \<open>\<open>RouteTableType\<close>\<close>

datatype RouteTableType =
    RouteTableType_CORE_NETWORK_SEGMENT
  | RouteTableType_NETWORK_FUNCTION_GROUP
  | RouteTableType_TRANSIT_GATEWAY_ROUTE_TABLE

fun RouteTableType_text :: "RouteTableType \<Rightarrow> string" where
  "RouteTableType_text RouteTableType_CORE_NETWORK_SEGMENT = ''CORE_NETWORK_SEGMENT''"
| "RouteTableType_text RouteTableType_NETWORK_FUNCTION_GROUP = ''NETWORK_FUNCTION_GROUP''"
| "RouteTableType_text RouteTableType_TRANSIT_GATEWAY_ROUTE_TABLE = ''TRANSIT_GATEWAY_ROUTE_TABLE''"

lemma RouteTableType_text_inject [simp]: "RouteTableType_text a = RouteTableType_text b \<longleftrightarrow> a = b"
  by (cases a; cases b) simp_all

section \<open>\<open>RouteType\<close>\<close>

datatype RouteType =
    RouteType_PROPAGATED
  | RouteType_STATIC

fun RouteType_text :: "RouteType \<Rightarrow> string" where
  "RouteType_text RouteType_PROPAGATED = ''PROPAGATED''"
| "RouteType_text RouteType_STATIC = ''STATIC''"

lemma RouteType_text_inject [simp]: "RouteType_text a = RouteType_text b \<longleftrightarrow> a = b"
  by (cases a; cases b) simp_all

section \<open>\<open>RoutingPolicyDirection\<close>\<close>

datatype RoutingPolicyDirection =
    RoutingPolicyDirection_inbound
  | RoutingPolicyDirection_outbound

fun RoutingPolicyDirection_text :: "RoutingPolicyDirection \<Rightarrow> string" where
  "RoutingPolicyDirection_text RoutingPolicyDirection_inbound = ''inbound''"
| "RoutingPolicyDirection_text RoutingPolicyDirection_outbound = ''outbound''"

lemma RoutingPolicyDirection_text_inject [simp]: "RoutingPolicyDirection_text a = RoutingPolicyDirection_text b \<longleftrightarrow> a = b"
  by (cases a; cases b) simp_all

section \<open>\<open>SegmentActionServiceInsertion\<close>\<close>

datatype SegmentActionServiceInsertion =
    SegmentActionServiceInsertion_send_to
  | SegmentActionServiceInsertion_send_via

fun SegmentActionServiceInsertion_text :: "SegmentActionServiceInsertion \<Rightarrow> string" where
  "SegmentActionServiceInsertion_text SegmentActionServiceInsertion_send_to = ''send-to''"
| "SegmentActionServiceInsertion_text SegmentActionServiceInsertion_send_via = ''send-via''"

lemma SegmentActionServiceInsertion_text_inject [simp]: "SegmentActionServiceInsertion_text a = SegmentActionServiceInsertion_text b \<longleftrightarrow> a = b"
  by (cases a; cases b) simp_all

section \<open>\<open>SendViaMode\<close>\<close>

datatype SendViaMode =
    SendViaMode_dual_hop
  | SendViaMode_single_hop

fun SendViaMode_text :: "SendViaMode \<Rightarrow> string" where
  "SendViaMode_text SendViaMode_dual_hop = ''dual-hop''"
| "SendViaMode_text SendViaMode_single_hop = ''single-hop''"

lemma SendViaMode_text_inject [simp]: "SendViaMode_text a = SendViaMode_text b \<longleftrightarrow> a = b"
  by (cases a; cases b) simp_all

section \<open>\<open>SiteState\<close>\<close>

datatype SiteState =
    SiteState_AVAILABLE
  | SiteState_DELETING
  | SiteState_PENDING
  | SiteState_UPDATING

fun SiteState_text :: "SiteState \<Rightarrow> string" where
  "SiteState_text SiteState_AVAILABLE = ''AVAILABLE''"
| "SiteState_text SiteState_DELETING = ''DELETING''"
| "SiteState_text SiteState_PENDING = ''PENDING''"
| "SiteState_text SiteState_UPDATING = ''UPDATING''"

lemma SiteState_text_inject [simp]: "SiteState_text a = SiteState_text b \<longleftrightarrow> a = b"
  by (cases a; cases b) simp_all

section \<open>\<open>TransitGatewayConnectPeerAssociationState\<close>\<close>

datatype TransitGatewayConnectPeerAssociationState =
    TransitGatewayConnectPeerAssociationState_AVAILABLE
  | TransitGatewayConnectPeerAssociationState_DELETED
  | TransitGatewayConnectPeerAssociationState_DELETING
  | TransitGatewayConnectPeerAssociationState_PENDING

fun TransitGatewayConnectPeerAssociationState_text :: "TransitGatewayConnectPeerAssociationState \<Rightarrow> string" where
  "TransitGatewayConnectPeerAssociationState_text TransitGatewayConnectPeerAssociationState_AVAILABLE = ''AVAILABLE''"
| "TransitGatewayConnectPeerAssociationState_text TransitGatewayConnectPeerAssociationState_DELETED = ''DELETED''"
| "TransitGatewayConnectPeerAssociationState_text TransitGatewayConnectPeerAssociationState_DELETING = ''DELETING''"
| "TransitGatewayConnectPeerAssociationState_text TransitGatewayConnectPeerAssociationState_PENDING = ''PENDING''"

lemma TransitGatewayConnectPeerAssociationState_text_inject [simp]: "TransitGatewayConnectPeerAssociationState_text a = TransitGatewayConnectPeerAssociationState_text b \<longleftrightarrow> a = b"
  by (cases a; cases b) simp_all

section \<open>\<open>TransitGatewayRegistrationState\<close>\<close>

datatype TransitGatewayRegistrationState =
    TransitGatewayRegistrationState_AVAILABLE
  | TransitGatewayRegistrationState_DELETED
  | TransitGatewayRegistrationState_DELETING
  | TransitGatewayRegistrationState_FAILED
  | TransitGatewayRegistrationState_PENDING

fun TransitGatewayRegistrationState_text :: "TransitGatewayRegistrationState \<Rightarrow> string" where
  "TransitGatewayRegistrationState_text TransitGatewayRegistrationState_AVAILABLE = ''AVAILABLE''"
| "TransitGatewayRegistrationState_text TransitGatewayRegistrationState_DELETED = ''DELETED''"
| "TransitGatewayRegistrationState_text TransitGatewayRegistrationState_DELETING = ''DELETING''"
| "TransitGatewayRegistrationState_text TransitGatewayRegistrationState_FAILED = ''FAILED''"
| "TransitGatewayRegistrationState_text TransitGatewayRegistrationState_PENDING = ''PENDING''"

lemma TransitGatewayRegistrationState_text_inject [simp]: "TransitGatewayRegistrationState_text a = TransitGatewayRegistrationState_text b \<longleftrightarrow> a = b"
  by (cases a; cases b) simp_all

section \<open>\<open>TunnelProtocol\<close>\<close>

datatype TunnelProtocol =
    TunnelProtocol_GRE
  | TunnelProtocol_NO_ENCAP

fun TunnelProtocol_text :: "TunnelProtocol \<Rightarrow> string" where
  "TunnelProtocol_text TunnelProtocol_GRE = ''GRE''"
| "TunnelProtocol_text TunnelProtocol_NO_ENCAP = ''NO_ENCAP''"

lemma TunnelProtocol_text_inject [simp]: "TunnelProtocol_text a = TunnelProtocol_text b \<longleftrightarrow> a = b"
  by (cases a; cases b) simp_all

section \<open>\<open>ValidationExceptionReason\<close>\<close>

datatype ValidationExceptionReason =
    ValidationExceptionReason_CannotParse
  | ValidationExceptionReason_FieldValidationFailed
  | ValidationExceptionReason_Other
  | ValidationExceptionReason_UnknownOperation

fun ValidationExceptionReason_text :: "ValidationExceptionReason \<Rightarrow> string" where
  "ValidationExceptionReason_text ValidationExceptionReason_CannotParse = ''CannotParse''"
| "ValidationExceptionReason_text ValidationExceptionReason_FieldValidationFailed = ''FieldValidationFailed''"
| "ValidationExceptionReason_text ValidationExceptionReason_Other = ''Other''"
| "ValidationExceptionReason_text ValidationExceptionReason_UnknownOperation = ''UnknownOperation''"

lemma ValidationExceptionReason_text_inject [simp]: "ValidationExceptionReason_text a = ValidationExceptionReason_text b \<longleftrightarrow> a = b"
  by (cases a; cases b) simp_all

section \<open>Properties\<close>

text \<open>
  The constants of each of the 37 enumerations are pairwise different texts, so the string in
  a field such as \<open>status.state\<close> names at most one constant of its enumeration.
\<close>

lemma enumerations_distinct:
  "inj AttachmentErrorCode_text \<and>
    inj AttachmentState_text \<and>
    inj AttachmentType_text \<and>
    inj ChangeAction_text \<and>
    inj ChangeSetState_text \<and>
    inj ChangeStatus_text \<and>
    inj ChangeType_text \<and>
    inj ConnectPeerAssociationState_text \<and>
    inj ConnectPeerErrorCode_text \<and>
    inj ConnectPeerState_text \<and>
    inj ConnectionState_text \<and>
    inj ConnectionStatus_text \<and>
    inj ConnectionType_text \<and>
    inj CoreNetworkPolicyAlias_text \<and>
    inj CoreNetworkState_text \<and>
    inj CustomerGatewayAssociationState_text \<and>
    inj DeviceState_text \<and>
    inj state_string \<and>
    inj LinkAssociationState_text \<and>
    inj LinkState_text \<and>
    inj PeeringErrorCode_text \<and>
    inj PeeringState_text \<and>
    inj PeeringType_text \<and>
    inj RouteAnalysisCompletionReasonCode_text \<and>
    inj RouteAnalysisCompletionResultCode_text \<and>
    inj RouteAnalysisStatus_text \<and>
    inj RouteState_text \<and>
    inj RouteTableType_text \<and>
    inj RouteType_text \<and>
    inj RoutingPolicyDirection_text \<and>
    inj SegmentActionServiceInsertion_text \<and>
    inj SendViaMode_text \<and>
    inj SiteState_text \<and>
    inj TransitGatewayConnectPeerAssociationState_text \<and>
    inj TransitGatewayRegistrationState_text \<and>
    inj TunnelProtocol_text \<and>
    inj ValidationExceptionReason_text"
  by (simp add: inj_def)

end
