(* ===== verification/Spec2Isabelle.thy ===== *)
theory Spec2Isabelle
  imports ConcurrencyWitnesses Faults MemoryWitnesses ApiEnums
begin

text \<open>
  A model of the ACK service controller for AWS Network Manager. The controller keeps the
  AWS resource behind every Kubernetes object of kind \<open>GlobalNetwork\<close> in the state the object
  asks for. The reconciliation loop itself belongs to the ACK runtime, a library; this
  repository supplies what the loop calls: the resource manager with its operations on the
  AWS API, the resource object, the descriptor and the factory of managers.

  \<^bold>\<open>The theories, and the code they model.\<close> Paths are below \<open>src/\<close>; \<open>gn/\<close> is
  \<open>pkg/resource/global_network/\<close>.

  \<^item> \<open>GoPrelude\<close>: the reading of Go values. A pointer is an \<open>option\<close>, a slice an optional
    list, a run-time panic the value \<open>Panic\<close> of \<open>outcome\<close>, a map an association list with
    distinct keys whose iteration order is a parameter. Locale \<open>key_map\<close> with the facts on
    loops over maps, interpreted as \<open>gm\<close>.
  \<^item> \<open>ApiTypes\<close>: \<open>apis/v1alpha1/global_network.go\<close>, \<open>apis/v1alpha1/groupversion_info.go\<close>, \<open>Tag\<close> of
    \<open>apis/v1alpha1/types.go\<close>, \<open>GlobalNetworkState\<close> of \<open>apis/v1alpha1/enums.go\<close>; tag lists as
    maps (\<open>tag_map\<close>). \<open>ApiEnums\<close>: the other enumerations of \<open>enums.go\<close>.
  \<^item> \<open>AckRuntime\<close>: the libraries as parameters: the record \<open>ack_runtime\<close> of the functions of
    the ACK runtime and of Kubernetes, the record \<open>svcsdk_Client\<close> of the calls of the AWS SDK,
    and the predicates (\<open>tags_lib_ok\<close>, \<open>compare_lib_ok\<close>, \<open>errors_lib_ok\<close> and others) that
    state what the properties rely on of their documented behaviour.
  \<^item> \<open>ResourceTags\<close>: \<open>gn/tags.go\<close>. The two conversions between tag lists and tag maps, the
    filters of system tags. Locale \<open>tag_codec\<close> for a pair of conversions, interpreted as \<open>codec\<close>.
  \<^item> \<open>TagSync\<close>: \<open>pkg/tags/sync.go\<close>. The comparison of desired and existing tags and the
    calls to \<open>TagResource\<close> and \<open>UntagResource\<close>.
  \<^item> \<open>ResourceDelta\<close>: \<open>gn/delta.go\<close>. The difference of two resources.
  \<^item> \<open>StatusConditions\<close>: the struct \<open>resourceManager\<close>, and the parts of \<open>gn/sdk.go\<close> and
    \<open>gn/manager.go\<close> on the status: its defaults, its conditions, the classification of errors.
    \<open>conditions_spec\<close> is the specification of \<open>updateConditions\<close> on the map from condition
    types to conditions; \<open>update_conditions_refines\<close> is the refinement.
  \<^item> \<open>SdkOps\<close>: \<open>gn/sdk.go\<close>, \<open>gn/hooks.go\<close>. Find, create, update, delete, with their request
    payloads and the merge of the responses into the resource.
  \<^item> \<open>NetworkService\<close>: no code; the contract of the AWS service (\<open>service_ok\<close>) as a map from
    identifiers to networks (\<open>nets\<close>) and from ARNs to tags (\<open>tagging\<close>), and what the four
    operations achieve against it.
  \<^item> \<open>Manager\<close>: \<open>gn/manager.go\<close>. The methods the reconciler calls.
  \<^item> \<open>ResourceObject\<close>: \<open>gn/resource.go\<close>, \<open>gn/identifiers.go\<close>, \<open>gn/descriptor.go\<close>,
    \<open>gn/references.go\<close>.
  \<^item> \<open>ManagerFactory\<close>: \<open>gn/manager_factory.go\<close>. The cache of managers, for one call alone
    (\<open>ManagerFor\<close>) and for concurrent calls as a step relation over the read-write lock.
  \<^item> \<open>Startup\<close>: \<open>cmd/controller/main.go\<close>, \<open>pkg/resource/registry.go\<close>, \<open>pkg/version\<close> and the
    \<open>init\<close> functions. The process from its initialisers to its exit status; the calls of the
    ACK runtime and of controller-runtime are the record \<open>start_lib\<close>.
  \<^item> \<open>GoHeap\<close>: structs, arrays and strings as cells of an explicit heap. Locale \<open>deep_copy\<close>, the
    contract of a copy, with rules that make copies of pointers, arrays and structs out of
    copies of their parts; the loop over an array is proved once, in \<open>array_loop\<close>.
  \<^item> \<open>HeapCopy\<close>: \<open>apis/v1alpha1/zz_generated.deepcopy.go\<close>, for the resource, its parts and the list
    of resources.
  \<^item> \<open>MemoryTags\<close>: \<open>gn/tags.go\<close> and the three tag methods of \<open>gn/manager.go\<close> once more over this heap,
    with the cells they make and the one they change (the names end in \<open>_mem\<close>).
  \<^item> \<open>SeparateCopy\<close>: no cell of a copy is reached in two ways, whatever the original shares; locale
    \<open>separate_copy\<close>, which extends \<open>deep_copy\<close>.
  \<^item> \<open>MemoryConditions\<close>, \<open>ConditionsRefined\<close>: \<open>setStatusDefaults\<close> and \<open>updateConditions\<close> of \<open>gn/sdk.go\<close> over the
    heap: the copy, the pointers into it that are kept and assigned through, and the pointers to fields of
    the manager. \<open>owned\<close> says what holds of the copy while it is changed.
  \<^item> \<open>MemorySdk\<close>, \<open>MemoryOps\<close>: the operations of \<open>gn/sdk.go\<close> and the four methods of \<open>gn/manager.go\<close> that call them,
    over the heap: requests that point to strings of the resource, the copy of the resource, the merge that
    points it to strings of the output (\<open>merging\<close>), and the end of a method. \<open>client_in_memory\<close> is the contract of the client.
  \<^item> \<open>JsonCodec\<close>: JSON values, and encoders and decoders of pointers, slices, members and structs.
    Locale \<open>json_codec\<close> for the codec of a type, \<open>json_members\<close> for the members of a struct.
    \<open>ResourceJson\<close>: the struct tags of \<open>apis/v1alpha1/global_network.go\<close> and of \<open>Tag\<close>.
  \<^item> \<open>StructCopies\<close>, \<open>CoreNetworkCopies\<close>, \<open>SiteCopies\<close>, \<open>RouteCopies\<close>, \<open>GeneratedCopies\<close>: the other 47
    structs of \<open>types.go\<close> and their copies. For each struct \<open>X\<close> a record of pointers, the functions
    \<open>X_DeepCopyInto\<close> and \<open>X_DeepCopy\<close>, and the lemma \<open>X_copied\<close>, which the rules of \<open>StructCopies\<close> prove.
  \<^item> \<open>Reconcile\<close>: the operations in the order in which the runtime calls them for an object that
    names a network (\<open>reconcile_pass\<close>) and for one that may have to be created
    (\<open>reconcile_sync\<close>, which is \<open>read_stage\<close> and then \<open>write_stage\<close>), and the law of a pass.
  \<^item> \<open>ApiCalls\<close>: which calls of the AWS API an operation makes, how often and in which order, with no
    assumption on the service. Locale \<open>call_relation\<close> for a relation between states of the world that every
    call keeps and therefore every operation; \<open>logged\<close>, a client that logs the calls it answers.
  \<^item> \<open>ErrorSource\<close>: that an error comes from a call that failed (\<open>faulted\<close>), \<open>NotFound\<close> apart.
  \<^item> \<open>Isolation\<close>: what an operation leaves alone, by interpretations of \<open>call_relation\<close>; \<open>calls_local\<close>, the
    contract of a service that changes only what a call names; \<open>create_leaves\<close>, how many networks a creation
    may leave behind that answers an error.
  \<^item> \<open>Lifecycle\<close>: the life of an object as a step relation (\<open>life_step\<close>): edits, reconciliations,
    failures, status patches and deletions in any order; its invariant \<open>life_inv\<close>. \<open>ids_unique\<close> is what it
    relies on of the identifiers the service gives. \<open>retry\<close>: reconciliations of one object after errors.
  \<^item> \<open>Fleet\<close>: any number of objects in one account, their lives interleaved (\<open>fleet_step\<close>); its
    invariant \<open>fleet_inv\<close>.
  \<^item> \<open>Controller\<close>: many objects in the API server and a worker on each (\<open>cluster_step\<close>): edits, patches,
    the finalizer, storing as JSON, and the two stages of a reconciliation or a deletion, interleaved;
    a controller that is stopped before it could store an object (\<open>cluster_stop\<close>); runs that count these stops (\<open>cluster_run\<close>);
    its invariant \<open>cluster_inv\<close>, which \<open>Concurrency\<close> proves; \<open>lost_within\<close> counts the networks no object names.
  \<^item> \<open>Faults\<close>: no code; a service any of whose calls may be lost, or carried out without an answer, keeps
    every contract the service keeps.
  \<^item> \<open>ExampleService\<close>, \<open>ExampleJson\<close>, \<open>ExampleMemory\<close>, \<open>Witnesses\<close>, \<open>LifeWitnesses\<close>, \<open>ConcurrencyWitnesses\<close>,
    \<open>CopyWitnesses\<close>, \<open>MemoryWitnesses\<close>: a concrete runtime, a concrete service, concrete codecs and a concrete heap that
    satisfy every hypothesis, and an instance of every property that has hypotheses.

  \<^bold>\<open>How state corresponds.\<close> The world of an operation is the record \<open>env\<close>: the state of
  the AWS service, of any type, and the list of the calls recorded by the metrics recorder.
  An operation takes the world and returns an \<open>outcome\<close> and the world it leaves. Objects the
  code changes in place (the argument of \<open>EnsureTags\<close>, \<open>FilterSystemTags\<close>, \<open>ReadOne\<close>,
  \<open>MarkManaged\<close> and so on) are returned changed. A Go method that returns a value and an error
  returns a pair. The order in which a loop visits a map is chosen by a schedule (\<open>sched\<close>), one
  order for each loop of a call; every property holds for every schedule.

  \<^bold>\<open>What the lemmas show.\<close>
  The tag theories show that a tag list goes through the map and back unchanged, that
  default tags never override the user's, that exactly the system tags are filtered, and that
  \<open>SyncTags\<close> brings the tags of the service to the desired ones with at most one call of each
  kind, and when it panics.
  The status theories show the conditions an error or a success leaves, and the error the
  reconciler is told. \<open>SdkOps\<close>, \<open>NetworkService\<close> and \<open>Manager\<close> show each operation against the
  service, success and failure. \<open>ManagerFactory\<close> shows the invariant of the concurrent cache,
  that calls neither deadlock nor return the manager of another account or
  region, that every call returns and the lock is free then, and that two calls can make two managers for one key. \<open>Startup\<close> shows that the exit
  status and the log agree, and what a running controller was set up with. \<open>HeapCopy\<close> and
  \<open>GeneratedCopies\<close> show that every generated copy is equal to and independent of its original,
  which is what lets the other theories treat objects as values; \<open>MemoryTags\<close> shows that the methods that
  change an object in place change its cell only and do in memory what they do on values, and
  \<open>ConditionsRefined\<close> that assigning to conditions through pointers does what the index into the list stands for. \<open>MemoryOps\<close> joins
  them: whole methods do in memory what \<open>Manager\<close> says of them on values, and of the objects that were there they change
  only the one a read was given.
  \<open>ResourceJson\<close> shows that an object comes back from the API server without a difference the
  controller would act on.
  \<open>ApiCalls\<close> and \<open>Isolation\<close> hold on every branch, errors and panics included: few calls, all of them
  recorded, none after a failed one, no network touched but the object's own. \<open>ErrorSource\<close> shows that an
  error has a cause in the service. \<open>Reconcile\<close> shows that an object with the identifier but not the ARN of its
  network, as adoption makes one, cannot be brought to other tags. \<open>Lifecycle\<close> composes all of it: over its whole life an
  object leaves the networks of others alone and keeps the identifiers of its own, and retries succeed
  once the calls of the API no longer fail. \<open>Fleet\<close> shows of many objects
  side by side that no two name one network, and that a reconciliation at any point brings the object's network to
  what it asks for unless a call of the API failed. \<open>Concurrency\<close> shows it for
  reconciliations that overlap, stage by stage, with the finalizer keeping an object from going
  before its network: the objects and the networks made for them belong together one to one, but for at most one network lost
  each time the controller is stopped and those a creation leaves behind that answers an error; and a
  worker ends as it began to whatever the others did meanwhile.
  The properties below are about a single pass: it converges, and a second one finds nothing to do.

  \<^bold>\<open>Bounds and termination.\<close> All loops of the code range over finite lists and maps and are
  structural recursions or folds; no fuel is used. Go strings are lists of characters, no
  property depends on their length.

  \<^bold>\<open>What is not modelled.\<close> Logging and tracing, except for the dereferences in their
  arguments. Memory is explicit for the generated copies, the tag functions, the conditions and the operations of the manager; the
  other functions (the delta, the descriptor, the identifiers, the factory) are modelled on values. In memory the
  maps and the requests of \<open>SyncTags\<close> are values, since it writes to no object. The order in which the read-write lock admits calls that wait for it. Other actors
  on the account beside the objects of a cluster. Of the runtime: when it retries or requeues, and conflict
  handling; a stage of a reconciliation is one step: a controller is stopped between stages or
  before an object is stored, and a stop between two calls of one stage is a stage whose remaining calls fail
  (\<open>Faults\<close>), with its calls not interleaved with those of other objects; and a worker begins with the
  object as it is stored, not with an older copy of it. Adoption by
  annotation is modelled as an operation but is not a step of the cluster, since it lets
  two objects name one network. The text of JSON (\<open>encoding/json\<close> turns the values of \<open>JsonCodec\<close>
  into text) and the JSON form of the structs that are not part of the resource. Blank
  declarations that only keep imports alive, the scheme and the logger, which are values of libraries.
  Helm charts, manifests and end-to-end tests.
\<close>

section \<open>Properties\<close>

text \<open>
  C4: a reconciliation pass brings the network to the desired state and touches no tag that
  is not the user's. It begins with an object that has been reconciled before: it carries the identifier of an
  existing network and in its metadata the ARN of that network, at most one condition of each type, and tags
  with keys and values (\<open>pass_pre\<close>; without the ARN it may panic, see \<open>adopted_pass_panics\<close> of \<open>Reconcile\<close>).
  From such an object a pass never panics: a call of the API failed, or else the network has, for every key that is neither an \<open>aws:\<close> key nor a
  system key, the tag of the spec or else the default tag or none, whatever it had before;
  every other tag is as it was; it has the desired description, if there is one; and the object
  returned still names the network.
\<close>

theorem pass_converges:
  assumes "service_ok rt (sdkapi rm) nets tagging"
    and "tags_lib_ok rt" and "compare_lib_ok rt" and "errors_lib_ok rt" and "condition_types_ok rt"
    and "nets (svc w) i = Some n" and "pass_pre g i n"
  shows "\<exists>res w'. reconcile_pass rt s rm md systemTags (ResourcePtr (Some \<lparr>ko = Some g\<rparr>)) w = (Ret res, w') \<and>
    (case res of
       Inl e \<Rightarrow> faulted w w'
     | Inr (d, out) \<Rightarrow> \<exists>g' n'. out = ResourcePtr (Some \<lparr>ko = Some g'\<rparr>) \<and> GlobalNetworkID (Status g') = Some i \<and>
         nets (svc w') i = Some n' \<and>
         (\<forall>k. net_tags n' k =
            (if prefix ''aws:'' k \<or> k \<in> set systemTags then net_tags n k
             else (mget (GetDefaultTags rt (cfg rm) g md) ++ tag_map (Tags (Spec g))) k)) \<and>
         sdk_Description n' = (if Description (Spec g) = None then sdk_Description n else Description (Spec g)))"
  by (rule pass_law [OF assms, of s md systemTags])
    (auto simp: own_key_def aws_key_def wanted_tags_def dest: pass_honest [OF assms(1,2,4-7)])

theorem pass_converges_witness:
  "\<exists>d out w' n'. ex_pass ex_env = (Ret (Inr (d, out)), w') \<and>
    example_nets (svc w') ''n1'' = Some n' \<and> net_tags n' ''env'' = Some ''prod'' \<and>
    net_tags n' ''aws:stack'' = Some ''s1'' \<and> net_tags n' ''tmp'' = None \<and> sdk_Description n' = Some ''new''"
proof -
  obtain d out w' where run: "ex_pass ex_env = (Ret (Inr (d, out)), w')"
    using ex_pass_twice pass_okE by blast
  obtain n' where n': "example_nets (svc w') ''n1'' = Some n'"
    and tags: "\<forall>k. net_tags n' k =
       (if prefix ''aws:'' k \<or> k \<in> set [] then net_tags ex_network k
        else (mget (GetDefaultTags example_rt (cfg ex_rm) ex_desired ''v1'') ++ tag_map (Tags (Spec ex_desired))) k)"
    and desc: "sdk_Description n' = (if Description (Spec ex_desired) = None then sdk_Description ex_network
       else Description (Spec ex_desired))"
    using pass_converges [OF ex_service ex_libs ex_network_found ex_pass_pre, of "\<lambda>_. ex_sched" "''v1''" "[]"] run
    by auto
  have "net_tags n' ''env'' = Some ''prod''" "net_tags n' ''aws:stack'' = Some ''s1''" "net_tags n' ''tmp'' = None"
    by (simp_all add: tags ex_network_tags ex_desired_tags example_rt_def mget_def)
  with run n' desc show ?thesis by (auto simp: ex_desired_def)
qed

text \<open>
  C5: a second pass over the same object finds nothing to do: its delta does not differ at the
  tags, and nowhere else if a description is desired.
\<close>

theorem pass_settles:
  assumes "service_ok rt (sdkapi rm) nets tagging"
    and "tags_lib_ok rt" and "compare_lib_ok rt" and "errors_lib_ok rt" and "condition_types_ok rt"
    and "nets (svc w) i = Some n" and "pass_pre g i n"
    and "reconcile_pass rt s rm md systemTags (ResourcePtr (Some \<lparr>ko = Some g\<rparr>)) w = (Ret (Inr (d, out)), w')"
    and "reconcile_pass rt s' rm md systemTags (ResourcePtr (Some \<lparr>ko = Some g\<rparr>)) w' = (Ret (Inr (d', out')), w'')"
  shows "\<not> DifferentAt rt d' ''Spec.Tags'' \<and>
    (Description (Spec g) \<noteq> None \<longrightarrow> \<not> DifferentExcept rt d' [''Spec.Tags''])"
proof -
  obtain n' where n': "nets (svc w') i = Some n'"
    and tags: "\<And>k. net_tags n' k = (if own_key systemTags k then wanted_tags rt rm md g k else net_tags n k)"
    and desc: "sdk_Description n' = (if Description (Spec g) = None then sdk_Description n else Description (Spec g))"
    and arn: "sdk_GlobalNetworkArn n' = sdk_GlobalNetworkArn n"
    by (rule pass_law [OF assms(1-7), of s md systemTags]) (use assms(8) in \<open>auto intro: that\<close>)
  have pre: "pass_pre g i n'" using assms(7) arn by (simp add: pass_pre_def identifies_def)
  show ?thesis
    by (rule pass_law [OF assms(1-5) n' pre, of s' md systemTags]) (use assms(9) in \<open>auto simp: tags desc\<close>)
qed

theorem pass_settles_witness:
  "\<exists>d out w' d' out' w''. ex_pass ex_env = (Ret (Inr (d, out)), w') \<and> ex_pass w' = (Ret (Inr (d', out')), w'') \<and>
    \<not> DifferentAt example_rt d' ''Spec.Tags'' \<and> \<not> DifferentExcept example_rt d' [''Spec.Tags'']"
proof -
  obtain d out w' where run: "ex_pass ex_env = (Ret (Inr (d, out)), w')"
    using ex_pass_twice pass_okE by blast
  obtain d' out' w'' where run': "ex_pass w' = (Ret (Inr (d', out')), w'')"
    using ex_pass_twice pass_okE by (metis run snd_conv)
  have "Description (Spec ex_desired) \<noteq> None" by (simp add: ex_desired_def)
  with pass_settles [OF ex_service ex_libs ex_network_found ex_pass_pre run run'] run run'
  show ?thesis by metis
qed

end
